(* ===== verification/WT_Prelude.thy ===== *)
theory WT_Prelude imports Complex_Main "HOL-Library.Word" "HOL-Library.List_Lexorder" "HOL-Library.Char_ord" begin

text \<open>
  Shared vocabulary of the development: the exceptions the WatchTower code raises, the result
  type every fallible operation returns, its sequencing combinators, decimal and hexadecimal
  rendering of integers (the f-strings of the error messages and json.dumps use them), and
  insertion-ordered dictionaries as association lists.  The lemmas declared [simp] here and the
  collections \<open>result_simps\<close> and \<open>dict_simps\<close> carry most of the component proofs.
\<close>

named_theorems result_simps \<open>inversion of the result combinators\<close>
named_theorems dict_simps \<open>lookup and update of insertion-ordered dictionaries\<close>

section \<open>Exceptions and results\<close>

text \<open>One constructor per exception class the modelled code raises; the payload is the message.\<close>

datatype py_error =
    AnalysisProtocolError string
  | AggregateCapabilityError "string list"
  | RustPlanIntegrityError string
  | RustPlanDriftError string
  | PacketQueryError string
  | BackendPolicyError string
  | EvidenceIntegrityError string
  | EvidenceKeyUnavailable string
  | ValueError string
  | RuntimeError string
  | EOFError string
  | TruncatedRustFrameError string
  | UnicodeDecodeError
  | StructError
  | TimeoutExpired
  | FileNotFoundError
  | FileExistsError
  | IndexError
  | KeyError
  | TypeError string
  | ZeroDivisionError
  | OverflowError
  | AuthError string string int
  | SigmaCompatibilityError string
  | AttributeError string
  | PermissionError string
  | RpcError string
  | InvalidToken
  | OSError

type_synonym 'a result = "py_error + 'a"

definition bindE :: "'a result \<Rightarrow> ('a \<Rightarrow> 'b result) \<Rightarrow> 'b result" where
  "bindE m f = (case m of Inl e \<Rightarrow> Inl e | Inr x \<Rightarrow> f x)"

definition guardE :: "bool \<Rightarrow> py_error \<Rightarrow> unit result" where
  "guardE c e = (if c then Inr () else Inl e)"

text \<open>A sequence of byte-producing steps run in order, each appended to the output buffer.\<close>

fun concatE :: "'a list result list \<Rightarrow> 'a list result" where
  "concatE [] = Inr []"
| "concatE (m # ms) = bindE m (\<lambda>x. bindE (concatE ms) (\<lambda>y. Inr (x @ y)))"

text \<open>A loop over a list whose body may raise: the results in order, or the first exception.\<close>

fun mapE :: "('a \<Rightarrow> 'b result) \<Rightarrow> 'a list \<Rightarrow> 'b list result" where
  "mapE f [] = Inr []"
| "mapE f (x # xs) = bindE (f x) (\<lambda>y. bindE (mapE f xs) (\<lambda>ys. Inr (y # ys)))"

fun foldE :: "('s \<Rightarrow> 'a \<Rightarrow> 's result) \<Rightarrow> 's \<Rightarrow> 'a list \<Rightarrow> 's result" where
  "foldE f s [] = Inr s"
| "foldE f s (x # xs) = bindE (f s x) (\<lambda>s'. foldE f s' xs)"

definition is_ok :: "'a result \<Rightarrow> bool" where
  "is_ok m = (case m of Inl _ \<Rightarrow> False | Inr _ \<Rightarrow> True)"

lemma bindE_simps [simp]:
  "bindE (Inr x) f = f x"
  "bindE (Inl e) f = Inl e"
  by (simp_all add: bindE_def)

lemma guardE_simps [simp]:
  "guardE True e = Inr ()"
  "guardE False e = Inl e"
  by (simp_all add: guardE_def)

lemma bindE_Inr [result_simps]: "bindE m f = Inr y \<longleftrightarrow> (\<exists>x. m = Inr x \<and> f x = Inr y)"
  by (cases m) simp_all

lemma bindE_Inl: "bindE m f = Inl e \<longleftrightarrow> m = Inl e \<or> (\<exists>x. m = Inr x \<and> f x = Inl e)"
  by (cases m) simp_all

lemma guardE_Inr [result_simps]: "guardE c e = Inr u \<longleftrightarrow> c"
  by (simp add: guardE_def)

lemma guardE_Inl: "guardE c e = Inl e' \<longleftrightarrow> \<not> c \<and> e' = e"
  by (auto simp: guardE_def)

lemma concatE_Cons_Inr [result_simps]:
  "concatE (m # ms) = Inr ys \<longleftrightarrow> (\<exists>x y. m = Inr x \<and> concatE ms = Inr y \<and> ys = x @ y)"
  by (auto simp: result_simps)

lemma is_ok_simps [simp]: "is_ok (Inr x)" "\<not> is_ok (Inl e)"
  by (simp_all add: is_ok_def)

lemma is_ok_iff: "is_ok m \<longleftrightarrow> (\<exists>x. m = Inr x)"
  by (cases m) simp_all

lemma is_ok_bindE: "is_ok (bindE m f) \<longleftrightarrow> (\<exists>x. m = Inr x \<and> is_ok (f x))"
  by (cases m) simp_all

lemma mapE_Inr_length: "mapE f xs = Inr ys \<Longrightarrow> length ys = length xs"
  by (induction xs arbitrary: ys) (auto simp: result_simps)

lemma mapE_Inr_nth: "mapE f xs = Inr ys \<Longrightarrow> i < length xs \<Longrightarrow> f (xs ! i) = Inr (ys ! i)"
  by (induction xs arbitrary: ys i) (auto simp: result_simps nth_Cons split: nat.splits)

lemma mapE_ok: "(\<And>x. x \<in> set xs \<Longrightarrow> is_ok (f x)) \<Longrightarrow> is_ok (mapE f xs)"
proof (induction xs)
  case (Cons x xs)
  then obtain y ys where "f x = Inr y" "mapE f xs = Inr ys"
    by (fastforce simp: is_ok_iff)
  then show ?case by simp
qed simp

lemma mapE_Inr_member: "mapE f xs = Inr ys \<Longrightarrow> y \<in> set ys \<Longrightarrow> \<exists>x\<in>set xs. f x = Inr y"
  by (induction xs arbitrary: ys) (auto simp: result_simps)

lemma mapE_map: "mapE f (map g xs) = mapE (\<lambda>x. f (g x)) xs"
  by (induction xs) simp_all

lemma concatE_map: "concatE (map f xs) = bindE (mapE f xs) (\<lambda>bs. Inr (concat bs))"
  by (induction xs) (auto simp: bindE_def split: sum.splits)

lemma concatE_map_Inr [result_simps]:
  "concatE (map f xs) = Inr ys \<longleftrightarrow> (\<exists>bss. mapE f xs = Inr bss \<and> ys = concat bss)"
  by (auto simp: concatE_map bindE_Inr)

lemma foldE_invariant:
  assumes "foldE f s xs = Inr s'" and "I s"
    and "\<And>s x s'. x \<in> set xs \<Longrightarrow> I s \<Longrightarrow> f s x = Inr s' \<Longrightarrow> I s'"
  shows "I s'"
  using assms by (induction xs arbitrary: s) (auto simp: result_simps)

section \<open>Integers as text\<close>

text \<open>Decimal digits, as \<open>str(n)\<close> and f-string interpolation print them.\<close>

definition digit_char :: "nat \<Rightarrow> char" where
  "digit_char d = char_of (48 + d)"

fun show_nat :: "nat \<Rightarrow> string" where
  "show_nat n = (if n < 10 then [digit_char n] else show_nat (n div 10) @ [digit_char (n mod 10)])"

declare show_nat.simps [simp del]

definition show_int :: "int \<Rightarrow> string" where
  "show_int i = (if i < 0 then CHR ''-'' # show_nat (nat (- i)) else show_nat (nat i))"

text \<open>Lower-case hexadecimal of a fixed width, as format \<open>02x\<close> and \<open>04x\<close> print it.\<close>

definition hex_char :: "nat \<Rightarrow> char" where
  "hex_char d = (if d < 10 then char_of (48 + d) else char_of (87 + d))"

fun show_hex :: "nat \<Rightarrow> nat \<Rightarrow> string" where
  "show_hex 0 n = []"
| "show_hex (Suc w) n = show_hex w (n div 16) @ [hex_char (n mod 16)]"

lemma digit_char_inj: "a < 10 \<Longrightarrow> b < 10 \<Longrightarrow> digit_char a = digit_char b \<longleftrightarrow> a = b"
  by (auto simp: digit_char_def char_of_eq_iff take_bit_eq_mod dest: arg_cong [where f = "of_char :: char \<Rightarrow> nat"])

lemma digit_char_range: "d < 10 \<Longrightarrow> 48 \<le> (of_char (digit_char d) :: nat) \<and> (of_char (digit_char d) :: nat) < 58"
  by (simp add: digit_char_def)

lemma show_nat_nonempty [simp]: "show_nat n \<noteq> []"
  by (subst show_nat.simps) simp

lemma show_nat_digits: "c \<in> set (show_nat n) \<Longrightarrow> 48 \<le> (of_char c :: nat) \<and> (of_char c :: nat) < 58"
proof (induction n rule: show_nat.induct)
  case (1 n)
  show ?case
  proof (cases "n < 10")
    case True
    with "1.prems" show ?thesis by (subst (asm) show_nat.simps) (simp add: digit_char_range)
  next
    case False
    have r: "48 \<le> (of_char (digit_char (n mod 10)) :: nat) \<and> (of_char (digit_char (n mod 10)) :: nat) < 58"
      by (rule digit_char_range) simp
    from "1.prems" False have "c \<in> set (show_nat (n div 10)) \<or> c = digit_char (n mod 10)"
      by (subst (asm) show_nat.simps) auto
    with "1.IH" False r show ?thesis by blast
  qed
qed

lemma show_nat_inj: "show_nat m = show_nat n \<longleftrightarrow> m = n"
proof (induction m arbitrary: n rule: show_nat.induct)
  case (1 m)
  show ?case
  proof (cases "m < 10 \<or> n < 10")
    case True
    then show ?thesis
      by (subst (1 2) show_nat.simps) (auto simp: digit_char_inj dest: sym [of "[]"])
  next
    case False
    then have "show_nat m = show_nat n \<longleftrightarrow> m div 10 = n div 10 \<and> m mod 10 = n mod 10"
      using "1" by (subst (1 2) show_nat.simps) (simp add: digit_char_inj)
    then show ?thesis by (metis div_mult_mod_eq)
  qed
qed

lemma show_int_nonempty [simp]: "show_int i \<noteq> []"
  by (simp add: show_int_def)

lemma minus_not_in_show_nat: "show_nat n \<noteq> CHR ''-'' # xs"
proof
  assume "show_nat n = CHR ''-'' # xs"
  then have "CHR ''-'' \<in> set (show_nat n)" by simp
  from show_nat_digits [OF this] show False by simp
qed

lemma show_int_inj: "show_int i = show_int j \<longleftrightarrow> i = j"
  by (auto simp: show_int_def show_nat_inj minus_not_in_show_nat minus_not_in_show_nat [symmetric])

lemma show_int_chars:
  "c \<in> set (show_int i) \<Longrightarrow> c = CHR ''-'' \<or> 48 \<le> (of_char c :: nat) \<and> (of_char c :: nat) < 58"
  by (auto simp: show_int_def split: if_splits dest: show_nat_digits)

lemma length_show_hex [simp]: "length (show_hex w n) = w"
  by (induction w arbitrary: n) simp_all

section \<open>Insertion-ordered dictionaries\<close>

text \<open>
  A Python dict keeps the order in which its keys were first stored: storing under an existing
  key replaces the value in place, a new key goes to the end.
\<close>

type_synonym ('k, 'v) dict = "('k \<times> 'v) list"

fun dict_get :: "('k, 'v) dict \<Rightarrow> 'k \<Rightarrow> 'v option" where
  "dict_get [] k = None"
| "dict_get ((a, v) # d) k = (if a = k then Some v else dict_get d k)"

fun dict_set :: "('k, 'v) dict \<Rightarrow> 'k \<Rightarrow> 'v \<Rightarrow> ('k, 'v) dict" where
  "dict_set [] k v = [(k, v)]"
| "dict_set ((a, w) # d) k v = (if a = k then (a, v) # d else (a, w) # dict_set d k v)"

fun dict_pop :: "('k, 'v) dict \<Rightarrow> 'k \<Rightarrow> ('k, 'v) dict" where
  "dict_pop [] k = []"
| "dict_pop ((a, w) # d) k = (if a = k then d else (a, w) # dict_pop d k)"

definition dict_update :: "('k, 'v) dict \<Rightarrow> ('k, 'v) dict \<Rightarrow> ('k, 'v) dict" where
  "dict_update d e = foldl (\<lambda>acc (k, v). dict_set acc k v) d e"

abbreviation dict_keys :: "('k, 'v) dict \<Rightarrow> 'k list" where
  "dict_keys d \<equiv> map fst d"

definition dict_ok :: "('k, 'v) dict \<Rightarrow> bool" where
  "dict_ok d \<longleftrightarrow> distinct (dict_keys d)"

lemma dict_get_map_of [dict_simps]: "dict_get d k = map_of d k"
  by (induction d) auto

lemma dict_set_get [dict_simps]: "map_of (dict_set d k v) = (map_of d)(k \<mapsto> v)"
  by (induction d) (auto simp: fun_eq_iff)

lemma dict_set_keys: "fst ` set (dict_set d k v) = insert k (fst ` set d)"
proof (induction d)
  case (Cons p d)
  then show ?case by (cases p) auto
qed simp

lemma dict_set_ok [simp]: "dict_ok d \<Longrightarrow> dict_ok (dict_set d k v)"
proof (induction d)
  case (Cons p d)
  then show ?case by (cases p) (auto simp: dict_ok_def dict_set_keys)
qed (simp add: dict_ok_def)

lemma dict_ok_Nil [simp]: "dict_ok []"
  by (simp add: dict_ok_def)

lemma dict_set_new: "k \<notin> fst ` set d \<Longrightarrow> dict_set d k v = d @ [(k, v)]"
  by (induction d) auto

lemma length_dict_set: "length (dict_set d k v) = (if k \<in> fst ` set d then length d else Suc (length d))"
proof (induction d)
  case (Cons p d)
  then show ?case by (cases p) auto
qed simp

lemma dict_pop_absent: "k \<notin> fst ` set d \<Longrightarrow> dict_pop d k = d"
  by (induction d) auto

lemma dict_pop_filter: "dict_ok d \<Longrightarrow> dict_pop d k = filter (\<lambda>p. fst p \<noteq> k) d"
proof (induction d)
  case (Cons p d)
  then show ?case
    by (cases p) (auto simp: dict_ok_def intro!: sym [OF filter_True])
qed simp

lemma dict_pop_ok [simp]: "dict_ok d \<Longrightarrow> dict_ok (dict_pop d k)"
  by (simp add: dict_pop_filter dict_ok_def distinct_map_filter)

lemma dict_pop_keys: "dict_ok d \<Longrightarrow> fst ` set (dict_pop d k) = fst ` set d - {k}"
  by (auto simp: dict_pop_filter)

lemma dict_pop_get [dict_simps]: "dict_ok d \<Longrightarrow> map_of (dict_pop d k) = (map_of d)(k := None)"
proof (induction d)
  case (Cons p d)
  then show ?case
    by (cases p) (auto simp: dict_ok_def fun_eq_iff map_of_eq_None_iff)
qed simp

lemma length_dict_pop: "length (dict_pop d k) = (if k \<in> fst ` set d then length d - 1 else length d)"
proof (induction d)
  case (Cons p d)
  then show ?case by (cases p) (cases d, auto)
qed simp

end
