(* ===== verification/PyBytes.thy ===== *)
theory PyBytes imports WT_Prelude begin

unbundle bit_operations_syntax

text \<open>
  Byte strings and the parts of Python's \<open>struct\<close>, \<open>bytes\<close>, \<open>str.encode\<close> and
  \<open>math\<close> the wire codecs use.  A byte is an \<open>8 word\<close>; an IEEE double is its 64-bit
  pattern, so packing and unpacking a timestamp is exact and \<open>math.isfinite\<close> is a test of
  the exponent bits.  Python's unbounded integers are \<open>int\<close>; packing checks the range as
  \<open>struct.pack\<close> does.
\<close>

type_synonym bytes = "8 word list"
type_synonym f64 = "64 word"

definition b_lit :: "string \<Rightarrow> bytes" where
  "b_lit s = map of_char s"

section \<open>Big-endian integers\<close>

fun be_bytes :: "nat \<Rightarrow> int \<Rightarrow> bytes" where
  "be_bytes 0 v = []"
| "be_bytes (Suc n) v = be_bytes n (v div 256) @ [word_of_int v]"

definition be_int :: "bytes \<Rightarrow> int" where
  "be_int bs = foldl (\<lambda>a b. a * 256 + uint b) 0 bs"

datatype fmt = FmtB | FmtH | FmtI | FmtQ

fun calcsize :: "fmt \<Rightarrow> nat" where
  "calcsize FmtB = 1"
| "calcsize FmtH = 2"
| "calcsize FmtI = 4"
| "calcsize FmtQ = 8"

definition pack :: "fmt \<Rightarrow> int \<Rightarrow> bytes result" where
  "pack f v = (if 0 \<le> v \<and> v < 256 ^ calcsize f then Inr (be_bytes (calcsize f) v) else Inl StructError)"

definition pack_i32 :: "int \<Rightarrow> bytes result" where
  "pack_i32 v = (if - (2 ^ 31) \<le> v \<and> v < 2 ^ 31 then Inr (be_bytes 4 v) else Inl StructError)"

definition unpack_i32 :: "bytes \<Rightarrow> int" where
  "unpack_i32 bs = sint (word_of_int (be_int bs) :: 32 word)"

definition pack_d :: "f64 \<Rightarrow> bytes" where
  "pack_d x = be_bytes 8 (uint x)"

definition unpack_d :: "bytes \<Rightarrow> f64" where
  "unpack_d bs = word_of_int (be_int bs)"

text \<open>\<open>bytes([n])\<close> and \<open>bytearray.append(n)\<close>.\<close>

definition byte1 :: "int \<Rightarrow> bytes result" where
  "byte1 n = (if 0 \<le> n \<and> n < 256 then Inr [word_of_int n] else Inl (ValueError ''byte must be in range(0, 256)''))"

definition zeros :: "nat \<Rightarrow> bytes" where
  "zeros n = replicate n 0"

lemma length_be_bytes [simp]: "length (be_bytes n v) = n"
  by (induction n arbitrary: v) simp_all

lemma be_int_Nil [simp]: "be_int [] = 0"
  by (simp add: be_int_def)

lemma be_int_snoc [simp]: "be_int (bs @ [b]) = be_int bs * 256 + uint b"
  by (simp add: be_int_def)

lemma be_int_single [simp]: "be_int [b] = uint b"
  by (simp add: be_int_def)

lemma be_int_be_bytes_mod: "be_int (be_bytes n v) = v mod 256 ^ n"
proof (induction n arbitrary: v)
  case (Suc n)
  have "v mod 256 ^ Suc n = 256 * (v div 256 mod 256 ^ n) + v mod 256"
    by (simp add: zmod_zmult2_eq)
  then show ?case by (simp add: Suc.IH uint_word_of_int)
qed simp

lemma be_int_be_bytes [simp]: "0 \<le> v \<Longrightarrow> v < 256 ^ n \<Longrightarrow> be_int (be_bytes n v) = v"
  by (simp add: be_int_be_bytes_mod)

lemma be_int_bounds: "0 \<le> be_int bs \<and> be_int bs < 256 ^ length bs"
proof (induction bs rule: rev_induct)
  case (snoc b bs)
  have "uint b < 256" using uint_lt2p [of b] by simp
  moreover have "0 \<le> uint b" by simp
  moreover have "be_int bs + 1 \<le> 256 ^ length bs" using snoc by simp
  then have "(be_int bs + 1) * 256 \<le> 256 ^ length bs * 256" by (rule mult_right_mono) simp
  ultimately show ?case using snoc by simp
qed simp

lemma be_int_nonneg [simp]: "0 \<le> be_int bs"
  using be_int_bounds by blast

lemma be_int_less: "length bs = n \<Longrightarrow> be_int bs < 256 ^ n"
  using be_int_bounds by blast

lemma be_bytes_be_int: "be_bytes (length bs) (be_int bs) = bs"
proof (induction bs rule: rev_induct)
  case (snoc b bs)
  have u: "0 \<le> uint b" "uint b < 256" using uint_lt2p [of b] by simp_all
  then have "(be_int bs * 256 + uint b) div 256 = be_int bs" by simp
  moreover have "(word_of_int (be_int bs * 256 + uint b) :: 8 word) = b"
  proof -
    have "uint (word_of_int (be_int bs * 256 + uint b) :: 8 word) = (be_int bs * 256 + uint b) mod 256"
      unfolding uint_word_of_int by simp
    also have "\<dots> = uint b" using u by simp
    finally show ?thesis by (rule word_uint_eqI)
  qed
  ultimately show ?case using snoc by simp
qed simp

lemma be_bytes_be_int_len [simp]: "length bs = n \<Longrightarrow> be_bytes n (be_int bs) = bs"
  using be_bytes_be_int by blast

lemma be_bytes_inj:
  "be_bytes n v = be_bytes n w \<Longrightarrow> 0 \<le> v \<Longrightarrow> v < 256 ^ n \<Longrightarrow> 0 \<le> w \<Longrightarrow> w < 256 ^ n \<Longrightarrow> v = w"
  by (metis be_int_be_bytes)

lemma pack_Inr [result_simps]:
  "pack f v = Inr bs \<longleftrightarrow> 0 \<le> v \<and> v < 256 ^ calcsize f \<and> bs = be_bytes (calcsize f) v"
  by (auto simp: pack_def)

lemma pack_i32_Inr [result_simps]:
  "pack_i32 v = Inr bs \<longleftrightarrow> - (2 ^ 31) \<le> v \<and> v < 2 ^ 31 \<and> bs = be_bytes 4 v"
  by (auto simp: pack_i32_def)

lemma byte1_Inr [result_simps]: "byte1 n = Inr bs \<longleftrightarrow> 0 \<le> n \<and> n < 256 \<and> bs = [word_of_int n]"
  by (auto simp: byte1_def)

lemma unpack_i32_be_bytes: "- (2 ^ 31) \<le> v \<Longrightarrow> v < 2 ^ 31 \<Longrightarrow> unpack_i32 (be_bytes 4 v) = v"
proof -
  assume v: "- (2 ^ 31) \<le> v" "v < 2 ^ 31"
  have "(word_of_int (v mod 2 ^ 32) :: 32 word) = word_of_int v"
    by (simp only: word_of_int_eq_iff take_bit_eq_mod) simp
  moreover have "signed_take_bit 31 v = v" using v by (rule signed_take_bit_int_eq_self)
  ultimately show ?thesis
    using sint_sbintrunc' [of v, where ?'a = 32] by (simp add: unpack_i32_def be_int_be_bytes_mod)
qed

lemma length_pack_d [simp]: "length (pack_d x) = 8"
  by (simp add: pack_d_def)

lemma unpack_pack_d [simp]: "unpack_d (pack_d x) = x"
  using uint_lt2p [of x] by (simp add: unpack_d_def pack_d_def)

lemma pack_unpack_d: "length bs = 8 \<Longrightarrow> pack_d (unpack_d bs) = bs"
  using be_int_less [of bs 8] by (simp add: unpack_d_def pack_d_def uint_word_of_int)

lemma length_zeros [simp]: "length (zeros n) = n"
  by (simp add: zeros_def)

section \<open>Doubles\<close>

definition f64_isfinite :: "f64 \<Rightarrow> bool" where
  "f64_isfinite x = (take_bit 11 (drop_bit 52 x) \<noteq> 0x7FF)"

text \<open>\<open>value == 0.0\<close>: positive or negative zero.\<close>

definition f64_is_zero :: "f64 \<Rightarrow> bool" where
  "f64_is_zero x = (x = 0 \<or> x = 0x8000000000000000)"

section \<open>ASCII text\<close>

definition is_ascii_char :: "char \<Rightarrow> bool" where
  "is_ascii_char c = ((of_char c :: nat) < 128)"

definition encode_ascii :: "string \<Rightarrow> bytes option" where
  "encode_ascii s = (if list_all is_ascii_char s then Some (map of_char s) else None)"

definition decode_ascii :: "bytes \<Rightarrow> string result" where
  "decode_ascii bs = (if list_all (\<lambda>b. b < 128) bs
     then Inr (map (\<lambda>b. char_of (unat b)) bs) else Inl UnicodeDecodeError)"

lemma unat_of_char: "unat (of_char c :: 8 word) = of_char c"
proof -
  have "(of_char c :: 8 word) = of_nat (of_char c)" by (simp add: of_nat_of_char)
  then have "unat (of_char c :: 8 word) = of_char c mod 256" by (simp add: unat_of_nat del: of_char_mod_256)
  then show ?thesis by simp
qed

lemma unat8_less [simp]: "unat (b :: 8 word) < 256"
proof -
  have "unat b < 2 ^ LENGTH(8)" by (rule unsigned_less)
  then show ?thesis by simp
qed

lemma char_of_unat_of_char [simp]: "char_of (unat (of_char c :: 8 word)) = c"
  by (simp add: unat_of_char)

lemma of_char_char_of_unat: "(of_char (char_of (unat (b :: 8 word))) :: 8 word) = b"
proof -
  have "unat (of_char (char_of (unat b)) :: 8 word) = unat b"
    by (simp add: unat_of_char)
  then show ?thesis by (simp only: word_unat_eq_iff)
qed

lemma decode_encode_ascii: "encode_ascii s = Some bs \<Longrightarrow> decode_ascii bs = Inr s"
  by (auto simp: encode_ascii_def decode_ascii_def is_ascii_char_def list_all_iff comp_def
      word_less_nat_alt unat_of_char split: if_splits)

lemma encode_decode_ascii: "decode_ascii bs = Inr s \<Longrightarrow> encode_ascii s = Some bs"
  by (auto simp: encode_ascii_def decode_ascii_def is_ascii_char_def list_all_iff comp_def
      word_less_nat_alt of_char_char_of_unat split: if_splits)

lemma encode_ascii_length: "encode_ascii s = Some bs \<Longrightarrow> length bs = length s"
  by (auto simp: encode_ascii_def split: if_splits)

lemma decode_ascii_length: "decode_ascii bs = Inr s \<Longrightarrow> length s = length bs"
  by (auto simp: decode_ascii_def split: if_splits)

section \<open>Hexadecimal and text decoding helpers\<close>

definition bytes_hex :: "bytes \<Rightarrow> string" where
  "bytes_hex bs = concat (map (\<lambda>b. show_hex 2 (unat b)) bs)"

definition nat_of_be :: "bytes \<Rightarrow> nat" where
  "nat_of_be bs = nat (be_int bs)"

lemma hex_char_inj: "a < 16 \<Longrightarrow> b < 16 \<Longrightarrow> hex_char a = hex_char b \<longleftrightarrow> a = b"
  by (auto simp: hex_char_def char_of_eq_iff take_bit_eq_mod
      dest: arg_cong [where f = "of_char :: char \<Rightarrow> nat"] split: if_splits)

lemma show_hex_inj: "m < 16 ^ w \<Longrightarrow> n < 16 ^ w \<Longrightarrow> show_hex w m = show_hex w n \<longleftrightarrow> m = n"
proof (induction w arbitrary: m n)
  case (Suc w)
  from Suc.prems have d: "m div 16 < 16 ^ w" "n div 16 < 16 ^ w" by auto
  have "show_hex (Suc w) m = show_hex (Suc w) n \<longleftrightarrow> m div 16 = n div 16 \<and> m mod 16 = n mod 16"
    using Suc.IH [OF d] by (simp add: hex_char_inj)
  then show ?case by (metis div_mult_mod_eq)
qed simp

lemma bytes_hex_inj: "bytes_hex a = bytes_hex b \<Longrightarrow> a = b"
proof (induction a arbitrary: b)
  case Nil
  then show ?case by (cases b) (auto simp: bytes_hex_def numeral_2_eq_2)
next
  case (Cons x a)
  obtain y b' where b: "b = y # b'"
    using Cons.prems by (cases b) (auto simp: bytes_hex_def numeral_2_eq_2)
  have "show_hex 2 (unat x) = show_hex 2 (unat y) \<and> bytes_hex a = bytes_hex b'"
    using Cons.prems b by (simp add: bytes_hex_def append_eq_append_conv)
  moreover have "unat x < 16 ^ 2" "unat y < 16 ^ 2"
    by simp_all
  ultimately show ?case using Cons.IH b by (auto simp: show_hex_inj word_unat_eq_iff)
qed

lemma be_bytes_1 [simp]: "be_bytes (Suc 0) v = [word_of_int v]"
  by simp

lemma uint_byte_nat [simp]: "n < 256 \<Longrightarrow> uint (word_of_nat n :: 8 word) = int n"
  by (simp add: unsigned_of_nat take_bit_eq_mod)

lemma pack_byte1: "pack FmtB n = Inr bs \<longleftrightarrow> byte1 n = Inr bs"
  by (auto simp: result_simps)

end
