(* ===== verification/PyValue.thy ===== *)
theory PyValue imports PyBytes begin

text \<open>
  Dynamically typed Python values, for the few places where the code accepts \<open>Any\<close>: selector
  clause values, packet-filter values and the values the plan canonicaliser serialises.  Dictionaries have text keys, as every one
  the code handles has.  Python's \<open>bool\<close> is a subclass of \<open>int\<close>: \<open>isinstance(v, int)\<close> accepts it, \<open>type(v) is int\<close> does not.
\<close>

datatype pyval =
    PyNone
  | PyBool bool
  | PyInt int
  | PyFloat f64
  | PyStr string
  | PyBytes bytes
  | PyTuple "pyval list"
  | PyList "pyval list"
  | PyDict "(string \<times> pyval) list"

text \<open>\<open>isinstance(v, int)\<close>, with the integer value the instance has.\<close>

fun isinstance_int :: "pyval \<Rightarrow> int option" where
  "isinstance_int (PyInt i) = Some i"
| "isinstance_int (PyBool b) = Some (if b then 1 else 0)"
| "isinstance_int _ = None"

text \<open>\<open>type(v) is int\<close>.\<close>

fun type_is_int :: "pyval \<Rightarrow> int option" where
  "type_is_int (PyInt i) = Some i"
| "type_is_int _ = None"

fun isinstance_bytes :: "pyval \<Rightarrow> bytes option" where
  "isinstance_bytes (PyBytes b) = Some b"
| "isinstance_bytes _ = None"

fun isinstance_str :: "pyval \<Rightarrow> string option" where
  "isinstance_str (PyStr s) = Some s"
| "isinstance_str _ = None"

text \<open>Whether the value can be a dictionary key or set member.\<close>

fun py_hashable :: "pyval \<Rightarrow> bool" where
  "py_hashable (PyList _) = False"
| "py_hashable (PyDict _) = False"
| "py_hashable (PyTuple vs) = list_all py_hashable vs"
| "py_hashable _ = True"

fun py_type_name :: "pyval \<Rightarrow> string" where
  "py_type_name PyNone = ''NoneType''"
| "py_type_name (PyBool _) = ''bool''"
| "py_type_name (PyInt _) = ''int''"
| "py_type_name (PyFloat _) = ''float''"
| "py_type_name (PyStr _) = ''str''"
| "py_type_name (PyBytes _) = ''bytes''"
| "py_type_name (PyTuple _) = ''tuple''"
| "py_type_name (PyList _) = ''list''"
| "py_type_name (PyDict _) = ''dict''"

text \<open>\<open>value in keys\<close> for a dictionary with text keys.\<close>

definition in_str_keys :: "pyval \<Rightarrow> string list \<Rightarrow> bool result" where
  "in_str_keys v ks = (if py_hashable v
     then Inr (case v of PyStr s \<Rightarrow> s \<in> set ks | _ \<Rightarrow> False)
     else Inl (TypeError (''unhashable type: '' @ py_type_name v)))"

lemma type_is_int_Some [simp]: "type_is_int v = Some i \<longleftrightarrow> v = PyInt i"
  by (cases v) auto

lemma isinstance_bytes_Some [simp]: "isinstance_bytes v = Some b \<longleftrightarrow> v = PyBytes b"
  by (cases v) auto

lemma isinstance_str_Some [simp]: "isinstance_str v = Some s \<longleftrightarrow> v = PyStr s"
  by (cases v) auto

end
