(* ===== verification/WireReader.thy ===== *)
theory WireReader imports PyValue begin

text \<open>
  The cursor every payload decoder of core/packet\_engine/rust\_analysis.py reads through
  (class \<open>_Reader\<close>), the sequencing of its reads, and the contract between an encoder and
  a decoder of the wire format, stated as three locales: \<open>wire_codec\<close> (what is encoded decodes to
  itself, wherever it stands in a payload), \<open>checked_codec\<close> (a decoded value that can be encoded
  came from exactly its encoding) and \<open>exact_codec\<close> (in addition nothing else decodes).
  The lemmas on repeated fields are proved once inside the locales; the codecs of the later
  theories interpret them.
\<close>

named_theorems rd_simps \<open>reading at a known position\<close>
named_theorems rd_iff \<open>what a successful read says about the bytes it consumed\<close>

record reader =
  rd_payload :: bytes
  rd_offset :: nat

type_synonym 'a rd = "reader \<Rightarrow> ('a \<times> reader) result"

definition reader_init :: "bytes \<Rightarrow> reader" where
  "reader_init p = \<lparr>rd_payload = p, rd_offset = 0\<rparr>"

definition returnR :: "'a \<Rightarrow> 'a rd" where
  "returnR x r = Inr (x, r)"

definition bindR :: "'a rd \<Rightarrow> ('a \<Rightarrow> 'b rd) \<Rightarrow> 'b rd" where
  "bindR p f r = bindE (p r) (\<lambda>(x, r'). f x r')"

definition liftR :: "'a result \<Rightarrow> 'a rd" where
  "liftR m r = bindE m (\<lambda>x. Inr (x, r))"

definition requireR :: "bool \<Rightarrow> py_error \<Rightarrow> unit rd" where
  "requireR c e = liftR (guardE c e)"

section \<open>The reader's operations\<close>

definition rd_take :: "int \<Rightarrow> string \<Rightarrow> bytes rd" where
  "rd_take n label r =
     (if n < 0 \<or> int (rd_offset r) + n > int (length (rd_payload r))
      then Inl (AnalysisProtocolError (''truncated '' @ label))
      else Inr (take (nat n) (drop (rd_offset r) (rd_payload r)),
                r\<lparr>rd_offset := rd_offset r + nat n\<rparr>))"

definition rd_unpack :: "fmt \<Rightarrow> string \<Rightarrow> int rd" where
  "rd_unpack f label = bindR (rd_take (int (calcsize f)) label) (\<lambda>v. returnR (be_int v))"

definition rd_unpack_d :: "string \<Rightarrow> f64 rd" where
  "rd_unpack_d label = bindR (rd_take 8 label) (\<lambda>v. returnR (unpack_d v))"

definition rd_unpack_i32 :: "string \<Rightarrow> int rd" where
  "rd_unpack_i32 label = bindR (rd_take 4 label) (\<lambda>v. returnR (unpack_i32 v))"

definition rd_ascii8 :: "int \<Rightarrow> string \<Rightarrow> string rd" where
  "rd_ascii8 maximum label =
     bindR (rd_unpack FmtB (label @ '' length'')) (\<lambda>n.
     bindR (requireR (n \<le> maximum) (AnalysisProtocolError (label @ '' exceeds '' @ show_int maximum @ '' bytes''))) (\<lambda>_.
     bindR (rd_take n label) (\<lambda>v.
       case decode_ascii v of
         Inl _ \<Rightarrow> liftR (Inl (AnalysisProtocolError (label @ '' is not ASCII'')))
       | Inr s \<Rightarrow> returnR s)))"

definition rd_finish :: "unit rd" where
  "rd_finish r = (if rd_offset r \<noteq> length (rd_payload r)
     then Inl (AnalysisProtocolError ''trailing bytes in analysis payload'') else Inr ((), r))"

text \<open>\<open>[p() for _ in range(n)]\<close>.\<close>

fun rd_collect :: "nat \<Rightarrow> 'a rd \<Rightarrow> 'a list rd" where
  "rd_collect 0 p = returnR []"
| "rd_collect (Suc n) p = bindR p (\<lambda>x. bindR (rd_collect n p) (\<lambda>xs. returnR (x # xs)))"

text \<open>\<open>for _ in range(n)\<close> with a body that also updates a local state.\<close>

fun rd_loop :: "nat \<Rightarrow> ('s \<Rightarrow> 's rd) \<Rightarrow> 's \<Rightarrow> 's rd" where
  "rd_loop 0 f s = returnR s"
| "rd_loop (Suc n) f s = bindR (f s) (rd_loop n f)"

section \<open>Positions\<close>

text \<open>The reader that has consumed \<open>pre\<close> and has \<open>rest\<close> still to read.\<close>

definition rd_at :: "bytes \<Rightarrow> bytes \<Rightarrow> reader" where
  "rd_at pre rest = \<lparr>rd_payload = pre @ rest, rd_offset = length pre\<rparr>"

definition rd_ok :: "reader \<Rightarrow> bool" where
  "rd_ok r \<longleftrightarrow> rd_offset r \<le> length (rd_payload r)"

lemma reader_init_at: "reader_init p = rd_at [] p"
  by (simp add: reader_init_def rd_at_def)

lemma rd_ok_at [simp]: "rd_ok (rd_at pre rest)"
  by (simp add: rd_ok_def rd_at_def)

lemma rd_ok_ex_at: "rd_ok r \<Longrightarrow> \<exists>pre rest. r = rd_at pre rest"
  by (rule exI [of _ "take (rd_offset r) (rd_payload r)"],
      rule exI [of _ "drop (rd_offset r) (rd_payload r)"]) (simp add: rd_ok_def rd_at_def)

lemmas bindR_run [rd_simps] = bindR_def

lemma bindR_fail: "p r = Inl e \<Longrightarrow> bindR p f r = Inl e"
  by (simp add: bindR_def)

lemma returnR_apply [simp]: "returnR x r = Inr (x, r)"
  by (simp add: returnR_def)

lemma liftR_simps [simp]: "liftR (Inr x) r = Inr (x, r)" "liftR (Inl e) r = Inl e"
  by (simp_all add: liftR_def)

lemma requireR_simps [simp]:
  "requireR True e r = Inr ((), r)" "requireR False e r = Inl e"
  by (simp_all add: requireR_def)

lemma bindR_Inr [rd_iff]: "bindR p f r = Inr y \<longleftrightarrow> (\<exists>x r'. p r = Inr (x, r') \<and> f x r' = Inr y)"
  by (auto simp: bindR_def result_simps)

lemma liftR_Inr [rd_iff]: "liftR m r = Inr (x, r') \<longleftrightarrow> m = Inr x \<and> r' = r"
  by (cases m) auto

lemma requireR_Inr [rd_iff]: "requireR c e r = Inr (u, r') \<longleftrightarrow> c \<and> r' = r"
  by (auto simp: requireR_def liftR_def guardE_def)

lemma bindR_assoc: "bindR (bindR p f) g = bindR p (\<lambda>x. bindR (f x) g)"
  by (rule ext) (auto simp: bindR_def bindE_def split: sum.splits)

lemma case_lookup_iff:
  "(case opt of None \<Rightarrow> liftR (Inl e) | Some m \<Rightarrow> f m) r = Inr y \<longleftrightarrow> (\<exists>m. opt = Some m \<and> f m r = Inr y)"
  by (cases opt) simp_all

lemma rd_take_iff [rd_iff]:
  "rd_take n l (rd_at pre s) = Inr (v, r') \<longleftrightarrow>
     0 \<le> n \<and> int (length v) = n \<and> (\<exists>rest. s = v @ rest \<and> r' = rd_at (pre @ v) rest)"
proof
  assume "rd_take n l (rd_at pre s) = Inr (v, r')"
  then have n: "0 \<le> n" "nat n \<le> length s" and v: "v = take (nat n) s"
    and r: "r' = \<lparr>rd_payload = pre @ s, rd_offset = length pre + nat n\<rparr>"
    by (auto simp: rd_take_def rd_at_def split: if_splits)
  then have "s = v @ drop (nat n) s \<and> r' = rd_at (pre @ v) (drop (nat n) s)"
    by (simp add: rd_at_def)
  with n v show "0 \<le> n \<and> int (length v) = n \<and> (\<exists>rest. s = v @ rest \<and> r' = rd_at (pre @ v) rest)"
    by (intro conjI exI [of _ "drop (nat n) s"]) auto
qed (auto simp: rd_take_def rd_at_def)

lemma rd_take_at [rd_simps]:
  "int (length v) = n \<Longrightarrow> rd_take n l (rd_at pre (v @ rest)) = Inr (v, rd_at (pre @ v) rest)"
  by (auto simp: rd_iff)

lemma rd_unpack_iff [rd_iff]:
  "rd_unpack f l (rd_at pre s) = Inr (v, r') \<longleftrightarrow>
     0 \<le> v \<and> v < 256 ^ calcsize f \<and>
     (\<exists>rest. s = be_bytes (calcsize f) v @ rest \<and> r' = rd_at (pre @ be_bytes (calcsize f) v) rest)"
proof
  assume "rd_unpack f l (rd_at pre s) = Inr (v, r')"
  then obtain b rest where b: "length b = calcsize f" "v = be_int b" "s = b @ rest" "r' = rd_at (pre @ b) rest"
    by (auto simp: rd_unpack_def rd_iff)
  then have "b = be_bytes (calcsize f) v" by (metis be_bytes_be_int)
  moreover have "0 \<le> v \<and> v < 256 ^ calcsize f" using b be_int_bounds [of b] by metis
  ultimately show "0 \<le> v \<and> v < 256 ^ calcsize f \<and>
     (\<exists>rest. s = be_bytes (calcsize f) v @ rest \<and> r' = rd_at (pre @ be_bytes (calcsize f) v) rest)"
    using b by blast
next
  assume "0 \<le> v \<and> v < 256 ^ calcsize f \<and>
     (\<exists>rest. s = be_bytes (calcsize f) v @ rest \<and> r' = rd_at (pre @ be_bytes (calcsize f) v) rest)"
  then show "rd_unpack f l (rd_at pre s) = Inr (v, r')"
    by (auto simp: rd_unpack_def rd_simps)
qed

lemma bind_byte_iff:
  "bindR (rd_unpack FmtB l) f (rd_at pre s) = Inr y \<longleftrightarrow>
     (\<exists>n rest. 0 \<le> n \<and> n < 256 \<and> s = word_of_int n # rest \<and> f n (rd_at (pre @ [word_of_int n]) rest) = Inr y)"
  by (auto simp: bindR_Inr rd_unpack_iff)

lemma rd_unpack_at [rd_simps]:
  "0 \<le> v \<Longrightarrow> v < 256 ^ calcsize f \<Longrightarrow>
     rd_unpack f l (rd_at pre (be_bytes (calcsize f) v @ rest)) = Inr (v, rd_at (pre @ be_bytes (calcsize f) v) rest)"
  by (simp add: rd_iff)

lemma rd_unpack_byte_at [rd_simps]:
  "rd_unpack FmtB l (rd_at pre (b # rest)) = Inr (uint b, rd_at (pre @ [b]) rest)"
  using rd_unpack_at [of "uint b" FmtB l pre rest] uint_lt2p [of b] by (simp add: eval_nat_numeral)

lemma rd_unpack_d_iff [rd_iff]:
  "rd_unpack_d l (rd_at pre s) = Inr (x, r') \<longleftrightarrow> (\<exists>rest. s = pack_d x @ rest \<and> r' = rd_at (pre @ pack_d x) rest)"
proof
  assume "rd_unpack_d l (rd_at pre s) = Inr (x, r')"
  then obtain b rest where b: "length b = 8" "x = unpack_d b" "s = b @ rest" "r' = rd_at (pre @ b) rest"
    by (auto simp: rd_unpack_d_def rd_iff)
  then show "\<exists>rest. s = pack_d x @ rest \<and> r' = rd_at (pre @ pack_d x) rest"
    by (simp add: pack_unpack_d)
qed (auto simp: rd_unpack_d_def rd_simps)

lemma rd_unpack_d_at [rd_simps]:
  "rd_unpack_d l (rd_at pre (pack_d x @ rest)) = Inr (x, rd_at (pre @ pack_d x) rest)"
  by (simp add: rd_iff)

lemma rd_unpack_i32_at [rd_simps]:
  "- (2 ^ 31) \<le> v \<Longrightarrow> v < 2 ^ 31 \<Longrightarrow>
     rd_unpack_i32 l (rd_at pre (be_bytes 4 v @ rest)) = Inr (v, rd_at (pre @ be_bytes 4 v) rest)"
  by (simp add: rd_unpack_i32_def rd_simps unpack_i32_be_bytes)

lemma rd_finish_iff [rd_iff]: "rd_finish (rd_at pre s) = Inr (u, r') \<longleftrightarrow> s = [] \<and> r' = rd_at pre []"
  by (auto simp: rd_finish_def rd_at_def)

lemma rd_collect_length: "rd_collect n p r = Inr (xs, r') \<Longrightarrow> length xs = n"
  by (induction n arbitrary: r xs) (auto simp: rd_iff)

lemma rd_loop_invariant:
  assumes "rd_loop n f s r = Inr (s', r')" and "I s"
    and "\<And>s r s' r'. I s \<Longrightarrow> f s r = Inr (s', r') \<Longrightarrow> I s'"
  shows "I s'"
  using assms by (induction n arbitrary: s r) (auto simp: rd_iff)

section \<open>Grammars of sequential decoders\<close>

text \<open>
  \<open>parses p R\<close>: the decoder \<open>p\<close> accepts exactly the prefixes \<open>b\<close> with \<open>R b x\<close>, wherever they stand,
  and returns \<open>x\<close>.  The rules are syntax-directed, so the grammar of a record decoder is computed
  by resolution.
\<close>

named_theorems parses_intro \<open>grammars of decoders\<close>

definition parses :: "'a rd \<Rightarrow> (bytes \<Rightarrow> 'a \<Rightarrow> bool) \<Rightarrow> bool" where
  "parses p R \<longleftrightarrow> (\<forall>pre s x r'. p (rd_at pre s) = Inr (x, r') \<longleftrightarrow>
     (\<exists>b rest. s = b @ rest \<and> r' = rd_at (pre @ b) rest \<and> R b x))"

lemma parsesI:
  "(\<And>pre s x r'. p (rd_at pre s) = Inr (x, r') \<longleftrightarrow> (\<exists>b rest. s = b @ rest \<and> r' = rd_at (pre @ b) rest \<and> R b x)) \<Longrightarrow> parses p R"
  by (simp add: parses_def)

lemma parsesD:
  "parses p R \<Longrightarrow> p (rd_at pre s) = Inr (x, r') \<longleftrightarrow> (\<exists>b rest. s = b @ rest \<and> r' = rd_at (pre @ b) rest \<and> R b x)"
  by (simp add: parses_def)

lemma parses_cong: "parses p R \<Longrightarrow> (\<And>b x. R b x \<longleftrightarrow> S b x) \<Longrightarrow> parses p S"
  by (simp add: parses_def)

lemma parses_bind_strong:
  assumes p: "parses p R" and f: "\<And>x b. R b x \<Longrightarrow> parses (f x) (S x)"
  shows "parses (bindR p f) (\<lambda>b y. \<exists>x b1 b2. S x b2 y \<and> R b1 x \<and> b = b1 @ b2)"
proof (rule parsesI)
  fix pre s y r'
  show "bindR p f (rd_at pre s) = Inr (y, r') \<longleftrightarrow>
    (\<exists>b rest. s = b @ rest \<and> r' = rd_at (pre @ b) rest \<and> (\<exists>x b1 b2. S x b2 y \<and> R b1 x \<and> b = b1 @ b2))"
    (is "?L \<longleftrightarrow> ?R")
  proof
    assume ?L
    then obtain x r1 where "p (rd_at pre s) = Inr (x, r1)" and y: "f x r1 = Inr (y, r')"
      by (auto simp: bindR_Inr)
    then obtain b1 s1 where x: "s = b1 @ s1" "r1 = rd_at (pre @ b1) s1" "R b1 x"
      by (auto simp: parsesD [OF p])
    with y obtain b2 rest where "s1 = b2 @ rest" "r' = rd_at ((pre @ b1) @ b2) rest" "S x b2 y"
      by (auto simp: parsesD [OF f [OF x(3)]])
    with x show ?R by (intro exI [of _ "b1 @ b2"] exI [of _ rest]) auto
  next
    assume ?R
    then obtain x b1 b2 rest where h: "R b1 x" "S x b2 y" "s = b1 @ b2 @ rest" "r' = rd_at ((pre @ b1) @ b2) rest"
      by auto
    from h(1) have "p (rd_at pre (b1 @ b2 @ rest)) = Inr (x, rd_at (pre @ b1) (b2 @ rest))"
      unfolding parsesD [OF p] by blast
    moreover from h(2) have "f x (rd_at (pre @ b1) (b2 @ rest)) = Inr (y, rd_at ((pre @ b1) @ b2) rest)"
      unfolding parsesD [OF f [OF h(1)]] by blast
    ultimately show ?L using h(3,4) by (auto simp: bindR_Inr)
  qed
qed

lemma parses_bind [parses_intro]:
  "parses p R \<Longrightarrow> (\<And>x. parses (f x) (S x)) \<Longrightarrow>
     parses (bindR p f) (\<lambda>b y. \<exists>x b1 b2. S x b2 y \<and> R b1 x \<and> b = b1 @ b2)"
  by (rule parses_bind_strong)

lemma parses_return [parses_intro]: "parses (returnR x) (\<lambda>b y. b = [] \<and> y = x)"
  by (rule parsesI) auto

lemma parses_lift [parses_intro]: "parses (liftR m) (\<lambda>b y. b = [] \<and> m = Inr y)"
  by (rule parsesI) (auto simp: liftR_Inr)

lemma parses_require [parses_intro]: "parses (requireR c e) (\<lambda>b y. b = [] \<and> c)"
  by (rule parsesI) (auto simp: requireR_Inr)

lemma parses_take [parses_intro]: "parses (rd_take n l) (\<lambda>b x. x = b \<and> int (length b) = n)"
  by (rule parsesI) (auto simp: rd_take_iff)

lemma parses_unpack [parses_intro]: "parses (rd_unpack f l) (\<lambda>b x. pack f x = Inr b)"
  by (rule parsesI) (auto simp: rd_unpack_iff pack_Inr)

lemma parses_unpack_d [parses_intro]: "parses (rd_unpack_d l) (\<lambda>b x. b = pack_d x)"
  by (rule parsesI) (auto simp: rd_unpack_d_iff)

lemma parses_if [parses_intro]:
  "parses p R \<Longrightarrow> parses q S \<Longrightarrow> parses (if c then p else q) (\<lambda>b x. if c then R b x else S b x)"
  by simp

lemma parses_case_lookup [parses_intro]:
  assumes "\<And>m. parses (f m) (R m)"
  shows "parses (case opt of None \<Rightarrow> liftR (Inl e) | Some m \<Rightarrow> f m) (\<lambda>b x. \<exists>m. opt = Some m \<and> R m b x)"
  by (cases opt) (use assms in \<open>auto simp: parses_def\<close>)

lemma parses_collect [parses_intro]:
  assumes "parses p R"
  shows "parses (rd_collect n p) (\<lambda>b xs. length xs = n \<and> (\<exists>bs. list_all2 R bs xs \<and> b = concat bs))"
proof (induction n)
  case 0
  show ?case by (rule parsesI) auto
next
  case (Suc n)
  have "parses (rd_collect (Suc n) p) (\<lambda>b y. \<exists>x b1 b2. (\<exists>xs b3 b4. (b4 = [] \<and> y = x # xs) \<and>
       (length xs = n \<and> (\<exists>bs. list_all2 R bs xs \<and> b3 = concat bs)) \<and> b2 = b3 @ b4) \<and> R b1 x \<and> b = b1 @ b2)"
    unfolding rd_collect.simps by (intro parses_bind parses_return assms Suc)
  then show ?case
  proof (rule parses_cong)
    fix b y
    show "(\<exists>x b1 b2. (\<exists>xs b3 b4. (b4 = [] \<and> y = x # xs) \<and>
       (length xs = n \<and> (\<exists>bs. list_all2 R bs xs \<and> b3 = concat bs)) \<and> b2 = b3 @ b4) \<and> R b1 x \<and> b = b1 @ b2)
      \<longleftrightarrow> (length y = Suc n \<and> (\<exists>bs. list_all2 R bs y \<and> b = concat bs))" (is "?L \<longleftrightarrow> ?R")
    proof
      assume ?L
      then obtain x b1 xs bs where "R b1 x" "length xs = n" "list_all2 R bs xs" "y = x # xs" "b = b1 @ concat bs"
        by auto
      then show ?R by (intro conjI exI [of _ "b1 # bs"]) auto
    next
      assume ?R
      then obtain x xs b1 bs where "y = x # xs" "length xs = n" "R b1 x" "list_all2 R bs xs" "b = b1 @ concat bs"
        by (auto simp: length_Suc_conv list_all2_Cons2)
      then show ?L by blast
    qed
  qed
qed

lemma list_all2_mapE: "list_all2 (\<lambda>b x. enc x = Inr b) bs xs \<longleftrightarrow> mapE enc xs = Inr bs"
  by (induction xs arbitrary: bs) (auto simp: result_simps list_all2_Cons2)

text \<open>A decoder run over a whole payload, ending in \<open>reader.finish()\<close>.\<close>

definition rd_all :: "'a rd \<Rightarrow> bytes \<Rightarrow> 'a result" where
  "rd_all p payload = bindE (bindR p (\<lambda>x. bindR rd_finish (\<lambda>_. returnR x)) (reader_init payload)) (\<lambda>(x, r). Inr x)"

lemma rd_all_Inr:
  assumes p: "parses p R"
  shows "rd_all p bs = Inr x \<longleftrightarrow> R bs x"
proof
  assume r: "R bs x"
  from r have "p (rd_at [] bs) = Inr (x, rd_at bs [])" by (auto simp: parsesD [OF p])
  moreover have "rd_finish (rd_at bs []) = Inr ((), rd_at bs [])" by (simp add: rd_finish_iff)
  ultimately show "rd_all p bs = Inr x" by (simp add: rd_all_def reader_init_at bindR_def)
qed (auto simp: rd_all_def bindE_Inr bindR_Inr reader_init_at parsesD [OF p] rd_finish_iff)

section \<open>Codec contracts\<close>

locale wire_codec =
  fixes enc :: "'a \<Rightarrow> bytes result" and dec :: "'a rd"
  assumes dec_enc: "enc x = Inr bs \<Longrightarrow> dec (rd_at pre (bs @ rest)) = Inr (x, rd_at (pre @ bs) rest)"
begin

lemma collect_enc:
  "mapE enc xs = Inr bss \<Longrightarrow>
     rd_collect (length xs) dec (rd_at pre (concat bss @ rest)) = Inr (xs, rd_at (pre @ concat bss) rest)"
proof (induction xs arbitrary: bss pre)
  case (Cons x xs)
  then obtain b bs where b: "enc x = Inr b" "mapE enc xs = Inr bs" "bss = b # bs"
    by (auto simp: result_simps)
  then show ?case
    using dec_enc [OF b(1), of pre "concat bs @ rest"] Cons.IH [OF b(2), of "pre @ b"]
    by (simp add: bindR_def)
qed simp

lemma enc_injective: "enc x = Inr bs \<Longrightarrow> enc y = Inr bs \<Longrightarrow> x = y"
  using dec_enc [of x bs "[]" "[]"] dec_enc [of y bs "[]" "[]"] by simp

lemma enc_prefix_free: "enc x = Inr bs \<Longrightarrow> enc y = Inr (bs @ cs) \<Longrightarrow> cs = []"
  using dec_enc [of x bs "[]" cs] dec_enc [of y "bs @ cs" "[]" "[]"] by (simp add: rd_at_def)

lemma counted_enc:
  assumes "concatE [pack f (int (length xs)), concatE (map enc xs)] = Inr bs"
  shows "bindR (rd_unpack f l) (\<lambda>count. rd_collect (nat count) dec) (rd_at pre (bs @ rest)) = Inr (xs, rd_at (pre @ bs) rest)"
proof -
  let ?n = "be_bytes (calcsize f) (int (length xs))"
  obtain bss where b: "mapE enc xs = Inr bss" "bs = ?n @ concat bss" "int (length xs) < 256 ^ calcsize f"
    using assms by (auto simp: result_simps)
  then show ?thesis
    using collect_enc [OF b(1), of "pre @ ?n" rest] by (simp add: rd_simps)
qed

end

locale checked_codec = wire_codec +
  assumes dec_sound: "dec (rd_at pre s) = Inr (x, r') \<Longrightarrow> enc x = Inr bs \<Longrightarrow>
     \<exists>rest. s = bs @ rest \<and> r' = rd_at (pre @ bs) rest"
begin

lemma collect_sound:
  "rd_collect n dec (rd_at pre s) = Inr (xs, r') \<Longrightarrow> mapE enc xs = Inr bss \<Longrightarrow>
     \<exists>rest. s = concat bss @ rest \<and> r' = rd_at (pre @ concat bss) rest"
proof (induction n arbitrary: pre s xs bss)
  case (Suc n)
  then obtain x ys r1 where x: "dec (rd_at pre s) = Inr (x, r1)"
    and ys: "rd_collect n dec r1 = Inr (ys, r')" and xs: "xs = x # ys"
    by (auto simp: rd_iff)
  obtain b bs where b: "enc x = Inr b" "mapE enc ys = Inr bs" "bss = b # bs"
    using Suc.prems(2) xs by (auto simp: result_simps)
  from dec_sound [OF x b(1)] obtain s1 where s1: "s = b @ s1" "r1 = rd_at (pre @ b) s1" by blast
  from Suc.IH [OF ys [unfolded s1(2)] b(2)] show ?case
    using b(3) s1 by auto
qed auto

lemma counted_sound:
  assumes "bindR (rd_unpack f l) (\<lambda>count. rd_collect (nat count) dec) (rd_at pre s) = Inr (xs, r')"
    and "concatE [pack f (int (length xs)), concatE (map enc xs)] = Inr bs"
  shows "\<exists>rest. s = bs @ rest \<and> r' = rd_at (pre @ bs) rest"
proof -
  obtain n s1 where n: "0 \<le> n" "s = be_bytes (calcsize f) n @ s1"
    and c: "rd_collect (nat n) dec (rd_at (pre @ be_bytes (calcsize f) n) s1) = Inr (xs, r')"
    using assms(1) by (auto simp: rd_iff)
  obtain bss where b: "mapE enc xs = Inr bss" "bs = be_bytes (calcsize f) (int (length xs)) @ concat bss"
    using assms(2) by (auto simp: result_simps)
  from rd_collect_length [OF c] n have "int (length xs) = n" by simp
  with collect_sound [OF c b(1)] n b(2) show ?thesis by auto
qed

end

locale exact_codec = checked_codec +
  assumes dec_ok: "dec (rd_at pre s) = Inr (x, r') \<Longrightarrow> \<exists>bs. enc x = Inr bs"
begin

lemma dec_iff:
  "dec (rd_at pre s) = Inr (x, r') \<longleftrightarrow>
     (\<exists>bs rest. enc x = Inr bs \<and> s = bs @ rest \<and> r' = rd_at (pre @ bs) rest)"
  using dec_enc dec_ok dec_sound by blast

lemma collect_ok:
  "rd_collect n dec (rd_at pre s) = Inr (xs, r') \<Longrightarrow> \<exists>bss. mapE enc xs = Inr bss"
proof (induction n arbitrary: pre s xs)
  case (Suc n)
  then obtain x ys r1 where x: "dec (rd_at pre s) = Inr (x, r1)"
    and ys: "rd_collect n dec r1 = Inr (ys, r')" and xs: "xs = x # ys"
    by (auto simp: rd_iff)
  from x obtain b s1 where b: "enc x = Inr b" "r1 = rd_at (pre @ b) s1" by (auto simp: dec_iff)
  from Suc.IH [OF ys [unfolded b(2)]] obtain bs where "mapE enc ys = Inr bs" by blast
  with b xs show ?case by simp
qed auto

lemma collect_iff:
  "rd_collect n dec (rd_at pre s) = Inr (xs, r') \<longleftrightarrow>
     length xs = n \<and> (\<exists>bss rest. mapE enc xs = Inr bss \<and> s = concat bss @ rest \<and> r' = rd_at (pre @ concat bss) rest)"
proof
  assume h: "rd_collect n dec (rd_at pre s) = Inr (xs, r')"
  from collect_ok [OF h] obtain bss where "mapE enc xs = Inr bss" by blast
  with collect_sound [OF h this] rd_collect_length [OF h]
  show "length xs = n \<and> (\<exists>bss rest. mapE enc xs = Inr bss \<and> s = concat bss @ rest \<and> r' = rd_at (pre @ concat bss) rest)"
    by blast
qed (auto dest: collect_enc)

lemma parses_codec: "parses dec (\<lambda>b x. enc x = Inr b)"
  by (rule parsesI) (auto simp: dec_iff)

lemma parses_counted:
  "parses (bindR (rd_unpack f l) (\<lambda>n. rd_collect (nat n) dec))
     (\<lambda>b xs. concatE [pack f (int (length xs)), concatE (map enc xs)] = Inr b)"
proof -
  have "parses (bindR (rd_unpack f l) (\<lambda>n. rd_collect (nat n) dec)) (\<lambda>b xs. \<exists>n b1 b2.
     (length xs = nat n \<and> (\<exists>bs. list_all2 (\<lambda>b x. enc x = Inr b) bs xs \<and> b2 = concat bs)) \<and> pack f n = Inr b1 \<and> b = b1 @ b2)"
    by (intro parses_bind parses_unpack parses_collect parses_codec)
  then show ?thesis
    by (rule parses_cong) (auto simp: list_all2_mapE result_simps intro!: exI [of _ "int (length xs)" for xs :: "'a list"])
qed

end

context exact_codec begin

lemma parses_counted_byte:
  "parses (bindR (rd_unpack FmtB l) (\<lambda>n. rd_collect (nat n) dec))
     (\<lambda>b xs. concatE [byte1 (int (length xs)), concatE (map enc xs)] = Inr b)"
proof (rule parses_cong [OF parses_counted])
  fix b xs
  show "concatE [pack FmtB (int (length xs)), concatE (map enc xs)] = Inr b \<longleftrightarrow>
      concatE [byte1 (int (length xs)), concatE (map enc xs)] = Inr b"
    by (simp add: concatE_Cons_Inr pack_byte1 del: concatE.simps)
qed

end

lemma exact_codecI: "parses dec (\<lambda>b x. enc x = Inr b) \<Longrightarrow> exact_codec enc dec"
  by unfold_locales (auto simp: parsesD)

interpretation uint_codec: exact_codec "pack f" "rd_unpack f l" for f l
  by unfold_locales (auto simp: result_simps rd_iff)

interpretation double_codec: exact_codec "\<lambda>x. Inr (pack_d x)" "rd_unpack_d l" for l
  by unfold_locales (auto simp: rd_iff)

interpretation int32_codec: wire_codec pack_i32 "rd_unpack_i32 l" for l
  by unfold_locales (auto simp: result_simps rd_simps)

interpretation byte_codec: exact_codec byte1 "rd_unpack FmtB l" for l
  by unfold_locales (auto simp: result_simps rd_iff)

section \<open>ASCII fields\<close>

definition encode_ascii8 :: "string \<Rightarrow> int \<Rightarrow> string \<Rightarrow> bytes result" where
  "encode_ascii8 value maximum label =
     (case encode_ascii value of
        None \<Rightarrow> Inl (AnalysisProtocolError (label @ '' must be ASCII text''))
      | Some encoded \<Rightarrow>
          if int (length encoded) > maximum
          then Inl (AnalysisProtocolError (label @ '' exceeds '' @ show_int maximum @ '' bytes''))
          else bindE (byte1 (int (length encoded))) (\<lambda>n. Inr (n @ encoded)))"

lemma encode_ascii8_Inr: "encode_ascii8 s m l = Inr bs \<longleftrightarrow>
   (\<exists>b. encode_ascii s = Some b \<and> int (length b) \<le> m \<and> length b < 256 \<and> bs = word_of_nat (length b) # b)"
  by (auto simp: encode_ascii8_def bindE_Inr byte1_Inr split: option.splits)

lemma parses_text:
  "parses (case decode_ascii v of Inl _ \<Rightarrow> liftR (Inl e) | Inr s \<Rightarrow> returnR s) (\<lambda>b s. b = [] \<and> decode_ascii v = Inr s)"
  by (cases "decode_ascii v") (auto simp: parses_def)

lemma parses_ascii8_label: "parses (rd_ascii8 m l) (\<lambda>b s. encode_ascii8 s m l' = Inr b)"
proof -
  have "parses (rd_ascii8 m l) (\<lambda>b s. \<exists>n b1 b2.
     (\<exists>(u::unit) b3 b4. (\<exists>v b5 b6. (b6 = [] \<and> decode_ascii v = Inr s) \<and> (v = b5 \<and> int (length b5) = n) \<and> b4 = b5 @ b6)
        \<and> (b3 = [] \<and> n \<le> m) \<and> b2 = b3 @ b4) \<and> pack FmtB n = Inr b1 \<and> b = b1 @ b2)"
    unfolding rd_ascii8_def by (intro parses_bind parses_unpack parses_require parses_take parses_text)
  then show ?thesis
  proof (rule parses_cong)
    fix b s
    have "decode_ascii v = Inr s \<longleftrightarrow> encode_ascii s = Some v" for v
      using decode_encode_ascii encode_decode_ascii by blast
    then show "(\<exists>n b1 b2.
     (\<exists>(u::unit) b3 b4. (\<exists>v b5 b6. (b6 = [] \<and> decode_ascii v = Inr s) \<and> (v = b5 \<and> int (length b5) = n) \<and> b4 = b5 @ b6)
        \<and> (b3 = [] \<and> n \<le> m) \<and> b2 = b3 @ b4) \<and> pack FmtB n = Inr b1 \<and> b = b1 @ b2) \<longleftrightarrow> encode_ascii8 s m l' = Inr b"
      by (auto simp: encode_ascii8_Inr pack_byte1 byte1_Inr)
  qed
qed

lemmas parses_ascii8 [parses_intro] = parses_ascii8_label [where l = l and l' = l for l]

section \<open>Coded enumerations\<close>

definition invert_codes :: "(string \<times> int) list \<Rightarrow> (int \<times> string) list" where
  "invert_codes d = map (\<lambda>(k, v). (v, k)) d"

lemma invert_codes_iff:
  assumes "distinct (map fst d)" and "distinct (map snd d)"
  shows "dict_get (invert_codes d) c = Some k \<longleftrightarrow> dict_get d k = Some c"
proof -
  have "map fst (invert_codes d) = map snd d" by (auto simp: invert_codes_def)
  then have "dict_get (invert_codes d) c = Some k \<longleftrightarrow> (c, k) \<in> set (invert_codes d)"
    using assms(2) by (simp add: dict_get_map_of map_of_eq_Some_iff)
  also have "\<dots> \<longleftrightarrow> (k, c) \<in> set d" by (force simp: invert_codes_def)
  finally show ?thesis using assms(1) by (simp add: dict_get_map_of map_of_eq_Some_iff)
qed

text \<open>A name sent as the byte its table gives it, and a byte read back through the inverted table.\<close>

definition encode_code :: "(string \<times> int) list \<Rightarrow> string \<Rightarrow> bytes result" where
  "encode_code codes k = (case dict_get codes k of None \<Rightarrow> Inl KeyError | Some c \<Rightarrow> byte1 c)"

definition rd_code :: "(string \<times> int) list \<Rightarrow> string \<Rightarrow> string \<Rightarrow> string rd" where
  "rd_code codes label message =
     bindR (rd_unpack FmtB label) (\<lambda>c.
       case dict_get (invert_codes codes) c of
         None \<Rightarrow> liftR (Inl (AnalysisProtocolError message))
       | Some k \<Rightarrow> returnR k)"

definition codes_ok :: "(string \<times> int) list \<Rightarrow> bool" where
  "codes_ok d \<longleftrightarrow> distinct (map fst d) \<and> distinct (map snd d) \<and> list_all (\<lambda>(k, c). 0 \<le> c \<and> c < 256) d"

lemma parses_code [parses_intro]:
  assumes "codes_ok d"
  shows "parses (rd_code d l m) (\<lambda>b k. encode_code d k = Inr b)"
proof -
  have inv: "dict_get (invert_codes d) c = Some k \<longleftrightarrow> dict_get d k = Some c" for c k
    using assms by (intro invert_codes_iff) (simp_all add: codes_ok_def)
  have "parses (rd_code d l m) (\<lambda>b k. \<exists>c b1 b2. (\<exists>k'. dict_get (invert_codes d) c = Some k' \<and> (b2 = [] \<and> k = k')) \<and>
     pack FmtB c = Inr b1 \<and> b = b1 @ b2)"
    unfolding rd_code_def by (intro parses_intro)
  then show ?thesis
    by (rule parses_cong) (auto simp: inv encode_code_def pack_byte1 split: option.splits)
qed

section \<open>Records field by field\<close>

text \<open>
  A record decoder reads the fields in order and returns the record; the matching encoder is the
  concatenation of the field encoders.  Each rule below consumes one field of both and records in
  the constraint \<open>K\<close> that the field of the result is the value read.
\<close>

named_theorems record_intro \<open>one field of a record codec\<close>

lemma parses_field:
  assumes "parses p (\<lambda>b x. enc x = Inr b)"
    and "\<And>x. parses (f x) (\<lambda>b y. (sel y = x \<and> K y) \<and> concatE (ms y) = Inr b)"
  shows "parses (bindR p f) (\<lambda>b y. K y \<and> concatE (enc (sel y) # ms y) = Inr b)"
proof -
  have "parses (bindR p f) (\<lambda>b y. \<exists>x b1 b2. ((sel y = x \<and> K y) \<and> concatE (ms y) = Inr b2) \<and> enc x = Inr b1 \<and> b = b1 @ b2)"
    by (rule parses_bind [OF assms])
  then show ?thesis by (rule parses_cong) (auto simp: concatE_Cons_Inr simp del: concatE.simps)
qed

lemma parses_field2:
  assumes "parses p (\<lambda>b x. concatE [enc1 x, enc2 x] = Inr b)"
    and "\<And>x. parses (f x) (\<lambda>b y. (sel y = x \<and> K y) \<and> concatE (ms y) = Inr b)"
  shows "parses (bindR p f) (\<lambda>b y. K y \<and> concatE (enc1 (sel y) # enc2 (sel y) # ms y) = Inr b)"
  using parses_field [OF assms]
  by (rule parses_cong) (auto simp: concatE_Cons_Inr result_simps simp del: concatE.simps(2))

lemma parses_field_take [record_intro]:
  assumes "\<And>y. K y \<Longrightarrow> int (length (sel y)) = n"
    and "\<And>x. int (length x) = n \<Longrightarrow> parses (f x) (\<lambda>b y. (sel y = x \<and> K y) \<and> concatE (ms y) = Inr b)"
  shows "parses (bindR (rd_take n l) f) (\<lambda>b y. K y \<and> concatE (Inr (sel y) # ms y) = Inr b)"
proof -
  have "parses (bindR (rd_take n l) f)
     (\<lambda>b y. \<exists>x b1 b2. ((sel y = x \<and> K y) \<and> concatE (ms y) = Inr b2) \<and> (x = b1 \<and> int (length b1) = n) \<and> b = b1 @ b2)"
    by (rule parses_bind_strong [OF parses_take assms(2)]) simp
  then show ?thesis
    by (rule parses_cong) (use assms(1) in \<open>auto simp: concatE_Cons_Inr simp del: concatE.simps\<close>)
qed

lemma parses_field_const [record_intro]:
  assumes "pack f c = Inr bs" and "parses g (\<lambda>b y. K y \<and> concatE (ms y) = Inr b)"
  shows "parses (bindR (rd_unpack f l) (\<lambda>s. bindR (requireR (s = c) (err s)) (\<lambda>_. g))) (\<lambda>b y. K y \<and> concatE (Inr bs # ms y) = Inr b)"
proof -
  have "parses (bindR (rd_unpack f l) (\<lambda>s. bindR (requireR (s = c) (err s)) (\<lambda>_. g)))
    (\<lambda>b y. \<exists>s b1 b2. (\<exists>(u::unit) b3 b4. (K y \<and> concatE (ms y) = Inr b4) \<and> (b3 = [] \<and> s = c) \<and> b2 = b3 @ b4) \<and> pack f s = Inr b1 \<and> b = b1 @ b2)"
    by (rule parses_bind parses_unpack parses_require assms)+
  then show ?thesis
    by (rule parses_cong) (use assms(1) in \<open>auto simp: concatE_Cons_Inr simp del: concatE.simps\<close>)
qed

lemma parses_unpack_d_enc: "parses (rd_unpack_d l) (\<lambda>b x. Inr (pack_d x) = Inr b)"
  by (rule parses_cong [OF parses_unpack_d]) auto

lemmas parses_fields [record_intro] =
  parses_field [OF parses_unpack] parses_field [OF parses_ascii8] parses_field [OF parses_unpack_d_enc]

lemma parses_field_code [record_intro]:
  assumes "codes_ok d" and "\<And>x. parses (f x) (\<lambda>b y. (sel y = x \<and> K y) \<and> concatE (ms y) = Inr b)"
  shows "parses (bindR (rd_code d l m) f) (\<lambda>b y. K y \<and> concatE (encode_code d (sel y) # ms y) = Inr b)"
  using assms by (intro parses_field parses_code)

lemma parses_record:
  assumes "\<And>y. K y \<longleftrightarrow> y = x"
  shows "parses (returnR x) (\<lambda>b y. K y \<and> concatE [] = Inr b)"
  by (rule parses_cong [OF parses_return]) (auto simp: assms)

text \<open>
  The same for decoders that accept more than one encoding of a value: \<open>byte_chain\<close> concatenates
  relations instead of results.
\<close>

fun byte_chain :: "(bytes \<Rightarrow> bool) list \<Rightarrow> bytes \<Rightarrow> bool" where
  "byte_chain [] b \<longleftrightarrow> b = []"
| "byte_chain (R # Rs) b \<longleftrightarrow> (\<exists>b1 b2. R b1 \<and> byte_chain Rs b2 \<and> b = b1 @ b2)"

lemma byte_chain_results: "byte_chain (map (\<lambda>m b. m = Inr b) ms) b \<longleftrightarrow> concatE ms = Inr b"
  by (induction ms arbitrary: b) (auto simp: concatE_Cons_Inr simp del: concatE.simps(2))

lemma byte_chain_append: "byte_chain (Rs @ Ss) b \<longleftrightarrow> (\<exists>b1 b2. byte_chain Rs b1 \<and> byte_chain Ss b2 \<and> b = b1 @ b2)"
proof (induction Rs arbitrary: b)
  case (Cons R Rs)
  show ?case
  proof
    assume "byte_chain ((R # Rs) @ Ss) b"
    then obtain b1 b2 b3 where "R b1" "byte_chain Rs b2" "byte_chain Ss b3" "b = b1 @ b2 @ b3"
      by (auto simp: Cons.IH)
    then show "\<exists>b1 b2. byte_chain (R # Rs) b1 \<and> byte_chain Ss b2 \<and> b = b1 @ b2"
      by (intro exI [of _ "b1 @ b2"] exI [of _ b3]) auto
  next
    assume "\<exists>b1 b2. byte_chain (R # Rs) b1 \<and> byte_chain Ss b2 \<and> b = b1 @ b2"
    then obtain b1 b2 b3 where "R b1" "byte_chain Rs b2" "byte_chain Ss b3" "b = b1 @ b2 @ b3" by auto
    then show "byte_chain ((R # Rs) @ Ss) b" by (auto simp: Cons.IH)
  qed
qed simp

lemma parses_link:
  assumes "parses p R" and "\<And>b x. R b x \<Longrightarrow> parses (f x) (\<lambda>b y. (sel y = x \<and> K y) \<and> byte_chain (rs y) b)"
  shows "parses (bindR p f) (\<lambda>b y. K y \<and> byte_chain ((\<lambda>b. R b (sel y)) # rs y) b)"
proof -
  have "parses (bindR p f) (\<lambda>b y. \<exists>x b1 b2. ((sel y = x \<and> K y) \<and> byte_chain (rs y) b2) \<and> R b1 x \<and> b = b1 @ b2)"
    by (rule parses_bind_strong [OF assms])
  then show ?thesis by (rule parses_cong) auto
qed

lemma parses_link_const:
  assumes "pack f c = Inr bs" and "parses g (\<lambda>b y. K y \<and> byte_chain (rs y) b)"
  shows "parses (bindR (rd_unpack f l) (\<lambda>s. bindR (requireR (s = c) (err s)) (\<lambda>_. g))) (\<lambda>b y. K y \<and> byte_chain ((\<lambda>b. b = bs) # rs y) b)"
proof -
  have "parses (bindR (rd_unpack f l) (\<lambda>s. bindR (requireR (s = c) (err s)) (\<lambda>_. g)))
    (\<lambda>b y. \<exists>s b1 b2. (\<exists>(u::unit) b3 b4. (K y \<and> byte_chain (rs y) b4) \<and> (b3 = [] \<and> s = c) \<and> b2 = b3 @ b4) \<and> pack f s = Inr b1 \<and> b = b1 @ b2)"
    by (rule parses_bind parses_unpack parses_require assms)+
  then show ?thesis
    by (rule parses_cong) (use assms(1) in auto)
qed

lemma parses_link_end:
  assumes "\<And>y. K y \<longleftrightarrow> y = x"
  shows "parses (returnR x) (\<lambda>b y. K y \<and> byte_chain [] b)"
  by (rule parses_cong [OF parses_return]) (auto simp: assms)

text \<open>\<open>[reader.unpack(fmt) for _ in range(n)]\<close> and \<open>[reader.take(k) for _ in range(n)]\<close>.\<close>

lemma parses_unpacks:
  "parses (rd_collect n (rd_unpack f l)) (\<lambda>b xs. length xs = n \<and> concatE (map (pack f) xs) = Inr b)"
  by (rule parses_cong [OF parses_collect [OF parses_unpack]]) (auto simp: list_all2_mapE concatE_map_Inr)

lemma parses_takes:
  "parses (rd_collect n (rd_take k l)) (\<lambda>b xs. length xs = n \<and> (\<forall>x \<in> set xs. int (length x) = k) \<and> b = concat xs)"
proof (rule parses_cong [OF parses_collect [OF parses_take]])
  fix b and xs :: "bytes list"
  have "list_all2 (\<lambda>b x. x = b \<and> int (length b) = k) bs xs \<longleftrightarrow> bs = xs \<and> (\<forall>x \<in> set xs. int (length x) = k)" for bs
    by (induction xs arbitrary: bs) (auto simp: list_all2_Cons2)
  then show "(length xs = n \<and> (\<exists>bs. list_all2 (\<lambda>b x. x = b \<and> int (length b) = k) bs xs \<and> b = concat bs)) \<longleftrightarrow>
     (length xs = n \<and> (\<forall>x \<in> set xs. int (length x) = k) \<and> b = concat xs)"
    by auto
qed

lemma pack_schema [simp]: "pack FmtB 1 = Inr [1]"
  by (simp add: pack_byte1 byte1_def)

end
