(* ===== verification/SelectorCodec.thy ===== *)
theory SelectorCodec imports WireReader begin

text \<open>
  Selector programs on the wire: \<open>_SELECTOR_OPCODES\<close>, \<open>_encode_selector_clause\<close>,
  \<open>_encode_selector_program\<close> and their decoders, core/packet\_engine/rust\_analysis.py.  A
  clause carries dynamically typed values, so every check of the code is a branch of the model.
  The decoders re-encode what they read, which makes both codecs exact: the clause and program
  interpretations below discharge \<open>exact_codec\<close>.
\<close>

record clause_wire =
  cw_opcode :: string
  cw_values :: "pyval list"

record program_wire =
  pw_program_id :: int
  pw_candidate_mode :: string
  pw_clauses :: "clause_wire list"

abbreviation protocol_error :: "string \<Rightarrow> 'a result" where
  "protocol_error m \<equiv> Inl (AnalysisProtocolError m)"

definition digest_check :: "bytes \<Rightarrow> string \<Rightarrow> unit result" where
  "digest_check value label =
     guardE (length value = 32) (AnalysisProtocolError (label @ '' must be a 32-byte SHA-256 digest''))"

definition range_error :: "int \<Rightarrow> int \<Rightarrow> string \<Rightarrow> py_error" where
  "range_error minimum maximum label =
     AnalysisProtocolError (label @ '' must be '' @ show_int minimum @ ''..'' @ show_int maximum)"

definition range_check :: "int \<Rightarrow> int \<Rightarrow> int \<Rightarrow> string \<Rightarrow> unit result" where
  "range_check value minimum maximum label =
     guardE (minimum \<le> value \<and> value \<le> maximum) (range_error minimum maximum label)"

text \<open>\<open>_range\<close> on a dynamically typed value; the integer is what later packing uses.\<close>

definition range_val :: "pyval \<Rightarrow> int \<Rightarrow> int \<Rightarrow> string \<Rightarrow> int result" where
  "range_val value minimum maximum label =
     (case type_is_int value of
        Some i \<Rightarrow> if minimum \<le> i \<and> i \<le> maximum then Inr i else Inl (range_error minimum maximum label)
      | None \<Rightarrow> Inl (range_error minimum maximum label))"

definition selector_opcodes :: "(string \<times> int) list" where
  "selector_opcodes = [
     (''always'', 1), (''link-class-in'', 2), (''ethertype-in'', 3), (''ip-protocol-in'', 4),
     (''either-port-in'', 5), (''source-port-in'', 6), (''destination-port-in'', 7),
     (''tcp-flags'', 8), (''icmp-type-in'', 9), (''payload-minimum-length'', 10),
     (''payload-prefix-in'', 11), (''payload-contains-any'', 12), (''payload-byte-mask'', 13),
     (''payload-diversity'', 14), (''frame-window-contains-any'', 15)]"

definition candidate_mode_codes :: "(string \<times> int) list" where
  "candidate_mode_codes = [(''fast-v1'', 1), (''deep-scapy-v1'', 2)]"

definition link_class_codes :: "(string \<times> int) list" where
  "link_class_codes = [(''ethernet'', 1), (''raw-ip'', 2)]"

section \<open>Encoding\<close>

definition encode_literal :: "string \<Rightarrow> pyval \<Rightarrow> bytes result" where
  "encode_literal label value =
     (case isinstance_bytes value of
        Some b \<Rightarrow>
          if 1 \<le> length b \<and> length b \<le> 256 then concatE [pack FmtH (int (length b)), Inr b]
          else protocol_error (label @ '' literal must contain 1..256 bytes'')
      | None \<Rightarrow> protocol_error (label @ '' literal must contain 1..256 bytes''))"

definition encode_selector_literals :: "pyval list \<Rightarrow> string \<Rightarrow> bytes result" where
  "encode_selector_literals values label =
     bindE (guardE (1 \<le> length values \<and> length values \<le> 32)
        (AnalysisProtocolError (label @ '' requires 1..32 literals''))) (\<lambda>_.
     concatE [byte1 (int (length values)), concatE (map (encode_literal label) values)])"

definition encode_link_class :: "pyval \<Rightarrow> bytes result" where
  "encode_link_class value =
     (case value of
        PyStr s \<Rightarrow> (case dict_get link_class_codes s of Some c \<Rightarrow> byte1 c | None \<Rightarrow> Inl KeyError)
      | _ \<Rightarrow> Inl KeyError)"

definition encode_u16_value :: "string \<Rightarrow> pyval \<Rightarrow> bytes result" where
  "encode_u16_value label value = bindE (range_val value 0 0xFFFF label) (pack FmtH)"

definition encode_u8_value :: "string \<Rightarrow> pyval \<Rightarrow> bytes result" where
  "encode_u8_value label value = bindE (range_val value 0 0xFF label) byte1"

definition port_opcodes :: "string list" where
  "port_opcodes = [''ethertype-in'', ''either-port-in'', ''source-port-in'', ''destination-port-in'']"

definition byte_opcodes :: "string list" where
  "byte_opcodes = [''ip-protocol-in'', ''icmp-type-in'']"

definition literal_opcodes :: "string list" where
  "literal_opcodes = [''payload-prefix-in'', ''payload-contains-any'']"

text \<open>The bytes a clause adds after its opcode, one branch per \<open>elif\<close> of the code.\<close>

definition encode_clause_body :: "string \<Rightarrow> pyval list \<Rightarrow> bytes result" where
  "encode_clause_body opcode values =
     (if opcode = ''always'' then
        (if values \<noteq> [] then protocol_error ''always selector does not accept values'' else Inr [])
      else if opcode = ''link-class-in'' then
        bindE (guardE (1 \<le> length values \<and> length values \<le> 2) (AnalysisProtocolError ''link-class-in values are invalid'')) (\<lambda>_.
        bindE (mapE (\<lambda>v. bindE (in_str_keys v (map fst link_class_codes)) (\<lambda>b.
                  guardE b (AnalysisProtocolError ''link-class-in values are invalid''))) values) (\<lambda>_.
        concatE [byte1 (int (length values)), concatE (map encode_link_class values)]))
      else if opcode \<in> set port_opcodes then
        (let maximum = (if opcode = ''ethertype-in'' then 255 else 512) in
         bindE (guardE (1 \<le> length values \<and> length values \<le> maximum)
            (AnalysisProtocolError (opcode @ '' value count is invalid''))) (\<lambda>_.
         concatE [pack FmtH (int (length values)), concatE (map (encode_u16_value opcode) values)]))
      else if opcode \<in> set byte_opcodes then
        bindE (guardE (1 \<le> length values \<and> length values \<le> 255)
           (AnalysisProtocolError (opcode @ '' value count is invalid''))) (\<lambda>_.
        concatE [byte1 (int (length values)), concatE (map (encode_u8_value opcode) values)])
      else if opcode = ''tcp-flags'' then
        bindE (guardE (length values = 2) (AnalysisProtocolError ''tcp-flags requires two values'')) (\<lambda>_.
        concatE (map (encode_u16_value ''tcp-flags'') values))
      else if opcode = ''payload-minimum-length'' then
        (case values of
           [v] \<Rightarrow> bindE (range_val v 0 0xFFFFFFFF ''payload-minimum-length'') (pack FmtI)
         | _ \<Rightarrow> protocol_error ''payload-minimum-length requires one value'')
      else if opcode \<in> set literal_opcodes then encode_selector_literals values opcode
      else if opcode = ''payload-byte-mask'' then
        (case values of
           [v0, v1, v2] \<Rightarrow>
             bindE (range_val v0 0 0xFFFF ''payload-byte-mask offset'') (\<lambda>a.
             bindE (range_val v1 0 0xFF ''payload-byte-mask mask'') (\<lambda>b.
             bindE (range_val v2 0 0xFF ''payload-byte-mask expected'') (\<lambda>c.
             concatE [pack FmtH a, pack FmtB b, pack FmtB c])))
         | _ \<Rightarrow> protocol_error ''payload-byte-mask requires three values'')
      else if opcode = ''payload-diversity'' then
        (case values of
           [v0, v1] \<Rightarrow>
             bindE (range_val v0 0 0xFFFF ''payload-diversity'') (\<lambda>a.
             bindE (range_val v1 0 0xFFFF ''payload-diversity'') (\<lambda>b.
             bindE (guardE (b \<le> a) (AnalysisProtocolError ''payload-diversity minimum exceeds sample'')) (\<lambda>_.
             concatE [pack FmtH a, pack FmtH b])))
         | _ \<Rightarrow> protocol_error ''payload-diversity requires two values'')
      else
        (case values of
           v0 # v1 # v2 # literals \<Rightarrow>
             bindE (range_val v0 0 0xFFFF ''frame window start'') (\<lambda>start.
             bindE (range_val v1 start 0xFFFF ''frame window end'') (\<lambda>stop.
             concatE [pack FmtH start, pack FmtH stop, encode_selector_literals (v2 # literals) opcode]))
         | _ \<Rightarrow> protocol_error ''frame-window-contains-any requires a window and literals''))"

definition encode_selector_clause :: "clause_wire \<Rightarrow> bytes result" where
  "encode_selector_clause clause =
     (case dict_get selector_opcodes (cw_opcode clause) of
        None \<Rightarrow> protocol_error (''unknown selector opcode: '' @ cw_opcode clause)
      | Some code \<Rightarrow> concatE [byte1 code, encode_clause_body (cw_opcode clause) (cw_values clause)])"

definition encode_selector_program :: "program_wire \<Rightarrow> bytes result" where
  "encode_selector_program program =
     bindE (range_check (pw_program_id program) 0 63 ''selector program ID'') (\<lambda>_.
     case dict_get candidate_mode_codes (pw_candidate_mode program) of
       None \<Rightarrow> protocol_error ''selector candidate mode is invalid''
     | Some mode \<Rightarrow>
         bindE (guardE (1 \<le> length (pw_clauses program) \<and> length (pw_clauses program) \<le> 16)
            (AnalysisProtocolError ''selector program requires 1..16 clauses'')) (\<lambda>_.
         concatE [byte1 (pw_program_id program), byte1 mode, byte1 (int (length (pw_clauses program))),
                  concatE (map encode_selector_clause (pw_clauses program))]))"

section \<open>Decoding\<close>

definition decode_literal :: "string \<Rightarrow> pyval rd" where
  "decode_literal label =
     bindR (rd_unpack FmtH (label @ '' literal length'')) (\<lambda>n.
     bindR (rd_take n (label @ '' literal'')) (\<lambda>b. returnR (PyBytes b)))"

definition decode_selector_literals :: "string \<Rightarrow> pyval list rd" where
  "decode_selector_literals label =
     bindR (rd_unpack FmtB (label @ '' literal count'')) (\<lambda>count.
     bindR (requireR (1 \<le> count \<and> count \<le> 32) (AnalysisProtocolError (label @ '' requires 1..32 literals''))) (\<lambda>_.
     rd_collect (nat count) (decode_literal label)))"

definition decode_uint_value :: "fmt \<Rightarrow> string \<Rightarrow> pyval rd" where
  "decode_uint_value f label = bindR (rd_unpack f label) (\<lambda>i. returnR (PyInt i))"

definition decode_clause_values :: "string \<Rightarrow> pyval list rd" where
  "decode_clause_values opcode =
     (if opcode = ''always'' then returnR []
      else if opcode = ''link-class-in'' then
        bindR (rd_unpack FmtB ''link class count'') (\<lambda>count.
        bindR (rd_collect (nat count) (rd_unpack FmtB ''link class'')) (\<lambda>codes.
        let names = invert_codes link_class_codes in
        bindR (requireR (codes \<noteq> [] \<and> list_all (\<lambda>c. dict_get names c \<noteq> None) codes)
           (AnalysisProtocolError ''link-class-in values are invalid'')) (\<lambda>_.
        returnR (map (\<lambda>c. PyStr (the (dict_get names c))) codes))))
      else if opcode \<in> set port_opcodes then
        bindR (rd_unpack FmtH (opcode @ '' count'')) (\<lambda>count. rd_collect (nat count) (decode_uint_value FmtH opcode))
      else if opcode \<in> set byte_opcodes then
        bindR (rd_unpack FmtB (opcode @ '' count'')) (\<lambda>count. rd_collect (nat count) (decode_uint_value FmtB opcode))
      else if opcode = ''tcp-flags'' then
        bindR (decode_uint_value FmtH ''required TCP flags'') (\<lambda>a.
        bindR (decode_uint_value FmtH ''forbidden TCP flags'') (\<lambda>b. returnR [a, b]))
      else if opcode = ''payload-minimum-length'' then
        bindR (decode_uint_value FmtI opcode) (\<lambda>a. returnR [a])
      else if opcode \<in> set literal_opcodes then decode_selector_literals opcode
      else if opcode = ''payload-byte-mask'' then
        bindR (decode_uint_value FmtH ''payload mask offset'') (\<lambda>a.
        bindR (decode_uint_value FmtB ''payload mask'') (\<lambda>b.
        bindR (decode_uint_value FmtB ''payload mask expected'') (\<lambda>c. returnR [a, b, c])))
      else if opcode = ''payload-diversity'' then
        bindR (decode_uint_value FmtH ''payload sample'') (\<lambda>a.
        bindR (decode_uint_value FmtH ''payload minimum distinct'') (\<lambda>b. returnR [a, b]))
      else
        bindR (decode_uint_value FmtH ''frame window start'') (\<lambda>a.
        bindR (decode_uint_value FmtH ''frame window end'') (\<lambda>b.
        bindR (decode_selector_literals opcode) (\<lambda>ls. returnR (a # b # ls)))))"

definition decode_selector_clause :: "clause_wire rd" where
  "decode_selector_clause =
     bindR (rd_unpack FmtB ''selector opcode'') (\<lambda>code.
     case dict_get (invert_codes selector_opcodes) code of
       None \<Rightarrow> liftR (protocol_error (''unknown selector opcode: '' @ show_int code))
     | Some opcode \<Rightarrow>
         bindR (decode_clause_values opcode) (\<lambda>values.
         let clause = \<lparr>cw_opcode = opcode, cw_values = values\<rparr> in
         bindR (liftR (encode_selector_clause clause)) (\<lambda>_. returnR clause)))"

definition decode_selector_program :: "program_wire rd" where
  "decode_selector_program =
     bindR (rd_unpack FmtB ''selector program ID'') (\<lambda>program_id.
     bindR (rd_unpack FmtB ''selector candidate mode'') (\<lambda>mode_code.
     case dict_get (invert_codes candidate_mode_codes) mode_code of
       None \<Rightarrow> liftR (protocol_error ''selector candidate mode is invalid'')
     | Some mode \<Rightarrow>
         bindR (rd_unpack FmtB ''selector clause count'') (\<lambda>clause_count.
         bindR (rd_collect (nat clause_count) decode_selector_clause) (\<lambda>clauses.
         let program = \<lparr>pw_program_id = program_id, pw_candidate_mode = mode, pw_clauses = clauses\<rparr> in
         bindR (liftR (encode_selector_program program)) (\<lambda>_. returnR program)))))"

section \<open>The codec laws\<close>

lemma range_val_Inr [result_simps]: "range_val v lo hi l = Inr i \<longleftrightarrow> v = PyInt i \<and> lo \<le> i \<and> i \<le> hi"
  by (auto simp: range_val_def split: option.splits if_splits)

interpretation u16_codec: exact_codec "encode_u16_value l" "decode_uint_value FmtH l'" for l l'
  by unfold_locales (auto simp: encode_u16_value_def decode_uint_value_def range_val_def result_simps rd_iff split: option.splits if_splits)

interpretation u8_codec: exact_codec "encode_u8_value l" "decode_uint_value FmtB l'" for l l'
  by unfold_locales (auto simp: encode_u8_value_def decode_uint_value_def range_val_def result_simps rd_iff split: option.splits if_splits)

interpretation literal_codec: checked_codec "encode_literal l" "decode_literal l'" for l l'
  by unfold_locales (auto simp: encode_literal_def decode_literal_def result_simps rd_simps rd_iff split: option.splits if_splits)

lemma decode_selector_literals_enc:
  assumes "encode_selector_literals vs l = Inr bs"
  shows "decode_selector_literals l' (rd_at pre (bs @ rest)) = Inr (vs, rd_at (pre @ bs) rest)"
proof -
  obtain bss where b: "mapE (encode_literal l) vs = Inr bss" "bs = [word_of_int (int (length vs))] @ concat bss"
    and n: "1 \<le> length vs" "length vs \<le> 32"
    using assms by (auto simp: encode_selector_literals_def result_simps)
  then show ?thesis
    using n literal_codec.collect_enc [OF b(1), of l' "pre @ [word_of_int (int (length vs))]" rest]
    by (simp add: b(2) decode_selector_literals_def rd_simps)
qed

lemma decode_selector_literals_sound:
  assumes "decode_selector_literals l' (rd_at pre s) = Inr (vs, r')" and "encode_selector_literals vs l = Inr bs"
  shows "\<exists>rest. s = bs @ rest \<and> r' = rd_at (pre @ bs) rest"
proof -
  obtain n s1 where n: "0 \<le> n" "n \<le> 32" "s = [word_of_int n] @ s1"
    and c: "rd_collect (nat n) (decode_literal l') (rd_at (pre @ [word_of_int n]) s1) = Inr (vs, r')"
    using assms(1) by (auto simp: decode_selector_literals_def rd_iff)
  obtain bss where b: "mapE (encode_literal l) vs = Inr bss" "bs = [word_of_int (int (length vs))] @ concat bss"
    using assms(2) by (auto simp: encode_selector_literals_def result_simps)
  from rd_collect_length [OF c] n have "int (length vs) = n" by simp
  with literal_codec.collect_sound [OF c b(1)] n b(2) show ?thesis by auto
qed

interpretation literals_codec: checked_codec "\<lambda>vs. encode_selector_literals vs l" "decode_selector_literals l'" for l l'
  by unfold_locales (use decode_selector_literals_enc decode_selector_literals_sound in blast)+


lemma encode_link_class_Inr [result_simps]:
  "encode_link_class v = Inr bs \<longleftrightarrow> v = PyStr ''ethernet'' \<and> bs = [1] \<or> v = PyStr ''raw-ip'' \<and> bs = [2]"
  by (cases v) (auto simp: encode_link_class_def link_class_codes_def result_simps)

lemma byte1_12: "byte1 1 = Inr [1]" "byte1 2 = Inr [2]"
  by (simp_all add: byte1_def)

lemma link_codes_enc: 
  "mapE encode_link_class vs = Inr bss \<Longrightarrow>
   \<exists>cs. length cs = length vs \<and> mapE byte1 cs = Inr bss \<and> list_all (\<lambda>c. dict_get (invert_codes link_class_codes) c \<noteq> None) cs
      \<and> vs = map (\<lambda>c. PyStr (the (dict_get (invert_codes link_class_codes) c))) cs"
proof (induction vs arbitrary: bss)
  case (Cons v vs)
  then obtain b bs where b: "encode_link_class v = Inr b" "mapE encode_link_class vs = Inr bs" "bss = b # bs"
    by (auto simp: result_simps)
  from Cons.IH [OF b(2)] obtain cs where cs: "length cs = length vs" "mapE byte1 cs = Inr bs"
    "list_all (\<lambda>c. dict_get (invert_codes link_class_codes) c \<noteq> None) cs"
    "vs = map (\<lambda>c. PyStr (the (dict_get (invert_codes link_class_codes) c))) cs" by blast
  from b(1) have "v = PyStr ''ethernet'' \<and> b = [1] \<or> v = PyStr ''raw-ip'' \<and> b = [2]"
    by (simp add: result_simps)
  then show ?case
  proof
    assume "v = PyStr ''ethernet'' \<and> b = [1]"
    with cs b show ?thesis
      by (intro exI [of _ "1 # cs"]) (simp add: byte1_12 invert_codes_def link_class_codes_def)
  next
    assume "v = PyStr ''raw-ip'' \<and> b = [2]"
    with cs b show ?thesis
      by (intro exI [of _ "2 # cs"]) (simp add: byte1_12 invert_codes_def link_class_codes_def)
  qed
qed simp

lemma link_codes_dec:
  "list_all (\<lambda>c. dict_get (invert_codes link_class_codes) c \<noteq> None) cs \<Longrightarrow>
   mapE encode_link_class (map (\<lambda>c. PyStr (the (dict_get (invert_codes link_class_codes) c))) cs) = mapE byte1 cs"
proof (induction cs)
  case (Cons c cs)
  then have "c = 1 \<or> c = 2" by (auto simp: invert_codes_def link_class_codes_def split: if_splits)
  with Cons show ?case
    by (auto simp: invert_codes_def link_class_codes_def encode_link_class_def)
qed simp


abbreviation scalar_opcodes :: "string list" where
  "scalar_opcodes \<equiv> [''always'', ''link-class-in'', ''tcp-flags'', ''payload-minimum-length'', ''payload-byte-mask'', ''payload-diversity'']"

lemma opcode_groups:
  "opcode \<in> set port_opcodes \<Longrightarrow> opcode \<notin> set scalar_opcodes \<and> opcode \<notin> set byte_opcodes \<and> opcode \<notin> set literal_opcodes"
  "opcode \<in> set byte_opcodes \<Longrightarrow> opcode \<notin> set scalar_opcodes \<and> opcode \<notin> set port_opcodes \<and> opcode \<notin> set literal_opcodes"
  "opcode \<in> set literal_opcodes \<Longrightarrow> opcode \<notin> set scalar_opcodes \<and> opcode \<notin> set byte_opcodes \<and> opcode \<notin> set port_opcodes"
  by (auto simp: port_opcodes_def byte_opcodes_def literal_opcodes_def)

lemma scalar_not_grouped:
  "opcode \<in> set scalar_opcodes \<Longrightarrow> opcode \<notin> set port_opcodes \<and> opcode \<notin> set byte_opcodes \<and> opcode \<notin> set literal_opcodes"
  using opcode_groups by blast

lemma encode_port_body: "opcode \<in> set port_opcodes \<Longrightarrow> encode_clause_body opcode vs =
   bindE (guardE (1 \<le> length vs \<and> length vs \<le> (if opcode = ''ethertype-in'' then 255 else 512))
      (AnalysisProtocolError (opcode @ '' value count is invalid''))) (\<lambda>_.
   concatE [pack FmtH (int (length vs)), concatE (map (encode_u16_value opcode) vs)])"
  using opcode_groups(1) [of opcode]
  by (simp add: encode_clause_body_def Let_def del: bindE_simps concatE.simps mapE.simps guardE_simps list.map)

lemma decode_port_values: "opcode \<in> set port_opcodes \<Longrightarrow> decode_clause_values opcode =
   bindR (rd_unpack FmtH (opcode @ '' count'')) (\<lambda>count. rd_collect (nat count) (decode_uint_value FmtH opcode))"
  using opcode_groups(1) [of opcode] by (simp add: decode_clause_values_def)

lemma encode_byte_body: "opcode \<in> set byte_opcodes \<Longrightarrow> encode_clause_body opcode vs =
   bindE (guardE (1 \<le> length vs \<and> length vs \<le> 255) (AnalysisProtocolError (opcode @ '' value count is invalid''))) (\<lambda>_.
   concatE [byte1 (int (length vs)), concatE (map (encode_u8_value opcode) vs)])"
  using opcode_groups(2) [of opcode]
  by (simp add: encode_clause_body_def Let_def del: bindE_simps concatE.simps mapE.simps guardE_simps list.map)

lemma decode_byte_values: "opcode \<in> set byte_opcodes \<Longrightarrow> decode_clause_values opcode =
   bindR (rd_unpack FmtB (opcode @ '' count'')) (\<lambda>count. rd_collect (nat count) (decode_uint_value FmtB opcode))"
  using opcode_groups(2) [of opcode] by (simp add: decode_clause_values_def)

lemma encode_literal_body: "opcode \<in> set literal_opcodes \<Longrightarrow> encode_clause_body opcode vs = encode_selector_literals vs opcode"
  using opcode_groups(3) [of opcode]
  by (simp add: encode_clause_body_def Let_def del: bindE_simps concatE.simps mapE.simps guardE_simps list.map)

lemma decode_literal_values: "opcode \<in> set literal_opcodes \<Longrightarrow> decode_clause_values opcode = decode_selector_literals opcode"
  using opcode_groups(3) [of opcode] by (simp add: decode_clause_values_def)

text \<open>The scalar opcodes: the body each one encodes, as an inversion rule.\<close>

lemma encode_always_body: "encode_clause_body ''always'' vs = Inr bs \<longleftrightarrow> vs = [] \<and> bs = []"
  by (auto simp: encode_clause_body_def)

lemma decode_always_values: "decode_clause_values ''always'' = returnR []"
  by (simp add: decode_clause_values_def)

lemma encode_flags_body: "encode_clause_body ''tcp-flags'' vs = Inr bs \<longleftrightarrow>
   (\<exists>a b. vs = [PyInt a, PyInt b] \<and> a \<in> {0..0xFFFF} \<and> b \<in> {0..0xFFFF} \<and> bs = be_bytes 2 a @ be_bytes 2 b)"
proof -
  have "encode_clause_body ''tcp-flags'' vs =
     bindE (guardE (length vs = 2) (AnalysisProtocolError ''tcp-flags requires two values'')) (\<lambda>_.
     concatE (map (encode_u16_value ''tcp-flags'') vs))"
    using scalar_not_grouped [of "''tcp-flags''"]
    by (simp add: encode_clause_body_def del: bindE_simps concatE.simps mapE.simps guardE_simps list.map)
  then show ?thesis
    by (cases vs rule: remdups_adj.cases)
      (auto simp: result_simps encode_u16_value_def length_Suc_conv numeral_2_eq_2 simp del: be_bytes.simps)
qed

lemma decode_flags_values: "decode_clause_values ''tcp-flags'' =
   bindR (decode_uint_value FmtH ''required TCP flags'') (\<lambda>a.
   bindR (decode_uint_value FmtH ''forbidden TCP flags'') (\<lambda>b. returnR [a, b]))"
  using scalar_not_grouped [of "''tcp-flags''"] by (simp add: decode_clause_values_def)

lemma encode_link_body: "encode_clause_body ''link-class-in'' vs =
   bindE (guardE (1 \<le> length vs \<and> length vs \<le> 2) (AnalysisProtocolError ''link-class-in values are invalid'')) (\<lambda>_.
   bindE (mapE (\<lambda>v. bindE (in_str_keys v (map fst link_class_codes)) (\<lambda>b.
             guardE b (AnalysisProtocolError ''link-class-in values are invalid''))) vs) (\<lambda>_.
   concatE [byte1 (int (length vs)), concatE (map encode_link_class vs)]))"
  by (simp add: encode_clause_body_def del: bindE_simps concatE.simps mapE.simps guardE_simps list.map)

lemma decode_link_values: "decode_clause_values ''link-class-in'' =
   bindR (rd_unpack FmtB ''link class count'') (\<lambda>count.
   bindR (rd_collect (nat count) (rd_unpack FmtB ''link class'')) (\<lambda>codes.
   bindR (requireR (codes \<noteq> [] \<and> list_all (\<lambda>c. dict_get (invert_codes link_class_codes) c \<noteq> None) codes)
      (AnalysisProtocolError ''link-class-in values are invalid'')) (\<lambda>_.
   returnR (map (\<lambda>c. PyStr (the (dict_get (invert_codes link_class_codes) c))) codes))))"
  by (simp add: decode_clause_values_def Let_def)


lemma link_body_enc:
  assumes "encode_clause_body ''link-class-in'' vs = Inr bs"
  shows "decode_clause_values ''link-class-in'' (rd_at pre (bs @ rest)) = Inr (vs, rd_at (pre @ bs) rest)"
proof -
  obtain bss where b: "mapE encode_link_class vs = Inr bss" "bs = [word_of_nat (length vs)] @ concat bss"
    and n: "1 \<le> length vs" "length vs \<le> 2"
    using assms by (auto simp: encode_link_body result_simps)
  obtain cs where cs: "length cs = length vs" "mapE byte1 cs = Inr bss"
    "list_all (\<lambda>c. dict_get (invert_codes link_class_codes) c \<noteq> None) cs"
    "vs = map (\<lambda>c. PyStr (the (dict_get (invert_codes link_class_codes) c))) cs"
    using link_codes_enc [OF b(1)] by blast
  have "cs \<noteq> []" using n cs(1) by auto
  then show ?thesis
    using n(2) cs(3) byte_codec.collect_enc [OF cs(2), of "''link class''" "pre @ [word_of_nat (length cs)]" rest]
    by (simp add: b(2) decode_link_values rd_simps cs(4))
qed

lemma link_body_sound:
  assumes "decode_clause_values ''link-class-in'' (rd_at pre s) = Inr (vs, r')"
    and "encode_clause_body ''link-class-in'' vs = Inr bs"
  shows "\<exists>rest. s = bs @ rest \<and> r' = rd_at (pre @ bs) rest"
proof -
  obtain n s1 cs where n: "0 \<le> n" "s = [word_of_int n] @ s1"
    and c: "rd_collect (nat n) (rd_unpack FmtB ''link class'') (rd_at (pre @ [word_of_int n]) s1) = Inr (cs, r')"
    and l: "list_all (\<lambda>c. dict_get (invert_codes link_class_codes) c \<noteq> None) cs"
    and vs: "vs = map (\<lambda>c. PyStr (the (dict_get (invert_codes link_class_codes) c))) cs"
    using assms(1) by (auto simp: decode_link_values rd_iff)
  obtain bss where b: "mapE encode_link_class vs = Inr bss" "bs = [word_of_nat (length vs)] @ concat bss"
    using assms(2) by (auto simp: encode_link_body result_simps)
  have "mapE byte1 cs = Inr bss" using b(1) link_codes_dec [OF l] vs by simp
  from byte_codec.collect_sound [OF c this] obtain rest where
    r: "s1 = concat bss @ rest" "r' = rd_at ((pre @ [word_of_int n]) @ concat bss) rest" by blast
  from rd_collect_length [OF c] n vs have "int (length vs) = n" by simp
  then have "(word_of_int n :: 8 word) = word_of_nat (length vs)" by (metis of_int_of_nat_eq)
  with n b(2) r show ?thesis by auto
qed

lemma encode_minlen_body: "encode_clause_body ''payload-minimum-length'' vs = Inr bs \<longleftrightarrow>
   (\<exists>a. vs = [PyInt a] \<and> a \<in> {0..0xFFFFFFFF} \<and> bs = be_bytes 4 a)"
proof -
  have "encode_clause_body ''payload-minimum-length'' vs =
     (case vs of
        [v] \<Rightarrow> bindE (range_val v 0 0xFFFFFFFF ''payload-minimum-length'') (pack FmtI)
      | _ \<Rightarrow> protocol_error ''payload-minimum-length requires one value'')"
    using scalar_not_grouped [of "''payload-minimum-length''"]
    by (simp add: encode_clause_body_def del: bindE_simps concatE.simps mapE.simps guardE_simps list.map)
  then show ?thesis by (auto simp: result_simps split: list.splits)
qed

lemma decode_minlen_values: "decode_clause_values ''payload-minimum-length'' =
   bindR (decode_uint_value FmtI ''payload-minimum-length'') (\<lambda>a. returnR [a])"
  using scalar_not_grouped [of "''payload-minimum-length''"] by (simp add: decode_clause_values_def)

lemma encode_mask_body: "encode_clause_body ''payload-byte-mask'' vs = Inr bs \<longleftrightarrow>
   (\<exists>a b c. vs = [PyInt a, PyInt b, PyInt c] \<and> a \<in> {0..0xFFFF} \<and> b \<in> {0..0xFF} \<and> c \<in> {0..0xFF}
      \<and> bs = be_bytes 2 a @ be_bytes 1 b @ be_bytes 1 c)"
proof -
  have "encode_clause_body ''payload-byte-mask'' vs =
     (case vs of
        [v0, v1, v2] \<Rightarrow>
          bindE (range_val v0 0 0xFFFF ''payload-byte-mask offset'') (\<lambda>a.
          bindE (range_val v1 0 0xFF ''payload-byte-mask mask'') (\<lambda>b.
          bindE (range_val v2 0 0xFF ''payload-byte-mask expected'') (\<lambda>c.
          concatE [pack FmtH a, pack FmtB b, pack FmtB c])))
      | _ \<Rightarrow> protocol_error ''payload-byte-mask requires three values'')"
    using scalar_not_grouped [of "''payload-byte-mask''"]
    by (simp add: encode_clause_body_def del: bindE_simps concatE.simps mapE.simps guardE_simps list.map)
  then show ?thesis by (auto simp: result_simps split: list.splits)
qed

lemma decode_mask_values: "decode_clause_values ''payload-byte-mask'' =
   bindR (decode_uint_value FmtH ''payload mask offset'') (\<lambda>a.
   bindR (decode_uint_value FmtB ''payload mask'') (\<lambda>b.
   bindR (decode_uint_value FmtB ''payload mask expected'') (\<lambda>c. returnR [a, b, c])))"
  using scalar_not_grouped [of "''payload-byte-mask''"] by (simp add: decode_clause_values_def)

lemma encode_diversity_body: "encode_clause_body ''payload-diversity'' vs = Inr bs \<longleftrightarrow>
   (\<exists>a b. vs = [PyInt a, PyInt b] \<and> a \<in> {0..0xFFFF} \<and> b \<in> {0..0xFFFF} \<and> b \<le> a
      \<and> bs = be_bytes 2 a @ be_bytes 2 b)"
proof -
  have "encode_clause_body ''payload-diversity'' vs =
     (case vs of
        [v0, v1] \<Rightarrow>
          bindE (range_val v0 0 0xFFFF ''payload-diversity'') (\<lambda>a.
          bindE (range_val v1 0 0xFFFF ''payload-diversity'') (\<lambda>b.
          bindE (guardE (b \<le> a) (AnalysisProtocolError ''payload-diversity minimum exceeds sample'')) (\<lambda>_.
          concatE [pack FmtH a, pack FmtH b])))
      | _ \<Rightarrow> protocol_error ''payload-diversity requires two values'')"
    using scalar_not_grouped [of "''payload-diversity''"]
    by (simp add: encode_clause_body_def del: bindE_simps concatE.simps mapE.simps guardE_simps list.map)
  then show ?thesis by (auto simp: result_simps split: list.splits)
qed

lemma decode_diversity_values: "decode_clause_values ''payload-diversity'' =
   bindR (decode_uint_value FmtH ''payload sample'') (\<lambda>a.
   bindR (decode_uint_value FmtH ''payload minimum distinct'') (\<lambda>b. returnR [a, b]))"
  using scalar_not_grouped [of "''payload-diversity''"] by (simp add: decode_clause_values_def)

text \<open>Everything else has the shape of the frame-window opcode.\<close>

definition window_opcode :: "string \<Rightarrow> bool" where
  "window_opcode opcode \<longleftrightarrow>
     opcode \<notin> set scalar_opcodes \<and> opcode \<notin> set port_opcodes \<and> opcode \<notin> set byte_opcodes \<and> opcode \<notin> set literal_opcodes"

lemma encode_window_body: "window_opcode opcode \<Longrightarrow> encode_clause_body opcode vs = Inr bs \<longleftrightarrow>
   (\<exists>a b ls cs. vs = PyInt a # PyInt b # ls \<and> a \<in> {0..0xFFFF} \<and> b \<in> {a..0xFFFF}
      \<and> encode_selector_literals ls opcode = Inr cs \<and> bs = be_bytes 2 a @ be_bytes 2 b @ cs)"
proof -
  assume w: "window_opcode opcode"
  have "encode_clause_body opcode vs =
     (case vs of
        v0 # v1 # v2 # literals \<Rightarrow>
          bindE (range_val v0 0 0xFFFF ''frame window start'') (\<lambda>start.
          bindE (range_val v1 start 0xFFFF ''frame window end'') (\<lambda>stop.
          concatE [pack FmtH start, pack FmtH stop, encode_selector_literals (v2 # literals) opcode]))
      | _ \<Rightarrow> protocol_error ''frame-window-contains-any requires a window and literals'')"
    using w
    by (simp add: encode_clause_body_def window_opcode_def del: bindE_simps concatE.simps mapE.simps guardE_simps list.map)
  moreover have "encode_selector_literals [] opcode \<noteq> Inr cs" for cs
    by (simp add: encode_selector_literals_def)
  ultimately show ?thesis by (auto simp: result_simps split: list.splits)
qed

lemma decode_window_values: "window_opcode opcode \<Longrightarrow> decode_clause_values opcode =
   bindR (decode_uint_value FmtH ''frame window start'') (\<lambda>a.
   bindR (decode_uint_value FmtH ''frame window end'') (\<lambda>b.
   bindR (decode_selector_literals opcode) (\<lambda>ls. returnR (a # b # ls))))"
  by (simp add: decode_clause_values_def window_opcode_def)

lemma clause_opcode_cases:
  "opcode \<in> set scalar_opcodes \<or> opcode \<in> set port_opcodes \<or> opcode \<in> set byte_opcodes \<or> opcode \<in> set literal_opcodes
    \<or> window_opcode opcode"
  unfolding window_opcode_def by argo


lemmas scalar_bodies = encode_always_body encode_flags_body encode_minlen_body encode_mask_body encode_diversity_body
lemmas scalar_values = decode_always_values decode_flags_values decode_minlen_values decode_mask_values decode_diversity_values

lemma decode_uint_value_at [rd_simps]:
  "0 \<le> v \<Longrightarrow> v < 256 ^ calcsize f \<Longrightarrow> decode_uint_value f l (rd_at pre (be_bytes (calcsize f) v @ rest)) =
     Inr (PyInt v, rd_at (pre @ be_bytes (calcsize f) v) rest)"
  by (simp add: decode_uint_value_def rd_simps)

lemma decode_uint_value_iff [rd_iff]:
  "decode_uint_value f l (rd_at pre s) = Inr (x, r') \<longleftrightarrow>
     (\<exists>v rest. x = PyInt v \<and> 0 \<le> v \<and> v < 256 ^ calcsize f \<and> s = be_bytes (calcsize f) v @ rest \<and> r' = rd_at (pre @ be_bytes (calcsize f) v) rest)"
  by (auto simp: decode_uint_value_def rd_iff)

lemmas decode_uint_value_sizes [rd_simps] =
  decode_uint_value_at [where f = FmtB, simplified] decode_uint_value_at [where f = FmtH, simplified]
  decode_uint_value_at [where f = FmtI, simplified]

lemma scalar_body_enc:
  assumes "opcode \<in> set scalar_opcodes" and "encode_clause_body opcode vs = Inr bs"
  shows "decode_clause_values opcode (rd_at pre (bs @ rest)) = Inr (vs, rd_at (pre @ bs) rest)"
  using assms
  by (auto simp: scalar_bodies scalar_values rd_simps link_body_enc simp del: be_bytes.simps)

lemma scalar_body_sound:
  assumes "opcode \<in> set scalar_opcodes" and "decode_clause_values opcode (rd_at pre s) = Inr (vs, r')"
    and "encode_clause_body opcode vs = Inr bs"
  shows "\<exists>rest. s = bs @ rest \<and> r' = rd_at (pre @ bs) rest"
  using assms
  by (auto simp: scalar_bodies scalar_values rd_iff simp del: be_bytes.simps dest: link_body_sound)

lemma clause_body_enc:
  assumes e: "encode_clause_body opcode vs = Inr bs"
  shows "decode_clause_values opcode (rd_at pre (bs @ rest)) = Inr (vs, rd_at (pre @ bs) rest)"
  using clause_opcode_cases [of opcode]
proof (elim disjE)
  assume "opcode \<in> set port_opcodes"
  then show ?thesis
    using e u16_codec.counted_enc [of FmtH vs opcode] by (auto simp: encode_port_body decode_port_values bindE_Inr)
next
  assume o: "opcode \<in> set byte_opcodes"
  then have "concatE [pack FmtB (int (length vs)), concatE (map (encode_u8_value opcode) vs)] = Inr bs"
    using e by (auto simp: encode_byte_body concatE_Cons_Inr bindE_Inr pack_byte1)
  with o u8_codec.counted_enc [of FmtB vs opcode bs] show ?thesis by (simp add: decode_byte_values)
next
  assume "opcode \<in> set literal_opcodes"
  then show ?thesis using e by (simp add: encode_literal_body decode_literal_values literals_codec.dec_enc)
next
  assume "window_opcode opcode"
  then show ?thesis
    using e by (auto simp: encode_window_body decode_window_values rd_simps literals_codec.dec_enc simp del: be_bytes.simps)
qed (rule scalar_body_enc [OF _ e])

lemma clause_body_sound:
  assumes d: "decode_clause_values opcode (rd_at pre s) = Inr (vs, r')" and e: "encode_clause_body opcode vs = Inr bs"
  shows "\<exists>rest. s = bs @ rest \<and> r' = rd_at (pre @ bs) rest"
  using clause_opcode_cases [of opcode]
proof (elim disjE)
  assume "opcode \<in> set port_opcodes"
  then show ?thesis
    using e d u16_codec.counted_sound [of FmtH _ opcode pre s vs r' opcode bs]
    by (auto simp: encode_port_body decode_port_values bindE_Inr)
next
  assume o: "opcode \<in> set byte_opcodes"
  then have "concatE [pack FmtB (int (length vs)), concatE (map (encode_u8_value opcode) vs)] = Inr bs"
    using e by (auto simp: encode_byte_body concatE_Cons_Inr bindE_Inr pack_byte1)
  with o d show ?thesis by (auto simp: decode_byte_values dest: u8_codec.counted_sound)
next
  assume "opcode \<in> set literal_opcodes"
  then show ?thesis using e d by (auto simp: encode_literal_body decode_literal_values dest: literals_codec.dec_sound)
next
  assume "window_opcode opcode"
  then show ?thesis
    using e d by (fastforce simp: encode_window_body decode_window_values rd_iff simp del: be_bytes.simps dest: literals_codec.dec_sound)
qed (rule scalar_body_sound [OF _ d e])

interpretation body_codec: checked_codec "encode_clause_body opcode" "decode_clause_values opcode" for opcode
  by unfold_locales (use clause_body_enc clause_body_sound in blast)+


lemma selector_opcode_codes: "dict_get (invert_codes selector_opcodes) c = Some k \<longleftrightarrow> dict_get selector_opcodes k = Some c"
  by (rule invert_codes_iff) (simp_all add: selector_opcodes_def)

lemma candidate_mode_code: "dict_get (invert_codes candidate_mode_codes) c = Some k \<longleftrightarrow> dict_get candidate_mode_codes k = Some c"
  by (rule invert_codes_iff) (simp_all add: candidate_mode_codes_def)

lemma code_of_range:
  "dict_get selector_opcodes k = Some c \<Longrightarrow> 1 \<le> c \<and> c \<le> 15"
  "dict_get candidate_mode_codes m = Some c \<Longrightarrow> 1 \<le> c \<and> c \<le> 2"
  by (auto simp: selector_opcodes_def candidate_mode_codes_def split: if_splits)

lemma encode_selector_clause_Inr: "encode_selector_clause x = Inr bs \<longleftrightarrow>
   (\<exists>c cs. dict_get selector_opcodes (cw_opcode x) = Some c \<and> encode_clause_body (cw_opcode x) (cw_values x) = Inr cs
      \<and> bs = word_of_int c # cs)"
proof (cases "dict_get selector_opcodes (cw_opcode x)")
  case (Some c)
  with code_of_range(1) [OF Some] have "byte1 c = Inr [word_of_int c]" by (simp add: byte1_def)
  with Some show ?thesis by (auto simp: encode_selector_clause_def bindE_Inr)
qed (simp add: encode_selector_clause_def)

lemma decode_selector_clause_Inr: "decode_selector_clause (rd_at pre s) = Inr (x, r') \<longleftrightarrow>
   (\<exists>c s1 bs. s = word_of_int c # s1 \<and> dict_get selector_opcodes (cw_opcode x) = Some c
      \<and> decode_clause_values (cw_opcode x) (rd_at (pre @ [word_of_int c]) s1) = Inr (cw_values x, r')
      \<and> encode_selector_clause x = Inr bs)"
  (is "?L \<longleftrightarrow> ?R")
proof
  assume ?L
  then show ?R
    by (auto simp: decode_selector_clause_def rd_iff selector_opcode_codes Let_def split: option.splits)
next
  assume ?R
  then obtain c s1 bs where h: "s = word_of_int c # s1" "dict_get selector_opcodes (cw_opcode x) = Some c"
      "decode_clause_values (cw_opcode x) (rd_at (pre @ [word_of_int c]) s1) = Inr (cw_values x, r')"
      "encode_selector_clause x = Inr bs" by blast
  from code_of_range(1) [OF h(2)] have "uint (word_of_int c :: 8 word) = c"
    by (simp add: uint_word_of_int)
  moreover have "dict_get (invert_codes selector_opcodes) c = Some (cw_opcode x)"
    using h(2) by (simp only: selector_opcode_codes)
  ultimately show ?L using h
    by (cases x) (simp add: decode_selector_clause_def rd_simps Let_def)
qed

interpretation clause_codec: exact_codec encode_selector_clause decode_selector_clause
proof unfold_locales
  fix x bs pre rest
  assume e: "encode_selector_clause x = Inr bs"
  then obtain c cs where "dict_get selector_opcodes (cw_opcode x) = Some c" "bs = word_of_int c # cs"
    and b: "encode_clause_body (cw_opcode x) (cw_values x) = Inr cs" by (auto simp: encode_selector_clause_Inr)
  then show "decode_selector_clause (rd_at pre (bs @ rest)) = Inr (x, rd_at (pre @ bs) rest)"
    using e body_codec.dec_enc [OF b, of "pre @ [word_of_int c]" rest]
    by (auto simp: decode_selector_clause_Inr)
next
  fix pre s x r' bs
  assume "decode_selector_clause (rd_at pre s) = Inr (x, r')" and "encode_selector_clause x = Inr bs"
  then show "\<exists>rest. s = bs @ rest \<and> r' = rd_at (pre @ bs) rest"
    by (fastforce simp: decode_selector_clause_Inr encode_selector_clause_Inr dest: body_codec.dec_sound)
qed (auto simp: decode_selector_clause_Inr)

lemma encode_selector_program_Inr: "encode_selector_program x = Inr bs \<longleftrightarrow>
   (\<exists>c cs. 0 \<le> pw_program_id x \<and> pw_program_id x \<le> 63 \<and> dict_get candidate_mode_codes (pw_candidate_mode x) = Some c
      \<and> 1 \<le> length (pw_clauses x) \<and> length (pw_clauses x) \<le> 16
      \<and> concatE [pack FmtB (int (length (pw_clauses x))), concatE (map encode_selector_clause (pw_clauses x))] = Inr cs
      \<and> bs = word_of_int (pw_program_id x) # word_of_int c # cs)"
proof (cases "dict_get candidate_mode_codes (pw_candidate_mode x)")
  case (Some c)
  with code_of_range(2) [OF Some] have b: "byte1 c = Inr [word_of_int c]" by (simp add: byte1_def)
  have k: "concatE [byte1 p, byte1 c, byte1 n, R] = Inr bs \<longleftrightarrow>
      (0 \<le> p \<and> p < 256 \<and> (\<exists>cs. concatE [pack FmtB n, R] = Inr cs \<and> bs = word_of_int p # word_of_int c # cs))" for p n R
    by (cases R) (auto simp: bindE_Inr b byte1_Inr pack_byte1)
  have "encode_selector_program x = Inr bs \<longleftrightarrow>
     0 \<le> pw_program_id x \<and> pw_program_id x \<le> 63 \<and> 1 \<le> length (pw_clauses x) \<and> length (pw_clauses x) \<le> 16 \<and>
     concatE [byte1 (pw_program_id x), byte1 c, byte1 (int (length (pw_clauses x))), concatE (map encode_selector_clause (pw_clauses x))] = Inr bs"
    by (simp add: encode_selector_program_def range_check_def bindE_Inr guardE_Inr Some del: concatE.simps)
  then show ?thesis unfolding k Some by auto
qed (simp add: encode_selector_program_def bindE_Inr)


text \<open>The program reader in two stages: the two code bytes, then the counted clauses and the re-encoding.\<close>

definition decode_program_clauses :: "int \<Rightarrow> string \<Rightarrow> program_wire rd" where
  "decode_program_clauses p mode =
     bindR (bindR (rd_unpack FmtB ''selector clause count'') (\<lambda>n. rd_collect (nat n) decode_selector_clause)) (\<lambda>clauses.
     bindR (liftR (encode_selector_program \<lparr>pw_program_id = p, pw_candidate_mode = mode, pw_clauses = clauses\<rparr>))
       (\<lambda>_. returnR \<lparr>pw_program_id = p, pw_candidate_mode = mode, pw_clauses = clauses\<rparr>))"

lemma decode_selector_program_stages: "decode_selector_program =
   bindR (rd_unpack FmtB ''selector program ID'') (\<lambda>p.
   bindR (rd_unpack FmtB ''selector candidate mode'') (\<lambda>c.
     case dict_get (invert_codes candidate_mode_codes) c of
       None \<Rightarrow> liftR (protocol_error ''selector candidate mode is invalid'')
     | Some m \<Rightarrow> decode_program_clauses p m))"
  unfolding decode_selector_program_def decode_program_clauses_def Let_def bindR_assoc by (rule refl)

lemma decode_program_clauses_Inr: "decode_program_clauses p m r = Inr (x, r') \<longleftrightarrow>
   pw_program_id x = p \<and> pw_candidate_mode x = m \<and> is_ok (encode_selector_program x) \<and>
   bindR (rd_unpack FmtB ''selector clause count'') (\<lambda>n. rd_collect (nat n) decode_selector_clause) r = Inr (pw_clauses x, r')"
proof -
  have "decode_program_clauses p m r = Inr (x, r') \<longleftrightarrow>
    (\<exists>cl r1. bindR (rd_unpack FmtB ''selector clause count'') (\<lambda>n. rd_collect (nat n) decode_selector_clause) r = Inr (cl, r1) \<and>
       (\<exists>e. encode_selector_program \<lparr>pw_program_id = p, pw_candidate_mode = m, pw_clauses = cl\<rparr> = Inr e) \<and>
       x = \<lparr>pw_program_id = p, pw_candidate_mode = m, pw_clauses = cl\<rparr> \<and> r' = r1)"
    unfolding decode_program_clauses_def
    by (subst bindR_Inr) (simp only: bindR_Inr [of "liftR m" f for m f] liftR_Inr returnR_apply sum.inject prod.inject, blast)
  also have "\<dots> \<longleftrightarrow> pw_program_id x = p \<and> pw_candidate_mode x = m \<and> is_ok (encode_selector_program x) \<and>
     bindR (rd_unpack FmtB ''selector clause count'') (\<lambda>n. rd_collect (nat n) decode_selector_clause) r = Inr (pw_clauses x, r')"
    by (cases x) (auto simp only: is_ok_iff program_wire.simps program_wire.select_convs)
  finally show ?thesis .
qed

lemma decode_selector_program_Inr: "decode_selector_program (rd_at pre s) = Inr (x, r') \<longleftrightarrow>
   (\<exists>c s1. s = word_of_int (pw_program_id x) # word_of_int c # s1
      \<and> dict_get candidate_mode_codes (pw_candidate_mode x) = Some c
      \<and> bindR (rd_unpack FmtB ''selector clause count'') (\<lambda>n. rd_collect (nat n) decode_selector_clause)
          (rd_at (pre @ [word_of_int (pw_program_id x), word_of_int c]) s1) = Inr (pw_clauses x, r')
      \<and> is_ok (encode_selector_program x))"
  (is "?L \<longleftrightarrow> ?R")
proof -
  have id: "is_ok (encode_selector_program x) \<Longrightarrow> 0 \<le> pw_program_id x \<and> pw_program_id x < 256"
    by (auto simp: is_ok_iff encode_selector_program_Inr simp del: concatE.simps)
  have "?L \<longleftrightarrow> (\<exists>p c s1 m. 0 \<le> p \<and> p < 256 \<and> 0 \<le> c \<and> c < 256 \<and> s = word_of_int p # word_of_int c # s1 \<and>
      dict_get candidate_mode_codes m = Some c \<and> decode_program_clauses p m (rd_at (pre @ [word_of_int p, word_of_int c]) s1) = Inr (x, r'))"
    unfolding decode_selector_program_stages bind_byte_iff case_lookup_iff candidate_mode_code
    by (simp only: append_assoc append.simps) blast
  also have "\<dots> \<longleftrightarrow> ?R"
    unfolding decode_program_clauses_Inr using id code_of_range(2) by fastforce
  finally show ?thesis .
qed

interpretation program_codec: exact_codec encode_selector_program decode_selector_program
proof unfold_locales
  fix x bs pre rest
  assume e: "encode_selector_program x = Inr bs"
  then obtain c cs where "dict_get candidate_mode_codes (pw_candidate_mode x) = Some c" "bs = word_of_int (pw_program_id x) # word_of_int c # cs"
    and b: "concatE [pack FmtB (int (length (pw_clauses x))), concatE (map encode_selector_clause (pw_clauses x))] = Inr cs"
    by (auto simp: encode_selector_program_Inr)
  then show "decode_selector_program (rd_at pre (bs @ rest)) = Inr (x, rd_at (pre @ bs) rest)"
    using e clause_codec.counted_enc [OF b, of "''selector clause count''" "pre @ [word_of_int (pw_program_id x), word_of_int c]" rest]
    by (auto simp: decode_selector_program_Inr is_ok_iff)
next
  fix pre s x r' bs
  assume d: "decode_selector_program (rd_at pre s) = Inr (x, r')" and e: "encode_selector_program x = Inr bs"
  from d obtain c s1 where c: "s = word_of_int (pw_program_id x) # word_of_int c # s1"
    "dict_get candidate_mode_codes (pw_candidate_mode x) = Some c"
    "bindR (rd_unpack FmtB ''selector clause count'') (\<lambda>n. rd_collect (nat n) decode_selector_clause)
       (rd_at (pre @ [word_of_int (pw_program_id x), word_of_int c]) s1) = Inr (pw_clauses x, r')"
    by (auto simp: decode_selector_program_Inr)
  from e c(2) obtain cs where cs: "concatE [pack FmtB (int (length (pw_clauses x))), concatE (map encode_selector_clause (pw_clauses x))] = Inr cs"
      "bs = word_of_int (pw_program_id x) # word_of_int c # cs"
    by (auto simp: encode_selector_program_Inr)
  from clause_codec.counted_sound [OF c(3) cs(1)] show "\<exists>rest. s = bs @ rest \<and> r' = rd_at (pre @ bs) rest"
    using c(1) cs(2) by auto
qed (auto simp: decode_selector_program_Inr is_ok_iff)

end
