(* ===== verification/Transport.thy ===== *)
theory Transport imports WireReader begin

text \<open>
  The \<open>WT01\<close> frame layer between the Python process and the Rust sensor: the frame constants and
  \<open>encode_transport_frame\<close> / \<open>read_transport_frame\<close> of core/packet\_engine/rust\_analysis.py, and
  \<open>read_frame\<close> of core/packet\_engine/rust\_capture.py.  The child's stdout is a pipe: a read
  returns at least one byte and at most as many as asked for, so the stream is the list of the
  chunks the operating system happens to deliver, and an empty read is end of file.  The lemmas show
  that what the readers return depends on the bytes only, never on how they were chunked.
\<close>

section \<open>Frame constants\<close>

abbreviation ANALYSIS_SCHEMA_VERSION :: int where "ANALYSIS_SCHEMA_VERSION \<equiv> 1"
abbreviation FRAME_ANALYSIS_HELLO :: int where "FRAME_ANALYSIS_HELLO \<equiv> 0x04"
abbreviation FRAME_ANALYSIS_WORK :: int where "FRAME_ANALYSIS_WORK \<equiv> 0x05"
abbreviation FRAME_ANALYSIS_FLOW :: int where "FRAME_ANALYSIS_FLOW \<equiv> 0x06"
abbreviation FRAME_ANALYSIS_CONVERSATION :: int where "FRAME_ANALYSIS_CONVERSATION \<equiv> 0x07"
abbreviation FRAME_ANALYSIS_STREAM :: int where "FRAME_ANALYSIS_STREAM \<equiv> 0x08"
abbreviation FRAME_ANALYSIS_END :: int where "FRAME_ANALYSIS_END \<equiv> 0x09"
abbreviation FRAME_ANALYSIS_ERROR :: int where "FRAME_ANALYSIS_ERROR \<equiv> 0x0A"
abbreviation FRAME_ANALYSIS_PACKET_INDEX :: int where "FRAME_ANALYSIS_PACKET_INDEX \<equiv> 0x0B"
abbreviation FRAME_ANALYSIS_PLAN :: int where "FRAME_ANALYSIS_PLAN \<equiv> 0x10"
abbreviation FRAME_ANALYSIS_CANCEL :: int where "FRAME_ANALYSIS_CANCEL \<equiv> 0x11"

abbreviation FRAME_EVENTS :: int where "FRAME_EVENTS \<equiv> 1"
abbreviation FRAME_HEALTH :: int where "FRAME_HEALTH \<equiv> 2"
abbreviation FRAME_PACKET_INDEX :: int where "FRAME_PACKET_INDEX \<equiv> 3"
abbreviation FRAME_TERMINAL :: int where "FRAME_TERMINAL \<equiv> 4"

definition TRANSPORT_MAGIC :: bytes where "TRANSPORT_MAGIC = b_lit ''WT01''"

abbreviation TRANSPORT_VERSION :: int where "TRANSPORT_VERSION \<equiv> 1"
abbreviation MAX_CONTROL_FRAME_BYTES :: int where "MAX_CONTROL_FRAME_BYTES \<equiv> 1024 * 1024"
abbreviation MAX_ANALYSIS_FRAME_BYTES :: int where "MAX_ANALYSIS_FRAME_BYTES \<equiv> 128 * 1024 * 1024"
abbreviation MAX_FRAME_BYTES :: int where "MAX_FRAME_BYTES \<equiv> 128 * 1024 * 1024"
abbreviation MAX_PACKET_INDEX_FRAME_BYTES :: int where "MAX_PACKET_INDEX_FRAME_BYTES \<equiv> 4 * 1024 * 1024"

definition transport_limit :: "int \<Rightarrow> int" where
  "transport_limit kind = (if kind = FRAME_ANALYSIS_PLAN \<or> kind = FRAME_ANALYSIS_CANCEL
     then MAX_CONTROL_FRAME_BYTES else MAX_ANALYSIS_FRAME_BYTES)"

definition capture_limit :: "int \<Rightarrow> int" where
  "capture_limit kind = (if kind = FRAME_PACKET_INDEX then MAX_PACKET_INDEX_FRAME_BYTES else MAX_FRAME_BYTES)"

section \<open>Pipes\<close>

type_synonym stream = "bytes list"

fun stream_read :: "nat \<Rightarrow> stream \<Rightarrow> bytes \<times> stream" where
  "stream_read n [] = ([], [])"
| "stream_read n (c # cs) = (if length c \<le> n then (c, cs) else (take n c, drop n c # cs))"

text \<open>The bytes before end of file.\<close>

fun stream_bytes :: "stream \<Rightarrow> bytes" where
  "stream_bytes [] = []"
| "stream_bytes (c # cs) = (if c = [] then [] else c @ stream_bytes cs)"

lemma stream_read_bytes:
  assumes "0 < n" "stream_read n s = (c, s')"
  shows "(c = [] \<longleftrightarrow> stream_bytes s = []) \<and> length c \<le> n \<and> (c \<noteq> [] \<longrightarrow> stream_bytes s = c @ stream_bytes s')"
  using assms by (cases s) (auto split: if_splits)

function read_exact_loop :: "(bytes \<Rightarrow> py_error) \<Rightarrow> nat \<Rightarrow> bytes \<Rightarrow> stream \<Rightarrow> (bytes \<times> stream) result" where
  "read_exact_loop eof n acc s =
     (if length acc < n
      then case stream_read (n - length acc) s of (chunk, s') \<Rightarrow>
        if chunk = [] then Inl (eof acc) else read_exact_loop eof n (acc @ chunk) s'
      else Inr (acc, s))"
  by pat_completeness auto
termination
  by (relation "measure (\<lambda>(eof, n, acc, s). n - length acc)")
    (auto simp: diff_less_mono2 simp flip: length_greater_0_conv)

declare read_exact_loop.simps [simp del]

lemma read_exact_loop_spec:
  "length acc \<le> n \<Longrightarrow>
     (if n \<le> length acc + length (stream_bytes s)
      then \<exists>s'. read_exact_loop eof n acc s = Inr (acc @ take (n - length acc) (stream_bytes s), s') \<and>
                stream_bytes s' = drop (n - length acc) (stream_bytes s)
      else \<exists>acc'. acc' = acc @ stream_bytes s \<and> read_exact_loop eof n acc s = Inl (eof acc'))"
proof (induction eof n acc s rule: read_exact_loop.induct)
  case (1 eof n acc s)
  show ?case
  proof (cases "length acc < n")
    case False
    with "1.prems" have "n = length acc" by simp
    then show ?thesis by (subst (1) read_exact_loop.simps) simp
  next
    case True
    obtain c s' where c: "stream_read (n - length acc) s = (c, s')" by fastforce
    note sp = stream_read_bytes [OF _ c]
    show ?thesis
    proof (cases "c = []")
      case empty: True
      with sp True c show ?thesis by (simp add: read_exact_loop.simps [of eof n acc s])
    next
      case False
      have len: "length (acc @ c) \<le> n" and b: "stream_bytes s = c @ stream_bytes s'"
        using sp True False by auto
      have step: "read_exact_loop eof n acc s = read_exact_loop eof n (acc @ c) s'"
        using True False c by (simp add: read_exact_loop.simps [of eof n acc s])
      from "1.IH" [OF True c [symmetric] False len] show ?thesis
        using len unfolding step b by (auto simp: split: if_splits)
    qed
  qed
qed

section \<open>Aggregate analysis frames\<close>

definition encode_transport_frame :: "int \<Rightarrow> bytes \<Rightarrow> bytes result" where
  "encode_transport_frame frame_kind payload =
     bindE (guardE (0 \<le> frame_kind \<and> frame_kind \<le> 0xFF) (AnalysisProtocolError ''analysis frame kind must be a byte'')) (\<lambda>_.
     bindE (guardE (int (length payload) \<le> transport_limit frame_kind)
        (AnalysisProtocolError (''analysis frame exceeds limit: '' @ show_int (int (length payload))))) (\<lambda>_.
     concatE [Inr TRANSPORT_MAGIC, byte1 TRANSPORT_VERSION, byte1 frame_kind,
              pack FmtI (int (length payload)), Inr payload]))"

definition read_transport_exact :: "nat \<Rightarrow> stream \<Rightarrow> (bytes \<times> stream) result" where
  "read_transport_exact n s =
     read_exact_loop (\<lambda>_. EOFError ''Rust analysis child closed a truncated frame'') n [] s"

definition read_transport_frame :: "stream \<Rightarrow> ((int \<times> bytes) \<times> stream) result" where
  "read_transport_frame s =
     bindE (read_transport_exact 10 s) (\<lambda>(header, s1).
     bindE (guardE (take 4 header = TRANSPORT_MAGIC \<and> uint (header ! 4) = TRANSPORT_VERSION)
        (AnalysisProtocolError ''invalid Rust analysis frame header'')) (\<lambda>_.
     let kind = uint (header ! 5); n = be_int (drop 6 header) in
     bindE (guardE (n \<le> transport_limit kind)
        (AnalysisProtocolError (''analysis frame exceeds limit: '' @ show_int n))) (\<lambda>_.
     bindE (read_transport_exact (nat n) s1) (\<lambda>(payload, s2). Inr ((kind, payload), s2)))))"

section \<open>Capture sensor frames\<close>

definition capture_read_exact :: "bool \<Rightarrow> nat \<Rightarrow> stream \<Rightarrow> (bytes \<times> stream) result" where
  "capture_read_exact allow_clean_eof n s =
     read_exact_loop (\<lambda>data. if data = [] \<and> allow_clean_eof
        then EOFError ''Rust sensor closed its event stream''
        else TruncatedRustFrameError ''Rust sensor emitted a truncated frame'') n [] s"

definition read_frame :: "stream \<Rightarrow> ((int \<times> bytes) \<times> stream) result" where
  "read_frame s =
     bindE (capture_read_exact True 10 s) (\<lambda>(header, s1).
     bindE (guardE (take 4 header = TRANSPORT_MAGIC \<and> uint (header ! 4) = 1)
        (ValueError ''Invalid Rust sensor frame header'')) (\<lambda>_.
     let frame_type = uint (header ! 5); payload_size = be_int (take 4 (drop 6 header)) in
     bindE (guardE (payload_size \<le> capture_limit frame_type)
        (if frame_type = FRAME_PACKET_INDEX
         then ValueError (''Rust sensor packet-index frame exceeds limit: '' @ show_int payload_size)
         else ValueError (''Rust sensor frame exceeds limit: '' @ show_int payload_size))) (\<lambda>_.
     bindE (capture_read_exact False (nat payload_size) s1) (\<lambda>(payload, s2). Inr ((frame_type, payload), s2)))))"

section \<open>Lemmas\<close>

lemma length_TRANSPORT_MAGIC [simp]: "length TRANSPORT_MAGIC = 4"
  by (simp add: TRANSPORT_MAGIC_def b_lit_def)

lemma transport_limit_less: "transport_limit k < 256 ^ 4"
  by (simp add: transport_limit_def)

lemma read_transport_exact_Inr:
  "(\<exists>s'. read_transport_exact n s = Inr (x, s')) \<longleftrightarrow> n \<le> length (stream_bytes s) \<and> x = take n (stream_bytes s)"
  using read_exact_loop_spec [of "[]" n s "\<lambda>_. EOFError ''Rust analysis child closed a truncated frame''"]
  by (auto simp: read_transport_exact_def split: if_splits)

lemma read_transport_exact_rest:
  "read_transport_exact n s = Inr (x, s') \<Longrightarrow> stream_bytes s = x @ stream_bytes s' \<and> length x = n"
  using read_exact_loop_spec [of "[]" n s "\<lambda>_. EOFError ''Rust analysis child closed a truncated frame''"]
  by (auto simp: read_transport_exact_def split: if_splits)

lemma capture_read_exact_rest:
  "capture_read_exact b n s = Inr (x, s') \<Longrightarrow> stream_bytes s = x @ stream_bytes s' \<and> length x = n"
  using read_exact_loop_spec [of "[]" n s "\<lambda>data. if data = [] \<and> b
        then EOFError ''Rust sensor closed its event stream''
        else TruncatedRustFrameError ''Rust sensor emitted a truncated frame''"]
  by (auto simp: capture_read_exact_def split: if_splits)

lemma encode_transport_frame_Inr:
  "encode_transport_frame k p = Inr bs \<longleftrightarrow>
     0 \<le> k \<and> k \<le> 255 \<and> int (length p) \<le> transport_limit k \<and>
     bs = TRANSPORT_MAGIC @ [1, word_of_int k] @ be_bytes 4 (int (length p)) @ p"
  using transport_limit_less [of k]
  by (auto simp: encode_transport_frame_def result_simps)

lemma read_transport_frame_bytes:
  assumes "read_transport_frame s = Inr ((k, p), s')"
  shows "encode_transport_frame k p = Inr (TRANSPORT_MAGIC @ [1, word_of_int k] @ be_bytes 4 (int (length p)) @ p) \<and>
     stream_bytes s = TRANSPORT_MAGIC @ [1, word_of_int k] @ be_bytes 4 (int (length p)) @ p @ stream_bytes s'"
proof -
  obtain h s1 where h: "read_transport_exact 10 s = Inr (h, s1)"
    "take 4 h = TRANSPORT_MAGIC" "uint (h ! 4) = 1" "k = uint (h ! 5)"
    "be_int (drop 6 h) \<le> transport_limit k"
    "read_transport_exact (nat (be_int (drop 6 h))) s1 = Inr (p, s')"
    using assms by (auto simp: read_transport_frame_def result_simps Let_def)
  note b = read_transport_exact_rest [OF h(1)] read_transport_exact_rest [OF h(6)]
  have len: "int (length p) = be_int (drop 6 h)" using b by simp
  have "h = take 4 h @ [h ! 4, h ! 5] @ drop 6 h"
    using b by (intro nth_equalityI) (auto simp: nth_append nth_Cons' less_Suc_eq numeral_eq_Suc)
  moreover have "h ! 4 = 1" using h(3) by (metis uint_1 word_uint_eqI)
  moreover have "be_bytes 4 (int (length p)) = drop 6 h" using len b by simp
  moreover have "word_of_int k = h ! 5" using h(4) by simp
  moreover have "0 \<le> k" "k \<le> 255" using h(4) uint_lt2p [of "h ! 5"] by simp_all
  ultimately show ?thesis
    using h b len by (simp add: encode_transport_frame_Inr)
qed

lemma frame_roundtrip:
  assumes e: "encode_transport_frame k p = Inr bs" and s: "stream_bytes s = bs @ rest"
  shows "\<exists>s'. read_transport_frame s = Inr ((k, p), s') \<and> stream_bytes s' = rest"
proof -
  have k: "0 \<le> k" "k \<le> 255" "int (length p) \<le> transport_limit k"
    and bs: "bs = TRANSPORT_MAGIC @ [1, word_of_int k] @ be_bytes 4 (int (length p)) @ p"
    using e by (auto simp: encode_transport_frame_Inr simp del: be_bytes.simps)
  let ?h = "TRANSPORT_MAGIC @ [1, word_of_int k] @ be_bytes 4 (int (length p))"
  have lh: "length ?h = 10" by (simp del: be_bytes.simps)
  have sb: "stream_bytes s = ?h @ p @ rest" using s bs by (simp del: be_bytes.simps)
  obtain s1 where s1: "read_transport_exact 10 s = Inr (?h, s1)"
    using read_transport_exact_Inr [of 10 s ?h] lh unfolding sb by (auto simp del: be_bytes.simps)
  then have b1: "stream_bytes s1 = p @ rest"
    using read_transport_exact_rest [OF s1] unfolding sb by (simp del: be_bytes.simps)
  obtain s2 where s2: "read_transport_exact (length p) s1 = Inr (p, s2)"
    using read_transport_exact_Inr [of "length p" s1 p] unfolding b1 by auto
  have b2: "stream_bytes s2 = rest" using read_transport_exact_rest [OF s2] unfolding b1 by simp
  have n: "int (length p) < 256 ^ 4" using k(3) transport_limit_less [of k] by simp
  have hd: "take 4 ?h = TRANSPORT_MAGIC" "?h ! 4 = 1" "?h ! 5 = word_of_int k" "drop 6 ?h = be_bytes 4 (int (length p))"
    by (simp_all add: nth_append del: be_bytes.simps)
  have uk: "uint (word_of_int k :: 8 word) = k" using k by (simp add: uint_word_of_int)
  have be: "be_int (drop 6 ?h) = int (length p)" unfolding hd(4) by (rule be_int_be_bytes) (use n in simp_all)
  have "read_transport_frame s = Inr ((k, p), s2)"
    unfolding read_transport_frame_def s1 Let_def bindE_simps prod.case hd(1,2,3) be
    using k(3) s2 by (simp add: uk)
  with b2 show ?thesis by blast
qed

end
