(* ===== verification/PlanCodec.thy ===== *)
theory PlanCodec imports SelectorCodec Sha256 Transport begin

text \<open>
  The plan frame: \<open>AnalysisPlanWire\<close>, \<open>_validate_plan\<close>, \<open>encode_analysis_plan\<close> and
  \<open>decode_analysis_plan\<close> of core/packet\_engine/rust\_analysis.py.  The encoder ignores the digest
  its argument carries and puts the SHA-256 of the rest of the payload in its place; the decoder
  recomputes it.  The grammar of the body is computed from its field readers, and from it follows
  that the decoder accepts exactly the encoder's output.
\<close>

unbundle bit_operations_syntax

record analysis_plan =
  plan_sha256 :: bytes
  semantic_plugin_sha256 :: bytes
  execution_mode :: string
  analysis_mode :: string
  plan_flags :: int
  target_batch_bytes :: int
  max_active_conversations :: int
  max_resume_conversations :: int
  max_directional_flows :: int
  max_endpoints :: int
  max_flow_samples :: int
  max_flow_sample_bytes :: int
  max_stream_segments :: int
  max_stream_bytes :: int
  plan_source :: string
  plan_session_id :: string
  plan_interface :: string
  plan_sensor_node_id :: string
  selector_programs :: "program_wire list"

abbreviation ANALYSIS_FLAG_PACKET_INDEX :: int where "ANALYSIS_FLAG_PACKET_INDEX \<equiv> 1"
abbreviation ANALYSIS_FLAG_NATIVE_CONVERSATIONS :: int where "ANALYSIS_FLAG_NATIVE_CONVERSATIONS \<equiv> 2"
abbreviation ANALYSIS_FLAG_STREAM_SEGMENTS :: int where "ANALYSIS_FLAG_STREAM_SEGMENTS \<equiv> 4"
abbreviation ANALYSIS_FLAG_TERMINAL_METRICS :: int where "ANALYSIS_FLAG_TERMINAL_METRICS \<equiv> 8"

definition KNOWN_FLAGS :: int where
  "KNOWN_FLAGS = ANALYSIS_FLAG_PACKET_INDEX OR ANALYSIS_FLAG_NATIVE_CONVERSATIONS
     OR ANALYSIS_FLAG_STREAM_SEGMENTS OR ANALYSIS_FLAG_TERMINAL_METRICS"

definition execution_mode_codes :: "(string \<times> int) list" where
  "execution_mode_codes = [(''aggregate-v1'', 1), (''compatibility-v1'', 2)]"

definition analysis_mode_codes :: "(string \<times> int) list" where
  "analysis_mode_codes = [(''memory'', 1), (''streaming'', 2)]"

abbreviation MAX_TARGET_BATCH_BYTES :: int where "MAX_TARGET_BATCH_BYTES \<equiv> 8 * 1024 * 1024"
abbreviation MAX_SELECTOR_PROGRAMS :: nat where "MAX_SELECTOR_PROGRAMS \<equiv> 64"

section \<open>Validation\<close>

definition validate_plan :: "analysis_plan \<Rightarrow> unit result" where
  "validate_plan plan =
     bindE (digest_check (plan_sha256 plan) ''plan digest'') (\<lambda>_.
     bindE (digest_check (semantic_plugin_sha256 plan) ''semantic plugin digest'') (\<lambda>_.
     bindE (guardE (execution_mode plan \<in> set (map fst execution_mode_codes)) (AnalysisProtocolError ''unsupported execution mode'')) (\<lambda>_.
     bindE (guardE (analysis_mode plan \<in> set (map fst analysis_mode_codes)) (AnalysisProtocolError ''unsupported analysis mode'')) (\<lambda>_.
     bindE (range_check (plan_flags plan) 0 0xFFFF ''flags'') (\<lambda>_.
     bindE (guardE (plan_flags plan AND NOT KNOWN_FLAGS = 0) (AnalysisProtocolError ''unknown analysis plan flags'')) (\<lambda>_.
     bindE (range_check (target_batch_bytes plan) 1 MAX_TARGET_BATCH_BYTES ''target batch bytes'') (\<lambda>_.
     bindE (range_check (max_active_conversations plan) 1 100000 ''max active conversations'') (\<lambda>_.
     bindE (range_check (max_resume_conversations plan) 1 100000 ''max resume conversations'') (\<lambda>_.
     bindE (range_check (max_directional_flows plan) 1 220000 ''max directional flows'') (\<lambda>_.
     bindE (range_check (max_endpoints plan) 1 440000 ''max endpoints'') (\<lambda>_.
     bindE (range_check (max_flow_samples plan) 1 500 ''max flow samples'') (\<lambda>_.
     bindE (range_check (max_flow_sample_bytes plan) 1 268435456 ''max flow sample bytes'') (\<lambda>_.
     bindE (range_check (max_stream_segments plan) 1 10000 ''max stream segments'') (\<lambda>_.
     bindE (range_check (max_stream_bytes plan) 1 16777216 ''max stream bytes'') (\<lambda>_.
     bindE (guardE (length (selector_programs plan) \<le> MAX_SELECTOR_PROGRAMS)
        (AnalysisProtocolError ''selector program count exceeds 64'')) (\<lambda>_.
     bindE (guardE (distinct (map pw_program_id (selector_programs plan)))
        (AnalysisProtocolError ''selector program IDs must be unique'')) (\<lambda>_.
     bindE (mapE encode_selector_program (selector_programs plan)) (\<lambda>_.
     bindE (encode_ascii8 (plan_source plan) 255 ''source'') (\<lambda>_.
     bindE (encode_ascii8 (plan_session_id plan) 255 ''session ID'') (\<lambda>_.
     bindE (encode_ascii8 (plan_interface plan) 64 ''interface'') (\<lambda>_.
     bindE (encode_ascii8 (plan_sensor_node_id plan) 128 ''sensor node ID'') (\<lambda>_.
     Inr ()))))))))))))))))))))))"

section \<open>Encoding\<close>

definition plan_body :: "analysis_plan \<Rightarrow> bytes result" where
  "plan_body plan = concatE [
     Inr (semantic_plugin_sha256 plan),
     encode_code execution_mode_codes (execution_mode plan),
     encode_code analysis_mode_codes (analysis_mode plan),
     pack FmtH (plan_flags plan),
     pack FmtI (target_batch_bytes plan),
     pack FmtI (max_active_conversations plan),
     pack FmtI (max_resume_conversations plan),
     pack FmtI (max_directional_flows plan),
     pack FmtI (max_endpoints plan),
     pack FmtH (max_flow_samples plan),
     pack FmtQ (max_flow_sample_bytes plan),
     pack FmtI (max_stream_segments plan),
     pack FmtQ (max_stream_bytes plan),
     encode_ascii8 (plan_source plan) 255 ''source'',
     encode_ascii8 (plan_session_id plan) 255 ''session ID'',
     encode_ascii8 (plan_interface plan) 64 ''interface'',
     encode_ascii8 (plan_sensor_node_id plan) 128 ''sensor node ID'',
     byte1 (int (length (selector_programs plan))),
     concatE (map encode_selector_program (selector_programs plan))]"

definition encode_analysis_plan :: "analysis_plan \<Rightarrow> bytes result" where
  "encode_analysis_plan plan =
     bindE (validate_plan plan) (\<lambda>_.
     bindE (plan_body plan) (\<lambda>body.
     let payload = [1] @ zeros 32 @ body; digest = sha256 (drop 33 payload) in
     Inr ([1] @ digest @ body)))"

section \<open>Decoding\<close>

definition decode_plan_fields :: "analysis_plan rd" where
  "decode_plan_fields =
     bindR (rd_unpack FmtB ''analysis plan schema'') (\<lambda>schema.
     bindR (requireR (schema = ANALYSIS_SCHEMA_VERSION)
        (AnalysisProtocolError (''unsupported analysis plan schema '' @ show_int schema))) (\<lambda>_.
     bindR (rd_take 32 ''plan digest'') (\<lambda>digest.
     bindR (rd_take 32 ''semantic plugin digest'') (\<lambda>semantic_digest.
     bindR (rd_code execution_mode_codes ''execution mode'' ''unsupported execution mode'') (\<lambda>execution.
     bindR (rd_code analysis_mode_codes ''analysis mode'' ''unsupported analysis mode'') (\<lambda>analysis.
     bindR (rd_unpack FmtH ''flags'') (\<lambda>flags.
     bindR (rd_unpack FmtI ''target batch bytes'') (\<lambda>target_bytes.
     bindR (rd_unpack FmtI ''max active conversations'') (\<lambda>max_active.
     bindR (rd_unpack FmtI ''max resume conversations'') (\<lambda>max_resume.
     bindR (rd_unpack FmtI ''max directional flows'') (\<lambda>max_flows.
     bindR (rd_unpack FmtI ''max endpoints'') (\<lambda>max_endp.
     bindR (rd_unpack FmtH ''max flow samples'') (\<lambda>max_samples.
     bindR (rd_unpack FmtQ ''max flow sample bytes'') (\<lambda>max_sample_bytes.
     bindR (rd_unpack FmtI ''max stream segments'') (\<lambda>max_segments.
     bindR (rd_unpack FmtQ ''max stream bytes'') (\<lambda>max_stream.
     bindR (rd_ascii8 255 ''source'') (\<lambda>source.
     bindR (rd_ascii8 255 ''session ID'') (\<lambda>session_id.
     bindR (rd_ascii8 64 ''interface'') (\<lambda>interface.
     bindR (rd_ascii8 128 ''sensor node ID'') (\<lambda>sensor_node_id.
     bindR (bindR (rd_unpack FmtB ''selector program count'') (\<lambda>n. rd_collect (nat n) decode_selector_program)) (\<lambda>programs.
     returnR \<lparr>plan_sha256 = digest, semantic_plugin_sha256 = semantic_digest, execution_mode = execution,
       analysis_mode = analysis, plan_flags = flags, target_batch_bytes = target_bytes,
       max_active_conversations = max_active, max_resume_conversations = max_resume,
       max_directional_flows = max_flows, max_endpoints = max_endp, max_flow_samples = max_samples,
       max_flow_sample_bytes = max_sample_bytes, max_stream_segments = max_segments, max_stream_bytes = max_stream,
       plan_source = source, plan_session_id = session_id, plan_interface = interface,
       plan_sensor_node_id = sensor_node_id, selector_programs = programs\<rparr>)))))))))))))))))))))"

definition decode_analysis_plan :: "bytes \<Rightarrow> analysis_plan result" where
  "decode_analysis_plan payload =
     bindE (rd_all decode_plan_fields payload) (\<lambda>plan.
     bindE (validate_plan plan) (\<lambda>_.
     bindE (guardE (plan_sha256 plan = sha256 (drop 33 payload)) (AnalysisProtocolError ''analysis plan digest mismatch'')) (\<lambda>_.
     Inr plan)))"

section \<open>The decoder accepts exactly the encoder's output\<close>

lemma mode_codes_ok [simp]: "codes_ok execution_mode_codes" "codes_ok analysis_mode_codes"
  by (simp_all add: codes_ok_def execution_mode_codes_def analysis_mode_codes_def)

definition digests_sized :: "analysis_plan \<Rightarrow> bool" where
  "digests_sized p \<longleftrightarrow> length (plan_sha256 p) = 32 \<and> length (semantic_plugin_sha256 p) = 32"

lemma parses_plan_fields:
  "parses decode_plan_fields (\<lambda>b p. digests_sized p \<and> bindE (plan_body p) (\<lambda>body. Inr ([1] @ plan_sha256 p @ body)) = Inr b)"
proof -
  have "parses decode_plan_fields (\<lambda>b p. digests_sized p \<and>
   concatE [Inr [1], Inr (plan_sha256 p), Inr (semantic_plugin_sha256 p),
     encode_code execution_mode_codes (execution_mode p),
     encode_code analysis_mode_codes (analysis_mode p),
     pack FmtH (plan_flags p),
     pack FmtI (target_batch_bytes p),
     pack FmtI (max_active_conversations p),
     pack FmtI (max_resume_conversations p),
     pack FmtI (max_directional_flows p),
     pack FmtI (max_endpoints p),
     pack FmtH (max_flow_samples p),
     pack FmtQ (max_flow_sample_bytes p),
     pack FmtI (max_stream_segments p),
     pack FmtQ (max_stream_bytes p),
     encode_ascii8 (plan_source p) 255 ''source'',
     encode_ascii8 (plan_session_id p) 255 ''session ID'',
     encode_ascii8 (plan_interface p) 64 ''interface'',
     encode_ascii8 (plan_sensor_node_id p) 128 ''sensor node ID'',
     byte1 (int (length (selector_programs p))),
     concatE (map encode_selector_program (selector_programs p))] = Inr b)"
    unfolding decode_plan_fields_def
    apply (rule parses_field2 [OF program_codec.parses_counted_byte] record_intro pack_schema mode_codes_ok | (simp add: digests_sized_def; fail))+
    apply (rule parses_record)
    subgoal for y by (cases y) (auto simp: digests_sized_def)
    done
  then show ?thesis
    by (rule parses_cong) (simp only: plan_body_def concatE.simps(2) [of "Inr x" for x] bindE_simps, simp only: bindE_Inr, blast?)
qed


lemma validate_plan_digests: "validate_plan p = Inr u \<Longrightarrow> digests_sized p"
  by (simp add: validate_plan_def digest_check_def digests_sized_def bindE_Inr guardE_Inr)

lemma validate_plan_digest_irrelevant:
  "length d = 32 \<Longrightarrow> length (plan_sha256 p) = 32 \<Longrightarrow> validate_plan (p\<lparr>plan_sha256 := d\<rparr>) = validate_plan p"
  by (simp add: validate_plan_def digest_check_def)

lemma plan_body_digest_irrelevant: "plan_body (p\<lparr>plan_sha256 := d\<rparr>) = plan_body p"
  by (simp add: plan_body_def del: concatE.simps)

lemma encode_analysis_plan_Inr: "encode_analysis_plan p = Inr bs \<longleftrightarrow>
   validate_plan p = Inr () \<and> (\<exists>body. plan_body p = Inr body \<and> bs = [1] @ sha256 body @ body)"
  by (auto simp: encode_analysis_plan_def bindE_Inr zeros_def Let_def)

lemma encoded_plan_body:
  "plan_body p = Inr body \<Longrightarrow> bs = [1] @ sha256 body @ body \<Longrightarrow> drop 33 bs = body \<and> take 32 (drop 1 bs) = sha256 body"
  by (simp add: length_sha256)

text \<open>The decoder accepts a payload exactly when the encoder produces it from the decoded plan.\<close>

lemma decode_analysis_plan_Inr: "decode_analysis_plan bs = Inr p \<longleftrightarrow>
   encode_analysis_plan p = Inr bs \<and> plan_sha256 p = sha256 (drop 33 bs)"
proof -
  have "decode_analysis_plan bs = Inr p \<longleftrightarrow> digests_sized p \<and> validate_plan p = Inr () \<and> plan_sha256 p = sha256 (drop 33 bs) \<and>
     (\<exists>body. plan_body p = Inr body \<and> bs = [1] @ plan_sha256 p @ body)"
    by (auto simp: decode_analysis_plan_def bindE_Inr guardE_Inr rd_all_Inr [OF parses_plan_fields])
  also have "\<dots> \<longleftrightarrow> encode_analysis_plan p = Inr bs \<and> plan_sha256 p = sha256 (drop 33 bs)"
    unfolding encode_analysis_plan_Inr
    using validate_plan_digests [of p] by (auto simp: length_sha256 digests_sized_def)
  finally show ?thesis .
qed

lemma plan_roundtrip:
  assumes "encode_analysis_plan p = Inr bs"
  shows "decode_analysis_plan bs = Inr (p\<lparr>plan_sha256 := sha256 (drop 33 bs)\<rparr>)"
proof -
  obtain body where b: "validate_plan p = Inr ()" "plan_body p = Inr body" "bs = [1] @ sha256 body @ body"
    using assms by (auto simp: encode_analysis_plan_Inr)
  then have "drop 33 bs = body" by (simp add: length_sha256)
  with b validate_plan_digests [OF b(1)] show ?thesis
    by (simp add: decode_analysis_plan_Inr encode_analysis_plan_Inr plan_body_digest_irrelevant
        validate_plan_digest_irrelevant length_sha256 digests_sized_def)
qed

end
