(* ===== verification/CertCodec.thy ===== *)
theory CertCodec imports PlanCodec begin

text \<open>
  The handshake and the terminal certificate: \<open>AnalysisHelloWire\<close>, \<open>AnalysisEndWire\<close>, their
  encoders and decoders, core/packet\_engine/rust\_analysis.py.  The hello codec is exact.  The
  certificate's decoder accepts a negative zero in an absent timestamp, which the encoder never
  writes; apart from that it accepts exactly the encoder's output.
\<close>

record analysis_hello =
  hello_plan_sha256 :: bytes
  sensor_version :: string
  pcap_datalink :: int
  normalized_link_type :: string
  capability_bits :: int

record analysis_end =
  end_plan_sha256 :: bytes
  terminal_status :: string
  error_code :: string
  packet_index_rows :: int
  decoded_work_items :: int
  raw_candidate_items :: int
  raw_candidate_bytes :: int
  flow_snapshot_records :: int
  terminal_directional_flows :: int
  conversation_snapshot_records :: int
  terminal_conversations :: int
  stream_segment_records :: int
  stream_segment_bytes :: int
  stream_truncated_segments :: int
  stream_truncated_bytes :: int
  first_decoded_timestamp :: "f64 option"
  last_decoded_timestamp :: "f64 option"
  packet_index_digest :: bytes
  work_digest :: bytes
  flow_digest :: bytes
  conversation_digest :: bytes
  stream_digest :: bytes
  read_decode_ns :: int
  candidate_match_ns :: int
  aggregate_ns :: int
  blocked_write_ns :: int
  endpoint_high_water :: int
  flow_high_water :: int
  conversation_high_water :: int
  resume_high_water :: int
  sample_bytes_high_water :: int

definition terminal_status_codes :: "(string \<times> int) list" where
  "terminal_status_codes = [(''complete'', 1), (''partial'', 2), (''cancelled'', 3)]"

section \<open>Hello\<close>

definition encode_analysis_hello :: "analysis_hello \<Rightarrow> bytes result" where
  "encode_analysis_hello hello =
     bindE (digest_check (hello_plan_sha256 hello) ''plan digest'') (\<lambda>_.
     bindE (range_check (pcap_datalink hello) (- (2 ^ 31)) (2 ^ 31 - 1) ''pcap datalink'') (\<lambda>_.
     bindE (range_check (capability_bits hello) 0 (2 ^ 64 - 1) ''capability bits'') (\<lambda>_.
     concatE [
       byte1 ANALYSIS_SCHEMA_VERSION,
       Inr (hello_plan_sha256 hello),
       encode_ascii8 (sensor_version hello) 32 ''sensor version'',
       pack_i32 (pcap_datalink hello),
       encode_ascii8 (normalized_link_type hello) 32 ''normalized link type'',
       pack FmtQ (capability_bits hello)])))"

definition decode_hello_fields :: "analysis_hello rd" where
  "decode_hello_fields =
     bindR (rd_unpack FmtB ''analysis hello schema'') (\<lambda>schema.
     bindR (requireR (schema = ANALYSIS_SCHEMA_VERSION)
        (AnalysisProtocolError (''unsupported analysis hello schema '' @ show_int schema))) (\<lambda>_.
     bindR (rd_take 32 ''plan digest'') (\<lambda>digest.
     bindR (rd_ascii8 32 ''sensor version'') (\<lambda>version.
     bindR (rd_unpack_i32 ''pcap datalink'') (\<lambda>datalink.
     bindR (rd_ascii8 32 ''normalized link type'') (\<lambda>link_type.
     bindR (rd_unpack FmtQ ''capability bits'') (\<lambda>bits.
     returnR \<lparr>hello_plan_sha256 = digest, sensor_version = version, pcap_datalink = datalink,
       normalized_link_type = link_type, capability_bits = bits\<rparr>)))))))"

definition decode_analysis_hello :: "bytes \<Rightarrow> analysis_hello result" where
  "decode_analysis_hello payload =
     bindE (rd_all decode_hello_fields payload) (\<lambda>hello.
     bindE (digest_check (hello_plan_sha256 hello) ''plan digest'') (\<lambda>_. Inr hello))"

section \<open>Terminal certificate\<close>

definition encode_optional_timestamp :: "string \<Rightarrow> f64 option \<Rightarrow> bytes result" where
  "encode_optional_timestamp label value =
     (case value of
        None \<Rightarrow> Inr ([0] @ pack_d 0)
      | Some t \<Rightarrow>
          if f64_isfinite t then Inr ([1] @ pack_d t)
          else protocol_error (label @ '' must be a finite timestamp''))"

definition decode_optional_timestamp :: "string \<Rightarrow> f64 option rd" where
  "decode_optional_timestamp label =
     bindR (rd_unpack FmtB (label @ '' presence'')) (\<lambda>present.
     bindR (requireR (present \<in> {0, 1}) (AnalysisProtocolError (label @ '' presence must be 0 or 1''))) (\<lambda>_.
     bindR (rd_unpack_d label) (\<lambda>value.
     if present = 0
     then bindR (requireR (f64_is_zero value) (AnalysisProtocolError (''absent '' @ label @ '' must be zero''))) (\<lambda>_. returnR None)
     else bindR (requireR (f64_isfinite value) (AnalysisProtocolError (label @ '' must be finite''))) (\<lambda>_. returnR (Some value)))))"

definition encode_unsigned :: "nat \<Rightarrow> string \<times> int \<Rightarrow> bytes result" where
  "encode_unsigned bits lv = (case lv of (label, value) \<Rightarrow>
     bindE (range_check value 0 (2 ^ bits - 1) label) (\<lambda>_.
     pack (if bits = 64 then FmtQ else FmtI) value))"

definition encode_digest :: "string \<times> bytes \<Rightarrow> bytes result" where
  "encode_digest lv = (case lv of (label, digest) \<Rightarrow> bindE (digest_check digest label) (\<lambda>_. Inr digest))"

definition end_counts :: "analysis_end \<Rightarrow> (string \<times> int) list" where
  "end_counts e = [
     (''packet index rows'', packet_index_rows e),
     (''decoded work items'', decoded_work_items e),
     (''raw candidate items'', raw_candidate_items e),
     (''raw candidate bytes'', raw_candidate_bytes e),
     (''flow snapshot records'', flow_snapshot_records e),
     (''terminal directional flows'', terminal_directional_flows e),
     (''conversation snapshot records'', conversation_snapshot_records e),
     (''terminal conversations'', terminal_conversations e),
     (''stream segment records'', stream_segment_records e),
     (''stream segment bytes'', stream_segment_bytes e),
     (''stream truncated segments'', stream_truncated_segments e),
     (''stream truncated bytes'', stream_truncated_bytes e)]"

definition end_digests :: "analysis_end \<Rightarrow> (string \<times> bytes) list" where
  "end_digests e = [
     (''packet index digest'', packet_index_digest e),
     (''work digest'', work_digest e),
     (''flow digest'', flow_digest e),
     (''conversation digest'', conversation_digest e),
     (''stream digest'', stream_digest e)]"

definition end_timers :: "analysis_end \<Rightarrow> (string \<times> int) list" where
  "end_timers e = [
     (''read/decode nanoseconds'', read_decode_ns e),
     (''candidate-match nanoseconds'', candidate_match_ns e),
     (''aggregate nanoseconds'', aggregate_ns e),
     (''blocked-write nanoseconds'', blocked_write_ns e)]"

definition end_highs :: "analysis_end \<Rightarrow> (string \<times> int) list" where
  "end_highs e = [
     (''endpoint high water'', endpoint_high_water e),
     (''flow high water'', flow_high_water e),
     (''conversation high water'', conversation_high_water e),
     (''resume high water'', resume_high_water e)]"

definition encode_analysis_end :: "analysis_end \<Rightarrow> bytes result" where
  "encode_analysis_end e =
     bindE (digest_check (end_plan_sha256 e) ''plan digest'') (\<lambda>_.
     bindE (guardE (terminal_status e \<in> set (map fst terminal_status_codes))
        (AnalysisProtocolError ''unsupported analysis terminal status'')) (\<lambda>_.
     concatE [
       byte1 ANALYSIS_SCHEMA_VERSION,
       Inr (end_plan_sha256 e),
       encode_code terminal_status_codes (terminal_status e),
       encode_ascii8 (error_code e) 128 ''analysis error code'',
       concatE (map (encode_unsigned 64) (end_counts e)),
       encode_optional_timestamp ''first decoded timestamp'' (first_decoded_timestamp e),
       encode_optional_timestamp ''last decoded timestamp'' (last_decoded_timestamp e),
       concatE (map encode_digest (end_digests e)),
       concatE (map (encode_unsigned 64) (end_timers e)),
       concatE (map (encode_unsigned 32) (end_highs e)),
       encode_unsigned 64 (''sample bytes high water'', sample_bytes_high_water e)]))"

definition decode_end_fields :: "analysis_end rd" where
  "decode_end_fields =
     bindR (rd_unpack FmtB ''analysis end schema'') (\<lambda>schema.
     bindR (requireR (schema = ANALYSIS_SCHEMA_VERSION)
        (AnalysisProtocolError (''unsupported analysis end schema '' @ show_int schema))) (\<lambda>_.
     bindR (rd_take 32 ''plan digest'') (\<lambda>digest.
     bindR (rd_code terminal_status_codes ''analysis terminal status'' ''unsupported analysis terminal status'') (\<lambda>status.
     bindR (rd_ascii8 128 ''analysis error code'') (\<lambda>code.
     bindR (rd_collect 12 (rd_unpack FmtQ ''analysis terminal counter'')) (\<lambda>counts.
     bindR (decode_optional_timestamp ''first decoded timestamp'') (\<lambda>first_timestamp.
     bindR (decode_optional_timestamp ''last decoded timestamp'') (\<lambda>last_timestamp.
     bindR (rd_collect 5 (rd_take 32 ''analysis terminal digest'')) (\<lambda>digests.
     bindR (rd_collect 4 (rd_unpack FmtQ ''analysis terminal timer'')) (\<lambda>timers.
     bindR (rd_collect 4 (rd_unpack FmtI ''analysis terminal high water'')) (\<lambda>highs.
     bindR (rd_unpack FmtQ ''sample bytes high water'') (\<lambda>sample_bytes.
     returnR \<lparr>end_plan_sha256 = digest, terminal_status = status, error_code = code,
       packet_index_rows = counts ! 0, decoded_work_items = counts ! 1, raw_candidate_items = counts ! 2,
       raw_candidate_bytes = counts ! 3, flow_snapshot_records = counts ! 4, terminal_directional_flows = counts ! 5,
       conversation_snapshot_records = counts ! 6, terminal_conversations = counts ! 7, stream_segment_records = counts ! 8,
       stream_segment_bytes = counts ! 9, stream_truncated_segments = counts ! 10, stream_truncated_bytes = counts ! 11,
       first_decoded_timestamp = first_timestamp, last_decoded_timestamp = last_timestamp,
       packet_index_digest = digests ! 0, work_digest = digests ! 1, flow_digest = digests ! 2,
       conversation_digest = digests ! 3, stream_digest = digests ! 4, read_decode_ns = timers ! 0,
       candidate_match_ns = timers ! 1, aggregate_ns = timers ! 2, blocked_write_ns = timers ! 3,
       endpoint_high_water = highs ! 0, flow_high_water = highs ! 1, conversation_high_water = highs ! 2,
       resume_high_water = highs ! 3, sample_bytes_high_water = sample_bytes\<rparr>))))))))))))"

definition decode_analysis_end :: "bytes \<Rightarrow> analysis_end result" where
  "decode_analysis_end payload = rd_all decode_end_fields payload"

section \<open>The hello codec is exact\<close>

lemma be_bytes_unpack_i32:
  assumes "length bs = 4"
  shows "be_bytes 4 (unpack_i32 bs) = bs"
proof -
  let ?w = "word_of_int (be_int bs) :: 32 word"
  have "be_int bs < 2 ^ 32" using be_int_less [OF assms] by simp
  then have "be_int bs = uint ?w" by (simp add: uint_word_of_int)
  also have "\<dots> = sint ?w mod 256 ^ 4" by (simp add: uint_sint take_bit_eq_mod)
  finally have "be_int bs = be_int (be_bytes 4 (unpack_i32 bs))"
    by (simp only: be_int_be_bytes_mod unpack_i32_def)
  then have "be_bytes 4 (be_int bs) = be_bytes 4 (be_int (be_bytes 4 (unpack_i32 bs)))" by simp
  then show ?thesis using assms by (simp only: be_bytes_be_int_len length_be_bytes)
qed

lemma parses_i32: "parses (rd_unpack_i32 l) (\<lambda>b x. pack_i32 x = Inr b)"
proof -
  have "parses (rd_unpack_i32 l) (\<lambda>b x. \<exists>v b1 b2. (b2 = [] \<and> x = unpack_i32 v) \<and> (v = b1 \<and> int (length b1) = 4) \<and> b = b1 @ b2)"
    unfolding rd_unpack_i32_def by (rule parses_bind parses_take parses_return)+
  then show ?thesis
  proof (rule parses_cong)
    fix b x
    have "pack_i32 x = Inr b \<longleftrightarrow> length b = 4 \<and> x = unpack_i32 b" (is "?L \<longleftrightarrow> ?R")
    proof
      show "?L \<Longrightarrow> ?R" by (auto simp: pack_i32_Inr unpack_i32_be_bytes simp del: be_bytes.simps)
    next
      assume r: ?R
      have "- (2 ^ 31) \<le> unpack_i32 b \<and> unpack_i32 b < 2 ^ 31"
        using sint_range_size [of "word_of_int (be_int b) :: 32 word"] by (simp add: unpack_i32_def word_size)
      with r be_bytes_unpack_i32 show ?L by (auto simp: pack_i32_Inr simp del: be_bytes.simps)
    qed
    then show "(\<exists>v b1 b2. (b2 = [] \<and> x = unpack_i32 v) \<and> (v = b1 \<and> int (length b1) = 4) \<and> b = b1 @ b2) \<longleftrightarrow> pack_i32 x = Inr b"
      by auto
  qed
qed

lemma parses_hello: "parses decode_hello_fields (\<lambda>b h. length (hello_plan_sha256 h) = 32 \<and>
   concatE [Inr [1], Inr (hello_plan_sha256 h), encode_ascii8 (sensor_version h) 32 ''sensor version'',
     pack_i32 (pcap_datalink h), encode_ascii8 (normalized_link_type h) 32 ''normalized link type'',
     pack FmtQ (capability_bits h)] = Inr b)"
  unfolding decode_hello_fields_def
  apply (rule record_intro parses_field [OF parses_i32] pack_schema | (simp; fail))+
  apply (rule parses_record)
  subgoal for y by (cases y) auto
  done

lemma encode_hello_Inr: "encode_analysis_hello h = Inr b \<longleftrightarrow> length (hello_plan_sha256 h) = 32 \<and>
   concatE [Inr [1], Inr (hello_plan_sha256 h), encode_ascii8 (sensor_version h) 32 ''sensor version'',
     pack_i32 (pcap_datalink h), encode_ascii8 (normalized_link_type h) 32 ''normalized link type'',
     pack FmtQ (capability_bits h)] = Inr b"
  by (auto simp: encode_analysis_hello_def digest_check_def range_check_def bindE_Inr guardE_Inr byte1_Inr pack_i32_Inr pack_Inr)

lemma decode_analysis_hello_Inr: "decode_analysis_hello bs = Inr h \<longleftrightarrow> encode_analysis_hello h = Inr bs"
  unfolding decode_analysis_hello_def encode_hello_Inr
  by (auto simp: bindE_Inr rd_all_Inr [OF parses_hello] digest_check_def guardE_Inr simp del: concatE.simps)

section \<open>The certificate codec\<close>

definition timestamp_rel :: "bytes \<Rightarrow> f64 option \<Rightarrow> bool" where
  "timestamp_rel b v \<longleftrightarrow> (case v of
     None \<Rightarrow> \<exists>z. f64_is_zero z \<and> b = [0] @ pack_d z
   | Some t \<Rightarrow> f64_isfinite t \<and> b = [1] @ pack_d t)"

lemma parses_timestamp: "parses (decode_optional_timestamp l) timestamp_rel"
proof -
  have "parses (decode_optional_timestamp l) (\<lambda>b y. \<exists>x b1 b2. (\<exists>(u::unit) b3 b4. (\<exists>v b5 b6.
      (if x = 0 then \<exists>(u::unit) b7 b8. (b8 = [] \<and> y = None) \<and> (b7 = [] \<and> f64_is_zero v) \<and> b6 = b7 @ b8
       else \<exists>(u::unit) b7 b8. (b8 = [] \<and> y = Some v) \<and> (b7 = [] \<and> f64_isfinite v) \<and> b6 = b7 @ b8) \<and>
      b5 = pack_d v \<and> b4 = b5 @ b6) \<and> (b3 = [] \<and> x \<in> {0, 1}) \<and> b2 = b3 @ b4) \<and> pack FmtB x = Inr b1 \<and> b = b1 @ b2)"
    unfolding decode_optional_timestamp_def
    by (rule parses_bind parses_unpack parses_require parses_unpack_d parses_if parses_return)+
  then show ?thesis
  proof (rule parses_cong)
    fix b y
    have zero: "pack FmtB 0 = Inr [0]" by (simp add: pack_byte1 byte1_def)
    show "(\<exists>x b1 b2. (\<exists>(u::unit) b3 b4. (\<exists>v b5 b6.
      (if x = 0 then \<exists>(u::unit) b7 b8. (b8 = [] \<and> y = None) \<and> (b7 = [] \<and> f64_is_zero v) \<and> b6 = b7 @ b8
       else \<exists>(u::unit) b7 b8. (b8 = [] \<and> y = Some v) \<and> (b7 = [] \<and> f64_isfinite v) \<and> b6 = b7 @ b8) \<and>
      b5 = pack_d v \<and> b4 = b5 @ b6) \<and> (b3 = [] \<and> x \<in> {0, 1}) \<and> b2 = b3 @ b4) \<and> pack FmtB x = Inr b1 \<and> b = b1 @ b2)
      \<longleftrightarrow> timestamp_rel b y" (is "?L \<longleftrightarrow> ?R")
    proof
      assume ?L then show ?R by (auto simp: timestamp_rel_def zero split: if_splits)
    next
      assume r: ?R
      show ?L
      proof (cases y)
        case None
        with r show ?thesis by (intro exI [of _ 0]) (auto simp: timestamp_rel_def zero)
      next
        case (Some t)
        with r show ?thesis by (intro exI [of _ 1]) (auto simp: timestamp_rel_def)
      qed
    qed
  qed
qed

lemma encode_timestamp_rel: "encode_optional_timestamp l v = Inr b \<Longrightarrow> timestamp_rel b v"
  by (auto simp: encode_optional_timestamp_def timestamp_rel_def f64_is_zero_def split: option.splits if_splits)

lemma terminal_codes_ok [simp]: "codes_ok terminal_status_codes"
  by (simp add: codes_ok_def terminal_status_codes_def)

lemma list_4: "length xs = 4 \<Longrightarrow> \<exists>a b c d. xs = [a, b, c, d]"
  by (auto simp: length_Suc_conv eval_nat_numeral)

lemma list_5: "length xs = 5 \<Longrightarrow> \<exists>a b c d e. xs = [a, b, c, d, e]"
  by (auto simp: length_Suc_conv eval_nat_numeral)

lemma list_12: "length xs = 12 \<Longrightarrow> \<exists>a b c d e f g h i j k l. xs = [a, b, c, d, e, f, g, h, i, j, k, l]"
  by (auto simp: length_Suc_conv eval_nat_numeral)

lemma parses_end: "parses decode_end_fields (\<lambda>b e. length (end_plan_sha256 e) = 32 \<and>
   byte_chain [(\<lambda>b. b = [1]), (\<lambda>b. end_plan_sha256 e = b \<and> int (length b) = 32),
     (\<lambda>b. encode_code terminal_status_codes (terminal_status e) = Inr b),
     (\<lambda>b. encode_ascii8 (error_code e) 128 ''analysis error code'' = Inr b),
     (\<lambda>b. length (map snd (end_counts e)) = 12 \<and> concatE (map (pack FmtQ) (map snd (end_counts e))) = Inr b),
     (\<lambda>b. timestamp_rel b (first_decoded_timestamp e)),
     (\<lambda>b. timestamp_rel b (last_decoded_timestamp e)),
     (\<lambda>b. length (map snd (end_digests e)) = 5 \<and> (\<forall>x \<in> set (map snd (end_digests e)). int (length x) = 32) \<and> b = concat (map snd (end_digests e))),
     (\<lambda>b. length (map snd (end_timers e)) = 4 \<and> concatE (map (pack FmtQ) (map snd (end_timers e))) = Inr b),
     (\<lambda>b. length (map snd (end_highs e)) = 4 \<and> concatE (map (pack FmtI) (map snd (end_highs e))) = Inr b),
     (\<lambda>b. pack FmtQ (sample_bytes_high_water e) = Inr b)] b)"
  unfolding decode_end_fields_def
  apply (rule parses_link_const pack_schema
     parses_link [OF parses_take] parses_link [OF parses_code [OF terminal_codes_ok]] parses_link [OF parses_ascii8]
     parses_link [OF parses_unpacks] parses_link [OF parses_timestamp] parses_link [OF parses_takes] parses_link [OF parses_unpack])+
  apply (rule parses_link_end)
  subgoal premises prems for b1 x1 b2 x2 b3 x3 b4 counts b5 t1 b6 t2 b7 digests b8 timers b9 highs b10 sb y
  proof -
    have l: "length counts = 12" "length digests = 5" "length timers = 4" "length highs = 4" and x: "length x1 = 32"
      using prems by auto
    obtain c0 c1 c2 c3 c4 c5 c6 c7 c8 c9 c10 c11 where c: "counts = [c0, c1, c2, c3, c4, c5, c6, c7, c8, c9, c10, c11]"
      using list_12 [OF l(1)] by blast
    obtain d0 d1 d2 d3 d4 where d: "digests = [d0, d1, d2, d3, d4]" using list_5 [OF l(2)] by blast
    obtain m0 m1 m2 m3 where m: "timers = [m0, m1, m2, m3]" using list_4 [OF l(3)] by blast
    obtain h0 h1 h2 h3 where h: "highs = [h0, h1, h2, h3]" using list_4 [OF l(4)] by blast
    show ?thesis
      unfolding c d m h
      by (cases y) (simp add: end_counts_def end_digests_def end_timers_def end_highs_def x, rule iffI; elim conjE; simp add: x)
  qed
  done


definition end_chain :: "(bytes \<Rightarrow> bool) \<Rightarrow> (bytes \<Rightarrow> bool) \<Rightarrow> analysis_end \<Rightarrow> bytes \<Rightarrow> bool" where
  "end_chain T1 T2 e b \<longleftrightarrow> length (end_plan_sha256 e) = 32 \<and> (\<forall>x \<in> set (map snd (end_digests e)). length x = 32) \<and>
     (\<exists>h1 h2 cs t1 t2 ts hs sb.
       encode_code terminal_status_codes (terminal_status e) = Inr h1 \<and>
       encode_ascii8 (error_code e) 128 ''analysis error code'' = Inr h2 \<and>
       concatE (map (pack FmtQ) (map snd (end_counts e))) = Inr cs \<and> T1 t1 \<and> T2 t2 \<and>
       concatE (map (pack FmtQ) (map snd (end_timers e))) = Inr ts \<and>
       concatE (map (pack FmtI) (map snd (end_highs e))) = Inr hs \<and>
       pack FmtQ (sample_bytes_high_water e) = Inr sb \<and>
       b = [1] @ end_plan_sha256 e @ h1 @ h2 @ cs @ t1 @ t2 @ concat (map snd (end_digests e)) @ ts @ hs @ sb)"

lemma encode_unsigned_Inr:
  "encode_unsigned 64 lv = Inr b \<longleftrightarrow> pack FmtQ (snd lv) = Inr b"
  "encode_unsigned 32 lv = Inr b \<longleftrightarrow> pack FmtI (snd lv) = Inr b"
  by (auto simp: encode_unsigned_def range_check_def bindE_Inr guardE_Inr pack_Inr split: prod.splits)

lemma mapE_iff_cong: "(\<And>x b. f x = Inr b \<longleftrightarrow> g x = Inr b) \<Longrightarrow> mapE f xs = Inr bs \<longleftrightarrow> mapE g xs = Inr bs"
  by (induction xs arbitrary: bs) (auto simp: bindE_Inr)

lemma concatE_unsigned:
  "concatE (map (encode_unsigned 64) xs) = Inr b \<longleftrightarrow> concatE (map (pack FmtQ) (map snd xs)) = Inr b"
  "concatE (map (encode_unsigned 32) xs) = Inr b \<longleftrightarrow> concatE (map (pack FmtI) (map snd xs)) = Inr b"
  unfolding concatE_map_Inr mapE_map mapE_iff_cong [of "encode_unsigned 64" "\<lambda>x. pack FmtQ (snd x)", OF encode_unsigned_Inr(1)]
    mapE_iff_cong [of "encode_unsigned 32" "\<lambda>x. pack FmtI (snd x)", OF encode_unsigned_Inr(2)]
  by (rule refl)+

lemma concatE_digests:
  "concatE (map encode_digest xs) = Inr b \<longleftrightarrow> (\<forall>x \<in> set (map snd xs). length x = 32) \<and> b = concat (map snd xs)"
  by (induction xs arbitrary: b)
    (auto simp: encode_digest_def digest_check_def concatE_Cons_Inr bindE_Inr guardE_Inr simp del: concatE.simps(2))

lemma encode_code_range: "encode_code d k = Inr b \<Longrightarrow> k \<in> set (map fst d)"
  by (auto simp: encode_code_def dict_get_map_of split: option.splits dest!: map_of_SomeD) force

lemma encode_analysis_end_Inr: "encode_analysis_end e = Inr b \<longleftrightarrow>
   end_chain (\<lambda>t. encode_optional_timestamp ''first decoded timestamp'' (first_decoded_timestamp e) = Inr t)
     (\<lambda>t. encode_optional_timestamp ''last decoded timestamp'' (last_decoded_timestamp e) = Inr t) e b"
proof -
  have one: "byte1 1 = Inr [1]" by (simp add: byte1_def)
  have "encode_analysis_end e = Inr b \<longleftrightarrow> length (end_plan_sha256 e) = 32 \<and> terminal_status e \<in> set (map fst terminal_status_codes) \<and>
    concatE [Inr [1], Inr (end_plan_sha256 e), encode_code terminal_status_codes (terminal_status e),
       encode_ascii8 (error_code e) 128 ''analysis error code'', concatE (map (encode_unsigned 64) (end_counts e)),
       encode_optional_timestamp ''first decoded timestamp'' (first_decoded_timestamp e),
       encode_optional_timestamp ''last decoded timestamp'' (last_decoded_timestamp e),
       concatE (map encode_digest (end_digests e)), concatE (map (encode_unsigned 64) (end_timers e)),
       concatE (map (encode_unsigned 32) (end_highs e)), encode_unsigned 64 (''sample bytes high water'', sample_bytes_high_water e)] = Inr b"
    unfolding encode_analysis_end_def digest_check_def one
    by (simp only: bindE_Inr guardE_Inr simp_thms ex_simps)
  also have "\<dots> \<longleftrightarrow> end_chain (\<lambda>t. encode_optional_timestamp ''first decoded timestamp'' (first_decoded_timestamp e) = Inr t)
     (\<lambda>t. encode_optional_timestamp ''last decoded timestamp'' (last_decoded_timestamp e) = Inr t) e b"
    unfolding end_chain_def concatE_Cons_Inr concatE_unsigned concatE_digests encode_unsigned_Inr snd_conv concatE.simps(1) sum.inject
    by (rule iffI; elim exE conjE; (intro conjI exI)?;
        (rule refl | assumption | erule encode_code_range | rule append_Nil2 [symmetric] | (simp; fail))?)
  finally show ?thesis .
qed

lemma decode_analysis_end_Inr: "decode_analysis_end b = Inr e \<longleftrightarrow>
   end_chain (\<lambda>t. timestamp_rel t (first_decoded_timestamp e)) (\<lambda>t. timestamp_rel t (last_decoded_timestamp e)) e b"
proof -
  have l: "length (map snd (end_counts e)) = 12" "length (map snd (end_digests e)) = 5"
    "length (map snd (end_timers e)) = 4" "length (map snd (end_highs e)) = 4"
    by (simp_all add: end_counts_def end_digests_def end_timers_def end_highs_def)
  have i: "int (length x) = 32 \<longleftrightarrow> length x = 32" for x :: bytes by auto
  show ?thesis
    unfolding decode_analysis_end_def rd_all_Inr [OF parses_end] end_chain_def byte_chain.simps l i
    by (rule iffI; elim exE conjE; hypsubst?; (intro conjI exI)?;
        (rule refl | assumption | rule append_Nil2 [symmetric] | (simp; fail))?)
qed


lemma end_chain_mono:
  "end_chain S1 S2 e b \<Longrightarrow> (\<And>t. S1 t \<Longrightarrow> T1 t) \<Longrightarrow> (\<And>t. S2 t \<Longrightarrow> T2 t) \<Longrightarrow> end_chain T1 T2 e b"
  unfolding end_chain_def by blast

lemma end_roundtrip_lemma: "encode_analysis_end e = Inr b \<Longrightarrow> decode_analysis_end b = Inr e"
  unfolding encode_analysis_end_Inr decode_analysis_end_Inr
  by (erule end_chain_mono; rule encode_timestamp_rel)

lemma timestamp_rel_encodable: "timestamp_rel b v \<Longrightarrow>
   \<exists>b'. encode_optional_timestamp l v = Inr b' \<and> length b' = length b \<and> (v \<noteq> None \<longrightarrow> b' = b)"
  by (auto simp: timestamp_rel_def encode_optional_timestamp_def split: option.splits)

lemma decoded_end_encodable:
  assumes "decode_analysis_end b = Inr e"
  shows "\<exists>b'. encode_analysis_end e = Inr b' \<and> length b' = length b \<and>
     (first_decoded_timestamp e \<noteq> None \<and> last_decoded_timestamp e \<noteq> None \<longrightarrow> b' = b)"
proof -
  obtain h1 h2 cs t1 t2 ts hs sb where h: "length (end_plan_sha256 e) = 32" "\<forall>x \<in> set (map snd (end_digests e)). length x = 32"
       "encode_code terminal_status_codes (terminal_status e) = Inr h1"
       "encode_ascii8 (error_code e) 128 ''analysis error code'' = Inr h2"
       "concatE (map (pack FmtQ) (map snd (end_counts e))) = Inr cs"
       "timestamp_rel t1 (first_decoded_timestamp e)" "timestamp_rel t2 (last_decoded_timestamp e)"
       "concatE (map (pack FmtQ) (map snd (end_timers e))) = Inr ts"
       "concatE (map (pack FmtI) (map snd (end_highs e))) = Inr hs"
       "pack FmtQ (sample_bytes_high_water e) = Inr sb"
       "b = [1] @ end_plan_sha256 e @ h1 @ h2 @ cs @ t1 @ t2 @ concat (map snd (end_digests e)) @ ts @ hs @ sb"
    using assms unfolding decode_analysis_end_Inr end_chain_def by blast
  obtain u1 u2 where u: "encode_optional_timestamp ''first decoded timestamp'' (first_decoded_timestamp e) = Inr u1"
      "encode_optional_timestamp ''last decoded timestamp'' (last_decoded_timestamp e) = Inr u2"
      "length u1 = length t1" "length u2 = length t2"
      "first_decoded_timestamp e \<noteq> None \<longrightarrow> u1 = t1" "last_decoded_timestamp e \<noteq> None \<longrightarrow> u2 = t2"
    using timestamp_rel_encodable [OF h(6)] timestamp_rel_encodable [OF h(7)] by blast
  let ?b = "[1] @ end_plan_sha256 e @ h1 @ h2 @ cs @ u1 @ u2 @ concat (map snd (end_digests e)) @ ts @ hs @ sb"
  have "encode_analysis_end e = Inr ?b"
    unfolding encode_analysis_end_Inr end_chain_def
    by (intro conjI exI; (rule h u refl)?)
  with u h(11) show ?thesis by (intro exI [of _ ?b]) auto
qed

lemma decoded_end_timestamps:
  "decode_analysis_end b = Inr e \<Longrightarrow> first_decoded_timestamp e = Some t \<or> last_decoded_timestamp e = Some t \<Longrightarrow> f64_isfinite t"
  unfolding decode_analysis_end_Inr end_chain_def by (auto simp: timestamp_rel_def)

end
