(* ===== verification/DataDecoder.thy ===== *)
theory DataDecoder imports CertCodec begin

text \<open>
  \<open>AnalysisDataDecoder\<close> of core/packet\_engine/rust\_analysis.py: the endpoint, flow and
  conversation definitions a child process has sent so far, and the decoders of the work, flow and
  conversation frames that refer to them.  \<open>decode_work\<close> stores each group of definitions as soon
  as the group has been read, so an exception in a later group leaves the earlier ones stored: the
  model returns the decoder's next state beside the result.
\<close>

record endpoint_wire =
  endpoint_id :: int
  address :: string

record flow_definition =
  flow_id :: int
  flow_source :: endpoint_wire
  flow_destination :: endpoint_wire
  source_port :: int
  destination_port :: int
  flow_protocol :: int

record conversation_definition =
  conversation_id :: int
  endpoint_a :: endpoint_wire
  endpoint_a_port :: int
  endpoint_b :: endpoint_wire
  endpoint_b_port :: int
  initiator :: endpoint_wire
  initiator_port :: int
  responder :: endpoint_wire
  responder_port :: int
  conversation_protocol :: int
  first_seen :: f64

record flow_snapshot =
  fs_start_time :: f64
  fs_packet_count :: int
  fs_byte_count :: int
  fs_syn_count :: int
  fs_syn_ack_count :: int
  fs_rst_count :: int

record conversation_snapshot =
  cs_generation :: int
  cs_to_responder_packets :: int
  cs_to_responder_bytes :: int
  cs_to_initiator_packets :: int
  cs_to_initiator_bytes :: int
  cs_syn_count :: int
  cs_syn_ack_count :: int
  cs_rst_count :: int
  cs_established :: bool

record work_item =
  packet_ordinal :: int
  wi_timestamp :: f64
  wi_size :: int
  wi_flow :: flow_definition
  wi_conversation :: conversation_definition
  hop_limit :: int
  tcp_flags :: int
  direction :: string
  candidate_mode :: string
  matched_programs :: int
  wi_flow_snapshot :: flow_snapshot
  wi_conversation_snapshot :: conversation_snapshot
  syn_delta :: int
  syn_ack_delta :: int
  rst_delta :: int
  raw_frame :: bytes

record work_batch =
  work_sequence :: int
  work_items :: "work_item list"

record terminal_flow =
  tf_definition :: flow_definition
  tf_generation :: int
  tf_start_time :: f64
  tf_last_seen :: f64
  tf_packet_count :: int
  tf_byte_count :: int
  tf_syn_count :: int
  tf_syn_ack_count :: int
  tf_rst_count :: int
  tf_samples :: "(int \<times> f64) list"

record flow_batch =
  flow_sequence :: int
  flow_records :: "terminal_flow list"

record terminal_conversation =
  tc_definition :: conversation_definition
  tc_last_seen :: f64
  tc_generation :: int
  tc_to_responder_packets :: int
  tc_to_responder_bytes :: int
  tc_to_initiator_packets :: int
  tc_to_initiator_bytes :: int
  tc_syn_count :: int
  tc_syn_ack_count :: int
  tc_rst_count :: int
  tc_established :: bool

record conversation_batch =
  conversation_sequence :: int
  conversation_records :: "terminal_conversation list"

record data_decoder =
  endpoints :: "int \<rightharpoonup> endpoint_wire"
  flows :: "int \<rightharpoonup> flow_definition"
  conversations :: "int \<rightharpoonup> conversation_definition"

definition data_decoder_init :: data_decoder where
  "data_decoder_init = \<lparr>endpoints = Map.empty, flows = Map.empty, conversations = Map.empty\<rparr>"

definition CANDIDATE_MODES :: "(int \<times> string) list" where
  "CANDIDATE_MODES = [(0, ''none''), (1, ''fast-v1''), (2, ''deep-scapy-v1'')]"

definition DIRECTIONS :: "(int \<times> string) list" where
  "DIRECTIONS = [(1, ''to_responder''), (2, ''to_initiator'')]"

section \<open>Checked fields\<close>

definition rd_nonzero :: "fmt \<Rightarrow> string \<Rightarrow> int rd" where
  "rd_nonzero f label =
     bindR (rd_unpack f label) (\<lambda>v.
     bindR (requireR (v \<noteq> 0) (AnalysisProtocolError (label @ '' must be nonzero''))) (\<lambda>_. returnR v))"

definition rd_finite :: "string \<Rightarrow> f64 rd" where
  "rd_finite label =
     bindR (rd_unpack_d label) (\<lambda>v.
     bindR (requireR (f64_isfinite v) (AnalysisProtocolError (label @ '' must be finite''))) (\<lambda>_. returnR v))"

definition rd_boolean :: "string \<Rightarrow> bool rd" where
  "rd_boolean label =
     bindR (rd_unpack FmtB label) (\<lambda>v.
     bindR (requireR (v \<in> {0, 1}) (AnalysisProtocolError (label @ '' must be 0 or 1''))) (\<lambda>_. returnR (v = 1)))"

definition decoder_endpoint :: "data_decoder \<Rightarrow> int \<Rightarrow> string \<Rightarrow> endpoint_wire result" where
  "decoder_endpoint dec i label =
     (case endpoints dec i of
        Some e \<Rightarrow> Inr e
      | None \<Rightarrow> protocol_error (''unknown endpoint ID for '' @ label @ '': '' @ show_int i))"

definition rd_schema :: "string \<Rightarrow> unit rd" where
  "rd_schema what =
     bindR (rd_unpack FmtB (what @ '' schema'')) (\<lambda>schema.
     requireR (schema = ANALYSIS_SCHEMA_VERSION) (AnalysisProtocolError (''unsupported '' @ what @ '' schema '' @ show_int schema)))"

section \<open>Definitions in a work frame\<close>

definition work_header :: "(int \<times> nat \<times> nat \<times> nat \<times> nat) rd" where
  "work_header =
     bindR (rd_schema ''analysis work'') (\<lambda>_.
     bindR (rd_unpack FmtI ''analysis work sequence'') (\<lambda>sequence.
     bindR (rd_unpack FmtH ''endpoint definition count'') (\<lambda>endpoint_count.
     bindR (rd_unpack FmtH ''flow definition count'') (\<lambda>flow_count.
     bindR (rd_unpack FmtH ''conversation definition count'') (\<lambda>conversation_count.
     bindR (rd_unpack FmtH ''analysis work item count'') (\<lambda>item_count.
     returnR (sequence, nat endpoint_count, nat flow_count, nat conversation_count, nat item_count)))))))"

definition endpoint_step :: "data_decoder \<Rightarrow> (int \<rightharpoonup> endpoint_wire) \<Rightarrow> (int \<rightharpoonup> endpoint_wire) rd" where
  "endpoint_step dec pending =
     bindR (rd_nonzero FmtI ''endpoint ID'') (\<lambda>i.
     bindR (rd_ascii8 45 ''endpoint address'') (\<lambda>addr.
     bindR (requireR (endpoints dec i = None \<and> pending i = None)
        (AnalysisProtocolError (''duplicate endpoint ID: '' @ show_int i))) (\<lambda>_.
     bindR (requireR (addr \<noteq> []) (AnalysisProtocolError ''endpoint address is required'')) (\<lambda>_.
     returnR (pending(i \<mapsto> \<lparr>endpoint_id = i, address = addr\<rparr>))))))"

definition flow_step :: "data_decoder \<Rightarrow> (int \<rightharpoonup> flow_definition) \<Rightarrow> (int \<rightharpoonup> flow_definition) rd" where
  "flow_step dec pending =
     bindR (rd_nonzero FmtI ''flow ID'') (\<lambda>i.
     bindR (rd_unpack FmtI ''flow source endpoint ID'') (\<lambda>source_id.
     bindR (rd_unpack FmtI ''flow destination endpoint ID'') (\<lambda>destination_id.
     bindR (rd_unpack FmtH ''flow source port'') (\<lambda>sport.
     bindR (rd_unpack FmtH ''flow destination port'') (\<lambda>dport.
     bindR (rd_unpack FmtB ''flow protocol'') (\<lambda>proto.
     bindR (requireR (flows dec i = None \<and> pending i = None)
        (AnalysisProtocolError (''duplicate flow ID: '' @ show_int i))) (\<lambda>_.
     bindR (liftR (decoder_endpoint dec source_id ''flow source'')) (\<lambda>src.
     bindR (liftR (decoder_endpoint dec destination_id ''flow destination'')) (\<lambda>dst.
     returnR (pending(i \<mapsto> \<lparr>flow_id = i, flow_source = src, flow_destination = dst,
        source_port = sport, destination_port = dport, flow_protocol = proto\<rparr>)))))))))))"

definition conversation_step ::
  "data_decoder \<Rightarrow> (int \<rightharpoonup> conversation_definition) \<Rightarrow> (int \<rightharpoonup> conversation_definition) rd" where
  "conversation_step dec pending =
     bindR (rd_nonzero FmtI ''conversation ID'') (\<lambda>i.
     bindR (rd_unpack FmtI ''conversation endpoint A ID'') (\<lambda>a_id.
     bindR (rd_unpack FmtH ''conversation endpoint A port'') (\<lambda>a_port.
     bindR (rd_unpack FmtI ''conversation endpoint B ID'') (\<lambda>b_id.
     bindR (rd_unpack FmtH ''conversation endpoint B port'') (\<lambda>b_port.
     bindR (rd_unpack FmtI ''conversation initiator ID'') (\<lambda>init_id.
     bindR (rd_unpack FmtH ''conversation initiator port'') (\<lambda>init_port.
     bindR (rd_unpack FmtI ''conversation responder ID'') (\<lambda>resp_id.
     bindR (rd_unpack FmtH ''conversation responder port'') (\<lambda>resp_port.
     bindR (rd_unpack FmtB ''conversation protocol'') (\<lambda>proto.
     bindR (rd_finite ''conversation first seen'') (\<lambda>seen.
     bindR (requireR (conversations dec i = None \<and> pending i = None)
        (AnalysisProtocolError (''duplicate conversation ID: '' @ show_int i))) (\<lambda>_.
     bindR (liftR (decoder_endpoint dec a_id ''conversation endpoint A'')) (\<lambda>a.
     bindR (liftR (decoder_endpoint dec b_id ''conversation endpoint B'')) (\<lambda>b.
     bindR (liftR (decoder_endpoint dec init_id ''conversation initiator'')) (\<lambda>ini.
     bindR (liftR (decoder_endpoint dec resp_id ''conversation responder'')) (\<lambda>resp.
     returnR (pending(i \<mapsto> \<lparr>conversation_id = i, endpoint_a = a, endpoint_a_port = a_port,
        endpoint_b = b, endpoint_b_port = b_port, initiator = ini, initiator_port = init_port,
        responder = resp, responder_port = resp_port, conversation_protocol = proto, first_seen = seen\<rparr>))))))))))))))))))"

section \<open>Work items\<close>

definition decode_work_item :: "data_decoder \<Rightarrow> work_item rd" where
  "decode_work_item dec =
     bindR (rd_nonzero FmtQ ''packet ordinal'') (\<lambda>ordinal.
     bindR (rd_finite ''packet timestamp'') (\<lambda>timestamp.
     bindR (rd_unpack FmtI ''packet size'') (\<lambda>size.
     bindR (rd_unpack FmtI ''work flow ID'') (\<lambda>fid.
     bindR (rd_unpack FmtI ''work conversation ID'') (\<lambda>cid.
     case flows dec fid of None \<Rightarrow> liftR (protocol_error (''unknown flow ID: '' @ show_int fid)) | Some flow \<Rightarrow>
     (case conversations dec cid of
        None \<Rightarrow> liftR (protocol_error (''unknown conversation ID: '' @ show_int cid)) | Some conversation \<Rightarrow>
     bindR (rd_unpack FmtB ''hop limit'') (\<lambda>hop.
     bindR (rd_unpack FmtH ''TCP flags'') (\<lambda>flags.
     bindR (rd_unpack FmtB ''conversation direction'') (\<lambda>direction_code.
     case dict_get DIRECTIONS direction_code of
        None \<Rightarrow> liftR (protocol_error ''unsupported conversation direction'') | Some dir \<Rightarrow>
     bindR (rd_unpack FmtB ''candidate mode'') (\<lambda>candidate_code.
     case dict_get CANDIDATE_MODES candidate_code of
        None \<Rightarrow> liftR (protocol_error ''unsupported candidate mode'') | Some mode \<Rightarrow>
     bindR (rd_unpack FmtQ ''matched selector programs'') (\<lambda>matched.
     bindR (rd_finite ''flow start time'') (\<lambda>flow_start.
     bindR (rd_collect 5 (rd_unpack FmtQ ''flow counter'')) (\<lambda>fv.
     bindR (rd_collect 8 (rd_unpack FmtQ ''conversation counter'')) (\<lambda>cv.
     bindR (rd_collect 3 (rd_unpack FmtI ''conversation delta'')) (\<lambda>deltas.
     bindR (rd_boolean ''conversation established'') (\<lambda>established.
     bindR (rd_unpack FmtI ''raw candidate length'') (\<lambda>raw_length.
     bindR (rd_take raw_length ''raw candidate frame'') (\<lambda>raw.
     bindR (requireR ((mode = ''none'') = (raw = []))
        (AnalysisProtocolError ''raw candidate presence disagrees with candidate mode'')) (\<lambda>_.
     returnR \<lparr>packet_ordinal = ordinal, wi_timestamp = timestamp, wi_size = size, wi_flow = flow,
       wi_conversation = conversation, hop_limit = hop, tcp_flags = flags, direction = dir,
       candidate_mode = mode, matched_programs = matched,
       wi_flow_snapshot = \<lparr>fs_start_time = flow_start, fs_packet_count = fv ! 0, fs_byte_count = fv ! 1,
         fs_syn_count = fv ! 2, fs_syn_ack_count = fv ! 3, fs_rst_count = fv ! 4\<rparr>,
       wi_conversation_snapshot = \<lparr>cs_generation = cv ! 0, cs_to_responder_packets = cv ! 1,
         cs_to_responder_bytes = cv ! 2, cs_to_initiator_packets = cv ! 3, cs_to_initiator_bytes = cv ! 4,
         cs_syn_count = cv ! 5, cs_syn_ack_count = cv ! 6, cs_rst_count = cv ! 7, cs_established = established\<rparr>,
       syn_delta = deltas ! 0, syn_ack_delta = deltas ! 1, rst_delta = deltas ! 2,
       raw_frame = raw\<rparr>)))))))))))))))))))"

text \<open>The whole frame: the decoder's next state and what the call returns or raises.\<close>

definition decode_work :: "data_decoder \<Rightarrow> bytes \<Rightarrow> data_decoder \<times> work_batch result" where
  "decode_work dec payload =
     (case work_header (reader_init payload) of
        Inl e \<Rightarrow> (dec, Inl e)
      | Inr ((sequence, endpoint_count, flow_count, conversation_count, item_count), r1) \<Rightarrow>
     (case rd_loop endpoint_count (endpoint_step dec) Map.empty r1 of
        Inl e \<Rightarrow> (dec, Inl e)
      | Inr (pending_endpoints, r2) \<Rightarrow>
     let dec1 = dec\<lparr>endpoints := endpoints dec ++ pending_endpoints\<rparr> in
     (case rd_loop flow_count (flow_step dec1) Map.empty r2 of
        Inl e \<Rightarrow> (dec1, Inl e)
      | Inr (pending_flows, r3) \<Rightarrow>
     let dec2 = dec1\<lparr>flows := flows dec1 ++ pending_flows\<rparr> in
     (case rd_loop conversation_count (conversation_step dec2) Map.empty r3 of
        Inl e \<Rightarrow> (dec2, Inl e)
      | Inr (pending_conversations, r4) \<Rightarrow>
     let dec3 = dec2\<lparr>conversations := conversations dec2 ++ pending_conversations\<rparr> in
     (case bindR (rd_collect item_count (decode_work_item dec3)) (\<lambda>items. bindR rd_finish (\<lambda>_. returnR items)) r4 of
        Inl e \<Rightarrow> (dec3, Inl e)
      | Inr (items, r5) \<Rightarrow> (dec3, Inr \<lparr>work_sequence = sequence, work_items = items\<rparr>))))))"

section \<open>Terminal flow and conversation frames\<close>

definition decode_terminal_flow :: "data_decoder \<Rightarrow> terminal_flow rd" where
  "decode_terminal_flow dec =
     bindR (rd_unpack FmtI ''terminal flow ID'') (\<lambda>fid.
     case flows dec fid of None \<Rightarrow> liftR (protocol_error (''unknown terminal flow ID: '' @ show_int fid)) | Some d \<Rightarrow>
     bindR (rd_unpack FmtI ''terminal flow generation'') (\<lambda>generation.
     bindR (rd_unpack FmtB ''terminal flow state'') (\<lambda>state.
     bindR (requireR (state = 2) (AnalysisProtocolError ''terminal flow state must be terminal'')) (\<lambda>_.
     bindR (rd_finite ''terminal flow start'') (\<lambda>start_time.
     bindR (rd_finite ''terminal flow last seen'') (\<lambda>last_seen.
     bindR (rd_collect 5 (rd_unpack FmtQ ''terminal flow counter'')) (\<lambda>counters.
     bindR (rd_unpack FmtH ''terminal flow sample count'') (\<lambda>sample_count.
     bindR (requireR (sample_count \<le> 500) (AnalysisProtocolError ''terminal flow sample count exceeds 500'')) (\<lambda>_.
     bindR (rd_collect (nat sample_count)
        (bindR (rd_unpack FmtI ''flow sample size'') (\<lambda>size.
         bindR (rd_finite ''flow sample timestamp'') (\<lambda>timestamp. returnR (size, timestamp))))) (\<lambda>samples.
     returnR \<lparr>tf_definition = d, tf_generation = generation, tf_start_time = start_time, tf_last_seen = last_seen,
       tf_packet_count = counters ! 0, tf_byte_count = counters ! 1, tf_syn_count = counters ! 2,
       tf_syn_ack_count = counters ! 3, tf_rst_count = counters ! 4, tf_samples = samples\<rparr>))))))))))"

definition decode_flows :: "data_decoder \<Rightarrow> bytes \<Rightarrow> flow_batch result" where
  "decode_flows dec = rd_all (
     bindR (rd_schema ''analysis flow'') (\<lambda>_.
     bindR (rd_unpack FmtI ''analysis flow sequence'') (\<lambda>sequence.
     bindR (rd_unpack FmtH ''analysis flow record count'') (\<lambda>count.
     bindR (rd_collect (nat count) (decode_terminal_flow dec)) (\<lambda>records.
     returnR \<lparr>flow_sequence = sequence, flow_records = records\<rparr>)))))"

definition decode_terminal_conversation :: "data_decoder \<Rightarrow> terminal_conversation rd" where
  "decode_terminal_conversation dec =
     bindR (rd_unpack FmtI ''terminal conversation ID'') (\<lambda>cid.
     case conversations dec cid of
        None \<Rightarrow> liftR (protocol_error (''unknown terminal conversation ID: '' @ show_int cid)) | Some d \<Rightarrow>
     bindR (rd_unpack FmtB ''terminal conversation state'') (\<lambda>state.
     bindR (requireR (state = 2) (AnalysisProtocolError ''terminal conversation state must be terminal'')) (\<lambda>_.
     bindR (rd_finite ''terminal conversation last seen'') (\<lambda>last_seen.
     bindR (rd_collect 8 (rd_unpack FmtQ ''terminal conversation counter'')) (\<lambda>vs.
     bindR (rd_boolean ''terminal conversation established'') (\<lambda>established.
     returnR \<lparr>tc_definition = d, tc_last_seen = last_seen, tc_generation = vs ! 0,
       tc_to_responder_packets = vs ! 1, tc_to_responder_bytes = vs ! 2, tc_to_initiator_packets = vs ! 3,
       tc_to_initiator_bytes = vs ! 4, tc_syn_count = vs ! 5, tc_syn_ack_count = vs ! 6, tc_rst_count = vs ! 7,
       tc_established = established\<rparr>))))))"

definition decode_conversations :: "data_decoder \<Rightarrow> bytes \<Rightarrow> conversation_batch result" where
  "decode_conversations dec = rd_all (
     bindR (rd_schema ''analysis conversation'') (\<lambda>_.
     bindR (rd_unpack FmtI ''analysis conversation sequence'') (\<lambda>sequence.
     bindR (rd_unpack FmtH ''analysis conversation record count'') (\<lambda>count.
     bindR (rd_collect (nat count) (decode_terminal_conversation dec)) (\<lambda>records.
     returnR \<lparr>conversation_sequence = sequence, conversation_records = records\<rparr>)))))"

section \<open>Write-once tables\<close>

text \<open>
  The contract of the three definition loops: every step stores exactly one good value under its
  own nonzero identifier, and only when neither the table nor the pending group has that
  identifier.
\<close>

locale definition_table =
  fixes known :: "int \<rightharpoonup> 'v" and step :: "(int \<rightharpoonup> 'v) \<Rightarrow> (int \<rightharpoonup> 'v) rd"
    and ident :: "'v \<Rightarrow> int" and good :: "'v \<Rightarrow> bool"
  assumes step_defines: "step pending r = Inr (pending', r') \<Longrightarrow>
    \<exists>v. pending' = pending(ident v \<mapsto> v) \<and> known (ident v) = None \<and> pending (ident v) = None \<and> ident v \<noteq> 0 \<and> good v"
begin

definition group :: "(int \<rightharpoonup> 'v) \<Rightarrow> bool" where
  "group p \<longleftrightarrow> finite (dom p) \<and> dom p \<inter> dom known = {} \<and> (\<forall>k v. p k = Some v \<longrightarrow> ident v = k \<and> k \<noteq> 0 \<and> good v)"

lemma step_group: "group p \<Longrightarrow> step p r = Inr (p', r') \<Longrightarrow> group p' \<and> card (dom p') = Suc (card (dom p))"
proof -
  assume g: "group p" and s: "step p r = Inr (p', r')"
  obtain v where v: "p' = p(ident v \<mapsto> v)" "known (ident v) = None" "p (ident v) = None" "ident v \<noteq> 0" "good v"
    using step_defines [OF s] by blast
  then have "ident v \<notin> dom p" by auto
  then show ?thesis using g v by (auto simp: group_def)
qed

lemma loop_group:
  "rd_loop n step p r = Inr (p', r') \<Longrightarrow> group p \<Longrightarrow> group p' \<and> card (dom p') = card (dom p) + n"
proof (induction n arbitrary: p r)
  case (Suc n)
  then obtain p1 r1 where "step p r = Inr (p1, r1)" "rd_loop n step p1 r1 = Inr (p', r')"
    by (auto simp: bindR_Inr)
  with Suc.IH step_group [OF Suc.prems(2)] show ?case by fastforce
qed auto

lemma loop_defines:
  assumes "rd_loop n step Map.empty r = Inr (p, r')"
  shows "known \<subseteq>\<^sub>m known ++ p" "card (dom p) = n"
    "(known ++ p) k = Some v \<Longrightarrow> known k = Some v \<or> (known k = None \<and> ident v = k \<and> k \<noteq> 0 \<and> good v)"
proof -
  have "group Map.empty" by (simp add: group_def)
  from loop_group [OF assms this] have g: "group p" and c: "card (dom p) = n" by auto
  show "card (dom p) = n" by (rule c)
  show "known \<subseteq>\<^sub>m known ++ p"
    using g by (auto simp: map_le_def group_def map_add_def split: option.splits)
  show "(known ++ p) k = Some v \<Longrightarrow> known k = Some v \<or> (known k = None \<and> ident v = k \<and> k \<noteq> 0 \<and> good v)"
    using g by (auto simp: group_def map_add_def split: option.splits)
qed

end

section \<open>What a decoder's tables hold\<close>

definition endpoint_ok :: "endpoint_wire \<Rightarrow> bool" where
  "endpoint_ok e \<longleftrightarrow> address e \<noteq> [] \<and> length (address e) \<le> 45"

definition registered :: "data_decoder \<Rightarrow> endpoint_wire \<Rightarrow> bool" where
  "registered dec e \<longleftrightarrow> endpoints dec (endpoint_id e) = Some e"

definition flow_ok :: "data_decoder \<Rightarrow> flow_definition \<Rightarrow> bool" where
  "flow_ok dec f \<longleftrightarrow> registered dec (flow_source f) \<and> registered dec (flow_destination f) \<and>
     source_port f \<in> {0..65535} \<and> destination_port f \<in> {0..65535} \<and> flow_protocol f \<in> {0..255}"

definition conversation_ok :: "data_decoder \<Rightarrow> conversation_definition \<Rightarrow> bool" where
  "conversation_ok dec c \<longleftrightarrow> registered dec (endpoint_a c) \<and> registered dec (endpoint_b c) \<and>
     registered dec (initiator c) \<and> registered dec (responder c) \<and> f64_isfinite (first_seen c)"

definition decoder_inv :: "data_decoder \<Rightarrow> bool" where
  "decoder_inv dec \<longleftrightarrow>
     (\<forall>k e. endpoints dec k = Some e \<longrightarrow> endpoint_id e = k \<and> k \<noteq> 0 \<and> endpoint_ok e) \<and>
     (\<forall>k f. flows dec k = Some f \<longrightarrow> flow_id f = k \<and> k \<noteq> 0 \<and> flow_ok dec f) \<and>
     (\<forall>k c. conversations dec k = Some c \<longrightarrow> conversation_id c = k \<and> k \<noteq> 0 \<and> conversation_ok dec c)"

text \<open>No definition is ever changed or dropped.\<close>

definition decoder_extends :: "data_decoder \<Rightarrow> data_decoder \<Rightarrow> bool" where
  "decoder_extends d d' \<longleftrightarrow>
     endpoints d \<subseteq>\<^sub>m endpoints d' \<and> flows d \<subseteq>\<^sub>m flows d' \<and> conversations d \<subseteq>\<^sub>m conversations d'"

lemma decoder_inv_init: "decoder_inv data_decoder_init"
  by (simp add: decoder_inv_def data_decoder_init_def)

lemma decoder_extends_refl [simp]: "decoder_extends d d"
  by (simp add: decoder_extends_def)

lemma decoder_extends_trans: "decoder_extends a b \<Longrightarrow> decoder_extends b c \<Longrightarrow> decoder_extends a c"
  by (auto simp: decoder_extends_def intro: map_le_trans)

lemma rd_nonzero_Inr: "rd_nonzero f l r = Inr (v, r') \<Longrightarrow> v \<noteq> 0"
  by (auto simp: rd_nonzero_def bindR_Inr requireR_Inr)

lemma rd_finite_Inr: "rd_finite l r = Inr (v, r') \<Longrightarrow> f64_isfinite v"
  by (auto simp: rd_finite_def bindR_Inr requireR_Inr)

lemma rd_unpack_range:
  assumes "rd_unpack f l r = Inr (v, r')"
  shows "0 \<le> v \<and> v < 256 ^ calcsize f"
proof -
  obtain b where "v = be_int b" "length b = calcsize f"
    using assms by (auto simp: rd_unpack_def bindR_Inr rd_take_def split: if_splits)
  then show ?thesis using be_int_less [of b "calcsize f"] by simp
qed

lemma rd_ascii8_range: "rd_ascii8 m l r = Inr (s, r') \<Longrightarrow> int (length s) \<le> m"
proof -
  assume "rd_ascii8 m l r = Inr (s, r')"
  then obtain n v r1 r2 where n: "n \<le> m" "rd_take n l r1 = Inr (v, r2)"
      and v: "(case decode_ascii v of Inl _ \<Rightarrow> liftR (Inl (AnalysisProtocolError (l @ '' is not ASCII''))) | Inr s \<Rightarrow> returnR s) r2 = Inr (s, r')"
    by (auto simp: rd_ascii8_def bindR_Inr requireR_Inr)
  have "int (length v) = n" using n(2) by (auto simp: rd_take_def split: if_splits)
  moreover have "decode_ascii v = Inr s" using v by (cases "decode_ascii v") auto
  ultimately show ?thesis using n(1) decode_ascii_length [of v s] by simp
qed

lemma decoder_endpoint_registered:
  "decoder_endpoint dec i l = Inr e \<Longrightarrow> decoder_inv dec \<Longrightarrow> registered dec e"
  by (auto simp: decoder_endpoint_def decoder_inv_def registered_def split: option.splits)

interpretation endpoint_table: definition_table "endpoints dec" "endpoint_step dec" endpoint_id endpoint_ok for dec
proof unfold_locales
  fix pending r pending' r'
  assume "endpoint_step dec pending r = Inr (pending', r')"
  then obtain i a where "i \<noteq> 0" "int (length a) \<le> 45" "endpoints dec i = None" "pending i = None" "a \<noteq> []"
      "pending' = pending(i \<mapsto> \<lparr>endpoint_id = i, address = a\<rparr>)"
    unfolding endpoint_step_def by (auto simp: bindR_Inr requireR_Inr dest!: rd_nonzero_Inr rd_ascii8_range)
  then show "\<exists>v. pending' = pending(endpoint_id v \<mapsto> v) \<and> endpoints dec (endpoint_id v) = None \<and> pending (endpoint_id v) = None
      \<and> endpoint_id v \<noteq> 0 \<and> endpoint_ok v"
    by (intro exI [of _ "\<lparr>endpoint_id = i, address = a\<rparr>"]) (simp add: endpoint_ok_def)
qed

definition flow_endpoints :: "data_decoder \<Rightarrow> flow_definition \<Rightarrow> bool" where
  "flow_endpoints dec f \<longleftrightarrow> (decoder_inv dec \<longrightarrow> flow_ok dec f)"

interpretation flow_table: definition_table "flows dec" "flow_step dec" flow_id "flow_endpoints dec" for dec
proof unfold_locales
  fix pending r pending' r'
  assume "flow_step dec pending r = Inr (pending', r')"
  then obtain i s d sp dp pr a1 a2 r1 r2 r3 r4 r5 where
    "i \<noteq> 0" "flows dec i = None" "pending i = None"
    and p: "rd_unpack FmtH ''flow source port'' r1 = Inr (sp, r2)" "rd_unpack FmtH ''flow destination port'' r3 = Inr (dp, r4)"
      "rd_unpack FmtB ''flow protocol'' r4 = Inr (pr, r5)"
    and a: "decoder_endpoint dec a1 ''flow source'' = Inr s" "decoder_endpoint dec a2 ''flow destination'' = Inr d"
    and "pending' = pending(i \<mapsto> \<lparr>flow_id = i, flow_source = s, flow_destination = d, source_port = sp, destination_port = dp, flow_protocol = pr\<rparr>)"
    unfolding flow_step_def by (auto simp: bindR_Inr requireR_Inr liftR_Inr dest!: rd_nonzero_Inr)
  then show "\<exists>v. pending' = pending(flow_id v \<mapsto> v) \<and> flows dec (flow_id v) = None \<and> pending (flow_id v) = None \<and> flow_id v \<noteq> 0 \<and> flow_endpoints dec v"
    using p [THEN rd_unpack_range] a [THEN decoder_endpoint_registered]
    by (intro exI [of _ "\<lparr>flow_id = i, flow_source = s, flow_destination = d, source_port = sp, destination_port = dp, flow_protocol = pr\<rparr>"])
      (simp add: flow_endpoints_def flow_ok_def)
qed

definition conversation_endpoints :: "data_decoder \<Rightarrow> conversation_definition \<Rightarrow> bool" where
  "conversation_endpoints dec c \<longleftrightarrow> (decoder_inv dec \<longrightarrow> conversation_ok dec c)"

interpretation conversation_table: definition_table "conversations dec" "conversation_step dec" conversation_id "conversation_endpoints dec" for dec
proof unfold_locales
  fix pending r pending' r'
  assume "conversation_step dec pending r = Inr (pending', r')"
  then obtain i a ap b bp ini ip resp rp pr fs a1 a2 a3 a4 r1 r2 where
    "i \<noteq> 0" "conversations dec i = None" "pending i = None"
    and p: "rd_finite ''conversation first seen'' r1 = Inr (fs, r2)"
    and a: "decoder_endpoint dec a1 ''conversation endpoint A'' = Inr a" "decoder_endpoint dec a2 ''conversation endpoint B'' = Inr b"
     "decoder_endpoint dec a3 ''conversation initiator'' = Inr ini" "decoder_endpoint dec a4 ''conversation responder'' = Inr resp"
    and "pending' = pending(i \<mapsto> \<lparr>conversation_id = i, endpoint_a = a, endpoint_a_port = ap,
        endpoint_b = b, endpoint_b_port = bp, initiator = ini, initiator_port = ip,
        responder = resp, responder_port = rp, conversation_protocol = pr, first_seen = fs\<rparr>)"
    unfolding conversation_step_def by (auto simp: bindR_Inr requireR_Inr liftR_Inr dest!: rd_nonzero_Inr)
  then show "\<exists>v. pending' = pending(conversation_id v \<mapsto> v) \<and> conversations dec (conversation_id v) = None \<and> pending (conversation_id v) = None
      \<and> conversation_id v \<noteq> 0 \<and> conversation_endpoints dec v"
    using rd_finite_Inr [OF p] a [THEN decoder_endpoint_registered]
    by (intro exI [of _ "\<lparr>conversation_id = i, endpoint_a = a, endpoint_a_port = ap,
        endpoint_b = b, endpoint_b_port = bp, initiator = ini, initiator_port = ip,
        responder = resp, responder_port = rp, conversation_protocol = pr, first_seen = fs\<rparr>"])
      (simp add: conversation_endpoints_def conversation_ok_def)
qed

section \<open>Decoding preserves the tables\<close>

lemma registered_extends: "registered d e \<Longrightarrow> endpoints d \<subseteq>\<^sub>m endpoints d' \<Longrightarrow> registered d' e"
  by (auto simp: registered_def map_le_def dom_def)

lemma flow_ok_extends: "flow_ok d f \<Longrightarrow> endpoints d \<subseteq>\<^sub>m endpoints d' \<Longrightarrow> flow_ok d' f"
  by (auto simp: flow_ok_def intro: registered_extends)

lemma conversation_ok_extends: "conversation_ok d c \<Longrightarrow> endpoints d \<subseteq>\<^sub>m endpoints d' \<Longrightarrow> conversation_ok d' c"
  by (auto simp: conversation_ok_def intro: registered_extends)

definition grows :: "data_decoder \<Rightarrow> data_decoder \<Rightarrow> bool" where
  "grows d d' \<longleftrightarrow> decoder_extends d d' \<and> (decoder_inv d \<longrightarrow> decoder_inv d')"

lemma grows_refl [simp]: "grows d d"
  by (simp add: grows_def)

lemma grows_trans: "grows a b \<Longrightarrow> grows b c \<Longrightarrow> grows a c"
  by (auto simp: grows_def intro: decoder_extends_trans)

lemma grows_endpoints:
  assumes "rd_loop n (endpoint_step d) Map.empty r = Inr (p, r')"
  shows "grows d (d\<lparr>endpoints := endpoints d ++ p\<rparr>)"
proof -
  let ?d = "d\<lparr>endpoints := endpoints d ++ p\<rparr>"
  note t = endpoint_table.loop_defines [OF assms]
  have le: "endpoints d \<subseteq>\<^sub>m endpoints ?d" using t(1) by simp
  have "decoder_inv d \<Longrightarrow> decoder_inv ?d"
  proof -
    assume i: "decoder_inv d"
    have "endpoint_id e = k \<and> k \<noteq> 0 \<and> endpoint_ok e" if "(endpoints d ++ p) k = Some e" for k e
      using t(3) [OF that] i by (auto simp: decoder_inv_def)
    with i show ?thesis
      unfolding decoder_inv_def using flow_ok_extends [OF _ le] conversation_ok_extends [OF _ le]
      by (simp del: map_add_Some_iff)
  qed
  with t(1) show ?thesis by (simp add: grows_def decoder_extends_def)
qed

lemma flow_ok_flows [simp]: "flow_ok (d\<lparr>flows := m\<rparr>) f = flow_ok d f" "conversation_ok (d\<lparr>flows := m\<rparr>) c = conversation_ok d c"
  "flow_ok (d\<lparr>conversations := n\<rparr>) f = flow_ok d f" "conversation_ok (d\<lparr>conversations := n\<rparr>) c = conversation_ok d c"
  by (simp_all add: flow_ok_def conversation_ok_def registered_def)

lemma grows_flows:
  assumes "rd_loop n (flow_step d) Map.empty r = Inr (p, r')"
  shows "grows d (d\<lparr>flows := flows d ++ p\<rparr>)"
proof -
  note t = flow_table.loop_defines [OF assms]
  have "decoder_inv d \<Longrightarrow> decoder_inv (d\<lparr>flows := flows d ++ p\<rparr>)"
  proof -
    assume i: "decoder_inv d"
    have "flow_id f = k \<and> k \<noteq> 0 \<and> flow_ok d f" if "(flows d ++ p) k = Some f" for k f
      using t(3) [OF that] i by (auto simp: flow_endpoints_def decoder_inv_def)
    with i show ?thesis by (auto simp: decoder_inv_def simp del: map_add_Some_iff)
  qed
  with t(1) show ?thesis by (simp add: grows_def decoder_extends_def)
qed

lemma grows_conversations:
  assumes "rd_loop n (conversation_step d) Map.empty r = Inr (p, r')"
  shows "grows d (d\<lparr>conversations := conversations d ++ p\<rparr>)"
proof -
  note t = conversation_table.loop_defines [OF assms]
  have "decoder_inv d \<Longrightarrow> decoder_inv (d\<lparr>conversations := conversations d ++ p\<rparr>)"
  proof -
    assume i: "decoder_inv d"
    have "conversation_id f = k \<and> k \<noteq> 0 \<and> conversation_ok d f" if "(conversations d ++ p) k = Some f" for k f
      using t(3) [OF that] i by (auto simp: conversation_endpoints_def decoder_inv_def)
    with i show ?thesis by (auto simp: decoder_inv_def simp del: map_add_Some_iff)
  qed
  with t(1) show ?thesis by (simp add: grows_def decoder_extends_def)
qed

lemma grows_two:
  assumes "rd_loop m (endpoint_step d) Map.empty r = Inr (p, r1)"
    and "rd_loop n (flow_step (d\<lparr>endpoints := endpoints d ++ p\<rparr>)) Map.empty r1 = Inr (q, r2)"
  shows "grows d (d\<lparr>endpoints := endpoints d ++ p, flows := flows d ++ q\<rparr>)"
  using grows_trans [OF grows_endpoints [OF assms(1)] grows_flows [OF assms(2)]] by simp

lemma grows_three:
  assumes "rd_loop m (endpoint_step d) Map.empty r = Inr (p, r1)"
    and "rd_loop n (flow_step (d\<lparr>endpoints := endpoints d ++ p\<rparr>)) Map.empty r1 = Inr (q, r2)"
    and "rd_loop k (conversation_step (d\<lparr>endpoints := endpoints d ++ p, flows := flows d ++ q\<rparr>)) Map.empty r2 = Inr (s, r3)"
  shows "grows d (d\<lparr>endpoints := endpoints d ++ p, flows := flows d ++ q, conversations := conversations d ++ s\<rparr>)"
  using grows_trans [OF grows_two [OF assms(1,2)] grows_conversations [OF assms(3)]] by simp

lemma decode_work_grows: "decode_work d payload = (d', res) \<Longrightarrow> grows d d'"
  unfolding decode_work_def Let_def
  by (auto split: sum.splits prod.splits intro: grows_endpoints grows_two grows_three)

section \<open>What the frames return\<close>

definition work_item_ok :: "data_decoder \<Rightarrow> work_item \<Rightarrow> bool" where
  "work_item_ok d i \<longleftrightarrow> (\<exists>k. flows d k = Some (wi_flow i)) \<and> (\<exists>k. conversations d k = Some (wi_conversation i)) \<and>
     packet_ordinal i \<noteq> 0 \<and> f64_isfinite (wi_timestamp i) \<and> f64_isfinite (fs_start_time (wi_flow_snapshot i)) \<and>
     direction i \<in> snd ` set DIRECTIONS \<and> candidate_mode i \<in> snd ` set CANDIDATE_MODES \<and>
     (candidate_mode i = ''none'' \<longleftrightarrow> raw_frame i = [])"

lemma rd_collect_all:
  "rd_collect n p r = Inr (xs, r') \<Longrightarrow> (\<And>r x r'. p r = Inr (x, r') \<Longrightarrow> P x) \<Longrightarrow> x \<in> set xs \<Longrightarrow> P x"
  by (induction n arbitrary: r xs) (auto simp: bindR_Inr)

lemma decode_work_item_ok:
  assumes "decode_work_item d r = Inr (i, r')"
  shows "work_item_ok d i"
proof -
  have lookup: "dict_get d c = Some x \<Longrightarrow> x \<in> snd ` set d" for d :: "(int \<times> string) list" and c x
    by (auto simp: dict_get_map_of dest!: map_of_SomeD) force
  show ?thesis
    using assms unfolding decode_work_item_def bindR_Inr case_lookup_iff
    apply (elim exE conjE)
    apply (drule rd_nonzero_Inr, (drule rd_finite_Inr lookup)+)
    by (simp only: requireR_Inr returnR_apply sum.inject prod.inject, elim conjE, hypsubst, simp add: work_item_ok_def, blast)
qed


lemma decode_work_items_ok:
  assumes "decode_work d payload = (d', Inr batch)" and "i \<in> set (work_items batch)"
  shows "work_item_ok d' i"
proof -
  obtain n r r' where "rd_collect n (decode_work_item d') r = Inr (work_items batch, r')"
    using assms(1) unfolding decode_work_def Let_def by (auto split: sum.splits prod.splits simp: bindR_Inr)
  from rd_collect_all [where P = "work_item_ok d'", OF this decode_work_item_ok assms(2)] show ?thesis .
qed

definition terminal_flow_ok :: "data_decoder \<Rightarrow> terminal_flow \<Rightarrow> bool" where
  "terminal_flow_ok d t \<longleftrightarrow> (\<exists>k. flows d k = Some (tf_definition t)) \<and> f64_isfinite (tf_start_time t) \<and>
     f64_isfinite (tf_last_seen t) \<and> length (tf_samples t) \<le> 500 \<and> (\<forall>s \<in> set (tf_samples t). f64_isfinite (snd s))"

lemma decode_terminal_flow_ok:
  assumes "decode_terminal_flow d r = Inr (t, r')"
  shows "terminal_flow_ok d t"
proof -
  have sample: "bindR (rd_unpack FmtI l) (\<lambda>size. bindR (rd_finite l') (\<lambda>timestamp. returnR (size, timestamp))) r = Inr (s, r') \<Longrightarrow>
     f64_isfinite (snd s)" for l l' r s r'
    by (auto simp: bindR_Inr dest: rd_finite_Inr)
  have smp: "rd_collect n (bindR (rd_unpack FmtI l) (\<lambda>size. bindR (rd_finite l') (\<lambda>timestamp. returnR (size, timestamp)))) r = Inr (xs, r') \<Longrightarrow>
     length xs = n \<and> (\<forall>s \<in> set xs. f64_isfinite (snd s))" for n l l' r xs r'
    by (blast intro: rd_collect_length rd_collect_all [where P = "\<lambda>s. f64_isfinite (snd s)"] sample)
  show ?thesis
    using assms unfolding decode_terminal_flow_def bindR_Inr case_lookup_iff
    apply (elim exE conjE)
    apply (drule rd_finite_Inr, drule rd_finite_Inr)
    by (auto simp: terminal_flow_ok_def requireR_Inr dest!: smp)
qed


lemma rd_all_run: "rd_all p bs = Inr x \<Longrightarrow> \<exists>r'. p (reader_init bs) = Inr (x, r')"
  by (auto simp: rd_all_def bindE_Inr bindR_Inr)

lemma decode_flows_ok:
  assumes "decode_flows d payload = Inr batch" and "t \<in> set (flow_records batch)"
  shows "terminal_flow_ok d t"
proof -
  obtain n r r' where "rd_collect n (decode_terminal_flow d) r = Inr (flow_records batch, r')"
    using assms(1) unfolding decode_flows_def by (auto simp: bindR_Inr dest!: rd_all_run)
  from rd_collect_all [where P = "terminal_flow_ok d", OF this decode_terminal_flow_ok assms(2)] show ?thesis .
qed

definition terminal_conversation_ok :: "data_decoder \<Rightarrow> terminal_conversation \<Rightarrow> bool" where
  "terminal_conversation_ok d t \<longleftrightarrow> (\<exists>k. conversations d k = Some (tc_definition t)) \<and> f64_isfinite (tc_last_seen t)"

lemma decode_terminal_conversation_ok:
  assumes "decode_terminal_conversation d r = Inr (t, r')"
  shows "terminal_conversation_ok d t"
  using assms unfolding decode_terminal_conversation_def bindR_Inr case_lookup_iff
  apply (elim exE conjE)
  apply (drule rd_finite_Inr)
  by (auto simp: terminal_conversation_ok_def requireR_Inr)

lemma decode_conversations_ok:
  assumes "decode_conversations d payload = Inr batch" and "t \<in> set (conversation_records batch)"
  shows "terminal_conversation_ok d t"
proof -
  obtain n r r' where "rd_collect n (decode_terminal_conversation d) r = Inr (conversation_records batch, r')"
    using assms(1) unfolding decode_conversations_def by (auto simp: bindR_Inr dest!: rd_all_run)
  from rd_collect_all [where P = "terminal_conversation_ok d", OF this decode_terminal_conversation_ok assms(2)] show ?thesis .
qed

text \<open>A sequence of work frames, each decoded in the state the previous one left.\<close>

fun decode_work_run :: "data_decoder \<Rightarrow> bytes list \<Rightarrow> data_decoder" where
  "decode_work_run d [] = d"
| "decode_work_run d (p # ps) = decode_work_run (fst (decode_work d p)) ps"

lemma decode_work_run_grows: "grows d (decode_work_run d ps)"
proof (induction ps arbitrary: d)
  case (Cons p ps)
  have "grows d (fst (decode_work d p))"
    by (rule decode_work_grows [of d p _ "snd (decode_work d p)"]) simp
  with Cons.IH show ?case by (auto intro: grows_trans)
qed simp

lemma decode_work_run_append: "decode_work_run d (ps @ qs) = decode_work_run (decode_work_run d ps) qs"
  by (induction ps arbitrary: d) simp_all

end
