(* ===== verification/PyFloat.thy ===== *)
theory PyFloat imports PyValue begin

text \<open>
  The operations on floats the modelled code performs, on 64-bit patterns: comparison,
  \<open>max\<close>, truncation \<open>int(x)\<close>, and Python's \<open>==\<close> and truth value on dynamic values.
  A finite pattern is ordered by sign and magnitude, so comparing needs no rounding.  Two
  \<open>NaN\<close>s never compare equal; object identity, which \<open>in\<close> also consults, is not modelled.
\<close>

unbundle bit_operations_syntax

definition f64_exponent :: "f64 \<Rightarrow> nat" where
  "f64_exponent x = unat (take_bit 11 (drop_bit 52 x))"

definition f64_mantissa :: "f64 \<Rightarrow> nat" where
  "f64_mantissa x = unat (take_bit 52 x)"

definition f64_isnan :: "f64 \<Rightarrow> bool" where
  "f64_isnan x \<longleftrightarrow> f64_exponent x = 0x7FF \<and> f64_mantissa x \<noteq> 0"

definition f64_isinf :: "f64 \<Rightarrow> bool" where
  "f64_isinf x \<longleftrightarrow> f64_exponent x = 0x7FF \<and> f64_mantissa x = 0"

definition f64_negative :: "f64 \<Rightarrow> bool" where
  "f64_negative x \<longleftrightarrow> bit x 63"

text \<open>Sign and magnitude as one integer: monotone in the value on everything that is not a NaN.\<close>

definition f64_key :: "f64 \<Rightarrow> int" where
  "f64_key x = (let m = uint (take_bit 63 x) in if f64_negative x then - m else m)"

definition f64_lt :: "f64 \<Rightarrow> f64 \<Rightarrow> bool" where
  "f64_lt x y \<longleftrightarrow> \<not> f64_isnan x \<and> \<not> f64_isnan y \<and> f64_key x < f64_key y"

definition f64_eq :: "f64 \<Rightarrow> f64 \<Rightarrow> bool" where
  "f64_eq x y \<longleftrightarrow> \<not> f64_isnan x \<and> \<not> f64_isnan y \<and> f64_key x = f64_key y"

definition f64_le :: "f64 \<Rightarrow> f64 \<Rightarrow> bool" where
  "f64_le x y \<longleftrightarrow> f64_lt x y \<or> f64_eq x y"

text \<open>\<open>max(a, b)\<close> keeps its first argument unless the second is greater.\<close>

definition f64_max :: "f64 \<Rightarrow> f64 \<Rightarrow> f64" where
  "f64_max a b = (if f64_lt a b then b else a)"

text \<open>The significand with its hidden bit; the value is \<open>\<plusminus> significand * 2 ^ (exponent - 1075)\<close>.\<close>

definition f64_significand :: "f64 \<Rightarrow> nat" where
  "f64_significand x = (if f64_exponent x = 0 then f64_mantissa x else 2 ^ 52 + f64_mantissa x)"

definition f64_scale :: "f64 \<Rightarrow> nat" where
  "f64_scale x = max 1 (f64_exponent x)"

definition f64_abs_trunc :: "f64 \<Rightarrow> nat" where
  "f64_abs_trunc x = (if 1075 \<le> f64_scale x then f64_significand x * 2 ^ (f64_scale x - 1075)
     else f64_significand x div 2 ^ (1075 - f64_scale x))"

definition f64_is_whole :: "f64 \<Rightarrow> bool" where
  "f64_is_whole x \<longleftrightarrow> 1075 \<le> f64_scale x \<or> 2 ^ (1075 - f64_scale x) dvd f64_significand x"

text \<open>\<open>int(x)\<close>: truncation toward zero; a NaN or an infinity raises.\<close>

definition f64_to_int :: "f64 \<Rightarrow> int result" where
  "f64_to_int x =
     (if f64_isnan x then Inl (ValueError ''cannot convert float NaN to integer'')
      else if f64_isinf x then Inl OverflowError
      else Inr (if f64_negative x then - int (f64_abs_trunc x) else int (f64_abs_trunc x)))"

definition f64_eq_int :: "f64 \<Rightarrow> int \<Rightarrow> bool" where
  "f64_eq_int x i \<longleftrightarrow> f64_is_whole x \<and> f64_to_int x = Inr i"

lemma f64_lt_irrefl [simp]: "\<not> f64_lt x x"
  by (simp add: f64_lt_def)

lemma f64_lt_trans: "f64_lt x y \<Longrightarrow> f64_lt y z \<Longrightarrow> f64_lt x z"
  by (auto simp: f64_lt_def)

lemma f64_key_max: "\<not> f64_isnan a \<Longrightarrow> \<not> f64_isnan b \<Longrightarrow> f64_key (f64_max a b) = max (f64_key a) (f64_key b)"
  by (auto simp: f64_max_def f64_lt_def)

lemma f64_max_nan: "\<not> f64_isnan a \<Longrightarrow> \<not> f64_isnan (f64_max a b)"
  by (auto simp: f64_max_def f64_lt_def)

lemma f64_isfinite_exponent: "f64_isfinite x \<longleftrightarrow> f64_exponent x \<noteq> 0x7FF"
proof -
  have "take_bit 11 (drop_bit 52 x) = 0x7FF \<longleftrightarrow> unat (take_bit 11 (drop_bit 52 x)) = 0x7FF"
    using word_unat_eq_iff [of "take_bit 11 (drop_bit 52 x)" "0x7FF"] by simp
  then show ?thesis by (simp add: f64_isfinite_def f64_exponent_def)
qed

lemma f64_finite_not_nan: "f64_isfinite x \<Longrightarrow> \<not> f64_isnan x \<and> \<not> f64_isinf x"
  by (simp add: f64_isfinite_exponent f64_isnan_def f64_isinf_def)

section \<open>Equality and truth of dynamic values\<close>

text \<open>Numbers compare across \<open>bool\<close>, \<open>int\<close> and \<open>float\<close>; a dictionary ignores the order of its keys.\<close>

definition py_num_eq :: "pyval \<Rightarrow> pyval \<Rightarrow> bool" where
  "py_num_eq v w =
     (case v of
        PyFloat x \<Rightarrow> (case w of PyFloat y \<Rightarrow> f64_eq x y
          | _ \<Rightarrow> (case isinstance_int w of Some i \<Rightarrow> f64_eq_int x i | None \<Rightarrow> False))
      | _ \<Rightarrow> (case isinstance_int v of None \<Rightarrow> False
          | Some i \<Rightarrow> (case w of PyFloat y \<Rightarrow> f64_eq_int y i
              | _ \<Rightarrow> isinstance_int w = Some i)))"

function py_eq :: "pyval \<Rightarrow> pyval \<Rightarrow> bool" where
  "py_eq (PyTuple xs) w = (case w of PyTuple ys \<Rightarrow> length xs = length ys \<and> list_all (\<lambda>(x, y). py_eq x y) (zip xs ys) | _ \<Rightarrow> False)"
| "py_eq (PyList xs) w = (case w of PyList ys \<Rightarrow> length xs = length ys \<and> list_all (\<lambda>(x, y). py_eq x y) (zip xs ys) | _ \<Rightarrow> False)"
| "py_eq (PyDict d) w = (case w of PyDict e \<Rightarrow>
     length d = length e \<and> list_all (\<lambda>(k, v). list_ex (\<lambda>(k', v'). k = k' \<and> py_eq v v') e) d | _ \<Rightarrow> False)"
| "py_eq PyNone w = (w = PyNone)"
| "py_eq (PyStr s) w = (w = PyStr s)"
| "py_eq (PyBytes b) w = (w = PyBytes b)"
| "py_eq (PyBool b) w = py_num_eq (PyBool b) w"
| "py_eq (PyInt i) w = py_num_eq (PyInt i) w"
| "py_eq (PyFloat x) w = py_num_eq (PyFloat x) w"
  by pat_completeness auto
termination
proof (relation "measure (\<lambda>(v, w). size v)", goal_cases)
  case (2 xs w ys z x y)
  then have "x \<in> set xs" by (auto dest: set_zip_leftD)
  then have "size x \<le> size_list size xs" by (rule size_list_estimation') simp
  then show ?case by simp
next
  case (3 xs w ys z x y)
  then have "x \<in> set xs" by (auto dest: set_zip_leftD)
  then have "size x \<le> size_list size xs" by (rule size_list_estimation') simp
  then show ?case by simp
qed (auto dest!: size_list_estimation' [where f = "size_prod (\<lambda>_. 0) size", OF _ order_refl])

fun py_truth :: "pyval \<Rightarrow> bool" where
  "py_truth PyNone = False"
| "py_truth (PyBool b) = b"
| "py_truth (PyInt i) = (i \<noteq> 0)"
| "py_truth (PyFloat x) = (\<not> f64_is_zero x)"
| "py_truth (PyStr s) = (s \<noteq> [])"
| "py_truth (PyBytes b) = (b \<noteq> [])"
| "py_truth (PyTuple vs) = (vs \<noteq> [])"
| "py_truth (PyList vs) = (vs \<noteq> [])"
| "py_truth (PyDict d) = (d \<noteq> [])"

text \<open>\<open>value in (None, "", [], {})\<close>.\<close>

definition py_blank :: "pyval \<Rightarrow> bool" where
  "py_blank v \<longleftrightarrow> v \<in> {PyNone, PyStr [], PyList [], PyDict []}"

text \<open>\<open>str(v)\<close>; the text of a float, of bytes and of containers is the parameter.\<close>

definition py_str :: "(pyval \<Rightarrow> string) \<Rightarrow> pyval \<Rightarrow> string" where
  "py_str repr_other v = (case v of PyStr s \<Rightarrow> s | PyInt i \<Rightarrow> show_int i
     | PyBool b \<Rightarrow> (if b then ''True'' else ''False'') | PyNone \<Rightarrow> ''None'' | _ \<Rightarrow> repr_other v)"

end
