(* ===== verification/Schemas.thy ===== *)
theory Schemas imports PyFloat begin

text \<open>
  The event and flow records of core/packet\_engine/schemas.py: \<open>PacketEvent\<close>, and
  \<open>FlowAggregate.update\<close>, which folds one packet into the bounded samples, the per-second timeline
  and the layer-7 metadata of its flow.  \<open>int(timestamp)\<close> raises on a NaN or an infinity after the
  counters have moved, so the operation returns the next state beside its result.
\<close>

type_synonym info = "(string, pyval) dict"

record packet_event =
  pe_timestamp :: f64
  src_ip :: string
  dst_ip :: string
  src_port :: int
  dst_port :: int
  protocol :: string
  pe_size :: int
  pe_flags :: string
  l7_info :: info
  raw :: "bytes option"
  pe_interface :: string
  session_id :: "string option"
  source_type :: string
  backend :: string
  link_type :: string
  sensor_node_id :: "string option"
  event_source :: "string option"

text \<open>\<open>text or default\<close>, for text that may also be \<open>None\<close>.\<close>

definition or_text :: "string option \<Rightarrow> string \<Rightarrow> string" where
  "or_text v d = (case v of Some s \<Rightarrow> if s = [] then d else s | None \<Rightarrow> d)"

record flow_aggregate =
  fa_start_time :: f64
  fa_last_seen :: f64
  fa_packet_count :: int
  fa_byte_count :: int
  packet_sizes :: "int list"
  arrival_times :: "f64 list"
  timeline_buckets :: "(int, int \<times> int) dict"
  l7_metadata :: info
  raw_packets :: "bytes list"
  tcp_syn_count :: int
  tcp_syn_ack_count :: int
  tcp_rst_count :: int

definition flow_aggregate_init :: "f64 \<Rightarrow> f64 \<Rightarrow> flow_aggregate" where
  "flow_aggregate_init start seen = \<lparr>fa_start_time = start, fa_last_seen = seen, fa_packet_count = 0,
     fa_byte_count = 0, packet_sizes = [], arrival_times = [], timeline_buckets = [], l7_metadata = [],
     raw_packets = [], tcp_syn_count = 0, tcp_syn_ack_count = 0, tcp_rst_count = 0\<rparr>"

definition REPLACE_METADATA_KEYS :: "string list" where
  "REPLACE_METADATA_KEYS = [
     ''conversation_direction'', ''initiator_ip'', ''initiator_port'', ''responder_ip'',
     ''responder_port'', ''reverse_byte_count'', ''reverse_packet_count'',
     ''conversation_established'', ''conversation_syn_count'', ''conversation_syn_ack_count'',
     ''conversation_rst_count'', ''conversation_to_responder_bytes'',
     ''conversation_to_initiator_bytes'', ''conversation_to_responder_packets'',
     ''conversation_to_initiator_packets'', ''outbound_bytes_p99'']"

definition OR_METADATA_KEYS :: "string list" where
  "OR_METADATA_KEYS = [
     ''peer_novelty'', ''intel_match'', ''protocol_corroboration'', ''auth_failure'',
     ''role_policy_violation'']"

section \<open>Metadata\<close>

definition as_list :: "pyval \<Rightarrow> pyval list" where
  "as_list v = (case v of PyList vs \<Rightarrow> vs | _ \<Rightarrow> [v])"

definition append_new :: "pyval list \<Rightarrow> pyval \<Rightarrow> pyval list" where
  "append_new vs v = (if list_ex (py_eq v) vs then vs else vs @ [v])"

text \<open>One key of \<open>l7_info\<close>: the five branches of the loop body.\<close>

definition merge_metadata :: "info \<Rightarrow> string \<times> pyval \<Rightarrow> info" where
  "merge_metadata m kv = (case kv of (k, v) \<Rightarrow>
     (if k \<in> set OR_METADATA_KEYS then
        dict_set m k (PyBool ((case dict_get m k of Some w \<Rightarrow> py_truth w | None \<Rightarrow> False) \<or> py_truth v))
      else if k \<in> set REPLACE_METADATA_KEYS then dict_set m k v
      else (case dict_get m k of
          None \<Rightarrow> dict_set m k v
        | Some w \<Rightarrow>
            (case v of
               PyList vs \<Rightarrow> if vs = [] then m else dict_set m k (PyList (foldl append_new (as_list w) vs))
             | _ \<Rightarrow> if py_eq v w then m else dict_set m k (PyList (append_new (as_list w) v))))))"

section \<open>The update\<close>

definition capped :: "nat \<Rightarrow> 'a list \<Rightarrow> 'a \<Rightarrow> 'a list" where
  "capped n xs x = (if length xs < n then xs @ [x] else xs)"

definition bump_bucket :: "(int, int \<times> int) dict \<Rightarrow> int \<Rightarrow> int \<Rightarrow> (int, int \<times> int) dict" where
  "bump_bucket buckets bucket nbytes =
     (let (p, b) = (case dict_get buckets bucket of Some s \<Rightarrow> s | None \<Rightarrow> (0, 0));
          buckets' = dict_set buckets bucket (p + 1, b + nbytes)
      in if length buckets' > 120 then dict_pop buckets' (Min (set (dict_keys buckets'))) else buckets')"

definition count_flags :: "string option \<Rightarrow> flow_aggregate \<Rightarrow> flow_aggregate" where
  "count_flags flags fa =
     (case flags of None \<Rightarrow> fa | Some fl \<Rightarrow>
        fa\<lparr>tcp_syn_count := tcp_syn_count fa + (if CHR ''S'' \<in> set fl \<and> CHR ''A'' \<notin> set fl then 1 else 0),
           tcp_syn_ack_count := tcp_syn_ack_count fa + (if CHR ''S'' \<in> set fl \<and> CHR ''A'' \<in> set fl then 1 else 0),
           tcp_rst_count := tcp_rst_count fa + (if CHR ''R'' \<in> set fl then 1 else 0)\<rparr>)"

definition flow_update ::
  "flow_aggregate \<Rightarrow> int \<Rightarrow> f64 \<Rightarrow> string option \<Rightarrow> info option \<Rightarrow> bytes option \<Rightarrow> flow_aggregate \<times> unit result" where
  "flow_update fa nbytes timestamp flags info raw_bytes =
     (let fa1 = fa\<lparr>fa_packet_count := fa_packet_count fa + 1,
                   fa_byte_count := fa_byte_count fa + nbytes,
                   packet_sizes := capped 500 (packet_sizes fa) nbytes,
                   arrival_times := capped 500 (arrival_times fa) timestamp,
                   fa_last_seen := timestamp\<rparr>
      in case f64_to_int timestamp of
           Inl e \<Rightarrow> (fa1, Inl e)
         | Inr bucket \<Rightarrow>
             let fa2 = fa1\<lparr>timeline_buckets := bump_bucket (timeline_buckets fa1) bucket nbytes\<rparr>;
                 fa3 = (case raw_bytes of
                          Some r \<Rightarrow> if r \<noteq> [] then fa2\<lparr>raw_packets := capped 100 (raw_packets fa2) r\<rparr> else fa2
                        | None \<Rightarrow> fa2);
                 fa4 = count_flags flags fa3
             in (fa4\<lparr>l7_metadata := foldl merge_metadata (l7_metadata fa4) (case info of Some d \<Rightarrow> d | None \<Rightarrow> [])\<rparr>,
                 Inr ()))"

section \<open>Bounds\<close>

definition flow_bounded :: "flow_aggregate \<Rightarrow> bool" where
  "flow_bounded fa \<longleftrightarrow> length (packet_sizes fa) \<le> 500 \<and> length (arrival_times fa) \<le> 500 \<and>
     length (raw_packets fa) \<le> 100 \<and> length (timeline_buckets fa) \<le> 120 \<and> dict_ok (timeline_buckets fa) \<and>
     int (length (packet_sizes fa)) \<le> fa_packet_count fa \<and> length (arrival_times fa) = length (packet_sizes fa)"

lemma flow_bounded_init: "flow_bounded (flow_aggregate_init s l)"
  by (simp add: flow_bounded_def flow_aggregate_init_def)

lemma length_capped: "length xs \<le> n \<Longrightarrow> length (capped n xs x) \<le> n"
  by (simp add: capped_def)

lemma length_capped_cases: "length (capped n xs x) = (if length xs < n then Suc (length xs) else length xs)"
  by (simp add: capped_def)

lemma bump_bucket_bounded:
  assumes "length d \<le> 120" and "dict_ok d"
  shows "length (bump_bucket d k s) \<le> 120 \<and> dict_ok (bump_bucket d k s)"
proof -
  obtain p b where pb: "(case dict_get d k of Some s \<Rightarrow> s | None \<Rightarrow> (0, 0)) = (p, b)" by fastforce
  let ?d = "dict_set d k (p + 1, b + s)"
  have l: "length ?d \<le> 121" using assms(1) by (simp add: length_dict_set)
  have ok: "dict_ok ?d" using assms(2) by simp
  have ne: "set (dict_keys ?d) \<noteq> {}" using dict_set_keys [of d k] by simp
  have m: "Min (set (dict_keys ?d)) \<in> fst ` set ?d" using Min_in [OF _ ne] by simp
  show ?thesis
    using l ok m by (auto simp: bump_bucket_def pb Let_def length_dict_pop)
qed

text \<open>What a merge may do to the keys: it only ever adds the key it merges.\<close>

lemma merge_metadata_cases: "merge_metadata m kv = m \<or> (\<exists>w. merge_metadata m kv = dict_set m (fst kv) w)"
proof -
  obtain k v where kv: "kv = (k, v)" by fastforce
  show ?thesis
  proof (cases "dict_get m k")
    case None
    then show ?thesis by (auto simp: kv merge_metadata_def)
  next
    case (Some w)
    then show ?thesis by (cases v) (auto simp: kv merge_metadata_def simp del: dict_get.simps)
  qed
qed

lemma merge_metadata_keys: "fst ` set m \<subseteq> fst ` set (merge_metadata m kv) \<and>
    fst ` set (merge_metadata m kv) \<subseteq> insert (fst kv) (fst ` set m)"
  using merge_metadata_cases [of m kv]
proof
  assume "\<exists>w. merge_metadata m kv = dict_set m (fst kv) w"
  then obtain w where w: "merge_metadata m kv = dict_set m (fst kv) w" by blast
  show ?thesis unfolding w dict_set_keys by blast
qed auto

lemma merge_metadata_ok: "dict_ok m \<Longrightarrow> dict_ok (merge_metadata m kv)"
  using merge_metadata_cases [of m kv] by auto

lemma merge_metadata_other: "k \<noteq> fst kv \<Longrightarrow> dict_get (merge_metadata m kv) k = dict_get m k"
  using merge_metadata_cases [of m kv] by (auto simp: dict_simps)

text \<open>The flags that corroborate evidence are never cleared once set.\<close>

lemma merge_metadata_or_sticky:
  assumes "k \<in> set OR_METADATA_KEYS" and "dict_get m k = Some w" and "py_truth w"
  shows "\<exists>w'. dict_get (merge_metadata m kv) k = Some w' \<and> py_truth w'"
proof (cases "fst kv = k")
  case True
  with assms show ?thesis by (cases kv) (auto simp: merge_metadata_def dict_simps)
next
  case False
  with assms merge_metadata_other [of k kv m] show ?thesis by auto
qed

lemma merge_metadata_fold_sticky:
  assumes "k \<in> set OR_METADATA_KEYS"
  shows "dict_get m k = Some w \<Longrightarrow> py_truth w \<Longrightarrow> \<exists>w'. dict_get (foldl merge_metadata m kvs) k = Some w' \<and> py_truth w'"
proof (induction kvs arbitrary: m w)
  case (Cons kv kvs)
  from merge_metadata_or_sticky [OF assms Cons.prems, of kv] obtain w' where
    "dict_get (merge_metadata m kv) k = Some w'" "py_truth w'" by blast
  from Cons.IH [OF this] show ?case by simp
qed auto

lemma count_flags_bounded: "flow_bounded (count_flags fl fa) = flow_bounded fa"
  by (auto simp: count_flags_def flow_bounded_def split: option.splits)

lemma flow_update_bounded_lemma:
  assumes "flow_bounded fa"
  shows "flow_bounded (fst (flow_update fa nbytes timestamp flags info raw_bytes))"
proof (cases "f64_to_int timestamp")
  case (Inl e)
  with assms show ?thesis
    by (auto simp: flow_update_def flow_bounded_def Let_def length_capped_cases)
next
  case (Inr bucket)
  with assms show ?thesis
    using bump_bucket_bounded [of "timeline_buckets fa" bucket nbytes]
    by (auto simp: flow_update_def flow_bounded_def Let_def length_capped_cases count_flags_def split: option.splits)
qed

end
