(* ===== verification/StreamValidator.thy ===== *)
theory StreamValidator imports DataDecoder Schemas begin

text \<open>
  The ordering rules of one analysis child, core/packet\_engine/rust\_analysis.py:
  \<open>AnalysisStreamValidator\<close> as a state machine over output frames, \<open>RustAnalysisChild\<close> around it,
  and \<open>work_item_to_packet_event\<close>.  The abstract machine has three phases; the concrete one is
  shown to simulate it, and the frame sequences it accepts are characterised exactly.
\<close>

unbundle bit_operations_syntax

section \<open>Work items as packet events\<close>

record packet_origin =
  og_device_id :: "string option"
  og_session_id :: "string option"
  og_source_type :: "string option"
  og_sensor_node_id :: "string option"
  og_source :: "string option"

definition protocol_name :: "int \<Rightarrow> string" where
  "protocol_name p = (case map_of [(1, ''ICMP''), (6, ''TCP''), (17, ''UDP''), (58, ''ICMPV6''), (254, ''ARP'')] p of
     Some n \<Rightarrow> n | None \<Rightarrow> ''IP-'' @ show_int p)"

definition flag_letters :: "int \<Rightarrow> string" where
  "flag_letters fl = concat (map (\<lambda>(mask, name). if fl AND mask \<noteq> 0 then name else [])
     [(0x02, ''S''), (0x10, ''A''), (0x01, ''F''), (0x04, ''R''), (0x08, ''P''), (0x20, ''U'')])"

definition work_item_to_packet_event :: "work_item \<Rightarrow> packet_origin \<Rightarrow> string \<Rightarrow> packet_event" where
  "work_item_to_packet_event item origin link =
     (let conversation = wi_conversation_snapshot item in
      \<lparr>pe_timestamp = wi_timestamp item,
       src_ip = address (flow_source (wi_flow item)),
       dst_ip = address (flow_destination (wi_flow item)),
       src_port = source_port (wi_flow item),
       dst_port = destination_port (wi_flow item),
       protocol = protocol_name (flow_protocol (wi_flow item)),
       pe_size = wi_size item,
       pe_flags = flag_letters (tcp_flags item),
       l7_info = [
         (''rust_flow_id'', PyInt (flow_id (wi_flow item))),
         (''rust_conversation_id'', PyInt (conversation_id (wi_conversation item))),
         (''conversation_direction'', PyStr (direction item)),
         (''initiator_ip'', PyStr (address (initiator (wi_conversation item)))),
         (''initiator_port'', PyInt (initiator_port (wi_conversation item))),
         (''responder_ip'', PyStr (address (responder (wi_conversation item)))),
         (''responder_port'', PyInt (responder_port (wi_conversation item))),
         (''conversation_established'', PyBool (cs_established conversation)),
         (''conversation_syn_count'', PyInt (cs_syn_count conversation)),
         (''conversation_syn_ack_count'', PyInt (cs_syn_ack_count conversation)),
         (''conversation_rst_count'', PyInt (cs_rst_count conversation)),
         (''conversation_to_responder_packets'', PyInt (cs_to_responder_packets conversation)),
         (''conversation_to_responder_bytes'', PyInt (cs_to_responder_bytes conversation)),
         (''conversation_to_initiator_packets'', PyInt (cs_to_initiator_packets conversation)),
         (''conversation_to_initiator_bytes'', PyInt (cs_to_initiator_bytes conversation))],
       raw = (if raw_frame item = [] then None else Some (raw_frame item)),
       pe_interface = or_text (og_device_id origin) ''pcap'',
       session_id = og_session_id origin,
       source_type = or_text (og_source_type origin) ''network'',
       backend = ''rust'',
       link_type = link,
       sensor_node_id = og_sensor_node_id origin,
       event_source = og_source origin\<rparr>)"

section \<open>The validator\<close>

definition ANALYSIS_CAPABILITY_V1 :: int where
  "ANALYSIS_CAPABILITY_V1 =
     push_bit (nat FRAME_ANALYSIS_HELLO) 1 OR push_bit (nat FRAME_ANALYSIS_WORK) 1 OR push_bit (nat FRAME_ANALYSIS_FLOW) 1
       OR push_bit (nat FRAME_ANALYSIS_CONVERSATION) 1 OR push_bit (nat FRAME_ANALYSIS_STREAM) 1
       OR push_bit (nat FRAME_ANALYSIS_END) 1 OR push_bit (nat FRAME_ANALYSIS_ERROR) 1"

record stream_validator =
  sv_plan :: analysis_plan
  sv_hello :: "analysis_hello option"
  sv_end :: "analysis_end option"

definition validator_init :: "analysis_plan \<Rightarrow> stream_validator result" where
  "validator_init plan =
     bindE (encode_analysis_plan plan) (\<lambda>payload.
     bindE (decode_analysis_plan payload) (\<lambda>p.
     Inr \<lparr>sv_plan = p, sv_hello = None, sv_end = None\<rparr>))"

definition output_kinds :: "int list" where
  "output_kinds = [FRAME_ANALYSIS_WORK, FRAME_ANALYSIS_FLOW, FRAME_ANALYSIS_CONVERSATION, FRAME_ANALYSIS_STREAM,
     FRAME_ANALYSIS_END, FRAME_ANALYSIS_ERROR, FRAME_ANALYSIS_PACKET_INDEX]"

definition validator_accept :: "stream_validator \<Rightarrow> int \<Rightarrow> bytes \<Rightarrow> stream_validator result" where
  "validator_accept v frame_kind payload =
     (case sv_hello v of
        None \<Rightarrow>
          if frame_kind \<noteq> FRAME_ANALYSIS_HELLO then protocol_error ''first output frame must be analysis hello''
          else
            bindE (decode_analysis_hello payload) (\<lambda>hello.
            bindE (guardE (hello_plan_sha256 hello = plan_sha256 (sv_plan v))
               (AnalysisProtocolError ''analysis hello plan digest mismatch'')) (\<lambda>_.
            bindE (guardE (capability_bits hello AND ANALYSIS_CAPABILITY_V1 = ANALYSIS_CAPABILITY_V1)
               (AnalysisProtocolError ''analysis hello lacks required capability bits'')) (\<lambda>_.
            Inr (v\<lparr>sv_hello := Some hello\<rparr>))))
      | Some _ \<Rightarrow>
          if frame_kind = FRAME_ANALYSIS_HELLO then protocol_error ''analysis hello may appear only once''
          else if sv_end v \<noteq> None then protocol_error ''analysis output appeared after terminal certificate''
          else if frame_kind \<notin> set output_kinds
            then protocol_error (''unsupported analysis output frame: '' @ show_int frame_kind)
          else if frame_kind = FRAME_ANALYSIS_END then
            bindE (decode_analysis_end payload) (\<lambda>e.
            bindE (guardE (end_plan_sha256 e = plan_sha256 (sv_plan v))
               (AnalysisProtocolError ''analysis terminal certificate plan digest mismatch'')) (\<lambda>_.
            Inr (v\<lparr>sv_end := Some e\<rparr>)))
          else Inr v)"

definition validator_finish :: "stream_validator \<Rightarrow> int \<Rightarrow> analysis_end result" where
  "validator_finish v exit_code =
     (if sv_hello v = None then protocol_error ''analysis child ended before handshake''
      else case sv_end v of
        None \<Rightarrow> protocol_error ''analysis child ended without a terminal certificate''
      | Some e \<Rightarrow>
          if exit_code \<noteq> 0 then protocol_error (''analysis child exited with code '' @ show_int exit_code) else Inr e)"

text \<open>A whole run: the frames of one child in order, then its exit code.\<close>

definition validator_run :: "stream_validator \<Rightarrow> (int \<times> bytes) list \<Rightarrow> stream_validator result" where
  "validator_run v frames = foldE (\<lambda>v (kind, payload). validator_accept v kind payload) v frames"

section \<open>The abstract machine\<close>

datatype phase = Awaiting | Streaming | Ended

definition data_kinds :: "int list" where
  "data_kinds = [FRAME_ANALYSIS_WORK, FRAME_ANALYSIS_FLOW, FRAME_ANALYSIS_CONVERSATION, FRAME_ANALYSIS_STREAM,
     FRAME_ANALYSIS_ERROR, FRAME_ANALYSIS_PACKET_INDEX]"

inductive phase_step :: "phase \<Rightarrow> int \<Rightarrow> phase \<Rightarrow> bool" where
  hello: "phase_step Awaiting FRAME_ANALYSIS_HELLO Streaming"
| data: "k \<in> set data_kinds \<Longrightarrow> phase_step Streaming k Streaming"
| certificate: "phase_step Streaming FRAME_ANALYSIS_END Ended"

inductive_simps phase_step_simps [simp]: "phase_step Awaiting k p" "phase_step Streaming k p" "phase_step Ended k p"

inductive phase_run :: "phase \<Rightarrow> int list \<Rightarrow> phase \<Rightarrow> bool" where
  stop: "phase_run p [] p"
| step: "phase_step p k q \<Longrightarrow> phase_run q ks r \<Longrightarrow> phase_run p (k # ks) r"

inductive_simps phase_run_simps: "phase_run p [] q" "phase_run p (k # ks) q"

definition phase_of :: "stream_validator \<Rightarrow> phase" where
  "phase_of v = (if sv_hello v = None then Awaiting else if sv_end v = None then Streaming else Ended)"

lemma phase_run_Ended: "phase_run Ended ks p \<longleftrightarrow> ks = [] \<and> p = Ended"
  by (cases ks) (auto simp: phase_run_simps)

lemma phase_run_Streaming:
  "phase_run Streaming ks p \<longleftrightarrow>
     (p = Streaming \<and> list_all (\<lambda>k. k \<in> set data_kinds) ks) \<or>
     (p = Ended \<and> (\<exists>ds. ks = ds @ [FRAME_ANALYSIS_END] \<and> list_all (\<lambda>k. k \<in> set data_kinds) ds))"
proof (induction ks)
  case (Cons k ks)
  have n: "FRAME_ANALYSIS_END \<notin> set data_kinds" by (simp add: data_kinds_def)
  show ?case
  proof (cases "k \<in> set data_kinds")
    case True
    with n have "k \<noteq> FRAME_ANALYSIS_END" by auto
    with True Cons.IH show ?thesis
      by (auto simp: phase_run_simps Cons_eq_append_conv)
  next
    case False
    then show ?thesis
      by (auto simp: phase_run_simps phase_run_Ended Cons_eq_append_conv)
  qed
qed (auto simp: phase_run_simps)

lemma phase_run_Awaiting:
  "phase_run Awaiting ks Ended \<longleftrightarrow>
     (\<exists>ds. ks = FRAME_ANALYSIS_HELLO # ds @ [FRAME_ANALYSIS_END] \<and> list_all (\<lambda>k. k \<in> set data_kinds) ds)"
  by (cases ks) (auto simp: phase_run_simps phase_run_Streaming)

section \<open>The validator simulates the abstract machine\<close>

lemma output_kinds_split: "k \<in> set output_kinds \<longleftrightarrow> k = FRAME_ANALYSIS_END \<or> k \<in> set data_kinds"
  by (auto simp: output_kinds_def data_kinds_def)

lemma data_kinds_not [simp]: "FRAME_ANALYSIS_HELLO \<notin> set data_kinds" "FRAME_ANALYSIS_END \<notin> set data_kinds"
  by (simp_all add: data_kinds_def)

definition hello_matches :: "analysis_plan \<Rightarrow> bytes \<Rightarrow> analysis_hello \<Rightarrow> bool" where
  "hello_matches plan payload h \<longleftrightarrow> decode_analysis_hello payload = Inr h \<and> hello_plan_sha256 h = plan_sha256 plan \<and>
     capability_bits h AND ANALYSIS_CAPABILITY_V1 = ANALYSIS_CAPABILITY_V1"

definition end_matches :: "analysis_plan \<Rightarrow> bytes \<Rightarrow> analysis_end \<Rightarrow> bool" where
  "end_matches plan payload e \<longleftrightarrow> decode_analysis_end payload = Inr e \<and> end_plan_sha256 e = plan_sha256 plan"

lemma accept_Inr: "validator_accept v k p = Inr v' \<longleftrightarrow>
   (sv_hello v = None \<and> k = FRAME_ANALYSIS_HELLO \<and> (\<exists>h. hello_matches (sv_plan v) p h \<and> v' = v\<lparr>sv_hello := Some h\<rparr>)) \<or>
   (sv_hello v \<noteq> None \<and> sv_end v = None \<and> k \<in> set data_kinds \<and> v' = v) \<or>
   (sv_hello v \<noteq> None \<and> sv_end v = None \<and> k = FRAME_ANALYSIS_END \<and> (\<exists>e. end_matches (sv_plan v) p e \<and> v' = v\<lparr>sv_end := Some e\<rparr>))"
proof (cases "sv_hello v")
  case None
  then show ?thesis
    by (auto simp: validator_accept_def hello_matches_def bindE_Inr guardE_Inr)
next
  case (Some h)
  then show ?thesis
    using data_kinds_not
    by (auto simp: validator_accept_def end_matches_def bindE_Inr guardE_Inr output_kinds_split)
qed

lemma accept_plan: "validator_accept v k p = Inr v' \<Longrightarrow> sv_plan v' = sv_plan v"
  by (auto simp: accept_Inr)

lemma accept_simulates:
  assumes "sv_hello v = None \<longrightarrow> sv_end v = None" and "validator_accept v k p = Inr v'"
  shows "phase_step (phase_of v) k (phase_of v') \<and> (sv_hello v' = None \<longrightarrow> sv_end v' = None)"
  using assms by (auto simp: accept_Inr phase_of_def)

lemma run_Nil: "validator_run v [] = Inr v' \<longleftrightarrow> v' = v"
  by (auto simp: validator_run_def)

lemma run_Cons: "validator_run v ((k, p) # fs) = Inr v' \<longleftrightarrow> (\<exists>w. validator_accept v k p = Inr w \<and> validator_run w fs = Inr v')"
  by (simp add: validator_run_def bindE_Inr)

lemma run_simulates:
  "validator_run v fs = Inr v' \<Longrightarrow> sv_hello v = None \<longrightarrow> sv_end v = None \<Longrightarrow> phase_run (phase_of v) (map fst fs) (phase_of v')"
proof (induction fs arbitrary: v)
  case Nil
  then show ?case by (simp add: validator_run_def phase_run_simps)
next
  case (Cons f fs)
  obtain k p where f: "f = (k, p)" by fastforce
  from Cons.prems(1) obtain w where w: "validator_accept v k p = Inr w" "validator_run w fs = Inr v'"
    unfolding f run_Cons by blast
  from accept_simulates [OF Cons.prems(2) w(1)] Cons.IH [OF w(2)] show ?case
    unfolding f by (auto intro: phase_run.step)
qed

text \<open>The frames after the handshake: any data frames, then at most one matching certificate.\<close>

lemma run_streaming:
  assumes "sv_hello v = Some h" and "sv_end v = None"
  shows "validator_run v fs = Inr v' \<longleftrightarrow>
    (list_all (\<lambda>f. fst f \<in> set data_kinds) fs \<and> v' = v) \<or>
    (\<exists>ds p e. fs = ds @ [(FRAME_ANALYSIS_END, p)] \<and> list_all (\<lambda>f. fst f \<in> set data_kinds) ds \<and>
       end_matches (sv_plan v) p e \<and> v' = v\<lparr>sv_end := Some e\<rparr>)"
proof (induction fs)
  case Nil
  show ?case by (auto simp: validator_run_def)
next
  case (Cons f fs)
  obtain k p where f: "f = (k, p)" by fastforce
  have ended: "validator_run w fs = Inr v' \<longleftrightarrow> fs = [] \<and> v' = w" if "sv_hello w = Some h" "sv_end w = Some e" for w e
  proof (cases fs)
    case (Cons g gs)
    then show ?thesis using that by (cases g) (simp add: run_Cons accept_Inr)
  qed (auto simp: validator_run_def)
  show ?case
  proof (cases "k \<in> set data_kinds")
    case True
    then have "k \<noteq> FRAME_ANALYSIS_END" by auto
    with True assms Cons.IH show ?thesis unfolding f run_Cons by (auto simp: accept_Inr Cons_eq_append_conv)
  next
    case False
    with assms show ?thesis
      unfolding f run_Cons by (auto simp: accept_Inr Cons_eq_append_conv ended run_Nil)
  qed
qed

lemma run_complete:
  assumes "sv_hello v = None" and "sv_end v = None"
  shows "(\<exists>v'. validator_run v fs = Inr v' \<and> validator_finish v' code = Inr e) \<longleftrightarrow>
    code = 0 \<and> (\<exists>hp h ds ep. fs = (FRAME_ANALYSIS_HELLO, hp) # ds @ [(FRAME_ANALYSIS_END, ep)] \<and>
       list_all (\<lambda>f. fst f \<in> set data_kinds) ds \<and> hello_matches (sv_plan v) hp h \<and> end_matches (sv_plan v) ep e)"
  (is "?L \<longleftrightarrow> ?R")
proof
  assume ?L
  then obtain v' where r: "validator_run v fs = Inr v'" and f: "validator_finish v' code = Inr e" by blast
  then have h: "sv_hello v' \<noteq> None" "sv_end v' = Some e" "code = 0"
    by (auto simp: validator_finish_def split: if_splits option.splits)
  then obtain k p gs where fs: "fs = (k, p) # gs"
    using r assms by (cases fs) (auto simp: validator_run_def)
  from r [unfolded fs run_Cons] obtain hl where a: "k = FRAME_ANALYSIS_HELLO" "hello_matches (sv_plan v) p hl"
    and g: "validator_run (v\<lparr>sv_hello := Some hl\<rparr>) gs = Inr v'"
    using assms by (auto simp: accept_Inr)
  have "\<exists>ds ep e'. gs = ds @ [(FRAME_ANALYSIS_END, ep)] \<and> list_all (\<lambda>f. fst f \<in> set data_kinds) ds \<and>
       end_matches (sv_plan v) ep e' \<and> v' = v\<lparr>sv_hello := Some hl, sv_end := Some e'\<rparr>"
    using g h assms run_streaming [of "v\<lparr>sv_hello := Some hl\<rparr>" hl gs v'] by auto
  then show ?R using a h fs by auto
next
  assume ?R
  then obtain hp hl ds ep where r: "code = 0" "fs = (FRAME_ANALYSIS_HELLO, hp) # ds @ [(FRAME_ANALYSIS_END, ep)]"
    "list_all (\<lambda>f. fst f \<in> set data_kinds) ds" "hello_matches (sv_plan v) hp hl" "end_matches (sv_plan v) ep e" by blast
  have "validator_run (v\<lparr>sv_hello := Some hl\<rparr>) (ds @ [(FRAME_ANALYSIS_END, ep)]) = Inr (v\<lparr>sv_hello := Some hl, sv_end := Some e\<rparr>)"
    using r assms run_streaming [of "v\<lparr>sv_hello := Some hl\<rparr>" hl "ds @ [(FRAME_ANALYSIS_END, ep)]"] by auto
  then have "validator_run v fs = Inr (v\<lparr>sv_hello := Some hl, sv_end := Some e\<rparr>)"
    unfolding r(2) run_Cons using r assms by (auto simp: accept_Inr)
  moreover have "validator_finish (v\<lparr>sv_hello := Some hl, sv_end := Some e\<rparr>) code = Inr e"
    using r by (simp add: validator_finish_def)
  ultimately show ?L by blast
qed

section \<open>The child process\<close>

text \<open>
  The process is outside the code.  Its fields say how it behaves towards the guard: whether it
  exposes its pipes, whether \<open>poll()\<close> finds it running, whether it ends within the timeout once it has
  been asked to terminate, and whether a write to its pipe breaks.  The three calls the guard makes on
  it act on the process as documented for \<open>subprocess\<close>: \<open>terminate\<close> may be ignored, \<open>kill\<close> may not,
  and \<open>wait(timeout)\<close> raises while the process runs.  What was done to it is recorded in
  \<open>proc_stdin\<close> and \<open>proc_signals\<close>.
\<close>

datatype signal = Terminate | Wait | Kill

record process =
  proc_has_pipes :: bool
  proc_running :: bool
  proc_heeds_terminate :: bool
  proc_write_error :: "py_error option"
  proc_stdin :: bytes
  proc_stdout :: stream
  proc_signals :: "signal list"

record analysis_child =
  ch_process :: process
  ch_plan :: analysis_plan
  ch_validator :: stream_validator
  ch_started :: bool
  ch_closed :: bool

definition process_terminate :: "process \<Rightarrow> process" where
  "process_terminate p = p\<lparr>proc_running := (proc_running p \<and> \<not> proc_heeds_terminate p), proc_signals := proc_signals p @ [Terminate]\<rparr>"

definition process_kill :: "process \<Rightarrow> process" where
  "process_kill p = p\<lparr>proc_running := False, proc_signals := proc_signals p @ [Kill]\<rparr>"

definition process_wait :: "process \<Rightarrow> process \<times> unit result" where
  "process_wait p = (p\<lparr>proc_signals := proc_signals p @ [Wait]\<rparr>, if proc_running p then Inl TimeoutExpired else Inr ())"

definition child_init :: "process \<Rightarrow> analysis_plan \<Rightarrow> analysis_child result" where
  "child_init proc plan =
     bindE (encode_analysis_plan plan) (\<lambda>payload.
     bindE (decode_analysis_plan payload) (\<lambda>p.
     bindE (validator_init p) (\<lambda>v.
     Inr \<lparr>ch_process = proc, ch_plan = p, ch_validator = v, ch_started = False, ch_closed = False\<rparr>)))"

text \<open>The last \<open>wait\<close>, without a timeout, follows \<open>kill\<close> and finds the process gone.\<close>

definition child_close :: "analysis_child \<Rightarrow> analysis_child" where
  "child_close c =
     (if ch_closed c then c
      else
        let c1 = c\<lparr>ch_closed := True\<rparr> in
        if proc_running (ch_process c1) then
          (case process_wait (process_terminate (ch_process c1)) of
             (p, Inr _) \<Rightarrow> c1\<lparr>ch_process := p\<rparr>
           | (p, Inl _) \<Rightarrow> c1\<lparr>ch_process := fst (process_wait (process_kill p))\<rparr>)
        else c1)"

text \<open>The body of the \<open>try\<close>: the child as it stands when the exception leaves the block, or after it.\<close>

definition child_handshake :: "analysis_child \<Rightarrow> analysis_child \<times> unit result" where
  "child_handshake c =
     (case bindE (encode_analysis_plan (ch_plan c)) (\<lambda>p. encode_transport_frame FRAME_ANALYSIS_PLAN p) of
        Inl e \<Rightarrow> (c, Inl e)
      | Inr frame \<Rightarrow>
     (case proc_write_error (ch_process c) of
        Some e \<Rightarrow> (c, Inl e)
      | None \<Rightarrow>
     let c1 = c\<lparr>ch_process := (ch_process c)\<lparr>proc_stdin := proc_stdin (ch_process c) @ frame\<rparr>\<rparr> in
     (case read_transport_frame (proc_stdout (ch_process c1)) of
        Inl e \<Rightarrow> (c1, Inl e)
      | Inr ((kind, payload), rest) \<Rightarrow>
     let c2 = c1\<lparr>ch_process := (ch_process c1)\<lparr>proc_stdout := rest\<rparr>\<rparr> in
     (case validator_accept (ch_validator c2) kind payload of
        Inl e \<Rightarrow> (c2, Inl e)
      | Inr v \<Rightarrow> (c2\<lparr>ch_validator := v, ch_started := True\<rparr>, Inr ())))))"

definition child_start :: "analysis_child \<Rightarrow> analysis_child \<times> analysis_hello option result" where
  "child_start c =
     (if ch_closed c then (c, protocol_error ''analysis child is already closed'')
      else if ch_started c then (c, Inr (sv_hello (ch_validator c)))
      else if \<not> proc_has_pipes (ch_process c) then (c, protocol_error ''analysis child must expose stdin and stdout'')
      else case child_handshake c of
        (c', Inr _) \<Rightarrow> (c', Inr (sv_hello (ch_validator c')))
      | (c', Inl e) \<Rightarrow> (child_close c', Inl e))"

lemma child_close_idem: "child_close (child_close c) = child_close c"
  by (simp add: child_close_def Let_def process_wait_def split: prod.split)

lemma child_close_fields:
  "ch_closed (child_close c)" "ch_plan (child_close c) = ch_plan c" "ch_validator (child_close c) = ch_validator c"
  "ch_started (child_close c) = ch_started c" "proc_stdin (ch_process (child_close c)) = proc_stdin (ch_process c)"
  by (auto simp: child_close_def Let_def process_wait_def process_terminate_def process_kill_def)

text \<open>
  What \<open>close\<close> does to the process: nothing when it has ended; otherwise it is asked to terminate, and
  killed exactly when that did not help.  In every case it has ended afterwards.
\<close>

definition close_signals :: "process \<Rightarrow> signal list" where
  "close_signals p = (if \<not> proc_running p then [] else if proc_heeds_terminate p then [Terminate, Wait] else [Terminate, Wait, Kill, Wait])"

definition ended :: "process \<Rightarrow> process \<Rightarrow> bool" where
  "ended p p' \<longleftrightarrow> \<not> proc_running p' \<and> proc_signals p' = proc_signals p @ close_signals p"

lemma child_close_ends: "\<not> ch_closed c \<Longrightarrow> ended (ch_process c) (ch_process (child_close c))"
  by (simp add: child_close_def Let_def process_wait_def process_terminate_def process_kill_def ended_def close_signals_def)

text \<open>The handshake writes the plan frame once and reads one frame.\<close>

definition plan_frame :: "analysis_plan \<Rightarrow> bytes result" where
  "plan_frame plan = bindE (encode_analysis_plan plan) (\<lambda>p. encode_transport_frame FRAME_ANALYSIS_PLAN p)"

lemma handshake_cases:
  "child_handshake c = (c', Inr u) \<Longrightarrow> ch_started c' \<and> ch_plan c' = ch_plan c \<and>
     (\<exists>kind payload sent. validator_accept (ch_validator c) kind payload = Inr (ch_validator c') \<and>
        plan_frame (ch_plan c) = Inr sent \<and> proc_stdin (ch_process c') = proc_stdin (ch_process c) @ sent \<and>
        read_transport_frame (proc_stdout (ch_process c)) = Inr ((kind, payload), proc_stdout (ch_process c')))"
  "child_handshake c = (c', Inl e) \<Longrightarrow> ch_started c' = ch_started c \<and> ch_closed c' = ch_closed c \<and> ch_validator c' = ch_validator c \<and>
     ch_plan c' = ch_plan c \<and> close_signals (ch_process c') = close_signals (ch_process c) \<and>
     proc_signals (ch_process c') = proc_signals (ch_process c)"
  by (auto simp: child_handshake_def plan_frame_def close_signals_def Let_def split: sum.splits option.splits prod.splits)

text \<open>A failed start leaves no running child behind; a successful one has seen a matching hello.\<close>

definition child_ok :: "analysis_child \<Rightarrow> bool" where
  "child_ok c \<longleftrightarrow> sv_plan (ch_validator c) = ch_plan c \<and>
     (if ch_started c then \<exists>p h. sv_hello (ch_validator c) = Some h \<and> hello_matches (ch_plan c) p h
      else sv_hello (ch_validator c) = None)"

lemma child_init_ok: "child_init proc plan = Inr c \<Longrightarrow> child_ok c \<and> \<not> ch_started c \<and> \<not> ch_closed c"
proof -
  assume "child_init proc plan = Inr c"
  then obtain b p v where b: "encode_analysis_plan plan = Inr b" "decode_analysis_plan b = Inr p" "validator_init p = Inr v"
    and c: "c = \<lparr>ch_process = proc, ch_plan = p, ch_validator = v, ch_started = False, ch_closed = False\<rparr>"
    by (auto simp: child_init_def bindE_Inr)
  from b(2) have "encode_analysis_plan p = Inr b" by (simp add: decode_analysis_plan_Inr)
  then have "v = \<lparr>sv_plan = p, sv_hello = None, sv_end = None\<rparr>"
    using b(2,3) by (auto simp: validator_init_def)
  with c show ?thesis by (simp add: child_ok_def)
qed

lemma child_start_ok:
  assumes "child_ok c"
  shows "child_ok (fst (child_start c)) \<and>
    (case snd (child_start c) of
       Inl e \<Rightarrow> ch_closed c \<or> \<not> proc_has_pipes (ch_process c) \<or>
          (ch_closed (fst (child_start c)) \<and> ended (ch_process c) (ch_process (fst (child_start c))))
     | Inr h \<Rightarrow> \<exists>p hl. h = Some hl \<and> hello_matches (ch_plan c) p hl)"
proof (cases "ch_closed c \<or> ch_started c \<or> \<not> proc_has_pipes (ch_process c)")
  case True
  with assms show ?thesis by (auto simp: child_start_def child_ok_def)
next
  case False
  obtain c' r where h: "child_handshake c = (c', r)" by fastforce
  show ?thesis
  proof (cases r)
    case (Inl e)
    with handshake_cases(2) [of c c' e] h have hs: "ch_started c' = ch_started c" "ch_closed c' = ch_closed c" "ch_validator c' = ch_validator c"
      "ch_plan c' = ch_plan c" "close_signals (ch_process c') = close_signals (ch_process c)"
      "proc_signals (ch_process c') = proc_signals (ch_process c)"
      by auto
    have "ended (ch_process c) (ch_process (child_close c'))"
      using child_close_ends [of c'] False hs by (simp add: ended_def)
    with hs False h Inl assms show ?thesis
      by (simp add: child_start_def child_ok_def child_close_fields)
  next
    case (Inr u)
    with handshake_cases(1) [of c c' u] h obtain k p where hs: "ch_started c'" "ch_plan c' = ch_plan c"
      "validator_accept (ch_validator c) k p = Inr (ch_validator c')" by auto
    from assms False have n: "sv_hello (ch_validator c) = None" "sv_plan (ch_validator c) = ch_plan c"
      by (auto simp: child_ok_def)
    from hs(3) n obtain hl where "hello_matches (ch_plan c) p hl" "sv_hello (ch_validator c') = Some hl" "sv_plan (ch_validator c') = ch_plan c"
      by (auto simp: accept_Inr)
    with hs False h Inr show ?thesis by (auto simp: child_start_def child_ok_def)
  qed
qed

end
