(* ===== verification/CaptureCodec.thy ===== *)
theory CaptureCodec imports StreamValidator begin

text \<open>
  What the capture adapter decodes from the sensor, core/packet\_engine/rust\_capture.py:
  \<open>build_aggregate_analysis_plan\<close>, the live terminal certificate, event batches, and packet-index
  batches with the two routines that read them: \<open>decode_packet_index_batch\<close>, which builds rows, and
  \<open>validate_packet_index_batch\<close>, which only checks.  The lemmas show that whatever decodes also
  validates, with the same number of records.
\<close>

unbundle bit_operations_syntax

section \<open>Taking bytes\<close>

text \<open>\<open>if offset + n > len(view): raise e\<close> followed by a slice.\<close>

definition cap_take :: "py_error \<Rightarrow> nat \<Rightarrow> bytes rd" where
  "cap_take e n r =
     (if rd_offset r + n > length (rd_payload r) then Inl e
      else Inr (take n (drop (rd_offset r) (rd_payload r)), r\<lparr>rd_offset := rd_offset r + n\<rparr>))"

definition cap_finish :: "py_error \<Rightarrow> unit rd" where
  "cap_finish e r = (if rd_offset r \<noteq> length (rd_payload r) then Inl e else Inr ((), r))"

lemma cap_take_Inr: "cap_take e n r = Inr (b, r') \<longleftrightarrow>
   rd_offset r + n \<le> length (rd_payload r) \<and> b = take n (drop (rd_offset r) (rd_payload r)) \<and> r' = r\<lparr>rd_offset := rd_offset r + n\<rparr>"
  by (auto simp: cap_take_def)

lemma cap_take_split:
  "cap_take e (m + n) r = bindR (cap_take e m) (\<lambda>a. bindR (cap_take e n) (\<lambda>b. returnR (a @ b))) r"
  by (auto simp: cap_take_def bindR_def take_add ac_simps)

lemma cap_take_length: "cap_take e n r = Inr (b, r') \<Longrightarrow> length b = n"
  by (auto simp: cap_take_Inr)

abbreviation value_error :: "string \<Rightarrow> py_error" where
  "value_error \<equiv> ValueError"

section \<open>The aggregate plan\<close>

definition hex_value :: "char \<Rightarrow> nat option" where
  "hex_value c = (let n = (of_char c :: nat) in
     if 48 \<le> n \<and> n \<le> 57 then Some (n - 48)
     else if 97 \<le> n \<and> n \<le> 102 then Some (n - 87)
     else if 65 \<le> n \<and> n \<le> 70 then Some (n - 55) else None)"

text \<open>\<open>bytes.fromhex\<close>: pairs of digits, ASCII white space allowed between the pairs.\<close>

definition is_hex_space :: "char \<Rightarrow> bool" where
  "is_hex_space c \<longleftrightarrow> (of_char c :: nat) \<in> {9, 10, 11, 12, 13, 32}"

fun bytes_fromhex :: "string \<Rightarrow> bytes option" where
  "bytes_fromhex [] = Some []"
| "bytes_fromhex [c] = (if is_hex_space c then Some [] else None)"
| "bytes_fromhex (c # d # s) =
     (if is_hex_space c then bytes_fromhex (d # s)
      else case (hex_value c, hex_value d) of
        (Some h, Some l) \<Rightarrow> (case bytes_fromhex s of Some bs \<Rightarrow> Some (of_nat (16 * h + l) # bs) | None \<Rightarrow> None)
      | _ \<Rightarrow> None)"

definition tcp_stream_program :: "int \<Rightarrow> program_wire" where
  "tcp_stream_program n = \<lparr>pw_program_id = n, pw_candidate_mode = ''fast-v1'',
     pw_clauses = [\<lparr>cw_opcode = ''ip-protocol-in'', cw_values = [PyInt 6]\<rparr>,
                   \<lparr>cw_opcode = ''payload-minimum-length'', cw_values = [PyInt 1]\<rparr>]\<rparr>"

definition next_program_id :: "program_wire list \<Rightarrow> int" where
  "next_program_id programs = (if programs = [] then - 1 else Max (set (map pw_program_id programs))) + 1"

definition build_aggregate_analysis_plan ::
  "string \<Rightarrow> string \<Rightarrow> packet_origin \<Rightarrow> program_wire list \<Rightarrow> bool \<Rightarrow> analysis_plan result" where
  "build_aggregate_analysis_plan semantic_plugin_digest mode origin programs preserve_tcp_streams =
     (case bytes_fromhex semantic_plugin_digest of
        None \<Rightarrow> Inl (ValueError ''semantic plugin digest must be hexadecimal SHA-256'')
      | Some semantic_digest \<Rightarrow>
     bindE (guardE (length semantic_digest = 32) (ValueError ''semantic plugin digest must be hexadecimal SHA-256'')) (\<lambda>_.
     bindE (if preserve_tcp_streams
            then bindE (guardE (next_program_id programs < 64)
                   (ValueError ''aggregate selector plan has no slot for TCP stream preservation'')) (\<lambda>_.
                 Inr (programs @ [tcp_stream_program (next_program_id programs)]))
            else Inr programs) (\<lambda>wire_programs.
     Inr \<lparr>plan_sha256 = zeros 32, semantic_plugin_sha256 = semantic_digest, execution_mode = ''aggregate-v1'',
       analysis_mode = mode,
       plan_flags = ANALYSIS_FLAG_PACKET_INDEX OR ANALYSIS_FLAG_NATIVE_CONVERSATIONS OR ANALYSIS_FLAG_TERMINAL_METRICS,
       target_batch_bytes = 1024 * 1024, max_active_conversations = 100000, max_resume_conversations = 100000,
       max_directional_flows = 220000, max_endpoints = 440000, max_flow_samples = 500,
       max_flow_sample_bytes = 256 * 1024 * 1024, max_stream_segments = 10000, max_stream_bytes = 16 * 1024 * 1024,
       plan_source = or_text (og_source origin) ''pcap'',
       plan_session_id = or_text (og_session_id origin) ''rust-analysis'',
       plan_interface = or_text (og_device_id origin) ''pcap'',
       plan_sensor_node_id = or_text (og_sensor_node_id origin) ''local'',
       selector_programs = wire_programs\<rparr>)))"

section \<open>The live terminal certificate\<close>

text \<open>\<open>parsed\<close> is what the JSON parser made of the payload, \<open>None\<close> when it is not JSON text.\<close>

definition py_get :: "(string \<times> pyval) list \<Rightarrow> string \<Rightarrow> pyval" where
  "py_get d name = (case map_of d name of Some v \<Rightarrow> v | None \<Rightarrow> PyNone)"

definition terminal_counter :: "(string \<times> pyval) list \<Rightarrow> string \<Rightarrow> int result" where
  "terminal_counter d name = (case py_get d name of
     PyInt i \<Rightarrow> if i < 0 then Inl (ValueError (''Invalid Rust sensor terminal counter: '' @ name)) else Inr i
   | _ \<Rightarrow> Inl (ValueError (''Invalid Rust sensor terminal counter: '' @ name)))"

definition decode_terminal_certificate :: "pyval option \<Rightarrow> int \<Rightarrow> (string \<times> pyval) list result" where
  "decode_terminal_certificate parsed adapter_event_count =
     (case parsed of
        None \<Rightarrow> Inl (ValueError ''Invalid Rust sensor terminal certificate'')
      | Some v \<Rightarrow>
     (case v of
        PyDict d \<Rightarrow>
          bindE (guardE (py_get d ''status'' = PyStr ''stopped'') (ValueError ''Rust sensor did not certify a stopped capture'')) (\<lambda>_.
          bindE (terminal_counter d ''received_packets'') (\<lambda>received.
          bindE (terminal_counter d ''emitted_events'') (\<lambda>emitted.
          bindE (terminal_counter d ''flows'') (\<lambda>_.
          bindE (guardE (emitted = adapter_event_count)
             (ValueError ''Rust sensor terminal event count does not match delivered events'')) (\<lambda>_.
          bindE (guardE (emitted \<le> received) (ValueError ''Rust sensor terminal counters are inconsistent'')) (\<lambda>_.
          bindE (guardE (case py_get d ''link_type'' of PyStr s \<Rightarrow> s \<noteq> [] \<and> length s \<le> 32 | _ \<Rightarrow> False)
             (ValueError ''Invalid Rust sensor terminal link type'')) (\<lambda>_.
          Inr d)))))))
      | _ \<Rightarrow> Inl (ValueError ''Rust sensor did not certify a stopped capture'')))"

section \<open>Event batches\<close>

record event_origin =
  eo_device_id :: string
  eo_session_id :: "string option"
  eo_source_type :: string
  eo_link_type :: string
  eo_sensor_node_id :: "string option"
  eo_source :: "string option"

definition event_protocol :: "int \<Rightarrow> string" where
  "event_protocol p = (case map_of [(6, ''TCP''), (17, ''UDP''), (1, ''ICMP''), (58, ''ICMPV6''), (254, ''ARP'')] p of
     Some n \<Rightarrow> n | None \<Rightarrow> ''OTHER'')"

definition ascii_field :: "bytes \<Rightarrow> string rd" where
  "ascii_field b = liftR (decode_ascii b)"

definition decode_event :: "event_origin \<Rightarrow> packet_event rd" where
  "decode_event origin =
     bindR (cap_take (ValueError ''Truncated event header'') 9) (\<lambda>header.
     let src_len = unat (header ! 8) in
     bindR (cap_take (ValueError ''Truncated source address'') (src_len + 1)) (\<lambda>b.
     let dst_len = unat (b ! src_len) in
     bindR (ascii_field (take src_len b)) (\<lambda>src.
     bindR (cap_take (ValueError ''Truncated destination address'') (dst_len + 15)) (\<lambda>c.
     bindR (ascii_field (take dst_len c)) (\<lambda>dst.
     let f = drop dst_len c; raw_len = nat (be_int (take 4 (drop 11 f))) in
     bindR (cap_take (ValueError ''Truncated raw packet'') raw_len) (\<lambda>data.
     returnR \<lparr>pe_timestamp = unpack_d (take 8 header), src_ip = src, dst_ip = dst,
       src_port = be_int (take 2 f), dst_port = be_int (take 2 (drop 2 f)),
       protocol = event_protocol (uint (f ! 4)), pe_size = be_int (take 4 (drop 5 f)),
       pe_flags = flag_letters (be_int (take 2 (drop 9 f))), l7_info = [], raw = Some data,
       pe_interface = eo_device_id origin, session_id = eo_session_id origin,
       source_type = eo_source_type origin, backend = ''rust'', link_type = eo_link_type origin,
       sensor_node_id = eo_sensor_node_id origin, event_source = eo_source origin\<rparr>))))))"

definition decode_event_batch :: "bytes \<Rightarrow> event_origin \<Rightarrow> packet_event list result" where
  "decode_event_batch payload origin =
     bindE (bindR (cap_take (ValueError ''Truncated event batch'') 2) (\<lambda>n.
            bindR (rd_collect (nat (be_int n)) (decode_event origin)) (\<lambda>events.
            bindR (cap_finish (ValueError ''Event batch contains trailing bytes'')) (\<lambda>_.
            returnR events))) (reader_init payload))
       (\<lambda>(events, r). Inr events)"

section \<open>Packet-index batches\<close>

abbreviation MAX_PACKET_INDEX_BATCH_RECORDS :: int where "MAX_PACKET_INDEX_BATCH_RECORDS \<equiv> 4096"
abbreviation PACKET_INDEX_SCHEMA_VERSION :: int where "PACKET_INDEX_SCHEMA_VERSION \<equiv> 1"

record packet_index_row =
  px_ordinal :: int
  px_timestamp :: f64
  px_caplen :: int
  px_wirelen :: int
  px_link_type :: string
  px_decoded :: bool
  px_decode_reason :: "string option"
  px_src_ip :: "string option"
  px_dst_ip :: "string option"
  px_src_port :: "int option"
  px_dst_port :: "int option"
  px_protocol :: "string option"
  px_tcp_flags :: "int option"
  px_frame_sha256 :: string

abbreviation index_error :: "string \<Rightarrow> py_error" where
  "index_error \<equiv> ValueError"

definition ix_take :: "nat \<Rightarrow> bytes rd" where
  "ix_take = cap_take (ValueError ''Truncated packet-index batch'')"

definition read_byte :: "int rd" where
  "read_byte = bindR (ix_take 1) (\<lambda>b. returnR (uint (b ! 0)))"

definition read_short_ascii :: "int \<Rightarrow> string rd" where
  "read_short_ascii max_length =
     bindR read_byte (\<lambda>n.
     bindR (requireR (n \<le> max_length) (ValueError ''Packet-index text field exceeds limit'')) (\<lambda>_.
     bindR (ix_take (nat n)) (\<lambda>b.
       case decode_ascii b of
         Inl _ \<Rightarrow> liftR (Inl (ValueError ''Packet-index text field is not ASCII''))
       | Inr s \<Rightarrow> returnR s)))"

definition none_if_empty :: "string \<Rightarrow> string option" where
  "none_if_empty s = (if s = [] then None else Some s)"

definition index_protocol :: "int \<Rightarrow> string" where
  "index_protocol = protocol_name"

definition decode_index_row :: "packet_index_row rd" where
  "decode_index_row =
     bindR (ix_take 24) (\<lambda>h.
     let ordinal = be_int (take 8 h); timestamp = unpack_d (take 8 (drop 8 h));
         caplen = be_int (take 4 (drop 16 h)); wirelen = be_int (take 4 (drop 20 h)) in
     bindR (read_short_ascii 32) (\<lambda>link.
     bindR read_byte (\<lambda>marker.
     bindR (requireR (marker \<in> {0, 1}) (ValueError ''Invalid packet-index decode marker'')) (\<lambda>_.
     bindR (read_short_ascii 64) (\<lambda>reason.
     bindR (read_short_ascii 45) (\<lambda>src.
     bindR (read_short_ascii 45) (\<lambda>dst.
     bindR read_byte (\<lambda>presence.
     bindR (requireR (presence AND NOT 0x0F = 0) (ValueError ''Invalid packet-index presence mask'')) (\<lambda>_.
     bindR (ix_take 7) (\<lambda>p.
     let sport = be_int (take 2 p); dport = be_int (take 2 (drop 2 p)); proto = uint (p ! 4); flags = be_int (take 2 (drop 5 p)) in
     bindR (ix_take 32) (\<lambda>digest.
     let decoded = (marker = 1); has_ports = presence AND 0x03 in
     bindR (requireR (ordinal \<noteq> 0) (ValueError ''Packet ordinal must be nonzero'')) (\<lambda>_.
     bindR (requireR (f64_isfinite timestamp) (ValueError ''Packet timestamp must be finite'')) (\<lambda>_.
     bindR (requireR (caplen \<le> wirelen) (ValueError ''Captured length exceeds wire length'')) (\<lambda>_.
     bindR (requireR (link \<noteq> []) (ValueError ''Packet link type is required'')) (\<lambda>_.
     bindR (requireR (decoded \<longrightarrow> reason = []) (ValueError ''Decoded packet cannot have a decode reason'')) (\<lambda>_.
     bindR (requireR (decoded \<longrightarrow> src \<noteq> [] \<and> dst \<noteq> []) (ValueError ''Decoded packet must have addresses'')) (\<lambda>_.
     bindR (requireR (\<not> decoded \<longrightarrow> reason \<noteq> [] \<and> src = [] \<and> dst = [] \<and> presence = 0)
        (ValueError ''Undecoded packet fields are not canonical'')) (\<lambda>_.
     bindR (requireR (presence AND 0x01 = 0 \<longrightarrow> sport = 0) (ValueError ''Absent source port must be zero'')) (\<lambda>_.
     bindR (requireR (presence AND 0x02 = 0 \<longrightarrow> dport = 0) (ValueError ''Absent destination port must be zero'')) (\<lambda>_.
     bindR (requireR (presence AND 0x04 = 0 \<longrightarrow> proto = 0) (ValueError ''Absent protocol must be zero'')) (\<lambda>_.
     bindR (requireR (presence AND 0x08 = 0 \<longrightarrow> flags = 0) (ValueError ''Absent TCP flags must be zero'')) (\<lambda>_.
     bindR (requireR (has_ports \<in> {0, 3}) (ValueError ''Packet ports must be present together'')) (\<lambda>_.
     bindR (requireR (has_ports \<noteq> 0 \<longrightarrow> presence AND 0x04 \<noteq> 0 \<and> proto \<in> {6, 17}) (ValueError ''Packet ports require TCP or UDP'')) (\<lambda>_.
     bindR (requireR (presence AND 0x08 \<noteq> 0 \<longrightarrow> presence AND 0x04 \<noteq> 0 \<and> proto = 6) (ValueError ''TCP flags require TCP'')) (\<lambda>_.
     returnR \<lparr>px_ordinal = ordinal, px_timestamp = timestamp, px_caplen = caplen, px_wirelen = wirelen,
       px_link_type = link, px_decoded = decoded, px_decode_reason = none_if_empty reason,
       px_src_ip = none_if_empty src, px_dst_ip = none_if_empty dst,
       px_src_port = (if presence AND 0x01 \<noteq> 0 then Some sport else None),
       px_dst_port = (if presence AND 0x02 \<noteq> 0 then Some dport else None),
       px_protocol = (if presence AND 0x04 \<noteq> 0 then Some (index_protocol proto) else None),
       px_tcp_flags = (if presence AND 0x08 \<noteq> 0 then Some flags else None),
       px_frame_sha256 = bytes_hex digest\<rparr>)))))))))))))))))))))))))"

definition decode_packet_index_batch :: "bytes \<Rightarrow> packet_index_row list result" where
  "decode_packet_index_batch payload =
     bindE (bindR (ix_take 3) (\<lambda>h.
            let schema = uint (h ! 0); count = be_int (drop 1 h) in
            bindR (requireR (schema = PACKET_INDEX_SCHEMA_VERSION)
               (ValueError (''Unsupported packet-index schema version: '' @ show_int schema))) (\<lambda>_.
            bindR (requireR (count \<le> MAX_PACKET_INDEX_BATCH_RECORDS)
               (ValueError (''Packet-index batch exceeds record limit: '' @ show_int count))) (\<lambda>_.
            bindR (rd_collect (nat count) decode_index_row) (\<lambda>rows.
            bindR (cap_finish (ValueError ''Packet-index batch contains trailing bytes'')) (\<lambda>_.
            returnR rows))))) (reader_init payload))
       (\<lambda>(rows, r). Inr rows)"

section \<open>Validation without rows\<close>

definition skip_text :: "int \<Rightarrow> int rd" where
  "skip_text maximum =
     bindR (ix_take 1) (\<lambda>b.
     let n = uint (b ! 0) in
     bindR (requireR (n \<le> maximum) (ValueError ''Packet-index text field exceeds limit'')) (\<lambda>_.
     bindR (ix_take (nat n)) (\<lambda>_. returnR n)))"

definition validate_index_row :: "unit rd" where
  "validate_index_row =
     bindR (ix_take 24) (\<lambda>h.
     let ordinal = be_int (take 8 h); timestamp = unpack_d (take 8 (drop 8 h));
         caplen = be_int (take 4 (drop 16 h)); wirelen = be_int (take 4 (drop 20 h)) in
     bindR (skip_text 32) (\<lambda>link_length.
     bindR (ix_take 1) (\<lambda>m.
     let marker = uint (m ! 0) in
     bindR (skip_text 64) (\<lambda>reason_length.
     bindR (skip_text 45) (\<lambda>src_length.
     bindR (skip_text 45) (\<lambda>dst_length.
     bindR (ix_take 8) (\<lambda>p.
     let presence = uint (p ! 0); sport = be_int (take 2 (drop 1 p)); dport = be_int (take 2 (drop 3 p));
         proto = uint (p ! 5); flags = be_int (take 2 (drop 6 p)) in
     bindR (ix_take 32) (\<lambda>_.
     let has_ports = presence AND 0x03 in
     bindR (requireR (\<not> (ordinal = 0 \<or> \<not> f64_isfinite timestamp \<or> caplen > wirelen))
        (ValueError ''Invalid packet-index scalar field'')) (\<lambda>_.
     bindR (requireR (\<not> (link_length = 0 \<or> marker \<notin> {0, 1} \<or> presence AND NOT 0x0F \<noteq> 0))
        (ValueError ''Invalid packet-index marker'')) (\<lambda>_.
     bindR (requireR (marker \<noteq> 0 \<longrightarrow> \<not> (reason_length \<noteq> 0 \<or> src_length = 0 \<or> dst_length = 0))
        (ValueError ''Decoded packet-index row is not canonical'')) (\<lambda>_.
     bindR (requireR (marker = 0 \<longrightarrow> \<not> (reason_length = 0 \<or> src_length \<noteq> 0 \<or> dst_length \<noteq> 0 \<or> presence \<noteq> 0))
        (ValueError ''Undecoded packet-index row is not canonical'')) (\<lambda>_.
     bindR (requireR (\<not> (presence AND 0x01 = 0 \<and> sport \<noteq> 0 \<or> presence AND 0x02 = 0 \<and> dport \<noteq> 0))
        (ValueError ''Absent packet-index port must be zero'')) (\<lambda>_.
     bindR (requireR (\<not> (presence AND 0x04 = 0 \<and> proto \<noteq> 0 \<or> presence AND 0x08 = 0 \<and> flags \<noteq> 0))
        (ValueError ''Absent packet-index protocol field must be zero'')) (\<lambda>_.
     bindR (requireR (has_ports \<in> {0, 3}) (ValueError ''Packet-index ports must be present together'')) (\<lambda>_.
     bindR (requireR (has_ports \<noteq> 0 \<longrightarrow> \<not> (presence AND 0x04 = 0 \<or> proto \<notin> {6, 17}))
        (ValueError ''Packet-index ports require TCP or UDP'')) (\<lambda>_.
     requireR (presence AND 0x08 \<noteq> 0 \<longrightarrow> \<not> (presence AND 0x04 = 0 \<or> proto \<noteq> 6))
        (ValueError ''Packet-index TCP flags require TCP'')))))))))))))))))"

definition validate_packet_index_batch :: "bytes \<Rightarrow> int result" where
  "validate_packet_index_batch payload =
     bindE (bindR (ix_take 3) (\<lambda>h.
            let schema = uint (h ! 0); count = be_int (drop 1 h) in
            bindR (requireR (schema = PACKET_INDEX_SCHEMA_VERSION)
               (ValueError (''Unsupported packet-index schema version: '' @ show_int schema))) (\<lambda>_.
            bindR (requireR (count \<le> MAX_PACKET_INDEX_BATCH_RECORDS)
               (ValueError (''Packet-index batch exceeds record limit: '' @ show_int count))) (\<lambda>_.
            bindR (rd_collect (nat count) validate_index_row) (\<lambda>_.
            bindR (cap_finish (ValueError ''Packet-index batch contains trailing bytes'')) (\<lambda>_.
            returnR count))))) (reader_init payload))
       (\<lambda>(count, r). Inr count)"

section \<open>Whatever decodes also validates\<close>

lemma ix_take_split: "ix_take 8 r = bindR (ix_take 1) (\<lambda>a. bindR (ix_take 7) (\<lambda>b. returnR (a @ b))) r"
  using cap_take_split [of "ValueError ''Truncated packet-index batch''" 1 7 r] by (simp add: ix_take_def)

lemma ix_take_length: "ix_take n r = Inr (b, r') \<Longrightarrow> length b = n"
  by (simp add: ix_take_def cap_take_length)

lemma read_byte_Inr: "read_byte r = Inr (v, r') \<longleftrightarrow> (\<exists>b. ix_take 1 r = Inr (b, r') \<and> v = uint (b ! 0))"
  by (auto simp: read_byte_def bindR_Inr)

lemma text_case_Inr:
  "(case decode_ascii v of Inl _ \<Rightarrow> liftR (Inl e) | Inr s \<Rightarrow> returnR s) r = Inr (s, r') \<longleftrightarrow> decode_ascii v = Inr s \<and> r' = r"
  by (cases "decode_ascii v") auto

lemma read_short_ascii_skips:
  assumes "read_short_ascii m r = Inr (s, r')"
  shows "skip_text m r = Inr (int (length s), r') \<and> int (length s) \<le> m"
proof -
  obtain b n r1 v where b: "ix_take 1 r = Inr (b, r1)" "n = uint (b ! 0)" "n \<le> m" "ix_take (nat n) r1 = Inr (v, r')"
    and v: "decode_ascii v = Inr s"
    using assms unfolding read_short_ascii_def bindR_Inr read_byte_Inr requireR_Inr text_case_Inr by blast
  have "length s = length v" using v by (rule decode_ascii_length)
  also have "\<dots> = nat n" using ix_take_length [OF b(4)] .
  finally have "int (length s) = n" using b(2) by simp
  with b show ?thesis by (auto simp: skip_text_def bindR_Inr requireR_Inr Let_def)
qed

lemma uint_byte_bit: "uint (b :: 8 word) \<in> {0, 1} \<Longrightarrow> uint b \<noteq> 0 \<longleftrightarrow> uint b = 1"
  by auto

lemma ix_take_presence:
  assumes "ix_take 7 r1 = Inr (b, r2)" and "ix_take 1 r0 = Inr (a, r1)"
  shows "\<exists>p. ix_take 8 r0 = Inr (p, r2) \<and> p ! 0 = a ! 0 \<and> take 2 (drop 1 p) = take 2 b \<and> take 2 (drop 3 p) = take 2 (drop 2 b) \<and>
      p ! 5 = b ! 4 \<and> take 2 (drop 6 p) = take 2 (drop 5 b)"
proof -
  from ix_take_length [OF assms(2)] obtain x where "a = [x]" by (auto simp: length_Suc_conv)
  moreover have "ix_take 8 r0 = Inr (a @ b, r2)" using assms by (auto simp: ix_take_split [of r0] bindR_Inr)
  ultimately show ?thesis by (intro exI [of _ "a @ b"]) (simp add: numeral_eq_Suc)
qed

lemma marker_ok:
  "m = 0 \<or> m = 1 \<Longrightarrow> m = 1 \<longrightarrow> reason = [] \<Longrightarrow> m = 1 \<longrightarrow> src \<noteq> [] \<and> dst \<noteq> [] \<Longrightarrow>
     requireR (m \<noteq> (0 :: int) \<longrightarrow> reason = [] \<and> src \<noteq> [] \<and> dst \<noteq> []) e r = Inr ((), r)"
  by (rule iffD2 [OF requireR_Inr]) auto

lemma decode_row_validates:
  assumes "decode_index_row r = Inr (row, r')"
  shows "validate_index_row r = Inr ((), r')"
  using assms
  unfolding decode_index_row_def Let_def bindR_Inr requireR_Inr read_byte_Inr
  apply (elim exE conjE)
  apply hypsubst
  apply (drule (1) ix_take_presence)
  apply (drule read_short_ascii_skips)+
  apply (elim exE conjE)
  apply (simp add: validate_index_row_def Let_def bindR_def del: One_nat_def)
  apply (subst marker_ok, assumption+)
  apply simp
  done


lemma collect_validates:
  "rd_collect n decode_index_row r = Inr (rows, r') \<Longrightarrow>
     length rows = n \<and> (\<exists>us. rd_collect n validate_index_row r = Inr (us, r'))"
proof (induction n arbitrary: r rows)
  case (Suc n)
  then obtain row r1 rest where a: "decode_index_row r = Inr (row, r1)" and b: "rd_collect n decode_index_row r1 = Inr (rest, r')"
    and rows: "rows = row # rest"
    by (auto simp: bindR_Inr)
  from Suc.IH [OF b] obtain us where "length rest = n" "rd_collect n validate_index_row r1 = Inr (us, r')" by blast
  with decode_row_validates [OF a] rows show ?case by (simp add: bindR_def)
qed auto

lemma decode_batch_validates:
  assumes "decode_packet_index_batch payload = Inr rows"
  shows "validate_packet_index_batch payload = Inr (int (length rows))"
proof -
  obtain h r1 r2 r3 where h: "ix_take 3 (reader_init payload) = Inr (h, r1)" "uint (h ! 0) = 1"
     "be_int (drop 1 h) \<le> 4096" "rd_collect (nat (be_int (drop 1 h))) decode_index_row r1 = Inr (rows, r2)"
     "cap_finish (ValueError ''Packet-index batch contains trailing bytes'') r2 = Inr ((), r3)"
    using assms unfolding decode_packet_index_batch_def Let_def bindE_Inr bindR_Inr requireR_Inr by auto
  from collect_validates [OF h(4)] obtain us where
    u: "int (length rows) = be_int (drop 1 h)" "rd_collect (nat (be_int (drop 1 h))) validate_index_row r1 = Inr (us, r2)"
    by auto
  from h u show ?thesis
    by (simp add: validate_packet_index_batch_def Let_def bindR_def)
qed

section \<open>Decoded rows are well formed\<close>

definition index_row_ok :: "packet_index_row \<Rightarrow> bool" where
  "index_row_ok row \<longleftrightarrow> px_ordinal row \<noteq> 0 \<and> f64_isfinite (px_timestamp row) \<and> px_caplen row \<le> px_wirelen row \<and>
     px_link_type row \<noteq> [] \<and>
     (px_decoded row \<longleftrightarrow> px_decode_reason row = None) \<and>
     (px_decoded row \<longrightarrow> px_src_ip row \<noteq> None \<and> px_dst_ip row \<noteq> None) \<and>
     (\<not> px_decoded row \<longrightarrow> px_src_ip row = None \<and> px_dst_ip row = None \<and> px_src_port row = None \<and>
        px_dst_port row = None \<and> px_protocol row = None \<and> px_tcp_flags row = None) \<and>
     (px_src_port row = None \<longleftrightarrow> px_dst_port row = None) \<and>
     (px_src_port row \<noteq> None \<longrightarrow> px_protocol row \<in> {Some ''TCP'', Some ''UDP''}) \<and>
     (px_tcp_flags row \<noteq> None \<longrightarrow> px_protocol row = Some ''TCP'') \<and>
     length (px_frame_sha256 row) = 64"

lemma and_3: "(x AND 3) \<in> {0, 3} \<Longrightarrow> (x AND 1 = 0) = (x AND 2 = 0) \<and> (x AND 3 \<noteq> 0) = (x AND 1 \<noteq> 0)" for x :: int
proof -
  assume a: "(x AND 3) \<in> {0, 3}"
  have "x AND 1 = (x AND 3) AND 1" "x AND 2 = (x AND 3) AND 2" by (simp_all add: and.assoc)
  with a show ?thesis by auto
qed

lemma length_bytes_hex: "length (bytes_hex b) = 2 * length b"
  by (induction b) (auto simp: bytes_hex_def)

lemma protocol_67: "protocol_name 6 = ''TCP''" "protocol_name 17 = ''UDP''"
  by (simp_all add: protocol_name_def)

lemma protocol_ports: "p = 6 \<or> p = 17 \<Longrightarrow> protocol_name p = ''TCP'' \<or> protocol_name p = ''UDP''"
  by (auto simp: protocol_67)

lemma decode_row_ok:
  assumes "decode_index_row r = Inr (row, r')"
  shows "index_row_ok row"
  using assms
  unfolding decode_index_row_def Let_def bindR_Inr requireR_Inr read_byte_Inr
  apply (elim exE conjE)
  apply hypsubst
  apply (drule and_3)
  apply (drule ix_take_length [of 32])
  apply (simp only: returnR_apply sum.inject prod.inject)
  apply (elim conjE)
  apply hypsubst
  apply (simp only: index_row_ok_def packet_index_row.select_convs)
  apply (intro conjI; (simp add: none_if_empty_def length_bytes_hex index_protocol_def; fail)?)
  apply (simp_all add: none_if_empty_def length_bytes_hex index_protocol_def split: if_splits del: One_nat_def)
  apply (simp_all add: protocol_67 protocol_ports)
  done


lemma decode_batch_rows_ok:
  assumes "decode_packet_index_batch payload = Inr rows"
  shows "length rows \<le> 4096 \<and> (\<forall>row \<in> set rows. index_row_ok row)"
proof -
  obtain n r1 r2 where n: "n \<le> 4096" "rd_collect (nat n) decode_index_row r1 = Inr (rows, r2)"
    using assms unfolding decode_packet_index_batch_def Let_def bindE_Inr bindR_Inr requireR_Inr by auto
  from rd_collect_length [OF n(2)] n(1) rd_collect_all [where P = index_row_ok, OF n(2) decode_row_ok] show ?thesis
    by auto
qed

section \<open>The plan the adapter builds\<close>

lemma next_program_id_fresh: "n \<in> set (map pw_program_id ps) \<Longrightarrow> n < next_program_id ps"
proof -
  assume n: "n \<in> set (map pw_program_id ps)"
  have "n \<le> Max (set (map pw_program_id ps))" by (rule Max_ge) (use n in simp_all)
  with n show ?thesis by (auto simp: next_program_id_def)
qed

lemma tcp_stream_program_encodes: "0 \<le> n \<Longrightarrow> n \<le> 63 \<Longrightarrow> is_ok (encode_selector_program (tcp_stream_program n))"
proof -
  assume n: "0 \<le> n" "n \<le> 63"
  have b: "''ip-protocol-in'' \<in> set byte_opcodes" by (simp add: byte_opcodes_def)
  have 1: "encode_clause_body ''ip-protocol-in'' [PyInt 6] = Inr [1, 6]"
    by (simp add: encode_byte_body [OF b] encode_u8_value_def range_val_def byte1_def)
  have 2: "encode_clause_body ''payload-minimum-length'' [PyInt 1] = Inr [0, 0, 0, 1]"
    unfolding encode_minlen_body by (intro exI [of _ 1]) (simp add: eval_nat_numeral)
  have c1: "encode_selector_clause \<lparr>cw_opcode = ''ip-protocol-in'', cw_values = [PyInt 6]\<rparr> = Inr [4, 1, 6]"
    unfolding encode_selector_clause_Inr by (simp add: 1 selector_opcodes_def)
  have c2: "encode_selector_clause \<lparr>cw_opcode = ''payload-minimum-length'', cw_values = [PyInt 1]\<rparr> = Inr [10, 0, 0, 0, 1]"
    unfolding encode_selector_clause_Inr by (simp add: 2 selector_opcodes_def)
  show ?thesis
    using n unfolding is_ok_iff encode_selector_program_Inr
    by (simp add: tcp_stream_program_def candidate_mode_codes_def c1 c2 pack_def)
qed

text \<open>Every plan the adapter builds from encodable programs with distinct IDs passes the wire validation.\<close>

lemma plan_flags_known: "(ANALYSIS_FLAG_PACKET_INDEX OR ANALYSIS_FLAG_NATIVE_CONVERSATIONS OR ANALYSIS_FLAG_TERMINAL_METRICS) AND NOT KNOWN_FLAGS = 0"
  by (simp add: KNOWN_FLAGS_def)

lemma built_plan_valid:
  assumes b: "build_aggregate_analysis_plan digest mode origin programs preserve = Inr plan"
    and m: "mode \<in> {''memory'', ''streaming''}"
    and p: "list_all (\<lambda>p. is_ok (encode_selector_program p)) programs" "distinct (map pw_program_id programs)"
    and l: "length programs < 64"
    and o: "is_ok (encode_ascii8 (plan_source plan) 255 ''source'')" "is_ok (encode_ascii8 (plan_session_id plan) 255 ''session ID'')"
      "is_ok (encode_ascii8 (plan_interface plan) 64 ''interface'')" "is_ok (encode_ascii8 (plan_sensor_node_id plan) 128 ''sensor node ID'')"
  shows "validate_plan plan = Inr ()"
proof -
  have r: "0 \<le> pw_program_id p" if "p \<in> set programs" for p
  proof -
    from p(1) that obtain bs where "encode_selector_program p = Inr bs" by (auto simp: list_all_iff is_ok_iff)
    then show ?thesis by (simp add: encode_selector_program_Inr)
  qed
  have n0: "0 \<le> next_program_id programs"
  proof (cases "programs = []")
    case False
    then have "Max (set (map pw_program_id programs)) \<in> set (map pw_program_id programs)" by (intro Max_in) auto
    with r have "0 \<le> Max (set (map pw_program_id programs))" by auto
    with False show ?thesis by (simp add: next_program_id_def)
  qed (simp add: next_program_id_def)
  have ps: "list_all (\<lambda>p. is_ok (encode_selector_program p)) (selector_programs plan) \<and> distinct (map pw_program_id (selector_programs plan))
      \<and> length (selector_programs plan) \<le> 64"
  proof (cases preserve)
    case True
    then have "selector_programs plan = programs @ [tcp_stream_program (next_program_id programs)]" "next_program_id programs < 64"
      using b by (auto simp: build_aggregate_analysis_plan_def bindE_Inr guardE_Inr split: option.splits)
    moreover have "next_program_id programs \<notin> pw_program_id ` set programs" using next_program_id_fresh by fastforce
    ultimately show ?thesis
      using p l n0 tcp_stream_program_encodes by (auto simp: tcp_stream_program_def)
  next
    case False
    then have "selector_programs plan = programs"
      using b by (auto simp: build_aggregate_analysis_plan_def bindE_Inr guardE_Inr split: option.splits)
    with p l show ?thesis by simp
  qed
  then have "is_ok (mapE encode_selector_program (selector_programs plan))"
    by (intro mapE_ok) (simp add: list_all_iff)
  then obtain ws where ws: "mapE encode_selector_program (selector_programs plan) = Inr ws" by (auto simp: is_ok_iff)
  obtain e1 e2 e3 e4 where e: "encode_ascii8 (plan_source plan) 255 ''source'' = Inr e1" "encode_ascii8 (plan_session_id plan) 255 ''session ID'' = Inr e2"
      "encode_ascii8 (plan_interface plan) 64 ''interface'' = Inr e3" "encode_ascii8 (plan_sensor_node_id plan) 128 ''sensor node ID'' = Inr e4"
    using o by (auto simp: is_ok_iff)
  have d: "length (plan_sha256 plan) = 32" "length (semantic_plugin_sha256 plan) = 32" "execution_mode plan = ''aggregate-v1''"
    "analysis_mode plan = mode" "plan_flags plan = ANALYSIS_FLAG_PACKET_INDEX OR ANALYSIS_FLAG_NATIVE_CONVERSATIONS OR ANALYSIS_FLAG_TERMINAL_METRICS"
    "target_batch_bytes plan = 1024 * 1024" "max_active_conversations plan = 100000" "max_resume_conversations plan = 100000"
    "max_directional_flows plan = 220000" "max_endpoints plan = 440000" "max_flow_samples plan = 500" "max_flow_sample_bytes plan = 256 * 1024 * 1024"
    "max_stream_segments plan = 10000" "max_stream_bytes plan = 16 * 1024 * 1024"
    using b by (auto simp: build_aggregate_analysis_plan_def bindE_Inr guardE_Inr split: option.splits)
  have f: "range_check (plan_flags plan) 0 0xFFFF ''flags'' = Inr ()" "plan_flags plan AND NOT KNOWN_FLAGS = 0"
    unfolding d(5) plan_flags_known by (simp_all add: range_check_def)
  show ?thesis
    unfolding validate_plan_def ws e f
    using ps m by (simp add: d digest_check_def range_check_def execution_mode_codes_def analysis_mode_codes_def)
qed

end
