(* ===== verification/AggregateReplay.thy ===== *)
theory AggregateReplay imports CaptureCodec begin

text \<open>
  \<open>aggregate_replay_events\<close> of core/packet\_engine/rust\_capture.py: the loop that reads frames from the
  analysis child, validates their order, decodes them, yields packet events, keeps running counters
  and chained digests, honours cancellation, and at the end compares both against the child's
  certificate and closes the child.  The generator is a state with the list of the events yielded so far.  Cancellation
  requests, the exit of the process and the bytes on its pipe come from outside and are arguments.
\<close>

section \<open>Frames on the pipe\<close>

lemma read_transport_frame_shrinks:
  "read_transport_frame s = Inr ((k, p), s') \<Longrightarrow> length (stream_bytes s') < length (stream_bytes s)"
  by (drule read_transport_frame_bytes) simp

text \<open>All frames a pipe delivers, and the exception the read after the last one raises.\<close>

function frames_of_stream :: "stream \<Rightarrow> (int \<times> bytes) list \<times> py_error" where
  "frames_of_stream s =
     (case read_transport_frame s of
        Inl e \<Rightarrow> ([], e)
      | Inr (f, s') \<Rightarrow> (let (fs, e) = frames_of_stream s' in (f # fs, e)))"
  by pat_completeness auto
termination
  by (relation "measure (\<lambda>s. length (stream_bytes s))") (auto dest: read_transport_frame_shrinks)

declare frames_of_stream.simps [simp del]

section \<open>State\<close>

datatype cancel_source = NoCancel | CancelCallable "nat \<Rightarrow> bool" | CancelFlag "nat \<Rightarrow> bool"

record replay =
  rp_validator :: stream_validator
  rp_decoder :: data_decoder
  rp_counts :: "(string, int) dict"
  rp_digests :: "(string, bytes) dict"
  rp_last_sequence :: int
  rp_flows :: "terminal_flow list"
  rp_conversations :: "terminal_conversation list"
  rp_events :: "packet_event list"
  rp_polls :: nat

definition replay_init :: "stream_validator \<Rightarrow> replay" where
  "replay_init v = \<lparr>rp_validator = v, rp_decoder = data_decoder_init,
     rp_counts = [(''packet_index_rows'', 0), (''decoded_work_items'', 0), (''raw_candidate_items'', 0),
       (''raw_candidate_bytes'', 0), (''terminal_directional_flows'', 0), (''terminal_conversations'', 0)],
     rp_digests = [(''packet_index'', zeros 32), (''work'', zeros 32), (''flow'', zeros 32),
       (''conversation'', zeros 32), (''stream'', zeros 32)],
     rp_last_sequence = 0, rp_flows = [], rp_conversations = [], rp_events = [], rp_polls = 0\<rparr>"

definition analysis_digest :: "bytes \<Rightarrow> bytes \<Rightarrow> bytes" where
  "analysis_digest previous payload = sha256 (previous @ payload)"

definition add_count :: "string \<Rightarrow> int \<Rightarrow> replay \<Rightarrow> replay" where
  "add_count name n st = st\<lparr>rp_counts := dict_set (rp_counts st) name ((case dict_get (rp_counts st) name of Some c \<Rightarrow> c | None \<Rightarrow> 0) + n)\<rparr>"

definition chain_digest :: "string \<Rightarrow> bytes \<Rightarrow> replay \<Rightarrow> replay" where
  "chain_digest name payload st = st\<lparr>rp_digests := dict_set (rp_digests st) name
     (analysis_digest (case dict_get (rp_digests st) name of Some d \<Rightarrow> d | None \<Rightarrow> []) payload)\<rparr>"

section \<open>Cancellation\<close>

text \<open>A callable is asked once per row until it answers yes; an event object once per frame.\<close>

fun poll_rows :: "(nat \<Rightarrow> bool) \<Rightarrow> nat \<Rightarrow> nat \<Rightarrow> bool \<times> nat" where
  "poll_rows ask polls 0 = (False, polls)"
| "poll_rows ask polls (Suc n) = (if ask polls then (True, Suc polls) else poll_rows ask (Suc polls) n)"

definition check_cancel :: "cancel_source \<Rightarrow> int \<Rightarrow> replay \<Rightarrow> bool \<times> replay" where
  "check_cancel cancel row_count st =
     (case cancel of
        NoCancel \<Rightarrow> (False, st)
      | CancelCallable ask \<Rightarrow> (case poll_rows ask (rp_polls st) (nat row_count) of (c, n) \<Rightarrow> (c, st\<lparr>rp_polls := n\<rparr>))
      | CancelFlag ask \<Rightarrow> (ask (rp_polls st), st\<lparr>rp_polls := Suc (rp_polls st)\<rparr>))"

section \<open>One frame\<close>

datatype outcome = Continue | Cancelled | Raised py_error

definition sequence_error :: py_error where
  "sequence_error = AnalysisProtocolError ''analysis data sequence is not monotonic''"

definition yield_item :: "packet_origin \<Rightarrow> string \<Rightarrow> replay \<Rightarrow> work_item \<Rightarrow> replay" where
  "yield_item origin link st item =
     (let st1 = add_count ''decoded_work_items'' 1 st;
          st2 = (if raw_frame item \<noteq> []
                 then add_count ''raw_candidate_bytes'' (int (length (raw_frame item))) (add_count ''raw_candidate_items'' 1 st1)
                 else st1)
      in st2\<lparr>rp_events := rp_events st2 @ [work_item_to_packet_event item origin link]\<rparr>)"

definition index_frame :: "cancel_source \<Rightarrow> bytes \<Rightarrow> replay \<Rightarrow> replay \<times> outcome" where
  "index_frame cancel payload st =
     (case validate_packet_index_batch payload of
        Inl e \<Rightarrow> (st, Raised e)
      | Inr row_count \<Rightarrow>
          let st1 = chain_digest ''packet_index'' payload (add_count ''packet_index_rows'' row_count st);
              (cancelled, st2) = check_cancel cancel row_count st1
          in (st2, if cancelled then Cancelled else Continue))"

definition work_frame :: "packet_origin \<Rightarrow> string \<Rightarrow> bytes \<Rightarrow> replay \<Rightarrow> replay \<times> outcome" where
  "work_frame origin link payload st =
     (case decode_work (rp_decoder st) payload of
        (dec, Inl e) \<Rightarrow> (st\<lparr>rp_decoder := dec\<rparr>, Raised e)
      | (dec, Inr batch) \<Rightarrow>
          let st1 = st\<lparr>rp_decoder := dec\<rparr> in
          if work_sequence batch \<le> rp_last_sequence st1 then (st1, Raised sequence_error)
          else
            let st2 = chain_digest ''work'' payload (st1\<lparr>rp_last_sequence := work_sequence batch\<rparr>)
            in (foldl (yield_item origin link) st2 (work_items batch), Continue))"

definition flow_frame :: "bytes \<Rightarrow> replay \<Rightarrow> replay \<times> outcome" where
  "flow_frame payload st =
     (case decode_flows (rp_decoder st) payload of
        Inl e \<Rightarrow> (st, Raised e)
      | Inr batch \<Rightarrow>
          if flow_sequence batch \<le> rp_last_sequence st then (st, Raised sequence_error)
          else
            let st1 = add_count ''terminal_directional_flows'' (int (length (flow_records batch)))
                        (st\<lparr>rp_last_sequence := flow_sequence batch\<rparr>)
            in (chain_digest ''flow'' payload (st1\<lparr>rp_flows := rp_flows st1 @ flow_records batch\<rparr>), Continue))"

definition conversation_frame :: "bytes \<Rightarrow> replay \<Rightarrow> replay \<times> outcome" where
  "conversation_frame payload st =
     (case decode_conversations (rp_decoder st) payload of
        Inl e \<Rightarrow> (st, Raised e)
      | Inr batch \<Rightarrow>
          if conversation_sequence batch \<le> rp_last_sequence st then (st, Raised sequence_error)
          else
            let st1 = add_count ''terminal_conversations'' (int (length (conversation_records batch)))
                        (st\<lparr>rp_last_sequence := conversation_sequence batch\<rparr>)
            in (chain_digest ''conversation'' payload
                  (st1\<lparr>rp_conversations := rp_conversations st1 @ conversation_records batch\<rparr>), Continue))"

section \<open>The text of an error frame\<close>

text \<open>
  \<open>bytes.decode("utf-8", errors="replace")\<close>: the code points of a byte string, each maximal part of an
  ill-formed sequence giving one replacement character U+FFFD.  A lead byte fixes the ranges of the
  bytes that must follow it.
\<close>

definition utf8_lead :: "nat \<Rightarrow> (nat \<times> (nat \<times> nat) list) option" where
  "utf8_lead n =
     (if 194 \<le> n \<and> n \<le> 223 then Some (n - 192, [(128, 191)])
      else if n = 224 then Some (0, [(160, 191), (128, 191)])
      else if n = 237 then Some (13, [(128, 159), (128, 191)])
      else if 225 \<le> n \<and> n \<le> 239 then Some (n - 224, [(128, 191), (128, 191)])
      else if n = 240 then Some (0, [(144, 191), (128, 191), (128, 191)])
      else if 241 \<le> n \<and> n \<le> 243 then Some (n - 240, [(128, 191), (128, 191), (128, 191)])
      else if n = 244 then Some (4, [(128, 143), (128, 191), (128, 191)])
      else None)"

fun utf8_follow :: "nat \<Rightarrow> (nat \<times> nat) list \<Rightarrow> bytes \<Rightarrow> nat \<times> bytes" where
  "utf8_follow acc [] bs = (acc, bs)"
| "utf8_follow acc (r # rs) [] = (0xFFFD, [])"
| "utf8_follow acc (r # rs) (b # bs) =
     (if fst r \<le> unat b \<and> unat b \<le> snd r then utf8_follow (acc * 64 + (unat b - 128)) rs bs else (0xFFFD, b # bs))"

lemma utf8_follow_shrinks: "length (snd (utf8_follow acc rs bs)) \<le> length bs"
  by (induction acc rs bs rule: utf8_follow.induct) auto

function utf8_decode_replace :: "bytes \<Rightarrow> nat list" where
  "utf8_decode_replace [] = []"
| "utf8_decode_replace (b # bs) =
     (if unat b < 128 then unat b # utf8_decode_replace bs
      else case utf8_lead (unat b) of
        None \<Rightarrow> 0xFFFD # utf8_decode_replace bs
      | Some (acc, rs) \<Rightarrow> fst (utf8_follow acc rs bs) # utf8_decode_replace (snd (utf8_follow acc rs bs)))"
  by pat_completeness auto
termination
  by (relation "measure length") (auto simp: less_Suc_eq_le utf8_follow_shrinks)

text \<open>\<open>str.encode("utf-8")\<close> of one code point.\<close>

definition utf8_encode :: "nat \<Rightarrow> bytes" where
  "utf8_encode n = map word_of_nat
     (if n < 0x80 then [n]
      else if n < 0x800 then [192 + n div 64, 128 + n mod 64]
      else if n < 0x10000 then [224 + n div 64 div 64, 128 + n div 64 mod 64, 128 + n mod 64]
      else [240 + n div 64 div 64 div 64, 128 + n div 64 div 64 mod 64, 128 + n div 64 mod 64, 128 + n mod 64])"

text \<open>The code points that are characters: everything but the surrogates.\<close>

definition scalar_value :: "nat \<Rightarrow> bool" where
  "scalar_value n \<longleftrightarrow> n < 0xD800 \<or> 0xE000 \<le> n \<and> n < 0x110000"

lemma unat_small: "n < 256 \<Longrightarrow> unat (word_of_nat n :: 8 word) = n"
  by (simp add: unat_of_nat)

lemma utf8_decode_char:
  assumes "scalar_value n"
  shows "utf8_decode_replace (utf8_encode n @ bs) = n # utf8_decode_replace bs"
proof -
  define x where "x = n mod 64"
  define y where "y = n div 64 mod 64"
  define z where "z = n div 64 div 64 mod 64"
  have xyz: "x < 64" "y < 64" "z < 64" by (simp_all add: x_def y_def z_def)
  consider "n < 0x80" | "0x80 \<le> n" "n < 0x800" | "0x800 \<le> n" "n < 0x10000" | "0x10000 \<le> n" "n < 0x110000"
    using assms by (fastforce simp: scalar_value_def)
  then show ?thesis
  proof cases
    case 1
    then show ?thesis by (simp add: utf8_encode_def unat_small)
  next
    case 2
    define a where "a = n div 64"
    have a: "2 \<le> a" "a < 32" "n = a * 64 + x" using 2 by (simp_all add: a_def x_def)
    have "utf8_lead (192 + a) = Some (a, [(128, 191)])" using a by (simp add: utf8_lead_def)
    moreover have e: "utf8_encode n = map word_of_nat [192 + a, 128 + x]"
      using 2 by (simp add: utf8_encode_def a_def x_def del: of_nat_add)
    ultimately have "utf8_decode_replace (utf8_encode n @ bs) = (a * 64 + x) # utf8_decode_replace bs"
      unfolding e using a(1,2) xyz by (simp add: unat_small del: of_nat_add)
    then show ?thesis by (simp only: flip: a(3))
  next
    case 3
    define a where "a = n div 64 div 64"
    have a: "a < 16" "n = (a * 64 + y) * 64 + x" using 3 by (simp_all add: a_def x_def y_def)
    obtain lo hi where r: "utf8_lead (224 + a) = Some (a, [(lo, hi), (128, 191)])" "lo \<le> 128 + y" "128 + y \<le> hi"
    proof (cases "a = 0 \<or> a = 13")
      case False
      then have "utf8_lead (224 + a) = Some (a, [(128, 191), (128, 191)])" using a by (auto simp: utf8_lead_def)
      then show ?thesis using that xyz by simp
    next
      case True
      then have "a = 0 \<and> 32 \<le> y \<or> a = 13 \<and> y < 32" using 3 assms a xyz by (auto simp: scalar_value_def)
      then show ?thesis using that [of 160 191] that [of 128 159] xyz by (auto simp: utf8_lead_def)
    qed
    have e: "utf8_encode n = map word_of_nat [224 + a, 128 + y, 128 + x]"
      using 3 by (simp add: utf8_encode_def a_def x_def y_def del: of_nat_add)
    have "utf8_decode_replace (utf8_encode n @ bs) = ((a * 64 + y) * 64 + x) # utf8_decode_replace bs"
      unfolding e using a(1) xyz r by (simp add: unat_small del: of_nat_add)
    then show ?thesis by (simp only: flip: a(2))
  next
    case 4
    define a where "a = n div 64 div 64 div 64"
    have a: "a < 5" "n = ((a * 64 + z) * 64 + y) * 64 + x" using 4 by (simp_all add: a_def x_def y_def z_def)
    obtain lo hi where r: "utf8_lead (240 + a) = Some (a, [(lo, hi), (128, 191), (128, 191)])" "lo \<le> 128 + z" "128 + z \<le> hi"
    proof (cases "a = 0 \<or> a = 4")
      case False
      then have "utf8_lead (240 + a) = Some (a, [(128, 191), (128, 191), (128, 191)])" using a by (auto simp: utf8_lead_def)
      then show ?thesis using that xyz by simp
    next
      case True
      then have "a = 0 \<and> 16 \<le> z \<or> a = 4 \<and> z < 16" using 4 a xyz by auto
      then show ?thesis using that [of 144 191] that [of 128 143] xyz by (auto simp: utf8_lead_def)
    qed
    have e: "utf8_encode n = map word_of_nat [240 + a, 128 + z, 128 + y, 128 + x]"
      using 4 by (simp add: utf8_encode_def a_def x_def y_def z_def del: of_nat_add)
    have "utf8_decode_replace (utf8_encode n @ bs) = (((a * 64 + z) * 64 + y) * 64 + x) # utf8_decode_replace bs"
      unfolding e using a(1) xyz r by (simp add: unat_small del: of_nat_add)
    then show ?thesis by (simp only: flip: a(2))
  qed
qed

text \<open>Well-formed text is decoded to itself.\<close>

lemma utf8_decode_encode: "list_all scalar_value ns \<Longrightarrow> utf8_decode_replace (concat (map utf8_encode ns)) = ns"
  by (induction ns) (simp_all add: utf8_decode_char)

text \<open>
  The characters of a message are bytes, so a decoded text stands in it as its UTF-8 form; a message in
  ASCII is the text itself.
\<close>

definition error_frame_text :: "bytes \<Rightarrow> string" where
  "error_frame_text payload =
     (let decoded = utf8_decode_replace payload
      in if decoded = [] then ''Rust aggregate analysis failed'' else map (\<lambda>b. char_of (unat b)) (concat (map utf8_encode decoded)))"

lemma error_frame_text_encoded:
  "list_all scalar_value ns \<Longrightarrow> ns \<noteq> [] \<Longrightarrow>
     error_frame_text (concat (map utf8_encode ns)) = map (\<lambda>b. char_of (unat b)) (concat (map utf8_encode ns))"
  by (simp add: error_frame_text_def utf8_decode_encode Let_def)

section \<open>The loop\<close>

text \<open>The loop body after the read.\<close>

definition replay_frame ::
  "packet_origin \<Rightarrow> string \<Rightarrow> cancel_source \<Rightarrow> replay \<Rightarrow> int \<times> bytes \<Rightarrow> replay \<times> outcome" where
  "replay_frame origin link cancel st frame =
     (case frame of (kind, payload) \<Rightarrow>
      case validator_accept (rp_validator st) kind payload of
        Inl e \<Rightarrow> (st, Raised e)
      | Inr v \<Rightarrow>
          let st1 = st\<lparr>rp_validator := v\<rparr> in
          if kind = FRAME_ANALYSIS_PACKET_INDEX then index_frame cancel payload st1
          else if kind = FRAME_ANALYSIS_WORK then work_frame origin link payload st1
          else if kind = FRAME_ANALYSIS_FLOW then flow_frame payload st1
          else if kind = FRAME_ANALYSIS_CONVERSATION then conversation_frame payload st1
          else if kind = FRAME_ANALYSIS_STREAM then (chain_digest ''stream'' payload st1, Continue)
          else if kind = FRAME_ANALYSIS_ERROR then (st1, Raised (AnalysisProtocolError (error_frame_text payload)))
          else (st1, Continue))"

fun replay_loop ::
  "packet_origin \<Rightarrow> string \<Rightarrow> cancel_source \<Rightarrow> replay \<Rightarrow> (int \<times> bytes) list \<Rightarrow> replay \<times> outcome" where
  "replay_loop origin link cancel st [] = (st, Continue)"
| "replay_loop origin link cancel st (f # fs) =
     (case replay_frame origin link cancel st f of
        (st', Continue) \<Rightarrow> replay_loop origin link cancel st' fs
      | (st', out) \<Rightarrow> (st', out))"

section \<open>The certificate\<close>

record child_exit =
  ce_wait_times_out :: bool
  ce_returncode :: int
  ce_stderr :: string

datatype replay_summary =
    CancelledSummary analysis_hello "(string, int) dict"
  | CompleteSummary analysis_hello analysis_end "(string, int) dict" "terminal_flow list" "terminal_conversation list"

definition expected_counts :: "analysis_end \<Rightarrow> (string, int) dict" where
  "expected_counts e = [(''packet_index_rows'', packet_index_rows e), (''decoded_work_items'', decoded_work_items e),
     (''raw_candidate_items'', raw_candidate_items e), (''raw_candidate_bytes'', raw_candidate_bytes e),
     (''terminal_directional_flows'', terminal_directional_flows e), (''terminal_conversations'', terminal_conversations e)]"

definition expected_digests :: "analysis_end \<Rightarrow> (string, bytes) dict" where
  "expected_digests e = [(''packet_index'', packet_index_digest e), (''work'', work_digest e), (''flow'', flow_digest e),
     (''conversation'', conversation_digest e), (''stream'', stream_digest e)]"

definition certify :: "analysis_hello \<Rightarrow> child_exit \<Rightarrow> replay \<Rightarrow> replay_summary result" where
  "certify hello exit st =
     (if ce_wait_times_out exit then Inl TimeoutExpired
      else
        bindE (validator_finish (rp_validator st) (ce_returncode exit)) (\<lambda>e.
        bindE (guardE (rp_counts st = expected_counts e)
           (AnalysisProtocolError ''analysis terminal counters do not match received frames'')) (\<lambda>_.
        bindE (guardE (rp_digests st = expected_digests e)
           (AnalysisProtocolError ''analysis terminal digests do not match received frames'')) (\<lambda>_.
        Inr (CompleteSummary hello e (rp_counts st) (rp_flows st) (rp_conversations st))))))"

text \<open>The \<open>finally\<close> clause: after a normal end of file a nonzero return code replaces whatever happened.\<close>

definition check_returncode :: "child_exit \<Rightarrow> 'a result \<Rightarrow> 'a result" where
  "check_returncode exit r =
     (if ce_returncode exit \<noteq> 0
      then Inl (RuntimeError (if ce_stderr exit \<noteq> [] then ce_stderr exit
             else ''Rust aggregate analysis failed with exit code '' @ show_int (ce_returncode exit)))
      else r)"

text \<open>
  What becomes of the child.  After the end of the stream the process is waited for, a certified session
  is marked closed, and the \<open>finally\<close> clause closes the session if the process is still there; on any
  other way out it closes the session in any case.  The pipes are closed at the end, so what is left
  unread on them is not recorded.
\<close>

definition after_eof :: "child_exit \<Rightarrow> bool \<Rightarrow> analysis_child \<Rightarrow> analysis_child" where
  "after_eof exit certified_ok c =
     (let p = (ch_process c)\<lparr>proc_running := ce_wait_times_out exit, proc_signals := proc_signals (ch_process c) @ [Wait]\<rparr>;
          c1 = c\<lparr>ch_process := p, ch_closed := (ch_closed c \<or> certified_ok)\<rparr>
      in if proc_running p then child_close c1 else c1)"

definition replay_child ::
  "packet_origin \<Rightarrow> cancel_source \<Rightarrow> child_exit \<Rightarrow> analysis_hello \<Rightarrow> analysis_child \<Rightarrow> analysis_child \<times> replay \<times> replay_summary result" where
  "replay_child origin cancel exit hello c =
     (case frames_of_stream (proc_stdout (ch_process c)) of (fs, stop) \<Rightarrow>
      case replay_loop origin (normalized_link_type hello) cancel (replay_init (ch_validator c)) fs of
        (st, Raised e) \<Rightarrow> (child_close (c\<lparr>ch_validator := rp_validator st\<rparr>), st, Inl e)
      | (st, Cancelled) \<Rightarrow> (child_close (c\<lparr>ch_validator := rp_validator st\<rparr>), st, Inr (CancelledSummary hello (rp_counts st)))
      | (st, Continue) \<Rightarrow>
          (case stop of
             EOFError _ \<Rightarrow>
               let r = certify hello exit st
               in (after_eof exit (is_ok r) (c\<lparr>ch_validator := rp_validator st\<rparr>), st, check_returncode exit r)
           | e \<Rightarrow> (child_close (c\<lparr>ch_validator := rp_validator st\<rparr>), st, Inl e)))"

text \<open>The whole call: the child as it is left, if there was one, the events yielded, and how it ended.\<close>

definition aggregate_replay_events ::
  "string \<Rightarrow> string \<Rightarrow> packet_origin \<Rightarrow> program_wire list \<Rightarrow> cancel_source \<Rightarrow> process \<Rightarrow> child_exit
     \<Rightarrow> analysis_child option \<times> packet_event list \<times> replay_summary result" where
  "aggregate_replay_events semantic_plugin_digest mode origin programs cancel proc exit =
     (case bindE (build_aggregate_analysis_plan semantic_plugin_digest mode origin programs True) (child_init proc) of
        Inl e \<Rightarrow> (None, [], Inl e)
      | Inr child \<Rightarrow>
     (case child_start child of
        (c, Inl e) \<Rightarrow> (Some (child_close c), [], Inl e)
      | (c, Inr None) \<Rightarrow> (Some (child_close c), [], Inl (TypeError ''NoneType''))
      | (c, Inr (Some hello)) \<Rightarrow>
          (case replay_child origin cancel exit hello c of (c', st, r) \<Rightarrow> (Some c', rp_events st, r))))"

section \<open>Counters and digests as functions of a name\<close>

definition count_of :: "replay \<Rightarrow> string \<Rightarrow> int" where
  "count_of st name = (case dict_get (rp_counts st) name of Some c \<Rightarrow> c | None \<Rightarrow> 0)"

definition digest_of :: "replay \<Rightarrow> string \<Rightarrow> bytes" where
  "digest_of st name = (case dict_get (rp_digests st) name of Some d \<Rightarrow> d | None \<Rightarrow> [])"

named_theorems replay_simps \<open>effect of the replay operations on the parts of the state\<close>

lemma count_of_add [replay_simps]: "count_of (add_count n k st) m = count_of st m + (if m = n then k else 0)"
  by (simp add: count_of_def add_count_def dict_simps)

lemma digest_of_chain [replay_simps]:
  "digest_of (chain_digest n p st) m = (if m = n then analysis_digest (digest_of st n) p else digest_of st m)"
  by (simp add: digest_of_def chain_digest_def dict_simps)

lemma add_count_fields [replay_simps]:
  "rp_validator (add_count n k st) = rp_validator st" "rp_decoder (add_count n k st) = rp_decoder st"
  "digest_of (add_count n k st) = digest_of st" "rp_last_sequence (add_count n k st) = rp_last_sequence st"
  "rp_flows (add_count n k st) = rp_flows st" "rp_conversations (add_count n k st) = rp_conversations st"
  "rp_events (add_count n k st) = rp_events st"
  by (simp_all add: add_count_def digest_of_def fun_eq_iff)

lemma chain_digest_fields [replay_simps]:
  "rp_validator (chain_digest n p st) = rp_validator st" "rp_decoder (chain_digest n p st) = rp_decoder st"
  "count_of (chain_digest n p st) = count_of st" "rp_last_sequence (chain_digest n p st) = rp_last_sequence st"
  "rp_flows (chain_digest n p st) = rp_flows st" "rp_conversations (chain_digest n p st) = rp_conversations st"
  "rp_events (chain_digest n p st) = rp_events st"
  by (simp_all add: chain_digest_def count_of_def fun_eq_iff)

lemma updates_counts [replay_simps]:
  "count_of (st\<lparr>rp_validator := v\<rparr>) = count_of st" "count_of (st\<lparr>rp_decoder := d\<rparr>) = count_of st"
  "count_of (st\<lparr>rp_last_sequence := n\<rparr>) = count_of st" "count_of (st\<lparr>rp_flows := fs\<rparr>) = count_of st"
  "count_of (st\<lparr>rp_conversations := cs\<rparr>) = count_of st" "count_of (st\<lparr>rp_events := es\<rparr>) = count_of st"
  "count_of (st\<lparr>rp_polls := k\<rparr>) = count_of st"
  by (simp_all add: count_of_def fun_eq_iff)

lemma updates_digests [replay_simps]:
  "digest_of (st\<lparr>rp_validator := v\<rparr>) = digest_of st" "digest_of (st\<lparr>rp_decoder := d\<rparr>) = digest_of st"
  "digest_of (st\<lparr>rp_last_sequence := n\<rparr>) = digest_of st" "digest_of (st\<lparr>rp_flows := fs\<rparr>) = digest_of st"
  "digest_of (st\<lparr>rp_conversations := cs\<rparr>) = digest_of st" "digest_of (st\<lparr>rp_events := es\<rparr>) = digest_of st"
  "digest_of (st\<lparr>rp_polls := k\<rparr>) = digest_of st"
  by (simp_all add: digest_of_def fun_eq_iff)

lemma check_cancel_fields [replay_simps]:
  assumes "check_cancel cancel n st = (c, st')"
  shows "rp_validator st' = rp_validator st" "rp_decoder st' = rp_decoder st" "count_of st' = count_of st"
    "digest_of st' = digest_of st" "rp_last_sequence st' = rp_last_sequence st" "rp_flows st' = rp_flows st"
    "rp_conversations st' = rp_conversations st" "rp_events st' = rp_events st"
  using assms by (auto simp: check_cancel_def replay_simps split: cancel_source.splits prod.splits)

text \<open>Without a request there is no cancellation.\<close>

lemma poll_rows_no: "\<forall>k. \<not> ask k \<Longrightarrow> poll_rows ask p n = (False, p + n)"
  by (induction n arbitrary: p) auto

lemma poll_rows_yes: "fst (poll_rows ask p n) \<Longrightarrow> \<exists>k \<ge> p. k < p + n \<and> ask k"
proof (induction n arbitrary: p)
  case (Suc n)
  show ?case
  proof (cases "ask p")
    case False
    with Suc.prems have "fst (poll_rows ask (Suc p) n)" by simp
    from Suc.IH [OF this] obtain k where "k \<ge> Suc p" "k < Suc p + n" "ask k" by blast
    then show ?thesis by (intro exI [of _ k]) auto
  qed auto
qed simp

section \<open>Work items\<close>

definition has_raw :: "packet_event \<Rightarrow> bool" where
  "has_raw e \<longleftrightarrow> raw e \<noteq> None"

definition raw_length :: "packet_event \<Rightarrow> int" where
  "raw_length e = (case raw e of Some r \<Rightarrow> int (length r) | None \<Rightarrow> 0)"

lemma event_raw: "raw (work_item_to_packet_event i og l) = (if raw_frame i = [] then None else Some (raw_frame i))"
  by (simp add: work_item_to_packet_event_def Let_def)

lemma yield_item_fields [replay_simps]:
  "rp_validator (yield_item og l st i) = rp_validator st" "rp_decoder (yield_item og l st i) = rp_decoder st"
  "digest_of (yield_item og l st i) = digest_of st" "rp_last_sequence (yield_item og l st i) = rp_last_sequence st"
  "rp_flows (yield_item og l st i) = rp_flows st" "rp_conversations (yield_item og l st i) = rp_conversations st"
  "rp_events (yield_item og l st i) = rp_events st @ [work_item_to_packet_event i og l]"
  by (simp_all add: yield_item_def Let_def replay_simps)

lemma yield_items_fields [replay_simps]:
  "rp_validator (foldl (yield_item og l) st is) = rp_validator st"
  "rp_decoder (foldl (yield_item og l) st is) = rp_decoder st"
  "digest_of (foldl (yield_item og l) st is) = digest_of st"
  "rp_last_sequence (foldl (yield_item og l) st is) = rp_last_sequence st"
  "rp_flows (foldl (yield_item og l) st is) = rp_flows st"
  "rp_conversations (foldl (yield_item og l) st is) = rp_conversations st"
  "rp_events (foldl (yield_item og l) st is) = rp_events st @ map (\<lambda>i. work_item_to_packet_event i og l) is"
  by (induction "is" arbitrary: st) (simp_all add: replay_simps)

section \<open>The running counters agree with what has been delivered\<close>

definition counts_agree :: "replay \<Rightarrow> bool" where
  "counts_agree st \<longleftrightarrow>
     count_of st ''decoded_work_items'' = int (length (rp_events st)) \<and>
     count_of st ''raw_candidate_items'' = int (length (filter has_raw (rp_events st))) \<and>
     count_of st ''raw_candidate_bytes'' = sum_list (map raw_length (rp_events st)) \<and>
     count_of st ''terminal_directional_flows'' = int (length (rp_flows st)) \<and>
     count_of st ''terminal_conversations'' = int (length (rp_conversations st))"

lemma counts_agree_init: "counts_agree (replay_init v)"
  by (simp add: counts_agree_def replay_init_def count_of_def)

lemma counts_agree_yield: "counts_agree st \<Longrightarrow> counts_agree (yield_item og l st i)"
  by (simp add: counts_agree_def yield_item_def Let_def replay_simps event_raw has_raw_def raw_length_def)

lemma counts_agree_yields: "counts_agree st \<Longrightarrow> counts_agree (foldl (yield_item og l) st is)"
  by (induction "is" arbitrary: st) (auto intro: counts_agree_yield)

lemma counts_agree_simps:
  "counts_agree (st\<lparr>rp_validator := v\<rparr>) = counts_agree st" "counts_agree (st\<lparr>rp_decoder := d\<rparr>) = counts_agree st"
  "counts_agree (st\<lparr>rp_last_sequence := n\<rparr>) = counts_agree st" "counts_agree (chain_digest nm p st) = counts_agree st"
  "counts_agree (add_count ''packet_index_rows'' k st) = counts_agree st"
  by (simp_all add: counts_agree_def replay_simps)

lemma counts_agree_cancel: "check_cancel c n st = (b, st') \<Longrightarrow> counts_agree st' = counts_agree st"
  by (simp add: counts_agree_def check_cancel_fields)

lemma counts_agree_index: "index_frame cancel p st = (st', out) \<Longrightarrow> counts_agree st \<Longrightarrow> counts_agree st'"
  by (auto simp: index_frame_def Let_def counts_agree_simps split: sum.splits prod.splits dest!: counts_agree_cancel)

lemma counts_agree_work: "work_frame og l p st = (st', out) \<Longrightarrow> counts_agree st \<Longrightarrow> counts_agree st'"
  by (auto simp: work_frame_def Let_def counts_agree_simps split: sum.splits prod.splits if_splits intro!: counts_agree_yields)

lemma counts_agree_flow: "flow_frame p st = (st', out) \<Longrightarrow> counts_agree st \<Longrightarrow> counts_agree st'"
  by (auto simp: flow_frame_def Let_def counts_agree_simps split: sum.splits if_splits)
    (simp add: counts_agree_def replay_simps)

lemma counts_agree_conversation: "conversation_frame p st = (st', out) \<Longrightarrow> counts_agree st \<Longrightarrow> counts_agree st'"
  by (auto simp: conversation_frame_def Let_def counts_agree_simps split: sum.splits if_splits)
    (simp add: counts_agree_def replay_simps)

lemma counts_agree_frame: "replay_frame og l c st f = (st', out) \<Longrightarrow> counts_agree st \<Longrightarrow> counts_agree st'"
  unfolding replay_frame_def Let_def
  by (auto simp: counts_agree_simps split: sum.splits prod.splits if_splits
      dest: counts_agree_index counts_agree_work counts_agree_flow counts_agree_conversation)

lemma counts_agree_loop: "replay_loop og l c st fs = (st', out) \<Longrightarrow> counts_agree st \<Longrightarrow> counts_agree st'"
proof (induction fs arbitrary: st)
  case (Cons f fs)
  obtain st1 o1 where f: "replay_frame og l c st f = (st1, o1)" by fastforce
  with Cons counts_agree_frame [OF f] show ?case by (cases o1) auto
qed simp

section \<open>Digests, order and sequence numbers\<close>

definition digest_name :: "int \<Rightarrow> string option" where
  "digest_name k = map_of [(FRAME_ANALYSIS_PACKET_INDEX, ''packet_index''), (FRAME_ANALYSIS_WORK, ''work''),
     (FRAME_ANALYSIS_FLOW, ''flow''), (FRAME_ANALYSIS_CONVERSATION, ''conversation''), (FRAME_ANALYSIS_STREAM, ''stream'')] k"

text \<open>The digest chain over the payloads of one kind of frame, in the order they arrived.\<close>

definition chain_of :: "string \<Rightarrow> (int \<times> bytes) list \<Rightarrow> bytes \<Rightarrow> bytes" where
  "chain_of name frames start =
     foldl analysis_digest start (map snd (filter (\<lambda>f. digest_name (fst f) = Some name) frames))"

lemma frame_parts:
  assumes "replay_frame og l c st (k, p) = (st', Continue)"
  shows "validator_accept (rp_validator st) k p = Inr (rp_validator st') \<and>
    digest_of st' = (case digest_name k of Some n \<Rightarrow> (digest_of st)(n := analysis_digest (digest_of st n) p) | None \<Rightarrow> digest_of st)"
proof -
  have w: "digest_of (foldl (yield_item og l) s is) = digest_of s" for s "is" by (simp add: replay_simps)
  show ?thesis
    using assms
    by (auto simp: replay_frame_def index_frame_def work_frame_def flow_frame_def conversation_frame_def Let_def
        replay_simps check_cancel_fields digest_name_def fun_eq_iff w
        split: sum.splits prod.splits if_splits)
qed

lemma loop_validator: "replay_loop og l c st fs = (st', Continue) \<Longrightarrow> validator_run (rp_validator st) fs = Inr (rp_validator st')"
proof (induction fs arbitrary: st)
  case Nil
  then show ?case by (simp add: run_Nil)
next
  case (Cons f fs)
  obtain st1 o1 where f: "replay_frame og l c st f = (st1, o1)" by fastforce
  with Cons.prems have "o1 = Continue" "replay_loop og l c st1 fs = (st', Continue)" by (cases o1; simp)+
  with Cons.IH frame_parts [of og l c st "fst f" "snd f" st1] f show ?case
    by (cases f) (auto simp: run_Cons)
qed

lemma loop_digests: "replay_loop og l c st fs = (st', Continue) \<Longrightarrow> digest_of st' n = chain_of n fs (digest_of st n)"
proof (induction fs arbitrary: st)
  case Nil
  then show ?case by (simp add: chain_of_def)
next
  case (Cons f fs)
  obtain st1 o1 where f: "replay_frame og l c st f = (st1, o1)" by fastforce
  with Cons.prems have "o1 = Continue" "replay_loop og l c st1 fs = (st', Continue)" by (cases o1; simp)+
  with Cons.IH frame_parts [of og l c st "fst f" "snd f" st1] f show ?case
    by (auto simp: chain_of_def split: option.splits)
qed

definition sequenced_kinds :: "int list" where
  "sequenced_kinds = [FRAME_ANALYSIS_WORK, FRAME_ANALYSIS_FLOW, FRAME_ANALYSIS_CONVERSATION]"

text \<open>The sequence number a data frame carries right after its schema byte.\<close>

definition frame_sequence :: "bytes \<Rightarrow> int" where
  "frame_sequence payload = be_int (take 4 (drop 1 payload))"

lemma schema_then_sequence:
  assumes "rd_schema w (reader_init p) = Inr (u, r1)" and "rd_unpack FmtI l r1 = Inr (v, r2)"
  shows "v = frame_sequence p"
proof -
  obtain s where "p = word_of_int 1 # s" "r1 = rd_at [word_of_int 1] s"
    using assms(1) by (auto simp: rd_schema_def reader_init_at bind_byte_iff requireR_Inr)
  with assms(2) show ?thesis
    by (auto simp: rd_unpack_iff frame_sequence_def simp del: be_bytes.simps)
qed

lemma work_header_sequence: "work_header (reader_init p) = Inr ((s, a, b, c, d), r) \<Longrightarrow> s = frame_sequence p"
  unfolding work_header_def bindR_Inr by (auto dest: schema_then_sequence)

lemma decode_work_sequence: "decode_work d p = (d', Inr batch) \<Longrightarrow> work_sequence batch = frame_sequence p"
  unfolding decode_work_def Let_def
  by (auto split: sum.splits prod.splits dest: work_header_sequence)

lemma decode_flows_sequence: "decode_flows d p = Inr batch \<Longrightarrow> flow_sequence batch = frame_sequence p"
  unfolding decode_flows_def by (auto simp: bindR_Inr dest!: rd_all_run) (rule schema_then_sequence)

lemma decode_conversations_sequence: "decode_conversations d p = Inr batch \<Longrightarrow> conversation_sequence batch = frame_sequence p"
  unfolding decode_conversations_def by (auto simp: bindR_Inr dest!: rd_all_run) (rule schema_then_sequence)

lemma frame_last_sequence:
  assumes "replay_frame og l c st (k, p) = (st', Continue)"
  shows "if k \<in> set sequenced_kinds then rp_last_sequence st < frame_sequence p \<and> rp_last_sequence st' = frame_sequence p
    else rp_last_sequence st' = rp_last_sequence st"
proof -
  have w: "rp_last_sequence (foldl (yield_item og l) s is) = rp_last_sequence s" for s "is" by (simp add: replay_simps)
  show ?thesis
    using assms
    by (auto simp: replay_frame_def index_frame_def work_frame_def flow_frame_def conversation_frame_def Let_def
        replay_simps check_cancel_fields sequenced_kinds_def w
        split: sum.splits prod.splits if_splits
        dest: decode_work_sequence decode_flows_sequence decode_conversations_sequence)
qed

definition sequences :: "(int \<times> bytes) list \<Rightarrow> int list" where
  "sequences fs = map (\<lambda>f. frame_sequence (snd f)) (filter (\<lambda>f. fst f \<in> set sequenced_kinds) fs)"

lemma loop_sequences: "replay_loop og l c st fs = (st', Continue) \<Longrightarrow> sorted_wrt (<) (rp_last_sequence st # sequences fs)"
proof (induction fs arbitrary: st)
  case Nil
  then show ?case by (simp add: sequences_def)
next
  case (Cons f fs)
  obtain st1 o1 where f: "replay_frame og l c st f = (st1, o1)" by fastforce
  with Cons.prems have "o1 = Continue" and r: "replay_loop og l c st1 fs = (st', Continue)" by (cases o1; simp)+
  with frame_last_sequence [of og l c st "fst f" "snd f" st1] f
  have k: "if fst f \<in> set sequenced_kinds then rp_last_sequence st < frame_sequence (snd f) \<and> rp_last_sequence st1 = frame_sequence (snd f)
    else rp_last_sequence st1 = rp_last_sequence st" by simp
  show ?case
  proof (cases "fst f \<in> set sequenced_kinds")
    case True
    with k have a: "rp_last_sequence st < rp_last_sequence st1" "frame_sequence (snd f) = rp_last_sequence st1" by auto
    from True have "sequences (f # fs) = rp_last_sequence st1 # sequences fs" by (simp add: sequences_def a)
    with Cons.IH [OF r] a(1) show ?thesis by (auto intro: less_trans)
  next
    case False
    with k Cons.IH [OF r] show ?thesis by (simp add: sequences_def)
  qed
qed

section \<open>What a completed replay certifies\<close>

lemma counts_expected: "rp_counts st = expected_counts e \<Longrightarrow>
   count_of st ''decoded_work_items'' = decoded_work_items e \<and> count_of st ''raw_candidate_items'' = raw_candidate_items e \<and>
   count_of st ''raw_candidate_bytes'' = raw_candidate_bytes e \<and>
   count_of st ''terminal_directional_flows'' = terminal_directional_flows e \<and>
   count_of st ''terminal_conversations'' = terminal_conversations e"
  by (simp add: count_of_def expected_counts_def)

lemma digests_expected: "rp_digests st = expected_digests e \<Longrightarrow>
   digest_of st ''packet_index'' = packet_index_digest e \<and> digest_of st ''work'' = work_digest e \<and>
   digest_of st ''flow'' = flow_digest e \<and> digest_of st ''conversation'' = conversation_digest e \<and>
   digest_of st ''stream'' = stream_digest e"
  by (simp add: digest_of_def expected_digests_def)

lemma digests_init: "n \<in> {''packet_index'', ''work'', ''flow'', ''conversation'', ''stream''} \<Longrightarrow> digest_of (replay_init v) n = zeros 32"
  by (auto simp: replay_init_def digest_of_def)

definition certified :: "analysis_plan \<Rightarrow> (int \<times> bytes) list \<Rightarrow> replay \<Rightarrow> analysis_end \<Rightarrow> bool" where
  "certified plan fs st e \<longleftrightarrow>
     (\<exists>ds ep. fs = ds @ [(FRAME_ANALYSIS_END, ep)] \<and> list_all (\<lambda>f. fst f \<in> set data_kinds) ds \<and> end_matches plan ep e) \<and>
     decoded_work_items e = int (length (rp_events st)) \<and>
     raw_candidate_items e = int (length (filter has_raw (rp_events st))) \<and>
     raw_candidate_bytes e = sum_list (map raw_length (rp_events st)) \<and>
     terminal_directional_flows e = int (length (rp_flows st)) \<and>
     terminal_conversations e = int (length (rp_conversations st)) \<and>
     packet_index_digest e = chain_of ''packet_index'' fs (zeros 32) \<and> work_digest e = chain_of ''work'' fs (zeros 32) \<and>
     flow_digest e = chain_of ''flow'' fs (zeros 32) \<and> conversation_digest e = chain_of ''conversation'' fs (zeros 32) \<and>
     stream_digest e = chain_of ''stream'' fs (zeros 32) \<and>
     sorted_wrt (<) (0 # sequences fs)"

lemma replay_complete:
  assumes r: "replay_child og c exit hello ch = (ch', st, Inr (CompleteSummary h e cs tf tc))"
    and v: "sv_hello (ch_validator ch) = Some h0" "sv_end (ch_validator ch) = None"
  shows "ce_returncode exit = 0 \<and> h = hello \<and> tf = rp_flows st \<and> tc = rp_conversations st \<and>
    proc_stdin (ch_process ch') = proc_stdin (ch_process ch) \<and> \<not> proc_running (ch_process ch') \<and> ch_closed ch' \<and>
    (\<exists>fs m. frames_of_stream (proc_stdout (ch_process ch)) = (fs, EOFError m) \<and>
       replay_loop og (normalized_link_type h) c (replay_init (ch_validator ch)) fs = (st, Continue) \<and>
       certified (sv_plan (ch_validator ch)) fs st e)"
proof -
  let ?v = "ch_validator ch"
  obtain fs stop where f: "frames_of_stream (proc_stdout (ch_process ch)) = (fs, stop)" by fastforce
  obtain st1 out where l: "replay_loop og (normalized_link_type hello) c (replay_init ?v) fs = (st1, out)" by fastforce
  from r f l have out: "out = Continue" "st1 = st" and k: "\<exists>m. stop = EOFError m"
    and c: "check_returncode exit (certify hello exit st) = Inr (CompleteSummary h e cs tf tc)"
    and ch': "ch' = after_eof exit (is_ok (certify hello exit st)) (ch\<lparr>ch_validator := rp_validator st\<rparr>)"
    by (auto simp: replay_child_def Let_def split: outcome.splits py_error.splits)
  from c have code: "ce_returncode exit = 0" and ce: "certify hello exit st = Inr (CompleteSummary h e cs tf tc)"
    by (auto simp: check_returncode_def split: if_splits)
  then have fin: "validator_finish (rp_validator st) 0 = Inr e" "rp_counts st = expected_counts e" "rp_digests st = expected_digests e"
    and t: "h = hello" "tf = rp_flows st" "tc = rp_conversations st" "\<not> ce_wait_times_out exit"
    by (auto simp: certify_def bindE_Inr guardE_Inr split: if_splits)
  note l' = l [unfolded out]
  have run: "validator_run ?v fs = Inr (rp_validator st)"
    using loop_validator [OF l'] by (simp add: replay_init_def)
  have "\<exists>ds ep. fs = ds @ [(FRAME_ANALYSIS_END, ep)] \<and> list_all (\<lambda>f. fst f \<in> set data_kinds) ds \<and> end_matches (sv_plan ?v) ep e"
    using run fin(1) v unfolding run_streaming [OF v] by (auto simp: validator_finish_def)
  moreover have "counts_agree st" using counts_agree_loop [OF l' counts_agree_init] .
  moreover have "sorted_wrt (<) (0 # sequences fs)" using loop_sequences [OF l'] by (simp add: replay_init_def)
  moreover have "digest_of st n = chain_of n fs (zeros 32)" if "n \<in> {''packet_index'', ''work'', ''flow'', ''conversation'', ''stream''}" for n
    using loop_digests [OF l', of n] digests_init [OF that] by simp
  ultimately have "certified (sv_plan ?v) fs st e"
    using counts_expected [OF fin(2)] digests_expected [OF fin(3)] by (simp add: certified_def counts_agree_def)
  moreover have "proc_stdin (ch_process ch') = proc_stdin (ch_process ch)" "\<not> proc_running (ch_process ch')" "ch_closed ch'"
    unfolding ch' using t(4) ce by (simp_all add: after_eof_def Let_def)
  ultimately show ?thesis using code t f k l' by blast
qed

section \<open>What the pipe may still hold\<close>

lemma read_short: "length (stream_bytes s) < 10 \<Longrightarrow> read_transport_frame s = Inl (EOFError ''Rust analysis child closed a truncated frame'')"
  using read_exact_loop_spec [of "[]" 10 s "\<lambda>_. EOFError ''Rust analysis child closed a truncated frame''"]
  by (auto simp: read_transport_frame_def read_transport_exact_def)

text \<open>
  A pipe that carries complete frames and then fewer than ten more bytes delivers exactly the
  frames: the rest of a cut-off header ends the stream as a normal end of file does.
\<close>

lemma frames_of_stream_frames:
  "stream_bytes s = concat bss @ tail \<Longrightarrow> mapE (\<lambda>(k, p). encode_transport_frame k p) fs = Inr bss \<Longrightarrow> length tail < 10 \<Longrightarrow>
     frames_of_stream s = (fs, EOFError ''Rust analysis child closed a truncated frame'')"
proof (induction fs arbitrary: s bss)
  case Nil
  then show ?case by (simp add: frames_of_stream.simps [of s] read_short)
next
  case (Cons f fs)
  obtain k p where f: "f = (k, p)" by fastforce
  from Cons.prems(2) obtain b bs where b: "encode_transport_frame k p = Inr b" "mapE (\<lambda>(k, p). encode_transport_frame k p) fs = Inr bs"
    and bss: "bss = b # bs" by (auto simp: f bindE_Inr)
  from Cons.prems(1) have "stream_bytes s = b @ (concat bs @ tail)" by (simp add: bss)
  from frame_roundtrip [OF b(1) this] obtain s' where s': "read_transport_frame s = Inr ((k, p), s')" "stream_bytes s' = concat bs @ tail"
    by blast
  from Cons.IH [OF s'(2) b(2) Cons.prems(3)] show ?case
    by (simp add: frames_of_stream.simps [of s] s'(1) f)
qed

lemma frame_no_cancel: "replay_frame og l NoCancel st f = (st', out) \<Longrightarrow> out \<noteq> Cancelled"
  by (auto simp: replay_frame_def index_frame_def work_frame_def flow_frame_def conversation_frame_def check_cancel_def Let_def
      split: sum.splits prod.splits if_splits)

lemma loop_no_cancel: "replay_loop og l NoCancel st fs = (st', out) \<Longrightarrow> out \<noteq> Cancelled"
proof (induction fs arbitrary: st)
  case (Cons f fs)
  obtain st1 o1 where f: "replay_frame og l NoCancel st f = (st1, o1)" by fastforce
  with Cons frame_no_cancel [OF f] show ?case by (cases o1) auto
qed auto

lemma replay_events_prefix_frame: "replay_frame og l c st f = (st', out) \<Longrightarrow> \<exists>es. rp_events st' = rp_events st @ es"
  by (cases f) (auto simp: replay_frame_def index_frame_def work_frame_def flow_frame_def conversation_frame_def Let_def
      replay_simps check_cancel_fields split: sum.splits prod.splits if_splits)

section \<open>The whole call\<close>

lemma handshake_first_frame:
  assumes "child_ok ch" "\<not> ch_started ch" "child_start ch = (c, Inr (Some hello))"
  shows "\<exists>hp sent. read_transport_frame (proc_stdout (ch_process ch)) = Inr ((FRAME_ANALYSIS_HELLO, hp), proc_stdout (ch_process c)) \<and>
    hello_matches (ch_plan ch) hp hello \<and> ch_validator c = (ch_validator ch)\<lparr>sv_hello := Some hello\<rparr> \<and>
    plan_frame (ch_plan ch) = Inr sent \<and> proc_stdin (ch_process c) = proc_stdin (ch_process ch) @ sent"
proof -
  have hs: "child_handshake ch = (c, Inr ())" and h: "sv_hello (ch_validator c) = Some hello"
    using assms by (auto simp: child_start_def split: prod.splits sum.splits if_splits)
  from handshake_cases(1) [OF hs] obtain k p sent where k: "validator_accept (ch_validator ch) k p = Inr (ch_validator c)"
    and r: "plan_frame (ch_plan ch) = Inr sent" "proc_stdin (ch_process c) = proc_stdin (ch_process ch) @ sent"
      "read_transport_frame (proc_stdout (ch_process ch)) = Inr ((k, p), proc_stdout (ch_process c))" by blast
  have "sv_hello (ch_validator ch) = None" "sv_plan (ch_validator ch) = ch_plan ch" using assms(1,2) by (auto simp: child_ok_def)
  with k h have "k = FRAME_ANALYSIS_HELLO" "hello_matches (ch_plan ch) p hello" "ch_validator c = (ch_validator ch)\<lparr>sv_hello := Some hello\<rparr>"
    by (auto simp: accept_Inr)
  with r show ?thesis by blast
qed

lemma aggregate_complete:
  assumes a: "aggregate_replay_events d mode og ps c proc exit = (left, events, Inr (CompleteSummary h e cs tf tc))"
  shows "\<exists>plan payload pl sent final hp fs m st.
     build_aggregate_analysis_plan d mode og ps True = Inr plan \<and>
     encode_analysis_plan plan = Inr payload \<and> decode_analysis_plan payload = Inr pl \<and>
     encode_transport_frame FRAME_ANALYSIS_PLAN payload = Inr sent \<and>
     left = Some final \<and> proc_stdin (ch_process final) = proc_stdin proc @ sent \<and>
     \<not> proc_running (ch_process final) \<and> ch_closed final \<and> ce_returncode exit = 0 \<and>
     frames_of_stream (proc_stdout proc) = ((FRAME_ANALYSIS_HELLO, hp) # fs, EOFError m) \<and> hello_matches pl hp h \<and>
     replay_loop og (normalized_link_type h) c (replay_init \<lparr>sv_plan = pl, sv_hello = Some h, sv_end = None\<rparr>) fs = (st, Continue) \<and>
     events = rp_events st \<and> tf = rp_flows st \<and> tc = rp_conversations st \<and> certified pl fs st e"
proof -
  obtain plan child where plan: "build_aggregate_analysis_plan d mode og ps True = Inr plan" and ci: "child_init proc plan = Inr child"
    using a by (auto simp: aggregate_replay_events_def bindE_Inr split: sum.splits)
  from ci obtain payload where pl: "encode_analysis_plan plan = Inr payload" "decode_analysis_plan payload = Inr (ch_plan child)"
    and p: "ch_process child = proc" and v: "validator_init (ch_plan child) = Inr (ch_validator child)"
    by (auto simp: child_init_def bindE_Inr)
  note ok = child_init_ok [OF ci]
  obtain c1 hello st where st: "child_start child = (c1, Inr (Some hello))"
    and r: "replay_child og c exit hello c1 = (the left, st, Inr (CompleteSummary h e cs tf tc))" "events = rp_events st" "left = Some (the left)"
    using a plan ci by (auto simp: aggregate_replay_events_def split: prod.splits sum.splits option.splits)
  from handshake_first_frame [OF _ _ st] ok p obtain hp sent where
    hs: "read_transport_frame (proc_stdout proc) = Inr ((FRAME_ANALYSIS_HELLO, hp), proc_stdout (ch_process c1))"
      "hello_matches (ch_plan child) hp hello" "ch_validator c1 = (ch_validator child)\<lparr>sv_hello := Some hello\<rparr>"
      "plan_frame (ch_plan child) = Inr sent" "proc_stdin (ch_process c1) = proc_stdin proc @ sent" by blast
  have "encode_analysis_plan (ch_plan child) = Inr payload" using pl(2) by (simp add: decode_analysis_plan_Inr)
  with hs(4) have sent: "encode_transport_frame FRAME_ANALYSIS_PLAN payload = Inr sent" by (simp add: plan_frame_def)
  have "encode_analysis_plan (ch_plan child) = Inr payload" using pl(2) by (simp add: decode_analysis_plan_Inr)
  with v pl(2) have "ch_validator child = \<lparr>sv_plan = ch_plan child, sv_hello = None, sv_end = None\<rparr>"
    by (auto simp: validator_init_def)
  with hs(3) have v1: "ch_validator c1 = \<lparr>sv_plan = ch_plan child, sv_hello = Some hello, sv_end = None\<rparr>" by simp
  from replay_complete [OF r(1), of hello] v1
  obtain fs m where f: "ce_returncode exit = 0" "h = hello" "tf = rp_flows st" "tc = rp_conversations st"
    "proc_stdin (ch_process (the left)) = proc_stdin (ch_process c1)" "\<not> proc_running (ch_process (the left))" "ch_closed (the left)"
    "frames_of_stream (proc_stdout (ch_process c1)) = (fs, EOFError m)"
    "replay_loop og (normalized_link_type h) c (replay_init \<lparr>sv_plan = ch_plan child, sv_hello = Some h, sv_end = None\<rparr>) fs = (st, Continue)"
    "certified (ch_plan child) fs st e" by auto
  have "frames_of_stream (proc_stdout proc) = ((FRAME_ANALYSIS_HELLO, hp) # fs, EOFError m)"
    by (simp add: frames_of_stream.simps [of "proc_stdout proc"] hs(1) f(8))
  with plan pl sent r(2,3) hs(2,5) f show ?thesis by metis
qed

end
