(* ===== verification/CanonicalJson.thy ===== *)
theory CanonicalJson imports PyValue begin

text \<open>
  The canonical text the planner hashes: \<open>_canonical_value\<close>, \<open>_canonical_json\<close>
  (core/forensics/rust\_plan.py) and the part of \<open>json.dumps\<close> they use (sorted keys, compact
  separators, \<open>ensure_ascii\<close>).  The main result, \<open>json_dumps_inj\<close>, says that two
  canonical values with the same text are the same value, so neither the de-duplication of selector
  programs by text nor the digests can confuse two plans.
\<close>

datatype json =
    JNull
  | JBool bool
  | JInt int
  | JStr string
  | JList "json list"
  | JObj "(string \<times> json) list"

section \<open>Rendering\<close>

text \<open>\<open>json.encoder.py_encode_basestring_ascii\<close>: the two-character escapes, and a
  \<open>u00xx\<close> escape for everything outside the printable ASCII range.\<close>

definition json_escape :: "char \<Rightarrow> string" where
  "json_escape c = (let n = (of_char c :: nat); bs = char_of (92::nat) in
     if n = 34 \<or> n = 92 then [bs, c]
     else if n = 8 then [bs, CHR ''b'']
     else if n = 12 then [bs, CHR ''f'']
     else if n = 10 then [bs, CHR ''n'']
     else if n = 13 then [bs, CHR ''r'']
     else if n = 9 then [bs, CHR ''t'']
     else if 32 \<le> n \<and> n \<le> 126 then [c]
     else [bs, CHR ''u''] @ show_hex 4 n)"

definition quote_char :: char where
  "quote_char = CHR 0x22"

definition json_string :: "string \<Rightarrow> string" where
  "json_string s = [quote_char] @ concat (map json_escape s) @ [quote_char]"

fun comma_join :: "string list \<Rightarrow> string" where
  "comma_join [] = []"
| "comma_join [s] = s"
| "comma_join (s # t # ss) = s @ '','' @ comma_join (t # ss)"

fun json_dumps :: "json \<Rightarrow> string" where
  "json_dumps JNull = ''null''"
| "json_dumps (JBool b) = (if b then ''true'' else ''false'')"
| "json_dumps (JInt i) = show_int i"
| "json_dumps (JStr s) = json_string s"
| "json_dumps (JList js) = ''['' @ comma_join (map json_dumps js) @ '']''"
| "json_dumps (JObj d) = ''{'' @ comma_join (map (\<lambda>(k, t). json_string k @ '':'' @ t)
     (sort_key fst (map (\<lambda>(k, v). (k, json_dumps v)) d))) @ ''}''"

section \<open>Canonical values\<close>

lemma mapE_cong [fundef_cong]:
  "xs = ys \<Longrightarrow> (\<And>x. x \<in> set ys \<Longrightarrow> f x = g x) \<Longrightarrow> mapE f xs = mapE g ys"
proof (induction ys arbitrary: xs)
  case (Cons y ys)
  then have "f y = g y" "mapE f ys = mapE g ys" by simp_all
  with Cons.prems show ?case by simp
qed simp

fun canonical_value :: "pyval \<Rightarrow> json result" where
  "canonical_value (PyBytes b) = Inr (JObj [(''bytes_hex'', JStr (bytes_hex b))])"
| "canonical_value (PyTuple vs) = bindE (mapE canonical_value vs) (\<lambda>js. Inr (JList js))"
| "canonical_value (PyList vs) = bindE (mapE canonical_value vs) (\<lambda>js. Inr (JList js))"
| "canonical_value (PyDict d) =
     bindE (mapE (\<lambda>(k, v). bindE (canonical_value v) (\<lambda>j. Inr (k, j))) (sort_key fst d)) (\<lambda>kjs. Inr (JObj kjs))"
| "canonical_value PyNone = Inr JNull"
| "canonical_value (PyBool b) = Inr (JBool b)"
| "canonical_value (PyInt i) = Inr (JInt i)"
| "canonical_value (PyStr s) = Inr (JStr s)"
| "canonical_value (PyFloat x) = Inl (TypeError ''unsupported canonical plan value: float'')"

definition canonical_json :: "pyval \<Rightarrow> string result" where
  "canonical_json v = bindE (canonical_value v) (\<lambda>j. Inr (json_dumps j))"


section \<open>The text determines the value\<close>

text \<open>The values \<open>canonical_value\<close> builds: every object has strictly sorted keys.\<close>

fun json_ok :: "json \<Rightarrow> bool" where
  "json_ok (JList js) \<longleftrightarrow> list_all json_ok js"
| "json_ok (JObj d) \<longleftrightarrow> sorted (map fst d) \<and> distinct (map fst d) \<and> list_all (\<lambda>(k, v). json_ok v) d"
| "json_ok _ \<longleftrightarrow> True"

text \<open>Dictionaries have distinct keys at every level.\<close>

fun pyval_ok :: "pyval \<Rightarrow> bool" where
  "pyval_ok (PyTuple vs) \<longleftrightarrow> list_all pyval_ok vs"
| "pyval_ok (PyList vs) \<longleftrightarrow> list_all pyval_ok vs"
| "pyval_ok (PyDict d) \<longleftrightarrow> distinct (map fst d) \<and> list_all (\<lambda>(k, v). pyval_ok v) d"
| "pyval_ok _ \<longleftrightarrow> True"

lemma mapE_items_keys:
  "mapE (\<lambda>(k, v). bindE (f v) (\<lambda>j. Inr (k, j))) xs = Inr ys \<Longrightarrow> map fst ys = map fst xs"
  by (induction xs arbitrary: ys) (auto simp: result_simps)

lemma canonical_value_ok: "canonical_value v = Inr j \<Longrightarrow> pyval_ok v \<Longrightarrow> json_ok j"
proof (induction v arbitrary: j rule: canonical_value.induct)
  case (2 vs)
  then show ?case by (fastforce simp: bindE_Inr list_all_iff dest: mapE_Inr_member)
next
  case (3 vs)
  then show ?case by (fastforce simp: bindE_Inr list_all_iff dest: mapE_Inr_member)
next
  case (4 d)
  then obtain kjs where m: "mapE (\<lambda>(k, v). bindE (canonical_value v) (\<lambda>j. Inr (k, j))) (sort_key fst d) = Inr kjs" "j = JObj kjs"
    by (auto simp: bindE_Inr)
  have "json_ok w" if w: "(k, w) \<in> set kjs" for k w
  proof -
    obtain v where v: "(k, v) \<in> set d" "canonical_value v = Inr w"
      using mapE_Inr_member [OF m(1) w] by (auto simp: bindE_Inr)
    have "(k, v) \<in> set (sort_key fst d)" using v(1) by simp
    from "4.IH" [OF this refl v(2)] v(1) "4.prems"(2) show ?thesis by (auto simp: list_all_iff)
  qed
  with "4.prems"(2) show ?case
    by (auto simp: m(2) mapE_items_keys [OF m(1)] distinct_map list_all_iff)
qed auto


lemma span_unique:
  assumes "xs @ r = ys @ r'" and "list_all P xs" and "list_all P ys"
    and "r = [] \<or> \<not> P (hd r)" and "r' = [] \<or> \<not> P (hd r')"
  shows "xs = ys \<and> r = r'"
  using assms
proof (induction xs arbitrary: ys)
  case Nil
  then show ?case by (cases ys; cases r) auto
next
  case (Cons x xs)
  then show ?case by (cases ys; cases r') auto
qed

definition json_delim :: "string \<Rightarrow> bool" where
  "json_delim r \<longleftrightarrow> r = [] \<or> hd r \<in> {CHR '','', CHR '']'', CHR ''}''}"

lemma json_delim_simps [simp]:
  "json_delim []" "json_delim (CHR '','' # r)" "json_delim (CHR '']'' # r)" "json_delim (CHR ''}'' # r)"
  by (simp_all add: json_delim_def)

lemma show_int_prefix:
  assumes "show_int i @ r = show_int j @ r'" and "json_delim r" and "json_delim r'"
  shows "i = j \<and> r = r'"
proof -
  let ?P = "\<lambda>c. c = CHR ''-'' \<or> 48 \<le> (of_char c :: nat) \<and> (of_char c :: nat) < 58"
  have "show_int i = show_int j \<and> r = r'"
    using assms by (intro span_unique [where P = ?P]) (auto simp: list_all_iff json_delim_def dest: show_int_chars)
  then show ?thesis by (simp add: show_int_inj)
qed

definition unhex :: "char \<Rightarrow> nat" where
  "unhex c = (let n = (of_char c :: nat) in if n < 58 then n - 48 else n - 87)"

text \<open>Reading one escaped character back.\<close>

definition json_unescape :: "string \<Rightarrow> char \<times> string" where
  "json_unescape s = (let n = (of_char (hd s) :: nat); m = (of_char (s ! 1) :: nat) in
     if n \<noteq> 92 then (hd s, tl s)
     else if m = 98 then (char_of (8::nat), drop 2 s)
     else if m = 102 then (char_of (12::nat), drop 2 s)
     else if m = 110 then (char_of (10::nat), drop 2 s)
     else if m = 114 then (char_of (13::nat), drop 2 s)
     else if m = 116 then (char_of (9::nat), drop 2 s)
     else if m = 117 then (char_of (unhex (s ! 4) * 16 + unhex (s ! 5)), drop 6 s)
     else (s ! 1, drop 2 s))"

lemma unhex_hex_char: "d < 16 \<Longrightarrow> unhex (hex_char d) = d"
  by (simp add: unhex_def hex_char_def Let_def)

lemma char_is: "(of_char c :: nat) = n \<Longrightarrow> c = char_of n"
  using char_of_char [of c] by metis

lemma hex_char_pair: "n < 256 \<Longrightarrow> unhex (hex_char (n div 16 mod 16)) * 16 + unhex (hex_char (n mod 16)) = n"
  by (simp add: unhex_hex_char)

lemma show_hex_4: "show_hex 4 n = [hex_char (n div 16 div 16 div 16 mod 16), hex_char (n div 16 div 16 mod 16), hex_char (n div 16 mod 16), hex_char (n mod 16)]"
proof -
  have four: "(4::nat) = Suc (Suc (Suc (Suc 0)))" by simp
  show ?thesis by (simp only: four show_hex.simps append.simps)
qed

lemma json_unescape_escape: "json_unescape (json_escape c @ r) = (c, r)"
proof -
  define n where "n = (of_char c :: nat)"
  have c: "c = char_of n" and n: "n < 256" by (simp_all add: n_def)
  obtain a b where h: "show_hex 4 n = [a, b, hex_char (n div 16 mod 16), hex_char (n mod 16)]"
    by (simp only: show_hex_4 list.inject simp_thms)
  show ?thesis
  proof (cases "n \<in> {34, 92, 8, 12, 10, 13, 9}")
    case True
    then have "n = 34 \<or> n = 92 \<or> n = 8 \<or> n = 12 \<or> n = 10 \<or> n = 13 \<or> n = 9" by simp
    then show ?thesis by (elim disjE) (simp_all add: json_escape_def json_unescape_def c Let_def)
  next
    case special: False
    show ?thesis
    proof (cases "32 \<le> n \<and> n \<le> 126")
      case True
      with special have "json_escape c = [c]" "(of_char c :: nat) \<noteq> 92"
        unfolding json_escape_def n_def [symmetric] by (simp_all add: Let_def)
      then show ?thesis by (simp add: json_unescape_def)
    next
      case False
      with special have "json_escape c = [char_of (92::nat), CHR ''u'', a, b, hex_char (n div 16 mod 16), hex_char (n mod 16)]"
        unfolding json_escape_def n_def [symmetric] by (simp add: Let_def h)
      then show ?thesis using hex_char_pair [OF n] by (simp add: json_unescape_def c)
    qed
  qed
qed

lemma json_escape_prefix: "json_escape c @ r = json_escape c' @ r' \<Longrightarrow> c = c' \<and> r = r'"
  by (metis json_unescape_escape prod.inject)

lemma json_escape_no_quote: "json_escape c @ r \<noteq> quote_char # r'"
  using json_unescape_escape [of c r] by (auto simp: json_unescape_def quote_char_def json_escape_def split: if_splits)

lemma json_string_prefix: "json_string s @ r = json_string s' @ r' \<Longrightarrow> s = s' \<and> r = r'"
proof -
  have "concat (map json_escape s) @ quote_char # r = concat (map json_escape s') @ quote_char # r' \<Longrightarrow> s = s' \<and> r = r'"
  proof (induction s arbitrary: s')
    case Nil
    then show ?case using json_escape_no_quote by (cases s') (auto, metis)
  next
    case (Cons c s)
    have "s' \<noteq> []"
    proof
      assume "s' = []"
      with Cons.prems have "json_escape c @ (concat (map json_escape s) @ quote_char # r) = quote_char # r'" by simp
      with json_escape_no_quote show False by blast
    qed
    then obtain c' t where s': "s' = c' # t" by (cases s') auto
    with Cons.prems have "json_escape c @ (concat (map json_escape s) @ quote_char # r) = json_escape c' @ (concat (map json_escape t) @ quote_char # r')"
      by simp
    from json_escape_prefix [OF this] Cons.IH [of t] s' show ?case by auto
  qed
  then show "json_string s @ r = json_string s' @ r' \<Longrightarrow> s = s' \<and> r = r'" by (simp add: json_string_def)
qed


text \<open>Comma-separated items whose texts are self-delimiting.\<close>

definition item_text :: "('a \<Rightarrow> string) \<Rightarrow> ('a \<Rightarrow> bool) \<Rightarrow> 'a \<Rightarrow> bool" where
  "item_text f Q x \<longleftrightarrow> f x \<noteq> [] \<and> hd (f x) \<notin> {CHR '','', CHR '']'', CHR ''}''}
     \<and> (\<forall>y r r'. Q y \<longrightarrow> f x @ r = f y @ r' \<longrightarrow> json_delim r \<longrightarrow> json_delim r' \<longrightarrow> x = y \<and> r = r')"

lemma comma_join_Cons: "ss \<noteq> [] \<Longrightarrow> comma_join (s # ss) = s @ CHR '','' # comma_join ss"
  by (cases ss) auto

lemma comma_join_prefix:
  assumes "comma_join (map f xs) @ c # r = comma_join (map f ys) @ c # r'"
    and "\<And>x. x \<in> set xs \<Longrightarrow> item_text f Q x" and "\<And>y. y \<in> set ys \<Longrightarrow> Q y \<and> f y \<noteq> [] \<and> hd (f y) \<noteq> c"
    and c: "c = CHR '']'' \<or> c = CHR ''}''"
  shows "xs = ys \<and> r = r'"
  using assms(1-3)
proof (induction xs arbitrary: ys)
  case Nil
  show ?case
  proof (cases ys)
    case (Cons y ys')
    then have "\<exists>t. comma_join (map f ys) = f y @ t" by (cases ys') auto
    moreover have "f y \<noteq> [] \<and> hd (f y) \<noteq> c" using Nil.prems(3) [of y] Cons by simp
    ultimately show ?thesis using Nil.prems(1) by (cases "f y") auto
  qed (use Nil in simp)
next
  case (Cons x xs)
  have i: "f x \<noteq> []" "hd (f x) \<noteq> c"
    and u: "\<And>y r r'. Q y \<Longrightarrow> f x @ r = f y @ r' \<Longrightarrow> json_delim r \<Longrightarrow> json_delim r' \<Longrightarrow> x = y \<and> r = r'"
    using Cons.prems(2) [of x] c by (auto simp: item_text_def)
  have split: "\<exists>s. comma_join (map f (z # zs)) @ c # q = f z @ s \<and> json_delim s \<and>
      (zs = [] \<longrightarrow> s = c # q) \<and> (zs \<noteq> [] \<longrightarrow> s = CHR '','' # comma_join (map f zs) @ c # q)" for z zs q
    using c by (cases zs) auto
  have "ys \<noteq> []"
  proof
    assume "ys = []"
    with Cons.prems(1) split [of x xs r] i show False by (cases "f x") auto
  qed
  then obtain y ys' where ys: "ys = y # ys'" by (cases ys) auto
  obtain s s' where s: "comma_join (map f (x # xs)) @ c # r = f x @ s" "json_delim s"
      "xs = [] \<longrightarrow> s = c # r" "xs \<noteq> [] \<longrightarrow> s = CHR '','' # comma_join (map f xs) @ c # r"
    and s': "comma_join (map f (y # ys')) @ c # r' = f y @ s'" "json_delim s'"
      "ys' = [] \<longrightarrow> s' = c # r'" "ys' \<noteq> [] \<longrightarrow> s' = CHR '','' # comma_join (map f ys') @ c # r'"
    using split [of x xs r] split [of y ys' r'] by blast
  from s(1) s'(1) Cons.prems(1) ys have "f x @ s = f y @ s'" by simp
  from u [OF _ this s(2) s'(2)] Cons.prems(3) ys have eq: "x = y" "s = s'" by auto
  show ?case
  proof (cases "xs = []")
    case True
    with s(3) s'(3,4) eq c have "ys' = [] \<and> r = r'" by (cases "ys' = []") auto
    with True ys eq show ?thesis by simp
  next
    case False
    with s(4) s'(3,4) eq c have "ys' \<noteq> []" by (cases "ys' = []") auto
    with False s(4) s'(4) eq have "comma_join (map f xs) @ c # r = comma_join (map f ys') @ c # r'" by simp
    from Cons.IH [OF this] Cons.prems(2,3) ys eq show ?thesis by auto
  qed
qed

lemma json_dumps_hd: "json_dumps j \<noteq> [] \<and> hd (json_dumps j) \<notin> {CHR '','', CHR '']'', CHR ''}''}"
proof (cases j)
  case (JInt i)
  have "hd (show_int i) \<in> set (show_int i)" by simp
  from show_int_chars [OF this] JInt show ?thesis by auto
qed (auto simp: json_string_def quote_char_def)

definition item_dumps :: "string \<times> json \<Rightarrow> string" where
  "item_dumps p = json_string (fst p) @ '':'' @ json_dumps (snd p)"

lemma json_dumps_obj: "sorted (map fst d) \<Longrightarrow> json_dumps (JObj d) = ''{'' @ comma_join (map item_dumps d) @ ''}''"
  by (simp add: sort_key_id_if_sorted item_dumps_def [abs_def] comp_def split_beta)


lemma json_head_cases: "hd (json_dumps j) = (case j of JNull \<Rightarrow> CHR ''n'' | JBool b \<Rightarrow> (if b then CHR ''t'' else CHR ''f'')
   | JInt i \<Rightarrow> hd (show_int i) | JStr s \<Rightarrow> quote_char | JList js \<Rightarrow> CHR ''['' | JObj d \<Rightarrow> CHR ''{'')"
  by (cases j) (auto simp: json_string_def)

lemma show_int_hd: "hd (show_int i) = CHR ''-'' \<or> 48 \<le> (of_char (hd (show_int i)) :: nat) \<and> (of_char (hd (show_int i)) :: nat) < 58"
  using show_int_chars [OF hd_in_set [OF show_int_nonempty]] by blast

definition json_kind :: "json \<Rightarrow> nat" where
  "json_kind j = (case j of JNull \<Rightarrow> 0 | JBool b \<Rightarrow> (if b then 1 else 2) | JInt i \<Rightarrow> 3 | JStr s \<Rightarrow> 4 | JList js \<Rightarrow> 5 | JObj d \<Rightarrow> 6)"

text \<open>The first character tells the kind of value.\<close>

definition kind_of_char :: "char \<Rightarrow> nat" where
  "kind_of_char c = (if c = CHR ''n'' then 0 else if c = CHR ''t'' then 1 else if c = CHR ''f'' then 2
     else if c = quote_char then 4 else if c = CHR ''['' then 5 else if c = CHR ''{'' then 6 else 3)"

lemma kind_of_json: "kind_of_char (hd (json_dumps j)) = json_kind j"
proof (cases j)
  case (JInt i)
  with show_int_hd [of i] show ?thesis
    by (auto simp: json_kind_def kind_of_char_def quote_char_def)
qed (auto simp: json_kind_def kind_of_char_def quote_char_def json_string_def)

lemma json_dumps_kind:
  assumes "json_dumps j @ r = json_dumps j' @ r'"
  shows "json_kind j = json_kind j'"
proof -
  have "hd (json_dumps j @ r) = hd (json_dumps j' @ r')" using assms by simp
  then have "hd (json_dumps j) = hd (json_dumps j')" using json_dumps_hd by simp
  then show ?thesis by (metis kind_of_json)
qed

lemma json_list_prefix:
  assumes "json_dumps (JList xs) @ r = json_dumps (JList ys) @ r'" and "list_all json_ok ys"
    and "\<And>x. x \<in> set xs \<Longrightarrow> item_text json_dumps json_ok x"
  shows "xs = ys \<and> r = r'"
proof (rule comma_join_prefix [where c = "CHR '']''" and Q = json_ok])
  show "comma_join (map json_dumps xs) @ CHR '']'' # r = comma_join (map json_dumps ys) @ CHR '']'' # r'"
    using assms(1) by simp
qed (use assms(2,3) json_dumps_hd in \<open>auto simp: list_all_iff\<close>)

lemma json_obj_prefix:
  assumes "json_dumps (JObj d) @ r = json_dumps (JObj e) @ r'" and "json_ok (JObj d)" and "json_ok (JObj e)"
    and "\<And>x. x \<in> set d \<Longrightarrow> item_text item_dumps (\<lambda>p. json_ok (snd p)) x"
  shows "d = e \<and> r = r'"
proof (rule comma_join_prefix [where c = "CHR ''}''" and Q = "\<lambda>p. json_ok (snd p)"])
  show "comma_join (map item_dumps d) @ CHR ''}'' # r = comma_join (map item_dumps e) @ CHR ''}'' # r'"
    using assms(1-3) by (simp add: json_dumps_obj del: json_dumps.simps(6))
qed (use assms(3,4) in \<open>auto simp: list_all_iff item_dumps_def json_string_def quote_char_def\<close>)

lemma item_dumps_text:
  assumes "item_text json_dumps json_ok v"
  shows "item_text item_dumps (\<lambda>p. json_ok (snd p)) (k, v)"
proof -
  have "(k, v) = p \<and> r = r'"
    if p: "json_ok (snd p)" "item_dumps (k, v) @ r = item_dumps p @ r'" "json_delim r" "json_delim r'" for p r r'
  proof -
    have "json_string k @ (CHR '':'' # json_dumps v @ r) = json_string (fst p) @ (CHR '':'' # json_dumps (snd p) @ r')"
      using p(2) by (simp add: item_dumps_def)
    from json_string_prefix [OF this] have k: "k = fst p" "json_dumps v @ r = json_dumps (snd p) @ r'" by auto
    from k(2) assms p have "v = snd p \<and> r = r'" unfolding item_text_def by blast
    with k(1) show ?thesis by auto
  qed
  then show ?thesis
    by (simp add: item_text_def) (simp add: item_dumps_def json_string_def quote_char_def)
qed

lemma json_dumps_text: "json_ok j \<Longrightarrow> item_text json_dumps json_ok j"
proof (induction j)
  case (JInt i)
  have "JInt i = j' \<and> r = r'"
    if "json_dumps (JInt i) @ r = json_dumps j' @ r'" "json_delim r" "json_delim r'" for j' r r'
    using json_dumps_kind [OF that(1)] that show_int_prefix [of i r _ r']
    by (cases j') (auto simp: json_kind_def split: if_splits)
  then show ?case using json_dumps_hd unfolding item_text_def by blast
next
  case (JStr s)
  have "JStr s = j' \<and> r = r'" if "json_dumps (JStr s) @ r = json_dumps j' @ r'" for j' r r'
    using json_dumps_kind [OF that] that json_string_prefix [of s r _ r']
    by (cases j') (auto simp: json_kind_def split: if_splits)
  then show ?case using json_dumps_hd unfolding item_text_def by blast
next
  case (JList js)
  then have it: "item_text json_dumps json_ok x" if "x \<in> set js" for x
    using that by (auto simp: list_all_iff)
  have "JList js = j' \<and> r = r'" if j': "json_ok j'" "json_dumps (JList js) @ r = json_dumps j' @ r'" for j' r r'
  proof -
    obtain ks where "j' = JList ks"
      using json_dumps_kind [OF j'(2)] by (cases j') (auto simp: json_kind_def split: if_splits)
    with j' json_list_prefix [of js r ks r', OF _ _ it] show ?thesis by simp
  qed
  then show ?case using json_dumps_hd unfolding item_text_def by blast
next
  case (JObj d)
  have it: "item_text item_dumps (\<lambda>p. json_ok (snd p)) x" if "x \<in> set d" for x
    using that JObj.IH [of x "snd x"] JObj.prems item_dumps_text [of "snd x" "fst x"] by (cases x) (auto simp: list_all_iff)
  have "JObj d = j' \<and> r = r'" if j': "json_ok j'" "json_dumps (JObj d) @ r = json_dumps j' @ r'" for j' r r'
  proof -
    obtain e where e: "j' = JObj e"
      using json_dumps_kind [OF j'(2)] by (cases j') (auto simp: json_kind_def split: if_splits)
    with j' JObj.prems json_obj_prefix [of d r e r', OF _ _ _ it] show ?thesis by (simp del: json_dumps.simps)
  qed
  then show ?case using json_dumps_hd unfolding item_text_def by blast
next
  case JNull
  have "JNull = j' \<and> r = r'" if "json_dumps JNull @ r = json_dumps j' @ r'" for j' r r'
    using json_dumps_kind [OF that] that by (cases j') (auto simp: json_kind_def split: if_splits)
  then show ?case using json_dumps_hd unfolding item_text_def by blast
next
  case (JBool b)
  have "JBool b = j' \<and> r = r'" if "json_dumps (JBool b) @ r = json_dumps j' @ r'" for j' r r'
    using json_dumps_kind [OF that] that by (cases j') (auto simp: json_kind_def split: if_splits)
  then show ?case using json_dumps_hd unfolding item_text_def by blast
qed

theorem json_dumps_inj: "json_ok j \<Longrightarrow> json_ok j' \<Longrightarrow> json_dumps j = json_dumps j' \<Longrightarrow> j = j'"
  using json_dumps_text [of j] unfolding item_text_def by (metis append_Nil2 json_delim_simps(1))


lemma canonical_json_inj:
  assumes "canonical_json v = Inr t" and "canonical_json w = Inr t" and "pyval_ok v" and "pyval_ok w"
  shows "canonical_value v = canonical_value w"
proof -
  obtain j k where "canonical_value v = Inr j" "canonical_value w = Inr k" "json_dumps j = json_dumps k"
    using assms(1,2) by (auto simp: canonical_json_def bindE_Inr)
  moreover from this assms(3,4) have "json_ok j" "json_ok k" by (auto intro: canonical_value_ok)
  ultimately show ?thesis by (auto dest: json_dumps_inj)
qed

text \<open>On the scalar values selector clauses carry, the canonical value itself is injective.\<close>

fun py_scalar :: "pyval \<Rightarrow> bool" where
  "py_scalar (PyTuple _) = False"
| "py_scalar (PyList _) = False"
| "py_scalar (PyDict _) = False"
| "py_scalar (PyFloat _) = False"
| "py_scalar _ = True"

lemma py_scalar_ok [simp]: "py_scalar v \<Longrightarrow> pyval_ok v"
  by (cases v) auto

lemma canonical_scalar_total: "py_scalar v \<Longrightarrow> \<exists>j. canonical_value v = Inr j"
  by (cases v) auto

lemma canonical_scalar_inj: "py_scalar v \<Longrightarrow> py_scalar w \<Longrightarrow> canonical_value v = canonical_value w \<Longrightarrow> v = w"
  by (cases v; cases w) (auto dest: bytes_hex_inj)

lemma mapE_inj_on:
  assumes "mapE f xs = mapE f ys" and "\<And>x. x \<in> set xs \<Longrightarrow> is_ok (f x)"
    and "\<And>x y. x \<in> set xs \<Longrightarrow> y \<in> set ys \<Longrightarrow> f x = f y \<Longrightarrow> x = y"
  shows "xs = ys"
proof -
  obtain zs where z: "mapE f xs = Inr zs" using mapE_ok [of xs f] assms(2) by (auto simp: is_ok_iff)
  then have "mapE f ys = Inr zs" using assms(1) by simp
  from mapE_Inr_nth [OF z] mapE_Inr_nth [OF this] mapE_Inr_length [OF z] mapE_Inr_length [OF this] assms(3)
  show ?thesis by (intro nth_equalityI) auto
qed

lemma canonical_scalars_inj:
  assumes "mapE canonical_value vs = mapE canonical_value ws" and "list_all py_scalar vs" and "list_all py_scalar ws"
  shows "vs = ws"
  using assms canonical_scalar_total canonical_scalar_inj
  by (intro mapE_inj_on [of canonical_value]) (auto simp: list_all_iff is_ok_iff)

section \<open>The text is ASCII\<close>

lemma show_int_ascii: "list_all is_ascii_char (show_int i)"
  by (auto simp: list_all_iff is_ascii_char_def dest!: show_int_chars)

lemma hex_char_ascii: "d < 16 \<Longrightarrow> is_ascii_char (hex_char d)"
  by (simp add: is_ascii_char_def hex_char_def)

lemma json_escape_ascii: "list_all is_ascii_char (json_escape c)"
  by (simp add: json_escape_def Let_def show_hex_4 hex_char_ascii) (simp add: is_ascii_char_def)

lemma json_string_ascii: "list_all is_ascii_char (json_string s)"
  using json_escape_ascii
  by (auto simp: json_string_def quote_char_def list_all_iff) (simp_all add: is_ascii_char_def)

lemma comma_join_chars: "c \<in> set (comma_join ss) \<Longrightarrow> c = CHR '','' \<or> (\<exists>s\<in>set ss. c \<in> set s)"
  by (induction ss rule: comma_join.induct) auto

lemma is_ascii_punct [simp]: "is_ascii_char (CHR '','')" "is_ascii_char (CHR '':'')" "is_ascii_char (CHR ''['')"
    "is_ascii_char (CHR '']'')" "is_ascii_char (CHR ''{'')" "is_ascii_char (CHR ''}'')"
  by (simp_all add: is_ascii_char_def)

lemma json_dumps_ascii: "list_all is_ascii_char (json_dumps j)"
proof (induction j)
  case (JList js)
  then show ?case by (auto simp: list_all_iff dest!: comma_join_chars)
next
  case (JObj d)
  show ?case using JObj json_string_ascii
    by (auto simp: list_all_iff dest!: comma_join_chars)
qed (simp_all add: json_string_ascii show_int_ascii, simp_all add: is_ascii_char_def)

lemma encode_ascii_dumps: "encode_ascii (json_dumps j) = Some (map of_char (json_dumps j))"
  by (simp add: encode_ascii_def json_dumps_ascii)

end
