(* ===== verification/AnalysisIdentity.thy ===== *)
theory AnalysisIdentity imports CanonicalJson PyFloat PyText Sha256 "HOL-Library.Multiset" begin

text \<open>
  core/forensics/analysis\_identity.py: the content identity of an offline analysis, hashed from the
  capture digest, the pipeline version and the configuration.  A configuration is a decoded JSON value
  (enums, paths and sets, which JSON cannot produce, are left out).  The text of a float that is not
  whole, which no lemma depends on, is the parameter \<open>float_repr\<close>.  The lemmas show what the identity
  does not depend on: runtime-only keys at any depth, the order of keys, whole floats against integers,
  and the letter case of the digest.
\<close>

section \<open>Normal form\<close>

definition PIPELINE_VERSION :: string where
  "PIPELINE_VERSION = ''watchtower-forensics-v2.0''"

definition RUNTIME_ONLY_CONFIGURATION_KEYS :: "string list" where
  "RUNTIME_ONLY_CONFIGURATION_KEYS = [''analysis_mode'', ''execution_plan_digest'', ''execution_mode'', ''mode'', ''plan_sha256'',
     ''progress_callback'', ''rust_analysis_execution_mode'', ''temp_dir'', ''temp_path'', ''temporary_directory'', ''temporary_path'']"

definition normalized_scalar :: "pyval \<Rightarrow> pyval result" where
  "normalized_scalar v =
     (case v of
        PyFloat x \<Rightarrow>
          if \<not> f64_isfinite x then Inl (ValueError ''configuration numbers must be finite'')
          else if f64_is_whole x then bindE (f64_to_int x) (\<lambda>i. Inr (PyInt i))
          else Inr v
      | PyBytes _ \<Rightarrow> Inl (TypeError ''unsupported configuration scalar: bytes'')
      | _ \<Rightarrow> Inr v)"

fun normalize_value :: "pyval \<Rightarrow> pyval result" where
  "normalize_value (PyDict d) =
     bindE (mapE (\<lambda>(k, v). bindE (normalize_value v) (\<lambda>w. Inr (k, w)))
       (filter (\<lambda>(k, v). k \<notin> set RUNTIME_ONLY_CONFIGURATION_KEYS) d)) (\<lambda>kvs. Inr (PyDict (sort_key fst kvs)))"
| "normalize_value (PyList vs) = bindE (mapE normalize_value vs) (\<lambda>ws. Inr (PyList ws))"
| "normalize_value (PyTuple vs) = bindE (mapE normalize_value vs) (\<lambda>ws. Inr (PyList ws))"
| "normalize_value v = normalized_scalar v"

text \<open>\<open>json.dumps\<close> with sorted keys, compact separators and ASCII escapes.\<close>

fun config_text :: "(f64 \<Rightarrow> string) \<Rightarrow> pyval \<Rightarrow> string" where
  "config_text float_repr (PyDict d) = ''{'' @ comma_join (map (\<lambda>(k, t). json_string k @ '':'' @ t)
     (sort_key fst (map (\<lambda>(k, v). (k, config_text float_repr v)) d))) @ ''}''"
| "config_text float_repr (PyList vs) = ''['' @ comma_join (map (config_text float_repr) vs) @ '']''"
| "config_text float_repr (PyTuple vs) = ''['' @ comma_join (map (config_text float_repr) vs) @ '']''"
| "config_text float_repr (PyStr s) = json_string s"
| "config_text float_repr (PyInt i) = show_int i"
| "config_text float_repr (PyBool b) = (if b then ''true'' else ''false'')"
| "config_text float_repr PyNone = ''null''"
| "config_text float_repr (PyFloat x) = float_repr x"
| "config_text float_repr (PyBytes b) = []"

definition canonical_configuration_json :: "(f64 \<Rightarrow> string) \<Rightarrow> (string \<times> pyval) list option \<Rightarrow> string result" where
  "canonical_configuration_json float_repr configuration =
     bindE (normalize_value (PyDict (case configuration of Some d \<Rightarrow> d | None \<Rightarrow> []))) (\<lambda>v. Inr (config_text float_repr v))"

definition configuration_hash :: "(f64 \<Rightarrow> string) \<Rightarrow> (string \<times> pyval) list option \<Rightarrow> string result" where
  "configuration_hash float_repr configuration =
     bindE (canonical_configuration_json float_repr configuration) (\<lambda>t. Inr (sha256_hex (b_lit t)))"

section \<open>The identity\<close>

record analysis_identity =
  ai_case_id :: string
  ai_analysis_id :: string
  ai_pcap_sha256 :: string
  ai_pipeline_version :: string
  ai_configuration_hash :: string

definition build_analysis_identity :: "(f64 \<Rightarrow> string) \<Rightarrow> string \<Rightarrow> (string \<times> pyval) list option \<Rightarrow> string \<Rightarrow> analysis_identity result" where
  "build_analysis_identity float_repr pcap_sha256 configuration pipeline_version =
     (let digest = normal_name pcap_sha256 in
      bindE (guardE (length digest = 64 \<and> list_all (\<lambda>c. c \<in> set ''0123456789abcdef'') digest)
        (ValueError ''pcap_sha256 must be a 64-character hexadecimal digest'')) (\<lambda>_.
      bindE (configuration_hash float_repr configuration) (\<lambda>config_hash.
      let analysis_digest = sha256_hex (utf8 (digest @ [CHR 0x00] @ pipeline_version @ [CHR 0x00] @ config_hash)) in
      Inr \<lparr>ai_case_id = ''case-'' @ digest, ai_analysis_id = ''analysis-'' @ analysis_digest, ai_pcap_sha256 = digest,
         ai_pipeline_version = pipeline_version, ai_configuration_hash = config_hash\<rparr>)))"

section \<open>What the identity ignores\<close>

text \<open>The value without its runtime-only keys, at every level.\<close>

fun drop_runtime :: "pyval \<Rightarrow> pyval" where
  "drop_runtime (PyDict d) = PyDict (map (\<lambda>(k, v). (k, drop_runtime v)) (filter (\<lambda>(k, v). k \<notin> set RUNTIME_ONLY_CONFIGURATION_KEYS) d))"
| "drop_runtime (PyList vs) = PyList (map drop_runtime vs)"
| "drop_runtime (PyTuple vs) = PyTuple (map drop_runtime vs)"
| "drop_runtime v = v"

lemma mapE_values_cong: "(\<And>k v. (k, v) \<in> set d \<Longrightarrow> f v = g v) \<Longrightarrow>
    mapE (\<lambda>(k, v). bindE (f v) (\<lambda>w. Inr (k, w))) d = mapE (\<lambda>(k, v). bindE (g v) (\<lambda>w. Inr (k, w))) d"
  by (intro mapE_cong refl) auto

lemma normalize_drop_runtime: "normalize_value (drop_runtime v) = normalize_value v"
proof (induction v rule: normalize_value.induct)
  case (1 d)
  let ?keep = "\<lambda>(k :: string, v :: pyval). k \<notin> set RUNTIME_ONLY_CONFIGURATION_KEYS"
  have "filter ?keep (map (\<lambda>(k, v). (k, drop_runtime v)) (filter ?keep d)) = map (\<lambda>(k, v). (k, drop_runtime v)) (filter ?keep d)"
    by (induction d) auto
  moreover have "mapE (\<lambda>(k, v). bindE (normalize_value v) (\<lambda>w. Inr (k, w))) (map (\<lambda>(k, v). (k, drop_runtime v)) (filter ?keep d)) =
      mapE (\<lambda>(k, v). bindE (normalize_value v) (\<lambda>w. Inr (k, w))) (filter ?keep d)"
    unfolding mapE_map by (intro mapE_cong refl) (use 1 in auto)
  ultimately show ?case by simp
next
  case (2 vs)
  have "mapE normalize_value (map drop_runtime vs) = mapE normalize_value vs"
    unfolding mapE_map by (intro mapE_cong refl) (use 2 in auto)
  then show ?case by simp
next
  case (3 vs)
  have "mapE normalize_value (map drop_runtime vs) = mapE normalize_value vs"
    unfolding mapE_map by (intro mapE_cong refl) (use 3 in auto)
  then show ?case by simp
qed simp_all


lemma mapE_Inr_iff: "mapE f xs = Inr ys \<longleftrightarrow> list_all (\<lambda>x. is_ok (f x)) xs \<and> ys = map (\<lambda>x. projr (f x)) xs"
  by (induction xs arbitrary: ys) (auto simp: bindE_Inr is_ok_iff)

lemma mapE_permuted:
  assumes "mapE f xs = Inr ys" "mset xs' = mset xs"
  shows "\<exists>ys'. mapE f xs' = Inr ys' \<and> mset ys' = mset ys"
proof -
  have "list_all (\<lambda>x. is_ok (f x)) xs'" using assms mset_eq_setD [OF assms(2)] by (simp add: mapE_Inr_iff list_all_iff)
  moreover have "mset (map (\<lambda>x. projr (f x)) xs') = mset ys" using assms by (simp add: mapE_Inr_iff mset_map)
  ultimately show ?thesis by (auto simp: mapE_Inr_iff)
qed

text \<open>The order of the keys does not matter.\<close>

lemma normalize_permuted:
  assumes "normalize_value (PyDict d) = Inr w" "mset d' = mset d" "distinct (map fst d)"
  shows "normalize_value (PyDict d') = Inr w"
proof -
  let ?keep = "\<lambda>(k :: string, v :: pyval). k \<notin> set RUNTIME_ONLY_CONFIGURATION_KEYS"
  let ?f = "\<lambda>(k :: string, v). bindE (normalize_value v) (\<lambda>w. Inr (k, w))"
  obtain kvs where k: "mapE ?f (filter ?keep d) = Inr kvs" "w = PyDict (sort_key fst kvs)"
    using assms(1) by (auto simp: bindE_Inr)
  have "mset (filter ?keep d') = mset (filter ?keep d)" using assms(2) by simp
  then obtain kvs' where k': "mapE ?f (filter ?keep d') = Inr kvs'" "mset kvs' = mset kvs"
    using mapE_permuted [OF k(1)] by blast
  have "map fst kvs' = map fst (filter ?keep d')" using mapE_items_keys [OF k'(1)] .
  moreover have "distinct (map fst d')" using assms(2,3) by (metis mset_eq_imp_distinct_iff mset_map)
  then have "distinct (map fst (filter ?keep d'))" by (rule distinct_map_filter)
  ultimately have "distinct (map fst kvs')" by (simp only:)
  then have "inj_on fst (set kvs')" by (simp only: distinct_map)
  then have "sort_key fst kvs' = sort_key fst kvs"
    by (intro sort_key_inj_key_eq) (simp_all add: k'(2))
  then show ?thesis by (simp add: k'(1) k(2))
qed

lemma normal_form_unchanged: "normalize_value v = Inr w \<Longrightarrow> normalize_value w = Inr w"
proof (induction v arbitrary: w rule: normalize_value.induct)
  case (1 d)
  let ?keep = "\<lambda>(k :: string, v :: pyval). k \<notin> set RUNTIME_ONLY_CONFIGURATION_KEYS"
  let ?f = "\<lambda>(k :: string, v). bindE (normalize_value v) (\<lambda>w. Inr (k, w))"
  obtain kvs where k: "mapE ?f (filter ?keep d) = Inr kvs" "w = PyDict (sort_key fst kvs)"
    using 1(2) by (auto simp: bindE_Inr)
  have m: "fst kv \<notin> set RUNTIME_ONLY_CONFIGURATION_KEYS \<and> normalize_value (snd kv) = Inr (snd kv)" if kv: "kv \<in> set kvs" for kv
  proof -
    obtain x where x: "x \<in> set (filter ?keep d)" "?f x = Inr kv" using mapE_Inr_member [OF k(1) kv] by blast
    obtain key v where xv: "x = (key, v)" by (cases x)
    have kv: "normalize_value v = Inr (snd kv)" "fst kv = key" using x(2) by (auto simp: xv bindE_Inr)
    with 1(1) [OF x(1), of key v] x(1) xv show ?thesis by auto
  qed
  have "filter ?keep (sort_key fst kvs) = sort_key fst kvs" using m by (auto simp: filter_id_conv)
  moreover have "mapE ?f (sort_key fst kvs) = Inr (sort_key fst kvs)"
    using m by (auto simp: mapE_Inr_iff list_all_iff intro!: map_idI [symmetric])
  ultimately show ?case by (simp add: k(2) sort_key_id_if_sorted)
next
  case (2 vs)
  then obtain ws where w: "mapE normalize_value vs = Inr ws" "w = PyList ws" by (auto simp: bindE_Inr)
  have "normalize_value x = Inr x" if "x \<in> set ws" for x using mapE_Inr_member [OF w(1) that] 2(1) by blast
  then have "mapE normalize_value ws = Inr ws" by (auto simp: mapE_Inr_iff list_all_iff intro!: map_idI [symmetric])
  then show ?case by (simp add: w(2))
next
  case (3 vs)
  then obtain ws where w: "mapE normalize_value vs = Inr ws" "w = PyList ws" by (auto simp: bindE_Inr)
  have "normalize_value x = Inr x" if "x \<in> set ws" for x using mapE_Inr_member [OF w(1) that] 3(1) by blast
  then have "mapE normalize_value ws = Inr ws" by (auto simp: mapE_Inr_iff list_all_iff intro!: map_idI [symmetric])
  then show ?case by (simp add: w(2))
qed (auto simp: normalized_scalar_def bindE_Inr split: if_splits)

section \<open>Two runs of one analysis\<close>

text \<open>
  Two values hold the same settings when, at every level, their mappings have the same entries in some
  order, their sequences have the same items in the same order (tuple or list), and a whole float stands
  for the integer it equals.
\<close>

inductive same_settings :: "pyval \<Rightarrow> pyval \<Rightarrow> bool" where
  Scalar: "same_settings v v"
| Whole: "f64_isfinite x \<Longrightarrow> f64_is_whole x \<Longrightarrow> f64_to_int x = Inr i \<Longrightarrow> same_settings (PyFloat x) (PyInt i)"
| Items: "list_all2 same_settings vs ws \<Longrightarrow> v \<in> {PyList vs, PyTuple vs} \<Longrightarrow> w \<in> {PyList ws, PyTuple ws} \<Longrightarrow> same_settings v w"
| Entries: "list_all2 (\<lambda>p q. fst p = fst q \<and> same_settings (snd p) (snd q)) d e \<Longrightarrow> mset e' = mset e \<Longrightarrow>
    same_settings (PyDict d) (PyDict e')"

text \<open>Normalising two such values gives one result, whenever it succeeds on the first.\<close>

definition normal_entry :: "string \<times> pyval \<Rightarrow> (string \<times> pyval) result" where
  "normal_entry = (\<lambda>(k, v). bindE (normalize_value v) (\<lambda>w. Inr (k, w)))"

lemma aligned_items:
  "list_all2 (\<lambda>v w. \<forall>x. normalize_value v = Inr x \<longrightarrow> normalize_value w = Inr x) vs ws \<Longrightarrow>
     mapE normalize_value vs = Inr xs \<Longrightarrow> mapE normalize_value ws = Inr xs"
  by (induction arbitrary: xs rule: list_all2_induct) (auto simp: bindE_Inr)

lemma aligned_entries:
  "list_all2 (\<lambda>p q. fst p = fst q \<and> (\<forall>x. normalize_value (snd p) = Inr x \<longrightarrow> normalize_value (snd q) = Inr x)) d e \<Longrightarrow>
     mapE normal_entry (filter (\<lambda>(k, v). k \<notin> set RUNTIME_ONLY_CONFIGURATION_KEYS) d) = Inr kvs \<Longrightarrow>
     mapE normal_entry (filter (\<lambda>(k, v). k \<notin> set RUNTIME_ONLY_CONFIGURATION_KEYS) e) = Inr kvs"
proof (induction arbitrary: kvs rule: list_all2_induct)
  case (Cons p d q e)
  then show ?case by (cases p; cases q) (auto simp: bindE_Inr normal_entry_def split: if_splits)
qed simp

lemma normalize_entries: "normalize_value (PyDict d) =
    bindE (mapE normal_entry (filter (\<lambda>(k, v). k \<notin> set RUNTIME_ONLY_CONFIGURATION_KEYS) d)) (\<lambda>kvs. Inr (PyDict (sort_key fst kvs)))"
  by (simp add: normal_entry_def)

lemma aligned_keys: "list_all2 (\<lambda>p q. fst p = fst q \<and> P p q) d e \<Longrightarrow> map fst d = map fst e"
  by (induction rule: list_all2_induct) auto

lemma normalize_same_settings: "same_settings v w \<Longrightarrow> pyval_ok v \<Longrightarrow> normalize_value v = Inr x \<Longrightarrow> normalize_value w = Inr x"
proof (induction arbitrary: x rule: same_settings.induct)
  case (Whole y i)
  then show ?case by (auto simp: normalized_scalar_def)
next
  case (Items vs ws v w)
  have "list_all pyval_ok vs" using Items by auto
  then have "list_all2 (\<lambda>v w. \<forall>x. normalize_value v = Inr x \<longrightarrow> normalize_value w = Inr x) vs ws"
    using Items(1) by (elim list.rel_mono_strong) (auto simp: list_all_iff)
  from aligned_items [OF this] Items(2-3,5) show ?case by (auto simp: bindE_Inr)
next
  case (Entries d e e')
  have ok: "list_all (\<lambda>(k, v). pyval_ok v) d" "distinct (map fst d)" using Entries(3) by simp_all
  have sub: "pyval_ok (snd p)" if "p \<in> set d" for p using ok(1) that by (cases p) (auto simp: list_all_iff)
  have "list_all2 (\<lambda>p q. fst p = fst q \<and> (\<forall>x. normalize_value (snd p) = Inr x \<longrightarrow> normalize_value (snd q) = Inr x)) d e"
    using Entries(1)
  proof (rule list.rel_mono_strong)
    fix p q
    assume "p \<in> set d" and r: "fst p = fst q \<and> same_settings (snd p) (snd q) \<and>
      (pyval_ok (snd p) \<longrightarrow> (\<forall>x. normalize_value (snd p) = Inr x \<longrightarrow> normalize_value (snd q) = Inr x))"
    from sub [OF this(1)] r show "fst p = fst q \<and> (\<forall>x. normalize_value (snd p) = Inr x \<longrightarrow> normalize_value (snd q) = Inr x)" by blast
  qed
  note a = aligned_entries [OF this]
  obtain kvs where k: "mapE normal_entry (filter (\<lambda>(k, v). k \<notin> set RUNTIME_ONLY_CONFIGURATION_KEYS) d) = Inr kvs" "x = PyDict (sort_key fst kvs)"
    using Entries(4) unfolding normalize_entries by (auto simp: bindE_Inr)
  have "normalize_value (PyDict e) = Inr x" unfolding normalize_entries by (simp only: a [OF k(1)] k(2) bindE_simps)
  from normalize_permuted [OF this Entries(2)] aligned_keys [OF Entries(1)] ok(2) show ?case by simp
qed simp

lemma drop_runtime_ok: "pyval_ok v \<Longrightarrow> pyval_ok (drop_runtime v)"
proof (induction v rule: drop_runtime.induct)
  case (1 d)
  let ?keep = "\<lambda>(k :: string, v :: pyval). k \<notin> set RUNTIME_ONLY_CONFIGURATION_KEYS"
  have k: "map fst (map (\<lambda>(k, v). (k, drop_runtime v)) (filter ?keep d)) = map fst (filter ?keep d)" by (simp add: case_prod_beta comp_def)
  have "distinct (map fst (filter ?keep d))" using 1(2) by (intro distinct_map_filter) simp
  moreover have "list_all (\<lambda>(k, v). pyval_ok v) (map (\<lambda>(k, v). (k, drop_runtime v)) (filter ?keep d))"
    using 1 by (auto simp: list_all_iff)
  ultimately show ?case unfolding drop_runtime.simps pyval_ok.simps k by blast
qed (auto simp: list_all_iff)

text \<open>
  Configurations that hold the same settings once the runtime-only keys are dropped, and spellings of
  one digest, give one identity.
\<close>

lemma identity_stable:
  assumes "build_analysis_identity float_repr p (Some d) version = Inr a" "pyval_ok (PyDict d)"
    and "same_settings (drop_runtime (PyDict d)) (drop_runtime (PyDict d'))"
    and "normal_name p' = normal_name p"
  shows "build_analysis_identity float_repr p' (Some d') version = Inr a"
proof -
  obtain w where w: "normalize_value (PyDict d) = Inr w"
    using assms(1) by (auto simp: build_analysis_identity_def configuration_hash_def canonical_configuration_json_def bindE_Inr Let_def)
  then have "normalize_value (drop_runtime (PyDict d)) = Inr w" unfolding normalize_drop_runtime .
  from normalize_same_settings [OF assms(3) drop_runtime_ok [OF assms(2)] this]
  have "normalize_value (PyDict d') = Inr w" unfolding normalize_drop_runtime .
  then have "normalize_value (PyDict d') = normalize_value (PyDict d)" unfolding w .
  then show ?thesis using assms(1,4)
    by (simp add: build_analysis_identity_def configuration_hash_def canonical_configuration_json_def del: normalize_value.simps)
qed

lemma identity_fields:
  assumes "build_analysis_identity float_repr p c version = Inr a"
  shows "ai_pcap_sha256 a = normal_name p \<and> length (ai_pcap_sha256 a) = 64 \<and> ai_case_id a = ''case-'' @ ai_pcap_sha256 a \<and>
    ai_pipeline_version a = version"
  using assms by (auto simp: build_analysis_identity_def bindE_Inr guardE_Inr Let_def)

end
