(* ===== verification/FloatArith.thy ===== *)
theory FloatArith imports PyFloat begin

text \<open>
  Float arithmetic on 64-bit patterns: sums, differences, products and quotients rounded to nearest
  even, conversion of integers and \<open>round(x, n)\<close>.  Every finite double is a whole number of units of
  \<open>2 ^ -1074\<close>, so an exact result is a quotient of two naturals in units, and one function rounds it.
  The payload of a NaN, which the program never reads, is always the same.  The lemmas show that
  rounding is monotone, that it gives back what is already a double, and what bounds it keeps.
\<close>

section \<open>Rounding to nearest even\<close>

fun bit_length :: "nat \<Rightarrow> nat" where
  "bit_length n = (if n = 0 then 0 else Suc (bit_length (n div 2)))"

declare bit_length.simps [simp del]

definition div_half_even :: "nat \<Rightarrow> nat \<Rightarrow> nat" where
  "div_half_even n d =
     (let q = n div d; r = n mod d
      in if 2 * r < d \<or> (2 * r = d \<and> even q) then q else Suc q)"

text \<open>The pattern of the double nearest to \<open>n / d\<close> units, without the bound of the exponent.\<close>

definition round_ratio :: "nat \<Rightarrow> nat \<Rightarrow> nat" where
  "round_ratio n d = (let s = bit_length (n div d) - 53 in s * 2 ^ 52 + div_half_even n (d * 2 ^ s))"

definition INF_BITS :: nat where
  "INF_BITS = 2047 * 2 ^ 52"

definition f64_of_ratio :: "bool \<Rightarrow> nat \<Rightarrow> nat \<Rightarrow> f64" where
  "f64_of_ratio negative n d =
     word_of_nat (min (round_ratio n d) INF_BITS + (if negative then 2 ^ 63 else 0))"

definition f64_nan :: f64 where
  "f64_nan = word_of_nat (4095 * 2 ^ 51)"

definition f64_inf :: "bool \<Rightarrow> f64" where
  "f64_inf negative = word_of_nat (INF_BITS + (if negative then 2 ^ 63 else 0))"

definition f64_zero :: "bool \<Rightarrow> f64" where
  "f64_zero negative = word_of_nat (if negative then 2 ^ 63 else 0)"

section \<open>Operations\<close>

text \<open>The magnitude of a finite double in units.\<close>

definition f64_units :: "f64 \<Rightarrow> nat" where
  "f64_units x = f64_significand x * 2 ^ (f64_scale x - 1)"

definition f64_signed_units :: "f64 \<Rightarrow> int" where
  "f64_signed_units x = (if f64_negative x then - int (f64_units x) else int (f64_units x))"

definition UNIT :: nat where
  "UNIT = 2 ^ 1074"

definition f64_neg :: "f64 \<Rightarrow> f64" where
  "f64_neg x = flip_bit 63 x"

definition f64_add :: "f64 \<Rightarrow> f64 \<Rightarrow> f64" where
  "f64_add x y =
     (if f64_isnan x \<or> f64_isnan y then f64_nan
      else if f64_isinf x then (if f64_isinf y \<and> f64_negative x \<noteq> f64_negative y then f64_nan else x)
      else if f64_isinf y then y
      else (let v = f64_signed_units x + f64_signed_units y
            in if v = 0 then f64_zero (f64_negative x \<and> f64_negative y)
               else f64_of_ratio (v < 0) (nat \<bar>v\<bar>) 1))"

definition f64_sub :: "f64 \<Rightarrow> f64 \<Rightarrow> f64" where
  "f64_sub x y = f64_add x (f64_neg y)"

definition f64_mul :: "f64 \<Rightarrow> f64 \<Rightarrow> f64" where
  "f64_mul x y =
     (let negative = (f64_negative x \<noteq> f64_negative y)
      in if f64_isnan x \<or> f64_isnan y then f64_nan
         else if f64_isinf x \<or> f64_isinf y
         then (if f64_is_zero x \<or> f64_is_zero y then f64_nan else f64_inf negative)
         else f64_of_ratio negative (f64_units x * f64_units y) UNIT)"

text \<open>Division by a zero raises.\<close>

definition f64_div :: "f64 \<Rightarrow> f64 \<Rightarrow> f64 result" where
  "f64_div x y =
     (let negative = (f64_negative x \<noteq> f64_negative y)
      in if f64_is_zero y then Inl ZeroDivisionError
         else if f64_isnan x \<or> f64_isnan y then Inr f64_nan
         else if f64_isinf x then Inr (if f64_isinf y then f64_nan else f64_inf negative)
         else if f64_isinf y then Inr (f64_zero negative)
         else Inr (f64_of_ratio negative (f64_units x * UNIT) (f64_units y)))"

text \<open>\<open>float(i)\<close> of an integer: the nearest double, or an \<open>OverflowError\<close>.\<close>

definition f64_of_int :: "int \<Rightarrow> f64 result" where
  "f64_of_int i =
     (if round_ratio (nat \<bar>i\<bar> * UNIT) 1 \<ge> INF_BITS then Inl OverflowError
      else Inr (f64_of_ratio (i < 0) (nat \<bar>i\<bar> * UNIT) 1))"

definition f64_of_nat :: "nat \<Rightarrow> f64" where
  "f64_of_nat n = f64_of_ratio False (n * UNIT) 1"

text \<open>\<open>round(x, n)\<close> for \<open>n \<ge> 0\<close>: the exact value to \<open>n\<close> decimals, ties to even, then the nearest double.\<close>

definition f64_round :: "f64 \<Rightarrow> nat \<Rightarrow> f64" where
  "f64_round x n =
     (if f64_isnan x \<or> f64_isinf x then x
      else f64_of_ratio (f64_negative x) (div_half_even (f64_units x * 10 ^ n) UNIT * UNIT) (10 ^ n))"

text \<open>\<open>min(a, b)\<close> keeps its first argument unless the second is smaller.\<close>

definition f64_min :: "f64 \<Rightarrow> f64 \<Rightarrow> f64" where
  "f64_min a b = (if f64_lt b a then b else a)"

section \<open>Rounding is monotone and exact on doubles\<close>

lemma bit_length_0 [simp]: "bit_length 0 = 0"
  by (simp add: bit_length.simps)

lemma bit_length_bounds: "n < 2 ^ bit_length n" "n \<noteq> 0 \<Longrightarrow> 2 ^ (bit_length n - 1) \<le> n"
proof (induction n rule: bit_length.induct)
  case (1 n)
  show "n < 2 ^ bit_length n"
  proof (cases "n = 0")
    case False
    with 1 have "n div 2 < 2 ^ bit_length (n div 2)" by simp
    then have "n < 2 * 2 ^ bit_length (n div 2)" by linarith
    with False show ?thesis by (simp add: bit_length.simps [of n])
  qed (simp add: bit_length.simps)
  assume n: "n \<noteq> 0"
  show "2 ^ (bit_length n - 1) \<le> n"
  proof (cases "n div 2 = 0")
    case False
    then obtain k where k: "bit_length (n div 2) = Suc k" by (metis bit_length.simps)
    from 1(2) [OF n False] have "2 ^ bit_length (n div 2) \<le> 2 * (n div 2)" by (simp add: k)
    also have "\<dots> \<le> n" by simp
    finally show ?thesis using n by (simp add: bit_length.simps [of n])
  qed (use n in \<open>simp add: bit_length.simps [of n]\<close>)
qed

lemma bit_length_le_iff: "bit_length n \<le> k \<longleftrightarrow> n < 2 ^ k"
proof
  show "bit_length n \<le> k \<Longrightarrow> n < 2 ^ k"
    using bit_length_bounds(1) [of n] power_increasing [of "bit_length n" k "2::nat"] by linarith
  assume n: "n < 2 ^ k"
  show "bit_length n \<le> k"
  proof (rule ccontr)
    assume "\<not> bit_length n \<le> k"
    then have k: "k \<le> bit_length n - 1" and "n \<noteq> 0" by (auto intro: gr0I)
    from bit_length_bounds(2) [OF \<open>n \<noteq> 0\<close>] power_increasing [OF k, of "2::nat"] n show False by linarith
  qed
qed

lemma bit_length_mono: "m \<le> n \<Longrightarrow> bit_length m \<le> bit_length n"
  using bit_length_bounds(1) [of n] by (simp add: bit_length_le_iff)

lemma div_half_even_bounds: "n div d \<le> div_half_even n d" "div_half_even n d \<le> Suc (n div d)"
  by (simp_all add: div_half_even_def Let_def)

lemma div_half_even_exact [simp]: "0 < d \<Longrightarrow> div_half_even (d * q) d = q" "0 < d \<Longrightarrow> div_half_even (q * d) d = q"
  by (simp_all add: div_half_even_def)

lemma div_half_even_cancel: "0 < k \<Longrightarrow> div_half_even (n * k) (d * k) = div_half_even n d"
  by (simp add: div_half_even_def Let_def mult_mod_left [symmetric])

lemma div_half_even_mono_same: "n \<le> n' \<Longrightarrow> div_half_even n d \<le> div_half_even n' d"
proof -
  assume n: "n \<le> n'"
  then have q: "n div d \<le> n' div d" by (rule div_le_mono)
  show ?thesis
  proof (cases "n div d = n' div d")
    case True
    have "n mod d \<le> n' mod d" using n True by (metis add_le_cancel_left div_mult_mod_eq)
    with True show ?thesis by (auto simp: div_half_even_def Let_def)
  next
    case False
    with q have "Suc (n div d) \<le> n' div d" by simp
    with div_half_even_bounds(2) [of n d] div_half_even_bounds(1) [of n' d] show ?thesis by linarith
  qed
qed

lemma div_half_even_mono:
  assumes "0 < d" "0 < d'" "n * d' \<le> n' * d"
  shows "div_half_even n d \<le> div_half_even n' d'"
  using div_half_even_mono_same [OF assms(3), of "d * d'"] div_half_even_cancel [OF assms(2), of n d]
    div_half_even_cancel [OF assms(1), of n' d'] by (simp add: mult.commute)

lemma ratio_div_mono:
  fixes n d :: nat assumes "0 < d" "0 < d'" "n * d' \<le> n' * d"
  shows "n div d \<le> n' div d'"
proof -
  have "(n div d) * d' * d = (n div d * d) * d'" by simp
  also have "\<dots> \<le> n * d'" by simp
  finally have "(n div d) * d' * d \<le> n' * d" using assms(3) by (rule order_trans)
  with assms(1) have "(n div d) * d' \<le> n'" by simp
  with assms(2) show ?thesis by (simp add: less_eq_div_iff_mult_less_eq)
qed

lemma shifted_quotient:
  fixes n d :: nat
  assumes "0 < d"
  defines "s \<equiv> bit_length (n div d) - 53"
  shows "n div (d * 2 ^ s) < 2 ^ 53" "0 < s \<Longrightarrow> 2 ^ 52 \<le> n div (d * 2 ^ s)"
proof -
  have q: "n div (d * 2 ^ s) = n div d div 2 ^ s" by (simp add: div_mult2_eq)
  have "bit_length (n div d) \<le> 53 + s" by (simp add: s_def)
  then have "n div d < 2 ^ 53 * 2 ^ s" by (simp add: bit_length_le_iff power_add)
  then show "n div (d * 2 ^ s) < 2 ^ 53" by (simp add: q less_mult_imp_div_less)
  assume "0 < s"
  then have "\<not> bit_length (n div d) \<le> 52 + s" by (simp add: s_def)
  then have "2 ^ 52 * 2 ^ s \<le> n div d" by (simp add: bit_length_le_iff power_add)
  then show "2 ^ 52 \<le> n div (d * 2 ^ s)" by (simp add: q less_eq_div_iff_mult_less_eq)
qed

theorem round_ratio_mono:
  assumes "0 < d" "0 < d'" "n * d' \<le> n' * d"
  shows "round_ratio n d \<le> round_ratio n' d'"
proof -
  define s where "s = bit_length (n div d) - 53"
  define s' where "s' = bit_length (n' div d') - 53"
  have "s \<le> s'" using bit_length_mono [OF ratio_div_mono [OF assms]] by (simp add: s_def s'_def)
  then consider "s = s'" | "s + 1 \<le> s'" by linarith
  then show ?thesis
  proof cases
    case 1
    have "div_half_even n (d * 2 ^ s) \<le> div_half_even n' (d' * 2 ^ s)"
      using assms by (intro div_half_even_mono) (simp_all add: mult.assoc [symmetric])
    with 1 show ?thesis by (simp add: round_ratio_def Let_def s_def s'_def)
  next
    case 2
    have "div_half_even n (d * 2 ^ s) \<le> 2 ^ 53"
      using div_half_even_bounds(2) [of n "d * 2 ^ s"] shifted_quotient(1) [OF assms(1), of n] by (simp add: s_def)
    moreover have "2 ^ 52 \<le> n' div (d' * 2 ^ s')"
      unfolding s'_def by (rule shifted_quotient(2) [OF assms(2)]) (use 2 in \<open>simp add: s'_def\<close>)
    then have "2 ^ 52 \<le> div_half_even n' (d' * 2 ^ s')" using div_half_even_bounds(1) by (rule order_trans)
    moreover have "s * 2 ^ 52 + 2 ^ 52 \<le> s' * 2 ^ (52::nat)" using mult_le_mono1 [OF 2, of "2 ^ 52"] by simp
    ultimately show ?thesis by (simp add: round_ratio_def Let_def s_def [symmetric] s'_def [symmetric])
  qed
qed

section \<open>Doubles as numbers of units\<close>

definition f64_magnitude :: "f64 \<Rightarrow> nat" where
  "f64_magnitude x = unat (take_bit 63 x)"

lemma f64_key_magnitude: "f64_key x = (if f64_negative x then - int (f64_magnitude x) else int (f64_magnitude x))"
  by (simp add: f64_key_def f64_magnitude_def Let_def)

lemma f64_magnitude_fields: "f64_magnitude x = f64_exponent x * 2 ^ 52 + f64_mantissa x"
proof -
  have m: "f64_magnitude x = unat x mod 2 ^ 63" by (simp add: f64_magnitude_def unsigned_take_bit_eq take_bit_nat_def)
  have x: "unat x < 2 ^ 64" using unsigned_less [of x] by simp
  have e: "f64_exponent x = unat x div 2 ^ 52 mod 2 ^ 11"
    using x by (simp add: f64_exponent_def unsigned_take_bit_eq take_bit_nat_def unsigned_drop_bit_eq drop_bit_nat_def)
  have f: "f64_mantissa x = unat x mod 2 ^ 52" by (simp add: f64_mantissa_def unsigned_take_bit_eq take_bit_nat_def)
  have "unat x mod (2 ^ 52 * 2 ^ 11) = 2 ^ 52 * (unat x div 2 ^ 52 mod 2 ^ 11) + unat x mod 2 ^ 52" by (rule mod_mult2_eq)
  then show ?thesis unfolding m e f by simp
qed

lemma f64_mantissa_less: "f64_mantissa x < 2 ^ 52"
  by (simp add: f64_mantissa_def unsigned_take_bit_eq take_bit_nat_def)

lemma f64_exponent_le: "f64_exponent x \<le> 2047"
proof -
  have "f64_exponent x < 2 ^ 11" by (simp add: f64_exponent_def unsigned_take_bit_eq take_bit_nat_def)
  then show ?thesis by simp
qed

lemma f64_fields_of_magnitude: "f64_exponent x = f64_magnitude x div 2 ^ 52" "f64_mantissa x = f64_magnitude x mod 2 ^ 52"
  using f64_mantissa_less [of x] by (simp_all add: f64_magnitude_fields)

text \<open>Rounding a double gives the double back.\<close>

theorem round_ratio_units: "round_ratio (f64_units x) 1 = f64_magnitude x"
proof (cases "f64_exponent x = 0")
  case True
  then have u: "f64_units x = f64_mantissa x" by (simp add: f64_units_def f64_significand_def f64_scale_def)
  have "bit_length (f64_mantissa x) \<le> 52" using f64_mantissa_less by (simp add: bit_length_le_iff)
  then have z: "bit_length (f64_mantissa x) - 53 = 0" by simp
  show ?thesis using div_half_even_exact(1) [of 1 "f64_mantissa x"] True
    by (simp add: u round_ratio_def z f64_magnitude_fields)
next
  case False
  define e where "e = f64_exponent x - 1"
  have E: "f64_exponent x = Suc e" using False by (simp add: e_def)
  let ?m = "2 ^ 52 + f64_mantissa x"
  have u: "f64_units x = ?m * 2 ^ e" by (simp add: f64_units_def f64_significand_def f64_scale_def E)
  have "?m * 2 ^ e < 2 ^ 53 * 2 ^ e" using f64_mantissa_less [of x] by simp
  then have "bit_length (?m * 2 ^ e) \<le> 53 + e" by (simp add: bit_length_le_iff power_add)
  moreover have "2 ^ 52 * 2 ^ e \<le> ?m * 2 ^ e" by (rule mult_le_mono1) simp
  then have "\<not> bit_length (?m * 2 ^ e) \<le> 52 + e" by (simp add: bit_length_le_iff power_add)
  ultimately have b: "bit_length (f64_units x) - 53 = e" unfolding u by linarith
  have "div_half_even (?m * 2 ^ e) (2 ^ e) = ?m" by (rule div_half_even_exact) simp
  with b u show ?thesis by (simp add: round_ratio_def f64_magnitude_fields E)
qed

lemma f64_units_eq_iff: "f64_units x = f64_units y \<longleftrightarrow> f64_magnitude x = f64_magnitude y"
proof
  show "f64_units x = f64_units y \<Longrightarrow> f64_magnitude x = f64_magnitude y" by (metis round_ratio_units)
  show "f64_magnitude x = f64_magnitude y \<Longrightarrow> f64_units x = f64_units y"
    by (simp add: f64_units_def f64_significand_def f64_scale_def f64_fields_of_magnitude)
qed

lemma f64_magnitude_le_iff: "f64_magnitude x \<le> f64_magnitude y \<longleftrightarrow> f64_units x \<le> f64_units y"
proof
  show "f64_units x \<le> f64_units y \<Longrightarrow> f64_magnitude x \<le> f64_magnitude y"
    using round_ratio_mono [of 1 1 "f64_units x" "f64_units y"] unfolding round_ratio_units by simp
  show "f64_magnitude x \<le> f64_magnitude y \<Longrightarrow> f64_units x \<le> f64_units y"
    using round_ratio_mono [of 1 1 "f64_units y" "f64_units x"] f64_units_eq_iff [of x y]
    unfolding round_ratio_units by linarith
qed

lemma f64_units_0 [simp]: "f64_units 0 = 0" "f64_magnitude 0 = 0"
  by (simp_all add: f64_units_def f64_significand_def f64_mantissa_def f64_exponent_def f64_magnitude_def)

lemma f64_units_0_iff: "f64_units x = 0 \<longleftrightarrow> f64_magnitude x = 0"
  using f64_units_eq_iff [of x 0] by simp

theorem f64_key_le_iff: "f64_key x \<le> f64_key y \<longleftrightarrow> f64_signed_units x \<le> f64_signed_units y"
  using f64_magnitude_le_iff [of x y] f64_magnitude_le_iff [of y x] f64_units_0_iff [of x] f64_units_0_iff [of y]
  by (cases "f64_negative x"; cases "f64_negative y") (simp_all add: f64_key_magnitude f64_signed_units_def, linarith+)

section \<open>The order of results\<close>

lemma f64_of_ratio_parts:
  "f64_magnitude (f64_of_ratio negative n d) = min (round_ratio n d) INF_BITS"
  "f64_negative (f64_of_ratio negative n d) = negative"
proof -
  define b where "b = min (round_ratio n d) INF_BITS"
  define c where "c = b + (if negative then 2 ^ 63 else 0)"
  have b: "b < 2 ^ 63" by (simp add: b_def INF_BITS_def)
  have c: "c < 2 ^ 64" using b by (simp add: c_def)
  have "f64_of_ratio negative n d = word_of_nat c" by (simp only: f64_of_ratio_def b_def c_def)
  then have u: "unat (f64_of_ratio negative n d) = c" using c by (simp add: unsigned_of_nat take_bit_nat_def)
  show "f64_magnitude (f64_of_ratio negative n d) = min (round_ratio n d) INF_BITS"
    unfolding f64_magnitude_def unsigned_take_bit_eq u using b by (simp add: take_bit_nat_def b_def [symmetric] c_def)
  have "bit (f64_of_ratio negative n d) 63 \<longleftrightarrow> bit (unat (f64_of_ratio negative n d)) 63"
    by (simp add: bit_unsigned_iff)
  also have "\<dots> \<longleftrightarrow> odd (unat (f64_of_ratio negative n d) div 2 ^ 63)" by (rule bit_iff_odd)
  finally have "bit (f64_of_ratio negative n d) 63 \<longleftrightarrow> odd (unat (f64_of_ratio negative n d) div 2 ^ 63)" .
  then show "f64_negative (f64_of_ratio negative n d) = negative"
    unfolding f64_negative_def u using b by (simp add: c_def)
qed

lemma f64_isnan_magnitude: "f64_isnan x \<longleftrightarrow> INF_BITS < f64_magnitude x"
  using f64_mantissa_less [of x] f64_exponent_le [of x]
  by (auto simp: f64_isnan_def f64_magnitude_fields INF_BITS_def)

lemma f64_isinf_magnitude: "f64_isinf x \<longleftrightarrow> f64_magnitude x = INF_BITS"
  using div_mult_mod_eq [of "f64_magnitude x" "2 ^ 52"]
  by (auto simp: f64_isinf_def f64_fields_of_magnitude INF_BITS_def)

lemma f64_of_ratio_not_nan [simp]: "\<not> f64_isnan (f64_of_ratio negative n d)"
  by (simp add: f64_isnan_magnitude f64_of_ratio_parts)

lemma f64_le_key: "\<not> f64_isnan x \<Longrightarrow> \<not> f64_isnan y \<Longrightarrow> f64_le x y \<longleftrightarrow> f64_key x \<le> f64_key y"
  by (auto simp: f64_le_def f64_lt_def f64_eq_def)

lemma f64_le_not_nan: "f64_le x y \<Longrightarrow> \<not> f64_isnan x \<and> \<not> f64_isnan y"
  by (auto simp: f64_le_def f64_lt_def f64_eq_def)

lemma f64_of_ratio_key:
  "f64_key (f64_of_ratio negative n d) = (if negative then - 1 else 1) * int (min (round_ratio n d) INF_BITS)"
  by (simp add: f64_key_magnitude f64_of_ratio_parts)

lemma f64_eqI: "f64_magnitude x = f64_magnitude y \<Longrightarrow> f64_negative x = f64_negative y \<Longrightarrow> x = y"
proof (rule bit_eqI)
  fix n assume m: "f64_magnitude x = f64_magnitude y" "f64_negative x = f64_negative y" and n: "possible_bit TYPE(64 word) n"
  from m(1) have t: "take_bit 63 x = take_bit 63 y" by (simp add: f64_magnitude_def word_unat_eq_iff)
  show "bit x n \<longleftrightarrow> bit y n"
  proof (cases "n < 63")
    case True
    then show ?thesis using arg_cong [OF t, of "\<lambda>w. bit w n"] by (simp add: bit_take_bit_iff)
  next
    case False
    with n have "n = 63" by simp
    with m(2) show ?thesis by (simp add: f64_negative_def)
  qed
qed

section \<open>Clamping and decimal rounding\<close>

text \<open>\<open>max(0.0, x)\<close> is never negative and never a NaN, whatever \<open>x\<close> is; \<open>min\<close> keeps an upper bound.\<close>

lemma f64_max_zero: "\<not> f64_isnan (f64_max 0 x)" "0 \<le> f64_key (f64_max 0 x)"
  by (auto simp: f64_max_def f64_lt_def f64_key_magnitude f64_isnan_magnitude INF_BITS_def f64_negative_def)

lemma f64_min_bound: "\<not> f64_isnan a \<Longrightarrow> \<not> f64_isnan b \<Longrightarrow> \<not> f64_isnan (f64_min a b) \<and> f64_key (f64_min a b) = min (f64_key a) (f64_key b)"
  by (auto simp: f64_min_def f64_lt_def)

lemma f64_round_negative [simp]: "f64_negative (f64_round x n) = f64_negative x"
  by (simp add: f64_round_def f64_of_ratio_parts)

lemma f64_round_not_nan: "\<not> f64_isnan x \<Longrightarrow> \<not> f64_isnan (f64_round x n)"
  by (simp add: f64_round_def)

lemma UNIT_pos [simp]: "0 < UNIT"
  by (simp add: UNIT_def)

lemma f64_round_magnitude_mono:
  assumes "\<not> f64_isnan x" "\<not> f64_isnan y" "f64_magnitude x \<le> f64_magnitude y"
  shows "f64_magnitude (f64_round x n) \<le> f64_magnitude (f64_round y n)"
proof (cases "f64_isinf y")
  case True
  then have "f64_magnitude (f64_round y n) = INF_BITS" by (simp add: f64_round_def f64_isinf_magnitude)
  moreover have "f64_magnitude (f64_round x n) \<le> INF_BITS"
    using f64_round_not_nan [OF assms(1), of n] by (simp add: f64_isnan_magnitude)
  ultimately show ?thesis by simp
next
  case False
  with assms have x: "\<not> f64_isinf x" by (simp add: f64_isinf_magnitude f64_isnan_magnitude)
  have "div_half_even (f64_units x * 10 ^ n) UNIT \<le> div_half_even (f64_units y * 10 ^ n) UNIT"
    using assms(3) by (intro div_half_even_mono_same) (simp add: f64_magnitude_le_iff)
  then have "div_half_even (f64_units x * 10 ^ n) UNIT * UNIT * 10 ^ n \<le> div_half_even (f64_units y * 10 ^ n) UNIT * UNIT * 10 ^ n"
    by simp
  then have "round_ratio (div_half_even (f64_units x * 10 ^ n) UNIT * UNIT) (10 ^ n)
      \<le> round_ratio (div_half_even (f64_units y * 10 ^ n) UNIT * UNIT) (10 ^ n)"
    by (intro round_ratio_mono) simp_all
  with assms False x show ?thesis by (simp add: f64_round_def f64_of_ratio_parts min.coboundedI1)
qed

text \<open>A whole number stays as it is.\<close>

lemma round_ratio_cancel: "0 < d \<Longrightarrow> round_ratio (n * d) d = round_ratio n 1"
  by (rule antisym; rule round_ratio_mono) simp_all

lemma f64_round_whole:
  assumes "f64_units c = k * UNIT"
  shows "f64_round c n = c"
proof (cases "f64_isnan c \<or> f64_isinf c")
  case True
  then show ?thesis by (auto simp: f64_round_def)
next
  case False
  then have c: "f64_magnitude c < INF_BITS" by (simp add: f64_isnan_magnitude f64_isinf_magnitude)
  have "div_half_even (f64_units c * 10 ^ n) UNIT = k * 10 ^ n"
    using div_half_even_exact(1) [OF UNIT_pos, of "k * 10 ^ n"] by (simp only: assms mult.assoc mult.commute [of k UNIT])
  then have "div_half_even (f64_units c * 10 ^ n) UNIT * UNIT = f64_units c * 10 ^ n" by (simp add: assms)
  then have "round_ratio (div_half_even (f64_units c * 10 ^ n) UNIT * UNIT) (10 ^ n) = f64_magnitude c"
    using round_ratio_cancel [of "10 ^ n" "f64_units c"] round_ratio_units [of c] by simp
  with False c show ?thesis by (intro f64_eqI) (simp_all add: f64_round_def f64_of_ratio_parts)
qed

text \<open>Rounding what lies between zero and a whole number stays between them.\<close>

lemma f64_key_nonneg: "0 \<le> f64_key x \<longleftrightarrow> \<not> f64_negative x \<or> f64_magnitude x = 0"
  by (auto simp: f64_key_magnitude)

theorem f64_round_between:
  assumes "\<not> f64_isnan x" "0 \<le> f64_key x" "f64_key x \<le> f64_key c" "\<not> f64_isnan c" "f64_units c = k * UNIT"
  shows "0 \<le> f64_key (f64_round x n)" "f64_key (f64_round x n) \<le> f64_key c"
proof -
  have z: "f64_round 0 n = 0" by (rule f64_round_whole [of _ 0]) simp
  have m: "f64_magnitude x \<le> f64_magnitude c" using assms(2,3) by (auto simp: f64_key_magnitude split: if_splits)
  have r: "f64_magnitude (f64_round x n) \<le> f64_magnitude c"
    using f64_round_magnitude_mono [OF assms(1,4) m, of n] by (simp add: f64_round_whole [OF assms(5)])
  have "f64_magnitude x = 0 \<Longrightarrow> f64_magnitude (f64_round x n) \<le> f64_magnitude (f64_round 0 n)"
    using assms(1) by (intro f64_round_magnitude_mono) (simp_all add: f64_isnan_magnitude)
  then have z: "f64_magnitude x = 0 \<Longrightarrow> f64_magnitude (f64_round x n) = 0" by (simp add: z)
  show "0 \<le> f64_key (f64_round x n)" using assms(2) z by (auto simp: f64_key_nonneg)
  show "f64_key (f64_round x n) \<le> f64_key c"
    using r assms(2,3) z by (auto simp: f64_key_magnitude split: if_splits)
qed

end
