(* ===== verification/PyBase64.thy ===== *)
theory PyBase64 imports PyBytes begin

text \<open>
  \<open>base64.b64encode\<close> and \<open>base64.b64decode(..., validate=True)\<close>, which the evidence envelope uses for
  its keys and nonces.  The decoder follows the state machine of \<open>binascii.a2b_base64\<close> in strict mode
  (Python 3.11 and 3.12), padding rules included; \<open>None\<close> is any of its errors, which the callers do not
  tell apart.
\<close>

definition B64_ALPHABET :: string where
  "B64_ALPHABET = ''ABCDEFGHIJKLMNOPQRSTUVWXYZabcdefghijklmnopqrstuvwxyz0123456789+/''"

definition b64_char :: "nat \<Rightarrow> char" where
  "b64_char n = B64_ALPHABET ! n"

fun index_of :: "char \<Rightarrow> string \<Rightarrow> nat option" where
  "index_of c [] = None"
| "index_of c (d # ds) = (if c = d then Some 0 else map_option Suc (index_of c ds))"

definition b64_value :: "char \<Rightarrow> nat option" where
  "b64_value c = index_of c B64_ALPHABET"

fun b64encode :: "bytes \<Rightarrow> string" where
  "b64encode [] = []"
| "b64encode [a] = [b64_char (unat a div 4), b64_char (unat a mod 4 * 16), CHR ''='', CHR ''='']"
| "b64encode [a, b] = [b64_char (unat a div 4), b64_char (unat a mod 4 * 16 + unat b div 16),
     b64_char (unat b mod 16 * 4), CHR ''='']"
| "b64encode (a # b # c # r) = [b64_char (unat a div 4), b64_char (unat a mod 4 * 16 + unat b div 16),
     b64_char (unat b mod 16 * 4 + unat c div 64), b64_char (unat c mod 64)] @ b64encode r"

text \<open>The position in the group of four, the bits left over, the padding seen in a row, and whether any was seen.\<close>

fun b64_scan :: "string \<Rightarrow> nat \<Rightarrow> nat \<Rightarrow> nat \<Rightarrow> bool \<Rightarrow> bytes option" where
  "b64_scan [] position left pads started = (if position = 0 then Some [] else None)"
| "b64_scan (c # cs) position left pads started =
     (if c = CHR ''='' then
        (if position \<ge> 2 \<and> position + (pads + 1) \<ge> 4 then (if cs = [] then Some [] else None)
         else b64_scan cs position left (if position \<ge> 2 then pads + 1 else pads) True)
      else (case b64_value c of
          None \<Rightarrow> None
        | Some v \<Rightarrow>
            if started then None
            else if position = 0 then b64_scan cs 1 v 0 started
            else if position = 1 then map_option (Cons (word_of_nat (left * 4 + v div 16))) (b64_scan cs 2 (v mod 16) 0 started)
            else if position = 2 then map_option (Cons (word_of_nat (left * 16 + v div 4))) (b64_scan cs 3 (v mod 4) 0 started)
            else map_option (Cons (word_of_nat (left * 64 + v))) (b64_scan cs 0 0 0 started)))"

definition b64decode :: "string \<Rightarrow> bytes option" where
  "b64decode s = (if s \<noteq> [] \<and> hd s = CHR ''='' then None else b64_scan s 0 0 0 False)"

section \<open>Round trip\<close>

lemma b64_table: "list_all (\<lambda>n. b64_value (b64_char n) = Some n \<and> b64_char n \<noteq> CHR ''='') [0..<64]"
  by code_simp

lemma b64_char_value [simp]: "n < 64 \<Longrightarrow> b64_value (b64_char n) = Some n" "n < 64 \<Longrightarrow> b64_char n \<noteq> CHR ''=''"
  using b64_table by (simp_all add: list_all_iff)

lemma byte_word [simp]: "word_of_nat (unat (b :: 8 word)) = b"
  by simp

lemma join_digits [simp]: "b < (m::nat) \<Longrightarrow> (a * m + b) div m = a" "b < (m::nat) \<Longrightarrow> (a * m + b) mod m = b"
  by (simp_all add: div_add1_eq)

lemma sextets:
  assumes "x < 256" "y < 256" "z < (256::nat)"
  shows "x div 4 < 64" "x mod 4 * 16 + y div 16 < 64" "y mod 16 * 4 + z div 64 < 64" "z mod 64 < 64"
    "x div 4 * 4 + (x mod 4 * 16 + y div 16) div 16 = x"
    "(x mod 4 * 16 + y div 16) mod 16 * 16 + (y mod 16 * 4 + z div 64) div 4 = y"
    "(y mod 16 * 4 + z div 64) mod 4 * 64 + z mod 64 = z"
proof -
  have y: "y div 16 < 16" and z: "z div 64 < 4" using assms by linarith+
  show "x div 4 < 64" "x mod 4 * 16 + y div 16 < 64" "y mod 16 * 4 + z div 64 < 64" "z mod 64 < 64"
    using assms y z by linarith+
  show "x div 4 * 4 + (x mod 4 * 16 + y div 16) div 16 = x" using y by (simp add: div_mult_mod_eq)
  show "(x mod 4 * 16 + y div 16) mod 16 * 16 + (y mod 16 * 4 + z div 64) div 4 = y" using y z by (simp add: div_mult_mod_eq)
  show "(y mod 16 * 4 + z div 64) mod 4 * 64 + z mod 64 = z" using z by (simp add: div_mult_mod_eq)
qed

lemma scan_three:
  assumes "x < 256" "y < 256" "z < 256"
  shows "b64_scan (b64_char (x div 4) # b64_char (x mod 4 * 16 + y div 16) # b64_char (y mod 16 * 4 + z div 64) # b64_char (z mod 64) # r) 0 0 0 False =
    map_option (\<lambda>bs. word_of_nat x # word_of_nat y # word_of_nat z # bs) (b64_scan r 0 0 0 False)"
  using sextets [OF assms] by (simp add: option.map_comp comp_def)

lemma b64_scan_encode: "b64_scan (b64encode bs) 0 0 0 False = Some bs"
proof (induction bs rule: b64encode.induct)
  case (2 a)
  have "unat a < 256" by simp
  from sextets [OF this, of 0 0] show ?case by simp
next
  case (3 a b)
  have "unat a < 256" "unat b < 256" by simp_all
  from sextets [OF this, of 0] show ?case by simp
next
  case (4 a b c r)
  have "unat a < 256" "unat b < 256" "unat c < 256" by simp_all
  from scan_three [OF this, of "b64encode r"] 4 show ?case by simp
qed simp

lemma b64encode_head: "b64encode bs \<noteq> [] \<Longrightarrow> hd (b64encode bs) \<noteq> CHR ''=''"
proof (induction bs rule: b64encode.induct)
  case (2 a)
  have "unat a < 256" by simp
  then have "unat a div 4 < 64" by linarith
  then show ?case by simp
next
  case (3 a b)
  have "unat a < 256" by simp
  then have "unat a div 4 < 64" by linarith
  then show ?case by simp
next
  case (4 a b c r)
  have "unat a < 256" by simp
  then have "unat a div 4 < 64" by linarith
  then show ?case by simp
qed simp

lemma b64decode_encode [simp]: "b64decode (b64encode bs) = Some bs"
  using b64encode_head [of bs] by (auto simp: b64decode_def b64_scan_encode)

end
