(* ===== verification/OperatorAuth.thy ===== *)
theory OperatorAuth imports FloatArith CanonicalJson PyText PyBase64 Sha256 begin

text \<open>
  core/auth/service.py, the local operator's accounts, sessions, passkeys and lockout.  The state is what
  the ORM session holds; the operator identifier, one constant, is left out of the rows.  The clock and
  the random source are streams of readings and draws, each call taking the next.  Argon2 and WebAuthn
  are libraries and enter as functions of \<open>auth_env\<close>; generating the browser's options is theirs too.
  An operation is a state transformer whose result may be an exception, and what it changed before
  raising stays changed.  The lemmas show what a session token is worth, when sessions appear, that
  revocation is final, and the exact schedule of the lockout.
\<close>

section \<open>State\<close>

definition SESSION_LIFETIME_SECONDS :: nat where
  "SESSION_LIFETIME_SECONDS = 8 * 60 * 60"

definition STEP_UP_MAX_AGE_SECONDS :: nat where
  "STEP_UP_MAX_AGE_SECONDS = 5 * 60"

definition CHALLENGE_LIFETIME_SECONDS :: nat where
  "CHALLENGE_LIFETIME_SECONDS = 5 * 60"

record operator_account =
  oa_display_name :: string
  oa_auth_enabled :: bool
  oa_setup_completed :: bool
  oa_pin_hash :: "string option"
  oa_recovery_hash :: "string option"
  oa_failed_attempts :: int
  oa_locked_until :: "f64 option"
  oa_created_at :: f64
  oa_updated_at :: f64

record operator_session =
  os_id :: string
  os_token_hash :: string
  os_client_type :: string
  os_installation_id :: string
  os_created_at :: f64
  os_authenticated_at :: f64
  os_step_up_at :: f64
  os_expires_at :: f64
  os_revoked_at :: "f64 option"
  os_revoke_reason :: "string option"

record operator_challenge =
  oc_id :: string
  oc_kind :: string
  oc_challenge :: string
  oc_origin :: string
  oc_rp_id :: string
  oc_created_at :: f64
  oc_expires_at :: f64
  oc_consumed_at :: "f64 option"

record operator_credential =
  ok_id :: string
  ok_credential_id :: string
  ok_public_key :: string
  ok_sign_count :: int
  ok_transports :: string
  ok_nickname :: string
  ok_created_at :: f64
  ok_last_used_at :: "f64 option"

record audit_event =
  ae_id :: string
  ae_event_type :: string
  ae_outcome :: string
  ae_client_type :: string
  ae_request_id :: "string option"
  ae_details_json :: string
  ae_created_at :: f64

record auth_state =
  au_account :: "operator_account option"
  au_sessions :: "operator_session list"
  au_challenges :: "operator_challenge list"
  au_credentials :: "operator_credential list"
  au_audit :: "audit_event list"
  au_installation :: "string option"
  au_ticks :: nat
  au_draws :: nat

text \<open>The fields of a browser's WebAuthn answer that the service itself reads.\<close>

record webauthn_answer =
  wa_id :: "string option"
  wa_raw_id :: "string option"
  wa_transports :: string
  wa_body :: bytes

text \<open>
  \<open>ev_registration\<close> and \<open>ev_assertion\<close> are given the answer, the expected challenge, relying party and
  origin, and for an assertion the stored key and signature count; \<open>None\<close> is an exception of the library.
\<close>

record auth_env =
  ev_clock :: "nat \<Rightarrow> f64"
  ev_text :: "nat \<Rightarrow> string"
  ev_bytes :: "nat \<Rightarrow> bytes"
  ev_hash :: "string \<Rightarrow> string \<Rightarrow> string"
  ev_verify :: "string \<Rightarrow> string \<Rightarrow> bool"
  ev_needs_rehash :: "string \<Rightarrow> bool"
  ev_registration :: "webauthn_answer \<Rightarrow> bytes \<Rightarrow> string \<Rightarrow> string \<Rightarrow> (bytes \<times> bytes \<times> int) option"
  ev_assertion :: "webauthn_answer \<Rightarrow> bytes \<Rightarrow> string \<Rightarrow> string \<Rightarrow> bytes \<Rightarrow> int \<Rightarrow> int option"

section \<open>State transformers\<close>

type_synonym 'a auth = "auth_state \<Rightarrow> auth_state \<times> 'a result"

definition bindA :: "'a auth \<Rightarrow> ('a \<Rightarrow> 'b auth) \<Rightarrow> 'b auth" where
  "bindA m f s = (case m s of (s', Inl e) \<Rightarrow> (s', Inl e) | (s', Inr x) \<Rightarrow> f x s')"

definition returnA :: "'a \<Rightarrow> 'a auth" where
  "returnA x s = (s, Inr x)"

definition raiseA :: "py_error \<Rightarrow> 'a auth" where
  "raiseA e s = (s, Inl e)"

definition auth_error :: "string \<Rightarrow> string \<Rightarrow> int \<Rightarrow> 'a auth" where
  "auth_error code message status_code = raiseA (AuthError code message status_code)"

definition guardA :: "bool \<Rightarrow> py_error \<Rightarrow> unit auth" where
  "guardA b e = (if b then returnA () else raiseA e)"

definition readA :: "(auth_state \<Rightarrow> 'a) \<Rightarrow> 'a auth" where
  "readA f s = (s, Inr (f s))"

definition changeA :: "(auth_state \<Rightarrow> auth_state) \<Rightarrow> unit auth" where
  "changeA f s = (f s, Inr ())"

definition liftA :: "'a result \<Rightarrow> 'a auth" where
  "liftA r s = (s, r)"

definition clockA :: "auth_env \<Rightarrow> f64 auth" where
  "clockA env s = (s\<lparr>au_ticks := au_ticks s + 1\<rparr>, Inr (ev_clock env (au_ticks s)))"

definition drawA :: "auth_env \<Rightarrow> string auth" where
  "drawA env s = (s\<lparr>au_draws := au_draws s + 1\<rparr>, Inr (ev_text env (au_draws s)))"

definition draw_bytesA :: "auth_env \<Rightarrow> bytes auth" where
  "draw_bytesA env s = (s\<lparr>au_draws := au_draws s + 1\<rparr>, Inr (ev_bytes env (au_draws s)))"

text \<open>Argon2 draws its own salt.\<close>

definition hashA :: "auth_env \<Rightarrow> string \<Rightarrow> string auth" where
  "hashA env secret = bindA (drawA env) (\<lambda>salt. returnA (ev_hash env salt secret))"

definition map_account :: "(operator_account \<Rightarrow> operator_account) \<Rightarrow> auth_state \<Rightarrow> auth_state" where
  "map_account f s = s\<lparr>au_account := map_option f (au_account s)\<rparr>"

text \<open>A row is changed through its primary key.\<close>

definition map_session :: "string \<Rightarrow> (operator_session \<Rightarrow> operator_session) \<Rightarrow> auth_state \<Rightarrow> auth_state" where
  "map_session i f s = s\<lparr>au_sessions := map (\<lambda>r. if os_id r = i then f r else r) (au_sessions s)\<rparr>"

definition consume_challenge :: "string \<Rightarrow> f64 \<Rightarrow> auth_state \<Rightarrow> auth_state" where
  "consume_challenge i t s =
     s\<lparr>au_challenges := map (\<lambda>c. if oc_id c = i then c\<lparr>oc_consumed_at := Some t\<rparr> else c) (au_challenges s)\<rparr>"

section \<open>Text\<close>

definition text_or :: "string option \<Rightarrow> string \<Rightarrow> string" where
  "text_or x fallback = (case x of None \<Rightarrow> fallback | Some t \<Rightarrow> if t = [] then fallback else t)"

definition token_hash :: "string \<Rightarrow> string" where
  "token_hash token = sha256_hex (utf8 token)"

definition url_char :: "char \<Rightarrow> char" where
  "url_char c = (if c = CHR ''+'' then CHR ''-'' else if c = CHR ''/'' then CHR ''_'' else c)"

definition unurl_char :: "char \<Rightarrow> char" where
  "unurl_char c = (if c = CHR ''-'' then CHR ''+'' else if c = CHR ''_'' then CHR ''/'' else c)"

definition auth_b64 :: "bytes \<Rightarrow> string" where
  "auth_b64 value = rev (dropWhile (\<lambda>c. c = CHR ''='') (rev (map url_char (b64encode value))))"

text \<open>Every text this is applied to was written by \<open>auth_b64\<close>, where a lenient decoder agrees with a strict one.\<close>

definition auth_unb64 :: "string \<Rightarrow> bytes option" where
  "auth_unb64 value = b64decode (map unurl_char (value @ replicate (nat (- int (length value) mod 4)) (CHR ''='')))"

definition normalize_pin :: "string \<Rightarrow> string" where
  "normalize_pin pin = py_strip pin"

definition normalize_recovery_code :: "string \<Rightarrow> string" where
  "normalize_recovery_code code = py_upper (filter (\<lambda>c. \<not> is_space_char c) code)"

definition validate_pin :: "string \<Rightarrow> unit result" where
  "validate_pin pin = guardE (\<not> (length pin < 6 \<or> length pin > 128))
     (AuthError ''invalid_pin'' ''Use a PIN with at least six characters'' 422)"

text \<open>\<open>"-".join(secrets.token_hex(3).upper() for _ in range(4))\<close>\<close>

definition new_recovery_code :: "auth_env \<Rightarrow> string auth" where
  "new_recovery_code env =
     bindA (drawA env) (\<lambda>a. bindA (drawA env) (\<lambda>b. bindA (drawA env) (\<lambda>c. bindA (drawA env) (\<lambda>d.
     returnA (py_join ''-'' (map py_upper [a, b, c, d]))))))"

section \<open>Audit, installation, sessions\<close>

definition audit_dumps :: "(string \<times> json) list \<Rightarrow> string" where
  "audit_dumps details = ''{'' @ py_join '', '' (map (\<lambda>(k, v). json_string k @ '': '' @ json_dumps v) (sort_key fst details)) @ ''}''"

definition auditA :: "auth_env \<Rightarrow> string \<Rightarrow> string \<Rightarrow> string \<Rightarrow> string option \<Rightarrow> (string \<times> json) list \<Rightarrow> unit auth" where
  "auditA env event_type outcome client_type request_id details =
     (let allowed = map (\<lambda>(k, v). (take 80 k, v))
            (filter (\<lambda>(k, v). k \<notin> {''pin'', ''secret'', ''token'', ''credential'', ''recovery_code''}) details)
      in bindA (drawA env) (\<lambda>event_id. bindA (clockA env) (\<lambda>now.
         changeA (\<lambda>s. s\<lparr>au_audit := au_audit s @ [\<lparr>ae_id = event_id, ae_event_type = take 120 event_type, ae_outcome = take 32 outcome,
           ae_client_type = take 32 (str_or client_type ''unknown''),
           ae_request_id = (let r = take 64 (text_or request_id []) in if r = [] then None else Some r),
           ae_details_json = take 4000 (audit_dumps allowed), ae_created_at = now\<rparr>]\<rparr>))))"

definition installation_id :: "auth_env \<Rightarrow> string auth" where
  "installation_id env =
     bindA (readA au_installation) (\<lambda>stored.
     if text_or stored [] \<noteq> [] then returnA (text_or stored [])
     else bindA (drawA env) (\<lambda>value. bindA (changeA (\<lambda>s. s\<lparr>au_installation := Some value\<rparr>)) (\<lambda>_. returnA value)))"

definition create_session :: "auth_env \<Rightarrow> string \<Rightarrow> (string \<times> operator_session) auth" where
  "create_session env client_type =
     bindA (clockA env) (\<lambda>now.
     bindA (drawA env) (\<lambda>raw_token.
     bindA (drawA env) (\<lambda>session_id.
     bindA (installation_id env) (\<lambda>installation.
     (let row = \<lparr>os_id = session_id, os_token_hash = token_hash raw_token, os_client_type = take 32 (str_or client_type ''browser''),
            os_installation_id = installation, os_created_at = now, os_authenticated_at = now, os_step_up_at = now,
            os_expires_at = f64_add now (f64_of_nat SESSION_LIFETIME_SECONDS), os_revoked_at = None, os_revoke_reason = None\<rparr>
      in bindA (changeA (\<lambda>s. s\<lparr>au_sessions := au_sessions s @ [row]\<rparr>)) (\<lambda>_. returnA (raw_token, row)))))))"

record public_session =
  ps_id :: string
  ps_client_type :: string
  ps_authenticated_at :: f64
  ps_step_up_at :: f64
  ps_expires_at :: f64

definition session_public :: "operator_session \<Rightarrow> public_session" where
  "session_public r = \<lparr>ps_id = os_id r, ps_client_type = os_client_type r, ps_authenticated_at = os_authenticated_at r,
     ps_step_up_at = os_step_up_at r, ps_expires_at = os_expires_at r\<rparr>"

definition session_with :: "string \<Rightarrow> auth_state \<Rightarrow> operator_session option" where
  "session_with digest s = find (\<lambda>r. os_token_hash r = digest) (au_sessions s)"

section \<open>Authentication\<close>

definition refuseA :: "bool \<Rightarrow> string \<Rightarrow> string \<Rightarrow> int \<Rightarrow> 'a option auth" where
  "refuseA required code message status_code = (if required then auth_error code message status_code else returnA None)"

definition authenticate :: "auth_env \<Rightarrow> string option \<Rightarrow> bool \<Rightarrow> operator_session option auth" where
  "authenticate env token required =
     bindA (readA au_account) (\<lambda>account.
     case account of
       None \<Rightarrow> refuseA required ''setup_required'' ''Complete WatchTower operator setup before using the API'' 428
     | Some a \<Rightarrow>
         if oa_setup_completed a \<and> \<not> oa_auth_enabled a then returnA None
         else if \<not> oa_setup_completed a
         then refuseA required ''setup_required'' ''Complete WatchTower operator setup before using the API'' 428
         else if text_or token [] = []
         then refuseA required ''authentication_required'' ''Unlock WatchTower to continue'' 401
         else
           bindA (clockA env) (\<lambda>now.
           bindA (readA (session_with (token_hash (text_or token [])))) (\<lambda>found.
           case found of
             None \<Rightarrow> refuseA required ''invalid_session'' ''The WatchTower session is invalid or locked'' 401
           | Some row \<Rightarrow>
               if os_revoked_at row \<noteq> None
               then refuseA required ''invalid_session'' ''The WatchTower session is invalid or locked'' 401
               else if f64_le (os_expires_at row) now
               then bindA (changeA (map_session (os_id row)
                      (\<lambda>r. r\<lparr>os_revoked_at := Some now, os_revoke_reason := Some ''absolute_expiry''\<rparr>))) (\<lambda>_.
                    refuseA required ''session_expired'' ''The eight-hour WatchTower session has expired'' 401)
               else bindA (installation_id env) (\<lambda>installation.
                 if os_installation_id row \<noteq> installation
                 then refuseA required ''installation_mismatch'' ''The session belongs to another WatchTower installation'' 401
                 else returnA (Some row)))))"

record auth_status =
  st_state :: string
  st_auth_enabled :: bool
  st_authenticated :: bool
  st_operator :: "string option"
  st_credential_count :: nat
  st_session :: "public_session option"
  st_installation_id :: string

definition auth_status :: "auth_env \<Rightarrow> string option \<Rightarrow> auth_status auth" where
  "auth_status env token =
     bindA (if text_or token [] = [] then returnA None else authenticate env token False) (\<lambda>session.
     bindA (readA au_account) (\<lambda>account.
     bindA (readA (\<lambda>s. length (au_credentials s))) (\<lambda>credential_count.
     bindA (installation_id env) (\<lambda>installation.
     returnA \<lparr>st_state = (case account of None \<Rightarrow> ''setup_required''
           | Some a \<Rightarrow> if \<not> oa_setup_completed a then ''setup_required'' else if \<not> oa_auth_enabled a then ''disabled''
               else if session \<noteq> None then ''unlocked'' else ''locked''),
         st_auth_enabled = (case account of None \<Rightarrow> True | Some a \<Rightarrow> oa_auth_enabled a),
         st_authenticated = (session \<noteq> None), st_operator = map_option oa_display_name account,
         st_credential_count = (if account = None then 0 else credential_count),
         st_session = map_option session_public session, st_installation_id = installation\<rparr>))))"

definition require_step_up :: "auth_env \<Rightarrow> string \<Rightarrow> operator_session option auth" where
  "require_step_up env token =
     bindA (readA au_account) (\<lambda>account.
     if (case account of None \<Rightarrow> False | Some a \<Rightarrow> oa_setup_completed a \<and> \<not> oa_auth_enabled a) then returnA None
     else bindA (authenticate env (Some token) True) (\<lambda>found.
       bindA (clockA env) (\<lambda>now.
       case found of
         None \<Rightarrow> raiseA (AttributeError ''step_up_at'')
       | Some row \<Rightarrow>
           if f64_lt (f64_of_nat STEP_UP_MAX_AGE_SECONDS) (f64_sub now (os_step_up_at row))
           then auth_error ''step_up_required'' ''Re-authenticate before performing this sensitive operation'' 403
           else returnA (Some row))))"

definition lockA :: "auth_env \<Rightarrow> string option \<Rightarrow> bool \<Rightarrow> string \<Rightarrow> nat auth" where
  "lockA env token all_sessions reason =
     bindA (clockA env) (\<lambda>now.
     if \<not> all_sessions \<and> text_or token [] = [] then returnA 0
     else
       (let hit = (\<lambda>r. os_revoked_at r = None \<and> (all_sessions \<or> os_token_hash r = token_hash (text_or token [])))
        in bindA (readA (\<lambda>s. length (filter hit (au_sessions s)))) (\<lambda>n.
           bindA (changeA (\<lambda>s. s\<lparr>au_sessions := map (\<lambda>r. if hit r
             then r\<lparr>os_revoked_at := Some now, os_revoke_reason := Some (take 160 reason)\<rparr> else r) (au_sessions s)\<rparr>)) (\<lambda>_.
           returnA n))))"

section \<open>The PIN\<close>

definition lock_seconds :: "int \<Rightarrow> nat" where
  "lock_seconds failed = min 300 (2 ^ nat (min (failed - 4) 8))"

definition locked_at :: "operator_account \<Rightarrow> f64 \<Rightarrow> f64 option" where
  "locked_at a now = (case oa_locked_until a of
     None \<Rightarrow> None | Some t \<Rightarrow> if \<not> f64_is_zero t \<and> f64_lt now t then Some t else None)"

text \<open>The stored hash is tried on the trimmed PIN, then on the PIN as typed.\<close>

definition pin_accepted :: "auth_env \<Rightarrow> operator_account \<Rightarrow> string \<Rightarrow> bool" where
  "pin_accepted env a pin =
     (text_or (oa_pin_hash a) [] \<noteq> [] \<and>
      (ev_verify env (text_or (oa_pin_hash a) []) (normalize_pin pin) \<or>
       normalize_pin pin \<noteq> pin \<and> ev_verify env (text_or (oa_pin_hash a) []) pin))"

definition pin_failed :: "f64 \<Rightarrow> operator_account \<Rightarrow> operator_account" where
  "pin_failed now a =
     (let failed = oa_failed_attempts a + 1
      in a\<lparr>oa_failed_attempts := failed,
           oa_locked_until := (if failed \<ge> 5 then Some (f64_add now (f64_of_nat (lock_seconds failed))) else oa_locked_until a),
           oa_updated_at := now\<rparr>)"

definition pin_cleared :: "f64 \<Rightarrow> operator_account \<Rightarrow> operator_account" where
  "pin_cleared now a = a\<lparr>oa_failed_attempts := 0, oa_locked_until := None, oa_updated_at := now\<rparr>"

definition verify_pin_value :: "auth_env \<Rightarrow> string \<Rightarrow> unit auth" where
  "verify_pin_value env pin =
     bindA (readA au_account) (\<lambda>account.
     case account of
       None \<Rightarrow> auth_error ''authentication_unavailable'' ''PIN authentication is not enabled'' 409
     | Some a \<Rightarrow>
         if \<not> oa_setup_completed a \<or> \<not> oa_auth_enabled a
         then auth_error ''authentication_unavailable'' ''PIN authentication is not enabled'' 409
         else
           bindA (clockA env) (\<lambda>now.
           case locked_at a now of
             Some t \<Rightarrow>
               bindA (liftA (f64_to_int (f64_sub t now))) (\<lambda>wait.
               auth_error ''temporarily_locked'' (''Too many attempts. Try again in '' @ show_int (max 1 wait) @ '' seconds'') 429)
           | None \<Rightarrow>
               if \<not> pin_accepted env a pin
               then bindA (changeA (map_account (pin_failed now))) (\<lambda>_.
                    auth_error ''invalid_pin'' ''The operator PIN is incorrect'' 401)
               else bindA (changeA (map_account (pin_cleared now))) (\<lambda>_.
                    if ev_needs_rehash env (text_or (oa_pin_hash a) [])
                    then bindA (hashA env (normalize_pin pin)) (\<lambda>h. changeA (map_account (\<lambda>b. b\<lparr>oa_pin_hash := Some h\<rparr>)))
                    else returnA ())))"

record auth_result =
  ar_token :: string
  ar_session :: public_session
  ar_status :: "auth_status option"
  ar_recovery_code :: "string option"

text \<open>A new session, its audit record, and the status it leads to.\<close>

definition open_session :: "auth_env \<Rightarrow> string \<Rightarrow> string \<Rightarrow> string option \<Rightarrow> (string \<times> json) list \<Rightarrow> string option \<Rightarrow> bool \<Rightarrow> auth_result auth" where
  "open_session env event client_type request_id details recovery with_status =
     bindA (create_session env client_type) (\<lambda>(raw_token, row).
     bindA (auditA env event ''success'' client_type request_id details) (\<lambda>_.
     bindA (if with_status then bindA (auth_status env (Some raw_token)) (\<lambda>st. returnA (Some st)) else returnA None) (\<lambda>status.
     returnA \<lparr>ar_token = raw_token, ar_session = session_public row, ar_status = status, ar_recovery_code = recovery\<rparr>)))"

section \<open>Setting up, unlocking, changing settings\<close>

definition already_configured :: "operator_account option \<Rightarrow> bool" where
  "already_configured account = (case account of None \<Rightarrow> False | Some a \<Rightarrow> oa_setup_completed a)"

definition configured_account :: "operator_account option \<Rightarrow> string \<Rightarrow> string \<Rightarrow> string \<Rightarrow> f64 \<Rightarrow> operator_account" where
  "configured_account account name pin_hash recovery_hash now =
     \<lparr>oa_display_name = take 160 (str_or name ''Local Operator''), oa_auth_enabled = True, oa_setup_completed = True,
      oa_pin_hash = Some pin_hash, oa_recovery_hash = Some recovery_hash, oa_failed_attempts = 0, oa_locked_until = None,
      oa_created_at = (case account of None \<Rightarrow> now | Some a \<Rightarrow> oa_created_at a), oa_updated_at = now\<rparr>"

definition setup_pin :: "auth_env \<Rightarrow> string \<Rightarrow> string \<Rightarrow> string \<Rightarrow> string option \<Rightarrow> auth_result auth" where
  "setup_pin env pin display_name client_type request_id =
     bindA (liftA (validate_pin (normalize_pin pin))) (\<lambda>_.
     bindA (readA au_account) (\<lambda>account.
     if already_configured account
     then auth_error ''already_configured'' ''WatchTower operator authentication is already configured'' 409
     else
       bindA (clockA env) (\<lambda>now.
       bindA (new_recovery_code env) (\<lambda>recovery.
       bindA (hashA env (normalize_pin pin)) (\<lambda>pin_hash.
       bindA (hashA env recovery) (\<lambda>recovery_hash.
       bindA (changeA (\<lambda>s. s\<lparr>au_account := Some (configured_account account display_name pin_hash recovery_hash now)\<rparr>)) (\<lambda>_.
       open_session env ''auth.setup'' client_type request_id [(''method'', JStr ''pin'')] (Some recovery) True)))))))"

definition disable_first_run :: "auth_env \<Rightarrow> string option \<Rightarrow> auth_status auth" where
  "disable_first_run env request_id =
     bindA (readA au_account) (\<lambda>account.
     if already_configured account
     then auth_error ''already_configured'' ''Authentication settings are already configured'' 409
     else
       bindA (clockA env) (\<lambda>now.
       bindA (changeA (\<lambda>s. s\<lparr>au_account := Some (case au_account s of
           None \<Rightarrow> \<lparr>oa_display_name = ''Local Operator'', oa_auth_enabled = False, oa_setup_completed = True, oa_pin_hash = None,
             oa_recovery_hash = None, oa_failed_attempts = 0, oa_locked_until = None, oa_created_at = now, oa_updated_at = now\<rparr>
         | Some a \<Rightarrow> a\<lparr>oa_setup_completed := True, oa_auth_enabled := False, oa_updated_at := now\<rparr>)\<rparr>)) (\<lambda>_.
       bindA (auditA env ''auth.setup'' ''success'' ''browser'' request_id [(''method'', JStr ''disabled'')]) (\<lambda>_.
       auth_status env None))))"

definition set_enabled :: "auth_env \<Rightarrow> bool \<Rightarrow> string \<Rightarrow> string \<Rightarrow> string option \<Rightarrow> (auth_status \<times> string option) auth" where
  "set_enabled env enabled token pin request_id =
     bindA (require_step_up env token) (\<lambda>current.
     bindA (readA au_account) (\<lambda>account.
     case account of
       None \<Rightarrow> auth_error ''setup_required'' ''Operator authentication has not been configured'' 409
     | Some a \<Rightarrow>
         bindA (if enabled \<and> text_or (oa_pin_hash a) [] = []
                then bindA (liftA (validate_pin (normalize_pin pin))) (\<lambda>_.
                     bindA (new_recovery_code env) (\<lambda>recovery.
                     bindA (hashA env (normalize_pin pin)) (\<lambda>pin_hash.
                     bindA (hashA env recovery) (\<lambda>recovery_hash.
                     bindA (changeA (map_account (\<lambda>b. b\<lparr>oa_pin_hash := Some pin_hash, oa_recovery_hash := Some recovery_hash,
                       oa_failed_attempts := 0, oa_locked_until := None\<rparr>))) (\<lambda>_. returnA (Some recovery))))))
                else bindA (verify_pin_value env (normalize_pin pin)) (\<lambda>_. returnA None)) (\<lambda>recovery.
         bindA (clockA env) (\<lambda>now.
         bindA (changeA (map_account (\<lambda>b. b\<lparr>oa_auth_enabled := enabled, oa_updated_at := now\<rparr>))) (\<lambda>_.
         bindA (auditA env ''auth.settings'' ''success'' (case current of None \<Rightarrow> ''browser'' | Some row \<Rightarrow> os_client_type row) request_id
           [(''auth_enabled'', JBool enabled)]) (\<lambda>_.
         bindA (auth_status env (if enabled then Some token else None)) (\<lambda>status.
         returnA (status, recovery))))))))"

definition verify_pin :: "auth_env \<Rightarrow> string \<Rightarrow> string \<Rightarrow> string option \<Rightarrow> auth_result auth" where
  "verify_pin env pin client_type request_id s =
     (case verify_pin_value env pin s of
        (s', Inl (AuthError code message status_code)) \<Rightarrow>
          bindA (auditA env ''auth.unlock'' ''failure'' client_type request_id [(''method'', JStr ''pin'')]) (\<lambda>_.
          auth_error code message status_code) s'
      | (s', Inl e) \<Rightarrow> (s', Inl e)
      | (s', Inr _) \<Rightarrow> open_session env ''auth.unlock'' client_type request_id [(''method'', JStr ''pin'')] None True s')"

definition step_up_pin :: "auth_env \<Rightarrow> string \<Rightarrow> string \<Rightarrow> string option \<Rightarrow> (public_session \<times> auth_status) auth" where
  "step_up_pin env token pin request_id =
     bindA (authenticate env (Some token) True) (\<lambda>found.
     bindA (verify_pin_value env (normalize_pin pin)) (\<lambda>_.
     bindA (clockA env) (\<lambda>now.
     case found of
       None \<Rightarrow> raiseA (AttributeError ''step_up_at'')
     | Some row \<Rightarrow>
         bindA (changeA (map_session (os_id row) (\<lambda>r. r\<lparr>os_step_up_at := now\<rparr>))) (\<lambda>_.
         bindA (auditA env ''auth.step_up'' ''success'' (os_client_type row) request_id [(''method'', JStr ''pin'')]) (\<lambda>_.
         bindA (auth_status env (Some token)) (\<lambda>status.
         returnA (session_public (row\<lparr>os_step_up_at := now\<rparr>), status)))))))"

definition reset_with_recovery :: "auth_env \<Rightarrow> string \<Rightarrow> string \<Rightarrow> string \<Rightarrow> string option \<Rightarrow> auth_result auth" where
  "reset_with_recovery env recovery_code new_pin client_type request_id =
     bindA (liftA (validate_pin (normalize_pin new_pin))) (\<lambda>_.
     bindA (readA au_account) (\<lambda>account.
     if text_or (case account of None \<Rightarrow> None | Some a \<Rightarrow> oa_recovery_hash a) [] = []
     then auth_error ''recovery_unavailable'' ''No WatchTower recovery code is configured'' 409
     else if \<not> ev_verify env (text_or (case account of None \<Rightarrow> None | Some a \<Rightarrow> oa_recovery_hash a) []) (normalize_recovery_code recovery_code)
     then bindA (auditA env ''auth.recovery'' ''failure'' client_type request_id []) (\<lambda>_.
          auth_error ''invalid_recovery_code'' ''The recovery code is invalid'' 401)
     else
       bindA (new_recovery_code env) (\<lambda>recovery.
       bindA (hashA env (normalize_pin new_pin)) (\<lambda>pin_hash.
       bindA (hashA env recovery) (\<lambda>recovery_hash.
       bindA (clockA env) (\<lambda>now.
       bindA (changeA (map_account (\<lambda>a. a\<lparr>oa_pin_hash := Some pin_hash, oa_recovery_hash := Some recovery_hash,
         oa_failed_attempts := 0, oa_locked_until := None, oa_auth_enabled := True, oa_updated_at := now\<rparr>))) (\<lambda>_.
       bindA (lockA env None True ''recovery_reset'') (\<lambda>_.
       open_session env ''auth.recovery'' client_type request_id [] (Some recovery) False))))))))"

definition reset_as_os_admin :: "auth_env \<Rightarrow> string \<Rightarrow> string \<Rightarrow> bool \<Rightarrow> string \<Rightarrow> auth_result auth" where
  "reset_as_os_admin env new_pin reason is_admin client_type =
     bindA (guardA is_admin (AuthError ''administrator_required'' ''Local administrator privileges are required'' 403)) (\<lambda>_.
     bindA (guardA (\<not> length (py_strip reason) < 8) (AuthError ''reason_required'' ''Provide an auditable recovery reason'' 422)) (\<lambda>_.
     bindA (readA au_account) (\<lambda>account.
     if account = None then setup_pin env new_pin ''Local Operator'' client_type None
     else
       bindA (liftA (validate_pin (normalize_pin new_pin))) (\<lambda>_.
       bindA (new_recovery_code env) (\<lambda>recovery.
       bindA (hashA env (normalize_pin new_pin)) (\<lambda>pin_hash.
       bindA (hashA env recovery) (\<lambda>recovery_hash.
       bindA (clockA env) (\<lambda>now.
       bindA (changeA (map_account (\<lambda>a. a\<lparr>oa_pin_hash := Some pin_hash, oa_recovery_hash := Some recovery_hash,
         oa_auth_enabled := True, oa_setup_completed := True, oa_failed_attempts := 0, oa_locked_until := None, oa_updated_at := now\<rparr>))) (\<lambda>_.
       bindA (lockA env None True ''os_admin_recovery'') (\<lambda>_.
       open_session env ''auth.os_admin_recovery'' client_type None [(''reason'', JStr (take 500 reason))] (Some recovery) False))))))))))"

section \<open>Passkeys\<close>

text \<open>
  \<open>urlparse(origin)\<close> as far as it is read, the scheme and the host name; \<open>None\<close> is the ValueError of an
  unbalanced bracket.  Tabs and newlines are dropped, leading control characters and blanks too.
\<close>

definition split_before :: "char set \<Rightarrow> string \<Rightarrow> string \<times> string" where
  "split_before cs s = (takeWhile (\<lambda>c. c \<notin> cs) s, dropWhile (\<lambda>c. c \<notin> cs) s)"

definition is_letter :: "char \<Rightarrow> bool" where
  "is_letter c \<longleftrightarrow> (let n = (of_char c :: nat) in 65 \<le> n \<and> n \<le> 90 \<or> 97 \<le> n \<and> n \<le> 122)"

definition is_scheme_char :: "char \<Rightarrow> bool" where
  "is_scheme_char c \<longleftrightarrow> is_letter c \<or> c \<in> set ''0123456789+-.''"

definition url_scheme :: "string \<Rightarrow> string \<times> string" where
  "url_scheme url =
     (case split_before {CHR '':''} url of (scheme, rest) \<Rightarrow>
        if rest \<noteq> [] \<and> scheme \<noteq> [] \<and> is_letter (hd scheme) \<and> list_all is_scheme_char scheme
        then (py_lower scheme, tl rest) else ([], url))"

definition host_name :: "string \<Rightarrow> string option" where
  "host_name netloc =
     (let info = rev (takeWhile (\<lambda>c. c \<noteq> CHR ''@'') (rev netloc));
          host = (case split_before {CHR ''[''} info of (_, bracketed) \<Rightarrow>
            if bracketed \<noteq> [] then fst (split_before {CHR '']''} (tl bracketed)) else fst (split_before {CHR '':''} info))
      in if host = [] then None
         else (case split_before {CHR ''%''} host of (name, zone) \<Rightarrow> Some (py_lower name @ zone)))"

definition url_parts :: "string \<Rightarrow> (string \<times> string option) option" where
  "url_parts origin =
     (let url = filter (\<lambda>c. c \<notin> {CHR 9, CHR 10, CHR 13}) (dropWhile (\<lambda>c. (of_char c :: nat) \<le> 32) origin)
      in case url_scheme url of (scheme, rest) \<Rightarrow>
         if take 2 rest = ''//''
         then (let netloc = fst (split_before {CHR ''/'', CHR ''?'', CHR ''#''} (drop 2 rest))
               in if (CHR ''['' \<in> set netloc) \<noteq> (CHR '']'' \<in> set netloc) then None else Some (scheme, host_name netloc))
         else Some (scheme, None))"

definition LOCAL_HOSTS :: "string list" where
  "LOCAL_HOSTS = [''127.0.0.1'', ''localhost'', ''::1'']"

definition validated_rp :: "string \<Rightarrow> string result" where
  "validated_rp origin =
     (case url_parts origin of
        None \<Rightarrow> Inl (ValueError ''Invalid IPv6 URL'')
      | Some (scheme, host) \<Rightarrow>
          (case host of
             Some h \<Rightarrow> if scheme \<in> {''http'', ''https''} \<and> h \<in> set LOCAL_HOSTS then Inr h
               else Inl (AuthError ''invalid_origin'' ''WebAuthn is restricted to the local WatchTower origin'' 403)
           | None \<Rightarrow> Inl (AuthError ''invalid_origin'' ''WebAuthn is restricted to the local WatchTower origin'' 403)))"

definition store_challenge :: "auth_env \<Rightarrow> string \<Rightarrow> bytes \<Rightarrow> string \<Rightarrow> string \<Rightarrow> string auth" where
  "store_challenge env kind challenge origin rp_id =
     bindA (clockA env) (\<lambda>now.
     bindA (drawA env) (\<lambda>challenge_id.
     bindA (changeA (\<lambda>s. s\<lparr>au_challenges := au_challenges s @ [\<lparr>oc_id = challenge_id, oc_kind = kind, oc_challenge = auth_b64 challenge,
       oc_origin = origin, oc_rp_id = rp_id, oc_created_at = now,
       oc_expires_at = f64_add now (f64_of_nat CHALLENGE_LIFETIME_SECONDS), oc_consumed_at = None\<rparr>]\<rparr>)) (\<lambda>_.
     returnA challenge_id)))"

definition challenge_for :: "auth_env \<Rightarrow> string \<Rightarrow> string \<Rightarrow> operator_challenge auth" where
  "challenge_for env challenge_id kind =
     bindA (readA (\<lambda>s. find (\<lambda>c. oc_id c = challenge_id \<and> oc_kind c = kind) (au_challenges s))) (\<lambda>found.
     (let refused = auth_error ''challenge_expired'' ''The WebAuthn challenge is invalid, expired, or already used'' 409
      in case found of
           None \<Rightarrow> refused
         | Some c \<Rightarrow>
             if oc_consumed_at c \<noteq> None then refused
             else bindA (clockA env) (\<lambda>now. if f64_le (oc_expires_at c) now then refused else returnA c)))"

text \<open>The challenge, its relying party and the known passkeys are what the browser's options are made of.\<close>

definition start_webauthn_registration :: "auth_env \<Rightarrow> string \<Rightarrow> string \<Rightarrow> string \<Rightarrow> (string \<times> bytes \<times> string \<times> string list) auth" where
  "start_webauthn_registration env token origin nickname =
     bindA (authenticate env (Some token) True) (\<lambda>_.
     bindA (liftA (validated_rp origin)) (\<lambda>rp_id.
     bindA (draw_bytesA env) (\<lambda>challenge.
     bindA (readA (\<lambda>s. map ok_credential_id (au_credentials s))) (\<lambda>known.
     bindA (store_challenge env ''registration'' challenge origin rp_id) (\<lambda>challenge_id.
     returnA (challenge_id, challenge, take 120 nickname, known))))))"

definition finish_webauthn_registration :: "auth_env \<Rightarrow> string \<Rightarrow> string \<Rightarrow> webauthn_answer \<Rightarrow> string \<Rightarrow> string option \<Rightarrow> auth_status auth" where
  "finish_webauthn_registration env token challenge_id credential nickname request_id =
     bindA (authenticate env (Some token) True) (\<lambda>found.
     bindA (challenge_for env challenge_id ''registration'') (\<lambda>challenge.
     case Option.bind (auth_unb64 (oc_challenge challenge)) (\<lambda>expected.
         ev_registration env credential expected (oc_rp_id challenge) (oc_origin challenge)) of
       None \<Rightarrow>
         (case found of
            None \<Rightarrow> raiseA (AttributeError ''client_type'')
          | Some row \<Rightarrow>
              bindA (auditA env ''auth.passkey.register'' ''failure'' (os_client_type row) request_id []) (\<lambda>_.
              auth_error ''webauthn_verification_failed'' ''Passkey verification failed'' 422))
     | Some (credential_id, public_key, sign_count) \<Rightarrow>
         (let encoded_id = auth_b64 credential_id
          in bindA (readA (\<lambda>s. list_ex (\<lambda>k. ok_credential_id k = encoded_id) (au_credentials s))) (\<lambda>known.
             if known then auth_error ''credential_exists'' ''This passkey is already registered'' 409
             else
               bindA (drawA env) (\<lambda>row_id.
               bindA (clockA env) (\<lambda>created.
               bindA (changeA (\<lambda>s. s\<lparr>au_credentials := au_credentials s @ [\<lparr>ok_id = row_id, ok_credential_id = encoded_id,
                 ok_public_key = auth_b64 public_key, ok_sign_count = sign_count, ok_transports = wa_transports credential,
                 ok_nickname = take 120 (str_or nickname ''Windows Hello''), ok_created_at = created, ok_last_used_at = None\<rparr>]\<rparr>)) (\<lambda>_.
               bindA (clockA env) (\<lambda>consumed.
               bindA (changeA (consume_challenge (oc_id challenge) consumed)) (\<lambda>_.
               bindA (clockA env) (\<lambda>stepped.
               case found of
                 None \<Rightarrow> raiseA (AttributeError ''step_up_at'')
               | Some row \<Rightarrow>
                   bindA (changeA (map_session (os_id row) (\<lambda>r. r\<lparr>os_step_up_at := stepped\<rparr>))) (\<lambda>_.
                   bindA (auditA env ''auth.passkey.register'' ''success'' (os_client_type row) request_id []) (\<lambda>_.
                   auth_status env (Some token)))))))))))))"

definition start_webauthn_authentication :: "auth_env \<Rightarrow> string \<Rightarrow> (string \<times> bytes \<times> string list) auth" where
  "start_webauthn_authentication env origin =
     bindA (liftA (validated_rp origin)) (\<lambda>rp_id.
     bindA (readA (\<lambda>s. map ok_credential_id (au_credentials s))) (\<lambda>known.
     if known = [] then auth_error ''passkey_unavailable'' ''No passkey is registered for this operator'' 409
     else
       bindA (draw_bytesA env) (\<lambda>challenge.
       bindA (store_challenge env ''authentication'' challenge origin rp_id) (\<lambda>challenge_id.
       returnA (challenge_id, challenge, known)))))"

definition finish_webauthn_authentication :: "auth_env \<Rightarrow> string \<Rightarrow> webauthn_answer \<Rightarrow> string \<Rightarrow> string option \<Rightarrow> auth_result auth" where
  "finish_webauthn_authentication env challenge_id credential client_type request_id =
     bindA (challenge_for env challenge_id ''authentication'') (\<lambda>challenge.
     bindA (readA (\<lambda>s. find (\<lambda>k. ok_credential_id k = text_or (wa_id credential) (text_or (wa_raw_id credential) [])) (au_credentials s))) (\<lambda>found.
     case found of
       None \<Rightarrow> auth_error ''credential_unknown'' ''The passkey is not registered with WatchTower'' 401
     | Some key \<Rightarrow>
         (case Option.bind (auth_unb64 (oc_challenge challenge)) (\<lambda>expected. Option.bind (auth_unb64 (ok_public_key key)) (\<lambda>public_key.
             ev_assertion env credential expected (oc_rp_id challenge) (oc_origin challenge) public_key (ok_sign_count key))) of
            None \<Rightarrow>
              bindA (auditA env ''auth.unlock'' ''failure'' client_type request_id [(''method'', JStr ''passkey'')]) (\<lambda>_.
              auth_error ''webauthn_verification_failed'' ''Passkey verification failed'' 422)
          | Some new_sign_count \<Rightarrow>
              bindA (clockA env) (\<lambda>now.
              bindA (changeA (\<lambda>s. s\<lparr>au_credentials := map (\<lambda>k. if ok_id k = ok_id key
                then k\<lparr>ok_sign_count := new_sign_count, ok_last_used_at := Some now\<rparr> else k) (au_credentials s)\<rparr>)) (\<lambda>_.
              bindA (changeA (consume_challenge (oc_id challenge) now)) (\<lambda>_.
              open_session env ''auth.unlock'' client_type request_id [(''method'', JStr ''passkey'')] None True))))))"

text \<open>\<open>factors\<close> only reads.\<close>

definition auth_factors :: "auth_state \<Rightarrow> bool \<times> bool \<times> (string \<times> string \<times> f64 \<times> f64 option) list" where
  "auth_factors s =
     (text_or (Option.bind (au_account s) oa_pin_hash) [] \<noteq> [],
      text_or (Option.bind (au_account s) oa_recovery_hash) [] \<noteq> [],
      map (\<lambda>k. (ok_id k, ok_nickname k, ok_created_at k, ok_last_used_at k)) (au_credentials s))"

section \<open>The calls as one step function\<close>

datatype auth_call =
    SetupPin string string string "string option"
  | DisableFirstRun "string option"
  | SetEnabled bool string string "string option"
  | VerifyPin string string "string option"
  | StepUpPin string string "string option"
  | Authenticate "string option" bool
  | RequireStepUp string
  | LockSessions "string option" bool string
  | StartRegistration string string string
  | FinishRegistration string string webauthn_answer string "string option"
  | StartAuthentication string
  | FinishAuthentication string webauthn_answer string "string option"
  | ResetWithRecovery string string string "string option"
  | ResetAsAdmin string string bool string
  | Status "string option"

definition auth_step :: "auth_env \<Rightarrow> auth_state \<Rightarrow> auth_call \<Rightarrow> auth_state" where
  "auth_step env s call =
     (case call of
        SetupPin pin name client request \<Rightarrow> fst (setup_pin env pin name client request s)
      | DisableFirstRun request \<Rightarrow> fst (disable_first_run env request s)
      | SetEnabled enabled token pin request \<Rightarrow> fst (set_enabled env enabled token pin request s)
      | VerifyPin pin client request \<Rightarrow> fst (verify_pin env pin client request s)
      | StepUpPin token pin request \<Rightarrow> fst (step_up_pin env token pin request s)
      | Authenticate token required \<Rightarrow> fst (authenticate env token required s)
      | RequireStepUp token \<Rightarrow> fst (require_step_up env token s)
      | LockSessions token every reason \<Rightarrow> fst (lockA env token every reason s)
      | StartRegistration token origin nickname \<Rightarrow> fst (start_webauthn_registration env token origin nickname s)
      | FinishRegistration token challenge answer nickname request \<Rightarrow>
          fst (finish_webauthn_registration env token challenge answer nickname request s)
      | StartAuthentication origin \<Rightarrow> fst (start_webauthn_authentication env origin s)
      | FinishAuthentication challenge answer client request \<Rightarrow> fst (finish_webauthn_authentication env challenge answer client request s)
      | ResetWithRecovery code pin client request \<Rightarrow> fst (reset_with_recovery env code pin client request s)
      | ResetAsAdmin pin reason is_admin client \<Rightarrow> fst (reset_as_os_admin env pin reason is_admin client s)
      | Status token \<Rightarrow> fst (auth_status env token s))"

end
