(* ===== verification/AuthSafety.thy ===== *)
theory AuthSafety imports OperatorAuth begin

text \<open>
  What the operator service guarantees: the invariant of accounts and sessions, the growth of the session
  table, that a revoked token stays refused, who can open a session, and the effect of an attempt at the
  PIN.  The locales state a relation between the states around a call through what it must allow; every
  call is shown to keep such a relation once, and the relations are then interpreted.
\<close>

section \<open>What every call keeps\<close>

lemma bindA_run: "bindA m f s = (case m s of (s', Inl e) \<Rightarrow> (s', Inl e) | (s', Inr x) \<Rightarrow> f x s')"
  by (simp add: bindA_def)

definition account_ok :: "operator_account \<Rightarrow> bool" where
  "account_ok a \<longleftrightarrow> 0 \<le> oa_failed_attempts a \<and>
     (case oa_locked_until a of None \<Rightarrow> oa_failed_attempts a < 5
      | Some t \<Rightarrow> 5 \<le> oa_failed_attempts a \<and> (\<exists>now. t = f64_add now (f64_of_nat (lock_seconds (oa_failed_attempts a)))))"

definition session_ok :: "operator_session \<Rightarrow> bool" where
  "session_ok r \<longleftrightarrow> os_authenticated_at r = os_created_at r \<and>
     os_expires_at r = f64_add (os_created_at r) (f64_of_nat SESSION_LIFETIME_SECONDS)"

text \<open>A later form of a session: only the step-up time and the revocation may have changed, and a revocation stays.\<close>

definition session_later :: "operator_session \<Rightarrow> operator_session \<Rightarrow> bool" where
  "session_later r r' \<longleftrightarrow> os_id r' = os_id r \<and> os_token_hash r' = os_token_hash r \<and> os_client_type r' = os_client_type r \<and>
     os_installation_id r' = os_installation_id r \<and> os_created_at r' = os_created_at r \<and>
     os_authenticated_at r' = os_authenticated_at r \<and> os_expires_at r' = os_expires_at r \<and>
     (if os_revoked_at r = None then True else os_revoked_at r' \<noteq> None)"

lemma session_later_refl [simp]: "session_later r r"
  by (simp add: session_later_def)

definition keepsA :: "(auth_state \<Rightarrow> auth_state \<Rightarrow> bool) \<Rightarrow> 'a auth \<Rightarrow> bool" where
  "keepsA R m \<longleftrightarrow> (\<forall>s. R s (fst (m s)))"

text \<open>The relations between the state before and after a call that leaves the account and the number of sessions alone.\<close>

locale auth_still =
  fixes R :: "auth_state \<Rightarrow> auth_state \<Rightarrow> bool"
  assumes trans: "R s t \<Longrightarrow> R t u \<Longrightarrow> R s u"
    and silent: "au_account s' = au_account s \<Longrightarrow> au_sessions s' = au_sessions s \<Longrightarrow> R s s'"
    and mark: "(\<And>r. session_later r (f r)) \<Longrightarrow> R s (s\<lparr>au_sessions := map f (au_sessions s)\<rparr>)"
begin

lemma keeps_bind: "keepsA R m \<Longrightarrow> (\<And>x. keepsA R (f x)) \<Longrightarrow> keepsA R (bindA m f)"
proof (unfold keepsA_def, rule allI)
  fix s
  assume m: "\<forall>s. R s (fst (m s))" and f: "\<And>x. \<forall>s. R s (fst (f x s))"
  obtain s' r where e: "m s = (s', r)" by (cases "m s")
  then have "R s s'" using m [rule_format, of s] by simp
  then show "R s (fst (bindA m f s))" using f trans by (cases r) (auto simp: bindA_def e)
qed

lemma keeps_silent:
  "keepsA R (returnA x)" "keepsA R (raiseA e)" "keepsA R (auth_error c t n)" "keepsA R (guardA b e)" "keepsA R (readA g)"
  "keepsA R (liftA r)" "keepsA R (clockA env)" "keepsA R (drawA env)" "keepsA R (draw_bytesA env)" "keepsA R (refuseA b c t n)"
  by (simp_all add: keepsA_def returnA_def raiseA_def auth_error_def guardA_def readA_def liftA_def clockA_def drawA_def draw_bytesA_def
      refuseA_def silent)

lemma keeps_change: "(\<And>s. R s (f s)) \<Longrightarrow> keepsA R (changeA f)"
  by (simp add: keepsA_def changeA_def)

lemma keeps_map_session: "(\<And>r. session_later r (f r)) \<Longrightarrow> keepsA R (changeA (map_session i f))"
  unfolding map_session_def by (rule keeps_change, rule mark) simp

lemma keeps_option: "(\<And>x. v = Some x \<Longrightarrow> keepsA R (g x)) \<Longrightarrow> keepsA R h \<Longrightarrow> keepsA R (case v of None \<Rightarrow> h | Some x \<Rightarrow> g x)"
  by (cases v) simp_all

lemma keeps_if: "keepsA R m \<Longrightarrow> keepsA R m' \<Longrightarrow> keepsA R (if b then m else m')"
  by simp

lemma keeps_pair: "(\<And>x y. keepsA R (k x y)) \<Longrightarrow> keepsA R (case p of (x, y) \<Rightarrow> k x y)"
  by (cases p) simp

lemmas keeps_rules = keeps_bind keeps_silent keeps_map_session keeps_option keeps_if keeps_pair

lemma keeps_audit: "keepsA R (auditA env event_type outcome client_type request_id details)"
  unfolding auditA_def Let_def by (intro keeps_rules keeps_change silent) simp_all

lemma keeps_installation: "keepsA R (installation_id env)"
  unfolding installation_id_def by (intro keeps_rules keeps_change silent) simp_all

lemma keeps_authenticate: "keepsA R (authenticate env token required)"
  unfolding authenticate_def by (intro keeps_rules keeps_installation) (simp_all add: session_later_def)

lemma keeps_status: "keepsA R (auth_status env token)"
  unfolding auth_status_def by (intro keeps_rules keeps_installation keeps_authenticate)

lemma keeps_step_up_check: "keepsA R (require_step_up env token)"
  unfolding require_step_up_def by (intro keeps_rules keeps_authenticate)

lemma keeps_lock: "keepsA R (lockA env token every reason)"
  unfolding lockA_def Let_def by (intro keeps_rules keeps_change mark) (simp_all add: session_later_def)

lemma keeps_secrets: "keepsA R (new_recovery_code env)" "keepsA R (hashA env secret)"
  unfolding new_recovery_code_def hashA_def by (intro keeps_rules)+

lemma keeps_challenge: "keepsA R (store_challenge env kind challenge origin rp_id)" "keepsA R (challenge_for env challenge_id kind)"
  unfolding store_challenge_def challenge_for_def Let_def by (intro keeps_rules keeps_change silent; simp)+

lemma keeps_registration:
  "keepsA R (start_webauthn_registration env token origin nickname)"
  "keepsA R (finish_webauthn_registration env token challenge_id answer nickname request)"
  unfolding start_webauthn_registration_def finish_webauthn_registration_def Let_def
  by (intro keeps_rules keeps_audit keeps_status keeps_authenticate keeps_challenge keeps_change silent;
      simp add: session_later_def consume_challenge_def)+

lemma keeps_start_authentication: "keepsA R (start_webauthn_authentication env origin)"
  unfolding start_webauthn_authentication_def by (intro keeps_rules keeps_challenge)

end

text \<open>The same for calls that may change the account,\<close>

locale auth_quiet = auth_still +
  assumes account: "pred_option account_ok (au_account s) \<longrightarrow> pred_option account_ok a \<Longrightarrow> R s (s\<lparr>au_account := a\<rparr>)"
begin

lemma keeps_map_account: "(\<And>a. account_ok a \<Longrightarrow> account_ok (f a)) \<Longrightarrow> keepsA R (changeA (map_account f))"
  unfolding map_account_def by (rule keeps_change, rule account) (auto simp: option.pred_map elim: option.pred_mono_strong)

lemma account_ok_changes:
  "account_ok a \<Longrightarrow> account_ok (pin_failed now a)" "account_ok (pin_cleared now a)"
  "account_ok (a\<lparr>oa_pin_hash := h\<rparr>) = account_ok a" "account_ok (a\<lparr>oa_auth_enabled := b, oa_updated_at := t\<rparr>) = account_ok a"
  "account_ok (a\<lparr>oa_pin_hash := h, oa_recovery_hash := k, oa_failed_attempts := 0, oa_locked_until := None\<rparr>)"
  by (auto simp: account_ok_def pin_failed_def pin_cleared_def Let_def split: option.splits)

lemma keeps_pin: "keepsA R (verify_pin_value env pin)"
  unfolding verify_pin_value_def by (intro keeps_rules keeps_map_account keeps_secrets) (simp_all add: account_ok_changes)

lemma keeps_disable_first_run: "keepsA R (disable_first_run env request)"
  unfolding disable_first_run_def
  by (intro keeps_rules keeps_map_account keeps_audit keeps_status keeps_change account) (auto simp: account_ok_def split: option.splits)

lemma keeps_set_enabled: "keepsA R (set_enabled env enabled token pin request)"
  unfolding set_enabled_def
  by (intro keeps_rules keeps_map_account keeps_audit keeps_status keeps_step_up_check keeps_secrets keeps_pin) (simp_all add: account_ok_changes)

lemma keeps_step_up: "keepsA R (step_up_pin env token pin request)"
  unfolding step_up_pin_def by (intro keeps_rules keeps_map_account keeps_audit keeps_status keeps_authenticate keeps_pin) (simp_all add: session_later_def)

end

text \<open>for calls that may open a session,\<close>

locale auth_opening = auth_still +
  assumes opened: "os_revoked_at row = None \<Longrightarrow> session_ok row \<Longrightarrow> R s (s\<lparr>au_sessions := au_sessions s @ [row]\<rparr>)"
begin

lemma keeps_create: "keepsA R (create_session env client_type)"
  unfolding create_session_def Let_def by (intro keeps_rules keeps_installation keeps_change opened) (simp_all add: session_ok_def)

lemma keeps_open: "keepsA R (open_session env event client_type request details recovery with_status)"
  unfolding open_session_def by (intro keeps_rules keeps_create keeps_audit keeps_status)

lemma keeps_finish_authentication: "keepsA R (finish_webauthn_authentication env challenge_id answer client_type request)"
  unfolding finish_webauthn_authentication_def
  by (intro keeps_rules keeps_challenge keeps_audit keeps_open keeps_change silent) (simp_all add: consume_challenge_def)

end

text \<open>and for every call.\<close>

locale auth_relation = auth_quiet + auth_opening
begin

lemma keeps_setup: "keepsA R (setup_pin env pin name client_type request)"
  unfolding setup_pin_def
  by (intro keeps_rules keeps_secrets keeps_open keeps_change account) (simp add: account_ok_def configured_account_def)

lemma keeps_verify: "keepsA R (verify_pin env pin client_type request)"
proof (unfold keepsA_def, rule allI)
  fix s
  obtain s' r where v: "verify_pin_value env pin s = (s', r)" by (cases "verify_pin_value env pin s")
  have "R s s'" using keeps_pin [of env pin] v by (metis fst_conv keepsA_def)
  moreover have "R s' (fst (bindA (auditA env e t client_type request d) (\<lambda>_. auth_error c m n :: auth_result auth) s'))" for e t d c m n
    using keeps_bind [OF keeps_audit, of "\<lambda>_. auth_error c m n"] keeps_silent(3) unfolding keepsA_def by blast
  moreover have "R s' (fst (open_session env e client_type request d x b s'))" for e d x b using keeps_open unfolding keepsA_def by blast
  ultimately show "R s (fst (verify_pin env pin client_type request s))"
    unfolding verify_pin_def v by (auto intro: trans split: sum.split py_error.split)
qed

lemma keeps_reset:
  "keepsA R (reset_with_recovery env code pin client_type request)"
  "keepsA R (reset_as_os_admin env pin reason is_admin client_type)"
  unfolding reset_with_recovery_def reset_as_os_admin_def
  by (intro keeps_rules keeps_map_account keeps_secrets keeps_open keeps_audit keeps_lock keeps_setup; simp add: account_ok_def)+

theorem step: "R s (auth_step env s call)"
  using keeps_setup keeps_disable_first_run keeps_set_enabled keeps_verify keeps_step_up keeps_authenticate keeps_step_up_check keeps_lock
    keeps_registration keeps_start_authentication keeps_finish_authentication keeps_reset keeps_status
  unfolding keepsA_def by (cases call) (simp_all add: auth_step_def)

theorem run: "R s (foldl (auth_step env) s calls)"
proof (induction calls arbitrary: s)
  case (Cons c cs)
  from trans [OF step Cons.IH] show ?case by simp
qed (simp add: silent)

end

section \<open>The invariant, the growth of the session table, and who may open a session\<close>

definition auth_ok :: "auth_state \<Rightarrow> bool" where
  "auth_ok s \<longleftrightarrow> pred_option account_ok (au_account s) \<and> list_all session_ok (au_sessions s)"

lemma session_ok_later: "session_later r r' \<Longrightarrow> session_ok r' = session_ok r"
  by (auto simp: session_later_def session_ok_def)

interpretation invariant: auth_relation "\<lambda>s s'. auth_ok s \<longrightarrow> auth_ok s'"
proof
  fix s :: auth_state and f assume "\<And>r. session_later r (f r)"
  then show "auth_ok s \<longrightarrow> auth_ok (s\<lparr>au_sessions := map f (au_sessions s)\<rparr>)"
    by (auto simp: auth_ok_def list_all_iff dest: session_ok_later)
qed (auto simp: auth_ok_def)

definition sessions_grow :: "auth_state \<Rightarrow> auth_state \<Rightarrow> bool" where
  "sessions_grow s s' \<longleftrightarrow> (\<exists>later new. au_sessions s' = later @ new \<and> list_all2 session_later (au_sessions s) later)"

lemma session_later_trans: "session_later r r' \<Longrightarrow> session_later r' r'' \<Longrightarrow> session_later r r''"
  by (auto simp: session_later_def split: if_splits)

interpretation growth: auth_relation sessions_grow
proof
  fix s t u assume "sessions_grow s t" "sessions_grow t u"
  then obtain l n l' n' where g: "au_sessions t = l @ n" "list_all2 session_later (au_sessions s) l"
    "au_sessions u = l' @ n'" "list_all2 session_later (l @ n) l'"
    unfolding sessions_grow_def by metis
  then obtain a b where ab: "l' = a @ b" "list_all2 session_later l a" by (auto simp: list_all2_append1)
  have "list_all2 session_later (au_sessions s) a"
    by (rule list_all2_trans [of session_later session_later session_later, OF _ g(2) ab(2)]) (rule session_later_trans)
  with g(3) ab(1) show "sessions_grow s u" unfolding sessions_grow_def by auto
next
  fix s s' :: auth_state assume "au_sessions s' = au_sessions s"
  then show "sessions_grow s s'"
    unfolding sessions_grow_def by (intro exI [of _ "au_sessions s"] exI [of _ "[]"]) (simp add: list_all2_refl)
next
  fix s :: auth_state and f assume "\<And>r. session_later r (f r)"
  then show "sessions_grow s (s\<lparr>au_sessions := map f (au_sessions s)\<rparr>)"
    unfolding sessions_grow_def by (intro exI [of _ "map f (au_sessions s)"] exI [of _ "[]"]) (simp add: list_all2_conv_all_nth)
next
  fix s :: auth_state and a show "sessions_grow s (s\<lparr>au_account := a\<rparr>)"
    unfolding sessions_grow_def by (intro exI [of _ "au_sessions s"] exI [of _ "[]"]) (simp add: list_all2_refl)
next
  fix s :: auth_state and row show "sessions_grow s (s\<lparr>au_sessions := au_sessions s @ [row]\<rparr>)"
    unfolding sessions_grow_def by (intro exI [of _ "au_sessions s"] exI [of _ "[row]"]) (simp add: list_all2_refl)
qed

interpretation quiet: auth_quiet "\<lambda>s s'. length (au_sessions s') = length (au_sessions s)"
  by unfold_locales simp_all

lemma quiet_run: "keepsA (\<lambda>s s'. length (au_sessions s') = length (au_sessions s)) m \<Longrightarrow> m s = (s', r) \<Longrightarrow>
    length (au_sessions s') = length (au_sessions s)"
  unfolding keepsA_def by (drule spec [of _ s]) simp

lemma find_later:
  assumes "list_all2 session_later rs later"
  shows "case find (\<lambda>r. os_token_hash r = h) rs of
      None \<Rightarrow> find (\<lambda>r. os_token_hash r = h) later = None
    | Some r \<Rightarrow> \<exists>r'. find (\<lambda>r. os_token_hash r = h) later = Some r' \<and> session_later r r'"
  using assms
proof (induction rule: list_all2_induct)
  case (Cons r rs r' rs')
  then have "os_token_hash r' = os_token_hash r" by (simp add: session_later_def)
  with Cons show ?case by (cases "os_token_hash r = h") (auto split: option.splits)
qed simp

lemma find_append: "find P (xs @ ys) = (case find P xs of None \<Rightarrow> find P ys | Some x \<Rightarrow> Some x)"
  by (induction xs) auto

text \<open>The row a token names stays the row it names.\<close>

lemma session_with_grows:
  assumes "sessions_grow s s'" "session_with h s = Some r"
  obtains r' where "session_with h s' = Some r'" "session_later r r'"
proof -
  from assms(1) obtain later new where g: "au_sessions s' = later @ new" "list_all2 session_later (au_sessions s) later"
    unfolding sessions_grow_def by blast
  from find_later [OF g(2), of h] assms(2) show thesis
    by (auto simp: session_with_def g(1) find_append intro: that)
qed

text \<open>What a token that is accepted was.\<close>

lemma bindA_Inr: "bindA m f s = (s'', Inr y) \<longleftrightarrow> (\<exists>s' x. m s = (s', Inr x) \<and> f x s' = (s'', Inr y))"
  by (auto simp: bindA_def split: prod.splits sum.splits)

lemma basics_Inr:
  "returnA x s = (s', Inr y) \<longleftrightarrow> s' = s \<and> y = x" "\<not> raiseA e s = (s', Inr y)" "\<not> auth_error c t n s = (s', Inr y)"
  "readA f s = (s', Inr z) \<longleftrightarrow> s' = s \<and> z = f s" "changeA g s = (s', Inr u) \<longleftrightarrow> s' = g s"
  "liftA r s = (s', Inr v) \<longleftrightarrow> s' = s \<and> r = Inr v" "guardA b e s = (s', Inr w) \<longleftrightarrow> b \<and> s' = s"
  "clockA env s = (s', Inr now) \<longleftrightarrow> s' = s\<lparr>au_ticks := au_ticks s + 1\<rparr> \<and> now = ev_clock env (au_ticks s)"
  "drawA env s = (s', Inr d) \<longleftrightarrow> s' = s\<lparr>au_draws := au_draws s + 1\<rparr> \<and> d = ev_text env (au_draws s)"
  "refuseA b c t n s = (s', Inr q) \<longleftrightarrow> \<not> b \<and> s' = s \<and> q = None"
  by (auto simp: returnA_def raiseA_def auth_error_def readA_def changeA_def liftA_def guardA_def clockA_def drawA_def refuseA_def)

lemma authenticate_accepts:
  assumes "authenticate env token required s = (s', Inr (Some row))"
  shows "\<exists>a t. au_account s = Some a \<and> oa_setup_completed a \<and> oa_auth_enabled a \<and> token = Some t \<and> t \<noteq> [] \<and>
    session_with (token_hash t) s = Some row \<and> os_revoked_at row = None \<and> \<not> f64_le (os_expires_at row) (ev_clock env (au_ticks s))"
  using assms unfolding authenticate_def
  by (auto simp: bindA_Inr basics_Inr text_or_def session_with_def split: option.splits if_splits)

section \<open>Revocation is final\<close>

lemma revoked_is_refused:
  assumes "session_with (token_hash t) s = Some row" "os_revoked_at row \<noteq> None"
  shows "snd (authenticate env (Some t) required s) \<noteq> Inr (Some r)"
proof
  assume "snd (authenticate env (Some t) required s) = Inr (Some r)"
  then obtain s' where "authenticate env (Some t) required s = (s', Inr (Some r))" by (cases "authenticate env (Some t) required s") auto
  from authenticate_accepts [OF this] assms show False by auto
qed

lemma revoked_stays_refused:
  assumes "session_with (token_hash t) s = Some row" "os_revoked_at row \<noteq> None"
  shows "snd (authenticate env (Some t) required (foldl (auth_step env) s calls)) \<noteq> Inr (Some r)"
proof -
  obtain row' where r: "session_with (token_hash t) (foldl (auth_step env) s calls) = Some row'" "session_later row row'"
    using session_with_grows [OF growth.run assms(1)] .
  with assms(2) have "os_revoked_at row' \<noteq> None" by (simp add: session_later_def)
  from revoked_is_refused [OF r(1) this] show ?thesis .
qed

lemma lock_all_revokes: "lockA env token True reason s = (s', Inr n) \<Longrightarrow> list_all (\<lambda>r. os_revoked_at r \<noteq> None) (au_sessions s')"
  by (auto simp: lockA_def bindA_Inr basics_Inr Let_def list_all_iff)

lemma session_with_mem: "session_with h s = Some r \<Longrightarrow> r \<in> set (au_sessions s)"
  unfolding session_with_def by (metis find_Some_iff nth_mem)

text \<open>A reset locks everything between what it prepares and the session it opens.\<close>

lemma grows_run: "keepsA sessions_grow m \<Longrightarrow> m s = (s', r) \<Longrightarrow> sessions_grow s s'"
  unfolding keepsA_def by (drule spec [of _ s]) simp

lemma sessions_grow_same: "au_sessions s' = au_sessions s \<Longrightarrow> sessions_grow s s'"
  unfolding sessions_grow_def by (intro exI [of _ "au_sessions s"] exI [of _ "[]"]) (simp add: list_all2_refl)

lemma locked_between:
  assumes "sessions_grow s s1" "lockA env None True reason s1 = (s2, Inr n)" "sessions_grow s2 s'" "session_with h s = Some row"
  shows "\<exists>row'. session_with h s' = Some row' \<and> os_revoked_at row' \<noteq> None"
proof -
  have "sessions_grow s s2" using growth.trans [OF assms(1) grows_run [OF growth.keeps_lock assms(2)]] .
  then obtain r2 where r2: "session_with h s2 = Some r2" using session_with_grows assms(4) by metis
  then have "os_revoked_at r2 \<noteq> None" using lock_all_revokes [OF assms(2)] session_with_mem [OF r2] by (auto simp: list_all_iff)
  moreover obtain r3 where "session_with h s' = Some r3" "session_later r2 r3" using session_with_grows [OF assms(3) r2] .
  ultimately show ?thesis by (auto simp: session_later_def)
qed

lemma prepared_grows:
  assumes "new_recovery_code env s = (s2, Inr recovery)" "hashA env p s2 = (s3, Inr h1)" "hashA env recovery s3 = (s4, Inr h2)"
    "au_sessions s5 = au_sessions s4"
  shows "sessions_grow s s5"
  using grows_run [OF growth.keeps_secrets(1) assms(1)] grows_run [OF growth.keeps_secrets(2) assms(2)]
    grows_run [OF growth.keeps_secrets(2) assms(3)] sessions_grow_same [OF assms(4)] growth.trans by blast

lemma recovery_revokes:
  assumes "reset_with_recovery env code pin client request s = (s', Inr r)" "session_with h s = Some row"
  shows "\<exists>row'. session_with h s' = Some row' \<and> os_revoked_at row' \<noteq> None"
proof -
  from assms(1) obtain recovery s2 h1 s3 h2 s4 f n s6 where p: "new_recovery_code env s = (s2, Inr recovery)"
    "hashA env (normalize_pin pin) s2 = (s3, Inr h1)" "hashA env recovery s3 = (s4, Inr h2)"
    "lockA env None True ''recovery_reset'' (map_account f (s4\<lparr>au_ticks := au_ticks s4 + 1\<rparr>)) = (s6, Inr n)"
    "open_session env ''auth.recovery'' client request [] (Some recovery) False s6 = (s', Inr r)"
    unfolding reset_with_recovery_def by (auto simp: bindA_Inr basics_Inr split: if_splits)
  show ?thesis
    by (rule locked_between [OF prepared_grows [OF p(1-3)] p(4) grows_run [OF growth.keeps_open p(5)] assms(2)])
      (simp add: map_account_def)
qed

lemma admin_revokes:
  assumes "reset_as_os_admin env pin reason is_admin client s = (s', Inr r)" "session_with h s = Some row" "au_account s \<noteq> None"
  shows "\<exists>row'. session_with h s' = Some row' \<and> os_revoked_at row' \<noteq> None"
proof -
  from assms(1,3) obtain recovery s2 h1 s3 h2 s4 f n s6 where p: "new_recovery_code env s = (s2, Inr recovery)"
    "hashA env (normalize_pin pin) s2 = (s3, Inr h1)" "hashA env recovery s3 = (s4, Inr h2)"
    "lockA env None True ''os_admin_recovery'' (map_account f (s4\<lparr>au_ticks := au_ticks s4 + 1\<rparr>)) = (s6, Inr n)"
    "open_session env ''auth.os_admin_recovery'' client None [(''reason'', JStr (take 500 reason))] (Some recovery) False s6 = (s', Inr r)"
    unfolding reset_as_os_admin_def by (auto simp: bindA_Inr basics_Inr split: if_splits)
  show ?thesis
    by (rule locked_between [OF prepared_grows [OF p(1-3)] p(4) grows_run [OF growth.keeps_open p(5)] assms(2)])
      (simp add: map_account_def)
qed

section \<open>Who may open a session\<close>

definition session_proof :: "auth_env \<Rightarrow> auth_state \<Rightarrow> auth_call \<Rightarrow> bool" where
  "session_proof env s call =
     (case call of
        SetupPin pin name client request \<Rightarrow> \<not> already_configured (au_account s)
      | VerifyPin pin client request \<Rightarrow>
          (case au_account s of None \<Rightarrow> False
           | Some a \<Rightarrow> oa_setup_completed a \<and> oa_auth_enabled a \<and> locked_at a (ev_clock env (au_ticks s)) = None \<and> pin_accepted env a pin)
      | FinishAuthentication challenge_id answer client request \<Rightarrow>
          (\<exists>c \<in> set (au_challenges s). \<exists>k \<in> set (au_credentials s). \<exists>challenge public_key count.
             oc_id c = challenge_id \<and> oc_kind c = ''authentication'' \<and> oc_consumed_at c = None \<and>
             \<not> f64_le (oc_expires_at c) (ev_clock env (au_ticks s)) \<and>
             auth_unb64 (oc_challenge c) = Some challenge \<and> auth_unb64 (ok_public_key k) = Some public_key \<and>
             ev_assertion env answer challenge (oc_rp_id c) (oc_origin c) public_key (ok_sign_count k) = Some count)
      | ResetWithRecovery code pin client request \<Rightarrow>
          (case Option.bind (au_account s) oa_recovery_hash of None \<Rightarrow> False | Some h \<Rightarrow> ev_verify env h (normalize_recovery_code code))
      | ResetAsAdmin pin reason is_admin client \<Rightarrow> is_admin \<and> 8 \<le> length (py_strip reason)
      | _ \<Rightarrow> False)"

lemma setup_quiet: "already_configured (au_account s) \<Longrightarrow> au_sessions (fst (setup_pin env pin name client request s)) = au_sessions s"
  by (auto simp: setup_pin_def bindA_def liftA_def readA_def auth_error_def raiseA_def split: sum.split)

lemma verify_value_accepts:
  assumes "verify_pin_value env pin s = (s', Inr u)"
  shows "\<exists>a. au_account s = Some a \<and> oa_setup_completed a \<and> oa_auth_enabled a \<and>
    locked_at a (ev_clock env (au_ticks s)) = None \<and> pin_accepted env a pin"
  using assms unfolding verify_pin_value_def by (auto simp: bindA_Inr basics_Inr split: option.splits if_splits)

lemma challenge_accepts:
  assumes "challenge_for env challenge_id kind s = (s', Inr c)"
  shows "s' = s\<lparr>au_ticks := au_ticks s + 1\<rparr> \<and> c \<in> set (au_challenges s) \<and> oc_id c = challenge_id \<and> oc_kind c = kind \<and>
    oc_consumed_at c = None \<and> \<not> f64_le (oc_expires_at c) (ev_clock env (au_ticks s))"
  using assms unfolding challenge_for_def
  by (auto simp: bindA_Inr basics_Inr Let_def find_Some_iff split: option.splits if_splits)

lemma quiet_fst: "keepsA (\<lambda>s s'. length (au_sessions s') = length (au_sessions s)) m \<Longrightarrow>
    length (au_sessions (fst (m s))) = length (au_sessions s)"
  by (simp add: keepsA_def)

lemma quiet_refusal:
  "length (au_sessions (fst (bindA (auditA env e t client request d) (\<lambda>_. auth_error c m n) s))) = length (au_sessions s)"
  by (rule quiet_fst, intro quiet.keeps_rules quiet.keeps_audit)

lemma verify_quiet:
  assumes "\<not> session_proof env s (VerifyPin pin client request)"
  shows "length (au_sessions (fst (verify_pin env pin client request s))) = length (au_sessions s)"
proof -
  obtain s' r where v: "verify_pin_value env pin s = (s', r)" by (cases "verify_pin_value env pin s")
  have "length (au_sessions s') = length (au_sessions s)" using quiet_run [OF quiet.keeps_pin v] .
  moreover have "r \<noteq> Inr u" for u using verify_value_accepts [of env pin s s' u] v assms by (auto simp: session_proof_def)
  ultimately show ?thesis unfolding verify_pin_def v
    by (cases r) (auto simp: quiet_refusal split: py_error.split)
qed

lemma passkey_quiet:
  assumes "\<not> session_proof env s (FinishAuthentication challenge_id answer client request)"
  shows "length (au_sessions (fst (finish_webauthn_authentication env challenge_id answer client request s))) = length (au_sessions s)"
proof -
  obtain s' r where v: "challenge_for env challenge_id ''authentication'' s = (s', r)" by (cases "challenge_for env challenge_id ''authentication'' s")
  have l: "length (au_sessions s') = length (au_sessions s)" using quiet_run [OF quiet.keeps_challenge(2) v] .
  show ?thesis
  proof (cases r)
    case (Inr c)
    note c = challenge_accepts [OF v [unfolded Inr]]
    let ?id = "text_or (wa_id answer) (text_or (wa_raw_id answer) [])"
    define verdict where "verdict k = Option.bind (auth_unb64 (oc_challenge c)) (\<lambda>expected. Option.bind (auth_unb64 (ok_public_key k)) (\<lambda>public_key.
        ev_assertion env answer expected (oc_rp_id c) (oc_origin c) public_key (ok_sign_count k)))" for k :: operator_credential
    have no: "verdict k = None" if k: "k \<in> set (au_credentials s)" for k
    proof (rule ccontr)
      assume "verdict k \<noteq> None"
      then obtain challenge public_key count where "auth_unb64 (oc_challenge c) = Some challenge" "auth_unb64 (ok_public_key k) = Some public_key"
        "ev_assertion env answer challenge (oc_rp_id c) (oc_origin c) public_key (ok_sign_count k) = Some count"
        by (auto simp: verdict_def Option.bind_eq_Some_conv)
      with c k have "session_proof env s (FinishAuthentication challenge_id answer client request)"
        unfolding session_proof_def auth_call.case by blast
      with assms show False by simp
    qed
    have s': "au_credentials s' = au_credentials s" using c by simp
    show ?thesis
    proof (cases "find (\<lambda>k. ok_credential_id k = ?id) (au_credentials s)")
      case None
      then show ?thesis unfolding finish_webauthn_authentication_def bindA_run [of "challenge_for env challenge_id ''authentication''"] v Inr
          bindA_run [of "readA _"] readA_def prod.case sum.case s' auth_error_def raiseA_def using l by simp
    next
      case (Some k)
      then have "k \<in> set (au_credentials s)" by (metis find_Some_iff nth_mem)
      from no [OF this, unfolded verdict_def] show ?thesis
        unfolding finish_webauthn_authentication_def bindA_run [of "challenge_for env challenge_id ''authentication''"] v Inr
          bindA_run [of "readA _"] readA_def prod.case sum.case s' Some option.case using l by (simp add: quiet_refusal)
    qed
  qed (use v l in \<open>simp add: finish_webauthn_authentication_def bindA_def\<close>)
qed

lemma recovery_quiet:
  assumes "\<not> session_proof env s (ResetWithRecovery code pin client request)"
  shows "length (au_sessions (fst (reset_with_recovery env code pin client request s))) = length (au_sessions s)"
proof (cases "validate_pin (normalize_pin pin)")
  case (Inr u)
  show ?thesis
    using assms unfolding reset_with_recovery_def bindA_run [of "liftA _"] bindA_run [of "readA _"] liftA_def readA_def Inr
    by (auto simp: session_proof_def text_or_def quiet_refusal [unfolded auth_error_def] auth_error_def raiseA_def split: option.splits if_splits)
qed (simp add: reset_with_recovery_def bindA_def liftA_def)

lemma admin_quiet:
  "\<not> session_proof env s (ResetAsAdmin pin reason is_admin client) \<Longrightarrow> fst (reset_as_os_admin env pin reason is_admin client s) = s"
  by (auto simp: session_proof_def reset_as_os_admin_def bindA_def guardA_def returnA_def raiseA_def)

theorem no_session_without_proof:
  "if session_proof env s call then True else length (au_sessions (auth_step env s call)) = length (au_sessions s)"
proof (cases call)
  case (SetupPin pin name client request)
  then show ?thesis using setup_quiet [of s env pin name client request] by (simp add: session_proof_def auth_step_def)
qed (use quiet_fst [OF quiet.keeps_disable_first_run] quiet_fst [OF quiet.keeps_set_enabled] verify_quiet quiet_fst [OF quiet.keeps_step_up]
    quiet_fst [OF quiet.keeps_authenticate] quiet_fst [OF quiet.keeps_step_up_check] quiet_fst [OF quiet.keeps_lock]
    quiet_fst [OF quiet.keeps_registration(1)] quiet_fst [OF quiet.keeps_registration(2)] quiet_fst [OF quiet.keeps_start_authentication]
    passkey_quiet recovery_quiet admin_quiet quiet_fst [OF quiet.keeps_status] in \<open>simp_all add: auth_step_def\<close>)

section \<open>Attempts at the PIN\<close>

lemmas run_simps = bindA_run returnA_def raiseA_def auth_error_def readA_def changeA_def liftA_def clockA_def drawA_def

lemma lock_seconds_bounds: "5 \<le> n \<Longrightarrow> 2 \<le> lock_seconds n \<and> lock_seconds n \<le> 256"
proof -
  assume n: "5 \<le> n"
  then have k: "1 \<le> nat (min (n - 4) 8)" "nat (min (n - 4) 8) \<le> 8" by auto
  have "(2::nat) ^ 1 \<le> 2 ^ nat (min (n - 4) 8)" "(2::nat) ^ nat (min (n - 4) 8) \<le> 2 ^ 8"
    using k by (intro power_increasing; simp)+
  then show ?thesis by (simp add: lock_seconds_def)
qed

text \<open>Every attempt at once: refused while locked, counted when wrong, cleared when right.\<close>

lemma pin_attempt:
  assumes "au_account s = Some a" "oa_setup_completed a" "oa_auth_enabled a" "now = ev_clock env (au_ticks s)"
  shows "case locked_at a now of
      Some t \<Rightarrow> \<exists>e. verify_pin_value env pin s = (s\<lparr>au_ticks := au_ticks s + 1\<rparr>, Inl e)
    | None \<Rightarrow>
        if pin_accepted env a pin
        then (\<exists>s' b. verify_pin_value env pin s = (s', Inr ()) \<and> au_account s' = Some b \<and> oa_failed_attempts b = 0 \<and>
          oa_locked_until b = None \<and> oa_auth_enabled b \<and> oa_setup_completed b \<and> au_sessions s' = au_sessions s \<and>
          au_ticks s' = au_ticks s + 1 \<and> au_installation s' = au_installation s)
        else verify_pin_value env pin s = (s\<lparr>au_ticks := au_ticks s + 1, au_account := Some (pin_failed now a)\<rparr>,
          Inl (AuthError ''invalid_pin'' ''The operator PIN is incorrect'' 401))"
  using assms unfolding verify_pin_value_def
  by (simp add: run_simps hashA_def map_account_def pin_cleared_def split: option.split sum.split)

lemma pin_unavailable:
  assumes "case au_account s of None \<Rightarrow> True | Some a \<Rightarrow> \<not> oa_setup_completed a \<or> \<not> oa_auth_enabled a"
  shows "verify_pin_value env pin s = (s, Inl (AuthError ''authentication_unavailable'' ''PIN authentication is not enabled'' 409))"
  using assms unfolding verify_pin_value_def by (auto simp: run_simps split: option.split)

section \<open>A session that is opened can be used\<close>

lemma create_session_effect:
  assumes "\<forall>d. ev_text env d \<noteq> []"
  shows "\<exists>s' row. create_session env client s = (s', Inr (ev_text env (au_draws s), row)) \<and>
    au_sessions s' = au_sessions s @ [row] \<and> au_account s' = au_account s \<and> au_ticks s' = au_ticks s + 1 \<and>
    os_token_hash row = token_hash (ev_text env (au_draws s)) \<and> os_revoked_at row = None \<and>
    os_expires_at row = f64_add (ev_clock env (au_ticks s)) (f64_of_nat SESSION_LIFETIME_SECONDS) \<and>
    au_installation s' = Some (os_installation_id row) \<and> os_installation_id row \<noteq> []"
  using assms
  by (cases "au_installation s") (simp_all add: create_session_def installation_id_def run_simps text_or_def Let_def)

lemma audit_effect:
  "\<exists>s'. auditA env event outcome client request details s = (s', Inr ()) \<and> au_sessions s' = au_sessions s \<and>
    au_account s' = au_account s \<and> au_installation s' = au_installation s \<and> au_ticks s' = au_ticks s + 1"
  by (simp add: auditA_def run_simps Let_def)

lemma status_unlocked:
  assumes "au_account s = Some a" "oa_setup_completed a" "oa_auth_enabled a" "t \<noteq> []" "session_with (token_hash t) s = Some row"
    "os_revoked_at row = None" "\<not> f64_le (os_expires_at row) (ev_clock env (au_ticks s))"
    "au_installation s = Some (os_installation_id row)" "os_installation_id row \<noteq> []"
  shows "\<exists>s' st. auth_status env (Some t) s = (s', Inr st) \<and> st_state st = ''unlocked'' \<and> st_session st = Some (session_public row)"
  using assms by (simp add: auth_status_def authenticate_def installation_id_def run_simps text_or_def session_with_def)

lemma open_session_unlocks:
  assumes "au_account s = Some a" "oa_setup_completed a" "oa_auth_enabled a" "\<forall>d. ev_text env d \<noteq> []"
    "session_with (token_hash (ev_text env (au_draws s))) s = None"
    "\<not> f64_le (f64_add (ev_clock env (au_ticks s)) (f64_of_nat SESSION_LIFETIME_SECONDS)) (ev_clock env (au_ticks s + 2))"
  shows "\<exists>s' r st. open_session env event client request details recovery True s = (s', Inr r) \<and> ar_token r = ev_text env (au_draws s) \<and>
    ar_status r = Some st \<and> st_state st = ''unlocked'' \<and> st_session st = Some (ar_session r)"
proof -
  obtain s1 row where c: "create_session env client s = (s1, Inr (ev_text env (au_draws s), row))"
    "au_sessions s1 = au_sessions s @ [row]" "au_account s1 = au_account s" "au_ticks s1 = au_ticks s + 1"
    "os_token_hash row = token_hash (ev_text env (au_draws s))" "os_revoked_at row = None"
    "os_expires_at row = f64_add (ev_clock env (au_ticks s)) (f64_of_nat SESSION_LIFETIME_SECONDS)"
    "au_installation s1 = Some (os_installation_id row)" "os_installation_id row \<noteq> []"
    using create_session_effect [OF assms(4), of client s] by blast
  obtain s2 where d: "auditA env event ''success'' client request details s1 = (s2, Inr ())" "au_sessions s2 = au_sessions s1"
    "au_account s2 = au_account s1" "au_installation s2 = au_installation s1" "au_ticks s2 = au_ticks s1 + 1"
    using audit_effect [of env event "''success''" client request details s1] by blast
  have "session_with (token_hash (ev_text env (au_draws s))) s2 = Some row"
    using assms(5) by (simp add: session_with_def d(2) c(2) c(5) find_append)
  then obtain s' st where e: "auth_status env (Some (ev_text env (au_draws s))) s2 = (s', Inr st)" "st_state st = ''unlocked''"
    "st_session st = Some (session_public row)"
    using status_unlocked [of s2 a "ev_text env (au_draws s)" row env] assms c d by auto
  show ?thesis by (simp add: open_session_def bindA_run c(1) d(1) e returnA_def)
qed

section \<open>Setting a PIN and using it\<close>

interpretation same_account: auth_opening "\<lambda>s s'. au_account s' = au_account s"
  by unfold_locales simp_all

text \<open>What the program relies on of Argon2: a hash verifies exactly the secret it was made from.\<close>

definition argon2_laws :: "auth_env \<Rightarrow> bool" where
  "argon2_laws env \<longleftrightarrow> (\<forall>salt secret other. ev_hash env salt secret \<noteq> [] \<and> (ev_verify env (ev_hash env salt secret) other \<longleftrightarrow> other = secret))"

lemma dropWhile_rev_strip: "dropWhile P (rev (dropWhile P (rev (dropWhile P s)))) = rev (dropWhile P (rev (dropWhile P s)))"
proof (cases "dropWhile P s")
  case (Cons c cs)
  then have c: "\<not> P c" by (metis hd_dropWhile list.sel(1) list.discI)
  have "dropWhile P (rev cs @ [c]) \<noteq> []" using c by (simp add: dropWhile_append)
  then obtain d ds where d: "dropWhile P (rev cs @ [c]) = ds @ [c]" using c
    by (metis append_self_conv2 dropWhile_append dropWhile_eq_Nil_conv dropWhile.simps(2) append_Nil)
  show ?thesis using c by (simp add: Cons d)
next
  case Nil
  show ?thesis unfolding Nil by simp
qed

lemma py_strip_idem [simp]: "py_strip (py_strip s) = py_strip s"
  by (simp add: py_strip_def dropWhile_rev_strip)

lemma opened_account: "open_session env event client request details recovery with_status s = (s', r) \<Longrightarrow> au_account s' = au_account s"
  using same_account.keeps_open [of env event client request details recovery with_status] unfolding keepsA_def
  by (drule_tac spec [of _ s]) simp

text \<open>After a set-up exactly the PINs equal to it up to surrounding white space are accepted.\<close>

lemma setup_then_pin:
  assumes "argon2_laws env" "setup_pin env pin name client request s = (s', Inr r)"
  shows "\<exists>a. au_account s' = Some a \<and> oa_setup_completed a \<and> oa_auth_enabled a \<and> oa_locked_until a = None \<and>
    (\<forall>q. pin_accepted env a q \<longleftrightarrow> normalize_pin q = normalize_pin pin)"
proof -
  from assms(2) obtain now recovery s2 h s3 k s4 where p: "hashA env (normalize_pin pin) s2 = (s3, Inr h)"
    "open_session env ''auth.setup'' client request [(''method'', JStr ''pin'')] (Some recovery) True
      (s4\<lparr>au_account := Some (configured_account (au_account s) name h k now)\<rparr>) = (s', Inr r)"
    unfolding setup_pin_def by (auto simp only: bindA_Inr basics_Inr split: if_splits) blast
  have a: "au_account s' = Some (configured_account (au_account s) name h k now)" using opened_account [OF p(2)] by simp
  from p(1) obtain x where h: "h = ev_hash env x (normalize_pin pin)" by (auto simp: hashA_def bindA_Inr basics_Inr)
  have "pin_accepted env (configured_account (au_account s) name h k now) q \<longleftrightarrow> normalize_pin q = normalize_pin pin" for q
    using assms(1) unfolding argon2_laws_def pin_accepted_def
    by (auto simp: configured_account_def text_or_def h normalize_pin_def)
  with a show ?thesis by (simp add: configured_account_def)
qed

section \<open>Two calls that fail\<close>

text \<open>Once authentication is switched off on an account that has a PIN, it cannot be switched on again.\<close>

lemma reenable_refused:
  assumes "au_account s = Some a" "oa_setup_completed a" "\<not> oa_auth_enabled a" "text_or (oa_pin_hash a) [] \<noteq> []"
  shows "set_enabled env True token pin request s =
    (s, Inl (AuthError ''authentication_unavailable'' ''PIN authentication is not enabled'' 409))"
proof -
  have "verify_pin_value env (normalize_pin pin) s = (s, Inl (AuthError ''authentication_unavailable'' ''PIN authentication is not enabled'' 409))"
    using assms by (intro pin_unavailable) simp
  with assms show ?thesis by (simp add: set_enabled_def require_step_up_def run_simps)
qed

text \<open>With authentication off, a verified passkey is added and the call then fails on the missing session.\<close>

lemma registration_while_disabled:
  assumes "au_account s = Some a" "oa_setup_completed a" "\<not> oa_auth_enabled a"
    and "challenge_for env challenge_id ''registration'' s = (s1, Inr c)"
    and "Option.bind (auth_unb64 (oc_challenge c)) (\<lambda>e. ev_registration env answer e (oc_rp_id c) (oc_origin c)) = Some (i, k, n)"
    and "\<not> list_ex (\<lambda>x. ok_credential_id x = auth_b64 i) (au_credentials s1)"
  shows "\<exists>s'. finish_webauthn_registration env token challenge_id answer nickname request s = (s', Inl (AttributeError ''step_up_at'')) \<and>
    length (au_credentials s') = Suc (length (au_credentials s1))"
proof -
  have "authenticate env (Some token) True s = (s, Inr None)" using assms(1-3) by (simp add: authenticate_def run_simps)
  then show ?thesis using assms(4-6)
    by (simp add: finish_webauthn_registration_def bindA_run [of "authenticate env (Some token) True"]
        bindA_run [of "challenge_for env challenge_id ''registration''"] Let_def)
      (simp add: run_simps consume_challenge_def)
qed

end
