(* ===== verification/BackendPolicy.thy ===== *)
theory BackendPolicy imports PyText begin

text \<open>
  core/backend\_policy.py: which backend a capture or a replay runs on.  The environment is the map the
  policy was built with; the runtime capabilities are \<open>None\<close> or a map.  The lemmas show that an
  explicit choice is honoured or refused, never replaced, and that the result is always supported.
\<close>

definition SUPPORTED_BACKENDS :: "string list" where
  "SUPPORTED_BACKENDS = [''python'', ''rust'']"

definition CAPTURE_BACKEND_VARIABLE :: string where
  "CAPTURE_BACKEND_VARIABLE = ''WATCHTOWER_CAPTURE_BACKEND''"

definition policy_error :: "string \<Rightarrow> 'a result" where
  "policy_error m = Inl (BackendPolicyError m)"

definition validate_request :: "string option \<Rightarrow> string option result" where
  "validate_request requested =
     (case requested of
        None \<Rightarrow> Inr None
      | Some r \<Rightarrow> (let selected = normal_name r in
          if selected \<in> set SUPPORTED_BACKENDS then Inr (Some selected)
          else policy_error (''Unsupported backend request: '' @ r)))"

text \<open>An explicit request, or else the operator's default.\<close>

definition effective_request :: "(string \<Rightarrow> string option) \<Rightarrow> string option \<Rightarrow> string option" where
  "effective_request environment requested = (case requested of Some r \<Rightarrow> Some r | None \<Rightarrow> environment CAPTURE_BACKEND_VARIABLE)"

text \<open>The runtime says that there is no Rust sensor.\<close>

definition rust_missing :: "(string \<Rightarrow> bool option) option \<Rightarrow> bool" where
  "rust_missing runtime = (case runtime of None \<Rightarrow> False | Some m \<Rightarrow> m ''rust_sensor'' = Some False)"

definition supported_backends :: "string \<Rightarrow> string list option \<Rightarrow> string list" where
  "supported_backends source_type source_backends =
     (case source_backends of
        None \<Rightarrow> if source_type = ''bluetooth'' then [''python''] else SUPPORTED_BACKENDS
      | Some bs \<Rightarrow> filter (\<lambda>b. b \<in> set SUPPORTED_BACKENDS) (map normal_name bs))"

definition capture_backend ::
  "(string \<Rightarrow> string option) \<Rightarrow> string \<Rightarrow> string option \<Rightarrow> string list option \<Rightarrow> (string \<Rightarrow> bool option) option \<Rightarrow> string result" where
  "capture_backend environment source requested_backend source_backends runtime =
     (let source_type = normal_name (str_or source ''network'') in
      if source_type \<notin> {''network'', ''bluetooth''} then policy_error (''Unknown capture source type: '' @ source_type)
      else bindE (validate_request (effective_request environment requested_backend)) (\<lambda>requested.
        let supported = supported_backends source_type source_backends in
        if supported = [] then policy_error (''Source type '' @ source_type @ '' has no supported capture backend'')
        else
          (let selected = (case requested of Some r \<Rightarrow> r | None \<Rightarrow> if ''rust'' \<in> set supported then ''rust'' else ''python'') in
           bindE (if selected = ''rust'' \<and> rust_missing runtime then
               (if requested \<noteq> None then policy_error ''Rust sensor is unavailable. Build or configure it, or select the Python backend.''
                else if ''python'' \<in> set supported then Inr ''python''
                else policy_error ''Rust sensor is unavailable and no Python fallback is supported'')
             else Inr selected) (\<lambda>selected.
           if selected \<in> set supported then Inr selected
           else policy_error (''Source type '' @ source_type @ '' does not support backend: '' @ selected)))))"

definition replay_backend :: "(string \<Rightarrow> string option) \<Rightarrow> string option \<Rightarrow> (string \<Rightarrow> bool option) option \<Rightarrow> string result" where
  "replay_backend environment requested_backend runtime =
     bindE (validate_request (effective_request environment requested_backend)) (\<lambda>requested.
     let selected = (case requested of Some r \<Rightarrow> str_or r ''rust'' | None \<Rightarrow> ''rust'') in
     if selected = ''rust'' \<and> rust_missing runtime then
       (if requested_backend \<noteq> None \<or> (case environment CAPTURE_BACKEND_VARIABLE of None \<Rightarrow> False | Some d \<Rightarrow> d \<noteq> [])
        then policy_error ''Rust sensor is unavailable. Build or configure it, or select the Python backend.''
        else Inr ''python'')
     else Inr selected)"

section \<open>What is selected\<close>

lemma validate_request_Inr:
  "validate_request requested = Inr r \<longleftrightarrow> (case requested of None \<Rightarrow> r = None | Some t \<Rightarrow> normal_name t \<in> set SUPPORTED_BACKENDS \<and> r = Some (normal_name t))"
  by (auto simp: validate_request_def policy_error_def Let_def split: option.splits)

text \<open>A capture runs on a supported backend that is not known to be missing, and on the requested one if there was a request.\<close>

lemma capture_backend_Inr:
  assumes "capture_backend environment source requested source_backends runtime = Inr b"
  obtains r where "validate_request (effective_request environment requested) = Inr r"
    "b \<in> set (supported_backends (normal_name (str_or source ''network'')) source_backends)"
    "b = ''rust'' \<Longrightarrow> \<not> rust_missing runtime" "\<And>x. r = Some x \<Longrightarrow> b = x"
proof -
  define sup where "sup = supported_backends (normal_name (str_or source ''network'')) source_backends"
  note eq = assms [unfolded capture_backend_def Let_def, folded sup_def]
  obtain r where r: "validate_request (effective_request environment requested) = Inr r"
    using eq by (auto simp: bindE_Inr policy_error_def split: if_splits)
  define selected where "selected = (case r of Some r \<Rightarrow> r | None \<Rightarrow> if ''rust'' \<in> set sup then ''rust'' else ''python'')"
  have "b \<in> set sup \<and> \<not> (b = ''rust'' \<and> rust_missing runtime) \<and> (\<forall>x. r = Some x \<longrightarrow> b = x)"
    using eq unfolding r bindE_simps selected_def [symmetric]
    by (cases "selected = ''rust'' \<and> rust_missing runtime"; cases r) (auto simp: policy_error_def selected_def split: if_splits)
  with that [OF r] show thesis by (simp add: sup_def)
qed

lemma capture_backend_sound:
  assumes "capture_backend environment source requested source_backends runtime = Inr b"
  shows "b \<in> set (supported_backends (normal_name (str_or source ''network'')) source_backends) \<and>
    \<not> (b = ''rust'' \<and> rust_missing runtime) \<and>
    (case effective_request environment requested of Some r \<Rightarrow> b = normal_name r | None \<Rightarrow> True)"
proof -
  obtain r where r: "validate_request (effective_request environment requested) = Inr r"
    "b \<in> set (supported_backends (normal_name (str_or source ''network'')) source_backends)"
    "b = ''rust'' \<Longrightarrow> \<not> rust_missing runtime" "\<And>x. r = Some x \<Longrightarrow> b = x"
    using capture_backend_Inr [OF assms] by blast
  have "\<not> (b = ''rust'' \<and> rust_missing runtime)" using r(3) by blast
  moreover have "case effective_request environment requested of Some t \<Rightarrow> b = normal_name t | None \<Rightarrow> True"
    using r(1,4) by (cases "effective_request environment requested") (simp_all add: validate_request_Inr)
  ultimately show ?thesis using r(2) by blast
qed

text \<open>Without a request Rust is taken wherever it is supported and not missing.\<close>

lemma capture_backend_prefers_rust:
  assumes "normal_name (str_or source ''network'') \<in> {''network'', ''bluetooth''}" "effective_request environment requested = None"
    "''rust'' \<in> set (supported_backends (normal_name (str_or source ''network'')) source_backends)" "\<not> rust_missing runtime"
  shows "capture_backend environment source requested source_backends runtime = Inr ''rust''"
  using assms by (auto simp: capture_backend_def validate_request_def Let_def)

lemma replay_backend_sound:
  assumes "replay_backend environment requested runtime = Inr b"
  shows "b \<in> set SUPPORTED_BACKENDS \<and> \<not> (b = ''rust'' \<and> rust_missing runtime) \<and>
    (case effective_request environment requested of Some r \<Rightarrow> b = normal_name r | None \<Rightarrow> True)"
proof -
  obtain r where r: "validate_request (effective_request environment requested) = Inr r"
    using assms by (auto simp: replay_backend_def bindE_Inr)
  note eq = assms [unfolded replay_backend_def r bindE_simps Let_def]
  show ?thesis
  proof (cases r)
    case None
    then have "effective_request environment requested = None" using r by (auto simp: validate_request_Inr split: option.splits)
    then show ?thesis using eq None by (auto simp: effective_request_def policy_error_def SUPPORTED_BACKENDS_def split: if_splits option.splits)
  next
    case (Some t)
    then obtain u where u: "effective_request environment requested = Some u" "t = normal_name u" "t \<in> set SUPPORTED_BACKENDS"
      using r by (auto simp: validate_request_Inr split: option.splits)
    then have "t = ''python'' \<or> t = ''rust''" by (simp add: SUPPORTED_BACKENDS_def)
    moreover have "requested \<noteq> None \<or> (case environment CAPTURE_BACKEND_VARIABLE of None \<Rightarrow> False | Some d \<Rightarrow> d \<noteq> [])"
      using u by (cases requested) (auto simp: effective_request_def SUPPORTED_BACKENDS_def normal_name_def py_lower_def py_strip_def)
    ultimately show ?thesis using eq Some u by (auto simp: str_or_def policy_error_def SUPPORTED_BACKENDS_def split: if_splits)
  qed
qed

text \<open>Every refusal is a \<open>BackendPolicyError\<close>.\<close>

definition is_policy_error :: "py_error \<Rightarrow> bool" where
  "is_policy_error e = (case e of BackendPolicyError _ \<Rightarrow> True | _ \<Rightarrow> False)"

lemma policy_error_is: "policy_error m = Inl e \<Longrightarrow> is_policy_error e"
  by (auto simp: policy_error_def is_policy_error_def)

lemma validate_error: "validate_request r = Inl e \<Longrightarrow> is_policy_error e"
  by (auto simp: validate_request_def Let_def dest: policy_error_is split: option.splits if_splits)

lemma capture_error:
  assumes "capture_backend environment source requested source_backends runtime = Inl e"
  shows "is_policy_error e"
  using assms unfolding capture_backend_def Let_def
  by (auto simp: bindE_Inl dest!: validate_error policy_error_is split: if_split_asm)

lemma replay_error: "replay_backend environment requested runtime = Inl e \<Longrightarrow> is_policy_error e"
  unfolding replay_backend_def Let_def by (auto simp: bindE_Inl dest!: validate_error policy_error_is split: if_split_asm)

end
