(* ===== verification/Capability.thy ===== *)
theory Capability imports CanonicalJson begin

text \<open>
  Offline capability declarations, core/forensics/rust\_plan.py: selector clauses and programs, the
  registry of built-in parser and detector capabilities, and \<open>validate_offline_capability\<close> with
  the error text of every branch.  Clause values are dynamically typed; a declaration that is not an
  \<open>OfflineCapability\<close> object is \<open>ForeignObject\<close>.
\<close>

definition AGGREGATE_EXECUTION_MODE :: string where "AGGREGATE_EXECUTION_MODE = ''aggregate-v1''"
definition COMPATIBILITY_EXECUTION_MODE :: string where "COMPATIBILITY_EXECUTION_MODE = ''compatibility-v1''"
definition RUST_PLAN_SCHEMA_VERSION :: int where "RUST_PLAN_SCHEMA_VERSION = 1"
definition AGGREGATE_SOURCE_TYPES :: "string list" where "AGGREGATE_SOURCE_TYPES = [''network'']"
definition AGGREGATE_LINK_TYPES :: "string list" where "AGGREGATE_LINK_TYPES = [''ethernet'', ''raw-ip'']"

definition PACKET_VIEWS :: "string list" where "PACKET_VIEWS = [''none'', ''fast-v1'', ''deep-scapy-v1'']"
definition PACKET_FLOW_VIEWS :: "string list" where "PACKET_FLOW_VIEWS = [''none'', ''scalar-v1'']"
definition FLOW_INPUTS :: "string list" where "FLOW_INPUTS = [''none'', ''full-flow-v1'']"
definition STREAM_INPUTS :: "string list" where "STREAM_INPUTS = [''none'', ''reassembled-stream-v1'']"
definition CONVERSATION_INPUTS :: "string list" where "CONVERSATION_INPUTS = [''none'', ''delta-v2'']"

definition PLANNER_OPCODES :: "string list" where
  "PLANNER_OPCODES = [''always'', ''link-class-in'', ''ethertype-in'', ''ip-protocol-in'', ''either-port-in'',
     ''source-port-in'', ''destination-port-in'', ''tcp-flags'', ''icmp-type-in'', ''payload-minimum-length'',
     ''payload-prefix-in'', ''payload-contains-any'', ''payload-byte-mask'', ''payload-diversity'',
     ''frame-window-contains-any'']"

record selector_clause =
  sc_opcode :: string
  sc_values :: "pyval list"

record selector_program =
  sp_candidate_mode :: string
  sp_clauses :: "selector_clause list"

record offline_capability =
  oc_contract :: string
  oc_packet_view :: string
  oc_packet_flow_view :: string
  oc_selector_programs :: "selector_program list"
  oc_flow_input :: string
  oc_stream_input :: string
  oc_conversation_input :: string

datatype cap_declaration = Declared offline_capability | ForeignObject

section \<open>The built-in registry\<close>

definition clause :: "string \<Rightarrow> pyval list \<Rightarrow> selector_clause" where
  "clause opcode values = \<lparr>sc_opcode = opcode, sc_values = values\<rparr>"

definition program :: "string \<Rightarrow> selector_clause list \<Rightarrow> selector_program" where
  "program candidate_mode clauses = \<lparr>sp_candidate_mode = candidate_mode, sp_clauses = clauses\<rparr>"

definition capability_of :: "string \<Rightarrow> selector_program list \<Rightarrow> offline_capability" where
  "capability_of packet_view programs = \<lparr>oc_contract = AGGREGATE_EXECUTION_MODE, oc_packet_view = packet_view,
     oc_packet_flow_view = ''none'', oc_selector_programs = programs, oc_flow_input = ''none'',
     oc_stream_input = ''none'', oc_conversation_input = ''none''\<rparr>"

definition ports :: "string \<Rightarrow> int list \<Rightarrow> selector_program" where
  "ports mode ps = program mode [clause ''either-port-in'' (map PyInt ps)]"

definition prefixes :: "string \<Rightarrow> pyval list \<Rightarrow> selector_program" where
  "prefixes mode ps = program mode [clause ''payload-prefix-in'' ps]"

definition ARP_PROGRAM :: selector_program where
  "ARP_PROGRAM = program ''fast-v1'' [clause ''ethertype-in'' [PyInt 0x0806]]"

definition NDP_PROGRAM :: selector_program where
  "NDP_PROGRAM = program ''fast-v1'' [clause ''ip-protocol-in'' [PyInt 58]]"

definition ICMP_PROGRAM :: selector_program where
  "ICMP_PROGRAM = program ''fast-v1'' [clause ''ip-protocol-in'' [PyInt 1, PyInt 58]]"

definition HTTP_PREFIXES :: "pyval list" where
  "HTTP_PREFIXES = map (\<lambda>s. PyBytes (b_lit s)) [''GET '', ''POST '', ''PUT '', ''HEAD '', ''DELETE '', ''OPTIONS '',
     ''PATCH '', ''CONNECT '', ''TRACE '', ''HTTP/'']"

definition AUTH_MARKERS :: "pyval list" where
  "AUTH_MARKERS = map (\<lambda>s. PyBytes (b_lit s)) [''password'', ''passwd'', ''authorization: basic'', ''user '', '' pass '',
     ''authentication failed'', ''login failed'', ''invalid password'', ''535 authentication'',
     ''authentication successful'', ''login successful'', ''230 login successful'', ''SSH-'', ''RFB '']
     @ [PyBytes [3, 0]]"

definition BUILTIN_CAPABILITIES :: "(string, offline_capability) dict" where
  "BUILTIN_CAPABILITIES = [
     (''core.forensics.plugins.parsers.bluetooth_hci_parser.BluetoothHCIParser'',
        capability_of ''deep-scapy-v1'' [program ''deep-scapy-v1'' [clause ''always'' []]]),
     (''core.forensics.plugins.parsers.dhcp_parser.DHCPParser'',
        capability_of ''deep-scapy-v1'' [ports ''deep-scapy-v1'' [67, 68]]),
     (''core.forensics.plugins.parsers.discovery_parser.DiscoveryParser'',
        capability_of ''deep-scapy-v1'' [ports ''deep-scapy-v1'' [53, 137, 1900, 5353]]),
     (''core.forensics.plugins.parsers.dns_parser.DNSParser'',
        capability_of ''deep-scapy-v1'' [ports ''deep-scapy-v1'' [53]]),
     (''core.forensics.plugins.parsers.enterprise_protocol_parser.SSHParser'',
        capability_of ''fast-v1'' [prefixes ''fast-v1'' [PyBytes (b_lit ''SSH-'')]]),
     (''core.forensics.plugins.parsers.enterprise_protocol_parser.LDAPParser'',
        capability_of ''fast-v1'' [ports ''fast-v1'' [389, 636, 3268, 3269]]),
     (''core.forensics.plugins.parsers.enterprise_protocol_parser.RDPParser'',
        capability_of ''fast-v1'' [ports ''fast-v1'' [3389]]),
     (''core.forensics.plugins.parsers.enterprise_protocol_parser.MailProtocolParser'',
        capability_of ''fast-v1'' [ports ''fast-v1'' [25, 110, 143, 465, 587, 993, 995]]),
     (''core.forensics.plugins.parsers.enterprise_protocol_parser.SNMPParser'',
        capability_of ''fast-v1'' [ports ''fast-v1'' [161, 162]]),
     (''core.forensics.plugins.parsers.enterprise_protocol_parser.NTPParser'',
        capability_of ''none'' []),
     (''core.forensics.plugins.parsers.ftp_parser.FTPParser'',
        capability_of ''fast-v1'' [ports ''fast-v1'' [21]]),
     (''core.forensics.plugins.parsers.fullname_parser.FullNameParser'',
        capability_of ''fast-v1'' [program ''fast-v1'' [clause ''payload-contains-any'' [PyBytes [6, 3, 85, 4, 3], PyBytes [0, 32, 0]]]]),
     (''core.forensics.plugins.parsers.http_parser.HTTPParser'',
        capability_of ''fast-v1'' [prefixes ''fast-v1'' HTTP_PREFIXES]),
     (''core.forensics.plugins.parsers.infrastructure_parser.InfrastructureParser'',
        capability_of ''none'' []),
     (''core.forensics.plugins.parsers.iot_ot_parser.MQTTParser'',
        capability_of ''fast-v1'' [ports ''fast-v1'' [1883, 8883]]),
     (''core.forensics.plugins.parsers.iot_ot_parser.CoAPParser'',
        capability_of ''fast-v1'' [ports ''fast-v1'' [5683, 5684]]),
     (''core.forensics.plugins.parsers.iot_ot_parser.ModbusParser'',
        capability_of ''fast-v1'' [ports ''fast-v1'' [502]]),
     (''core.forensics.plugins.parsers.kerberos_parser.KerberosParser'',
        capability_of ''fast-v1'' [ports ''fast-v1'' [88]]),
     (''core.forensics.plugins.parsers.nbns_parser.NBNSParser'',
        capability_of ''fast-v1'' [ports ''fast-v1'' [137]]),
     (''core.forensics.plugins.parsers.network_foundation_parser.ARPNDPParser'',
        capability_of ''fast-v1'' [ARP_PROGRAM, NDP_PROGRAM]),
     (''core.forensics.plugins.parsers.network_foundation_parser.ICMPMetadataParser'',
        capability_of ''fast-v1'' [ICMP_PROGRAM]),
     (''core.forensics.plugins.parsers.network_foundation_parser.DHCPv6Parser'',
        capability_of ''fast-v1'' [ports ''fast-v1'' [546, 547]]),
     (''core.forensics.plugins.parsers.network_foundation_parser.LinkDiscoveryParser'',
        capability_of ''fast-v1'' [program ''fast-v1'' [clause ''ethertype-in'' [PyInt 0x88CC]], program ''fast-v1'' [clause ''frame-window-contains-any'' [PyInt 0, PyInt 32, PyBytes [1, 0, 12, 204, 204, 204]]]]),
     (''core.forensics.plugins.parsers.network_foundation_parser.QUICMetadataParser'',
        capability_of ''fast-v1'' [program ''fast-v1'' [clause ''ip-protocol-in'' [PyInt 17], clause ''either-port-in'' [PyInt 443], clause ''payload-byte-mask'' [PyInt 0, PyInt 0x80, PyInt 0x80]]]),
     (''core.forensics.plugins.parsers.ntlm_parser.NTLMParser'',
        capability_of ''fast-v1'' [program ''fast-v1'' [clause ''payload-contains-any'' [PyBytes (b_lit ''NTLMSSP'')]]]),
     (''core.forensics.plugins.parsers.smb_parser.SMBParser'',
        capability_of ''fast-v1'' [ports ''fast-v1'' [445]]),
     (''core.forensics.plugins.parsers.tls_parser.TLSParser'',
        capability_of ''fast-v1'' [program ''fast-v1'' [clause ''either-port-in'' [PyInt 443], clause ''payload-minimum-length'' [PyInt 6], clause ''payload-prefix-in'' [PyBytes [22, 3]], clause ''payload-byte-mask'' [PyInt 5, PyInt 0xFF, PyInt 0x01]]]),
     (''core.forensics.plugins.detectors.beaconing_detector.BeaconingDetector'',
        (capability_of ''none'' [])\<lparr>oc_flow_input := ''full-flow-v1''\<rparr>),
     (''core.forensics.plugins.detectors.coverage_detector.LANTrustDetector'',
        capability_of ''fast-v1'' [ARP_PROGRAM, NDP_PROGRAM, ports ''fast-v1'' [67, 68]]),
     (''core.forensics.plugins.detectors.coverage_detector.ReconLateralDetector'',
        (capability_of ''fast-v1'' [program ''fast-v1'' [clause ''ip-protocol-in'' [PyInt 6]]])\<lparr>oc_packet_flow_view := ''scalar-v1'', oc_flow_input := ''full-flow-v1''\<rparr>),
     (''core.forensics.plugins.detectors.coverage_detector.ApplicationAbuseDetector'',
        (capability_of ''fast-v1'' [program ''fast-v1'' [clause ''ip-protocol-in'' [PyInt 1, PyInt 58], clause ''payload-diversity'' [PyInt 256, PyInt 16]], program ''fast-v1'' [clause ''ip-protocol-in'' [PyInt 6], clause ''payload-contains-any'' AUTH_MARKERS], program ''fast-v1'' [clause ''ip-protocol-in'' [PyInt 6], clause ''either-port-in'' [PyInt 443], clause ''tcp-flags'' [PyInt 0x02, PyInt 0x10]], program ''fast-v1'' [clause ''ip-protocol-in'' [PyInt 6], clause ''either-port-in'' [PyInt 443], clause ''payload-minimum-length'' [PyInt 1]]])\<lparr>oc_packet_flow_view := ''scalar-v1'', oc_stream_input := ''reassembled-stream-v1''\<rparr>),
     (''core.forensics.plugins.detectors.coverage_detector.IoTOTSafetyDetector'',
        capability_of ''fast-v1'' [ports ''fast-v1'' [502, 1883]]),
     (''core.forensics.plugins.detectors.dns_detector.DNSDetector'',
        capability_of ''deep-scapy-v1'' [ports ''deep-scapy-v1'' [53]]),
     (''core.forensics.plugins.detectors.exfiltration_detector.ExfiltrationDetector'',
        (capability_of ''none'' [])\<lparr>oc_flow_input := ''full-flow-v1''\<rparr>),
     (''core.forensics.plugins.detectors.file_detector.FileTransferDetector'',
        (capability_of ''fast-v1'' [program ''fast-v1'' [clause ''payload-contains-any'' [PyBytes (b_lit ''MZ''), PyBytes (b_lit ''This program cannot be run in DOS mode'')]]])\<lparr>oc_stream_input := ''reassembled-stream-v1''\<rparr>),
     (''core.forensics.plugins.detectors.ftp_detector.FTPDetector'',
        (capability_of ''fast-v1'' [program ''fast-v1'' [clause ''ip-protocol-in'' [PyInt 6], clause ''payload-contains-any'' [PyBytes (b_lit ''USER ''), PyBytes (b_lit ''PASS '')]]])\<lparr>oc_stream_input := ''reassembled-stream-v1''\<rparr>),
     (''core.forensics.plugins.detectors.os_detector.OSDetector'',
        capability_of ''none'' []),
     (''core.forensics.plugins.detectors.stateful_behavior_detector.UnifiedStatefulBehaviorDetector'',
        (capability_of ''none'' [])\<lparr>oc_conversation_input := ''delta-v2''\<rparr>)]"

section \<open>Plugins\<close>

text \<open>What the planner reads of a plugin object: each \<open>getattr\<close> with a default is an option.\<close>

record plugin_manifest =
  mf_detector_id :: "string option"
  mf_contract_version :: "int option"
  mf_version :: "string option"
  mf_supported_link_types :: "string list option"
  mf_supported_capture_sources :: "string list option"

record plugin =
  pg_module :: string
  pg_qualname :: string
  pg_type_name :: string
  pg_enabled :: bool
  pg_name :: "string option"
  pg_api_version :: "int option"
  pg_manifest :: "plugin_manifest option"
  pg_supported_link_types :: "string list option"
  pg_supported_capture_sources :: "string list option"
  pg_offline_capability :: "cap_declaration option"

definition plugin_key :: "plugin \<Rightarrow> string" where
  "plugin_key plugin = pg_module plugin @ ''.'' @ pg_qualname plugin"

definition offline_capability_for :: "plugin \<Rightarrow> cap_declaration option" where
  "offline_capability_for plugin =
     (case pg_offline_capability plugin of
        Some declaration \<Rightarrow> Some declaration
      | None \<Rightarrow> map_option Declared (dict_get BUILTIN_CAPABILITIES (plugin_key plugin)))"

section \<open>Validation\<close>

text \<open>\<open>isinstance(value, int) and lo <= value <= hi\<close>\<close>

definition int_between :: "int \<Rightarrow> int \<Rightarrow> pyval \<Rightarrow> bool" where
  "int_between lo hi v = (case isinstance_int v of Some i \<Rightarrow> lo \<le> i \<and> i \<le> hi | None \<Rightarrow> False)"

definition validate_int_set :: "string \<Rightarrow> pyval list \<Rightarrow> int \<Rightarrow> nat \<Rightarrow> string list" where
  "validate_int_set opcode values maximum limit =
     (if values = [] then [opcode @ '' requires at least one value'']
      else if length values > limit then [opcode @ '' exceeds '' @ show_nat limit @ '' values'']
      else if \<not> list_all (int_between 0 maximum) values
        then [opcode @ '' values must be integers from 0 to '' @ show_int maximum]
      else [])"

definition nonempty_bytes :: "pyval \<Rightarrow> bool" where
  "nonempty_bytes v = (case isinstance_bytes v of Some b \<Rightarrow> b \<noteq> [] | None \<Rightarrow> False)"

definition py_bytes_len :: "pyval \<Rightarrow> nat" where
  "py_bytes_len v = (case v of PyBytes b \<Rightarrow> length b | _ \<Rightarrow> 0)"

definition validate_literals :: "string \<Rightarrow> pyval list \<Rightarrow> string list" where
  "validate_literals opcode values =
     (if values = [] then [opcode @ '' requires at least one literal'']
      else if length values > 32 then [opcode @ '' exceeds 32 literals'']
      else if \<not> list_all nonempty_bytes values then [opcode @ '' literals must be non-empty bytes'']
      else if \<not> list_all (\<lambda>v. py_bytes_len v \<le> 256) values then [opcode @ '' literal exceeds 256 bytes'']
      else [])"

text \<open>\<open>any(value not in AGGREGATE_LINK_TYPES for value in values)\<close>: stops at the first hit; a value that cannot be hashed raises.\<close>

fun any_foreign_link :: "pyval list \<Rightarrow> bool result" where
  "any_foreign_link [] = Inr False"
| "any_foreign_link (v # vs) =
     bindE (in_str_keys v AGGREGATE_LINK_TYPES) (\<lambda>b. if b then any_foreign_link vs else Inr True)"

definition validate_clause :: "selector_clause \<Rightarrow> string list result" where
  "validate_clause c = (let opcode = sc_opcode c; values = sc_values c in
     if opcode \<notin> set PLANNER_OPCODES then Inr [''unknown selector opcode: '' @ opcode]
     else if opcode = ''always'' then
       Inr (if values = [] then [] else [''always selector does not accept values''])
     else if opcode = ''link-class-in'' then
       bindE (if values = [] then Inr True else any_foreign_link values) (\<lambda>bad.
       Inr (if bad then [''link-class-in values must be ethernet or raw-ip''] else []))
     else if opcode = ''ethertype-in'' then Inr (validate_int_set opcode values 0xFFFF 255)
     else if opcode \<in> {''ip-protocol-in'', ''icmp-type-in''} then Inr (validate_int_set opcode values 0xFF 255)
     else if opcode \<in> {''either-port-in'', ''source-port-in'', ''destination-port-in''} then
       Inr (validate_int_set opcode values 0xFFFF 512)
     else if opcode = ''tcp-flags'' then
       Inr (if length values \<noteq> 2 \<or> \<not> list_all (int_between 0 0xFFFF) values
            then [''tcp-flags requires required and forbidden u16 values''] else [])
     else if opcode = ''payload-minimum-length'' then
       Inr (case values of
              [v] \<Rightarrow> (if int_between 0 0xFFFFFFFF v then [] else [''payload-minimum-length requires one u32 value''])
            | _ \<Rightarrow> [''payload-minimum-length requires one u32 value''])
     else if opcode \<in> {''payload-prefix-in'', ''payload-contains-any''} then Inr (validate_literals opcode values)
     else if opcode = ''payload-byte-mask'' then
       Inr (case values of
              [v0, v1, v2] \<Rightarrow>
                (if int_between 0 0xFFFF v0 \<and> list_all (int_between 0 0xFF) [v1, v2] then []
                 else [''payload-byte-mask requires u16 offset, u8 mask, and u8 expected''])
            | _ \<Rightarrow> [''payload-byte-mask requires u16 offset, u8 mask, and u8 expected''])
     else if opcode = ''payload-diversity'' then
       Inr (case values of
              [v0, v1] \<Rightarrow>
                (if list_all (int_between 0 0xFFFF) [v0, v1] \<and> the (isinstance_int v1) \<le> the (isinstance_int v0) then []
                 else [''payload-diversity requires sample and minimum_distinct u16 values''])
            | _ \<Rightarrow> [''payload-diversity requires sample and minimum_distinct u16 values''])
     else
       Inr (case values of
              v0 # v1 # v2 # literals \<Rightarrow>
                (case (isinstance_int v0, isinstance_int v1) of
                   (Some a, Some b) \<Rightarrow>
                     (if 0 \<le> a \<and> a \<le> b \<and> b \<le> 0xFFFF then validate_literals opcode (v2 # literals)
                      else [''frame-window-contains-any requires a valid u16 start/end window''])
                 | _ \<Rightarrow> [''frame-window-contains-any requires a valid u16 start/end window''])
            | _ \<Rightarrow> [''frame-window-contains-any requires a valid u16 start/end window'']))"

definition selector_program_error :: "nat \<Rightarrow> string \<Rightarrow> string" where
  "selector_program_error index msg = ''selector program '' @ show_nat index @ msg"

definition validate_program :: "string \<Rightarrow> nat \<Rightarrow> selector_program \<Rightarrow> string list result" where
  "validate_program packet_view index p =
     bindE (mapE validate_clause (sp_clauses p)) (\<lambda>errors.
     Inr ((if sp_candidate_mode p \<in> {''fast-v1'', ''deep-scapy-v1''} then []
           else [selector_program_error index ('' has unsupported candidate_mode: '' @ sp_candidate_mode p)])
        @ (if sp_candidate_mode p = packet_view then []
           else [selector_program_error index '' candidate_mode does not match packet_view''])
        @ (if 1 \<le> length (sp_clauses p) \<and> length (sp_clauses p) \<le> 16 then []
           else [selector_program_error index '' must contain 1..16 clauses''])
        @ map (\<lambda>e. selector_program_error index ('': '' @ e)) (concat errors)))"

definition clause_literal_bytes :: "selector_clause \<Rightarrow> nat" where
  "clause_literal_bytes c = sum_list (map py_bytes_len (sc_values c))"

definition program_literal_bytes :: "selector_program \<Rightarrow> nat" where
  "program_literal_bytes p = sum_list (map clause_literal_bytes (sp_clauses p))"

definition capability_errors :: "offline_capability \<Rightarrow> string list" where
  "capability_errors c =
     (if oc_contract c = AGGREGATE_EXECUTION_MODE then []
      else [''unsupported offline capability contract: '' @ oc_contract c])
   @ (if oc_packet_view c \<in> set PACKET_VIEWS then [] else [''unsupported packet_view: '' @ oc_packet_view c])
   @ (if oc_packet_flow_view c \<in> set PACKET_FLOW_VIEWS then []
      else [''unsupported packet_flow_view: '' @ oc_packet_flow_view c])
   @ (if oc_flow_input c \<in> set FLOW_INPUTS then [] else [''unsupported flow_input: '' @ oc_flow_input c])
   @ (if oc_stream_input c \<in> set STREAM_INPUTS then [] else [''unsupported stream_input: '' @ oc_stream_input c])
   @ (if oc_conversation_input c \<in> set CONVERSATION_INPUTS then []
      else [''unsupported conversation_input: '' @ oc_conversation_input c])
   @ (if oc_packet_view c = ''none'' \<and> oc_selector_programs c \<noteq> []
      then [''packet_view none cannot declare selector programs''] else [])
   @ (if oc_packet_view c \<noteq> ''none'' \<and> oc_selector_programs c = []
      then [''packet_view '' @ oc_packet_view c @ '' requires a selector program''] else [])
   @ (if oc_packet_flow_view c \<noteq> ''none'' \<and> oc_packet_view c = ''none''
      then [''packet_flow_view requires a packet_view''] else [])
   @ (if length (oc_selector_programs c) > 64 then [''offline capability exceeds 64 selector programs''] else [])"

definition validate_capability :: "offline_capability \<Rightarrow> string list result" where
  "validate_capability c =
     bindE (mapE (\<lambda>(i, p). validate_program (oc_packet_view c) i p) (enumerate 0 (oc_selector_programs c))) (\<lambda>errors.
     Inr (capability_errors c @ concat errors
        @ (if sum_list (map program_literal_bytes (oc_selector_programs c)) > 64 * 1024
           then [''offline capability exceeds 64 KiB of selector literals''] else [])))"

definition validate_offline_capability :: "cap_declaration \<Rightarrow> string list result" where
  "validate_offline_capability d =
     (case d of
        Declared c \<Rightarrow> validate_capability c
      | ForeignObject \<Rightarrow> Inr [''offline capability must be an OfflineCapability declaration''])"


section \<open>The registry is valid\<close>

lemma validate_programs_simps:
  "validate_program v i \<lparr>sp_candidate_mode = m, sp_clauses = cs\<rparr> = Inr [] \<longleftrightarrow>
     m \<in> {''fast-v1'', ''deep-scapy-v1''} \<and> m = v \<and> 1 \<le> length cs \<and> length cs \<le> 16 \<and> list_all (\<lambda>c. validate_clause c = Inr []) cs"
proof -
  have "mapE validate_clause cs = Inr es \<Longrightarrow> concat es = [] \<longleftrightarrow> list_all (\<lambda>c. validate_clause c = Inr []) cs" for es
    by (induction cs arbitrary: es) (auto simp: result_simps)
  moreover have "list_all (\<lambda>c. validate_clause c = Inr []) cs \<Longrightarrow> \<exists>es. mapE validate_clause cs = Inr es"
    by (induction cs) (auto simp: result_simps)
  ultimately show ?thesis
    by (auto simp: validate_program_def bindE_Inr)
qed

lemma enumerate_errors_Nil:
  "mapE (\<lambda>(i, p). f i p) (enumerate n ps) = Inr es \<Longrightarrow>
     (concat es = []) = list_all (\<lambda>(i, p). f i p = Inr []) (enumerate n ps)"
proof (induction ps arbitrary: n es)
  case (Cons p ps)
  then obtain e es' where "f n p = Inr e" "mapE (\<lambda>(i, p). f i p) (enumerate (Suc n) ps) = Inr es'" "es = e # es'"
    by (auto simp: result_simps)
  with Cons.IH [of "Suc n" es'] show ?case by simp
qed simp

lemma enumerate_errors_ok:
  "list_all (\<lambda>(i, p). f i p = Inr []) (enumerate n ps) \<Longrightarrow> \<exists>es. mapE (\<lambda>(i, p). f i p) (enumerate n ps) = Inr es"
  by (induction ps arbitrary: n) (auto simp: result_simps)

definition valid_clause :: "selector_clause \<Rightarrow> bool" where
  "valid_clause c \<longleftrightarrow> validate_clause c = Inr []"

definition valid_program :: "string \<Rightarrow> selector_program \<Rightarrow> bool" where
  "valid_program v p \<longleftrightarrow> sp_candidate_mode p \<in> {''fast-v1'', ''deep-scapy-v1''} \<and> sp_candidate_mode p = v \<and>
     1 \<le> length (sp_clauses p) \<and> length (sp_clauses p) \<le> 16 \<and> list_all valid_clause (sp_clauses p)"

lemma validate_program_iff: "validate_program v i p = Inr [] \<longleftrightarrow> valid_program v p"
proof (cases p)
  case (fields m cs)
  then show ?thesis by (simp add: validate_programs_simps valid_program_def valid_clause_def [abs_def])
qed

lemma list_all_enumerate: "list_all (\<lambda>(i, p). P p) (enumerate n ps) = list_all P ps"
  by (induction ps arbitrary: n) auto

text \<open>A declaration is valid exactly when no rule finds anything to report.\<close>

lemma validate_capability_iff: "validate_capability c = Inr [] \<longleftrightarrow>
   capability_errors c = [] \<and> list_all (valid_program (oc_packet_view c)) (oc_selector_programs c) \<and>
   sum_list (map program_literal_bytes (oc_selector_programs c)) \<le> 65536"
  (is "?L \<longleftrightarrow> ?R")
proof -
  let ?f = "validate_program (oc_packet_view c)" and ?e = "enumerate 0 (oc_selector_programs c)"
  have e: "list_all (\<lambda>(i, p). ?f i p = Inr []) ?e \<longleftrightarrow> list_all (valid_program (oc_packet_view c)) (oc_selector_programs c)"
    by (simp add: validate_program_iff list_all_enumerate)
  have "?L \<longleftrightarrow> (\<exists>es. mapE (\<lambda>(i, p). ?f i p) ?e = Inr es \<and> capability_errors c = [] \<and> concat es = [] \<and>
      sum_list (map program_literal_bytes (oc_selector_programs c)) \<le> 65536)"
    by (auto simp: validate_capability_def bindE_Inr)
  also have "\<dots> \<longleftrightarrow> ?R"
    using enumerate_errors_Nil [of ?f 0 "oc_selector_programs c"] enumerate_errors_ok [of ?f 0 "oc_selector_programs c"] e by blast
  finally show ?thesis .
qed

lemmas registry_defs = clause_def program_def capability_of_def ports_def prefixes_def ARP_PROGRAM_def NDP_PROGRAM_def
  ICMP_PROGRAM_def HTTP_PREFIXES_def AUTH_MARKERS_def

lemmas capability_sets = PACKET_VIEWS_def PACKET_FLOW_VIEWS_def FLOW_INPUTS_def STREAM_INPUTS_def CONVERSATION_INPUTS_def
  PLANNER_OPCODES_def

lemma builtin_capabilities_valid:
  "list_all (\<lambda>(k, c). validate_capability c = Inr []) BUILTIN_CAPABILITIES"
  unfolding validate_capability_iff BUILTIN_CAPABILITIES_def
  by (simp add: registry_defs capability_errors_def capability_sets valid_program_def valid_clause_def validate_clause_def
      validate_int_set_def validate_literals_def int_between_def nonempty_bytes_def py_bytes_len_def program_literal_bytes_def
      clause_literal_bytes_def b_lit_def)

end
