(* ===== verification/MeshContracts.thy ===== *)
theory MeshContracts imports FloatArith CanonicalJson PyText Sha256 begin

text \<open>
  core/mesh/contracts.py: the telemetry envelope a sensor sends, its canonical JSON bytes and the digest
  over them, the checks of \<open>validate\<close> and the reading back of a stored dictionary.  \<open>mesh_env\<close> holds what
  is not written out: the shortest decimal of a float and the float of a decimal, \<open>str\<close> of values that are
  neither text nor whole numbers, and \<open>json.loads\<close>.
\<close>

record mesh_env =
  me_float_text :: "f64 \<Rightarrow> string"
  me_float_of_text :: "string \<Rightarrow> f64 option"
  me_str :: "pyval \<Rightarrow> string"
  me_loads :: "bytes \<Rightarrow> pyval option"

section \<open>JSON text\<close>

text \<open>\<open>json.dumps\<close> with sorted keys and compact separators; the flags are \<open>ensure_ascii\<close> and the negation of
  \<open>allow_nan\<close>, and the option is \<open>default\<close>.\<close>

definition json_literal :: "char \<Rightarrow> string" where
  "json_literal c = (if of_char c < (128 :: nat) \<and> of_char c \<noteq> (127 :: nat) then json_escape c else [c])"

definition json_quoted :: "bool \<Rightarrow> string \<Rightarrow> string" where
  "json_quoted ascii s = [quote_char] @ concat (map (if ascii then json_escape else json_literal) s) @ [quote_char]"

definition json_float :: "(f64 \<Rightarrow> string) \<Rightarrow> bool \<Rightarrow> f64 \<Rightarrow> string result" where
  "json_float float_text strict x =
     (if \<not> f64_isnan x \<and> \<not> f64_isinf x then Inr (float_text x)
      else if strict then Inl (ValueError ''Out of range float values are not JSON compliant'')
      else Inr (if f64_isnan x then ''NaN'' else if f64_negative x then ''-Infinity'' else ''Infinity''))"

fun json_text :: "(f64 \<Rightarrow> string) \<Rightarrow> bool \<Rightarrow> bool \<Rightarrow> (pyval \<Rightarrow> string) option \<Rightarrow> pyval \<Rightarrow> string result" where
  "json_text ft ascii strict other PyNone = Inr ''null''"
| "json_text ft ascii strict other (PyBool b) = Inr (if b then ''true'' else ''false'')"
| "json_text ft ascii strict other (PyInt i) = Inr (show_int i)"
| "json_text ft ascii strict other (PyFloat x) = json_float ft strict x"
| "json_text ft ascii strict other (PyStr s) = Inr (json_quoted ascii s)"
| "json_text ft ascii strict other (PyBytes b) =
     (case other of None \<Rightarrow> Inl (TypeError ''Object of type bytes is not JSON serializable'')
      | Some text_of \<Rightarrow> Inr (json_quoted ascii (text_of (PyBytes b))))"
| "json_text ft ascii strict other (PyTuple vs) =
     bindE (mapE (json_text ft ascii strict other) vs) (\<lambda>ts. Inr (''['' @ comma_join ts @ '']''))"
| "json_text ft ascii strict other (PyList vs) =
     bindE (mapE (json_text ft ascii strict other) vs) (\<lambda>ts. Inr (''['' @ comma_join ts @ '']''))"
| "json_text ft ascii strict other (PyDict d) =
     bindE (mapE (\<lambda>(k, v). bindE (json_text ft ascii strict other v) (\<lambda>t. Inr (json_quoted ascii k @ '':'' @ t))) (sort_key fst d))
       (\<lambda>ts. Inr (''{'' @ comma_join ts @ ''}''))"

definition canonical_json_bytes :: "mesh_env \<Rightarrow> pyval \<Rightarrow> bytes result" where
  "canonical_json_bytes env v = bindE (json_text (me_float_text env) False True None v) (\<lambda>t. Inr (utf8 t))"

definition payload_hash :: "mesh_env \<Rightarrow> pyval \<Rightarrow> string result" where
  "payload_hash env v = bindE (canonical_json_bytes env v) (\<lambda>b. Inr (sha256_hex b))"

definition legacy_payload_hash :: "mesh_env \<Rightarrow> pyval \<Rightarrow> string result" where
  "legacy_payload_hash env v =
     bindE (json_text (me_float_text env) True False (Some (me_str env)) v) (\<lambda>t. Inr (sha256_hex (utf8 t)))"

section \<open>Conversions\<close>

fun digits_value :: "bool \<Rightarrow> nat \<Rightarrow> string \<Rightarrow> nat option" where
  "digits_value after_digit n [] = (if after_digit then Some n else None)"
| "digits_value after_digit n (c # cs) =
     (let k = (of_char c :: nat) in
      if 48 \<le> k \<and> k \<le> 57 then digits_value True (10 * n + (k - 48)) cs
      else if c = CHR ''_'' \<and> after_digit then digits_value False n cs
      else None)"

text \<open>\<open>int(text)\<close>, with the interpreter's limit of 4300 digits.\<close>

definition int_of_text :: "string \<Rightarrow> int option" where
  "int_of_text s =
     (let t = py_strip s; signed = (t \<noteq> [] \<and> (hd t = CHR ''-'' \<or> hd t = CHR ''+'')); digits = (if signed then tl t else t)
      in if 4300 < length (filter (\<lambda>c. c \<noteq> CHR ''_'') digits) then None
         else map_option (\<lambda>n. if signed \<and> hd t = CHR ''-'' then - int n else int n) (digits_value False 0 digits))"

definition py_int :: "pyval \<Rightarrow> int result" where
  "py_int v = (case v of
     PyInt i \<Rightarrow> Inr i
   | PyBool b \<Rightarrow> Inr (if b then 1 else 0)
   | PyFloat x \<Rightarrow> f64_to_int x
   | PyStr s \<Rightarrow> (case int_of_text s of Some i \<Rightarrow> Inr i | None \<Rightarrow> Inl (ValueError ''invalid literal for int() with base 10''))
   | PyBytes b \<Rightarrow> (case int_of_text (map (\<lambda>w. char_of (unat w)) b) of Some i \<Rightarrow> Inr i
       | None \<Rightarrow> Inl (ValueError ''invalid literal for int() with base 10''))
   | _ \<Rightarrow> Inl (TypeError ''int() argument must be a string, a bytes-like object or a real number''))"

definition py_float :: "mesh_env \<Rightarrow> pyval \<Rightarrow> f64 result" where
  "py_float env v = (case v of
     PyFloat x \<Rightarrow> Inr x
   | PyInt i \<Rightarrow> f64_of_int i
   | PyBool b \<Rightarrow> f64_of_int (if b then 1 else 0)
   | PyStr s \<Rightarrow> (case me_float_of_text env s of Some x \<Rightarrow> Inr x | None \<Rightarrow> Inl (ValueError ''could not convert string to float''))
   | PyBytes b \<Rightarrow> (case me_float_of_text env (map (\<lambda>w. char_of (unat w)) b) of Some x \<Rightarrow> Inr x
       | None \<Rightarrow> Inl (ValueError ''could not convert string to float''))
   | _ \<Rightarrow> Inl (TypeError ''float() argument must be a string or a real number''))"

text \<open>\<open>d.get(key) or default\<close>, and its text.\<close>

definition get_or :: "(string, pyval) dict \<Rightarrow> string \<Rightarrow> pyval \<Rightarrow> pyval" where
  "get_or d key fallback = (case dict_get d key of None \<Rightarrow> fallback | Some v \<Rightarrow> if py_truth v then v else fallback)"

definition text_at :: "mesh_env \<Rightarrow> (string, pyval) dict \<Rightarrow> string \<Rightarrow> string" where
  "text_at env d key = py_str (me_str env) (get_or d key (PyStr []))"

text \<open>\<open>dict(value)\<close>, of a mapping or of a sequence of pairs.\<close>

definition pair_of :: "pyval \<Rightarrow> (string \<times> pyval) result" where
  "pair_of v = (case v of
     PyList [PyStr k, w] \<Rightarrow> Inr (k, w)
   | PyTuple [PyStr k, w] \<Rightarrow> Inr (k, w)
   | PyStr [a, b] \<Rightarrow> Inr ([a], PyStr [b])
   | PyNone \<Rightarrow> Inl (TypeError ''cannot convert dictionary update sequence element to a sequence'')
   | PyBool _ \<Rightarrow> Inl (TypeError ''cannot convert dictionary update sequence element to a sequence'')
   | PyInt _ \<Rightarrow> Inl (TypeError ''cannot convert dictionary update sequence element to a sequence'')
   | PyFloat _ \<Rightarrow> Inl (TypeError ''cannot convert dictionary update sequence element to a sequence'')
   | _ \<Rightarrow> Inl (ValueError ''dictionary update sequence element has the wrong length''))"

definition py_dict :: "pyval \<Rightarrow> (string, pyval) dict result" where
  "py_dict v = (case v of
     PyDict d \<Rightarrow> Inr d
   | PyList items \<Rightarrow> bindE (mapE pair_of items) (\<lambda>ps. Inr (foldl (\<lambda>d (k, w). dict_set d k w) [] ps))
   | PyTuple items \<Rightarrow> bindE (mapE pair_of items) (\<lambda>ps. Inr (foldl (\<lambda>d (k, w). dict_set d k w) [] ps))
   | PyStr [] \<Rightarrow> Inr []
   | PyStr _ \<Rightarrow> Inl (ValueError ''dictionary update sequence element has the wrong length'')
   | PyBytes [] \<Rightarrow> Inr []
   | PyBytes _ \<Rightarrow> Inl (TypeError ''cannot convert dictionary update sequence element to a sequence'')
   | _ \<Rightarrow> Inl (TypeError (py_type_name v @ '' object is not iterable'')))"

section \<open>The envelope\<close>

definition MESH_PROTOCOL_VERSION :: string where
  "MESH_PROTOCOL_VERSION = ''watchtower.mesh.v2''"

definition LEGACY_MESH_PROTOCOL_VERSION :: string where
  "LEGACY_MESH_PROTOCOL_VERSION = ''watchtower.mesh.v1''"

definition DIGEST_ALGORITHM :: string where
  "DIGEST_ALGORITHM = ''canonical-json-sha256-v2''"

definition VALID_ENVELOPE_TYPES :: "string list" where
  "VALID_ENVELOPE_TYPES = [''health'', ''sessions'', ''flows'', ''findings'', ''alerts'', ''endpoint_observations'',
     ''hardware_observations'', ''command_results'', ''case_bundle'', ''lifecycle'']"

record telemetry_envelope =
  te_node_id :: string
  te_sequence :: int
  te_type :: string
  te_payload :: pyval
  te_created_at :: f64
  te_version :: string
  te_digest :: string
  te_algorithm :: string

text \<open>\<open>__post_init__\<close>\<close>

definition new_envelope :: "mesh_env \<Rightarrow> telemetry_envelope \<Rightarrow> telemetry_envelope result" where
  "new_envelope env e =
     (if te_digest e = [] then bindE (payload_hash env (te_payload e)) (\<lambda>h. Inr (e\<lparr>te_digest := h\<rparr>)) else Inr e)"

definition validate_envelope :: "mesh_env \<Rightarrow> telemetry_envelope \<Rightarrow> unit result" where
  "validate_envelope env e =
     bindE (guardE (te_version e = MESH_PROTOCOL_VERSION \<or> te_version e = LEGACY_MESH_PROTOCOL_VERSION)
       (ValueError ''Unsupported mesh protocol version'')) (\<lambda>_.
     bindE (guardE (te_node_id e \<noteq> [] \<and> length (te_node_id e) \<le> 128) (ValueError ''Invalid mesh node identifier'')) (\<lambda>_.
     bindE (guardE (1 \<le> te_sequence e) (ValueError ''Mesh sequence must be positive'')) (\<lambda>_.
     bindE (guardE (te_type e \<in> set VALID_ENVELOPE_TYPES) (ValueError ''Unsupported mesh telemetry type'')) (\<lambda>_.
     bindE (guardE (case te_payload e of PyDict _ \<Rightarrow> True | _ \<Rightarrow> False) (ValueError ''Mesh payload must be an object'')) (\<lambda>_.
     bindE (payload_hash env (te_payload e)) (\<lambda>canonical.
     bindE (if te_algorithm e = ''legacy-json-sha256'' then legacy_payload_hash env (te_payload e)
            else if te_algorithm e = DIGEST_ALGORITHM then Inr canonical
            else Inl (ValueError ''Unsupported mesh payload digest algorithm'')) (\<lambda>expected.
     guardE (te_digest e = expected) (ValueError ''Mesh payload hash mismatch''))))))))"

text \<open>\<open>asdict\<close>\<close>

definition envelope_to_dict :: "telemetry_envelope \<Rightarrow> (string, pyval) dict" where
  "envelope_to_dict e =
     [(''node_id'', PyStr (te_node_id e)), (''sequence'', PyInt (te_sequence e)), (''envelope_type'', PyStr (te_type e)),
      (''payload'', te_payload e), (''created_at'', PyFloat (te_created_at e)), (''protocol_version'', PyStr (te_version e)),
      (''payload_digest'', PyStr (te_digest e)), (''digest_algorithm'', PyStr (te_algorithm e))]"

definition envelope_from_dict :: "mesh_env \<Rightarrow> (string, pyval) dict \<Rightarrow> telemetry_envelope result" where
  "envelope_from_dict env d =
     bindE (py_int (get_or d ''sequence'' (PyInt 0))) (\<lambda>sequence.
     bindE (py_dict (get_or d ''payload'' (PyDict []))) (\<lambda>payload.
     bindE (py_float env (get_or d ''created_at'' (PyFloat 0))) (\<lambda>created_at.
     (let version = text_at env d ''protocol_version'' in
     bindE (new_envelope env
       \<lparr>te_node_id = text_at env d ''node_id'', te_sequence = sequence, te_type = text_at env d ''envelope_type'',
        te_payload = PyDict payload, te_created_at = created_at, te_version = version,
        te_digest = text_at env d ''payload_digest'',
        te_algorithm = py_str (me_str env) (get_or d ''digest_algorithm''
          (PyStr (if version = LEGACY_MESH_PROTOCOL_VERSION then ''legacy-json-sha256'' else DIGEST_ALGORITHM)))\<rparr>) (\<lambda>e.
     bindE (validate_envelope env e) (\<lambda>_. Inr e))))))"

end
