(* ===== verification/StateError.thy ===== *)
theory StateError imports WT_Prelude begin

text \<open>
  Operations that change a state and may raise: what an operation changed before it raised stays changed.
  The mesh's controller and agent are written with these.
\<close>

type_synonym ('s, 'a) action = "'s \<Rightarrow> 's \<times> 'a result"

definition bindS :: "('s, 'a) action \<Rightarrow> ('a \<Rightarrow> ('s, 'b) action) \<Rightarrow> ('s, 'b) action" where
  "bindS m f s = (case m s of (s', Inl e) \<Rightarrow> (s', Inl e) | (s', Inr x) \<Rightarrow> f x s')"

definition returnS :: "'a \<Rightarrow> ('s, 'a) action" where
  "returnS x s = (s, Inr x)"

definition raiseS :: "py_error \<Rightarrow> ('s, 'a) action" where
  "raiseS e s = (s, Inl e)"

definition liftS :: "'a result \<Rightarrow> ('s, 'a) action" where
  "liftS r s = (s, r)"

definition guardS :: "bool \<Rightarrow> py_error \<Rightarrow> ('s, unit) action" where
  "guardS c e s = (s, guardE c e)"

definition readS :: "('s \<Rightarrow> 'a) \<Rightarrow> ('s, 'a) action" where
  "readS f s = (s, Inr (f s))"

definition changeS :: "('s \<Rightarrow> 's) \<Rightarrow> ('s, unit) action" where
  "changeS f s = (f s, Inr ())"

fun forS :: "('a \<Rightarrow> ('s, 'b) action) \<Rightarrow> 'a list \<Rightarrow> ('s, 'b list) action" where
  "forS f [] = returnS []"
| "forS f (x # xs) = bindS (f x) (\<lambda>y. bindS (forS f xs) (\<lambda>ys. returnS (y # ys)))"

text \<open>\<open>try: m except: handler\<close>\<close>

definition catchS :: "('s, 'a) action \<Rightarrow> (py_error \<Rightarrow> ('s, 'a) action) \<Rightarrow> ('s, 'a) action" where
  "catchS m handler s = (case m s of (s', Inl e) \<Rightarrow> handler e s' | (s', Inr x) \<Rightarrow> (s', Inr x))"

named_theorems action_simps \<open>running an action on a state\<close>

lemma bindS_run [action_simps]:
  "m s = (s', Inl e) \<Longrightarrow> bindS m f s = (s', Inl e)"
  "m s = (s', Inr x) \<Longrightarrow> bindS m f s = f x s'"
  by (simp_all add: bindS_def)

lemma basic_actions [simp]:
  "returnS x s = (s, Inr x)"
  "raiseS e s = (s, Inl e)"
  "liftS r s = (s, r)"
  "readS f s = (s, Inr (f s))"
  "changeS g s = (g s, Inr ())"
  "guardS c e s = (s, guardE c e)"
  by (simp_all add: returnS_def raiseS_def liftS_def readS_def changeS_def guardS_def)

lemma bindS_return [simp]: "bindS (returnS x) k = k x"
  by (simp add: fun_eq_iff bindS_def)

lemma bindS_raise [simp]: "bindS (raiseS e) k = raiseS e"
  by (simp add: fun_eq_iff bindS_def)

lemma bindS_read [simp]: "bindS (readS f) k s = k (f s) s"
  by (simp add: bindS_def)

lemma bindS_change [simp]: "bindS (changeS g) k s = k () (g s)"
  by (simp add: bindS_def)

lemma bindS_guard [simp]: "bindS (guardS c e) k = (if c then k () else raiseS e)"
  by (simp add: fun_eq_iff bindS_def)

lemma bindS_lift: "bindS (liftS r) k = (case r of Inl e \<Rightarrow> raiseS e | Inr x \<Rightarrow> k x)"
  by (simp add: fun_eq_iff bindS_def split: sum.split)

lemma bindS_lift_Inr [simp]: "bindS (liftS (Inr x)) k = k x"
  by (simp add: bindS_lift)

lemma bindS_lift_Inl [simp]: "bindS (liftS (Inl e)) k = raiseS e"
  by (simp add: bindS_lift)

lemma catchS_run [simp]: "catchS (raiseS e) h = h e"
  by (simp add: fun_eq_iff catchS_def)

lemma bindS_Inr [action_simps]:
  "bindS m f s = (t, Inr y) \<longleftrightarrow> (\<exists>s' x. m s = (s', Inr x) \<and> f x s' = (t, Inr y))"
  by (auto simp: bindS_def split: prod.splits sum.splits)

text \<open>A property of the state that both parts keep is kept by the sequence, whatever the results.\<close>

definition keeps :: "('s \<Rightarrow> bool) \<Rightarrow> ('s, 'a) action \<Rightarrow> bool" where
  "keeps I m \<longleftrightarrow> (\<forall>s. I s \<longrightarrow> I (fst (m s)))"

lemma keptI [intro]: "(\<And>s. I s \<Longrightarrow> I (fst (m s))) \<Longrightarrow> keeps I m"
  by (simp add: keeps_def)

lemma keptD: "keeps I m \<Longrightarrow> I s \<Longrightarrow> I (fst (m s))"
  by (simp add: keeps_def)

lemma kept_basic [simp]:
  "keeps I (returnS x)" "keeps I (raiseS e)" "keeps I (liftS r)" "keeps I (readS f)" "keeps I (guardS c e)"
  by (simp_all add: keeps_def)

lemma kept_bind: "keeps I m \<Longrightarrow> (\<And>x. keeps I (f x)) \<Longrightarrow> keeps I (bindS m f)"
  unfolding keeps_def bindS_def by (fastforce split: prod.splits sum.splits)

lemma kept_for: "(\<And>x. keeps I (f x)) \<Longrightarrow> keeps I (forS f xs)"
  by (induction xs) (simp_all add: kept_bind)

lemma kept_catch: "keeps I m \<Longrightarrow> (\<And>e. keeps I (h e)) \<Longrightarrow> keeps I (catchS m h)"
  unfolding keeps_def catchS_def by (fastforce split: prod.splits sum.splits)

lemma kept_if: "keeps I m \<Longrightarrow> keeps I n \<Longrightarrow> keeps I (if c then m else n)"
  by simp

end
