(* ===== verification/EvidenceEnvelope.thy ===== *)
theory EvidenceEnvelope imports PyBase64 PyText Sha256 begin

text \<open>
  core/forensics/evidence\_envelope.py: retained evidence in chunked AES-256-GCM envelopes.  AES-GCM comes
  from a library and is a pair of parameters, sealing and opening; what the code relies on is
  \<open>aead_laws\<close>: a ciphertext is sixteen bytes longer than its text, and opening accepts exactly what
  sealing produces under the same key, nonce and associated data.  Files and credentials are maps, and
  the random values (nonce, new key, staging name) are arguments.  The lemmas show the exact form of an
  accepted envelope, the round trip through both files, that a cut or extended envelope is refused,
  and what a failure leaves behind.
\<close>

section \<open>Constants and metadata\<close>

definition ENCRYPTION_FORMAT :: string where
  "ENCRYPTION_FORMAT = ''aes-256-gcm-chunked-v1''"

definition ENVELOPE_MAGIC :: bytes where
  "ENVELOPE_MAGIC = b_lit ''WTE1''"

definition MAX_CHUNK_SIZE :: int where
  "MAX_CHUNK_SIZE = 16 * 1024 * 1024"

record envelope_metadata =
  em_case_id :: string
  em_digest :: string
  em_purpose :: string
  em_credential_reference :: string
  em_nonce :: string
  em_encrypted_path :: string
  em_format_version :: string

definition public_dict :: "envelope_metadata \<Rightarrow> (string \<times> string) list" where
  "public_dict m = [(''retention_mode'', ''encrypted''), (''encryption_format'', em_format_version m), (''digest'', em_digest m)]"

record evidence_envelope =
  ee_installation_id :: string
  ee_chunk_size :: nat

definition envelope_init :: "string \<Rightarrow> int \<Rightarrow> evidence_envelope result" where
  "envelope_init installation_id chunk_size =
     bindE (guardE (installation_id \<noteq> []) (ValueError ''installation_id is required'')) (\<lambda>_.
     bindE (guardE (1 \<le> chunk_size \<and> chunk_size \<le> MAX_CHUNK_SIZE) (ValueError ''chunk_size must be between 1 byte and 16 MiB'')) (\<lambda>_.
     Inr \<lparr>ee_installation_id = installation_id, ee_chunk_size = nat chunk_size\<rparr>))"

definition chunk_nonce :: "bytes \<Rightarrow> nat \<Rightarrow> bytes result" where
  "chunk_nonce base_nonce i =
     (if i \<ge> 2 ^ 32 then Inl (EvidenceIntegrityError ''evidence envelope contains too many chunks'')
      else Inr (take 8 base_nonce @ be_bytes 4 (int i)))"

definition envelope_aad :: "string \<Rightarrow> string \<Rightarrow> string \<Rightarrow> nat \<Rightarrow> nat \<Rightarrow> nat \<Rightarrow> bytes" where
  "envelope_aad case_id digest purpose i plaintext_length chunk_size =
     utf8 (py_join [CHR 0x00] [ENCRYPTION_FORMAT, case_id, digest, purpose, show_nat i, show_nat plaintext_length, show_nat chunk_size])"

definition credential_reference :: "evidence_envelope \<Rightarrow> string \<Rightarrow> string" where
  "credential_reference env case_id = ''watchtower-evidence/v1/'' @ sha256_hex (utf8 (ee_installation_id env)) @ ''/'' @ sha256_hex (utf8 case_id)"

section \<open>Keys\<close>

type_synonym credentials = "string \<Rightarrow> string option"

text \<open>The credentials afterwards, and the reference with its key.\<close>

definition case_key :: "evidence_envelope \<Rightarrow> bytes \<Rightarrow> credentials \<Rightarrow> string \<Rightarrow> credentials \<times> (string \<times> bytes) result" where
  "case_key env generated creds case_id =
     (let reference = credential_reference env case_id in
      case creds reference of
        Some (c # cs) \<Rightarrow>
          (creds,
           case b64decode (c # cs) of
             None \<Rightarrow> Inl (EvidenceKeyUnavailable ''the case evidence encryption key is invalid'')
           | Some key \<Rightarrow> if length key = 32 then Inr (reference, key)
               else Inl (EvidenceKeyUnavailable ''the case evidence encryption key is invalid''))
      | _ \<Rightarrow> (creds(reference \<mapsto> b64encode generated), Inr (reference, generated)))"

definition delete_case_key :: "evidence_envelope \<Rightarrow> credentials \<Rightarrow> string \<Rightarrow> credentials" where
  "delete_case_key env creds case_id = creds(credential_reference env case_id := None)"

section \<open>Chunks\<close>

type_synonym seal_fun = "bytes \<Rightarrow> bytes \<Rightarrow> bytes \<Rightarrow> bytes \<Rightarrow> bytes"
type_synonym open_fun = "bytes \<Rightarrow> bytes \<Rightarrow> bytes \<Rightarrow> bytes \<Rightarrow> bytes option"

text \<open>The writing loop: one length and one sealed chunk at a time, and a zero length at the end.\<close>

function encrypt_chunks :: "seal_fun \<Rightarrow> bytes \<Rightarrow> bytes \<Rightarrow> (nat \<Rightarrow> nat \<Rightarrow> bytes) \<Rightarrow> nat \<Rightarrow> nat \<Rightarrow> bytes \<Rightarrow> bytes result" where
  "encrypt_chunks seal key base_nonce aad chunk_size i source =
     (let chunk = take chunk_size source in
      if chunk = [] then pack FmtI 0
      else bindE (chunk_nonce base_nonce i) (\<lambda>nonce.
        bindE (pack FmtI (int (length chunk))) (\<lambda>len.
        bindE (encrypt_chunks seal key base_nonce aad chunk_size (Suc i) (drop chunk_size source)) (\<lambda>rest.
        Inr (len @ seal key nonce chunk (aad i (length chunk)) @ rest)))))"
  by auto
termination by (relation "measure (\<lambda>(_, _, _, _, _, _, source). length source)") auto

declare encrypt_chunks.simps [simp del]

definition integrity_error :: "string \<Rightarrow> 'a result" where
  "integrity_error m = Inl (EvidenceIntegrityError m)"

text \<open>The reading loop.\<close>

function decrypt_chunks :: "open_fun \<Rightarrow> bytes \<Rightarrow> bytes \<Rightarrow> (nat \<Rightarrow> nat \<Rightarrow> bytes) \<Rightarrow> int \<Rightarrow> nat \<Rightarrow> bytes \<Rightarrow> bytes result" where
  "decrypt_chunks opn key base_nonce aad chunk_size i source =
     (if length (take 4 source) \<noteq> 4 then integrity_error ''evidence envelope is truncated''
      else
        (let n = nat_of_be (take 4 source); rest = drop 4 source in
         if n = 0 then (if rest = [] then Inr [] else integrity_error ''evidence envelope has trailing data'')
         else if int n > chunk_size then integrity_error ''evidence envelope chunk is invalid''
         else if length (take (n + 16) rest) \<noteq> n + 16 then integrity_error ''evidence envelope is truncated''
         else bindE (chunk_nonce base_nonce i) (\<lambda>nonce.
           case opn key nonce (take (n + 16) rest) (aad i n) of
             None \<Rightarrow> integrity_error ''evidence envelope authentication failed''
           | Some plaintext \<Rightarrow>
               bindE (decrypt_chunks opn key base_nonce aad chunk_size (Suc i) (drop (n + 16) rest)) (\<lambda>more.
               Inr (plaintext @ more)))))"
  by auto
termination by (relation "measure (\<lambda>(_, _, _, _, _, _, source). length source)") auto

declare decrypt_chunks.simps [simp del]

definition read_envelope :: "open_fun \<Rightarrow> bytes \<Rightarrow> bytes \<Rightarrow> envelope_metadata \<Rightarrow> bytes \<Rightarrow> bytes result" where
  "read_envelope opn key base_nonce m content =
     (if length (take 8 content) \<noteq> 8 then integrity_error ''evidence envelope is truncated''
      else
        (let chunk_size = be_int (drop 4 (take 8 content)) in
         if take 4 content \<noteq> ENVELOPE_MAGIC \<or> \<not> (1 \<le> chunk_size \<and> chunk_size \<le> MAX_CHUNK_SIZE)
         then integrity_error ''evidence envelope header is invalid''
         else decrypt_chunks opn key base_nonce
           (\<lambda>i n. envelope_aad (em_case_id m) (em_digest m) (em_purpose m) i n (nat chunk_size)) chunk_size 0 (drop 8 content)))"

section \<open>Files\<close>

type_synonym files = "string \<Rightarrow> bytes option"

definition envelope_bytes :: "seal_fun \<Rightarrow> bytes \<Rightarrow> bytes \<Rightarrow> nat \<Rightarrow> string \<Rightarrow> string \<Rightarrow> string \<Rightarrow> bytes \<Rightarrow> bytes result" where
  "envelope_bytes seal key base_nonce chunk_size case_id digest purpose content =
     bindE (pack FmtI (int chunk_size)) (\<lambda>size.
     bindE (encrypt_chunks seal key base_nonce (\<lambda>i n. envelope_aad case_id digest purpose i n chunk_size) chunk_size 0 content) (\<lambda>chunks.
     Inr (ENVELOPE_MAGIC @ size @ chunks)))"

text \<open>The \<open>except\<close> clause removes the staging file, whatever was raised.\<close>

definition encrypt_file ::
  "seal_fun \<Rightarrow> evidence_envelope \<Rightarrow> string \<Rightarrow> bytes \<Rightarrow> bytes \<Rightarrow> files \<times> credentials \<Rightarrow> string \<Rightarrow> string \<Rightarrow> string \<Rightarrow> string \<Rightarrow> string
     \<Rightarrow> (files \<times> credentials) \<times> envelope_metadata result" where
  "encrypt_file seal env staging base_nonce generated store source encrypted case_id digest purpose =
     (case store of (files, creds) \<Rightarrow>
        (let expected = py_lower digest in
         case case_key env generated creds case_id of
           (creds1, Inl e) \<Rightarrow> ((files, creds1), Inl e)
         | (creds1, Inr (reference, key)) \<Rightarrow>
             (let failed = (\<lambda>e. ((files(staging := None), creds1), Inl e)) in
              case files source of
                None \<Rightarrow> failed FileNotFoundError
              | Some content \<Rightarrow>
                  if files staging \<noteq> None then failed FileExistsError
                  else (case envelope_bytes seal key base_nonce (ee_chunk_size env) case_id expected purpose content of
                      Inl e \<Rightarrow> failed e
                    | Inr body \<Rightarrow>
                        if sha256_hex content \<noteq> expected
                        then failed (EvidenceIntegrityError ''evidence digest does not match the encrypted input'')
                        else ((files(staging := None, encrypted := Some body), creds1),
                          Inr \<lparr>em_case_id = case_id, em_digest = expected, em_purpose = purpose,
                            em_credential_reference = reference, em_nonce = b64encode base_nonce,
                            em_encrypted_path = encrypted, em_format_version = ENCRYPTION_FORMAT\<rparr>)))))"

text \<open>Opening the output empties it, so an envelope that is its own output reads as empty.\<close>

definition decrypt_file :: "open_fun \<Rightarrow> files \<times> credentials \<Rightarrow> envelope_metadata \<Rightarrow> string \<Rightarrow> files \<times> string result" where
  "decrypt_file opn store m output =
     (case store of (files, creds) \<Rightarrow>
        if em_format_version m \<noteq> ENCRYPTION_FORMAT then (files, integrity_error ''evidence envelope format is unsupported'')
        else (case creds (em_credential_reference m) of
            Some (c # cs) \<Rightarrow>
              (case (b64decode (c # cs), b64decode (em_nonce m)) of
                 (Some key, Some base_nonce) \<Rightarrow>
                   if length key \<noteq> 32 \<or> length base_nonce \<noteq> 12
                   then (files, Inl (EvidenceKeyUnavailable ''the evidence encryption key is invalid''))
                   else (case files (em_encrypted_path m) of
                       None \<Rightarrow> (files(output := None), Inl FileNotFoundError)
                     | Some body \<Rightarrow>
                         (case read_envelope opn key base_nonce m (if output = em_encrypted_path m then [] else body) of
                            Inl e \<Rightarrow> (files(output := None), Inl e)
                          | Inr plaintext \<Rightarrow>
                              if sha256_hex plaintext \<noteq> em_digest m
                              then (files(output := None), integrity_error ''decrypted evidence digest does not match metadata'')
                              else (files(output := Some plaintext), Inr output)))
               | _ \<Rightarrow> (files, Inl (EvidenceKeyUnavailable ''the evidence encryption key is invalid'')))
          | _ \<Rightarrow> (files, Inl (EvidenceKeyUnavailable ''the evidence encryption key is unavailable''))))"


section \<open>What an accepted envelope is\<close>

definition aead_laws :: "seal_fun \<Rightarrow> open_fun \<Rightarrow> bool" where
  "aead_laws seal opn \<longleftrightarrow> (\<forall>key nonce p a. length key = 32 \<longrightarrow> length nonce = 12 \<longrightarrow> length (seal key nonce p a) = length p + 16) \<and>
     (\<forall>key nonce c a p. length key = 32 \<longrightarrow> length nonce = 12 \<longrightarrow> (opn key nonce c a = Some p \<longleftrightarrow> c = seal key nonce p a))"

text \<open>The chunks of a text, from a given number on, as the envelope lays them out.\<close>

fun framed :: "seal_fun \<Rightarrow> bytes \<Rightarrow> bytes \<Rightarrow> (nat \<Rightarrow> nat \<Rightarrow> bytes) \<Rightarrow> nat \<Rightarrow> bytes list \<Rightarrow> bytes" where
  "framed seal key base_nonce aad i [] = be_bytes 4 0"
| "framed seal key base_nonce aad i (p # ps) =
     be_bytes 4 (int (length p)) @ seal key (take 8 base_nonce @ be_bytes 4 (int i)) p (aad i (length p))
       @ framed seal key base_nonce aad (Suc i) ps"

definition chunks_ok :: "nat \<Rightarrow> nat \<Rightarrow> bytes list \<Rightarrow> bool" where
  "chunks_ok chunk_size i ps \<longleftrightarrow> list_all (\<lambda>p. p \<noteq> [] \<and> length p \<le> chunk_size) ps \<and> i + length ps \<le> 2 ^ 32"

lemma aead_lawsD:
  assumes "aead_laws seal opn" "length key = 32" "length nonce = 12"
  shows "length (seal key nonce p a) = length p + 16" "opn key nonce c a = Some p \<longleftrightarrow> c = seal key nonce p a"
  using assms by (simp_all add: aead_laws_def)

lemma chunk_nonce_Inr: "chunk_nonce base_nonce i = Inr nonce \<longleftrightarrow> i < 2 ^ 32 \<and> nonce = take 8 base_nonce @ be_bytes 4 (int i)"
  by (auto simp: chunk_nonce_def)

lemma chunk_nonce_length: "length base_nonce = 12 \<Longrightarrow> length (take 8 base_nonce @ be_bytes 4 (int i)) = 12"
  by simp

lemma nat_of_be_4: "n < 2 ^ 32 \<Longrightarrow> nat_of_be (be_bytes 4 (int n)) = n"
  by (simp add: nat_of_be_def)

lemma nat_of_be_bound: "length bs = 4 \<Longrightarrow> nat_of_be bs < 2 ^ 32"
  using be_int_less [of bs 4] by (simp add: nat_of_be_def)

lemma be_bytes_nat_of_be: "length bs = 4 \<Longrightarrow> be_bytes 4 (int (nat_of_be bs)) = bs"
  by (simp add: nat_of_be_def)

text \<open>The reader accepts the framing of a chunk list, and nothing else.\<close>

lemma decrypt_framed:
  assumes "aead_laws seal opn" "length key = 32" "length base_nonce = 12" "chunk_size < 2 ^ 32" "chunks_ok chunk_size i ps"
  shows "decrypt_chunks opn key base_nonce aad (int chunk_size) i (framed seal key base_nonce aad i ps) = Inr (concat ps)"
  using assms(5)
proof (induction ps arbitrary: i)
  case Nil
  show ?case by (subst decrypt_chunks.simps) (simp add: nat_of_be_def)
next
  case (Cons p ps)
  let ?nonce = "take 8 base_nonce @ be_bytes 4 (int i)"
  let ?c = "seal key ?nonce p (aad i (length p))"
  let ?rest = "framed seal key base_nonce aad (Suc i) ps"
  have p: "p \<noteq> []" "length p \<le> chunk_size" "i < 2 ^ 32" and ok: "chunks_ok chunk_size (Suc i) ps"
    using Cons.prems by (simp_all add: chunks_ok_def)
  note laws = aead_lawsD [OF assms(1,2) chunk_nonce_length [OF assms(3)]]
  have n: "chunk_nonce base_nonce i = Inr ?nonce" using p(3) by (simp add: chunk_nonce_def)
  have l: "nat_of_be (be_bytes 4 (int (length p))) = length p" using p(2) assms(4) by (intro nat_of_be_4) simp
  have c: "length ?c = length p + 16" by (rule laws(1))
  have o: "opn key ?nonce ?c (aad i (length p)) = Some p" using laws(2) by blast
  show ?case unfolding framed.simps
    using p by (subst decrypt_chunks.simps) (simp add: Let_def l c n o Cons.IH [OF ok])
qed

lemma decrypt_only_framed:
  assumes "aead_laws seal opn" "length key = 32" "length base_nonce = 12"
  shows "decrypt_chunks opn key base_nonce aad (int chunk_size) i src = Inr p \<Longrightarrow> i \<le> 2 ^ 32 \<Longrightarrow>
    \<exists>ps. p = concat ps \<and> chunks_ok chunk_size i ps \<and> src = framed seal key base_nonce aad i ps"
proof (induction "length src" arbitrary: src i p rule: less_induct)
  case less
  define n where "n = nat_of_be (take 4 src)"
  define rest where "rest = drop 4 src"
  note eq = less.prems(1) [unfolded decrypt_chunks.simps [of opn key base_nonce aad "int chunk_size" i src], folded n_def rest_def]
  have four: "length (take 4 src) = 4" using eq by (auto simp: integrity_error_def split: if_splits)
  have src: "src = be_bytes 4 (int n) @ rest" using be_bytes_nat_of_be [OF four] by (simp add: n_def rest_def)
  show ?case
  proof (cases "n = 0")
    case True
    with eq four have "rest = []" "p = []" by (auto simp: Let_def integrity_error_def split: if_splits)
    with src True less.prems(2) show ?thesis by (intro exI [of _ "[]"]) (simp add: chunks_ok_def)
  next
    case False
    let ?nonce = "take 8 base_nonce @ be_bytes 4 (int i)"
    have b: "n \<le> chunk_size" "length (take (n + 16) rest) = n + 16" "i < 2 ^ 32"
      using eq four False by (auto simp: Let_def integrity_error_def bindE_Inr chunk_nonce_Inr split: if_splits)
    obtain q more where q: "opn key ?nonce (take (n + 16) rest) (aad i n) = Some q" "p = q @ more"
      "decrypt_chunks opn key base_nonce aad (int chunk_size) (Suc i) (drop (n + 16) rest) = Inr more"
      using eq four False b by (auto simp: Let_def integrity_error_def bindE_Inr chunk_nonce_Inr split: if_splits option.splits)
    note laws = aead_lawsD [OF assms(1,2) chunk_nonce_length [OF assms(3)]]
    have c: "take (n + 16) rest = seal key ?nonce q (aad i n)" using q(1) laws(2) by blast
    with b(2) laws(1) have lq: "length q = n" by (metis add_right_cancel)
    have "length (drop (n + 16) rest) < length src" using four by (simp add: rest_def)
    from less.hyps [OF this q(3)] b(3) obtain ps where ps: "more = concat ps" "chunks_ok chunk_size (Suc i) ps"
      "drop (n + 16) rest = framed seal key base_nonce aad (Suc i) ps" by auto
    have "rest = seal key ?nonce q (aad i n) @ framed seal key base_nonce aad (Suc i) ps"
      using append_take_drop_id [of "n + 16" rest] unfolding c ps(3) by (rule sym)
    with src lq have "src = framed seal key base_nonce aad i (q # ps)" by simp
    moreover have "chunks_ok chunk_size i (q # ps)" using ps(2) lq b(1) False by (auto simp: chunks_ok_def)
    ultimately show ?thesis using q(2) ps(1) by (intro exI [of _ "q # ps"]) simp
  qed
qed

text \<open>The writer produces such a framing.\<close>

lemma encrypt_framed:
  assumes "0 < chunk_size"
  shows "encrypt_chunks seal key base_nonce aad chunk_size i src = Inr b \<Longrightarrow> i \<le> 2 ^ 32 \<Longrightarrow>
    \<exists>ps. src = concat ps \<and> chunks_ok chunk_size i ps \<and> b = framed seal key base_nonce aad i ps"
proof (induction "length src" arbitrary: src i b rule: less_induct)
  case less
  note eq = less.prems(1) [unfolded encrypt_chunks.simps [of seal key base_nonce aad chunk_size i src] Let_def]
  show ?case
  proof (cases "src = []")
    case True
    with eq less.prems(2) show ?thesis by (intro exI [of _ "[]"]) (simp add: pack_Inr chunks_ok_def)
  next
    case False
    then have "take chunk_size src \<noteq> []" using assms by simp
    with eq obtain rest where r: "i < 2 ^ 32"
      "encrypt_chunks seal key base_nonce aad chunk_size (Suc i) (drop chunk_size src) = Inr rest"
      "b = be_bytes 4 (int (length (take chunk_size src))) @
        seal key (take 8 base_nonce @ be_bytes 4 (int i)) (take chunk_size src) (aad i (length (take chunk_size src))) @ rest"
      by (auto simp: bindE_Inr chunk_nonce_Inr pack_Inr)
    have "length (drop chunk_size src) < length src" using False assms by simp
    from less.hyps [OF this r(2)] r(1) obtain ps where ps: "drop chunk_size src = concat ps" "chunks_ok chunk_size (Suc i) ps"
      "rest = framed seal key base_nonce aad (Suc i) ps" by auto
    have "src = concat (take chunk_size src # ps)" using ps(1) by (simp flip: ps(1))
    moreover have "chunks_ok chunk_size i (take chunk_size src # ps)" using ps(2) False assms by (simp add: chunks_ok_def)
    moreover have "b = framed seal key base_nonce aad i (take chunk_size src # ps)" unfolding r(3) ps(3) framed.simps by (rule refl)
    ultimately show ?thesis by blast
  qed
qed


lemma be4_inj: "m < 2 ^ 32 \<Longrightarrow> n < 2 ^ 32 \<Longrightarrow> be_bytes 4 (int m) = be_bytes 4 (int n) \<longleftrightarrow> m = n"
  using be_bytes_inj [of 4 "int m" "int n"] by auto

lemma be4_zero: "n < 2 ^ 32 \<Longrightarrow> n \<noteq> 0 \<Longrightarrow> be_bytes 4 0 \<noteq> be_bytes 4 (int n)"
  using be4_inj [of 0 n] by simp

text \<open>No framing is a proper beginning of another: cutting or extending one is noticed.\<close>

lemma framed_prefix_free:
  assumes "aead_laws seal opn" "length key = 32" "length base_nonce = 12" "chunk_size < 2 ^ 32"
  shows "chunks_ok chunk_size i ps \<Longrightarrow> chunks_ok chunk_size i qs \<Longrightarrow>
    framed seal key base_nonce aad i ps @ x = framed seal key base_nonce aad i qs \<Longrightarrow> x = []"
proof (induction ps arbitrary: i qs)
  case Nil
  show ?case
  proof (cases qs)
    case (Cons q qs')
    have "length q < 2 ^ 32" "q \<noteq> []" using Nil.prems(2) assms(4) by (auto simp: Cons chunks_ok_def)
    then have "be_bytes 4 0 \<noteq> be_bytes 4 (int (length q))" by (intro be4_zero) simp_all
    with Nil.prems(3) show ?thesis by (simp add: Cons append_eq_append_conv)
  qed (use Nil.prems(3) in simp)
next
  case (Cons p ps)
  have p: "length p < 2 ^ 32" "p \<noteq> []" using Cons.prems(1) assms(4) by (auto simp: chunks_ok_def)
  note laws = aead_lawsD(1) [OF assms(1,2) chunk_nonce_length [OF assms(3)]]
  show ?case
  proof (cases qs)
    case Nil
    have "be_bytes 4 0 \<noteq> be_bytes 4 (int (length p))" using p by (intro be4_zero) simp_all
    with arg_cong [OF Cons.prems(3), of "take 4"] show ?thesis by (simp add: Nil)
  next
    case (Cons q qs')
    have q: "length q < 2 ^ 32" using \<open>chunks_ok chunk_size i qs\<close> assms(4) by (auto simp: Cons chunks_ok_def)
    have "be_bytes 4 (int (length p)) = be_bytes 4 (int (length q))"
      using Cons.prems(3) by (simp add: Cons append_eq_append_conv)
    then have l: "length p = length q" using p(1) q by (simp only: be4_inj)
    have "framed seal key base_nonce aad (Suc i) ps @ x = framed seal key base_nonce aad (Suc i) qs'"
      using Cons.prems(3) by (simp add: Cons append_eq_append_conv laws l)
    moreover have "chunks_ok chunk_size (Suc i) ps" "chunks_ok chunk_size (Suc i) qs'"
      using Cons.prems(1,2) by (simp_all add: Cons chunks_ok_def)
    ultimately show ?thesis using Cons.IH by blast
  qed
qed

section \<open>Whole envelopes\<close>

lemma read_envelope_Inr:
  assumes "read_envelope opn key base_nonce m content = Inr p"
  shows "\<exists>n. 1 \<le> n \<and> int n \<le> MAX_CHUNK_SIZE \<and> content = ENVELOPE_MAGIC @ be_bytes 4 (int n) @ drop 8 content \<and>
    decrypt_chunks opn key base_nonce (\<lambda>i l. envelope_aad (em_case_id m) (em_digest m) (em_purpose m) i l n) (int n) 0 (drop 8 content) = Inr p"
proof -
  define size where "size = be_int (drop 4 (take 8 content))"
  note eq = assms [unfolded read_envelope_def Let_def, folded size_def]
  have h: "length (take 8 content) = 8" "take 4 content = ENVELOPE_MAGIC" "1 \<le> size" "size \<le> MAX_CHUNK_SIZE"
    using eq by (auto simp: integrity_error_def split: if_splits)
  have four: "length (drop 4 (take 8 content)) = 4" using h(1) by simp
  have "content = take 4 (take 8 content) @ drop 4 (take 8 content) @ drop 8 content"
    by (metis append_assoc append_take_drop_id)
  also have "take 4 (take 8 content) = ENVELOPE_MAGIC" using h(2) by (simp add: min_def)
  also have "drop 4 (take 8 content) = be_bytes 4 size" using four by (simp add: size_def)
  finally have c: "content = ENVELOPE_MAGIC @ be_bytes 4 size @ drop 8 content" .
  show ?thesis
    by (rule exI [of _ "nat size"]) (use eq h c in \<open>auto simp: integrity_error_def split: if_splits\<close>)
qed

lemma magic_length [simp]: "length ENVELOPE_MAGIC = 4"
  by (simp add: ENVELOPE_MAGIC_def b_lit_def)

lemma read_envelope_exact:
  assumes "aead_laws seal opn" "length key = 32" "length base_nonce = 12" "read_envelope opn key base_nonce m content = Inr p"
  shows "\<exists>n ps. 1 \<le> n \<and> int n \<le> MAX_CHUNK_SIZE \<and> p = concat ps \<and> chunks_ok n 0 ps \<and>
    content = ENVELOPE_MAGIC @ be_bytes 4 (int n) @
      framed seal key base_nonce (\<lambda>i l. envelope_aad (em_case_id m) (em_digest m) (em_purpose m) i l n) 0 ps"
proof -
  obtain n where n: "1 \<le> n" "int n \<le> MAX_CHUNK_SIZE" "content = ENVELOPE_MAGIC @ be_bytes 4 (int n) @ drop 8 content"
    "decrypt_chunks opn key base_nonce (\<lambda>i l. envelope_aad (em_case_id m) (em_digest m) (em_purpose m) i l n) (int n) 0 (drop 8 content) = Inr p"
    using read_envelope_Inr [OF assms(4)] by blast
  from decrypt_only_framed [OF assms(1-3) n(4)] obtain ps where ps: "p = concat ps" "chunks_ok n 0 ps"
    "drop 8 content = framed seal key base_nonce (\<lambda>i l. envelope_aad (em_case_id m) (em_digest m) (em_purpose m) i l n) 0 ps" by auto
  with n show ?thesis by metis
qed

lemma read_envelope_framed:
  assumes "aead_laws seal opn" "length key = 32" "length base_nonce = 12" "1 \<le> n" "int n \<le> MAX_CHUNK_SIZE" "chunks_ok n 0 ps"
  shows "read_envelope opn key base_nonce m (ENVELOPE_MAGIC @ be_bytes 4 (int n) @
    framed seal key base_nonce (\<lambda>i l. envelope_aad (em_case_id m) (em_digest m) (em_purpose m) i l n) 0 ps) = Inr (concat ps)"
proof -
  have n: "n < 2 ^ 32" using assms(5) by (simp add: MAX_CHUNK_SIZE_def)
  from decrypt_framed [OF assms(1-3) n assms(6)] n assms(4,5) show ?thesis
    by (simp add: read_envelope_def Let_def)
qed

text \<open>The same key and metadata never accept both an envelope and a longer one that begins with it.\<close>

lemma read_envelope_prefix_free:
  assumes "aead_laws seal opn" "length key = 32" "length base_nonce = 12"
    "read_envelope opn key base_nonce m content = Inr p" "read_envelope opn key base_nonce m (content @ x) = Inr q"
  shows "x = []"
proof -
  obtain n ps where a: "1 \<le> n" "int n \<le> MAX_CHUNK_SIZE" "chunks_ok n 0 ps" "content = ENVELOPE_MAGIC @ be_bytes 4 (int n) @
      framed seal key base_nonce (\<lambda>i l. envelope_aad (em_case_id m) (em_digest m) (em_purpose m) i l n) 0 ps"
    using read_envelope_exact [OF assms(1-4)] by blast
  obtain k qs where b: "1 \<le> k" "int k \<le> MAX_CHUNK_SIZE" "chunks_ok k 0 qs" "content @ x = ENVELOPE_MAGIC @ be_bytes 4 (int k) @
      framed seal key base_nonce (\<lambda>i l. envelope_aad (em_case_id m) (em_digest m) (em_purpose m) i l k) 0 qs"
    using read_envelope_exact [OF assms(1-3,5)] by blast
  have s: "n < 2 ^ 32" "k < 2 ^ 32" using a(2) b(2) by (simp_all add: MAX_CHUNK_SIZE_def)
  have "be_bytes 4 (int n) = be_bytes 4 (int k)" using b(4) unfolding a(4) by (simp add: append_eq_append_conv)
  then have "n = k" using s by (simp only: be4_inj)
  with a(4) b(4) have "framed seal key base_nonce (\<lambda>i l. envelope_aad (em_case_id m) (em_digest m) (em_purpose m) i l n) 0 ps @ x =
      framed seal key base_nonce (\<lambda>i l. envelope_aad (em_case_id m) (em_digest m) (em_purpose m) i l n) 0 qs" by simp
  with framed_prefix_free [OF assms(1-3) s(1) a(3)] b(3) \<open>n = k\<close> show ?thesis by blast
qed


section \<open>Through the files\<close>

lemma case_key_Inr:
  assumes "case_key env generated creds case_id = (creds1, Inr (reference, key))" "length generated = 32"
  shows "length key = 32 \<and> reference = credential_reference env case_id \<and> (\<exists>c cs. creds1 reference = Some (c # cs) \<and> b64decode (c # cs) = Some key)"
proof (cases "\<exists>c cs. creds (credential_reference env case_id) = Some (c # cs)")
  case True
  then obtain c cs where c: "creds (credential_reference env case_id) = Some (c # cs)" by blast
  with assms(1) show ?thesis
    by (auto simp: case_key_def Let_def split: option.splits if_splits)
next
  case False
  have "b64encode generated \<noteq> []" using assms(2) by (cases generated rule: b64encode.cases) auto
  then obtain c cs where c: "b64encode generated = c # cs" by (cases "b64encode generated") auto
  have "creds1 = creds(credential_reference env case_id \<mapsto> b64encode generated)" "reference = credential_reference env case_id" "key = generated"
    using assms(1) False by (auto simp: case_key_def Let_def split: option.splits list.splits)
  with c assms(2) b64decode_encode [of generated] show ?thesis by simp
qed

lemma case_key_creds:
  assumes "case_key env generated creds case_id = (creds1, r)"
  shows "creds1 x = creds x \<or> x = credential_reference env case_id"
  using assms by (auto simp: case_key_def Let_def split: option.splits list.splits)

lemma encrypt_file_cases:
  assumes "encrypt_file seal env staging base_nonce generated (files, creds) source encrypted case_id digest purpose = ((files', creds'), r)"
  obtains (Failed) e where "r = Inl e" "files' = files \<or> files' = files(staging := None)"
  | (Done) reference key content body where "case_key env generated creds case_id = (creds', Inr (reference, key))"
      "files source = Some content" "files staging = None"
      "envelope_bytes seal key base_nonce (ee_chunk_size env) case_id (py_lower digest) purpose content = Inr body"
      "sha256_hex content = py_lower digest" "files' = files(staging := None, encrypted := Some body)"
      "r = Inr \<lparr>em_case_id = case_id, em_digest = py_lower digest, em_purpose = purpose, em_credential_reference = reference,
         em_nonce = b64encode base_nonce, em_encrypted_path = encrypted, em_format_version = ENCRYPTION_FORMAT\<rparr>"
proof -
  obtain creds1 k where k: "case_key env generated creds case_id = (creds1, k)" by (cases "case_key env generated creds case_id")
  show ?thesis
  proof (cases k)
    case (Inl e)
    with assms k have "r = Inl e" "files' = files" by (simp_all add: encrypt_file_def)
    then show ?thesis using that(1) by blast
  next
    case (Inr rk)
    obtain reference key where rk: "k = Inr (reference, key)" using Inr by (cases rk) auto
    note eq = assms [unfolded encrypt_file_def prod.case Let_def k rk sum.case]
    consider "files source = None" | content where "files source = Some content" "files staging \<noteq> None"
      | content where "files source = Some content" "files staging = None" by blast
    then show ?thesis
    proof cases
      case 3
      show ?thesis
      proof (cases "envelope_bytes seal key base_nonce (ee_chunk_size env) case_id (py_lower digest) purpose content")
        case (Inl e)
        with eq 3 have "r = Inl e" "files' = files(staging := None)" by simp_all
        then show ?thesis using that(1) by blast
      next
        case (Inr body)
        show ?thesis
        proof (cases "sha256_hex content = py_lower digest")
          case True
          from that(2) [OF _ 3 _ True] eq 3 Inr True k rk show ?thesis by simp
        next
          case False
          with eq 3 Inr have "\<exists>e. r = Inl e" "files' = files(staging := None)" by auto
          then show ?thesis using that(1) by blast
        qed
      qed
    next
      case 1
      with eq have "\<exists>e. r = Inl e" "files' = files(staging := None)" by auto
      then show ?thesis using that(1) by blast
    next
      case 2
      with eq have "\<exists>e. r = Inl e" "files' = files(staging := None)" by auto
      then show ?thesis using that(1) by blast
    qed
  qed
qed

text \<open>
  A fresh staging name leaves no trace: on failure no file has changed, on success only the envelope
  has been written.
\<close>

lemma encrypt_file_effect:
  assumes "encrypt_file seal env staging base_nonce generated (files, creds) source encrypted case_id digest purpose = ((files', creds'), r)"
    "files staging = None"
  shows "case r of Inl _ \<Rightarrow> files' = files
    | Inr m \<Rightarrow> (\<exists>body. files' = files(encrypted := Some body)) \<and> em_encrypted_path m = encrypted \<and>
        (\<exists>content. files source = Some content \<and> sha256_hex content = em_digest m)"
  using assms(1)
proof (cases rule: encrypt_file_cases)
  case (Failed e)
  have "files(staging := None) = files" using assms(2) by (simp add: fun_upd_idem)
  with Failed show ?thesis by auto
next
  case (Done reference key content body)
  have "files(staging := None) = files" using assms(2) by (simp add: fun_upd_idem)
  with Done show ?thesis by auto
qed


lemma envelope_bytes_framed:
  assumes "0 < n" "envelope_bytes seal key base_nonce n case_id digest purpose content = Inr body"
  shows "\<exists>ps. content = concat ps \<and> chunks_ok n 0 ps \<and> body = ENVELOPE_MAGIC @ be_bytes 4 (int n) @
    framed seal key base_nonce (\<lambda>i l. envelope_aad case_id digest purpose i l n) 0 ps"
proof -
  obtain chunks where c: "encrypt_chunks seal key base_nonce (\<lambda>i l. envelope_aad case_id digest purpose i l n) n 0 content = Inr chunks"
    "body = ENVELOPE_MAGIC @ be_bytes 4 (int n) @ chunks"
    using assms(2) by (auto simp: envelope_bytes_def bindE_Inr pack_Inr)
  from encrypt_framed [OF assms(1) c(1)] c(2) show ?thesis by auto
qed

lemma envelope_file_roundtrip:
  assumes "aead_laws seal opn" "1 \<le> ee_chunk_size env" "int (ee_chunk_size env) \<le> MAX_CHUNK_SIZE" "length base_nonce = 12" "length generated = 32"
    and e: "encrypt_file seal env staging base_nonce generated (files, creds) source encrypted case_id digest purpose = ((files', creds'), Inr m)"
    and "output \<noteq> encrypted"
  shows "\<exists>content. files source = Some content \<and> decrypt_file opn (files', creds') m output = (files'(output := Some content), Inr output)"
  using e
proof (cases rule: encrypt_file_cases)
  case (Done reference key content body)
  note k = case_key_Inr [OF Done(1) assms(5)]
  obtain c cs where c: "creds' reference = Some (c # cs)" "b64decode (c # cs) = Some key" using k by blast
  have m: "em_credential_reference m = reference" "em_nonce m = b64encode base_nonce" "em_encrypted_path m = encrypted"
    "em_format_version m = ENCRYPTION_FORMAT" "em_digest m = py_lower digest" "em_case_id m = case_id" "em_purpose m = purpose"
    using Done(7) by auto
  have n: "0 < ee_chunk_size env" using assms(2) by simp
  obtain ps where ps: "content = concat ps" "chunks_ok (ee_chunk_size env) 0 ps"
    "body = ENVELOPE_MAGIC @ be_bytes 4 (int (ee_chunk_size env)) @
       framed seal key base_nonce (\<lambda>i l. envelope_aad case_id (py_lower digest) purpose i l (ee_chunk_size env)) 0 ps"
    using envelope_bytes_framed [OF n Done(4)] by blast
  have "length key = 32" using k by blast
  from read_envelope_framed [OF assms(1) this assms(4,2,3) ps(2), of m]
  have r: "read_envelope opn key base_nonce m body = Inr content" by (simp add: ps(1,3) m)
  have b: "files' encrypted = Some body" using Done(6) by simp
  have "decrypt_file opn (files', creds') m output = (files'(output := Some content), Inr output)"
    using k c r b assms(4,7) Done(5) by (simp add: decrypt_file_def m)
  with Done(2) show ?thesis by blast
qed simp

text \<open>
  Decryption touches only its output, leaves nothing there when it fails after opening it, and yields only
  text with the recorded digest.
\<close>

lemma decrypt_file_cases:
  assumes "decrypt_file opn (files, creds) m output = (files', r)"
  obtains (Refused) e where "r = Inl e" "files' = files"
  | (Failed) e where "r = Inl e" "files' = files(output := None)"
  | (Done) secret key base_nonce body plaintext where "creds (em_credential_reference m) = Some secret" "b64decode secret = Some key"
      "b64decode (em_nonce m) = Some base_nonce" "length key = 32" "length base_nonce = 12"
      "files (em_encrypted_path m) = Some body" "output \<noteq> em_encrypted_path m"
      "read_envelope opn key base_nonce m body = Inr plaintext" "sha256_hex plaintext = em_digest m"
      "files' = files(output := Some plaintext)" "r = Inr output"
proof (cases "em_format_version m = ENCRYPTION_FORMAT")
  case False
  with assms have "\<exists>e. r = Inl e" "files' = files" by (auto simp: decrypt_file_def integrity_error_def)
  then show thesis using that(1) by blast
next
  case format: True
  show thesis
  proof (cases "\<exists>c cs key base_nonce. creds (em_credential_reference m) = Some (c # cs) \<and> b64decode (c # cs) = Some key \<and>
      b64decode (em_nonce m) = Some base_nonce \<and> length key = 32 \<and> length base_nonce = 12")
    case False
    with assms format have "\<exists>e. r = Inl e" "files' = files"
      by (auto simp: decrypt_file_def split: option.splits list.splits if_splits)
    then show thesis using that(1) by blast
  next
    case True
    then obtain c cs key base_nonce where k: "creds (em_credential_reference m) = Some (c # cs)" "b64decode (c # cs) = Some key"
      "b64decode (em_nonce m) = Some base_nonce" "length key = 32" "length base_nonce = 12" by blast
    show thesis
    proof (cases "files (em_encrypted_path m)")
      case None
      with assms format k have "\<exists>e. r = Inl e" "files' = files(output := None)" by (auto simp: decrypt_file_def)
      then show thesis using that(2) by blast
    next
      case (Some body)
      let ?src = "if output = em_encrypted_path m then [] else body"
      have empty: "\<not> is_ok (read_envelope opn key base_nonce m [])" by (simp add: read_envelope_def integrity_error_def)
      show thesis
      proof (cases "read_envelope opn key base_nonce m ?src")
        case (Inl e)
        with assms format k Some have "r = Inl e" "files' = files(output := None)" by (simp_all add: decrypt_file_def)
        then show thesis using that(2) by blast
      next
        case (Inr plaintext)
        with empty have o: "output \<noteq> em_encrypted_path m" by (auto split: if_splits)
        show thesis
        proof (cases "sha256_hex plaintext = em_digest m")
          case True
          with assms format k Some Inr o have "files' = files(output := Some plaintext)" "r = Inr output" by (simp_all add: decrypt_file_def)
          with that(3) k Some o Inr True show thesis by simp
        next
          case False
          with assms format k Some Inr o have "\<exists>e. r = Inl e" "files' = files(output := None)"
            by (auto simp: decrypt_file_def integrity_error_def)
          then show thesis using that(2) by blast
        qed
      qed
    qed
  qed
qed

lemma decrypt_file_effect:
  assumes "decrypt_file opn (files, creds) m output = (files', r)"
  shows "(\<forall>x. x \<noteq> output \<longrightarrow> files' x = files x) \<and>
    (case r of Inl _ \<Rightarrow> files' output = files output \<or> files' output = None
     | Inr p \<Rightarrow> p = output \<and> (\<exists>plaintext. files' output = Some plaintext \<and> sha256_hex plaintext = em_digest m))"
  using assms by (cases rule: decrypt_file_cases) auto

text \<open>The removal does not ask who wrote the output: an older file there is lost when the envelope is missing.\<close>

lemma missing_envelope_removes_output:
  assumes "em_format_version m = ENCRYPTION_FORMAT" "creds (em_credential_reference m) = Some (b64encode key)" "length key = 32"
    "em_nonce m = b64encode base_nonce" "length base_nonce = 12" "files (em_encrypted_path m) = None"
  shows "decrypt_file opn (files, creds) m output = (files(output := None), Inl FileNotFoundError)"
proof -
  have "b64encode key \<noteq> []" using assms(3) by (cases key rule: b64encode.cases) auto
  then obtain c cs where c: "b64encode key = c # cs" by (cases "b64encode key") auto
  with b64decode_encode [of key] have "b64decode (c # cs) = Some key" by simp
  with assms c show ?thesis by (simp add: decrypt_file_def)
qed

section \<open>Encryption succeeds\<close>

lemma encrypt_chunks_total:
  assumes "0 < chunk_size" "chunk_size < 2 ^ 32"
  shows "length src \<le> (2 ^ 32 - i) * chunk_size \<Longrightarrow> \<exists>b. encrypt_chunks seal key base_nonce aad chunk_size i src = Inr b"
proof (induction "length src" arbitrary: src i rule: less_induct)
  case less
  show ?case
  proof (cases "src = []")
    case True
    then show ?thesis by (subst encrypt_chunks.simps) (simp add: pack_def)
  next
    case False
    then have i: "i < 2 ^ 32" using less.prems by (cases "i < 2 ^ 32") simp_all
    have n: "int (length (take chunk_size src)) < 256 ^ 4" using assms(2) by (simp add: min_def)
    have "(2 ^ 32 - i) * chunk_size = (2 ^ 32 - Suc i) * chunk_size + chunk_size"
    proof -
      have "2 ^ 32 - i = Suc (2 ^ 32 - Suc i)" using i by simp
      then show ?thesis by (simp only: mult_Suc add.commute)
    qed
    then have "length (drop chunk_size src) \<le> (2 ^ 32 - Suc i) * chunk_size" using less.prems by simp
    with less.hyps [of "drop chunk_size src" "Suc i"] False assms(1) obtain b where
      "encrypt_chunks seal key base_nonce aad chunk_size (Suc i) (drop chunk_size src) = Inr b" by auto
    then show ?thesis using i n False assms(1)
      by (subst encrypt_chunks.simps) (simp add: Let_def chunk_nonce_def pack_def)
  qed
qed

lemma lower_hex_char: "d < 16 \<Longrightarrow> lower_char (hex_char d) = hex_char d"
  by (auto simp: lower_char_def hex_char_def Let_def)

lemma lower_show_hex: "py_lower (show_hex w n) = show_hex w n"
  by (induction w arbitrary: n) (simp_all add: py_lower_def lower_hex_char)

lemma lower_sha256_hex [simp]: "py_lower (sha256_hex m) = sha256_hex m"
  using lower_show_hex [unfolded py_lower_def] by (simp add: sha256_hex_def bytes_hex_def py_lower_def map_concat comp_def)

text \<open>With the right digest, a usable key and not too long a source, encryption succeeds.\<close>

lemma encrypt_file_total:
  assumes "1 \<le> ee_chunk_size env" "int (ee_chunk_size env) \<le> MAX_CHUNK_SIZE" "is_ok (snd (case_key env generated creds case_id))"
    "files source = Some content" "files staging = None" "py_lower digest = sha256_hex content" "length content \<le> 2 ^ 32 * ee_chunk_size env"
  shows "\<exists>files' creds' m. encrypt_file seal env staging base_nonce generated (files, creds) source encrypted case_id digest purpose = ((files', creds'), Inr m)"
proof -
  obtain creds1 reference key where k: "case_key env generated creds case_id = (creds1, Inr (reference, key))"
    using assms(3) by (cases "case_key env generated creds case_id") (auto simp: is_ok_iff)
  have c: "0 < ee_chunk_size env" "ee_chunk_size env < 2 ^ 32" using assms(1,2) by (simp_all add: MAX_CHUNK_SIZE_def)
  obtain b where "encrypt_chunks seal key base_nonce (\<lambda>i n. envelope_aad case_id (py_lower digest) purpose i n (ee_chunk_size env)) (ee_chunk_size env) 0 content = Inr b"
    using encrypt_chunks_total [OF c, where i = 0] assms(7) by fastforce
  then obtain body where "envelope_bytes seal key base_nonce (ee_chunk_size env) case_id (py_lower digest) purpose content = Inr body"
    using c by (simp add: envelope_bytes_def pack_def)
  then show ?thesis using k assms(4-6) by (simp add: encrypt_file_def)
qed
section \<open>A scheme that satisfies the laws\<close>

text \<open>A checksum of the key, the nonce, the text and the associated data in place of the tag.\<close>

definition tagged_seal :: seal_fun where
  "tagged_seal key nonce p a = p @ take 16 (sha256 (key @ nonce @ p @ a))"

definition tagged_open :: open_fun where
  "tagged_open key nonce c a =
     (let p = take (length c - 16) c in if 16 \<le> length c \<and> c = tagged_seal key nonce p a then Some p else None)"

lemma tagged_laws: "aead_laws tagged_seal tagged_open"
  by (auto simp: aead_laws_def tagged_seal_def tagged_open_def Let_def)

end
