(* ===== verification/IpNetwork.thy ===== *)
theory IpNetwork imports PyText PyBytes begin

text \<open>
  The part of the standard library's \<open>ipaddress\<close> that a CIDR filter uses:
  \<open>ip_network(text, strict=False)\<close>, tried as IPv4 and then as IPv6, with its prefix length, netmask or
  hostmask.  A network is its version and the numbers of its lowest and highest address.  Every
  error of the module is a \<open>ValueError\<close> the caller replaces by its own, so a parser returns an option.
  The lemmas show that the range is aligned, has a power of two addresses and contains the address
  that was written.
\<close>

fun py_split :: "char \<Rightarrow> string \<Rightarrow> string list" where
  "py_split sep [] = [[]]"
| "py_split sep (c # s) = (if c = sep then [] # py_split sep s
     else (case py_split sep s of [] \<Rightarrow> [[c]] | p # ps \<Rightarrow> (c # p) # ps))"

definition is_digit_char :: "char \<Rightarrow> bool" where
  "is_digit_char c = (let n = (of_char c :: nat) in 48 \<le> n \<and> n \<le> 57)"

definition digit_value :: "char \<Rightarrow> nat" where
  "digit_value c = of_char c - 48"

definition decimal_value :: "string \<Rightarrow> nat" where
  "decimal_value s = foldl (\<lambda>n c. 10 * n + digit_value c) 0 s"

definition is_decimal :: "string \<Rightarrow> bool" where
  "is_decimal s \<longleftrightarrow> s \<noteq> [] \<and> list_all is_digit_char s"

section \<open>Addresses\<close>

definition parse_octet :: "string \<Rightarrow> nat option" where
  "parse_octet s =
     (if \<not> is_decimal s \<or> length s > 3 \<or> (s \<noteq> ''0'' \<and> hd s = CHR ''0'') \<or> decimal_value s > 255 then None
      else Some (decimal_value s))"

fun map_opt :: "('a \<Rightarrow> 'b option) \<Rightarrow> 'a list \<Rightarrow> 'b list option" where
  "map_opt f [] = Some []"
| "map_opt f (x # xs) = (case f x of None \<Rightarrow> None | Some y \<Rightarrow> map_option (Cons y) (map_opt f xs))"

definition from_digits :: "nat \<Rightarrow> nat list \<Rightarrow> nat" where
  "from_digits base ds = foldl (\<lambda>n d. base * n + d) 0 ds"

definition parse_ipv4_address :: "string \<Rightarrow> nat option" where
  "parse_ipv4_address s =
     (let octets = py_split (CHR ''.'') s in
      if length octets \<noteq> 4 then None else map_option (from_digits 256) (map_opt parse_octet octets))"

definition hex_digit_value :: "char \<Rightarrow> nat option" where
  "hex_digit_value c = (let n = (of_char c :: nat) in
     if 48 \<le> n \<and> n \<le> 57 then Some (n - 48)
     else if 97 \<le> n \<and> n \<le> 102 then Some (n - 87)
     else if 65 \<le> n \<and> n \<le> 70 then Some (n - 55) else None)"

text \<open>\<open>int('', 16)\<close> raises, so an empty part is no hextet.\<close>

definition parse_hextet :: "string \<Rightarrow> nat option" where
  "parse_hextet s = (if s = [] \<or> length s > 4 then None else map_option (from_digits 16) (map_opt hex_digit_value s))"

text \<open>The parts between the colons: text, or a hextet that came from a dotted suffix.\<close>

datatype v6_part = TextPart string | HextetPart nat

definition part_empty :: "v6_part \<Rightarrow> bool" where
  "part_empty p \<longleftrightarrow> p = TextPart []"

definition part_value :: "v6_part \<Rightarrow> nat option" where
  "part_value p = (case p of TextPart s \<Rightarrow> parse_hextet s | HextetPart n \<Rightarrow> Some n)"

definition v6_parts :: "string \<Rightarrow> v6_part list option" where
  "v6_parts s =
     (let parts = py_split (CHR '':'') s in
      if s = [] \<or> length parts < 3 then None
      else if CHR ''.'' \<in> set (last parts) then
        map_option (\<lambda>n. map TextPart (butlast parts) @ [HextetPart (n div 65536), HextetPart (n mod 65536)])
          (parse_ipv4_address (last parts))
      else Some (map TextPart parts))"

text \<open>The indices strictly inside the list whose part is empty: the place of a double colon.\<close>

definition inner_gaps :: "v6_part list \<Rightarrow> nat list" where
  "inner_gaps parts = filter (\<lambda>i. part_empty (parts ! i)) [1..<length parts - 1]"

definition expand_parts :: "v6_part list \<Rightarrow> v6_part list option" where
  "expand_parts parts =
     (if length parts > 9 then None
      else case inner_gaps parts of
        [] \<Rightarrow> (if length parts \<noteq> 8 then None else Some parts)
      | [i] \<Rightarrow>
          (let hi = (if part_empty (hd parts) then i - 1 else i);
               lo = (if part_empty (last parts) then length parts - i - 2 else length parts - i - 1)
           in if part_empty (hd parts) \<and> hi \<noteq> 0 then None
              else if part_empty (last parts) \<and> lo \<noteq> 0 then None
              else if hi + lo \<ge> 8 then None
              else Some (take hi parts @ replicate (8 - (hi + lo)) (HextetPart 0) @ drop (length parts - lo) parts))
      | _ \<Rightarrow> None)"

definition parse_ipv6_number :: "string \<Rightarrow> nat option" where
  "parse_ipv6_number s =
     (case v6_parts s of None \<Rightarrow> None
      | Some parts \<Rightarrow> (case expand_parts parts of None \<Rightarrow> None
          | Some full \<Rightarrow> map_option (from_digits 65536) (map_opt part_value full)))"

text \<open>The zone after a percent sign is dropped; it must be a single non-empty word.\<close>

definition parse_ipv6_address :: "string \<Rightarrow> nat option" where
  "parse_ipv6_address s =
     (case py_split (CHR ''%'') s of
        [host] \<Rightarrow> parse_ipv6_number host
      | [host, zone] \<Rightarrow> (if zone = [] then None else parse_ipv6_number host)
      | _ \<Rightarrow> None)"

section \<open>Networks\<close>

definition parse_prefix :: "nat \<Rightarrow> string \<Rightarrow> nat option" where
  "parse_prefix width s = (if is_decimal s \<and> decimal_value s \<le> width then Some (decimal_value s) else None)"

text \<open>The prefix length whose netmask is the number.\<close>

definition prefix_of_mask :: "nat \<Rightarrow> nat option" where
  "prefix_of_mask m = find (\<lambda>p. m = (2 ^ p - 1) * 2 ^ (32 - p)) [0..<33]"

definition parse_mask :: "string \<Rightarrow> nat option" where
  "parse_mask s =
     (case parse_prefix 32 s of
        Some p \<Rightarrow> Some p
      | None \<Rightarrow> (case parse_ipv4_address s of None \<Rightarrow> None
          | Some m \<Rightarrow> (case prefix_of_mask m of Some p \<Rightarrow> Some p | None \<Rightarrow> prefix_of_mask (2 ^ 32 - 1 - m))))"

record network =
  net_version :: int
  net_first :: nat
  net_last :: nat

text \<open>The network of an address of \<open>width\<close> bits and a prefix length, host bits dropped.\<close>

definition network_of :: "int \<Rightarrow> nat \<Rightarrow> nat \<Rightarrow> nat \<Rightarrow> network" where
  "network_of version width address prefix =
     (let n = 2 ^ (width - prefix); low = address - address mod n in
      \<lparr>net_version = version, net_first = low, net_last = low + (n - 1)\<rparr>)"

definition ipv4_network :: "string \<Rightarrow> network option" where
  "ipv4_network s =
     (case py_split (CHR ''/'') s of
        [host] \<Rightarrow> map_option (\<lambda>a. network_of 4 32 a 32) (parse_ipv4_address host)
      | [host, suffix] \<Rightarrow> (case parse_ipv4_address host of None \<Rightarrow> None
          | Some a \<Rightarrow> map_option (network_of 4 32 a) (parse_mask suffix))
      | _ \<Rightarrow> None)"

definition ipv6_network :: "string \<Rightarrow> network option" where
  "ipv6_network s =
     (case py_split (CHR ''/'') s of
        [host] \<Rightarrow> map_option (\<lambda>a. network_of 6 128 a 128) (parse_ipv6_address host)
      | [host, suffix] \<Rightarrow> (case parse_ipv6_address host of None \<Rightarrow> None
          | Some a \<Rightarrow> map_option (network_of 6 128 a) (parse_prefix 128 suffix))
      | _ \<Rightarrow> None)"

definition ip_network :: "string \<Rightarrow> network option" where
  "ip_network s = (case ipv4_network s of Some n \<Rightarrow> Some n | None \<Rightarrow> ipv6_network s)"

definition address_bytes :: "network \<Rightarrow> nat" where
  "address_bytes n = (if net_version n = 4 then 4 else 16)"

text \<open>\<open>network_address.packed\<close> and \<open>broadcast_address.packed\<close>\<close>

definition packed_first :: "network \<Rightarrow> bytes" where
  "packed_first n = be_bytes (address_bytes n) (int (net_first n))"

definition packed_last :: "network \<Rightarrow> bytes" where
  "packed_last n = be_bytes (address_bytes n) (int (net_last n))"

section \<open>The range of a network\<close>

definition network_ok :: "network \<Rightarrow> bool" where
  "network_ok n \<longleftrightarrow> net_version n \<in> {4, 6} \<and> net_first n \<le> net_last n \<and> net_last n < 256 ^ address_bytes n \<and>
     (\<exists>k. net_last n - net_first n + 1 = 2 ^ k \<and> 2 ^ k dvd net_first n)"

lemma from_digits_snoc: "from_digits b (ds @ [d]) = b * from_digits b ds + d"
  by (simp add: from_digits_def)

lemma from_digits_less: "list_all (\<lambda>d. d < b) ds \<Longrightarrow> from_digits b ds < b ^ length ds"
proof (induction ds rule: rev_induct)
  case Nil
  then show ?case by (simp add: from_digits_def)
next
  case (snoc d ds)
  then have "from_digits b ds + 1 \<le> b ^ length ds" "d < b" by simp_all
  then have "b * (from_digits b ds + 1) \<le> b * b ^ length ds" by (intro mult_le_mono2)
  with \<open>d < b\<close> show ?case by (simp add: from_digits_snoc)
qed

lemma map_opt_Some: "map_opt f xs = Some ys \<Longrightarrow> length ys = length xs \<and> list_all2 (\<lambda>x y. f x = Some y) xs ys"
  by (induction xs arbitrary: ys) (auto split: option.splits)

lemma map_opt_all:
  assumes "map_opt f xs = Some ys" and "\<And>x y. x \<in> set xs \<Longrightarrow> f x = Some y \<Longrightarrow> P y"
  shows "list_all P ys"
  unfolding list_all_length
proof (intro allI impI)
  fix i assume i: "i < length ys"
  note m = map_opt_Some [OF assms(1)]
  from list_all2_nthD2 [OF conjunct2 [OF m] i] have "f (xs ! i) = Some (ys ! i)" .
  moreover have "i < length xs" using i conjunct1 [OF m] by simp
  ultimately show "P (ys ! i)" by (intro assms(2) [OF nth_mem])
qed

lemma parse_ipv4_bound: "parse_ipv4_address s = Some a \<Longrightarrow> a < 2 ^ 32"
proof -
  assume "parse_ipv4_address s = Some a"
  then obtain ds where d: "length (py_split (CHR ''.'') s) = 4" "map_opt parse_octet (py_split (CHR ''.'') s) = Some ds"
      "a = from_digits 256 ds"
    by (auto simp: parse_ipv4_address_def Let_def split: if_splits)
  have "list_all (\<lambda>d. d < 256) ds" by (rule map_opt_all [OF d(2)]) (auto simp: parse_octet_def split: if_splits)
  from from_digits_less [OF this] map_opt_Some [OF d(2)] d(1,3) show ?thesis by simp
qed

lemma hextet_bound: "parse_hextet s = Some n \<Longrightarrow> n < 65536"
proof -
  assume "parse_hextet s = Some n"
  then obtain ds where d: "length s \<le> 4" "map_opt hex_digit_value s = Some ds" "n = from_digits 16 ds"
    by (auto simp: parse_hextet_def split: if_splits)
  have "list_all (\<lambda>d. d < 16) ds" by (rule map_opt_all [OF d(2)]) (auto simp: hex_digit_value_def Let_def split: if_splits)
  from from_digits_less [OF this] d map_opt_Some [OF d(2)] have "n < 16 ^ length s" by simp
  also have "\<dots> \<le> 16 ^ 4" using d(1) by (intro power_increasing) simp_all
  finally show ?thesis by simp
qed

definition small_part :: "v6_part \<Rightarrow> bool" where
  "small_part p \<longleftrightarrow> (case p of TextPart _ \<Rightarrow> True | HextetPart n \<Rightarrow> n < 65536)"

lemma v6_parts_small: "v6_parts s = Some parts \<Longrightarrow> list_all small_part parts"
proof -
  have t: "list_all small_part (map TextPart xs)" for xs by (simp add: small_part_def list_all_iff)
  assume p: "v6_parts s = Some parts"
  show ?thesis
  proof (cases "CHR ''.'' \<in> set (last (py_split (CHR '':'') s))")
    case False
    with p t show ?thesis by (auto simp: v6_parts_def Let_def split: if_splits)
  next
    case True
    with p obtain n where n: "parse_ipv4_address (last (py_split (CHR '':'') s)) = Some n"
        "parts = map TextPart (butlast (py_split (CHR '':'') s)) @ [HextetPart (n div 65536), HextetPart (n mod 65536)]"
      by (auto simp: v6_parts_def Let_def split: if_splits)
    have "n div 65536 < 65536" using parse_ipv4_bound [OF n(1)] by (simp add: less_mult_imp_div_less)
    then show ?thesis unfolding n(2) list_all_append using t by (simp add: small_part_def)
  qed
qed

lemma expand_parts_ok:
  assumes "expand_parts parts = Some full" "list_all small_part parts"
  shows "length full = 8 \<and> list_all small_part full"
proof (cases "inner_gaps parts")
  case Nil
  with assms show ?thesis by (auto simp: expand_parts_def split: if_splits)
next
  case (Cons i js)
  with assms(1) have "js = []" by (cases js) (auto simp: expand_parts_def split: if_splits)
  with Cons have g: "inner_gaps parts = [i]" by simp
  then have "i \<in> set (inner_gaps parts)" by simp
  then have i: "0 < i" "i < length parts - 1" by (auto simp: inner_gaps_def)
  define hi where "hi = (if part_empty (hd parts) then i - 1 else i)"
  define lo where "lo = (if part_empty (last parts) then length parts - i - 2 else length parts - i - 1)"
  have f: "full = take hi parts @ replicate (8 - (hi + lo)) (HextetPart 0) @ drop (length parts - lo) parts" "hi + lo < 8"
    using assms(1) g by (auto simp: expand_parts_def hi_def lo_def Let_def split: if_splits)
  have l: "hi \<le> length parts" "lo \<le> length parts" using i by (auto simp: hi_def lo_def)
  have "list_all small_part (take n parts)" "list_all small_part (drop n parts)" for n
    using assms(2) by (auto simp: list_all_iff dest: in_set_takeD in_set_dropD)
  moreover have "list_all small_part (replicate n (HextetPart 0))" for n by (simp add: list_all_iff small_part_def)
  ultimately show ?thesis using f l by simp
qed

lemma parse_ipv6_number_bound: "parse_ipv6_number s = Some a \<Longrightarrow> a < 2 ^ 128"
proof -
  assume "parse_ipv6_number s = Some a"
  then obtain parts full ds where d: "v6_parts s = Some parts" "expand_parts parts = Some full" "map_opt part_value full = Some ds"
      "a = from_digits 65536 ds"
    by (auto simp: parse_ipv6_number_def split: option.splits)
  note e = expand_parts_ok [OF d(2) v6_parts_small [OF d(1)]]
  have "list_all (\<lambda>d. d < 65536) ds"
    by (rule map_opt_all [OF d(3)]) (use e in \<open>auto simp: part_value_def small_part_def list_all_iff hextet_bound split: v6_part.splits\<close>)
  from from_digits_less [OF this] map_opt_Some [OF d(3)] e d(4) show ?thesis by simp
qed

lemma parse_ipv6_bound: "parse_ipv6_address s = Some a \<Longrightarrow> a < 2 ^ 128"
  by (auto simp: parse_ipv6_address_def dest: parse_ipv6_number_bound split: list.splits if_splits)

text \<open>The range is the aligned block of the address.\<close>

lemma network_of_range:
  assumes "p \<le> w" "a < 2 ^ w"
  shows "net_first (network_of v w a p) \<le> a" "a \<le> net_last (network_of v w a p)"
    "net_last (network_of v w a p) < 2 ^ w" "2 ^ (w - p) dvd net_first (network_of v w a p)"
    "net_last (network_of v w a p) - net_first (network_of v w a p) + 1 = 2 ^ (w - p)"
    "net_version (network_of v w a p) = v"
proof -
  let ?n = "2 ^ (w - p) :: nat"
  have n: "0 < ?n" by simp
  have low: "a - a mod ?n = ?n * (a div ?n)" by (simp add: minus_mod_eq_mult_div)
  have dv: "a div ?n < 2 ^ p"
  proof -
    have "a < 2 ^ p * ?n" using assms by (simp flip: power_add)
    then show ?thesis by (rule less_mult_imp_div_less)
  qed
  then have "?n * (a div ?n + 1) \<le> ?n * 2 ^ p" by (intro mult_le_mono2) simp
  moreover have "?n * 2 ^ p = 2 ^ w" using assms(1) by (simp flip: power_add)
  ultimately have up: "?n * (a div ?n) + ?n \<le> 2 ^ w" by simp
  have "a mod ?n < ?n" using n by (rule mod_less_divisor)
  moreover have "?n * (a div ?n) + a mod ?n = a" by simp
  ultimately show "net_first (network_of v w a p) \<le> a" "a \<le> net_last (network_of v w a p)"
    "net_last (network_of v w a p) < 2 ^ w" "2 ^ (w - p) dvd net_first (network_of v w a p)"
    "net_last (network_of v w a p) - net_first (network_of v w a p) + 1 = 2 ^ (w - p)"
    "net_version (network_of v w a p) = v"
    using n up unfolding network_of_def Let_def low by (simp_all, linarith+)
qed

lemma network_of_ok:
  assumes "p \<le> w" "a < 2 ^ w" "(v = 4 \<and> w = 32) \<or> (v = 6 \<and> w = 128)"
  shows "network_ok (network_of v w a p)"
proof -
  note r = network_of_range [OF assms(1,2), of v]
  have "address_bytes (network_of v w a p) * 8 = w" using assms(3) by (auto simp: address_bytes_def r(6))
  then have "(256 :: nat) ^ address_bytes (network_of v w a p) = 2 ^ w"
    using power_mult [of "2 :: nat" 8 "address_bytes (network_of v w a p)"] by (simp add: mult.commute)
  with r assms(3) show ?thesis unfolding network_ok_def by (intro conjI exI [of _ "w - p"]) auto
qed

lemma prefix_of_mask_bound: "prefix_of_mask m = Some p \<Longrightarrow> p \<le> 32"
  by (auto simp: prefix_of_mask_def find_Some_iff)

lemma parse_mask_bound: "parse_mask s = Some p \<Longrightarrow> p \<le> 32"
  by (auto simp: parse_mask_def parse_prefix_def dest: prefix_of_mask_bound split: option.splits if_splits)

lemma parse_prefix_bound: "parse_prefix w s = Some p \<Longrightarrow> p \<le> w"
  by (auto simp: parse_prefix_def split: if_splits)

text \<open>Every network the parser returns is the block of an address with a prefix length.\<close>

lemma ip_network_block:
  assumes "ip_network s = Some n"
  obtains v w a p where "n = network_of v w a p" "p \<le> w" "a < 2 ^ w" "(v = 4 \<and> w = 32) \<or> (v = 6 \<and> w = 128)"
proof (cases "ipv4_network s")
  case (Some m)
  obtain a p where "m = network_of 4 32 a p" "parse_ipv4_address (hd (py_split (CHR ''/'') s)) = Some a" "p \<le> 32"
    using Some by (auto simp: ipv4_network_def dest: parse_mask_bound split: list.splits option.splits)
  with that Some assms parse_ipv4_bound show ?thesis by (auto simp: ip_network_def)
next
  case None
  then have n: "ipv6_network s = Some n" using assms by (simp add: ip_network_def)
  obtain a p where "n = network_of 6 128 a p" "parse_ipv6_address (hd (py_split (CHR ''/'') s)) = Some a" "p \<le> 128"
    using n by (auto simp: ipv6_network_def dest: parse_prefix_bound split: list.splits option.splits)
  with that parse_ipv6_bound show ?thesis by auto
qed

section \<open>Comparing packed addresses\<close>

lemma lex_snoc:
  "length xs = length ys \<Longrightarrow> (xs @ [x] \<le> ys @ [y :: 'a :: linorder]) \<longleftrightarrow> xs < ys \<or> (xs = ys \<and> x \<le> y)"
  by (induction xs ys rule: list_induct2) auto

lemma lex_less: "(xs :: 'a :: linorder list) < ys \<longleftrightarrow> xs \<le> ys \<and> xs \<noteq> ys"
  by (simp add: less_le)

text \<open>Byte strings of one length compare like the numbers they spell.\<close>

lemma be_bytes_order:
  "0 \<le> a \<Longrightarrow> 0 \<le> b \<Longrightarrow> a < 256 ^ n \<Longrightarrow> b < 256 ^ n \<Longrightarrow> be_bytes n a \<le> be_bytes n b \<longleftrightarrow> a \<le> b"
proof (induction n arbitrary: a b)
  case (Suc n)
  have d: "a div 256 < 256 ^ n" "b div 256 < 256 ^ n" "0 \<le> a div 256" "0 \<le> b div 256" using Suc.prems by auto
  have e: "be_bytes n (a div 256) = be_bytes n (b div 256) \<longleftrightarrow> a div 256 = b div 256"
    using be_bytes_inj [of n "a div 256" "b div 256"] d by auto
  have m: "((word_of_int a :: 8 word) \<le> word_of_int b) \<longleftrightarrow> a mod 256 \<le> b mod 256"
    by (simp add: word_le_def uint_word_of_int)
  have "a = 256 * (a div 256) + a mod 256" "b = 256 * (b div 256) + b mod 256" "0 \<le> a mod 256" "0 \<le> b mod 256" "a mod 256 < 256" "b mod 256 < 256" by simp_all
  then have "a \<le> b \<longleftrightarrow> a div 256 < b div 256 \<or> (a div 256 = b div 256 \<and> a mod 256 \<le> b mod 256)" by linarith
  then show ?case using Suc.IH [OF d(3,4,1,2)] e
    by (auto simp: lex_snoc m lex_less)
qed simp

text \<open>The \<open>BETWEEN\<close> of a CIDR filter selects exactly the addresses of the block.\<close>

lemma packed_range_exact:
  assumes "p \<le> w" "a < 2 ^ w" "(v = 4 \<and> w = 32) \<or> (v = 6 \<and> w = 128)" "x < 2 ^ w"
  defines "n \<equiv> network_of v w a p"
  shows "packed_first n \<le> be_bytes (address_bytes n) (int x) \<and> be_bytes (address_bytes n) (int x) \<le> packed_last n \<longleftrightarrow>
    x div 2 ^ (w - p) = a div 2 ^ (w - p)"
proof -
  let ?k = "2 ^ (w - p) :: nat"
  note r = network_of_range [OF assms(1,2), of v, folded n_def]
  have "address_bytes n * 8 = w" using assms(3) by (auto simp: address_bytes_def r(6))
  then have "(256 :: nat) ^ address_bytes n = 2 ^ w"
    using power_mult [of "2 :: nat" 8 "address_bytes n"] by (simp add: mult.commute)
  then have z: "int y < 256 ^ address_bytes n" if "y < 2 ^ w" for y
    using that by (metis of_nat_less_iff of_nat_numeral of_nat_power)
  have "net_first n < 2 ^ w" using r(1) assms(2) by linarith
  then have "packed_first n \<le> be_bytes (address_bytes n) (int x) \<and> be_bytes (address_bytes n) (int x) \<le> packed_last n \<longleftrightarrow>
     net_first n \<le> x \<and> x \<le> net_last n"
    unfolding packed_first_def packed_last_def using z assms(4) r(3) by (simp add: be_bytes_order)
  also have "\<dots> \<longleftrightarrow> ?k * (a div ?k) \<le> x \<and> x < ?k * (a div ?k) + ?k"
  proof -
    have "0 < ?k" by simp
    then have "x \<le> b + (?k - 1) \<longleftrightarrow> x < b + ?k" for b by linarith
    then show ?thesis unfolding n_def network_of_def Let_def by (simp add: minus_mod_eq_mult_div)
  qed
  also have "\<dots> \<longleftrightarrow> x div ?k = a div ?k"
  proof -
    have "0 < ?k" by simp
    then show ?thesis by (metis add.commute div_nat_eqI dividend_less_times_div mult.commute mult_Suc_right times_div_less_eq_dividend)
  qed
  finally show ?thesis .
qed

end
