(* ===== verification/CaseBundle.thy ===== *)
theory CaseBundle imports MeshContracts StateError EvidenceEnvelope IpNetwork begin

text \<open>
  core/mesh/service.py, \<open>_ingest_case_bundle\<close> and \<open>_extract_case_archive\<close>: the controller's assembly of a case
  archive from the parts a sensor sends, and its extraction.  The transfers below \<open>mesh/imports\<close> and the cases below
  \<open>cases/mesh\<close> are maps on the two names of their directories.  What the zip format makes of a file is a
  parameter, and so is \<open>json.loads\<close>.
\<close>

section \<open>The state\<close>

record zip_archive =
  za_entries :: "(string \<times> nat \<times> bytes) list"
  za_damaged :: bool

record case_env = mesh_env +
  ca_zip :: "bytes \<Rightarrow> zip_archive option"

text \<open>A directory: its files, and the folders in it as \<open>None\<close>, by the parts of their paths.\<close>

type_synonym folder_tree = "(string list, bytes option) dict"

text \<open>\<open>state.json\<close> and the \<open>.part\<close> files of one transfer; \<open>bundle.zip\<close> is written anew before every use.\<close>

record transfer_state =
  ts_total :: int
  ts_digest :: string
  ts_received :: "int list"

record case_transfer =
  ct_state :: "transfer_state option"
  ct_parts :: "int \<Rightarrow> bytes option"

record case_files =
  cf_imports :: "string \<times> string \<Rightarrow> case_transfer"
  cf_cases :: "string \<times> string \<Rightarrow> folder_tree option"
  cf_events :: "(string \<times> (string, pyval) dict) list"

definition NO_TRANSFER :: case_transfer where
  "NO_TRANSFER = \<lparr>ct_state = None, ct_parts = (\<lambda>_. None)\<rparr>"

definition no_case_files :: case_files where
  "no_case_files = \<lparr>cf_imports = (\<lambda>_. NO_TRANSFER), cf_cases = (\<lambda>_. None), cf_events = []\<rparr>"

definition BUNDLE_BYTES :: nat where
  "BUNDLE_BYTES = 20 * 1024 * 1024"

definition BUNDLE_FILES :: nat where
  "BUNDLE_FILES = 128"

definition BUNDLE_EXPANDED_BYTES :: nat where
  "BUNDLE_EXPANDED_BYTES = 50 * 1024 * 1024"

section \<open>Extraction\<close>

text \<open>\<open>PurePosixPath(name).parts\<close> of a relative name.\<close>

definition path_parts :: "string \<Rightarrow> string list" where
  "path_parts name = filter (\<lambda>p. p \<noteq> [] \<and> p \<noteq> ''.'') (py_split (CHR ''/'') name)"

definition unsafe_name :: "string \<Rightarrow> bool" where
  "unsafe_name name \<longleftrightarrow> name = [] \<or> hd name = CHR ''/'' \<or> ''..'' \<in> set (path_parts name)"

text \<open>\<open>mkdir(parents=True, exist_ok=True)\<close> of \<open>path\<close>, the folders above it being \<open>up\<close>; the root is there.\<close>

fun make_folders :: "folder_tree \<Rightarrow> string list \<Rightarrow> string list \<Rightarrow> folder_tree result" where
  "make_folders tree up [] = Inr tree"
| "make_folders tree up (p # path) =
     (case dict_get tree (up @ [p]) of
        Some (Some _) \<Rightarrow> Inl OSError
      | Some None \<Rightarrow> make_folders tree (up @ [p]) path
      | None \<Rightarrow> make_folders (dict_set tree (up @ [p]) None) (up @ [p]) path)"

definition write_file :: "folder_tree \<Rightarrow> string list \<Rightarrow> bytes \<Rightarrow> folder_tree result" where
  "write_file tree path content =
     (if path = [] \<or> dict_get tree path = Some None then Inl OSError else Inr (dict_set tree path (Some content)))"

definition extract_entry :: "folder_tree \<Rightarrow> string \<times> nat \<times> bytes \<Rightarrow> folder_tree result" where
  "extract_entry tree entry =
     (case entry of (name, declared, content) \<Rightarrow>
        bindE (guardE (\<not> unsafe_name name) (ValueError ''Case bundle contains an unsafe path'')) (\<lambda>_.
        bindE (make_folders tree [] (butlast (path_parts name))) (\<lambda>made.
        write_file made (path_parts name) content)))"

fun extract_entries :: "folder_tree \<Rightarrow> (string \<times> nat \<times> bytes) list \<Rightarrow> folder_tree result" where
  "extract_entries tree [] = Inr tree"
| "extract_entries tree (e # es) = bindE (extract_entry tree e) (\<lambda>t. extract_entries t es)"

definition extract_case_archive :: "case_env \<Rightarrow> bytes \<Rightarrow> folder_tree result" where
  "extract_case_archive env archive =
     (case ca_zip env archive of
        None \<Rightarrow> Inl (ValueError ''Case bundle is not a valid zip archive'')
      | Some z \<Rightarrow>
          bindE (guardE (length (za_entries z) \<le> BUNDLE_FILES \<and> sum_list (map (\<lambda>(_, declared, _). declared) (za_entries z)) \<le> BUNDLE_EXPANDED_BYTES \<and>
            \<not> za_damaged z) (ValueError ''Case bundle exceeds extraction safety limits'')) (\<lambda>_.
          extract_entries [] (za_entries z)))"

text \<open>\<open>destination.rglob("manifest.json")\<close>, and whether there is exactly one and it has the digest.\<close>

definition manifests_of :: "folder_tree \<Rightarrow> bytes option list" where
  "manifests_of tree = map snd (filter (\<lambda>(path, _). path \<noteq> [] \<and> last path = ''manifest.json'') tree)"

definition manifest_matches :: "folder_tree \<Rightarrow> string \<Rightarrow> bytes option result" where
  "manifest_matches tree digest =
     (case manifests_of tree of
        [None] \<Rightarrow> Inl OSError
      | [Some content] \<Rightarrow> Inr (if sha256_hex content = digest then Some content else None)
      | _ \<Rightarrow> Inr None)"

section \<open>One part\<close>

record case_part =
  cp_case :: string
  cp_archive_digest :: string
  cp_manifest_digest :: string
  cp_total :: int
  cp_index :: int
  cp_chunk :: bytes

definition is_hex_digest :: "string \<Rightarrow> bool" where
  "is_hex_digest s \<longleftrightarrow> length s = 64 \<and> list_all (\<lambda>c. c \<in> set ''0123456789abcdef'') s"

text \<open>\<open>str.isalnum\<close> of a character below U+0100.\<close>

definition is_alnum_char :: "char \<Rightarrow> bool" where
  "is_alnum_char c \<longleftrightarrow> (let n = (of_char c :: nat) in 48 \<le> n \<and> n \<le> 57 \<or> 65 \<le> n \<and> n \<le> 90 \<or> 97 \<le> n \<and> n \<le> 122 \<or>
     n \<in> {170, 178, 179, 181, 185, 186, 188, 189, 190} \<or> 192 \<le> n \<and> n \<noteq> 215 \<and> n \<noteq> 247)"

definition valid_case_id :: "string \<Rightarrow> bool" where
  "valid_case_id s \<longleftrightarrow> s \<noteq> [] \<and> length s \<le> 160 \<and> list_all (\<lambda>c. is_alnum_char c \<or> c = CHR ''-'' \<or> c = CHR ''_'') s"

definition field_int :: "(string, pyval) dict \<Rightarrow> string \<Rightarrow> int \<Rightarrow> int result" where
  "field_int payload key fallback = py_int (case dict_get payload key of Some v \<Rightarrow> v | None \<Rightarrow> PyInt fallback)"

definition read_case_part :: "mesh_env \<Rightarrow> (string, pyval) dict \<Rightarrow> case_part result" where
  "read_case_part env payload =
     (let case_id = text_at env payload ''case_id''; archive_digest = py_lower (text_at env payload ''archive_sha256'');
          manifest_digest = py_lower (text_at env payload ''manifest_sha256'') in
      bindE (field_int payload ''total_chunks'' 0) (\<lambda>total.
      bindE (field_int payload ''chunk_index'' (-1)) (\<lambda>index.
      bindE (guardE (valid_case_id case_id) (ValueError ''Invalid case bundle identifier'')) (\<lambda>_.
      bindE (guardE (is_hex_digest archive_digest) (ValueError ''Invalid case bundle digest'')) (\<lambda>_.
      bindE (guardE (is_hex_digest manifest_digest) (ValueError ''Invalid case manifest digest'')) (\<lambda>_.
      bindE (guardE (1 \<le> total \<and> total \<le> 32 \<and> 0 \<le> index \<and> index < total) (ValueError ''Invalid case bundle chunk range'')) (\<lambda>_.
      bindE (case b64decode (text_at env payload ''data_base64'') of
          None \<Rightarrow> Inl (ValueError ''Invalid case bundle chunk encoding'') | Some chunk \<Rightarrow> Inr chunk) (\<lambda>chunk.
      bindE (guardE (length chunk \<le> 1024 * 1024 \<and> sha256_hex chunk = text_at env payload ''chunk_sha256'')
        (ValueError ''Case bundle chunk integrity check failed'')) (\<lambda>_.
      Inr \<lparr>cp_case = case_id, cp_archive_digest = archive_digest, cp_manifest_digest = manifest_digest,
        cp_total = total, cp_index = index, cp_chunk = chunk\<rparr>)))))))))"

text \<open>
  The part is written unless its file exists already; the numbers received are kept sorted.  The result says
  whether all are there.
\<close>

definition record_part :: "case_part \<Rightarrow> case_transfer \<Rightarrow> (case_transfer \<times> bool) result" where
  "record_part p t =
     (let st = (case ct_state t of Some st \<Rightarrow> st
          | None \<Rightarrow> \<lparr>ts_total = cp_total p, ts_digest = cp_archive_digest p, ts_received = []\<rparr>) in
      bindE (guardE (ts_total st = cp_total p \<and> ts_digest st = cp_archive_digest p)
        (ValueError ''Case bundle chunk conflicts with existing transfer'')) (\<lambda>_.
      (let received = sorted_list_of_set (insert (cp_index p) (set (ts_received st)));
           parts = (if ct_parts t (cp_index p) = None then (ct_parts t)(cp_index p \<mapsto> cp_chunk p) else ct_parts t) in
       Inr (t\<lparr>ct_state := Some (st\<lparr>ts_received := received\<rparr>), ct_parts := parts\<rparr>, int (length received) = cp_total p))))"

text \<open>The concatenation of the parts in order, \<open>None\<close> when one is missing.\<close>

fun join_parts :: "(int \<Rightarrow> bytes option) \<Rightarrow> nat \<Rightarrow> bytes option" where
  "join_parts parts 0 = Some []"
| "join_parts parts (Suc n) = (case (join_parts parts n, parts (int n)) of (Some b, Some c) \<Rightarrow> Some (b @ c) | _ \<Rightarrow> None)"

definition set_transfer :: "string \<times> string \<Rightarrow> case_transfer \<Rightarrow> case_files \<Rightarrow> case_files" where
  "set_transfer key t f = f\<lparr>cf_imports := (cf_imports f)(key := t)\<rparr>"

definition case_event :: "string \<Rightarrow> case_part \<Rightarrow> (string, pyval) dict \<Rightarrow> string \<times> (string, pyval) dict" where
  "case_event node p manifest =
     (''case:'' @ node @ '':'' @ cp_case p,
      (let field = (\<lambda>key. case dict_get manifest key of Some v \<Rightarrow> v | None \<Rightarrow> PyNone) in
       [(''id'', PyStr (cp_case p)), (''sensor_node_id'', PyStr node), (''target'', field ''target''), (''source'', field ''source''),
        (''generated_at'', field ''generated_at''), (''manifest_sha256'', PyStr (cp_manifest_digest p))]))"

text \<open>
  From the complete archive on.  A failing extraction removes the destination; the event is written only
  when the manifest is an object.
\<close>

definition import_case :: "case_env \<Rightarrow> string \<Rightarrow> case_part \<Rightarrow> bytes \<Rightarrow> (case_files, bool) action" where
  "import_case env node p archive =
     (let key = (node, cp_case p) in
      bindS (guardS (length archive \<le> BUNDLE_BYTES \<and> sha256_hex archive = cp_archive_digest p)
        (ValueError ''Case bundle archive integrity check failed'')) (\<lambda>_.
      bindS (readS (\<lambda>f. cf_cases f key)) (\<lambda>existing.
      case existing of
        Some tree \<Rightarrow>
          bindS (liftS (manifest_matches tree (cp_manifest_digest p))) (\<lambda>m.
          if m \<noteq> None then returnS True
          else raiseS (ValueError ''Case bundle destination conflicts with an existing export''))
      | None \<Rightarrow>
          bindS (liftS (extract_case_archive env archive)) (\<lambda>tree.
          bindS (liftS (manifest_matches tree (cp_manifest_digest p))) (\<lambda>m.
          bindS (liftS (case m of
              None \<Rightarrow> Inl (ValueError ''Case bundle manifest integrity check failed'')
            | Some content \<Rightarrow> (case me_loads env content of None \<Rightarrow> Inl (ValueError ''Expecting value'') | Some v \<Rightarrow> Inr v))) (\<lambda>manifest.
          bindS (changeS (\<lambda>f. (set_transfer key NO_TRANSFER f)\<lparr>cf_cases := (cf_cases f)(key \<mapsto> tree),
            cf_events := (case manifest of PyDict d \<Rightarrow> cf_events f @ [case_event node p d] | _ \<Rightarrow> cf_events f)\<rparr>)) (\<lambda>_.
          returnS True)))))))"

definition receive_case_part :: "case_env \<Rightarrow> bool \<Rightarrow> string \<Rightarrow> (string, pyval) dict \<Rightarrow> (case_files, bool) action" where
  "receive_case_part env approved node payload =
     bindS (guardS approved (PermissionError ''Case bundle is not bound to an approved case.export command'')) (\<lambda>_.
     bindS (liftS (read_case_part (mesh_env.truncate env) payload)) (\<lambda>p.
     (let key = (node, cp_case p) in
      bindS (readS (\<lambda>f. cf_imports f key)) (\<lambda>t.
      bindS (liftS (record_part p t)) (\<lambda>(t', complete).
      bindS (changeS (set_transfer key t')) (\<lambda>_.
      if \<not> complete then returnS False
      else (case join_parts (ct_parts t') (nat (cp_total p)) of
          None \<Rightarrow> returnS False
        | Some archive \<Rightarrow> import_case env node p archive)))))))"

section \<open>What extraction writes\<close>

text \<open>No path leaves the destination.\<close>

definition path_safe :: "string list \<Rightarrow> bool" where
  "path_safe path \<longleftrightarrow> list_all (\<lambda>p. p \<noteq> [] \<and> p \<noteq> ''.'' \<and> p \<noteq> ''..'') path"

definition tree_safe :: "folder_tree \<Rightarrow> bool" where
  "tree_safe tree \<longleftrightarrow> list_all (\<lambda>(path, _). path \<noteq> [] \<and> path_safe path) tree"

lemma tree_safe_set: "tree_safe tree \<Longrightarrow> path \<noteq> [] \<Longrightarrow> path_safe path \<Longrightarrow> tree_safe (dict_set tree path v)"
  by (induction tree path v rule: dict_set.induct) (auto simp: tree_safe_def path_safe_def)

lemma make_folders_safe: "make_folders tree up path = Inr made \<Longrightarrow> tree_safe tree \<Longrightarrow> path_safe up \<Longrightarrow> path_safe path \<Longrightarrow> tree_safe made"
proof (induction tree up path rule: make_folders.induct)
  case (2 tree up p path)
  have "path_safe (up @ [p])" "path_safe path" using 2(4,5,6) by (simp_all add: path_safe_def)
  then show ?case using 2 tree_safe_set [of tree "up @ [p]" None] by (simp split: option.splits)
qed simp

lemma path_parts_safe: "\<not> unsafe_name name \<Longrightarrow> path_safe (path_parts name)"
  by (auto simp: unsafe_name_def path_safe_def path_parts_def list_all_iff)

lemma extract_entry_safe: "extract_entry tree entry = Inr tree' \<Longrightarrow> tree_safe tree \<Longrightarrow> tree_safe tree'"
proof -
  assume e: "extract_entry tree entry = Inr tree'" and t: "tree_safe tree"
  obtain name d content where [simp]: "entry = (name, d, content)" by (cases entry)
  from e obtain made where m: "\<not> unsafe_name name" "make_folders tree [] (butlast (path_parts name)) = Inr made"
    "write_file made (path_parts name) content = Inr tree'"
    by (auto simp: extract_entry_def bindE_Inr guardE_Inr)
  have p: "path_safe (path_parts name)" by (rule path_parts_safe [OF m(1)])
  then have "path_safe (butlast (path_parts name))" by (auto simp: path_safe_def list_all_iff dest: in_set_butlastD)
  from make_folders_safe [OF m(2) t _ this] have "tree_safe made" by (simp add: path_safe_def)
  then show ?thesis using m(3) p by (auto simp: write_file_def tree_safe_set split: if_splits)
qed

lemma extract_entries_safe: "extract_entries tree es = Inr tree' \<Longrightarrow> tree_safe tree \<Longrightarrow> tree_safe tree'"
  by (induction tree es rule: extract_entries.induct) (auto simp: bindE_Inr dest: extract_entry_safe)

lemma extract_safe: "extract_case_archive env archive = Inr tree \<Longrightarrow> tree_safe tree"
  by (auto simp: extract_case_archive_def bindE_Inr tree_safe_def split: option.splits dest!: extract_entries_safe)

section \<open>A folder of its own\<close>

text \<open>
  An entry for a folder, as \<open>shutil.make_archive\<close> writes one before the files in it, is extracted as a file, and every
  later entry inside that folder fails.
\<close>

lemma dict_get_set: "dict_get (dict_set d k v) j = (if j = k then Some v else dict_get d j)"
  by (induction d k v rule: dict_set.induct) auto

lemma make_folders_file:
  "make_folders tree up path = Inr made \<Longrightarrow> dict_get tree q = Some (Some c) \<Longrightarrow> dict_get made q = Some (Some c)"
proof (induction tree up path rule: make_folders.induct)
  case (2 tree up p path)
  then show ?case by (cases "q = up @ [p]") (auto simp: dict_get_set split: option.splits)
qed simp

lemma make_folders_blocked:
  "dict_get tree (up @ p # path) = Some (Some c) \<Longrightarrow> \<exists>e. make_folders tree up (p # path @ rest) = Inl e"
proof (induction path arbitrary: tree up p)
  case (Cons q path)
  have "\<exists>e. make_folders t (up @ [p]) (q # path @ rest) = Inl e" if "t = tree \<or> t = dict_set tree (up @ [p]) None" for t
    using Cons.IH [of t "up @ [p]" q] Cons.prems that by (auto simp: dict_get_set simp del: make_folders.simps)
  then show ?case by (auto simp: make_folders.simps(2) [of tree up p] simp del: make_folders.simps split: option.split)
qed simp

lemma extract_entry_file:
  "extract_entry tree entry = Inr tree' \<Longrightarrow> dict_get tree q = Some (Some c) \<Longrightarrow> \<exists>c'. dict_get tree' q = Some (Some c')"
proof -
  assume e: "extract_entry tree entry = Inr tree'" and q: "dict_get tree q = Some (Some c)"
  obtain name d content where [simp]: "entry = (name, d, content)" by (cases entry)
  from e obtain made where m: "make_folders tree [] (butlast (path_parts name)) = Inr made"
    "write_file made (path_parts name) content = Inr tree'"
    by (auto simp: extract_entry_def bindE_Inr guardE_Inr)
  then show ?thesis using make_folders_file [OF m(1) q] by (auto simp: write_file_def dict_get_set split: if_splits)
qed

lemma extract_entries_blocked:
  assumes "dict_get tree q = Some (Some c)" "q \<noteq> []" "(name, d, content) \<in> set es" "path_parts name = q @ r" "r \<noteq> []"
  shows "\<exists>e. extract_entries tree es = Inl e"
  using assms(1,3)
proof (induction es arbitrary: tree c)
  case (Cons entry es)
  show ?case
  proof (cases "extract_entry tree entry")
    case (Inr tree')
    obtain p path where q: "q = p # path" using assms(2) by (cases q) auto
    have "entry \<noteq> (name, d, content)"
    proof
      assume entry: "entry = (name, d, content)"
      have "butlast (path_parts name) = p # path @ butlast r" using assms(4,5) q by (simp add: butlast_append)
      moreover obtain e where "make_folders tree [] (p # path @ butlast r) = Inl e"
        using make_folders_blocked [of tree "[]" p path c] Cons.prems(1) q by auto
      ultimately show False using Inr by (auto simp: entry extract_entry_def bindE_Inr)
    qed
    then show ?thesis using Cons.IH extract_entry_file [OF Inr Cons.prems(1)] Cons.prems(2) Inr by auto
  qed simp
qed simp

lemma py_split_nonempty: "py_split c s \<noteq> []"
  by (cases "(c, s)" rule: py_split.cases) (auto split: list.split)

theorem folder_entry_fails:
  assumes "es = before @ (name @ ''/'', d, []) # after" "(inside, n, content) \<in> set after" "path_parts name \<noteq> []"
    "path_parts inside = path_parts name @ r" "r \<noteq> []"
  shows "\<exists>e. extract_entries tree es = Inl e"
proof -
  have slash: "path_parts (name @ ''/'') = path_parts name"
  proof -
    have "py_split c (s @ [c]) = py_split c s @ [[]]" for c :: char and s
      by (induction s) (use py_split_nonempty in \<open>auto split: list.split\<close>)
    then show ?thesis by (simp add: path_parts_def)
  qed
  have rest: "\<exists>e. extract_entries t ((name @ ''/'', d, []) # after) = Inl e" for t
  proof (cases "extract_entry t (name @ ''/'', d, [])")
    case (Inr t')
    then have "dict_get t' (path_parts name) = Some (Some [])"
      by (auto simp: extract_entry_def bindE_Inr write_file_def slash dict_get_set split: if_splits)
    from extract_entries_blocked [OF this assms(3,2,4,5)] show ?thesis using Inr by simp
  qed simp
  show ?thesis unfolding assms(1) by (induction before arbitrary: tree) (simp_all only: append_Nil append_Cons rest extract_entries.simps(2) [of _ _ "_ @ _"] bindE_def split: sum.split, blast)
qed

section \<open>What is stored\<close>

definition transfer_ok :: "case_transfer \<Rightarrow> bool" where
  "transfer_ok t \<longleftrightarrow> (case ct_state t of
      None \<Rightarrow> ct_parts t = (\<lambda>_. None)
    | Some st \<Rightarrow> 1 \<le> ts_total st \<and> ts_total st \<le> 32 \<and> distinct (ts_received st) \<and> set (ts_received st) = dom (ct_parts t) \<and>
        dom (ct_parts t) \<subseteq> {0..<ts_total st}) \<and>
     (\<forall>i c. ct_parts t i = Some c \<longrightarrow> length c \<le> 1024 * 1024)"

definition case_tree_ok :: "folder_tree \<Rightarrow> bool" where
  "case_tree_ok tree \<longleftrightarrow> tree_safe tree \<and> (\<exists>content. manifests_of tree = [Some content])"

definition case_files_ok :: "case_files \<Rightarrow> bool" where
  "case_files_ok f \<longleftrightarrow> (\<forall>key. transfer_ok (cf_imports f key)) \<and> (\<forall>key tree. cf_cases f key = Some tree \<longrightarrow> case_tree_ok tree)"

lemma no_transfer_ok [simp]: "transfer_ok NO_TRANSFER"
  by (simp add: transfer_ok_def NO_TRANSFER_def)

lemma no_case_files_ok: "case_files_ok no_case_files"
  by (simp add: case_files_ok_def no_case_files_def)

lemma read_case_part_bounds:
  "read_case_part env payload = Inr p \<Longrightarrow> 1 \<le> cp_total p \<and> cp_total p \<le> 32 \<and> 0 \<le> cp_index p \<and> cp_index p < cp_total p \<and> length (cp_chunk p) \<le> 1024 * 1024"
  by (auto simp: read_case_part_def Let_def bindE_Inr guardE_Inr)

lemma record_part_ok:
  assumes "transfer_ok t" "1 \<le> cp_total p" "cp_total p \<le> 32" "0 \<le> cp_index p" "cp_index p < cp_total p" "length (cp_chunk p) \<le> 1024 * 1024"
    and r: "record_part p t = Inr (t', whole)"
  shows "transfer_ok t'"
proof -
  define st where "st = (case ct_state t of Some st \<Rightarrow> st
      | None \<Rightarrow> \<lparr>ts_total = cp_total p, ts_digest = cp_archive_digest p, ts_received = []\<rparr>)"
  define parts where "parts = (if ct_parts t (cp_index p) = None then (ct_parts t)(cp_index p \<mapsto> cp_chunk p) else ct_parts t)"
  have st: "ts_total st = cp_total p" "t' = t\<lparr>ct_state := Some (st\<lparr>ts_received := sorted_list_of_set (insert (cp_index p) (set (ts_received st)))\<rparr>), ct_parts := parts\<rparr>"
    using r by (auto simp: record_part_def Let_def bindE_Inr guardE_Inr st_def parts_def)
  have old: "set (ts_received st) = dom (ct_parts t)" "dom (ct_parts t) \<subseteq> {0..<cp_total p}"
    using assms(1) st(1) by (auto simp: transfer_ok_def st_def split: option.splits)
  have "dom parts = insert (cp_index p) (dom (ct_parts t))" by (auto simp: parts_def)
  moreover have "length c \<le> 1024 * 1024" if "parts i = Some c" for i c
    using that assms(1,6) by (auto simp: parts_def transfer_ok_def split: if_splits)
  moreover have "finite (dom (ct_parts t))" using old(2) finite_subset by blast
  ultimately show ?thesis using st old assms(2-5) by (auto simp: transfer_ok_def simp del: sorted_list_of_set_insert_remove)
qed

lemma import_case_keeps: "keeps case_files_ok (import_case env node p archive)"
proof -
  have "case_files_ok (f\<lparr>cf_imports := (cf_imports f)(key := NO_TRANSFER), cf_cases := (cf_cases f)(key \<mapsto> tree), cf_events := evs\<rparr>)"
    if "case_files_ok f" "extract_case_archive env archive = Inr tree" "manifest_matches tree h = Inr (Some content)" for f key tree h content evs
  proof -
    have "\<exists>content. manifests_of tree = [Some content]"
      using that(3) by (auto simp: manifest_matches_def split: list.splits option.splits if_splits)
    then show ?thesis using that(1) extract_safe [OF that(2)] by (simp add: case_files_ok_def case_tree_ok_def)
  qed
  then show ?thesis
    by (auto simp: import_case_def Let_def bindS_def keeps_def guardE_def set_transfer_def split: option.splits sum.splits prod.splits)
qed

theorem receive_keeps: "keeps case_files_ok (receive_case_part env approved node payload)"
proof -
  have set: "case_files_ok (set_transfer key t f)" if "case_files_ok f" "transfer_ok t" for key t f
    using that by (simp add: case_files_ok_def set_transfer_def)
  have rec: "keeps case_files_ok (\<lambda>f. case record_part p (cf_imports f key) of Inl e \<Rightarrow> (f, Inl e)
      | Inr (t', whole) \<Rightarrow> bindS (changeS (set_transfer key t')) (k t' whole) f)"
    if "read_case_part env' payload = Inr p" "\<And>t' whole. keeps case_files_ok (k t' whole ())" for key p k and env' :: mesh_env
  proof (rule keptI)
    fix f assume f: "case_files_ok f"
    show "case_files_ok (fst (case record_part p (cf_imports f key) of Inl e \<Rightarrow> (f, Inl e)
        | Inr (t', whole) \<Rightarrow> bindS (changeS (set_transfer key t')) (k t' whole) f))"
    proof (cases "record_part p (cf_imports f key)")
      case (Inr r)
      obtain t' whole where r: "r = (t', whole)" by (cases r)
      have "transfer_ok (cf_imports f key)" using f unfolding case_files_ok_def by blast
      then have "transfer_ok t'" using record_part_ok [OF _ _ _ _ _ _ Inr [unfolded r]] read_case_part_bounds [OF that(1)] by simp
      then show ?thesis using keptD [OF that(2) set [OF f]] Inr r by simp
    qed (use f in simp)
  qed
  show ?thesis
  proof (cases "read_case_part (mesh_env.truncate env) payload")
    case (Inr p)
    have run: "receive_case_part env approved node payload = (if \<not> approved then raiseS (PermissionError ''Case bundle is not bound to an approved case.export command'')
      else (\<lambda>f. case record_part p (cf_imports f (node, cp_case p)) of Inl e \<Rightarrow> (f, Inl e)
        | Inr (t', whole) \<Rightarrow> bindS (changeS (set_transfer (node, cp_case p) t')) (\<lambda>_. if \<not> whole then returnS False
          else (case join_parts (ct_parts t') (nat (cp_total p)) of None \<Rightarrow> returnS False
            | Some archive \<Rightarrow> import_case env node p archive)) f))"
      by (auto simp: receive_case_part_def Inr Let_def fun_eq_iff bindS_lift split: sum.split prod.split)
    show ?thesis unfolding run
      by (cases approved) (auto intro!: rec [OF Inr] kept_basic split: option.split simp: import_case_keeps)
  qed (simp add: receive_case_part_def kept_bind)
qed

section \<open>Reassembly\<close>

text \<open>A transfer of \<open>chunks\<close> of which those with the numbers \<open>S\<close> have arrived.\<close>

definition transfer_of :: "string \<Rightarrow> bytes list \<Rightarrow> nat set \<Rightarrow> case_transfer" where
  "transfer_of digest chunks S =
     \<lparr>ct_state = (if S = {} then None else Some \<lparr>ts_total = int (length chunks), ts_digest = digest, ts_received = sorted_list_of_set (int ` S)\<rparr>),
      ct_parts = (\<lambda>i. if 0 \<le> i \<and> nat i \<in> S then Some (chunks ! nat i) else None)\<rparr>"

definition part_of :: "string \<Rightarrow> string \<Rightarrow> string \<Rightarrow> bytes list \<Rightarrow> nat \<Rightarrow> case_part" where
  "part_of c digest manifest chunks i = \<lparr>cp_case = c, cp_archive_digest = digest, cp_manifest_digest = manifest,
     cp_total = int (length chunks), cp_index = int i, cp_chunk = chunks ! i\<rparr>"

lemma part_of_fields [simp]:
  "cp_case (part_of c digest manifest chunks i) = c" "cp_archive_digest (part_of c digest manifest chunks i) = digest"
  "cp_total (part_of c digest manifest chunks i) = int (length chunks)" "cp_index (part_of c digest manifest chunks i) = int i"
  "cp_chunk (part_of c digest manifest chunks i) = chunks ! i"
  by (simp_all add: part_of_def)

lemma record_part_of:
  assumes "S \<subseteq> {..<length chunks}"
  shows "record_part (part_of c digest manifest chunks i) (transfer_of digest chunks S) =
    Inr (transfer_of digest chunks (insert i S), card (insert i S) = length chunks)"
proof -
  have S: "finite S" using assms finite_subset by blast
  have "card (int ` insert i S) = card (insert i S)" by (rule card_image) (simp add: inj_on_def)
  then have "card (insert (int i) (int ` S)) = card (insert i S)" by (simp only: image_insert)
  then show ?thesis
    using S by (auto simp: record_part_def transfer_of_def fun_eq_iff insert_absorb simp del: card.insert_remove card_insert_disjoint sorted_list_of_set_insert_remove)
qed

lemma join_parts_all: "n \<le> length chunks \<Longrightarrow> {..<length chunks} \<subseteq> S \<Longrightarrow> join_parts (ct_parts (transfer_of digest chunks S)) n = Some (concat (take n chunks))"
proof (induction n)
  case (Suc n)
  moreover have "n \<in> S" using Suc.prems by auto
  ultimately show ?case by (simp add: transfer_of_def take_Suc_conv_app_nth)
qed simp

lemma receive_part_of:
  assumes read: "read_case_part (mesh_env.truncate env) payload = Inr (part_of c digest manifest chunks i)"
    and S: "S \<subseteq> {..<length chunks}" and f: "cf_imports f (node, c) = transfer_of digest chunks S"
  shows "receive_case_part env True node payload f =
    (let f' = set_transfer (node, c) (transfer_of digest chunks (insert i S)) f in
     if card (insert i S) \<noteq> length chunks then (f', Inr False)
     else case join_parts (ct_parts (transfer_of digest chunks (insert i S))) (length chunks) of
        None \<Rightarrow> (f', Inr False) | Some archive \<Rightarrow> import_case env node (part_of c digest manifest chunks i) archive f')"
  using f by (simp add: receive_case_part_def read record_part_of [OF S] Let_def split: option.split)

lemma receive_parts_of:
  assumes read: "\<And>i. i < length chunks \<Longrightarrow> read_case_part (mesh_env.truncate env) (payload i) = Inr (part_of c digest manifest chunks i)"
    and f: "cf_imports f (node, c) = transfer_of digest chunks S" and S: "S \<union> set front \<subset> {..<length chunks}"
  shows "foldl (\<lambda>f i. fst (receive_case_part env True node (payload i) f)) f front =
    set_transfer (node, c) (transfer_of digest chunks (S \<union> set front)) f"
  using f S
proof (induction front arbitrary: f S)
  case Nil
  then show ?case by (simp add: set_transfer_def fun_upd_idem)
next
  case (Cons i front)
  have i: "i < length chunks" "S \<subseteq> {..<length chunks}" "insert i S \<subset> {..<length chunks}" using Cons.prems by auto
  have "card (insert i S) < length chunks" using psubset_card_mono [OF _ i(3)] by simp
  then have "fst (receive_case_part env True node (payload i) f) = set_transfer (node, c) (transfer_of digest chunks (insert i S)) f"
    by (simp add: receive_part_of [OF read [OF i(1)] i(2) Cons.prems(1)] Let_def)
  then show ?case
    using Cons.IH [of "set_transfer (node, c) (transfer_of digest chunks (insert i S)) f" "insert i S"] Cons.prems
    by (simp add: set_transfer_def)
qed

text \<open>In whatever order and however often the parts come, the last one to arrive for the first time hands on the archive.\<close>

theorem parts_reassemble:
  assumes read: "\<And>i. i < length chunks \<Longrightarrow> read_case_part (mesh_env.truncate env) (payload i) = Inr (part_of c digest manifest chunks i)"
    and f: "cf_imports f (node, c) = NO_TRANSFER" and order: "set front = {..<length chunks} - {k}" "k < length chunks"
  shows "receive_case_part env True node (payload k) (foldl (\<lambda>f i. fst (receive_case_part env True node (payload i) f)) f front) =
    import_case env node (part_of c digest manifest chunks k) (concat chunks)
      (set_transfer (node, c) (transfer_of digest chunks {..<length chunks}) f)"
proof -
  have none: "transfer_of digest chunks {} = NO_TRANSFER" by (simp add: transfer_of_def NO_TRANSFER_def)
  let ?f = "set_transfer (node, c) (transfer_of digest chunks (set front)) f"
  have "{} \<union> set front \<subset> {..<length chunks}" using order by auto
  from receive_parts_of [OF read f [folded none] this] have run:
    "foldl (\<lambda>f i. fst (receive_case_part env True node (payload i) f)) f front = ?f" by simp
  have all: "insert k (set front) = {..<length chunks}" using order by auto
  have "cf_imports ?f (node, c) = transfer_of digest chunks (set front)" by (simp add: set_transfer_def)
  note last = receive_part_of [OF read [OF order(2)] _ this, unfolded all]
  have "set front \<subseteq> {..<length chunks}" using order by auto
  from last [OF this] show ?thesis
    unfolding run by (simp add: join_parts_all Let_def) (simp add: set_transfer_def)
qed

end
