(* ===== verification/Conversations.thy ===== *)
theory Conversations imports Schemas PyText "HOL-Library.Product_Lexorder" "HOL-Library.Multiset" begin

text \<open>
  core/packet\_engine/conversations.py: the bidirectional conversation key, the cumulative state of a
  conversation and the bounded tracker that evicts the least recently seen ones.  Evicted states are
  kept for a while so that a late packet resumes its conversation; when one of the bounded stores
  drops something the tracker raises \<open>evidence_lost\<close>.  The lemmas show the bounds, that both
  directions share one key, and that no packet is lost from the counters while that flag is down.
  Time stamps are ordered by their value; text is upper-cased on ASCII letters.
\<close>

type_synonym endpoint = "string \<times> int"

record conversation_key =
  ck_sensor_node_id :: string
  ck_source :: string
  ck_session_id :: string
  ck_interface :: string
  ck_protocol :: string
  ck_endpoint_a :: endpoint
  ck_endpoint_b :: endpoint

definition event_source_endpoint :: "packet_event \<Rightarrow> endpoint" where
  "event_source_endpoint e = (src_ip e, src_port e)"

definition event_destination_endpoint :: "packet_event \<Rightarrow> endpoint" where
  "event_destination_endpoint e = (dst_ip e, dst_port e)"

definition conversation_key_of :: "packet_event \<Rightarrow> conversation_key" where
  "conversation_key_of e =
     (let endpoints = sort [event_source_endpoint e, event_destination_endpoint e] in
      \<lparr>ck_sensor_node_id = or_text (sensor_node_id e) ''local'',
       ck_source = or_text (event_source e) (''live_'' @ pe_interface e),
       ck_session_id = or_text (session_id e) ''legacy'',
       ck_interface = str_or (pe_interface e) ''auto'',
       ck_protocol = py_upper (str_or (protocol e) ''OTHER''),
       ck_endpoint_a = endpoints ! 0, ck_endpoint_b = endpoints ! 1\<rparr>)"

section \<open>One conversation\<close>

record conversation_state =
  cs_key :: conversation_key
  cs_initiator :: endpoint
  cs_responder :: endpoint
  cs_first_seen :: f64
  cs_last_seen :: f64
  cs_to_responder_packets :: int
  cs_to_responder_bytes :: int
  cs_to_initiator_packets :: int
  cs_to_initiator_bytes :: int
  cs_syn_count :: int
  cs_syn_ack_count :: int
  cs_rst_count :: int
  cs_established :: bool
  cs_application :: info
  cs_generation :: int
  cs_backend :: string
  cs_source_type :: string

text \<open>A state with the dataclass defaults.\<close>

definition new_state :: "conversation_key \<Rightarrow> endpoint \<Rightarrow> endpoint \<Rightarrow> f64 \<Rightarrow> conversation_state" where
  "new_state key initiator responder t = \<lparr>cs_key = key, cs_initiator = initiator, cs_responder = responder,
     cs_first_seen = t, cs_last_seen = t, cs_to_responder_packets = 0, cs_to_responder_bytes = 0,
     cs_to_initiator_packets = 0, cs_to_initiator_bytes = 0, cs_syn_count = 0, cs_syn_ack_count = 0,
     cs_rst_count = 0, cs_established = False, cs_application = [], cs_generation = 0,
     cs_backend = ''unknown'', cs_source_type = ''network''\<rparr>"

definition has_flag :: "char \<Rightarrow> string \<Rightarrow> bool" where
  "has_flag c flags \<longleftrightarrow> c \<in> set flags"

definition state_direction :: "conversation_state \<Rightarrow> packet_event \<Rightarrow> string" where
  "state_direction s e = (if event_source_endpoint e = cs_initiator s then ''to_responder'' else ''to_initiator'')"

definition count_direction :: "packet_event \<Rightarrow> conversation_state \<Rightarrow> conversation_state" where
  "count_direction e s =
     (if state_direction s e = ''to_responder''
      then s\<lparr>cs_to_responder_packets := cs_to_responder_packets s + 1, cs_to_responder_bytes := cs_to_responder_bytes s + pe_size e\<rparr>
      else s\<lparr>cs_to_initiator_packets := cs_to_initiator_packets s + 1, cs_to_initiator_bytes := cs_to_initiator_bytes s + pe_size e\<rparr>)"

definition count_handshake :: "string \<Rightarrow> conversation_state \<Rightarrow> conversation_state" where
  "count_handshake flags s =
     (let s1 = (if has_flag (CHR ''S'') flags \<and> \<not> has_flag (CHR ''A'') flags then s\<lparr>cs_syn_count := cs_syn_count s + 1\<rparr> else s);
          s2 = (if has_flag (CHR ''S'') flags \<and> has_flag (CHR ''A'') flags
                then s1\<lparr>cs_syn_ack_count := cs_syn_ack_count s1 + 1, cs_established := True\<rparr> else s1)
      in if has_flag (CHR ''R'') flags then s2\<lparr>cs_rst_count := cs_rst_count s2 + 1\<rparr> else s2)"

definition state_update :: "conversation_state \<Rightarrow> packet_event \<Rightarrow> conversation_state \<times> string" where
  "state_update s e =
     (let s1 = count_handshake (pe_flags e) (count_direction e s) in
      (s1\<lparr>cs_last_seen := f64_max (cs_last_seen s1) (pe_timestamp e),
          cs_backend := str_or (str_or (backend e) (cs_backend s1)) ''unknown'',
          cs_source_type := str_or (str_or (source_type e) (cs_source_type s1)) ''network'',
          cs_generation := cs_generation s1 + 1\<rparr>,
       state_direction s e))"

definition flow_metadata :: "conversation_state \<Rightarrow> string \<Rightarrow> info" where
  "flow_metadata s direction =
     (let reverse_bytes = (if direction = ''to_responder'' then cs_to_initiator_bytes s else cs_to_responder_bytes s);
          reverse_packets = (if direction = ''to_responder'' then cs_to_initiator_packets s else cs_to_responder_packets s)
      in [(''conversation_direction'', PyStr direction), (''initiator_ip'', PyStr (fst (cs_initiator s))),
          (''initiator_port'', PyInt (snd (cs_initiator s))), (''responder_ip'', PyStr (fst (cs_responder s))),
          (''responder_port'', PyInt (snd (cs_responder s))), (''reverse_byte_count'', PyInt reverse_bytes),
          (''reverse_packet_count'', PyInt reverse_packets), (''conversation_established'', PyBool (cs_established s)),
          (''conversation_syn_count'', PyInt (cs_syn_count s)), (''conversation_syn_ack_count'', PyInt (cs_syn_ack_count s)),
          (''conversation_rst_count'', PyInt (cs_rst_count s)),
          (''conversation_to_responder_bytes'', PyInt (cs_to_responder_bytes s)),
          (''conversation_to_initiator_bytes'', PyInt (cs_to_initiator_bytes s)),
          (''conversation_to_responder_packets'', PyInt (cs_to_responder_packets s)),
          (''conversation_to_initiator_packets'', PyInt (cs_to_initiator_packets s))])"

section \<open>The tracker\<close>

record conversation_delta =
  cd_contract_version :: int
  cd_key :: conversation_key
  cd_generation :: int
  cd_event_time :: f64
  cd_first_seen :: f64
  cd_initiator :: endpoint
  cd_responder :: endpoint
  cd_direction :: string
  cd_packet_delta :: int
  cd_byte_delta :: int
  cd_syn_delta :: int
  cd_syn_ack_delta :: int
  cd_rst_delta :: int
  cd_to_responder_packets :: int
  cd_to_responder_bytes :: int
  cd_to_initiator_packets :: int
  cd_to_initiator_bytes :: int
  cd_syn_count :: int
  cd_syn_ack_count :: int
  cd_rst_count :: int
  cd_established :: bool
  cd_application :: info
  cd_backend :: string
  cd_source_type :: string

record conversation_tracker =
  ct_maximum :: nat
  ct_states :: "(conversation_key, conversation_state) dict"
  ct_evicted :: "(conversation_key, conversation_state) dict"
  ct_pending :: "conversation_delta list"
  ct_had_evictions :: bool
  ct_evidence_lost :: bool

definition tracker_init :: "int \<Rightarrow> conversation_tracker" where
  "tracker_init maximum = \<lparr>ct_maximum = nat (max 100 maximum), ct_states = [], ct_evicted = [], ct_pending = [],
     ct_had_evictions = False, ct_evidence_lost = False\<rparr>"

text \<open>The \<open>maxlen\<close> of the pending deque.\<close>

definition pending_limit :: "conversation_tracker \<Rightarrow> nat" where
  "pending_limit t = max 100 (min (ct_maximum t) 1000)"

definition final_delta :: "conversation_state \<Rightarrow> conversation_delta" where
  "final_delta s = \<lparr>cd_contract_version = 2, cd_key = cs_key s, cd_generation = cs_generation s,
     cd_event_time = cs_last_seen s, cd_first_seen = cs_first_seen s, cd_initiator = cs_initiator s,
     cd_responder = cs_responder s, cd_direction = ''final'', cd_packet_delta = 0, cd_byte_delta = 0,
     cd_syn_delta = 0, cd_syn_ack_delta = 0, cd_rst_delta = 0,
     cd_to_responder_packets = cs_to_responder_packets s, cd_to_responder_bytes = cs_to_responder_bytes s,
     cd_to_initiator_packets = cs_to_initiator_packets s, cd_to_initiator_bytes = cs_to_initiator_bytes s,
     cd_syn_count = cs_syn_count s, cd_syn_ack_count = cs_syn_ack_count s, cd_rst_count = cs_rst_count s,
     cd_established = cs_established s, cd_application = cs_application s, cd_backend = cs_backend s,
     cd_source_type = cs_source_type s\<rparr>"

definition event_delta :: "conversation_state \<Rightarrow> conversation_state \<Rightarrow> packet_event \<Rightarrow> string \<Rightarrow> conversation_delta" where
  "event_delta before s e direction = \<lparr>cd_contract_version = 2, cd_key = conversation_key_of e,
     cd_generation = cs_generation s, cd_event_time = pe_timestamp e, cd_first_seen = cs_first_seen s,
     cd_initiator = cs_initiator s, cd_responder = cs_responder s, cd_direction = direction,
     cd_packet_delta = 1, cd_byte_delta = pe_size e, cd_syn_delta = cs_syn_count s - cs_syn_count before,
     cd_syn_ack_delta = cs_syn_ack_count s - cs_syn_ack_count before, cd_rst_delta = cs_rst_count s - cs_rst_count before,
     cd_to_responder_packets = cs_to_responder_packets s, cd_to_responder_bytes = cs_to_responder_bytes s,
     cd_to_initiator_packets = cs_to_initiator_packets s, cd_to_initiator_bytes = cs_to_initiator_bytes s,
     cd_syn_count = cs_syn_count s, cd_syn_ack_count = cs_syn_ack_count s, cd_rst_count = cs_rst_count s,
     cd_established = cs_established s, cd_application = cs_application s, cd_backend = str_or (backend e) ''python'',
     cd_source_type = str_or (source_type e) ''network''\<rparr>"

text \<open>One eviction: the deque drops its oldest entry when full, the evicted store its oldest state.\<close>

definition evict_one :: "conversation_tracker \<Rightarrow> conversation_key \<times> conversation_state \<Rightarrow> conversation_tracker" where
  "evict_one t ks = (case ks of (key, s) \<Rightarrow>
     let full = (length (ct_pending t) = pending_limit t);
         pending = (if full then tl (ct_pending t) else ct_pending t) @ [final_delta s];
         evicted = dict_pop (ct_evicted t) key @ [(key, s)];
         over = (length evicted > ct_maximum t)
     in t\<lparr>ct_states := dict_pop (ct_states t) key, ct_had_evictions := True, ct_pending := pending,
          ct_evicted := (if over then tl evicted else evicted),
          ct_evidence_lost := (ct_evidence_lost t \<or> full \<or> over)\<rparr>)"

definition evict_if_needed :: "conversation_tracker \<Rightarrow> conversation_tracker" where
  "evict_if_needed t =
     (if length (ct_states t) \<le> ct_maximum t then t
      else foldl evict_one t (take (length (ct_states t) - ct_maximum t)
             (sort_key (\<lambda>ks. f64_key (cs_last_seen (snd ks))) (ct_states t))))"

text \<open>The state an event belongs to, and the tracker without it in the evicted store.\<close>

definition find_state :: "conversation_tracker \<Rightarrow> packet_event \<Rightarrow> conversation_state \<times> conversation_tracker" where
  "find_state t e =
     (let key = conversation_key_of e in
      case dict_get (ct_states t) key of
        Some s \<Rightarrow> (s, t)
      | None \<Rightarrow>
          (case dict_get (ct_evicted t) key of
             Some s \<Rightarrow> (s, t\<lparr>ct_evicted := dict_pop (ct_evicted t) key\<rparr>)
           | None \<Rightarrow>
               let syn_ack = (has_flag (CHR ''S'') (pe_flags e) \<and> has_flag (CHR ''A'') (pe_flags e));
                   source = event_source_endpoint e; destination = event_destination_endpoint e
               in (new_state key (if syn_ack then destination else source) (if syn_ack then source else destination)
                     (pe_timestamp e), t)))"

text \<open>The first non-blank value of each layer-7 name is kept.\<close>

definition merge_application :: "info \<Rightarrow> info \<Rightarrow> info" where
  "merge_application app additions =
     foldl (\<lambda>a (name, v). if dict_get a name = None \<and> \<not> py_blank v then dict_set a name v else a) app additions"

definition update_with_delta :: "conversation_tracker \<Rightarrow> packet_event \<Rightarrow> conversation_tracker \<times> info \<times> conversation_delta" where
  "update_with_delta t e =
     (let (before, t1) = find_state t e;
          (s1, direction) = state_update before e;
          s = s1\<lparr>cs_application := merge_application (cs_application s1) (l7_info e)\<rparr>;
          t2 = evict_if_needed (t1\<lparr>ct_states := dict_set (ct_states t1) (conversation_key_of e) s\<rparr>)
      in (t2, flow_metadata s direction, event_delta before s e direction))"

definition tracker_update :: "conversation_tracker \<Rightarrow> packet_event \<Rightarrow> conversation_tracker \<times> info" where
  "tracker_update t e = (case update_with_delta t e of (t', metadata, _) \<Rightarrow> (t', metadata))"

definition enrich_delta :: "conversation_tracker \<Rightarrow> conversation_delta \<Rightarrow> info \<Rightarrow> conversation_tracker \<times> conversation_delta" where
  "enrich_delta t d metadata =
     (let additions = filter (\<lambda>(name, v). \<not> py_blank v) metadata in
      case dict_get (ct_states t) (cd_key d) of
        Some s \<Rightarrow>
          let app = dict_update (cs_application s) additions in
          (t\<lparr>ct_states := dict_set (ct_states t) (cd_key d) (s\<lparr>cs_application := app\<rparr>)\<rparr>, d\<lparr>cd_application := app\<rparr>)
      | None \<Rightarrow> (t, d\<lparr>cd_application := dict_update (cd_application d) additions\<rparr>))"

definition drain_evicted :: "conversation_tracker \<Rightarrow> int \<Rightarrow> conversation_tracker \<times> conversation_delta list" where
  "drain_evicted t limit =
     (let n = nat (max 1 (min limit 1000)) in (t\<lparr>ct_pending := drop n (ct_pending t)\<rparr>, take n (ct_pending t)))"

definition expire :: "conversation_tracker \<Rightarrow> f64 \<Rightarrow> conversation_tracker" where
  "expire t before = t\<lparr>ct_states := filter (\<lambda>(k, s). \<not> f64_lt (cs_last_seen s) before) (ct_states t)\<rparr>"


section \<open>The final order\<close>

text \<open>\<open>repr\<close> of a frozen key.\<close>

definition repr_endpoint :: "endpoint \<Rightarrow> string" where
  "repr_endpoint ep = ''('' @ repr_str (fst ep) @ '', '' @ show_int (snd ep) @ '')''"

definition repr_key :: "conversation_key \<Rightarrow> string" where
  "repr_key k = ''ConversationKey(sensor_node_id='' @ repr_str (ck_sensor_node_id k) @ '', source='' @ repr_str (ck_source k)
     @ '', session_id='' @ repr_str (ck_session_id k) @ '', interface='' @ repr_str (ck_interface k)
     @ '', protocol='' @ repr_str (ck_protocol k) @ '', endpoint_a='' @ repr_endpoint (ck_endpoint_a k)
     @ '', endpoint_b='' @ repr_endpoint (ck_endpoint_b k) @ '')''"

definition finalize :: "conversation_tracker \<Rightarrow> conversation_delta list" where
  "finalize t = map final_delta
     (sort_key (\<lambda>s. (f64_key (cs_last_seen s), repr_key (cs_key s))) (map snd (ct_states t)))"

section \<open>The key\<close>

definition reverse_event :: "packet_event \<Rightarrow> packet_event" where
  "reverse_event e = e\<lparr>src_ip := dst_ip e, src_port := dst_port e, dst_ip := src_ip e, dst_port := src_port e\<rparr>"

lemma sort_two: "sort [a, b] = sort [b, (a :: 'a :: linorder)]"
  by (cases "a = b") auto

lemma reverse_same_key: "conversation_key_of (reverse_event e) = conversation_key_of e"
  by (simp add: conversation_key_of_def reverse_event_def event_source_endpoint_def event_destination_endpoint_def
      sort_two [of "(dst_ip e, dst_port e)"] del: sort_key_simps)

lemma key_endpoints: "{ck_endpoint_a (conversation_key_of e), ck_endpoint_b (conversation_key_of e)} =
    {event_source_endpoint e, event_destination_endpoint e}"
proof -
  have "{sort [x, y] ! 0, sort [x, y] ! 1} = {x, y}" for x y :: endpoint
    by (cases "x \<le> y") auto
  then show ?thesis by (simp add: conversation_key_of_def Let_def del: sort_key_simps)
qed

section \<open>One state\<close>

definition endpoints_match :: "conversation_state \<Rightarrow> bool" where
  "endpoints_match s \<longleftrightarrow> {cs_initiator s, cs_responder s} = {ck_endpoint_a (cs_key s), ck_endpoint_b (cs_key s)}"

definition counters_ok :: "conversation_state \<Rightarrow> bool" where
  "counters_ok s \<longleftrightarrow> cs_generation s = cs_to_responder_packets s + cs_to_initiator_packets s \<and>
     0 \<le> cs_to_responder_packets s \<and> 0 \<le> cs_to_initiator_packets s \<and>
     0 \<le> cs_syn_count s \<and> 0 \<le> cs_syn_ack_count s \<and> 0 \<le> cs_rst_count s \<and>
     cs_syn_count s + cs_syn_ack_count s \<le> cs_generation s \<and> cs_rst_count s \<le> cs_generation s \<and>
     (cs_established s \<longleftrightarrow> 0 < cs_syn_ack_count s)"

definition state_ok :: "conversation_state \<Rightarrow> bool" where
  "state_ok s \<longleftrightarrow> endpoints_match s \<and> counters_ok s"

lemma new_state_counters: "counters_ok (new_state k i r t)"
  by (simp add: counters_ok_def new_state_def)

named_theorems conv_simps \<open>fields after the conversation operations\<close>

lemma count_direction_fields [conv_simps]:
  "cs_key (count_direction e s) = cs_key s" "cs_initiator (count_direction e s) = cs_initiator s"
  "cs_responder (count_direction e s) = cs_responder s" "cs_generation (count_direction e s) = cs_generation s"
  "cs_syn_count (count_direction e s) = cs_syn_count s" "cs_syn_ack_count (count_direction e s) = cs_syn_ack_count s"
  "cs_rst_count (count_direction e s) = cs_rst_count s" "cs_established (count_direction e s) = cs_established s"
  "cs_last_seen (count_direction e s) = cs_last_seen s" "cs_first_seen (count_direction e s) = cs_first_seen s"
  "cs_application (count_direction e s) = cs_application s"
  by (simp_all add: count_direction_def)

lemma count_handshake_fields [conv_simps]:
  "cs_key (count_handshake f s) = cs_key s" "cs_initiator (count_handshake f s) = cs_initiator s"
  "cs_responder (count_handshake f s) = cs_responder s" "cs_generation (count_handshake f s) = cs_generation s"
  "cs_to_responder_packets (count_handshake f s) = cs_to_responder_packets s"
  "cs_to_initiator_packets (count_handshake f s) = cs_to_initiator_packets s"
  "cs_to_responder_bytes (count_handshake f s) = cs_to_responder_bytes s"
  "cs_to_initiator_bytes (count_handshake f s) = cs_to_initiator_bytes s"
  "cs_last_seen (count_handshake f s) = cs_last_seen s" "cs_first_seen (count_handshake f s) = cs_first_seen s"
  "cs_application (count_handshake f s) = cs_application s"
  by (simp_all add: count_handshake_def Let_def)

lemma state_update_fields:
  assumes "state_update s e = (s', d)"
  shows "cs_key s' = cs_key s" "cs_initiator s' = cs_initiator s" "cs_responder s' = cs_responder s"
    "cs_generation s' = cs_generation s + 1" "cs_first_seen s' = cs_first_seen s"
    "cs_last_seen s' = f64_max (cs_last_seen s) (pe_timestamp e)" "d = state_direction s e"
    "cs_to_responder_packets s' + cs_to_initiator_packets s' = cs_to_responder_packets s + cs_to_initiator_packets s + 1"
    "cs_to_responder_bytes s' + cs_to_initiator_bytes s' = cs_to_responder_bytes s + cs_to_initiator_bytes s + pe_size e"
  using assms by (auto simp: state_update_def Let_def conv_simps) (simp_all add: count_direction_def)

lemma count_handshake_counts [conv_simps]:
  "cs_syn_count (count_handshake f s) = cs_syn_count s + (if has_flag (CHR ''S'') f \<and> \<not> has_flag (CHR ''A'') f then 1 else 0)"
  "cs_syn_ack_count (count_handshake f s) = cs_syn_ack_count s + (if has_flag (CHR ''S'') f \<and> has_flag (CHR ''A'') f then 1 else 0)"
  "cs_rst_count (count_handshake f s) = cs_rst_count s + (if has_flag (CHR ''R'') f then 1 else 0)"
  "cs_established (count_handshake f s) = (cs_established s \<or> has_flag (CHR ''S'') f \<and> has_flag (CHR ''A'') f)"
  by (simp_all add: count_handshake_def Let_def)

lemma count_direction_nonneg:
  "0 \<le> cs_to_responder_packets s \<Longrightarrow> 0 \<le> cs_to_responder_packets (count_direction e s)"
  "0 \<le> cs_to_initiator_packets s \<Longrightarrow> 0 \<le> cs_to_initiator_packets (count_direction e s)"
  "cs_to_responder_packets (count_direction e s) + cs_to_initiator_packets (count_direction e s) =
     cs_to_responder_packets s + cs_to_initiator_packets s + 1"
  by (simp_all add: count_direction_def)

lemma state_update_counters:
  assumes c: "counters_ok s" and u: "state_update s e = (s', d)"
  shows "counters_ok s'"
proof -
  let ?s1 = "count_handshake (pe_flags e) (count_direction e s)"
  have f: "cs_to_responder_packets s' = cs_to_responder_packets (count_direction e s)"
     "cs_to_initiator_packets s' = cs_to_initiator_packets (count_direction e s)"
     "cs_generation s' = cs_generation s + 1" "cs_syn_count s' = cs_syn_count ?s1" "cs_syn_ack_count s' = cs_syn_ack_count ?s1"
     "cs_rst_count s' = cs_rst_count ?s1" "cs_established s' = cs_established ?s1"
    using u by (auto simp: state_update_def Let_def count_handshake_fields count_direction_fields)
  have c': "cs_generation s = cs_to_responder_packets s + cs_to_initiator_packets s"
     "0 \<le> cs_to_responder_packets s" "0 \<le> cs_to_initiator_packets s" "0 \<le> cs_syn_count s" "0 \<le> cs_syn_ack_count s" "0 \<le> cs_rst_count s"
     "cs_syn_count s + cs_syn_ack_count s \<le> cs_generation s" "cs_rst_count s \<le> cs_generation s"
     "cs_established s \<longleftrightarrow> 0 < cs_syn_ack_count s"
    using c unfolding counters_ok_def by blast+
  note n = count_direction_nonneg(1) [OF c'(2)] count_direction_nonneg(2) [OF c'(3)] count_direction_nonneg(3) [of e s]
  show ?thesis
    unfolding counters_ok_def f count_handshake_counts count_direction_fields using c' n
    by (cases "has_flag (CHR ''S'') (pe_flags e)"; cases "has_flag (CHR ''A'') (pe_flags e)"; cases "has_flag (CHR ''R'') (pe_flags e)")
      simp_all
qed


text \<open>A packet and its answer are counted on opposite sides.\<close>

lemma reverse_other_side:
  assumes "endpoints_match s" and "cs_key s = conversation_key_of e" and "event_source_endpoint e \<noteq> event_destination_endpoint e"
  shows "state_direction s (reverse_event e) \<noteq> state_direction s e"
proof -
  have "{cs_initiator s, cs_responder s} = {event_source_endpoint e, event_destination_endpoint e}"
    using assms(1,2) by (simp add: endpoints_match_def key_endpoints)
  then have "cs_initiator s = event_source_endpoint e \<or> cs_initiator s = event_destination_endpoint e" by blast
  moreover have "event_source_endpoint (reverse_event e) = event_destination_endpoint e"
    by (simp add: reverse_event_def event_source_endpoint_def event_destination_endpoint_def)
  ultimately show ?thesis using assms(3) unfolding state_direction_def by (elim disjE) simp_all
qed

section \<open>The tracker invariant\<close>

definition entry_ok :: "conversation_key \<times> conversation_state \<Rightarrow> bool" where
  "entry_ok ks \<longleftrightarrow> cs_key (snd ks) = fst ks \<and> state_ok (snd ks)"

definition stores_ok :: "conversation_tracker \<Rightarrow> bool" where
  "stores_ok t \<longleftrightarrow> 100 \<le> ct_maximum t \<and> dict_ok (ct_states t) \<and> dict_ok (ct_evicted t) \<and>
     fst ` set (ct_states t) \<inter> fst ` set (ct_evicted t) = {} \<and>
     list_all entry_ok (ct_states t) \<and> list_all entry_ok (ct_evicted t) \<and>
     length (ct_evicted t) \<le> ct_maximum t \<and> length (ct_pending t) \<le> pending_limit t"

definition tracker_ok :: "conversation_tracker \<Rightarrow> bool" where
  "tracker_ok t \<longleftrightarrow> stores_ok t \<and> length (ct_states t) \<le> ct_maximum t"

lemma pending_limit_updates [simp]:
  "pending_limit (t\<lparr>ct_states := a\<rparr>) = pending_limit t" "pending_limit (t\<lparr>ct_evicted := a\<rparr>) = pending_limit t"
  "pending_limit (t\<lparr>ct_pending := b\<rparr>) = pending_limit t" "pending_limit (t\<lparr>ct_had_evictions := c\<rparr>) = pending_limit t"
  "pending_limit (t\<lparr>ct_evidence_lost := c\<rparr>) = pending_limit t"
  by (simp_all add: pending_limit_def)

lemma tracker_init_ok: "tracker_ok (tracker_init m)"
  by (simp add: tracker_ok_def stores_ok_def tracker_init_def pending_limit_def)

lemma dict_pop_subset: "set (dict_pop d k) \<subseteq> set d"
proof (induction d)
  case (Cons p d)
  then show ?case by (cases p) auto
qed simp

lemma dict_pop_key_gone: "dict_ok d \<Longrightarrow> k \<notin> fst ` set (dict_pop d k)"
  by (subst dict_pop_keys) auto

lemma dict_pop_keys_sub: "fst ` set (dict_pop d k) \<subseteq> fst ` set d"
  using dict_pop_subset by (rule image_mono)

lemma list_all_dict_pop: "list_all P d \<Longrightarrow> list_all P (dict_pop d k)"
  using dict_pop_subset by (fastforce simp: list_all_iff)

lemma list_all_dict_set: "list_all P d \<Longrightarrow> P (k, v) \<Longrightarrow> list_all P (dict_set d k v)"
  by (induction d) auto

lemma dict_ok_append: "dict_ok d \<Longrightarrow> k \<notin> fst ` set d \<Longrightarrow> dict_ok (d @ [(k, v)])"
  by (simp add: dict_ok_def)

lemma dict_ok_tl: "dict_ok d \<Longrightarrow> dict_ok (tl d)"
  by (cases d) (simp_all add: dict_ok_def)

lemma evict_one_fields:
  "ct_maximum (evict_one t ks) = ct_maximum t" "ct_states (evict_one t ks) = dict_pop (ct_states t) (fst ks)"
  "pending_limit (evict_one t ks) = pending_limit t" "ct_evidence_lost t \<Longrightarrow> ct_evidence_lost (evict_one t ks)"
  by (simp_all add: evict_one_def Let_def pending_limit_def split: prod.split)

lemma evict_one_stores:
  "ct_evicted (evict_one t ks) = (let ev = dict_pop (ct_evicted t) (fst ks) @ [ks] in if length ev > ct_maximum t then tl ev else ev)"
  "ct_pending (evict_one t ks) = (if length (ct_pending t) = pending_limit t then tl (ct_pending t) else ct_pending t) @ [final_delta (snd ks)]"
  by (simp_all add: evict_one_def Let_def split: prod.split)

lemma set_tl_subset: "set (tl xs) \<subseteq> set xs"
  by (cases xs) auto

lemma evict_one_ok:
  assumes t: "stores_ok t" and e: "entry_ok ks"
  shows "stores_ok (evict_one t ks)"
proof -
  let ?k = "fst ks"
  define ev where "ev = dict_pop (ct_evicted t) ?k @ [ks]"
  define nev where "nev = (if length ev > ct_maximum t then tl ev else ev)"
  have d: "dict_ok (ct_states t)" "dict_ok (ct_evicted t)" using t by (simp_all add: stores_ok_def)
  have "dict_ok ev" unfolding ev_def using dict_ok_append [of "dict_pop (ct_evicted t) ?k" ?k "snd ks"] dict_pop_key_gone [OF d(2)] d(2) by simp
  then have n1: "dict_ok nev" by (simp add: nev_def dict_ok_tl)
  have sub: "set nev \<subseteq> insert ks (set (ct_evicted t))"
    using set_tl_subset [of ev] dict_pop_subset [of "ct_evicted t" ?k] by (auto simp: nev_def ev_def split: if_splits)
  have n2: "list_all entry_ok nev" using sub t e by (auto simp: stores_ok_def list_all_iff)
  have n3: "length nev \<le> ct_maximum t"
  proof -
    have "length ev \<le> Suc (ct_maximum t)" using t by (auto simp: ev_def stores_ok_def length_dict_pop)
    then show ?thesis by (auto simp: nev_def)
  qed
  have n4: "fst ` set (dict_pop (ct_states t) ?k) \<inter> fst ` set nev = {}"
  proof -
    have "fst ` set nev \<subseteq> insert ?k (fst ` set (ct_evicted t))" using image_mono [OF sub, of fst] by simp
    moreover have "fst ` set (ct_states t) \<inter> fst ` set (ct_evicted t) = {}" using t by (simp add: stores_ok_def)
    ultimately show ?thesis unfolding dict_pop_keys [OF d(1)] by blast
  qed
  have n5: "length (ct_pending (evict_one t ks)) \<le> pending_limit t"
  proof -
    have "length (ct_pending t) \<le> pending_limit t" using t by (simp add: stores_ok_def)
    moreover have "0 < pending_limit t" by (simp add: pending_limit_def)
    ultimately show ?thesis by (auto simp: evict_one_stores)
  qed
  have n6: "list_all entry_ok (dict_pop (ct_states t) ?k)" using t by (simp add: stores_ok_def list_all_dict_pop)
  have m: "100 \<le> ct_maximum t" using t by (simp add: stores_ok_def)
  have "ct_evicted (evict_one t ks) = nev" by (simp add: evict_one_stores Let_def nev_def ev_def)
  with n1 n2 n3 n4 n5 n6 m d show ?thesis
    by (simp only: stores_ok_def evict_one_fields dict_pop_ok simp_thms)
qed

lemma evict_many_ok: "stores_ok t \<Longrightarrow> list_all entry_ok l \<Longrightarrow> stores_ok (foldl evict_one t l)"
  by (induction l arbitrary: t) (simp_all add: evict_one_ok)

lemma evict_many_length:
  "dict_ok (ct_states t) \<Longrightarrow> distinct (map fst l) \<Longrightarrow> fst ` set l \<subseteq> fst ` set (ct_states t) \<Longrightarrow>
     length (ct_states (foldl evict_one t l)) = length (ct_states t) - length l"
proof (induction l arbitrary: t)
  case (Cons ks l)
  let ?t = "evict_one t ks"
  have "fst ` set (ct_states ?t) = fst ` set (ct_states t) - {fst ks}"
    using dict_pop_keys [OF Cons.prems(1)] by (simp add: evict_one_fields)
  moreover have "fst ks \<notin> fst ` set l" using Cons.prems(2) by simp
  moreover have "fst ` set l \<subseteq> fst ` set (ct_states t)" using Cons.prems(3) by simp
  ultimately have "fst ` set l \<subseteq> fst ` set (ct_states ?t)" by (simp only: subset_Diff_insert Diff_empty simp_thms)
  from Cons.IH [OF _ _ this] Cons.prems(1,2)
  have "length (ct_states (foldl evict_one ?t l)) = length (ct_states ?t) - length l" by (simp add: evict_one_fields)
  moreover have "length (ct_states ?t) = length (ct_states t) - 1"
    using Cons.prems(3) length_dict_pop [of "ct_states t" "fst ks"] by (simp add: evict_one_fields)
  ultimately show ?case by simp
qed simp

lemma oldest_entries:
  assumes "dict_ok d"
  shows "distinct (map fst (take n (sort_key f d)))" and "set (take n (sort_key f d)) \<subseteq> set d"
proof -
  have m: "mset (map fst (sort_key f d)) = mset (map fst d)" by (simp add: mset_map)
  then have "distinct (map fst (sort_key f d))" using assms unfolding dict_ok_def by (metis mset_eq_imp_distinct_iff)
  then show "distinct (map fst (take n (sort_key f d)))" by (simp add: take_map [symmetric])
  show "set (take n (sort_key f d)) \<subseteq> set d" using set_take_subset [of n "sort_key f d"] by simp
qed

lemma evict_if_needed_ok:
  assumes t: "stores_ok t"
  shows "tracker_ok (evict_if_needed t)"
proof (cases "length (ct_states t) \<le> ct_maximum t")
  case True
  with t show ?thesis by (simp add: evict_if_needed_def tracker_ok_def)
next
  case False
  let ?n = "length (ct_states t) - ct_maximum t" and ?f = "\<lambda>ks. f64_key (cs_last_seen (snd ks))"
  let ?l = "take ?n (sort_key ?f (ct_states t))"
  have d: "dict_ok (ct_states t)" using t by (simp add: stores_ok_def)
  note o = oldest_entries [OF d, of ?n ?f]
  have "list_all entry_ok ?l" using t o(2) by (auto simp: stores_ok_def list_all_iff)
  with evict_many_ok [OF t] have s: "stores_ok (foldl evict_one t ?l)" by blast
  have "fst ` set ?l \<subseteq> fst ` set (ct_states t)" using o(2) by blast
  from evict_many_length [OF d o(1) this] False have "length (ct_states (foldl evict_one t ?l)) = ct_maximum t" by simp
  moreover have "ct_maximum (foldl evict_one t l) = ct_maximum t" for l
    by (induction l arbitrary: t) (simp_all add: evict_one_fields)
  ultimately show ?thesis using s False by (simp add: evict_if_needed_def tracker_ok_def)
qed

lemma new_state_match: "endpoints_match (new_state k i r t) \<longleftrightarrow> {i, r} = {ck_endpoint_a k, ck_endpoint_b k}"
  by (simp add: endpoints_match_def new_state_def)

lemma find_state_ok:
  assumes t: "tracker_ok t" and f: "find_state t e = (s, t')"
  shows "stores_ok t' \<and> endpoints_match s \<and> counters_ok s \<and> cs_key s = conversation_key_of e \<and>
     ct_states t' = ct_states t \<and> conversation_key_of e \<notin> fst ` set (ct_evicted t')"
proof -
  let ?k = "conversation_key_of e"
  have d: "dict_ok (ct_states t)" "dict_ok (ct_evicted t)" and ok: "stores_ok t" using t by (simp_all add: tracker_ok_def stores_ok_def)
  have from_dict: "endpoints_match x \<and> counters_ok x \<and> cs_key x = k" if "map_of dd k = Some x" "list_all entry_ok dd" for dd k x
    using that by (auto simp: list_all_iff entry_ok_def state_ok_def dest!: map_of_SomeD)
  show ?thesis
  proof (cases "map_of (ct_states t) ?k")
    case (Some x)
    then have "?k \<in> fst ` set (ct_states t)" by (metis domI dom_map_of_conv_image_fst)
    with Some f ok show ?thesis
      using from_dict [OF Some] by (auto simp: find_state_def dict_simps stores_ok_def)
  next
    case None
    show ?thesis
    proof (cases "map_of (ct_evicted t) ?k")
      case (Some x)
      have t': "t' = t\<lparr>ct_evicted := dict_pop (ct_evicted t) ?k\<rparr>" "s = x"
        using f None Some by (simp_all add: find_state_def dict_simps)
      have "stores_ok t'"
        using ok dict_pop_keys_sub [of "ct_evicted t" ?k] unfolding stores_ok_def t'(1)
        by (auto simp: list_all_dict_pop length_dict_pop)
      moreover have "endpoints_match s \<and> counters_ok s \<and> cs_key s = ?k"
        using from_dict [OF Some] ok by (simp add: stores_ok_def t'(2))
      ultimately show ?thesis using dict_pop_key_gone [OF d(2)] by (simp add: t'(1))
    next
      case N: None
      then have "?k \<notin> fst ` set (ct_evicted t)" by (simp add: map_of_eq_None_iff)
      moreover have "\<exists>i r. s = new_state ?k i r (pe_timestamp e) \<and> {i, r} = {event_source_endpoint e, event_destination_endpoint e}" "t' = t"
        using f None N by (cases "has_flag (CHR ''S'') (pe_flags e) \<and> has_flag (CHR ''A'') (pe_flags e)";
            simp add: find_state_def dict_simps Let_def del: split_paired_Ex; blast)+
      then obtain i r where s: "s = new_state ?k i r (pe_timestamp e)" "{i, r} = {event_source_endpoint e, event_destination_endpoint e}"
        and "t' = t" by blast
      ultimately show ?thesis
        using ok by (simp add: s(1) new_state_counters new_state_match s(2) key_endpoints) (simp add: new_state_def)
    qed
  qed
qed

text \<open>The shape of one update: the looked-up state is counted, stored, and the surplus evicted.\<close>

lemma update_shape:
  assumes "find_state t e = (before, t1)" "state_update before e = (s1, dir)"
    "s = s1\<lparr>cs_application := merge_application (cs_application s1) (l7_info e)\<rparr>"
  shows "update_with_delta t e =
    (evict_if_needed (t1\<lparr>ct_states := dict_set (ct_states t1) (conversation_key_of e) s\<rparr>),
     flow_metadata s dir, event_delta before s e dir)"
  unfolding update_with_delta_def assms(1) prod.case Let_def assms(2) assms(3) [symmetric] by (rule refl)

lemma application_irrelevant:
  "endpoints_match (s\<lparr>cs_application := a\<rparr>) = endpoints_match s" "counters_ok (s\<lparr>cs_application := a\<rparr>) = counters_ok s"
  by (simp_all add: endpoints_match_def counters_ok_def)

lemma updated_state_ok:
  assumes "endpoints_match b" "counters_ok b" "cs_key b = k" "state_update b e = (s1, dir)"
  shows "entry_ok (k, s1\<lparr>cs_application := a\<rparr>)"
  using assms state_update_counters [OF assms(2,4)] state_update_fields [OF assms(4)]
  by (simp add: entry_ok_def state_ok_def application_irrelevant) (simp add: endpoints_match_def)

lemma stored_ok:
  assumes "stores_ok t" "entry_ok (k, s)" "k \<notin> fst ` set (ct_evicted t)"
  shows "stores_ok (t\<lparr>ct_states := dict_set (ct_states t) k s\<rparr>)"
  using assms by (simp add: stores_ok_def dict_set_keys list_all_dict_set)

lemma update_with_delta_ok:
  assumes t: "tracker_ok t" and u: "update_with_delta t e = (t', m, d)"
  shows "tracker_ok t'"
proof -
  obtain b t1 where f1: "find_state t e = (b, t1)" by (cases "find_state t e")
  obtain s1 dir where f2: "state_update b e = (s1, dir)" by (cases "state_update b e")
  define s where f3: "s = s1\<lparr>cs_application := merge_application (cs_application s1) (l7_info e)\<rparr>"
  have f4: "t' = evict_if_needed (t1\<lparr>ct_states := dict_set (ct_states t1) (conversation_key_of e) s\<rparr>)"
    using u unfolding update_shape [OF f1 f2 f3] prod.inject by (rule conjunct1 [THEN sym])
  note b = find_state_ok [OF t f1]
  have "entry_ok (conversation_key_of e, s)" unfolding f3 using b f2 by (intro updated_state_ok) simp_all
  with b show ?thesis unfolding f4 by (intro evict_if_needed_ok stored_ok) simp_all
qed

lemma enrich_delta_ok:
  assumes "tracker_ok t" and "enrich_delta t d m = (t', d')"
  shows "tracker_ok t'"
proof (cases "map_of (ct_states t) (cd_key d)")
  case None
  with assms show ?thesis by (simp add: enrich_delta_def dict_simps Let_def)
next
  case (Some s)
  then have m: "(cd_key d, s) \<in> set (ct_states t)" by (rule map_of_SomeD)
  have ok: "stores_ok t" "length (ct_states t) \<le> ct_maximum t" using assms(1) by (simp_all add: tracker_ok_def)
  obtain a where t': "t' = t\<lparr>ct_states := dict_set (ct_states t) (cd_key d) (s\<lparr>cs_application := a\<rparr>)\<rparr>"
    using assms(2) Some by (auto simp: enrich_delta_def dict_simps Let_def)
  have "entry_ok (cd_key d, s)" using m ok(1) by (simp add: stores_ok_def list_all_iff)
  then have e: "entry_ok (cd_key d, s\<lparr>cs_application := a\<rparr>)" by (simp add: entry_ok_def state_ok_def application_irrelevant)
  have k: "cd_key d \<in> fst ` set (ct_states t)" using m by (rule rev_image_eqI) simp
  then have "cd_key d \<notin> fst ` set (ct_evicted t)" using ok(1) unfolding stores_ok_def by blast
  with stored_ok [OF ok(1) e] have "stores_ok t'" by (simp add: t')
  with ok(2) k show ?thesis by (simp add: tracker_ok_def t' length_dict_set)
qed

lemma drain_evicted_ok: "tracker_ok t \<Longrightarrow> tracker_ok (fst (drain_evicted t n))"
  by (auto simp: tracker_ok_def stores_ok_def drain_evicted_def Let_def)

lemma expire_ok:
  assumes "tracker_ok t"
  shows "tracker_ok (expire t b)"
proof -
  let ?P = "\<lambda>(k :: conversation_key, s). \<not> f64_lt (cs_last_seen s) b" and ?d = "ct_states t"
  have "dict_ok (filter ?P ?d)" using assms by (simp add: tracker_ok_def stores_ok_def dict_ok_def distinct_map_filter)
  moreover have "fst ` set (filter ?P ?d) \<inter> fst ` set (ct_evicted t) = {}"
  proof -
    have "fst ` set (filter ?P ?d) \<subseteq> fst ` set ?d" by (rule image_mono) simp
    moreover have "fst ` set ?d \<inter> fst ` set (ct_evicted t) = {}" using assms by (simp add: tracker_ok_def stores_ok_def)
    ultimately show ?thesis by blast
  qed
  moreover have "list_all entry_ok (filter ?P ?d)" using assms by (simp add: tracker_ok_def stores_ok_def list_all_iff)
  moreover have "length (filter ?P ?d) \<le> ct_maximum t"
    by (rule order_trans [OF length_filter_le]) (use assms in \<open>simp add: tracker_ok_def\<close>)
  ultimately show ?thesis using assms by (simp add: tracker_ok_def stores_ok_def expire_def)
qed

text \<open>Every call the packet engine makes on a tracker.\<close>

datatype tracker_op = UpdateOp packet_event | EnrichOp conversation_delta info | DrainOp int | ExpireOp f64

definition tracker_step :: "conversation_tracker \<Rightarrow> tracker_op \<Rightarrow> conversation_tracker" where
  "tracker_step t op = (case op of
     UpdateOp e \<Rightarrow> fst (update_with_delta t e)
   | EnrichOp d m \<Rightarrow> fst (enrich_delta t d m)
   | DrainOp n \<Rightarrow> fst (drain_evicted t n)
   | ExpireOp b \<Rightarrow> expire t b)"

lemma tracker_step_ok: "tracker_ok t \<Longrightarrow> tracker_ok (tracker_step t op)"
proof (cases op)
  case (UpdateOp e)
  assume "tracker_ok t"
  then show ?thesis using update_with_delta_ok [of t e] by (cases "update_with_delta t e") (simp add: tracker_step_def UpdateOp)
next
  case (EnrichOp d m)
  assume "tracker_ok t"
  then show ?thesis using enrich_delta_ok [of t d m] by (cases "enrich_delta t d m") (simp add: tracker_step_def EnrichOp)
qed (simp_all add: tracker_step_def drain_evicted_ok expire_ok)

lemma tracker_run_ok: "tracker_ok t \<Longrightarrow> tracker_ok (foldl tracker_step t ops)"
  by (induction ops arbitrary: t) (simp_all add: tracker_step_ok)

section \<open>Conservation\<close>

text \<open>What the tracker still holds, weighed by \<open>w\<close>: the live conversations and the evicted ones it can resume.\<close>

definition dict_total :: "(conversation_state \<Rightarrow> int) \<Rightarrow> (conversation_key, conversation_state) dict \<Rightarrow> int" where
  "dict_total w d = sum_list (map (\<lambda>(k, s). w s) d)"

definition held :: "(conversation_state \<Rightarrow> int) \<Rightarrow> conversation_tracker \<Rightarrow> int" where
  "held w t = dict_total w (ct_states t) + dict_total w (ct_evicted t)"

lemma dict_total_simps [simp]:
  "dict_total w [] = 0" "dict_total w ((k, s) # d) = w s + dict_total w d" "dict_total w (d @ d') = dict_total w d + dict_total w d'"
  by (simp_all add: dict_total_def)

lemma dict_total_pop: "dict_total w (dict_pop d k) = dict_total w d - (case map_of d k of Some s \<Rightarrow> w s | None \<Rightarrow> 0)"
  by (induction d k rule: dict_pop.induct) auto

lemma dict_total_set: "dict_total w (dict_set d k s) = dict_total w d - (case map_of d k of Some s \<Rightarrow> w s | None \<Rightarrow> 0) + w s"
  by (induction d k s rule: dict_set.induct) auto

lemma map_of_absent: "k \<notin> fst ` set d \<Longrightarrow> map_of d k = None"
  by (simp add: map_of_eq_None_iff)

lemma evict_one_held:
  assumes t: "stores_ok t" and m: "ks \<in> set (ct_states t)" and l: "\<not> ct_evidence_lost (evict_one t ks)"
  shows "held w (evict_one t ks) = held w t"
proof -
  obtain k s where ks: "ks = (k, s)" by (cases ks)
  have "k \<in> fst ` set (ct_states t)" using m ks by force
  moreover have d: "fst ` set (ct_states t) \<inter> fst ` set (ct_evicted t) = {}" "distinct (map fst (ct_states t))"
    using t by (simp_all add: stores_ok_def dict_ok_def)
  ultimately have "k \<notin> fst ` set (ct_evicted t)" by blast
  then have a: "map_of (ct_evicted t) k = None" by (rule map_of_absent)
  have "map_of (ct_states t) k = Some s" using m d(2) unfolding ks by (rule map_of_is_SomeI [rotated])
  moreover have "ct_evicted (evict_one t ks) = dict_pop (ct_evicted t) k @ [(k, s)]"
    using l by (simp add: evict_one_def ks Let_def split: if_splits)
  ultimately show ?thesis by (simp add: held_def evict_one_fields ks dict_total_pop a)
qed

lemma evict_many_held:
  "stores_ok t \<Longrightarrow> list_all entry_ok l \<Longrightarrow> distinct (map fst l) \<Longrightarrow> set l \<subseteq> set (ct_states t) \<Longrightarrow>
     \<not> ct_evidence_lost (foldl evict_one t l) \<Longrightarrow> held w (foldl evict_one t l) = held w t \<and> \<not> ct_evidence_lost t"
proof (induction l arbitrary: t)
  case (Cons ks l)
  let ?t = "evict_one t ks"
  have e: "entry_ok ks" "list_all entry_ok l" "ks \<in> set (ct_states t)" using Cons.prems(2,4) by simp_all
  have d: "dict_ok (ct_states t)" using Cons.prems(1) by (simp add: stores_ok_def)
  have "set l \<subseteq> set (ct_states ?t)"
    using Cons.prems(3,4) by (auto simp: evict_one_fields dict_pop_filter [OF d] image_iff)
  with Cons.IH [OF evict_one_ok [OF Cons.prems(1) e(1)] e(2)] Cons.prems(3,5)
  have ih: "held w (foldl evict_one ?t l) = held w ?t" "\<not> ct_evidence_lost ?t" by simp_all
  have "\<not> ct_evidence_lost t" using ih(2) evict_one_fields(4) by blast
  with ih evict_one_held [OF Cons.prems(1) e(3) ih(2)] show ?case by simp
qed simp

lemma evict_if_needed_held:
  assumes t: "stores_ok t" and l: "\<not> ct_evidence_lost (evict_if_needed t)"
  shows "held w (evict_if_needed t) = held w t \<and> \<not> ct_evidence_lost t"
proof (cases "length (ct_states t) \<le> ct_maximum t")
  case True
  with l show ?thesis by (simp add: evict_if_needed_def)
next
  case False
  let ?l = "take (length (ct_states t) - ct_maximum t) (sort_key (\<lambda>ks. f64_key (cs_last_seen (snd ks))) (ct_states t))"
  have e: "evict_if_needed t = foldl evict_one t ?l" using False by (simp add: evict_if_needed_def)
  have "dict_ok (ct_states t)" using t by (simp add: stores_ok_def)
  note o = oldest_entries [OF this]
  have "list_all entry_ok ?l" using t o(2) unfolding stores_ok_def list_all_iff by blast
  from evict_many_held [OF t this o] l show ?thesis unfolding e by blast
qed

definition zero_weight :: "(conversation_state \<Rightarrow> int) \<Rightarrow> bool" where
  "zero_weight w \<longleftrightarrow> (\<forall>k i r t. w (new_state k i r t) = 0)"

lemma find_state_held:
  assumes t: "tracker_ok t" and f: "find_state t e = (b, t')" and w: "zero_weight w"
  shows "held w t = held w (t'\<lparr>ct_states := dict_set (ct_states t') (conversation_key_of e) s\<rparr>) - w s + w b \<and>
    ct_evidence_lost t' = ct_evidence_lost t"
proof -
  let ?k = "conversation_key_of e"
  have d: "fst ` set (ct_states t) \<inter> fst ` set (ct_evicted t) = {}" using t by (simp add: tracker_ok_def stores_ok_def)
  show ?thesis
  proof (cases "map_of (ct_states t) ?k")
    case (Some x)
    with f show ?thesis by (auto simp: find_state_def dict_simps held_def dict_total_set)
  next
    case None
    show ?thesis
    proof (cases "map_of (ct_evicted t) ?k")
      case (Some x)
      with f None show ?thesis by (auto simp: find_state_def dict_simps held_def dict_total_set dict_total_pop)
    next
      case N: None
      have "w (new_state k i r x) = 0" for k i r x using w by (simp only: zero_weight_def)
      note z = this [of ?k "event_source_endpoint e" "event_destination_endpoint e" "pe_timestamp e"]
        this [of ?k "event_destination_endpoint e" "event_source_endpoint e" "pe_timestamp e"]
      have "t' = t" "w b = 0" using f None N z by (auto simp: find_state_def dict_simps Let_def)
      with None show ?thesis by (simp add: held_def dict_total_set)
    qed
  qed
qed

text \<open>One update adds exactly its own weight, or raises the flag.\<close>

lemma update_held:
  assumes t: "tracker_ok t" and w: "zero_weight w" "\<And>b a. w (b\<lparr>cs_application := a\<rparr>) = w b"
    and g: "\<And>b s d. state_update b e = (s, d) \<Longrightarrow> w s = w b + g"
    and l: "\<not> ct_evidence_lost (fst (update_with_delta t e))"
  shows "held w (fst (update_with_delta t e)) = held w t + g \<and> \<not> ct_evidence_lost t"
proof -
  obtain b t1 where f1: "find_state t e = (b, t1)" by (cases "find_state t e")
  obtain s1 dir where f2: "state_update b e = (s1, dir)" by (cases "state_update b e")
  define s where f3: "s = s1\<lparr>cs_application := merge_application (cs_application s1) (l7_info e)\<rparr>"
  let ?t = "t1\<lparr>ct_states := dict_set (ct_states t1) (conversation_key_of e) s\<rparr>"
  have u: "fst (update_with_delta t e) = evict_if_needed ?t" using update_shape [OF f1 f2 f3] by simp
  note b = find_state_ok [OF t f1]
  have "entry_ok (conversation_key_of e, s)" unfolding f3 using b f2 by (intro updated_state_ok) simp_all
  with b have ok: "stores_ok ?t" by (intro stored_ok) simp_all
  from evict_if_needed_held [OF ok] l have "held w (evict_if_needed ?t) = held w ?t" "\<not> ct_evidence_lost ?t"
    unfolding u by blast+
  moreover have "w s = w b + g" unfolding f3 w(2) by (rule g [OF f2])
  ultimately show ?thesis using find_state_held [OF t f1 w(1), of s] unfolding u by simp
qed

text \<open>A run of updates.\<close>

definition observe_all :: "conversation_tracker \<Rightarrow> packet_event list \<Rightarrow> conversation_tracker" where
  "observe_all t es = foldl (\<lambda>t e. fst (update_with_delta t e)) t es"

lemma observe_all_ok: "tracker_ok t \<Longrightarrow> tracker_ok (observe_all t es)"
proof (induction es arbitrary: t)
  case (Cons e es)
  from Cons.prems update_with_delta_ok [of t e] have "tracker_ok (fst (update_with_delta t e))"
    by (cases "update_with_delta t e") simp
  from Cons.IH [OF this] show ?case by (simp add: observe_all_def)
qed (simp add: observe_all_def)

lemma observe_all_held:
  assumes w: "zero_weight w" "\<And>b a. w (b\<lparr>cs_application := a\<rparr>) = w b"
    and g: "\<And>e b s d. state_update b e = (s, d) \<Longrightarrow> w s = w b + g e"
  shows "tracker_ok t \<Longrightarrow> \<not> ct_evidence_lost (observe_all t es) \<Longrightarrow>
    held w (observe_all t es) = held w t + sum_list (map g es)"
proof (induction es rule: rev_induct)
  case (snoc e es)
  let ?t = "observe_all t es"
  have u: "observe_all t (es @ [e]) = fst (update_with_delta ?t e)" by (simp add: observe_all_def)
  have "\<not> ct_evidence_lost (fst (update_with_delta ?t e))" using snoc.prems(2) unfolding u .
  from update_held [OF observe_all_ok [OF snoc.prems(1)] w g [of _ e] this]
  have "held w (fst (update_with_delta ?t e)) = held w ?t + g e" "\<not> ct_evidence_lost ?t" by simp_all
  with snoc.IH [OF snoc.prems(1)] show ?case unfolding u by simp
qed (simp add: observe_all_def)

definition conversation_bytes :: "conversation_state \<Rightarrow> int" where
  "conversation_bytes s = cs_to_responder_bytes s + cs_to_initiator_bytes s"

lemma packets_conserved:
  "tracker_ok t \<Longrightarrow> \<not> ct_evidence_lost (observe_all t es) \<Longrightarrow>
     held cs_generation (observe_all t es) = held cs_generation t + int (length es)"
  using observe_all_held [of cs_generation "\<lambda>_. 1" t es]
  by (simp add: zero_weight_def new_state_def state_update_fields sum_list_triv)

lemma bytes_conserved:
  "tracker_ok t \<Longrightarrow> \<not> ct_evidence_lost (observe_all t es) \<Longrightarrow>
     held conversation_bytes (observe_all t es) = held conversation_bytes t + sum_list (map pe_size es)"
  using observe_all_held [of conversation_bytes pe_size t es]
  by (simp add: zero_weight_def new_state_def conversation_bytes_def state_update_fields)

text \<open>
  Expiry gives conversations up without a final record and without raising the flag.  The ledger of a
  run of calls therefore has three columns: what the calls brought in, what is still held, and what
  expiry removed, conversation by conversation.
\<close>

definition expired_by :: "conversation_tracker \<Rightarrow> tracker_op \<Rightarrow> conversation_state list" where
  "expired_by t op = (case op of ExpireOp before \<Rightarrow> filter (\<lambda>s. f64_lt (cs_last_seen s) before) (map snd (ct_states t)) | _ \<Rightarrow> [])"

fun expired_over :: "conversation_tracker \<Rightarrow> tracker_op list \<Rightarrow> conversation_state list" where
  "expired_over t [] = []"
| "expired_over t (op # ops) = expired_by t op @ expired_over (tracker_step t op) ops"

fun shown :: "tracker_op list \<Rightarrow> packet_event list" where
  "shown [] = []"
| "shown (UpdateOp e # ops) = e # shown ops"
| "shown (_ # ops) = shown ops"

definition weigh :: "(conversation_state \<Rightarrow> int) \<Rightarrow> conversation_state list \<Rightarrow> int" where
  "weigh w ss = sum_list (map w ss)"

lemma weigh_append: "weigh w (ss @ ss') = weigh w ss + weigh w ss'"
  by (simp add: weigh_def)

lemma dict_total_partition:
  "dict_total w (filter (\<lambda>(k, s). \<not> P s) d) + weigh w (filter P (map snd d)) = dict_total w d"
  by (induction d) (auto simp: weigh_def)

lemma enrich_held:
  assumes w: "\<And>b a. w (b\<lparr>cs_application := a\<rparr>) = w b"
  shows "held w (fst (enrich_delta t d m)) = held w t \<and> ct_evidence_lost (fst (enrich_delta t d m)) = ct_evidence_lost t"
  by (auto simp: enrich_delta_def held_def dict_total_set dict_simps w Let_def split: option.splits)

lemma step_held:
  assumes t: "tracker_ok t" and w: "zero_weight w" "\<And>b a. w (b\<lparr>cs_application := a\<rparr>) = w b"
    and g: "\<And>e b s d. state_update b e = (s, d) \<Longrightarrow> w s = w b + g e"
    and l: "\<not> ct_evidence_lost (tracker_step t op)"
  shows "held w (tracker_step t op) + weigh w (expired_by t op) = held w t + sum_list (map g (shown [op])) \<and> \<not> ct_evidence_lost t"
proof (cases op)
  case (UpdateOp e)
  with update_held [OF t w g [of _ e]] l show ?thesis by (simp add: tracker_step_def expired_by_def weigh_def)
next
  case (EnrichOp d m)
  with enrich_held [of w t d m] w(2) l show ?thesis by (simp add: tracker_step_def expired_by_def weigh_def)
next
  case (DrainOp n)
  with l show ?thesis by (simp add: tracker_step_def expired_by_def weigh_def drain_evicted_def held_def Let_def)
next
  case (ExpireOp before)
  with l dict_total_partition [of w "\<lambda>s. f64_lt (cs_last_seen s) before" "ct_states t"] show ?thesis
    by (simp add: tracker_step_def expired_by_def expire_def held_def)
qed

lemma shown_Cons: "shown (op # ops) = shown [op] @ shown ops"
  by (cases op) simp_all

lemma run_held:
  assumes w: "zero_weight w" "\<And>b a. w (b\<lparr>cs_application := a\<rparr>) = w b"
    and g: "\<And>e b s d. state_update b e = (s, d) \<Longrightarrow> w s = w b + g e"
  shows "tracker_ok t \<Longrightarrow> \<not> ct_evidence_lost (foldl tracker_step t ops) \<Longrightarrow>
    held w (foldl tracker_step t ops) + weigh w (expired_over t ops) = held w t + sum_list (map g (shown ops)) \<and> \<not> ct_evidence_lost t"
proof (induction ops arbitrary: t)
  case (Cons op ops)
  have "\<not> ct_evidence_lost (foldl tracker_step (tracker_step t op) ops)" using Cons.prems(2) by simp
  from Cons.IH [OF tracker_step_ok [OF Cons.prems(1)] this]
  have ih: "held w (foldl tracker_step (tracker_step t op) ops) + weigh w (expired_over (tracker_step t op) ops) =
      held w (tracker_step t op) + sum_list (map g (shown ops))" "\<not> ct_evidence_lost (tracker_step t op)" by blast+
  have "held w (tracker_step t op) + weigh w (expired_by t op) = held w t + sum_list (map g (shown [op])) \<and> \<not> ct_evidence_lost t"
    by (rule step_held [OF Cons.prems(1) w _ ih(2)]) (rule g)
  with ih(1) show ?case
    unfolding shown_Cons [of op ops] by (simp add: weigh_append)
qed (simp add: weigh_def)

lemma packets_ledger:
  "tracker_ok t \<Longrightarrow> \<not> ct_evidence_lost (foldl tracker_step t ops) \<Longrightarrow>
     held cs_generation (foldl tracker_step t ops) + weigh cs_generation (expired_over t ops) = held cs_generation t + int (length (shown ops))"
  using run_held [of cs_generation "\<lambda>_. 1" t ops]
  by (simp add: zero_weight_def new_state_def state_update_fields sum_list_triv)

lemma bytes_ledger:
  "tracker_ok t \<Longrightarrow> \<not> ct_evidence_lost (foldl tracker_step t ops) \<Longrightarrow>
     held conversation_bytes (foldl tracker_step t ops) + weigh conversation_bytes (expired_over t ops) =
     held conversation_bytes t + sum_list (map pe_size (shown ops))"
  using run_held [of conversation_bytes pe_size t ops]
  by (simp add: zero_weight_def new_state_def conversation_bytes_def state_update_fields)

text \<open>Only a conversation idle since before one of the cut-offs is removed that way.\<close>

definition idle_at :: "tracker_op list \<Rightarrow> conversation_state \<Rightarrow> bool" where
  "idle_at ops s \<longleftrightarrow> list_ex (\<lambda>op. case op of ExpireOp before \<Rightarrow> f64_lt (cs_last_seen s) before | _ \<Rightarrow> False) ops"

lemma expired_idle: "list_all (idle_at ops) (expired_over t ops)"
proof (induction ops arbitrary: t)
  case (Cons op ops)
  have "list_all (idle_at (op # ops)) (expired_by t op)"
    by (cases op) (auto simp: expired_by_def idle_at_def list_all_iff)
  moreover have "list_all (idle_at (op # ops)) (expired_over (tracker_step t op) ops)"
    using Cons.IH [of "tracker_step t op"] by (auto simp: idle_at_def list_all_iff)
  ultimately show ?case by simp
qed simp

section \<open>The emitted records\<close>

text \<open>A delta agrees with itself: its counts are cumulative, and its handshake deltas are single flags.\<close>

lemma event_delta_consistent:
  assumes t: "tracker_ok t" and u: "update_with_delta t e = (t', m, d)"
  shows "cd_key d = conversation_key_of e \<and> 1 \<le> cd_generation d \<and>
    cd_generation d = cd_to_responder_packets d + cd_to_initiator_packets d \<and>
    cd_syn_delta d + cd_syn_ack_delta d \<le> 1 \<and> cd_syn_delta d \<le> cd_syn_count d \<and>
    (cd_established d \<longleftrightarrow> 0 < cd_syn_ack_count d) \<and>
    {cd_initiator d, cd_responder d} = {event_source_endpoint e, event_destination_endpoint e}"
proof -
  obtain b t1 where f1: "find_state t e = (b, t1)" by (cases "find_state t e")
  obtain s1 dir where f2: "state_update b e = (s1, dir)" by (cases "state_update b e")
  define s where f3: "s = s1\<lparr>cs_application := merge_application (cs_application s1) (l7_info e)\<rparr>"
  have d: "d = event_delta b s e dir"
    using u unfolding update_shape [OF f1 f2 f3] prod.inject by (elim conjE) (rule sym)
  note b = find_state_ok [OF t f1]
  have c: "counters_ok b" "counters_ok s1" using b state_update_counters [OF _ f2] by blast+
  have n: "cs_syn_count s1 - cs_syn_count b + (cs_syn_ack_count s1 - cs_syn_ack_count b) \<le> 1"
    using f2 by (auto simp: state_update_def Let_def conv_simps)
  have g: "cs_generation s1 = cs_generation b + 1" "cs_key s1 = conversation_key_of e"
    using state_update_fields(1,4) [OF f2] b by simp_all
  have "endpoints_match s1" using b state_update_fields(1-3) [OF f2] by (simp add: endpoints_match_def)
  then have "{cs_initiator s1, cs_responder s1} = {event_source_endpoint e, event_destination_endpoint e}"
    by (simp add: endpoints_match_def g(2) key_endpoints)
  with c n g show ?thesis unfolding d f3 by (simp add: event_delta_def counters_ok_def)
qed

text \<open>Closing reports every live conversation once, oldest first.\<close>

lemma finalize_complete:
  "mset (map cd_key (finalize t)) = mset (map (cs_key \<circ> snd) (ct_states t))"
  "sorted (map (\<lambda>d. f64_key (cd_event_time d)) (finalize t))"
proof -
  let ?f = "\<lambda>s. (f64_key (cs_last_seen s), repr_key (cs_key s))"
  have "mset (map cd_key (finalize t)) = image_mset cs_key (mset (sort_key ?f (map snd (ct_states t))))"
    by (simp add: finalize_def final_delta_def comp_def del: mset_sort)
  then show "mset (map cd_key (finalize t)) = mset (map (cs_key \<circ> snd) (ct_states t))"
    by (simp add: multiset.map_comp comp_def)
  have "sorted (map ?f (sort_key ?f (map snd (ct_states t))))" by (rule sorted_sort_key)
  then have "sorted_wrt (\<lambda>a b. f64_key (cs_last_seen a) \<le> f64_key (cs_last_seen b)) (sort_key ?f (map snd (ct_states t)))"
    unfolding sorted_map by (rule sorted_wrt_mono_rel [rotated]) (auto simp: less_eq_prod_def)
  then show "sorted (map (\<lambda>d. f64_key (cd_event_time d)) (finalize t))"
    by (simp add: finalize_def final_delta_def comp_def sorted_map)
qed

lemma finalize_keys: "tracker_ok t \<Longrightarrow> mset (map cd_key (finalize t)) = mset (dict_keys (ct_states t))"
proof -
  assume "tracker_ok t"
  then have "map (cs_key \<circ> snd) (ct_states t) = map fst (ct_states t)"
    by (auto simp: tracker_ok_def stores_ok_def list_all_iff entry_ok_def)
  then show ?thesis by (simp only: finalize_complete(1))
qed

text \<open>With room for every packet nothing is evicted.\<close>

lemma find_state_sizes:
  "find_state t e = (b, t1) \<Longrightarrow> ct_states t1 = ct_states t \<and> ct_maximum t1 = ct_maximum t \<and> ct_evidence_lost t1 = ct_evidence_lost t"
  by (auto simp: find_state_def Let_def split: option.splits)

lemma update_in_room:
  assumes "length (ct_states t) < ct_maximum t"
  shows "length (ct_states (fst (update_with_delta t e))) \<le> Suc (length (ct_states t)) \<and>
    ct_maximum (fst (update_with_delta t e)) = ct_maximum t \<and>
    ct_evidence_lost (fst (update_with_delta t e)) = ct_evidence_lost t"
proof -
  obtain b t1 where f1: "find_state t e = (b, t1)" by (cases "find_state t e")
  obtain s1 dir where f2: "state_update b e = (s1, dir)" by (cases "state_update b e")
  define s where f3: "s = s1\<lparr>cs_application := merge_application (cs_application s1) (l7_info e)\<rparr>"
  let ?t = "t1\<lparr>ct_states := dict_set (ct_states t1) (conversation_key_of e) s\<rparr>"
  have l: "length (ct_states ?t) \<le> Suc (length (ct_states t))" "ct_maximum ?t = ct_maximum t"
    "ct_evidence_lost ?t = ct_evidence_lost t" using find_state_sizes [OF f1] by (simp_all add: length_dict_set)
  then have "evict_if_needed ?t = ?t" using assms by (simp add: evict_if_needed_def)
  with l show ?thesis unfolding update_shape [OF f1 f2 f3] fst_conv by simp
qed

lemma short_run_keeps:
  "length (ct_states t) + length es \<le> ct_maximum t \<Longrightarrow> ct_evidence_lost (observe_all t es) = ct_evidence_lost t"
proof (induction es arbitrary: t)
  case (Cons e es)
  let ?t = "fst (update_with_delta t e)"
  have u: "length (ct_states ?t) \<le> Suc (length (ct_states t))" "ct_maximum ?t = ct_maximum t"
    "ct_evidence_lost ?t = ct_evidence_lost t" using update_in_room [of t e] Cons.prems by simp_all
  have "length (ct_states ?t) + length es \<le> ct_maximum ?t" using u Cons.prems by simp
  from Cons.IH [OF this] u(3) show ?case by (simp add: observe_all_def)
qed (simp add: observe_all_def)

lemma step_in_room:
  assumes "length (ct_states t) + length (shown [op]) \<le> ct_maximum t"
  shows "length (ct_states (tracker_step t op)) \<le> length (ct_states t) + length (shown [op]) \<and>
    ct_maximum (tracker_step t op) = ct_maximum t \<and> ct_evidence_lost (tracker_step t op) = ct_evidence_lost t"
proof (cases op)
  case (UpdateOp e)
  with assms update_in_room [of t e] show ?thesis by (simp add: tracker_step_def)
next
  case (EnrichOp d m)
  then show ?thesis by (auto simp: tracker_step_def enrich_delta_def length_dict_set dict_simps Let_def dom_map_of_conv_image_fst
      map_of_eq_None_iff split: option.splits dest!: map_of_SomeD)
next
  case (DrainOp n)
  then show ?thesis by (simp add: tracker_step_def drain_evicted_def Let_def)
next
  case (ExpireOp b)
  then show ?thesis by (simp add: tracker_step_def expire_def)
qed

lemma run_in_room:
  "length (ct_states t) + length (shown ops) \<le> ct_maximum t \<Longrightarrow> ct_evidence_lost (foldl tracker_step t ops) = ct_evidence_lost t"
proof (induction ops arbitrary: t)
  case (Cons op ops)
  have s: "length (shown (op # ops)) = length (shown [op]) + length (shown ops)" by (subst shown_Cons) simp
  with Cons.prems step_in_room [of t op] have "length (ct_states (tracker_step t op)) + length (shown ops) \<le> ct_maximum (tracker_step t op)"
    "ct_evidence_lost (tracker_step t op) = ct_evidence_lost t" by simp_all
  with Cons.IH show ?case by simp
qed simp

end
