(* ===== verification/FastPacket.thy ===== *)
theory FastPacket imports Schemas PyText begin

text \<open>
  core/forensics/fast\_packet.py: the layer 2 to 4 view of a raw frame that the offline engine uses
  in place of a full dissection.  A subscript is \<open>byte_at\<close>, which raises \<open>IndexError\<close>
  past the end as Python does; a slice never raises.  The text form of an IPv6 address is a
  parameter, \<open>ipv6_text\<close>: the interpreters the project supports print mapped addresses
  differently.  The lemmas show that no frame makes the parser raise, that what it reports lies
  inside the frame, that \<open>in\<close> and subscription agree on every layer, and that the layer 3 and
  4 fields do not depend on the link layer the packet is wrapped in.
\<close>

unbundle bit_operations_syntax

definition byte_at :: "bytes \<Rightarrow> nat \<Rightarrow> int result" where
  "byte_at r i = (if i < length r then Inr (uint (r ! i)) else Inl IndexError)"

definition py_slice :: "bytes \<Rightarrow> nat \<Rightarrow> nat \<Rightarrow> bytes" where
  "py_slice r a b = take (b - a) (drop a r)"

section \<open>Layers\<close>

datatype flags_object = NoFlags | TcpFlags int

definition TCP_FLAG_NAMES :: "(int \<times> string) list" where
  "TCP_FLAG_NAMES = [(0x01, ''F''), (0x02, ''S''), (0x04, ''R''), (0x08, ''P''), (0x10, ''A''), (0x20, ''U'')]"

definition flags_text :: "flags_object \<Rightarrow> string" where
  "flags_text f = (case f of NoFlags \<Rightarrow> ''''
     | TcpFlags v \<Rightarrow> concat (map snd (filter (\<lambda>(mask, name). v AND mask \<noteq> 0) TCP_FLAG_NAMES)))"

record fast_network =
  fn_src :: string
  fn_dst :: string
  fn_ttl :: int
  fn_hlim :: int

record fast_transport =
  ft_sport :: int
  ft_dport :: int
  ft_payload :: bytes
  ft_seq :: int
  ft_ack :: int
  ft_flags :: flags_object

record fast_ethernet =
  fe_src :: string
  fe_dst :: string
  fe_type :: int
  fe_payload :: bytes

record fast_arp =
  far_op :: int
  far_psrc :: string
  far_pdst :: string
  far_hwsrc :: string
  far_hwdst :: string

record fast_icmp =
  fi_type :: int
  fi_code :: int
  fi_id :: int
  fi_seq :: int

record fast_packet =
  fp_time :: f64
  fp_raw :: bytes
  fp_link_type :: string
  fp_size :: int
  fp_src_ip :: string
  fp_dst_ip :: string
  fp_sport :: int
  fp_dport :: int
  fp_protocol_number :: int
  fp_application_payload :: bytes
  fp_transport :: "fast_transport option"
  fp_network :: "fast_network option"
  fp_ethernet :: "fast_ethernet option"
  fp_arp :: "fast_arp option"
  fp_icmp :: "fast_icmp option"
  fp_ip_version :: int

definition mac_text :: "bytes \<Rightarrow> string" where
  "mac_text bs = py_join '':'' (map (\<lambda>b. show_hex 2 (unat b)) bs)"

definition dotted :: "bytes \<Rightarrow> string" where
  "dotted bs = py_join ''.'' (map (\<lambda>b. show_int (uint b)) bs)"

definition PROTOCOL_NUMBERS :: "(string \<times> int) list" where
  "PROTOCOL_NUMBERS = [(''TCP'', 6), (''UDP'', 17), (''ICMP'', 1), (''ICMPV6'', 58), (''ARP'', 254)]"

definition fast_packet_fields :: "packet_event \<Rightarrow> fast_packet" where
  "fast_packet_fields e =
     (let frame = (case raw e of Some bs \<Rightarrow> bs | None \<Rightarrow> []) in
      \<lparr>fp_time = pe_timestamp e, fp_raw = frame, fp_link_type = str_or (link_type e) ''ethernet'',
       fp_size = (if pe_size e = 0 then int (length frame) else pe_size e),
       fp_src_ip = src_ip e, fp_dst_ip = dst_ip e, fp_sport = src_port e, fp_dport = dst_port e,
       fp_protocol_number = (case map_of PROTOCOL_NUMBERS (py_upper (protocol e)) of Some n \<Rightarrow> n | None \<Rightarrow> 0),
       fp_application_payload = [], fp_transport = None, fp_network = None, fp_ethernet = None,
       fp_arp = None, fp_icmp = None, fp_ip_version = 0\<rparr>)"

section \<open>Layer 4\<close>

definition parse_tcp :: "fast_packet \<Rightarrow> nat \<Rightarrow> nat \<Rightarrow> fast_packet result" where
  "parse_tcp p offset stop =
     (let r = fp_raw p in
      if offset + 20 > stop then Inr p
      else bindE (byte_at r (offset + 12)) (\<lambda>b12.
        let header_len = nat (((b12 div 16) AND 0x0F) * 4) in
        if header_len < 20 \<or> offset + header_len > stop then Inr p
        else bindE (byte_at r (offset + 13)) (\<lambda>b13.
          let sport = be_int (py_slice r offset (offset + 2)); dport = be_int (py_slice r (offset + 2) (offset + 4));
              body = py_slice r (offset + header_len) stop
          in Inr (p\<lparr>fp_sport := sport, fp_dport := dport, fp_application_payload := body,
               fp_transport := Some \<lparr>ft_sport = sport, ft_dport = dport, ft_payload = body,
                 ft_seq = be_int (py_slice r (offset + 4) (offset + 8)), ft_ack = be_int (py_slice r (offset + 8) (offset + 12)),
                 ft_flags = TcpFlags b13\<rparr>\<rparr>))))"

definition parse_udp :: "fast_packet \<Rightarrow> nat \<Rightarrow> nat \<Rightarrow> fast_packet result" where
  "parse_udp p offset stop =
     (let r = fp_raw p in
      if offset + 8 > stop then Inr p
      else
        (let sport = be_int (py_slice r offset (offset + 2)); dport = be_int (py_slice r (offset + 2) (offset + 4));
             declared = nat_of_be (py_slice r (offset + 4) (offset + 6));
             payload_end = (if declared = 0 then stop else min stop (offset + declared));
             body = py_slice r (offset + 8) payload_end
         in Inr (p\<lparr>fp_sport := sport, fp_dport := dport, fp_application_payload := body,
              fp_transport := Some \<lparr>ft_sport = sport, ft_dport = dport, ft_payload = body, ft_seq = 0, ft_ack = 0,
                ft_flags = NoFlags\<rparr>\<rparr>)))"

definition parse_icmp :: "fast_packet \<Rightarrow> nat \<Rightarrow> nat \<Rightarrow> fast_packet result" where
  "parse_icmp p offset stop =
     (let r = fp_raw p in
      if offset + 4 > stop then Inr p
      else bindE (byte_at r offset) (\<lambda>ty. bindE (byte_at r (offset + 1)) (\<lambda>code.
        let long = (offset + 8 \<le> stop) in
        Inr (p\<lparr>fp_application_payload := (if long then py_slice r (offset + 8) stop else []),
          fp_icmp := Some \<lparr>fi_type = ty, fi_code = code,
            fi_id = (if long then be_int (py_slice r (offset + 4) (offset + 6)) else 0),
            fi_seq = (if long then be_int (py_slice r (offset + 6) (offset + 8)) else 0)\<rparr>\<rparr>))))"

definition parse_transport :: "fast_packet \<Rightarrow> nat \<Rightarrow> nat \<Rightarrow> fast_packet result" where
  "parse_transport p offset stop =
     (if fp_protocol_number p = 6 then parse_tcp p offset stop
      else if fp_protocol_number p = 17 then parse_udp p offset stop
      else if fp_protocol_number p \<in> {1, 58} then parse_icmp p offset stop
      else Inr p)"

section \<open>Layer 3\<close>

definition parse_arp :: "fast_packet \<Rightarrow> nat \<Rightarrow> fast_packet result" where
  "parse_arp p offset =
     (let r = fp_raw p in
      if length r < offset + 28 then Inr p
      else bindE (byte_at r (offset + 4)) (\<lambda>hlen.
        if hlen \<noteq> 6 then Inr p
        else bindE (byte_at r (offset + 5)) (\<lambda>plen.
          if plen \<noteq> 4 then Inr p
          else
            (let arp = \<lparr>far_op = be_int (py_slice r (offset + 6) (offset + 8)),
                   far_psrc = dotted (py_slice r (offset + 14) (offset + 18)),
                   far_pdst = dotted (py_slice r (offset + 24) (offset + 28)),
                   far_hwsrc = mac_text (py_slice r (offset + 8) (offset + 14)),
                   far_hwdst = mac_text (py_slice r (offset + 18) (offset + 24))\<rparr>
             in Inr (p\<lparr>fp_arp := Some arp, fp_src_ip := far_psrc arp, fp_dst_ip := far_pdst arp,
                  fp_protocol_number := 254\<rparr>)))))"

definition parse_ipv4 :: "fast_packet \<Rightarrow> nat \<Rightarrow> fast_packet result" where
  "parse_ipv4 p offset =
     (let r = fp_raw p in
      if length r < offset + 20 then Inr p
      else bindE (byte_at r offset) (\<lambda>b0.
        if b0 div 16 \<noteq> 4 then Inr p
        else
          (let header_len = nat ((b0 AND 0x0F) * 4) in
           if header_len < 20 \<or> length r < offset + header_len then Inr p
           else
             (let total_len = nat_of_be (py_slice r (offset + 2) (offset + 4));
                  stop = min (length r) (offset + (if total_len = 0 then length r - offset else total_len));
                  src = dotted (py_slice r (offset + 12) (offset + 16));
                  dst = dotted (py_slice r (offset + 16) (offset + 20))
              in bindE (byte_at r (offset + 9)) (\<lambda>proto. bindE (byte_at r (offset + 8)) (\<lambda>ttl.
                   parse_transport
                     (p\<lparr>fp_src_ip := src, fp_dst_ip := dst, fp_protocol_number := proto,
                       fp_network := Some \<lparr>fn_src = src, fn_dst = dst, fn_ttl = ttl, fn_hlim = 0\<rparr>,
                       fp_ip_version := 4\<rparr>)
                     (offset + header_len) stop))))))"

text \<open>The extension headers; \<open>None\<close> is the early return.\<close>

fun skip_extensions :: "bytes \<Rightarrow> nat \<Rightarrow> nat \<Rightarrow> int \<Rightarrow> nat \<Rightarrow> (int \<times> nat) option result" where
  "skip_extensions r stop 0 next_header cursor = Inr (Some (next_header, cursor))"
| "skip_extensions r stop (Suc n) next_header cursor =
     (let check = (\<lambda>(nh, c). if c > stop then Inr None else skip_extensions r stop n nh c) in
      if next_header \<in> {0, 43, 60} then
        (if cursor + 2 > stop then Inr None
         else bindE (byte_at r (cursor + 1)) (\<lambda>len. bindE (byte_at r cursor) (\<lambda>nh.
           check (nh, cursor + nat ((len + 1) * 8)))))
      else if next_header = 44 then
        (if cursor + 8 > stop then Inr None
         else bindE (byte_at r cursor) (\<lambda>nh. check (nh, cursor + 8)))
      else if next_header = 51 then
        (if cursor + 2 > stop then Inr None
         else bindE (byte_at r (cursor + 1)) (\<lambda>len. bindE (byte_at r cursor) (\<lambda>nh.
           check (nh, cursor + nat ((len + 2) * 4)))))
      else Inr (Some (next_header, cursor)))"

definition parse_ipv6 :: "(bytes \<Rightarrow> string) \<Rightarrow> fast_packet \<Rightarrow> nat \<Rightarrow> fast_packet result" where
  "parse_ipv6 ipv6_text p offset =
     (let r = fp_raw p in
      if length r < offset + 40 then Inr p
      else bindE (byte_at r offset) (\<lambda>b0.
        if b0 div 16 \<noteq> 6 then Inr p
        else
          (let payload_len = nat_of_be (py_slice r (offset + 4) (offset + 6));
               stop = min (length r) (offset + 40 + (if payload_len = 0 then length r - offset - 40 else payload_len));
               src = ipv6_text (py_slice r (offset + 8) (offset + 24));
               dst = ipv6_text (py_slice r (offset + 24) (offset + 40));
               p1 = p\<lparr>fp_src_ip := src, fp_dst_ip := dst\<rparr>
           in bindE (byte_at r (offset + 6)) (\<lambda>nh.
                bindE (skip_extensions r stop 8 nh (offset + 40)) (\<lambda>out.
                  case out of
                    None \<Rightarrow> Inr p1
                  | Some (next_header, cursor) \<Rightarrow>
                      bindE (byte_at r (offset + 7)) (\<lambda>hlim.
                        parse_transport
                          (p1\<lparr>fp_protocol_number := next_header,
                            fp_network := Some \<lparr>fn_src = src, fn_dst = dst, fn_ttl = 0, fn_hlim = hlim\<rparr>,
                            fp_ip_version := 6\<rparr>)
                          cursor stop))))))"

section \<open>Layer 2\<close>

definition VLAN_TYPES :: "int set" where
  "VLAN_TYPES = {0x8100, 0x88A8, 0x9100}"

text \<open>The VLAN loop; \<open>None\<close> is the early return on a truncated tag.\<close>

function skip_vlan :: "bytes \<Rightarrow> nat \<Rightarrow> int \<Rightarrow> (nat \<times> int) option" where
  "skip_vlan r offset ethertype =
     (if ethertype \<in> VLAN_TYPES then
        (if length r < offset + 4 then None
         else skip_vlan r (offset + 4) (be_int (py_slice r (offset + 2) (offset + 4))))
      else Some (offset, ethertype))"
  by auto
termination by (relation "measure (\<lambda>(r, offset, _). length r - offset)") auto

declare skip_vlan.simps [simp del]

definition parse_frame :: "(bytes \<Rightarrow> string) \<Rightarrow> fast_packet \<Rightarrow> fast_packet result" where
  "parse_frame ipv6_text p =
     (let r = fp_raw p in
      if fp_link_type p = ''raw-ip'' then
        (if r = [] then Inr p
         else bindE (byte_at r 0) (\<lambda>b0.
           if b0 div 16 = 4 then parse_ipv4 p 0
           else if b0 div 16 = 6 then parse_ipv6 ipv6_text p 0
           else Inr p))
      else if length r < 14 then Inr p
      else
        (case skip_vlan r 14 (be_int (py_slice r 12 14)) of
           None \<Rightarrow> Inr p
         | Some (offset, ethertype) \<Rightarrow>
             (let p1 = p\<lparr>fp_ethernet := Some \<lparr>fe_src = mac_text (py_slice r 6 12), fe_dst = mac_text (py_slice r 0 6),
                    fe_type = ethertype, fe_payload = drop offset r\<rparr>\<rparr>
              in if ethertype = 0x0800 then parse_ipv4 p1 offset
                 else if ethertype = 0x86DD then parse_ipv6 ipv6_text p1 offset
                 else if ethertype = 0x0806 then parse_arp p1 offset
                 else Inr p1)))"

definition fast_packet_init :: "(bytes \<Rightarrow> string) \<Rightarrow> packet_event \<Rightarrow> fast_packet result" where
  "fast_packet_init ipv6_text e = parse_frame ipv6_text (fast_packet_fields e)"

section \<open>What the detectors read\<close>

definition fp_valid :: "fast_packet \<Rightarrow> bool" where
  "fp_valid p \<longleftrightarrow> fp_ip_version p \<in> {4, 6} \<or> fp_arp p \<noteq> None"

definition fp_protocol :: "fast_packet \<Rightarrow> string" where
  "fp_protocol p = (if fp_protocol_number p = 6 then ''TCP'' else if fp_protocol_number p = 17 then ''UDP''
     else if fp_arp p \<noteq> None then ''ARP'' else ''OTHER'')"

definition fp_flow_id :: "fast_packet \<Rightarrow> string \<times> string \<times> int \<times> int \<times> string" where
  "fp_flow_id p = (fp_src_ip p, fp_dst_ip p, fp_sport p, fp_dport p, fp_protocol p)"

definition fp_flags :: "fast_packet \<Rightarrow> string" where
  "fp_flags p = (case fp_transport p of Some t \<Rightarrow> flags_text (ft_flags t) | None \<Rightarrow> '''')"

definition fp_sequence :: "fast_packet \<Rightarrow> int" where
  "fp_sequence p = (case fp_transport p of Some t \<Rightarrow> ft_seq t | None \<Rightarrow> 0)"

definition fp_hop_limit :: "fast_packet \<Rightarrow> int" where
  "fp_hop_limit p = (case fp_network p of None \<Rightarrow> 0 | Some n \<Rightarrow> if fn_ttl n \<noteq> 0 then fn_ttl n else fn_hlim n)"

datatype layer_value =
    EtherLayer fast_ethernet
  | NetworkLayer fast_network
  | TransportLayer fast_transport
  | RawLayer bytes
  | ArpLayer fast_arp
  | IcmpLayer fast_icmp

definition icmp_type_is :: "int \<Rightarrow> fast_packet \<Rightarrow> bool" where
  "icmp_type_is n p = (case fp_icmp p of Some i \<Rightarrow> fi_type i = n | None \<Rightarrow> False)"

definition fp_contains :: "fast_packet \<Rightarrow> string \<Rightarrow> bool" where
  "fp_contains p name =
     (case map_of [(''Ether'', fp_ethernet p \<noteq> None), (''IP'', fp_ip_version p = 4), (''IPv6'', fp_ip_version p = 6),
        (''TCP'', fp_protocol_number p = 6 \<and> fp_transport p \<noteq> None),
        (''UDP'', fp_protocol_number p = 17 \<and> fp_transport p \<noteq> None),
        (''Raw'', fp_application_payload p \<noteq> []), (''ARP'', fp_arp p \<noteq> None),
        (''ICMP'', fp_protocol_number p = 1 \<and> fp_icmp p \<noteq> None),
        (''ICMPv6EchoRequest'', fp_protocol_number p = 58 \<and> icmp_type_is 128 p),
        (''ICMPv6EchoReply'', fp_protocol_number p = 58 \<and> icmp_type_is 129 p)] name
      of Some b \<Rightarrow> b | None \<Rightarrow> False)"

definition layer_mapping :: "fast_packet \<Rightarrow> (string \<times> layer_value option) list" where
  "layer_mapping p =
     [(''Ether'', map_option EtherLayer (fp_ethernet p)),
      (''IP'', if fp_ip_version p = 4 then map_option NetworkLayer (fp_network p) else None),
      (''IPv6'', if fp_ip_version p = 6 then map_option NetworkLayer (fp_network p) else None),
      (''TCP'', if fp_protocol_number p = 6 then map_option TransportLayer (fp_transport p) else None),
      (''UDP'', if fp_protocol_number p = 17 then map_option TransportLayer (fp_transport p) else None),
      (''Raw'', if fp_application_payload p \<noteq> [] then Some (RawLayer (fp_application_payload p)) else None),
      (''ARP'', map_option ArpLayer (fp_arp p)),
      (''ICMP'', if fp_protocol_number p = 1 then map_option IcmpLayer (fp_icmp p) else None),
      (''ICMPv6EchoRequest'', if fp_protocol_number p = 58 \<and> icmp_type_is 128 p then map_option IcmpLayer (fp_icmp p) else None),
      (''ICMPv6EchoReply'', if fp_protocol_number p = 58 \<and> icmp_type_is 129 p then map_option IcmpLayer (fp_icmp p) else None)]"

definition fp_getitem :: "fast_packet \<Rightarrow> string \<Rightarrow> layer_value result" where
  "fp_getitem p name = (case map_of (layer_mapping p) name of Some (Some v) \<Rightarrow> Inr v | _ \<Rightarrow> Inl IndexError)"

definition fp_getlayer :: "fast_packet \<Rightarrow> string \<Rightarrow> layer_value option" where
  "fp_getlayer p name = (case fp_getitem p name of Inr v \<Rightarrow> Some v | Inl _ \<Rightarrow> None)"


section \<open>No frame raises\<close>

lemma byte_at_in [simp]: "i < length r \<Longrightarrow> byte_at r i = Inr (uint (r ! i))"
  by (simp add: byte_at_def)

lemma slice_Nil: "b \<le> a \<Longrightarrow> py_slice r a b = []"
  by (simp add: py_slice_def)

text \<open>What every intermediate packet of the parser satisfies.\<close>

definition port_range :: "int \<Rightarrow> bool" where
  "port_range n \<longleftrightarrow> 0 \<le> n \<and> n < 65536"

definition transport_ok :: "fast_packet \<Rightarrow> fast_transport \<Rightarrow> bool" where
  "transport_ok p t \<longleftrightarrow> fp_protocol_number p \<in> {6, 17} \<and> port_range (ft_sport t) \<and> port_range (ft_dport t) \<and>
     0 \<le> ft_seq t \<and> ft_seq t < 2 ^ 32 \<and> ft_sport t = fp_sport p \<and> ft_dport t = fp_dport p \<and>
     ft_payload t = fp_application_payload p"

definition layers_ok :: "fast_packet \<Rightarrow> bool" where
  "layers_ok p \<longleftrightarrow> fp_ip_version p \<in> {0, 4, 6} \<and> (fp_ip_version p \<noteq> 0 \<longleftrightarrow> fp_network p \<noteq> None) \<and>
     (\<exists>a b. fp_application_payload p = py_slice (fp_raw p) a b) \<and>
     (case fp_transport p of None \<Rightarrow> True | Some t \<Rightarrow> transport_ok p t) \<and>
     (fp_transport p \<noteq> None \<or> fp_icmp p \<noteq> None \<longrightarrow> fp_ip_version p \<noteq> 0)"

definition no_layer4 :: "fast_packet \<Rightarrow> bool" where
  "no_layer4 p \<longleftrightarrow> fp_transport p = None \<and> fp_icmp p = None \<and> fp_application_payload p = []"

lemma be_int_slice2: "b \<le> a + 2 \<Longrightarrow> port_range (be_int (py_slice r a b))"
proof -
  assume "b \<le> a + 2"
  then have "length (py_slice r a b) \<le> 2" by (simp add: py_slice_def)
  from be_int_bounds [of "py_slice r a b"] power_increasing [OF this, of "256 :: int"] show ?thesis
    by (simp add: port_range_def)
qed

lemma be_int_slice4: "be_int (py_slice r (a + 4) (a + 8)) < 2 ^ 32"
proof -
  have "length (py_slice r (a + 4) (a + 8)) \<le> 4" by (simp add: py_slice_def)
  from be_int_bounds [of "py_slice r (a + 4) (a + 8)"] power_increasing [OF this, of "256 :: int"] show ?thesis by simp
qed

definition parsed :: "fast_packet \<Rightarrow> fast_packet result \<Rightarrow> bool" where
  "parsed p out \<longleftrightarrow> (case out of Inl _ \<Rightarrow> False
     | Inr q \<Rightarrow> layers_ok q \<and> fp_raw q = fp_raw p \<and> fp_time q = fp_time p \<and> fp_size q = fp_size p \<and> fp_link_type q = fp_link_type p)"

lemma parsed_Inr [simp]: "parsed p (Inr q) \<longleftrightarrow> layers_ok q \<and> fp_raw q = fp_raw p \<and> fp_time q = fp_time p \<and>
    fp_size q = fp_size p \<and> fp_link_type q = fp_link_type p"
  by (simp add: parsed_def)

lemma slice_some: "\<exists>a b. py_slice r x y = py_slice r a b"
  by blast

lemma parse_tcp_ok:
  assumes "layers_ok p" "fp_ip_version p \<noteq> 0" "fp_protocol_number p = 6" "e \<le> length (fp_raw p)"
  shows "parsed p (parse_tcp p a e)"
proof (cases "a + 20 > e")
  case False
  then have i: "a + 12 < length (fp_raw p)" "a + 13 < length (fp_raw p)" using assms(4) by simp_all
  show ?thesis
    using False assms(1-3) by (auto simp: parse_tcp_def Let_def byte_at_in [OF i(1)] byte_at_in [OF i(2)] layers_ok_def
        transport_ok_def be_int_slice2 be_int_slice4 [simplified] simp del: byte_at_in)
qed (use assms in \<open>simp add: parse_tcp_def\<close>)

lemma parse_udp_ok:
  assumes "layers_ok p" "fp_ip_version p \<noteq> 0" "fp_protocol_number p = 17" "e \<le> length (fp_raw p)"
  shows "parsed p (parse_udp p a e)"
  using assms by (auto simp: parse_udp_def Let_def layers_ok_def transport_ok_def be_int_slice2)

lemma parse_icmp_ok:
  assumes "layers_ok p" "no_layer4 p" "fp_ip_version p \<noteq> 0" "e \<le> length (fp_raw p)"
  shows "parsed p (parse_icmp p a e)"
proof (cases "a + 4 > e")
  case False
  then have i: "a < length (fp_raw p)" "a + 1 < length (fp_raw p)" using assms(4) by simp_all
  have z: "\<exists>x y. [] = py_slice (fp_raw p) x y" by (rule exI [of _ 0], rule exI [of _ 0]) (simp add: py_slice_def)
  show ?thesis
    using False i assms(1-3) z by (auto simp: parse_icmp_def Let_def layers_ok_def no_layer4_def)
qed (use assms in \<open>simp add: parse_icmp_def\<close>)

lemma parse_transport_ok:
  assumes "layers_ok p" "no_layer4 p" "fp_ip_version p \<noteq> 0" "e \<le> length (fp_raw p)"
  shows "parsed p (parse_transport p a e)"
  using assms by (simp add: parse_transport_def parse_tcp_ok parse_udp_ok parse_icmp_ok)

lemma layers_ok_network:
  assumes "layers_ok p" "no_layer4 p" "v \<in> {4, 6}"
  shows "layers_ok (p\<lparr>fp_src_ip := s, fp_dst_ip := d, fp_protocol_number := n, fp_network := Some w, fp_ip_version := v\<rparr>)"
  using assms by (auto simp: layers_ok_def no_layer4_def)

lemma parse_ipv4_ok:
  assumes "layers_ok p" "no_layer4 p"
  shows "parsed p (parse_ipv4 p a)"
proof (cases "length (fp_raw p) < a + 20")
  case False
  then have i: "byte_at (fp_raw p) (a + k) = Inr (uint (fp_raw p ! (a + k)))" if "k < 20" for k using that by simp
  have "parsed p (parse_transport (p\<lparr>fp_src_ip := s, fp_dst_ip := d, fp_protocol_number := n, fp_network := Some w,
      fp_ip_version := 4\<rparr>) b (min (length (fp_raw p)) c))" for s d n w b c
    using parse_transport_ok [OF layers_ok_network [OF assms, where v = 4 and s = s and d = d and n = n and w = w], where e = "min (length (fp_raw p)) c" and a = b] assms(2)
    by (simp add: no_layer4_def parsed_def split: sum.splits)
  then show ?thesis
    using False assms i [of 0] i [of 8] i [of 9] by (simp add: parse_ipv4_def Let_def)
qed (use assms in \<open>simp add: parse_ipv4_def\<close>)

lemma skip_extensions_ok:
  assumes "e \<le> length r"
  shows "\<exists>out. skip_extensions r e n nh c = Inr out"
proof (induction n arbitrary: nh c)
  case (Suc n)
  then show ?case using assms by (simp add: Let_def)
qed simp

lemma parse_ipv6_ok:
  assumes "layers_ok p" "no_layer4 p"
  shows "parsed p (parse_ipv6 f p a)"
proof (cases "length (fp_raw p) < a + 40")
  case False
  then have i: "byte_at (fp_raw p) (a + k) = Inr (uint (fp_raw p ! (a + k)))" if "k < 40" for k using that by simp
  have t: "parsed p (parse_transport (p\<lparr>fp_src_ip := s, fp_dst_ip := d, fp_protocol_number := n, fp_network := Some w,
      fp_ip_version := 6\<rparr>) b e)" if "e \<le> length (fp_raw p)" for s d n w b e
    using parse_transport_ok [OF layers_ok_network [OF assms, where v = 6 and s = s and d = d and n = n and w = w], where e = e and a = b]
      assms(2) that by (simp add: no_layer4_def parsed_def split: sum.splits)
  have l: "layers_ok (p\<lparr>fp_src_ip := s, fp_dst_ip := d\<rparr>)" for s d
    using assms by (simp add: layers_ok_def no_layer4_def)
  have b: "parsed p (bindE (skip_extensions (fp_raw p) e 8 nh c) g)"
    if "e \<le> length (fp_raw p)" "\<And>out. parsed p (g out)" for e nh c g
    using skip_extensions_ok [OF that(1), of 8 nh c] that(2) by auto
  have e: "min (length (fp_raw p)) k \<le> length (fp_raw p)" for k by simp
  show ?thesis
    unfolding parse_ipv6_def Let_def
    using False assms i [of 0] i [of 6] i [of 7]
    by (simp add: del: min_less_iff_conj) (auto simp del: min_def intro!: b [OF e] t [OF e] b [OF order_refl] t [OF order_refl] l split: option.split)
qed (use assms in \<open>simp add: parse_ipv6_def\<close>)

lemma parse_arp_ok:
  assumes "layers_ok p" "no_layer4 p"
  shows "parsed p (parse_arp p a)"
proof (cases "length (fp_raw p) < a + 28")
  case False
  then have i: "byte_at (fp_raw p) (a + k) = Inr (uint (fp_raw p ! (a + k)))" if "k < 28" for k using that by simp
  show ?thesis
    using False assms i [of 4] i [of 5] by (auto simp: parse_arp_def Let_def layers_ok_def no_layer4_def)
qed (use assms in \<open>simp add: parse_arp_def\<close>)

lemma parse_frame_ok:
  assumes "layers_ok p" "no_layer4 p"
  shows "parsed p (parse_frame f p)"
proof -
  have e: "layers_ok (p\<lparr>fp_ethernet := x\<rparr>)" "no_layer4 (p\<lparr>fp_ethernet := x\<rparr>)" for x
    using assms by (simp_all add: layers_ok_def no_layer4_def)
  have m: "parsed p out" if "parsed (p\<lparr>fp_ethernet := x\<rparr>) out" for x out
    using that by (simp add: parsed_def split: sum.splits)
  show ?thesis
    using assms e by (auto simp: parse_frame_def Let_def parse_ipv4_ok parse_ipv6_ok intro!: m parse_ipv4_ok parse_ipv6_ok parse_arp_ok
        split: option.split)
qed

lemma fast_packet_fields_ok: "layers_ok (fast_packet_fields e)" "no_layer4 (fast_packet_fields e)"
proof -
  have "\<exists>x y. [] = py_slice r x y" for r by (rule exI [of _ 0], rule exI [of _ 0]) (simp add: py_slice_def)
  then show "layers_ok (fast_packet_fields e)" "no_layer4 (fast_packet_fields e)"
    by (simp_all add: fast_packet_fields_def Let_def layers_ok_def no_layer4_def)
qed

lemma fast_packet_total: "\<exists>p. fast_packet_init f e = Inr p \<and> layers_ok p \<and> fp_raw p = fp_raw (fast_packet_fields e)"
  using parse_frame_ok [OF fast_packet_fields_ok, of e f]
  by (simp add: fast_packet_init_def parsed_def split: sum.splits)

section \<open>Membership and subscription\<close>

lemma map_of_same_keys:
  "list_all2 (\<lambda>(n, b) (m, v). n = m \<and> (b \<longleftrightarrow> v \<noteq> None)) xs ys \<Longrightarrow>
     (case map_of xs k of Some b \<Rightarrow> b | None \<Rightarrow> False) \<longleftrightarrow> (\<exists>v. map_of ys k = Some (Some v))"
  by (induction xs ys rule: list_all2_induct) auto

lemma getitem_ok: "is_ok (fp_getitem p name) \<longleftrightarrow> (\<exists>v. map_of (layer_mapping p) name = Some (Some v))"
  by (simp add: fp_getitem_def split: option.split)

lemma contains_getitem:
  assumes "layers_ok p"
  shows "fp_contains p name \<longleftrightarrow> is_ok (fp_getitem p name)"
  unfolding fp_contains_def getitem_ok
proof (rule map_of_same_keys)
  have "fp_ip_version p = 4 \<Longrightarrow> fp_network p \<noteq> None" "fp_ip_version p = 6 \<Longrightarrow> fp_network p \<noteq> None"
    using assms by (simp_all add: layers_ok_def)
  moreover have "icmp_type_is n p \<Longrightarrow> fp_icmp p \<noteq> None" for n by (auto simp: icmp_type_is_def split: option.splits)
  ultimately show "list_all2 (\<lambda>(n, b) (m, v). n = m \<and> (b \<longleftrightarrow> v \<noteq> None))
     [(''Ether'', fp_ethernet p \<noteq> None), (''IP'', fp_ip_version p = 4), (''IPv6'', fp_ip_version p = 6),
        (''TCP'', fp_protocol_number p = 6 \<and> fp_transport p \<noteq> None),
        (''UDP'', fp_protocol_number p = 17 \<and> fp_transport p \<noteq> None),
        (''Raw'', fp_application_payload p \<noteq> []), (''ARP'', fp_arp p \<noteq> None),
        (''ICMP'', fp_protocol_number p = 1 \<and> fp_icmp p \<noteq> None),
        (''ICMPv6EchoRequest'', fp_protocol_number p = 58 \<and> icmp_type_is 128 p),
        (''ICMPv6EchoReply'', fp_protocol_number p = 58 \<and> icmp_type_is 129 p)] (layer_mapping p)"
    unfolding layer_mapping_def by simp
qed

section \<open>Independence of the link layer\<close>

text \<open>The same packet with a link header in front of its bytes.\<close>

definition rewrap :: "bytes \<Rightarrow> fast_ethernet option \<Rightarrow> string \<Rightarrow> int \<Rightarrow> fast_packet \<Rightarrow> fast_packet" where
  "rewrap pre eth lt sz p = p\<lparr>fp_raw := pre @ fp_raw p, fp_ethernet := eth, fp_link_type := lt, fp_size := sz\<rparr>"

definition rewrapped :: "bytes \<Rightarrow> fast_ethernet option \<Rightarrow> string \<Rightarrow> int \<Rightarrow> fast_packet result \<Rightarrow> fast_packet result" where
  "rewrapped pre eth lt sz out = bindE out (\<lambda>p. Inr (rewrap pre eth lt sz p))"

lemma byte_at_shift: "byte_at (pre @ r) (length pre + i) = byte_at r i"
  by (simp add: byte_at_def)

lemma slice_shift: "py_slice (pre @ r) (length pre + a) (length pre + b) = py_slice r a b"
  by (simp add: py_slice_def)

lemma rewrapped_simps:
  "rewrapped pre eth lt sz (Inr p) = Inr (rewrap pre eth lt sz p)"
  "rewrapped pre eth lt sz (bindE m g) = bindE m (\<lambda>x. rewrapped pre eth lt sz (g x))"
  "rewrapped pre eth lt sz (if c then a else b) = (if c then rewrapped pre eth lt sz a else rewrapped pre eth lt sz b)"
  by (cases m; simp add: rewrapped_def)+

lemma rewrap_fields:
  "fp_raw (rewrap pre eth lt sz p) = pre @ fp_raw p" "fp_protocol_number (rewrap pre eth lt sz p) = fp_protocol_number p"
  by (simp_all add: rewrap_def)

lemma rewrap_updates:
  "rewrap pre eth lt sz (p\<lparr>fp_sport := a\<rparr>) = (rewrap pre eth lt sz p)\<lparr>fp_sport := a\<rparr>"
  "rewrap pre eth lt sz (p\<lparr>fp_dport := a\<rparr>) = (rewrap pre eth lt sz p)\<lparr>fp_dport := a\<rparr>"
  "rewrap pre eth lt sz (p\<lparr>fp_src_ip := s\<rparr>) = (rewrap pre eth lt sz p)\<lparr>fp_src_ip := s\<rparr>"
  "rewrap pre eth lt sz (p\<lparr>fp_dst_ip := s\<rparr>) = (rewrap pre eth lt sz p)\<lparr>fp_dst_ip := s\<rparr>"
  "rewrap pre eth lt sz (p\<lparr>fp_protocol_number := a\<rparr>) = (rewrap pre eth lt sz p)\<lparr>fp_protocol_number := a\<rparr>"
  "rewrap pre eth lt sz (p\<lparr>fp_application_payload := b\<rparr>) = (rewrap pre eth lt sz p)\<lparr>fp_application_payload := b\<rparr>"
  "rewrap pre eth lt sz (p\<lparr>fp_transport := t\<rparr>) = (rewrap pre eth lt sz p)\<lparr>fp_transport := t\<rparr>"
  "rewrap pre eth lt sz (p\<lparr>fp_icmp := i\<rparr>) = (rewrap pre eth lt sz p)\<lparr>fp_icmp := i\<rparr>"
  "rewrap pre eth lt sz (p\<lparr>fp_network := n\<rparr>) = (rewrap pre eth lt sz p)\<lparr>fp_network := n\<rparr>"
  "rewrap pre eth lt sz (p\<lparr>fp_ip_version := v\<rparr>) = (rewrap pre eth lt sz p)\<lparr>fp_ip_version := v\<rparr>"
  by (simp_all add: rewrap_def)

lemmas shift_simps = byte_at_shift slice_shift rewrapped_simps rewrap_fields rewrap_updates add.assoc length_append
  add_less_cancel_left add_le_cancel_left

lemma min_shift: "min (k + a) (k + b) = k + min a (b :: nat)"
  by (simp add: min_add_distrib_right)

lemma parse_tcp_shift:
  "parse_tcp (rewrap pre eth lt sz p) (length pre + a) (length pre + e) = rewrapped pre eth lt sz (parse_tcp p a e)"
  by (simp only: parse_tcp_def Let_def shift_simps)

lemma parse_udp_shift:
  "parse_udp (rewrap pre eth lt sz p) (length pre + a) (length pre + e) = rewrapped pre eth lt sz (parse_udp p a e)"
  by (simp only: parse_udp_def Let_def shift_simps min_shift if_distrib [of "\<lambda>x. py_slice r b (length pre + x)" for r b, symmetric]
      if_distrib [of "\<lambda>x. length pre + x", symmetric])

lemma parse_icmp_shift:
  "parse_icmp (rewrap pre eth lt sz p) (length pre + a) (length pre + e) = rewrapped pre eth lt sz (parse_icmp p a e)"
  by (simp only: parse_icmp_def Let_def shift_simps)

lemma parse_transport_shift:
  "parse_transport (rewrap pre eth lt sz p) (length pre + a) (length pre + e) = rewrapped pre eth lt sz (parse_transport p a e)"
  by (simp only: parse_transport_def parse_tcp_shift parse_udp_shift parse_icmp_shift shift_simps)

lemma parse_ipv4_shift:
  "parse_ipv4 (rewrap pre eth lt sz p) (length pre + a) = rewrapped pre eth lt sz (parse_ipv4 p a)"
  by (simp only: parse_ipv4_def Let_def shift_simps min_shift Nat.diff_cancel parse_transport_shift [symmetric])

definition shifted :: "nat \<Rightarrow> (int \<times> nat) option result \<Rightarrow> (int \<times> nat) option result" where
  "shifted k out = bindE out (\<lambda>out. Inr (map_option (\<lambda>(h, c). (h, k + c)) out))"

lemma shifted_simps:
  "shifted k (Inr None) = Inr None" "shifted k (Inr (Some (h, c))) = Inr (Some (h, k + c))"
  "shifted k (bindE m g) = bindE m (\<lambda>x. shifted k (g x))"
  "shifted k (if b then x else y) = (if b then shifted k x else shifted k y)"
  by (cases m; simp add: shifted_def)+

lemma skip_extensions_shift:
  "skip_extensions (pre @ r) (length pre + e) n nh (length pre + c) = shifted (length pre) (skip_extensions r e n nh c)"
proof (induction n arbitrary: nh c)
  case (Suc n)
  show ?case by (simp only: skip_extensions.simps Let_def prod.case shift_simps shifted_simps Suc.IH)
qed (simp only: skip_extensions.simps shifted_simps)

lemma bindE_shifted:
  "bindE (shifted k m) g = bindE m (\<lambda>out. case out of None \<Rightarrow> g None | Some (h, c) \<Rightarrow> g (Some (h, k + c)))"
  by (cases m) (auto simp: shifted_def split: option.split)

lemma rewrapped_case:
  "rewrapped pre eth lt sz (case out of None \<Rightarrow> x | Some (h, c) \<Rightarrow> g h c) =
     (case out of None \<Rightarrow> rewrapped pre eth lt sz x | Some (h, c) \<Rightarrow> rewrapped pre eth lt sz (g h c))"
  by (simp split: option.split prod.split)

lemma parse_ipv6_shift:
  "parse_ipv6 f (rewrap pre eth lt sz p) (length pre + a) = rewrapped pre eth lt sz (parse_ipv6 f p a)"
  by (simp only: parse_ipv6_def Let_def shift_simps min_shift Nat.diff_cancel skip_extensions_shift bindE_shifted
      rewrapped_case option.case prod.case parse_transport_shift [symmetric])

text \<open>The bytes of a VLAN stack and the type that follows it.\<close>

fun link_types :: "(bytes \<times> bytes) list \<Rightarrow> bytes \<Rightarrow> bytes" where
  "link_types [] ethertype = ethertype"
| "link_types ((tpid, tci) # tags) ethertype = tpid @ tci @ link_types tags ethertype"

definition vlan_tag :: "bytes \<times> bytes \<Rightarrow> bool" where
  "vlan_tag tag \<longleftrightarrow> length (fst tag) = 2 \<and> length (snd tag) = 2 \<and> be_int (fst tag) \<in> VLAN_TYPES"

lemma skip_vlan_tags:
  "list_all vlan_tag tags \<Longrightarrow> length ethertype = 2 \<Longrightarrow> be_int ethertype \<notin> VLAN_TYPES \<Longrightarrow>
     skip_vlan (pre @ link_types tags ethertype @ body) (length pre + 2) (be_int (take 2 (link_types tags ethertype @ body))) =
       Some (length pre + length (link_types tags ethertype), be_int ethertype)"
proof (induction tags arbitrary: pre)
  case Nil
  then show ?case by (subst skip_vlan.simps) simp
next
  case (Cons tag tags)
  obtain tpid tci where t: "tag = (tpid, tci)" by (cases tag)
  let ?rest = "link_types tags ethertype @ body"
  let ?r = "pre @ tpid @ tci @ ?rest"
  have l: "length tpid = 2" "length tci = 2" "be_int tpid \<in> VLAN_TYPES" using Cons.prems(1) by (simp_all add: vlan_tag_def t)
  have n: "2 \<le> length (link_types tags ethertype)"
    using Cons.prems(2) by (induction tags) auto
  have s: "py_slice ?r (length pre + 4) (length pre + 6) = take 2 ?rest"
    by (simp add: py_slice_def l)
  have o: "length pre + 2 + 2 = length pre + 4" "length pre + 2 + 4 = length pre + 6" by simp_all
  have c: "\<not> length ?r < length pre + 6" using n l by simp
  have "skip_vlan ?r (length pre + 2) (be_int tpid) = skip_vlan ?r (length pre + 6) (be_int (take 2 ?rest))"
    by (subst skip_vlan.simps) (simp only: l(3) c o s if_True if_False)
  also have "\<dots> = Some (length pre + 4 + length (link_types tags ethertype), be_int ethertype)"
    using Cons.IH [of "pre @ tpid @ tci"] Cons.prems l by (simp add: add.commute [of 6])
  finally show ?case by (simp add: t l)
qed

text \<open>The event with another frame.\<close>

definition ethernet_frame :: "bytes \<Rightarrow> (bytes \<times> bytes) list \<Rightarrow> bytes \<Rightarrow> bytes \<Rightarrow> bytes" where
  "ethernet_frame macs tags ethertype body = macs @ link_types tags ethertype @ body"

definition same_upper_layers :: "fast_packet \<Rightarrow> fast_packet \<Rightarrow> bool" where
  "same_upper_layers p q \<longleftrightarrow> fp_flow_id p = fp_flow_id q \<and> fp_protocol_number p = fp_protocol_number q \<and>
     fp_network p = fp_network q \<and> fp_transport p = fp_transport q \<and> fp_icmp p = fp_icmp q \<and>
     fp_application_payload p = fp_application_payload q \<and> fp_ip_version p = fp_ip_version q"

lemma rewrap_upper: "same_upper_layers (rewrap pre eth lt sz p) p"
  by (simp add: same_upper_layers_def rewrap_def fp_flow_id_def fp_protocol_def)

definition ip_ethertype :: "bytes \<Rightarrow> int" where
  "ip_ethertype body = (if uint (hd body) div 16 = 4 then 0x0800 else 0x86DD)"

lemma link_independent:
  assumes macs: "length macs = 12" and tags: "list_all vlan_tag tags"
    and body: "body \<noteq> []" "uint (hd body) div 16 \<in> {4, 6}"
    and ty: "length ethertype = 2" "be_int ethertype = ip_ethertype body"
    and e1: "link_type e1 = ''ethernet''" "raw e1 = Some (ethernet_frame macs tags ethertype body)"
    and e2: "link_type e2 = ''raw-ip''" "raw e2 = Some body"
    and same: "pe_timestamp e1 = pe_timestamp e2" "src_ip e1 = src_ip e2" "dst_ip e1 = dst_ip e2" "src_port e1 = src_port e2"
      "dst_port e1 = dst_port e2" "protocol e1 = protocol e2"
  shows "\<exists>p q. fast_packet_init f e1 = Inr p \<and> fast_packet_init f e2 = Inr q \<and> same_upper_layers p q"
proof -
  define pre where "pre = macs @ link_types tags ethertype"
  define frame where "frame = pre @ body"
  let ?p = "fast_packet_fields e2"
  have nv: "be_int ethertype \<notin> VLAN_TYPES" using ty(2) by (simp add: ip_ethertype_def VLAN_TYPES_def)
  have n: "2 \<le> length (link_types tags ethertype)" using ty(1) by (induction tags) auto
  have sv: "skip_vlan frame 14 (be_int (py_slice frame 12 14)) = Some (length pre, be_int ethertype)"
    using skip_vlan_tags [OF tags ty(1) nv, of macs body] macs n by (simp add: frame_def pre_def py_slice_def)
  define eth where "eth = Some \<lparr>fe_src = mac_text (py_slice frame 6 12), fe_dst = mac_text (py_slice frame 0 6),
     fe_type = be_int ethertype, fe_payload = drop (length pre) frame\<rparr>"
  define sz where "sz = fp_size (fast_packet_fields e1)"
  have f1: "(fast_packet_fields e1)\<lparr>fp_ethernet := eth\<rparr> = rewrap pre eth ''ethernet'' sz ?p"
    using e1 e2 same by (simp add: fast_packet_fields_def rewrap_def sz_def frame_def pre_def ethernet_frame_def Let_def str_or_def)
  have fr: "fp_raw (fast_packet_fields e1) = frame" "fp_link_type (fast_packet_fields e1) = ''ethernet''"
    using e1 by (simp_all add: fast_packet_fields_def Let_def frame_def pre_def ethernet_frame_def str_or_def)
  have r2: "fp_raw ?p = body" "fp_link_type ?p = ''raw-ip''"
    using e2 by (simp_all add: fast_packet_fields_def Let_def str_or_def)
  have b0: "byte_at body 0 = Inr (uint (hd body))" using body(1) by (simp add: hd_conv_nth)
  have ne: "(''ethernet'' = ''raw-ip'') = False" "(length frame < 14) = False"
    using macs n by (simp_all add: frame_def pre_def)
  have base: "fast_packet_init f e1 = (let q = rewrap pre eth ''ethernet'' sz ?p in
      if be_int ethertype = 0x0800 then parse_ipv4 q (length pre)
      else if be_int ethertype = 0x86DD then parse_ipv6 f q (length pre)
      else if be_int ethertype = 0x0806 then parse_arp q (length pre) else Inr q)"
    by (simp only: fast_packet_init_def parse_frame_def Let_def fr ne if_False sv option.case prod.case eth_def [symmetric] f1)
  have "fast_packet_init f e1 = rewrapped pre eth ''ethernet'' sz (fast_packet_init f e2)"
  proof (cases "uint (hd body) div 16 = 4")
    case True
    then have "fast_packet_init f e2 = parse_ipv4 ?p 0"
      using body(1) by (simp add: fast_packet_init_def parse_frame_def Let_def r2 b0)
    with True show ?thesis using parse_ipv4_shift [of pre eth "''ethernet''" sz ?p 0] ty(2)
      by (simp add: base Let_def ip_ethertype_def)
  next
    case False
    then have "fast_packet_init f e2 = parse_ipv6 f ?p 0"
      using body by (simp add: fast_packet_init_def parse_frame_def Let_def r2 b0)
    with False show ?thesis using parse_ipv6_shift [of f pre eth "''ethernet''" sz ?p 0] ty(2)
      by (simp add: base Let_def ip_ethertype_def)
  qed
  moreover obtain q where "fast_packet_init f e2 = Inr q" using fast_packet_total by blast
  ultimately show ?thesis using rewrap_upper by (auto simp: rewrapped_simps)
qed

end
