(* ===== verification/Payload.thy ===== *)
theory Payload imports FastPacket begin

text \<open>
  core/detection/payload.py.  \<open>application_payload\<close> reads a packet in one of two forms: the FastPacket
  view, whose payload it takes as it is, and a packet dissected by Scapy, whose declared lengths it
  follows to leave the link padding out.  Scapy is a library: the record holds what the function reads
  of a dissected packet, and the theorems name what they assume of it.  The lemmas show that padding is
  excluded for IPv4, and that the two forms agree on IPv4 TCP and, when it has a length, on UDP.
\<close>

section \<open>Packets\<close>

text \<open>
  A dissected packet: the names of its layers; the bytes after a layer's header; the length of the Raw
  part of a layer, where it has one; and the header fields, \<open>None\<close> where the packet leaves a field unset.
\<close>

record scapy_packet =
  sc_layers :: "string list"
  sc_payload :: "string \<Rightarrow> bytes"
  sc_raw_length :: "string \<Rightarrow> int option"
  sc_ip_len :: "int option"
  sc_ip_ihl :: "int option"
  sc_ip_size :: int
  sc_ip6_plen :: "int option"
  sc_tcp_dataofs :: "int option"
  sc_tcp_seq :: "int option"
  sc_udp_len :: "int option"

datatype packet_view = FastView fast_packet | ScapyView scapy_packet

definition view_contains :: "packet_view \<Rightarrow> string \<Rightarrow> bool" where
  "view_contains p name = (case p of FastView f \<Rightarrow> fp_contains f name | ScapyView s \<Rightarrow> name \<in> set (sc_layers s))"

text \<open>\<open>a or b\<close> on a number that may be unset.\<close>

definition int_or :: "int option \<Rightarrow> int \<Rightarrow> int" where
  "int_or a b = (case a of None \<Rightarrow> b | Some n \<Rightarrow> if n = 0 then b else n)"

section \<open>The payload\<close>

definition PAYLOAD_LAYERS :: "string list" where
  "PAYLOAD_LAYERS = [''TCP'', ''UDP'', ''ICMP'', ''ICMPv6EchoRequest'', ''ICMPv6EchoReply'']"

definition transport_length :: "scapy_packet \<Rightarrow> int \<Rightarrow> int" where
  "transport_length s network_payload =
     (if ''TCP'' \<in> set (sc_layers s) then max 0 (network_payload - int_or (sc_tcp_dataofs s) 5 * 4)
      else if ''UDP'' \<in> set (sc_layers s) then
        (case sc_udp_len s of
           None \<Rightarrow> (case sc_raw_length s ''UDP'' of Some n \<Rightarrow> n | None \<Rightarrow> 0)
         | Some udp_length \<Rightarrow> max 0 (min (network_payload - 8) (udp_length - 8)))
      else if {''ICMP'', ''ICMPv6EchoRequest'', ''ICMPv6EchoReply''} \<inter> set (sc_layers s) \<noteq> {} then max 0 (network_payload - 8)
      else 0)"

definition declared_payload_length :: "scapy_packet \<Rightarrow> string \<Rightarrow> int" where
  "declared_payload_length s layer =
     (if ''IP'' \<in> set (sc_layers s) then
        transport_length s (int_or (sc_ip_len s) (sc_ip_size s) - int_or (sc_ip_ihl s) 5 * 4)
      else if ''IPv6'' \<in> set (sc_layers s) then
        transport_length s (int_or (sc_ip6_plen s) (int (length (sc_payload s ''IPv6''))))
      else (case sc_raw_length s layer of Some n \<Rightarrow> n | None \<Rightarrow> 0))"

definition application_payload :: "packet_view option \<Rightarrow> nat \<Rightarrow> bytes" where
  "application_payload packet maximum =
     (case packet of
        None \<Rightarrow> []
      | Some (FastView f) \<Rightarrow> take maximum (fp_application_payload f)
      | Some (ScapyView s) \<Rightarrow>
          (case filter (\<lambda>item. item \<in> set (sc_layers s)) PAYLOAD_LAYERS of
             [] \<Rightarrow> []
           | layer # _ \<Rightarrow>
               (let raw_bytes = sc_payload s layer; declared = declared_payload_length s layer in
                if raw_bytes = [] \<or> declared \<le> 0 then [] else take (nat (min (int maximum) declared)) raw_bytes)))"

section \<open>Bounds and padding\<close>

lemma fast_payload: "application_payload (Some (FastView f)) m = take m (fp_application_payload f)"
  by (simp add: application_payload_def)

lemma application_payload_bound: "length (application_payload p m) \<le> m"
  by (auto simp: application_payload_def Let_def min_def split: option.splits packet_view.splits list.splits)

text \<open>The payload of an IPv4 packet is the declared part of what follows the transport header.\<close>

lemma scapy_tcp4_payload:
  assumes "''IP'' \<in> set (sc_layers s)" "''TCP'' \<in> set (sc_layers s)" "sc_payload s ''TCP'' = body"
  shows "application_payload (Some (ScapyView s)) m =
    take m (take (nat (int_or (sc_ip_len s) (sc_ip_size s) - int_or (sc_ip_ihl s) 5 * 4 - int_or (sc_tcp_dataofs s) 5 * 4)) body)"
proof -
  have f: "filter (\<lambda>item. item \<in> set (sc_layers s)) PAYLOAD_LAYERS =
      ''TCP'' # filter (\<lambda>item. item \<in> set (sc_layers s)) (tl PAYLOAD_LAYERS)"
    using assms(2) by (simp add: PAYLOAD_LAYERS_def)
  show ?thesis unfolding application_payload_def option.case packet_view.case f list.case
    using assms by (auto simp: declared_payload_length_def transport_length_def Let_def min_def)
qed

lemma scapy_udp4_payload:
  assumes "''IP'' \<in> set (sc_layers s)" "''UDP'' \<in> set (sc_layers s)" "''TCP'' \<notin> set (sc_layers s)"
    "sc_udp_len s = Some u"
  shows "application_payload (Some (ScapyView s)) m =
    take m (take (nat (min (int_or (sc_ip_len s) (sc_ip_size s) - int_or (sc_ip_ihl s) 5 * 4) u - 8)) (sc_payload s ''UDP''))"
proof -
  have f: "filter (\<lambda>item. item \<in> set (sc_layers s)) PAYLOAD_LAYERS =
      ''UDP'' # filter (\<lambda>item. item \<in> set (sc_layers s)) (tl (tl PAYLOAD_LAYERS))"
    using assms(2,3) by (simp add: PAYLOAD_LAYERS_def)
  show ?thesis unfolding application_payload_def option.case packet_view.case f list.case
    using assms by (auto simp: declared_payload_length_def transport_length_def Let_def min_def)
qed

section \<open>The two forms of an IPv4 packet\<close>

text \<open>
  What Scapy reads of the IPv4 packet at an offset of a frame: the header fields at their places and,
  as the payload of the transport, all that follows its header, the padding included.
\<close>

definition ip4_header :: "bytes \<Rightarrow> nat \<Rightarrow> nat" where
  "ip4_header r offset = nat ((uint (r ! offset) AND 0x0F) * 4)"

definition tcp_header :: "bytes \<Rightarrow> nat \<Rightarrow> nat" where
  "tcp_header r offset = nat (((uint (r ! (offset + 12)) div 16) AND 0x0F) * 4)"

definition dissects_ip4 :: "scapy_packet \<Rightarrow> bytes \<Rightarrow> nat \<Rightarrow> bool" where
  "dissects_ip4 s r offset \<longleftrightarrow> ''IP'' \<in> set (sc_layers s) \<and>
     sc_ip_len s = Some (be_int (py_slice r (offset + 2) (offset + 4))) \<and> sc_ip_size s = int (length r - offset) \<and>
     sc_ip_ihl s = Some (uint (r ! offset) AND 0x0F)"

definition dissects_tcp :: "scapy_packet \<Rightarrow> bytes \<Rightarrow> nat \<Rightarrow> bool" where
  "dissects_tcp s r start \<longleftrightarrow> ''TCP'' \<in> set (sc_layers s) \<and>
     sc_tcp_dataofs s = Some ((uint (r ! (start + 12)) div 16) AND 0x0F) \<and>
     sc_payload s ''TCP'' = drop (start + tcp_header r start) r"

definition dissects_udp :: "scapy_packet \<Rightarrow> bytes \<Rightarrow> nat \<Rightarrow> bool" where
  "dissects_udp s r start \<longleftrightarrow> ''UDP'' \<in> set (sc_layers s) \<and> ''TCP'' \<notin> set (sc_layers s) \<and>
     sc_udp_len s = Some (be_int (py_slice r (start + 4) (start + 6))) \<and> sc_payload s ''UDP'' = drop (start + 8) r"


lemma take_min_drop: "take (min (length r) b - a) (drop a r) = take (b - a) (drop a r)"
  by (cases "length r \<le> b") (simp_all add: min_def)

lemma nat_of_be_int: "int (nat_of_be bs) = be_int bs"
  by (simp add: nat_of_be_def be_int_bounds)

text \<open>The length the two forms agree on: the declared one, or all that is there.\<close>

definition ip4_total :: "bytes \<Rightarrow> nat \<Rightarrow> nat" where
  "ip4_total r offset = (let total = nat_of_be (py_slice r (offset + 2) (offset + 4)) in if total = 0 then length r - offset else total)"

lemma ip4_total_scapy: "dissects_ip4 s r offset \<Longrightarrow> int_or (sc_ip_len s) (sc_ip_size s) = int (ip4_total r offset)"
  by (auto simp: dissects_ip4_def int_or_def ip4_total_def Let_def nat_of_be_int [symmetric])

lemma parse_tcp_shape:
  assumes "parse_tcp p start stop = Inr q" "fp_transport p = None" "fp_transport q \<noteq> None" "stop \<le> length (fp_raw p)"
  shows "20 \<le> tcp_header (fp_raw p) start \<and>
    fp_application_payload q = py_slice (fp_raw p) (start + tcp_header (fp_raw p) start) stop"
proof (cases "start + 20 > stop")
  case True
  with assms show ?thesis by (simp add: parse_tcp_def)
next
  case False
  then have i: "start + 12 < length (fp_raw p)" "start + 13 < length (fp_raw p)" using assms(4) by simp_all
  show ?thesis
    using assms(1-3) False byte_at_in [OF i(1)] byte_at_in [OF i(2)]
    by (auto simp: parse_tcp_def Let_def tcp_header_def split: if_splits)
qed

lemma parse_udp_shape:
  assumes "parse_udp p start stop = Inr q" "fp_transport p = None" "fp_transport q \<noteq> None"
  shows "fp_application_payload q = (let declared = nat_of_be (py_slice (fp_raw p) (start + 4) (start + 6)) in
    py_slice (fp_raw p) (start + 8) (if declared = 0 then stop else min stop (start + declared)))"
  using assms by (auto simp: parse_udp_def Let_def split: if_splits)

text \<open>Where the transport of an IPv4 packet begins and ends, and the packet it is parsed into.\<close>

lemma parse_ipv4_shape:
  assumes "parse_ipv4 p offset = Inr q" "fp_transport p = None" "fp_transport q \<noteq> None"
  shows "\<exists>p'. fp_raw p' = fp_raw p \<and> fp_transport p' = None \<and> 20 \<le> ip4_header (fp_raw p) offset \<and>
    parse_transport p' (offset + ip4_header (fp_raw p) offset)
      (min (length (fp_raw p)) (offset + ip4_total (fp_raw p) offset)) = Inr q"
proof (cases "length (fp_raw p) < offset + 20")
  case True
  with assms show ?thesis by (simp add: parse_ipv4_def)
next
  case False
  then have i: "byte_at (fp_raw p) (offset + k) = Inr (uint (fp_raw p ! (offset + k)))" if "k < 20" for k using that by simp
  show ?thesis
    using assms False i [of 0] i [of 8] i [of 9]
    by (auto simp: parse_ipv4_def Let_def ip4_header_def ip4_total_def split: if_splits
        intro!: exI [where x = "p\<lparr>fp_src_ip := _, fp_dst_ip := _, fp_protocol_number := _, fp_network := _, fp_ip_version := _\<rparr>"])
qed


lemma parse_transport_protocol: "parse_transport p a e = Inr q \<Longrightarrow> fp_protocol_number q = fp_protocol_number p"
  by (auto simp: parse_transport_def parse_tcp_def parse_udp_def parse_icmp_def byte_at_def Let_def split: if_splits)

text \<open>A header length that was accepted is not the unset one.\<close>

lemma header_field: "20 \<le> nat (n * 4) \<Longrightarrow> int_or (Some n) 5 * 4 = int (nat (n * 4))"
  by (auto simp: int_or_def)

lemma tcp_forms_agree:
  assumes p: "parse_ipv4 p offset = Inr q" "fp_transport p = None" "fp_transport q \<noteq> None" "fp_protocol_number q = 6"
    and d: "dissects_ip4 s (fp_raw p) offset" "dissects_tcp s (fp_raw p) (offset + ip4_header (fp_raw p) offset)"
  shows "application_payload (Some (ScapyView s)) m = application_payload (Some (FastView q)) m"
proof -
  let ?r = "fp_raw p"
  let ?start = "offset + ip4_header ?r offset"
  let ?stop = "min (length ?r) (offset + ip4_total ?r offset)"
  obtain p' where p': "fp_raw p' = ?r" "fp_transport p' = None" "20 \<le> ip4_header ?r offset" "parse_transport p' ?start ?stop = Inr q"
    using parse_ipv4_shape [OF p(1-3)] by blast
  have "parse_tcp p' ?start ?stop = Inr q"
    using p'(4) parse_transport_protocol [OF p'(4)] p(4) by (simp add: parse_transport_def)
  from parse_tcp_shape [OF this p'(2) p(3)] p'(1)
  have f: "20 \<le> tcp_header ?r ?start" "fp_application_payload q = py_slice ?r (?start + tcp_header ?r ?start) ?stop" by simp_all
  have o: "int_or (sc_ip_ihl s) 5 * 4 = int (ip4_header ?r offset)"
    "int_or (sc_tcp_dataofs s) 5 * 4 = int (tcp_header ?r ?start)"
    using d p'(3) f(1) by (simp_all add: dissects_ip4_def dissects_tcp_def header_field ip4_header_def tcp_header_def)
  have n: "nat (int (ip4_total ?r offset) - int (ip4_header ?r offset) - int (tcp_header ?r ?start)) =
      ip4_total ?r offset - (ip4_header ?r offset + tcp_header ?r ?start)" by linarith
  show ?thesis
    using d ip4_total_scapy [OF d(1)] o
    by (simp add: scapy_tcp4_payload dissects_ip4_def dissects_tcp_def fast_payload f(2) py_slice_def take_min_drop n)
qed


lemma udp_forms_agree:
  assumes p: "parse_ipv4 p offset = Inr q" "fp_transport p = None" "fp_transport q \<noteq> None" "fp_protocol_number q = 17"
    and d: "dissects_ip4 s (fp_raw p) offset" "dissects_udp s (fp_raw p) (offset + ip4_header (fp_raw p) offset)"
    and u: "sc_udp_len s \<noteq> Some 0"
  shows "application_payload (Some (ScapyView s)) m = application_payload (Some (FastView q)) m"
proof -
  let ?r = "fp_raw p"
  let ?start = "offset + ip4_header ?r offset"
  let ?stop = "min (length ?r) (offset + ip4_total ?r offset)"
  obtain p' where p': "fp_raw p' = ?r" "fp_transport p' = None" "20 \<le> ip4_header ?r offset" "parse_transport p' ?start ?stop = Inr q"
    using parse_ipv4_shape [OF p(1-3)] by blast
  have "parse_udp p' ?start ?stop = Inr q"
    using p'(4) parse_transport_protocol [OF p'(4)] p(4) by (simp add: parse_transport_def)
  from parse_udp_shape [OF this p'(2) p(3)] p'(1)
  have f: "fp_application_payload q = (let declared = nat_of_be (py_slice ?r (?start + 4) (?start + 6)) in
    py_slice ?r (?start + 8) (if declared = 0 then ?stop else min ?stop (?start + declared)))" by simp
  define n where "n = nat_of_be (py_slice ?r (?start + 4) (?start + 6))"
  have n: "n \<noteq> 0" "sc_udp_len s = Some (int n)" using d(2) u by (auto simp: dissects_udp_def n_def nat_of_be_int [symmetric])
  have g: "fp_application_payload q = py_slice ?r (?start + 8) (min ?stop (?start + n))" using f n(1) by (simp add: n_def [symmetric])
  have o: "int_or (sc_ip_ihl s) 5 * 4 = int (ip4_header ?r offset)"
    using d p'(3) by (simp add: dissects_ip4_def header_field ip4_header_def)
  have "nat (min (int (ip4_total ?r offset) - int (ip4_header ?r offset)) (int n) - 8) =
      min (offset + ip4_total ?r offset) (?start + n) - (?start + 8)" by linarith
  then show ?thesis
    using d ip4_total_scapy [OF d(1)] o n(2)
    by (simp add: scapy_udp4_payload dissects_ip4_def dissects_udp_def fast_payload g py_slice_def min.assoc take_min_drop)
qed


text \<open>The view FastPacket starts from, for a frame of raw IP.\<close>

definition raw_ip_fields :: "bytes \<Rightarrow> fast_packet" where
  "raw_ip_fields r = \<lparr>fp_time = 0, fp_raw = r, fp_link_type = ''raw-ip'', fp_size = int (length r), fp_src_ip = [], fp_dst_ip = [],
     fp_sport = 0, fp_dport = 0, fp_protocol_number = 0, fp_application_payload = [], fp_transport = None, fp_network = None,
     fp_ethernet = None, fp_arp = None, fp_icmp = None, fp_ip_version = 0\<rparr>"

text \<open>An IPv4 TCP packet of two payload bytes with two bytes of padding, and Scapy's view of it.\<close>

definition tcp4_padded :: bytes where
  "tcp4_padded = [0x45, 0, 0, 42, 0, 0, 0, 0, 64, 6, 0, 0, 10, 0, 0, 1, 10, 0, 0, 2,
     0, 80, 0x1F, 0x90, 0, 0, 0, 1, 0, 0, 0, 0, 0x50, 0x18, 0, 0, 0, 0, 0, 0, 7, 8, 0, 0]"

definition tcp4_padded_view :: scapy_packet where
  "tcp4_padded_view =
     \<lparr>sc_layers = [''IP'', ''TCP''], sc_payload = (\<lambda>layer. if layer = ''TCP'' then [7, 8, 0, 0] else []),
      sc_raw_length = (\<lambda>layer. Some 2), sc_ip_len = Some 42, sc_ip_ihl = Some 5, sc_ip_size = 44,
      sc_ip6_plen = None, sc_tcp_dataofs = Some 5, sc_tcp_seq = Some 1, sc_udp_len = None\<rparr>"

text \<open>The same for a UDP packet with four payload bytes.\<close>

definition udp4_padded :: bytes where
  "udp4_padded = [0x45, 0, 0, 32, 0, 0, 0, 0, 64, 17, 0, 0, 10, 0, 0, 1, 10, 0, 0, 2,
     0x30, 0x39, 0, 53, 0, 12, 0, 0, 1, 2, 3, 4, 0, 0]"

definition udp4_padded_view :: scapy_packet where
  "udp4_padded_view =
     \<lparr>sc_layers = [''IP'', ''UDP''], sc_payload = (\<lambda>layer. if layer = ''UDP'' then [1, 2, 3, 4, 0, 0] else []),
      sc_raw_length = (\<lambda>layer. Some 4), sc_ip_len = Some 32, sc_ip_ihl = Some 5, sc_ip_size = 34,
      sc_ip6_plen = None, sc_tcp_dataofs = None, sc_tcp_seq = None, sc_udp_len = Some 12\<rparr>"

section \<open>Where the two forms part\<close>

text \<open>
  A UDP header whose length is zero: FastPacket reads up to the end of the IP packet, the Scapy path
  declares nothing and drops the payload.
\<close>

definition udp4_zero_length :: bytes where
  "udp4_zero_length = [0x45, 0, 0, 32, 0, 0, 0, 0, 64, 17, 0, 0, 10, 0, 0, 1, 10, 0, 0, 2,
     0x30, 0x39, 0, 53, 0, 0, 0, 0, 1, 2, 3, 4]"

definition udp4_zero_length_view :: scapy_packet where
  "udp4_zero_length_view =
     \<lparr>sc_layers = [''IP'', ''UDP''], sc_payload = (\<lambda>layer. if layer = ''UDP'' then [1, 2, 3, 4] else []),
      sc_raw_length = (\<lambda>layer. Some 4), sc_ip_len = Some 32, sc_ip_ihl = Some 5, sc_ip_size = 32,
      sc_ip6_plen = None, sc_tcp_dataofs = None, sc_tcp_seq = None, sc_udp_len = Some 0\<rparr>"

lemma zero_length_dissects:
  "dissects_ip4 udp4_zero_length_view udp4_zero_length 0 \<and> dissects_udp udp4_zero_length_view udp4_zero_length 20"
  by code_simp

lemma zero_length_fast:
  "(case parse_frame ipv6_text (raw_ip_fields udp4_zero_length) of Inr q \<Rightarrow> application_payload (Some (FastView q)) 100 | Inl _ \<Rightarrow> []) = [1, 2, 3, 4]"
  by code_simp

lemma zero_length_scapy: "application_payload (Some (ScapyView udp4_zero_length_view)) 100 = []"
  by code_simp

text \<open>
  An IPv6 packet with an eight-byte extension header: its payload length counts the extension header,
  so the declared TCP length runs eight bytes into what follows the packet.
\<close>

definition tcp6_extension_view :: "bytes \<Rightarrow> bytes \<Rightarrow> scapy_packet" where
  "tcp6_extension_view body padding =
     \<lparr>sc_layers = [''IPv6'', ''IPv6ExtHdrDestOpt'', ''TCP''], sc_payload = (\<lambda>layer. if layer = ''TCP'' then body @ padding else []),
      sc_raw_length = (\<lambda>layer. Some (int (length body))), sc_ip_len = None, sc_ip_ihl = None, sc_ip_size = 0,
      sc_ip6_plen = Some (int (8 + 20 + length body)), sc_tcp_dataofs = Some 5, sc_tcp_seq = Some 1, sc_udp_len = None\<rparr>"

lemma extension_header_lets_padding_in:
  assumes "body \<noteq> []" "length body + 8 \<le> m"
  shows "application_payload (Some (ScapyView (tcp6_extension_view body padding))) m = body @ take 8 padding"
proof -
  have f: "filter (\<lambda>item. item \<in> set (sc_layers (tcp6_extension_view body padding))) PAYLOAD_LAYERS = [''TCP'']"
    by (simp add: tcp6_extension_view_def PAYLOAD_LAYERS_def)
  have "declared_payload_length (tcp6_extension_view body padding) ''TCP'' = int (length body) + 8"
    by (simp add: declared_payload_length_def transport_length_def tcp6_extension_view_def int_or_def)
  moreover have "sc_payload (tcp6_extension_view body padding) ''TCP'' = body @ padding" by (simp add: tcp6_extension_view_def)
  moreover have "nat (int (length body) + 8) = length body + 8" by simp
  moreover have "nat (min (int m) (int (length body) + 8)) = length body + 8" using assms(2) by linarith
  ultimately show ?thesis unfolding application_payload_def option.case packet_view.case f list.case
    using assms by (simp add: Let_def)
qed

end
