(* ===== verification/LiveStreams.thy ===== *)
theory LiveStreams imports Conversations Payload begin

text \<open>
  core/detection/streams.py, the bounded reassembly of live TCP streams.  A tracker
  keeps, per conversation and direction, the segments by sequence number; it emits a snapshot for
  early, marked or periodic updates.  The lemmas show the bounds and that reassembling segments cut
  from one byte stream gives a contiguous piece of that stream.
\<close>

section \<open>State\<close>

record stream_direction =
  sd_segments :: "(int, bytes) dict"
  sd_truncated :: bool
  sd_updates :: int
  sd_last_emitted_update :: int

definition new_direction :: stream_direction where
  "new_direction = \<lparr>sd_segments = [], sd_truncated = False, sd_updates = 0, sd_last_emitted_update = 0\<rparr>"

record live_stream_state =
  ls_last_seen :: f64
  ls_directions :: "(string, stream_direction) dict"

definition new_stream_state :: "f64 \<Rightarrow> live_stream_state" where
  "new_stream_state t = \<lparr>ls_last_seen = t, ls_directions = [(''to_responder'', new_direction), (''to_initiator'', new_direction)]\<rparr>"

record live_stream_snapshot =
  lss_flow_id :: "string \<times> string \<times> int \<times> int \<times> string"
  lss_direction :: string
  lss_payload :: bytes
  lss_timestamp :: f64
  lss_truncated :: bool

record stream_tracker =
  lt_maximum_streams :: nat
  lt_maximum_bytes :: nat
  lt_maximum_segments :: nat
  lt_emit_interval :: int
  lt_states :: "(conversation_key, live_stream_state) dict"

definition stream_tracker_init :: "int \<Rightarrow> int \<Rightarrow> int \<Rightarrow> int \<Rightarrow> stream_tracker" where
  "stream_tracker_init streams nbytes segments interval =
     \<lparr>lt_maximum_streams = nat (max 64 streams), lt_maximum_bytes = nat (max 8192 nbytes),
      lt_maximum_segments = nat (max 32 segments), lt_emit_interval = max 1 interval, lt_states = []\<rparr>"

section \<open>Evidence markers\<close>

definition lower_byte :: "8 word \<Rightarrow> 8 word" where
  "lower_byte b = (if 65 \<le> b \<and> b \<le> 90 then b + 32 else b)"

fun byte_prefix :: "bytes \<Rightarrow> bytes \<Rightarrow> bool" where
  "byte_prefix [] s = True"
| "byte_prefix (m # ms) [] = False"
| "byte_prefix (m # ms) (b # s) = (m = b \<and> byte_prefix ms s)"

fun byte_infix :: "bytes \<Rightarrow> bytes \<Rightarrow> bool" where
  "byte_infix m [] = (m = [])"
| "byte_infix m (b # s) = (byte_prefix m (b # s) \<or> byte_infix m s)"

definition EVIDENCE_MARKERS :: "bytes list" where
  "EVIDENCE_MARKERS = [b_lit ''user '', b_lit ''pass '', b_lit ''password'', b_lit ''authorization'', b_lit ''ntlmssp'',
     b_lit ''ssh-'', b_lit ''get '', b_lit ''post '', b_lit ''http/'', [0x16, 0x03], b_lit ''mqtt'',
     b_lit ''modbus'', b_lit ''coap'', b_lit ''mz'']"

definition has_evidence_marker :: "bytes \<Rightarrow> bool" where
  "has_evidence_marker payload =
     (let sample = map lower_byte (take 8192 payload) in list_ex (\<lambda>m. byte_infix m sample) EVIDENCE_MARKERS)"

section \<open>Reassembly\<close>

fun reassemble_rest :: "nat \<Rightarrow> bytes \<Rightarrow> int \<Rightarrow> (int \<times> bytes) list \<Rightarrow> bytes \<times> bool" where
  "reassemble_rest limit out stop [] = (out, False)"
| "reassemble_rest limit out stop ((sequence, payload) # rest) =
     (if sequence > stop then (out, False)
      else
        (let overlap = nat (max 0 (stop - sequence));
             more = overlap < length payload;
             out' = (if more then out @ drop overlap payload else out);
             stop' = (if more then sequence + int (length payload) else stop)
         in if limit \<le> length out' then (take limit out', True)
            else reassemble_rest limit out' stop' rest))"

definition reassemble :: "nat \<Rightarrow> (int, bytes) dict \<Rightarrow> bytes \<times> bool" where
  "reassemble limit segments =
     (case sort_key fst segments of
        [] \<Rightarrow> ([], False)
      | (sequence, payload) # rest \<Rightarrow> reassemble_rest limit payload (sequence + int (length payload)) rest)"

section \<open>The tracker\<close>

text \<open>\<open>int(packet[TCP].seq or 0)\<close>.\<close>

definition view_sequence :: "packet_view \<Rightarrow> int" where
  "view_sequence packet = (case packet of FastView f \<Rightarrow> fp_sequence f | ScapyView s \<Rightarrow> int_or (sc_tcp_seq s) 0)"

definition evict_streams :: "stream_tracker \<Rightarrow> stream_tracker" where
  "evict_streams t =
     (let overflow = length (lt_states t) - lt_maximum_streams t in
      t\<lparr>lt_states := foldl (\<lambda>d ks. dict_pop d (fst ks)) (lt_states t)
         (take overflow (sort_key (\<lambda>ks. f64_key (ls_last_seen (snd ks))) (lt_states t)))\<rparr>)"

definition expire_streams :: "stream_tracker \<Rightarrow> f64 \<Rightarrow> stream_tracker" where
  "expire_streams t before = t\<lparr>lt_states := filter (\<lambda>(k, s). \<not> f64_lt (ls_last_seen s) before) (lt_states t)\<rparr>"

text \<open>The direction the conversation tracker recorded; text other than its two names is no key of the table.\<close>

definition event_direction :: "packet_event \<Rightarrow> string option" where
  "event_direction e =
     (case dict_get (l7_info e) ''conversation_direction'' of
        None \<Rightarrow> Some ''to_responder''
      | Some v \<Rightarrow> if py_truth v then isinstance_str v else Some ''to_responder'')"

definition event_flow_id :: "packet_event \<Rightarrow> string \<times> string \<times> int \<times> int \<times> string" where
  "event_flow_id e = (src_ip e, dst_ip e, src_port e, dst_port e, protocol e)"

text \<open>The direction's new state, whether the streams are then evicted, and the payload to emit with its flag.\<close>

definition step_direction ::
  "stream_tracker \<Rightarrow> stream_direction \<Rightarrow> int \<Rightarrow> bytes \<Rightarrow> stream_direction \<times> bool \<times> (bytes \<times> bool) option" where
  "step_direction t stream sequence payload =
     (if dict_get (sd_segments stream) sequence = Some payload then (stream, False, None)
      else if length (sd_segments stream) \<ge> lt_maximum_segments t \<and> dict_get (sd_segments stream) sequence = None then
        (let stream1 = stream\<lparr>sd_truncated := True\<rparr> in
         (stream1, False, if has_evidence_marker payload then Some (payload, True) else None))
      else
        (let segments = dict_set (sd_segments stream) sequence payload;
             updates = sd_updates stream + 1;
             stream1 = stream\<lparr>sd_segments := segments, sd_updates := updates\<rparr>
         in if length segments > 16 \<and> \<not> has_evidence_marker payload \<and> updates - sd_last_emitted_update stream < lt_emit_interval t
            then (stream1, True, None)
            else
              (case reassemble (lt_maximum_bytes t) segments of (reassembled, short) \<Rightarrow>
                 let truncated = (sd_truncated stream \<or> short) in
                 (stream1\<lparr>sd_truncated := truncated, sd_last_emitted_update := updates\<rparr>, True, Some (reassembled, truncated)))))"

definition stream_update :: "stream_tracker \<Rightarrow> packet_view \<Rightarrow> packet_event \<Rightarrow> stream_tracker \<times> live_stream_snapshot option result" where
  "stream_update t packet e =
     (if \<not> view_contains packet ''TCP'' then (t, Inr None)
      else
        (let payload = application_payload (Some packet) (lt_maximum_bytes t) in
         if payload = [] then (t, Inr None)
         else
           (let key = conversation_key_of e;
                state0 = (case dict_get (lt_states t) key of Some s \<Rightarrow> s | None \<Rightarrow> new_stream_state (pe_timestamp e));
                state = state0\<lparr>ls_last_seen := f64_max (ls_last_seen state0) (pe_timestamp e)\<rparr>;
                t1 = t\<lparr>lt_states := dict_set (lt_states t) key state\<rparr>
            in case event_direction e of
                 None \<Rightarrow> (t1, Inl KeyError)
               | Some direction \<Rightarrow>
                   (case dict_get (ls_directions state) direction of
                      None \<Rightarrow> (t1, Inl KeyError)
                    | Some stream \<Rightarrow>
                        (case step_direction t stream (view_sequence packet) payload of (stream', evict, out) \<Rightarrow>
                           let state' = state\<lparr>ls_directions := dict_set (ls_directions state) direction stream'\<rparr>;
                               t2 = t\<lparr>lt_states := dict_set (lt_states t) key state'\<rparr>
                           in (if evict then evict_streams t2 else t2,
                               Inr (map_option (\<lambda>(bs, short). \<lparr>lss_flow_id = event_flow_id e, lss_direction = direction,
                                 lss_payload = bs, lss_timestamp = pe_timestamp e, lss_truncated = short\<rparr>) out)))))))"

section \<open>Reassembly of one byte stream\<close>

text \<open>Segments cut from the stream \<open>S\<close>, whose first byte has sequence number \<open>base\<close>.\<close>

definition cut_from :: "bytes \<Rightarrow> int \<Rightarrow> int \<times> bytes \<Rightarrow> bool" where
  "cut_from S base seg \<longleftrightarrow> base \<le> fst seg \<and> fst seg - base + int (length (snd seg)) \<le> int (length S) \<and>
     snd seg = take (length (snd seg)) (drop (nat (fst seg - base)) S)"

text \<open>The stream between two sequence numbers.\<close>

definition piece :: "bytes \<Rightarrow> int \<Rightarrow> int \<Rightarrow> int \<Rightarrow> bytes" where
  "piece S base a b = take (nat (b - a)) (drop (nat (a - base)) S)"

lemma piece_append:
  assumes "base \<le> a" "a \<le> b" "b \<le> c"
  shows "piece S base a c = piece S base a b @ piece S base b c"
proof -
  have n: "nat (c - a) = nat (b - a) + nat (c - b)" "nat (b - base) = nat (b - a) + nat (a - base)" using assms by simp_all
  show ?thesis unfolding piece_def n by (simp add: take_add drop_drop add.commute)
qed

lemma cut_piece: "cut_from S base (q, p) \<Longrightarrow> p = piece S base q (q + int (length p))"
  by (simp add: cut_from_def piece_def)

lemma drop_piece:
  assumes "base \<le> a" "a \<le> b" "b \<le> c"
  shows "drop (nat (b - a)) (piece S base a c) = piece S base b c \<or> int (length S) < c - base"
proof (cases "c - base \<le> int (length S)")
  case True
  then have "length (piece S base a b) = nat (b - a)" using assms by (simp add: piece_def)
  then show ?thesis using piece_append [OF assms] by simp
qed simp

lemma extend_piece:
  assumes out: "out = piece S base a stop" "base \<le> a" "a \<le> stop" "stop - base \<le> int (length S)"
    and seg: "cut_from S base (q, p)" "q \<le> stop"
  shows "(if nat (stop - q) < length p then out @ drop (nat (stop - q)) p else out) = piece S base a (max stop (q + int (length p)))"
    and "max stop (q + int (length p)) - base \<le> int (length S)"
proof -
  have b: "base \<le> q" "q + int (length p) - base \<le> int (length S)" using seg(1) by (simp_all add: cut_from_def)
  then show "max stop (q + int (length p)) - base \<le> int (length S)" using out(4) by simp
  show "(if nat (stop - q) < length p then out @ drop (nat (stop - q)) p else out) = piece S base a (max stop (q + int (length p)))"
  proof (cases "nat (stop - q) < length p")
    case True
    then have le: "stop \<le> q + int (length p)" by linarith
    with drop_piece [OF b(1) seg(2) le, of S] b(2) cut_piece [OF seg(1)]
    have "drop (nat (stop - q)) p = piece S base stop (q + int (length p))" by simp
    with True le show ?thesis using piece_append [OF out(2,3) le, of S] out(1) by simp
  next
    case False
    then have "max stop (q + int (length p)) = stop" using seg(2) by linarith
    with False show ?thesis using out(1) by (simp only: if_False)
  qed
qed

lemma rest_Cons:
  assumes "q \<le> stop"
  shows "reassemble_rest limit out stop ((q, p) # rest) =
    (let out' = (if nat (stop - q) < length p then out @ drop (nat (stop - q)) p else out) in
     if limit \<le> length out' then (take limit out', True) else reassemble_rest limit out' (max stop (q + int (length p))) rest)"
proof -
  have "(if nat (stop - q) < length p then q + int (length p) else stop) = max stop (q + int (length p))"
    using assms by (auto simp: max_def)
  then show ?thesis using assms by (simp add: Let_def)
qed

declare reassemble_rest.simps(2) [simp del]

lemma piece_length: "base \<le> a \<Longrightarrow> b - base \<le> int (length S) \<Longrightarrow> length (piece S base a b) = nat (b - a)"
  by (simp add: piece_def)

lemma take_piece: "b - a \<ge> int n \<Longrightarrow> take n (piece S base a b) = piece S base a (a + int n)"
  by (simp add: piece_def)

text \<open>Whatever is reassembled is one contiguous piece of the stream, without holes.\<close>

lemma reassemble_rest_piece:
  assumes "out = piece S base a stop" "base \<le> a" "a \<le> stop" "stop - base \<le> int (length S)" "list_all (cut_from S base) segs"
  shows "\<exists>b. fst (reassemble_rest limit out stop segs) = piece S base a b \<and> a \<le> b \<and> b - base \<le> int (length S)"
  using assms
proof (induction segs arbitrary: out stop)
  case (Cons seg segs)
  obtain q p where seg: "seg = (q, p)" by (cases seg)
  show ?case
  proof (cases "q \<le> stop")
    case False
    then have "reassemble_rest limit out stop (seg # segs) = (out, False)" by (simp add: seg reassemble_rest.simps(2))
    with Cons.prems show ?thesis by auto
  next
    case True
    have c: "cut_from S base (q, p)" "list_all (cut_from S base) segs" using Cons.prems(5) by (simp_all add: seg)
    note e = extend_piece [OF Cons.prems(1-4) c(1) True]
    let ?stop = "max stop (q + int (length p))"
    have a: "a \<le> ?stop" using Cons.prems(3) by simp
    have r: "reassemble_rest limit out stop (seg # segs) = (if limit \<le> length (piece S base a ?stop)
        then (take limit (piece S base a ?stop), True) else reassemble_rest limit (piece S base a ?stop) ?stop segs)"
      unfolding seg rest_Cons [OF True] e(1) Let_def by (rule refl)
    show ?thesis
    proof (cases "limit \<le> length (piece S base a ?stop)")
      case True
      then have l: "int limit \<le> ?stop - a" using piece_length [OF Cons.prems(2) e(2)] a by simp
      then have "a + int limit - base \<le> int (length S)" using e(2) by linarith
      with True l show ?thesis by (auto simp: r take_piece intro!: exI [of _ "a + int limit"])
    next
      case False
      from Cons.IH [OF refl Cons.prems(2) a e(2) c(2)] False show ?thesis by (simp add: r)
    qed
  qed
qed auto

text \<open>Segments that together cover the stream.\<close>

definition covers :: "(int \<times> bytes) list \<Rightarrow> int \<Rightarrow> bool" where
  "covers segs n \<longleftrightarrow> (\<exists>(q, p) \<in> set segs. q \<le> n \<and> n < q + int (length p))"

lemma rest_complete:
  assumes "out = piece S base base stop" "base \<le> stop" "stop - base \<le> int (length S)" "list_all (cut_from S base) segs"
    "sorted (map fst segs)" "list_all (\<lambda>seg. snd seg \<noteq> []) segs" "length S < limit"
    "\<And>n. stop \<le> n \<Longrightarrow> n < base + int (length S) \<Longrightarrow> covers segs n"
  shows "reassemble_rest limit out stop segs = (S, False)"
  using assms
proof (induction segs arbitrary: out stop)
  case Nil
  from Nil(8) [of stop] have "base + int (length S) \<le> stop" by (force simp: covers_def)
  with Nil show ?case by (simp add: piece_def)
next
  case (Cons seg segs)
  obtain q p where seg: "seg = (q, p)" by (cases seg)
  have c: "cut_from S base (q, p)" "list_all (cut_from S base) segs" using Cons.prems(4) by (simp_all add: seg)
  have later: "q \<le> fst x" if "x \<in> set segs" for x using Cons.prems(5) that by (auto simp: seg)
  have q: "q \<le> stop"
  proof (rule ccontr)
    assume "\<not> q \<le> stop"
    then have "\<not> covers (seg # segs) stop" using later by (fastforce simp: covers_def seg)
    with Cons.prems(8) [of stop] have "base + int (length S) \<le> stop" by force
    moreover have "0 < length p" using Cons.prems(6) by (simp add: seg)
    then have "q < base + int (length S)" using c(1) unfolding cut_from_def fst_conv snd_conv by linarith
    ultimately show False using \<open>\<not> q \<le> stop\<close> by simp
  qed
  note e = extend_piece [OF Cons.prems(1) order_refl Cons.prems(2,3) c(1) q]
  let ?stop = "max stop (q + int (length p))"
  have b: "base \<le> ?stop" using Cons.prems(2) by simp
  have "length (piece S base base ?stop) \<le> length S" by (simp add: piece_def)
  then have r: "reassemble_rest limit out stop (seg # segs) = reassemble_rest limit (piece S base base ?stop) ?stop segs"
    unfolding seg rest_Cons [OF q] e(1) Let_def using Cons.prems(7) by simp
  have "covers segs n" if "?stop \<le> n" "n < base + int (length S)" for n
    using Cons.prems(8) [of n] that by (auto simp: covers_def seg)
  from Cons.IH [OF refl b e(2) c(2) _ _ Cons.prems(7) this] Cons.prems(5,6)
  show ?case unfolding r by simp
qed


lemma sorted_first:
  assumes "sort_key f segs = x # rest"
  shows "set segs = insert x (set rest)" "sorted (map f (x # rest))" "\<And>y. y \<in> set segs \<Longrightarrow> f x \<le> f y"
proof -
  show s: "set segs = insert x (set rest)" using arg_cong [OF assms, of set] by simp
  show t: "sorted (map f (x # rest))" unfolding assms [symmetric] by (rule sorted_sort_key)
  show "\<And>y. y \<in> set segs \<Longrightarrow> f x \<le> f y" using s t by auto
qed

lemma first_piece: "cut_from S base (q, p) \<Longrightarrow> p = piece S base q (q + int (length p)) \<and> base \<le> q \<and> q + int (length p) - base \<le> int (length S)"
  using cut_piece by (simp add: cut_from_def)

text \<open>The reassembly starts at the lowest sequence number and runs on without a hole.\<close>

lemma reassemble_piece:
  assumes "list_all (cut_from S base) segs" "segs \<noteq> []"
  shows "\<exists>a b. fst (reassemble limit segs) = piece S base a b \<and> base \<le> a \<and> a \<le> b \<and> b - base \<le> int (length S) \<and>
    a \<in> fst ` set segs \<and> (\<forall>q \<in> fst ` set segs. a \<le> q)"
proof -
  obtain q p rest where r: "sort_key fst segs = (q, p) # rest"
    using assms(2) by (cases "sort_key fst segs") (auto dest: arg_cong [where f = length])
  note s = sorted_first [OF r]
  have c: "cut_from S base (q, p)" "list_all (cut_from S base) rest" using assms(1) s(1) by (auto simp: list_all_iff)
  note f = first_piece [OF c(1)]
  from reassemble_rest_piece [OF conjunct1 [OF f], of rest limit] f c(2)
  obtain b where b: "fst (reassemble_rest limit p (q + int (length p)) rest) = piece S base q b" "q \<le> b" "b - base \<le> int (length S)" by auto
  have "fst (reassemble limit segs) = piece S base q b" using b(1) by (simp add: reassemble_def r)
  moreover have "q \<in> fst ` set segs" using s(1) by force
  moreover have "\<forall>x \<in> fst ` set segs. q \<le> x" using s(3) by auto
  ultimately show ?thesis using b(2,3) f by blast
qed

text \<open>A stream cut in any way, overlapping or repeated, is put together again.\<close>

lemma reassemble_complete:
  assumes "list_all (cut_from S base) segs" "list_all (\<lambda>seg. snd seg \<noteq> []) segs" "length S < limit"
    "\<And>n. base \<le> n \<Longrightarrow> n < base + int (length S) \<Longrightarrow> covers segs n"
  shows "reassemble limit segs = (S, False)"
proof (cases "sort_key fst segs")
  case Nil
  then have "segs = []" by (auto dest: arg_cong [where f = length])
  with assms(4) [of base] show ?thesis by (auto simp: covers_def reassemble_def)
next
  case (Cons seg rest)
  obtain q p where seg: "seg = (q, p)" by (cases seg)
  note s = sorted_first [OF Cons [unfolded seg]]
  have c: "cut_from S base (q, p)" "list_all (cut_from S base) rest" "p \<noteq> []" "list_all (\<lambda>seg. snd seg \<noteq> []) rest"
    using assms(1,2) s(1) by (auto simp: list_all_iff)
  note f = first_piece [OF c(1)]
  have "0 < length p" using c(3) by simp
  with f have "base < base + int (length S)" by linarith
  then have "covers segs base" using assms(4) [of base] by simp
  then have "q \<le> base" using s(3) by (fastforce simp: covers_def)
  with f have q: "q = base" by simp
  have later: "covers rest n" if "base + int (length p) \<le> n" "n < base + int (length S)" for n
    using assms(4) [of n] that s(1) by (auto simp: covers_def q)
  have "reassemble_rest limit p (base + int (length p)) rest = (S, False)"
    by (rule rest_complete [OF _ _ _ c(2) _ c(4) assms(3) later]) (use f s(2) in \<open>simp_all add: q\<close>)
  then show ?thesis by (simp add: reassemble_def Cons seg q)
qed

text \<open>
  The sequence numbers are 32 bits wide and wrap; the reassembly sorts them as numbers, so after a wrap
  the bytes sent last come first and the earlier ones are cut off as if they were missing.
\<close>

lemma wrapped_stream_loses_its_start:
  "reassemble 8192 [(4294967292, [1, 2, 3, 4]), (0, [5, 6])] = ([5, 6], False)"
  by code_simp


section \<open>The tracker invariant\<close>

definition direction_ok :: "nat \<Rightarrow> nat \<Rightarrow> stream_direction \<Rightarrow> bool" where
  "direction_ok segments nbytes d \<longleftrightarrow> dict_ok (sd_segments d) \<and> length (sd_segments d) \<le> segments \<and>
     list_all (\<lambda>(q, p). p \<noteq> [] \<and> length p \<le> nbytes) (sd_segments d) \<and>
     0 \<le> sd_last_emitted_update d \<and> sd_last_emitted_update d \<le> sd_updates d"

definition live_state_ok :: "nat \<Rightarrow> nat \<Rightarrow> live_stream_state \<Rightarrow> bool" where
  "live_state_ok segments nbytes s \<longleftrightarrow> dict_keys (ls_directions s) = [''to_responder'', ''to_initiator''] \<and>
     list_all (\<lambda>(k, d). direction_ok segments nbytes d) (ls_directions s)"

definition streams_ok :: "stream_tracker \<Rightarrow> bool" where
  "streams_ok t \<longleftrightarrow> 64 \<le> lt_maximum_streams t \<and> 8192 \<le> lt_maximum_bytes t \<and> 32 \<le> lt_maximum_segments t \<and>
     1 \<le> lt_emit_interval t \<and> dict_ok (lt_states t) \<and>
     list_all (\<lambda>(k, s). live_state_ok (lt_maximum_segments t) (lt_maximum_bytes t) s) (lt_states t)"

lemma stream_tracker_init_ok: "streams_ok (stream_tracker_init a b c d)" "lt_states (stream_tracker_init a b c d) = []"
  by (auto simp: streams_ok_def stream_tracker_init_def max_def)

lemma new_stream_state_ok: "live_state_ok m n (new_stream_state t)"
  by (simp add: live_state_ok_def new_stream_state_def new_direction_def direction_ok_def)

lemma reassemble_rest_bound: "length out \<le> limit \<Longrightarrow> length (fst (reassemble_rest limit out stop segs)) \<le> limit"
  by (induction limit out stop segs rule: reassemble_rest.induct) (auto simp: reassemble_rest.simps(2) Let_def)

lemma reassemble_bound:
  assumes "list_all (\<lambda>(q, p). length p \<le> limit) segs"
  shows "length (fst (reassemble limit segs)) \<le> limit"
proof (cases "sort_key fst segs")
  case (Cons seg rest)
  then have "seg \<in> set segs" using sorted_first(1) [OF Cons] by simp
  with assms have "length (snd seg) \<le> limit" by (auto simp: list_all_iff)
  then show ?thesis by (cases seg) (simp add: reassemble_def Cons reassemble_rest_bound)
qed (simp add: reassemble_def)

lemma step_direction_ok:
  assumes d: "direction_ok (lt_maximum_segments t) (lt_maximum_bytes t) d"
    and p: "payload \<noteq> []" "length payload \<le> lt_maximum_bytes t"
    and s: "step_direction t d q payload = (d', evict, out)"
  shows "direction_ok (lt_maximum_segments t) (lt_maximum_bytes t) d'"
    and "case out of None \<Rightarrow> True | Some (bs, short) \<Rightarrow> length bs \<le> lt_maximum_bytes t"
    and "evict \<or> sd_segments d \<noteq> [] \<or> lt_maximum_segments t = 0"
proof -
  let ?segs = "dict_set (sd_segments d) q payload"
  have n: "length ?segs \<le> lt_maximum_segments t"
    if "\<not> (length (sd_segments d) \<ge> lt_maximum_segments t \<and> dict_get (sd_segments d) q = None)"
    using that d by (auto simp: direction_ok_def length_dict_set dict_simps map_of_eq_None_iff)
  have l: "list_all (\<lambda>(q, p). p \<noteq> [] \<and> length p \<le> lt_maximum_bytes t) ?segs"
    using d p by (simp add: direction_ok_def list_all_dict_set)
  then have b: "length (fst (reassemble (lt_maximum_bytes t) ?segs)) \<le> lt_maximum_bytes t"
    by (intro reassemble_bound) (auto simp: list_all_iff)
  have w: "dict_ok ?segs" using d by (simp add: direction_ok_def)
  note c = d [unfolded direction_ok_def]
  obtain bs short where r: "reassemble (lt_maximum_bytes t) ?segs = (bs, short)" by (cases "reassemble (lt_maximum_bytes t) ?segs")
  show "direction_ok (lt_maximum_segments t) (lt_maximum_bytes t) d'"
    using s c n l w by (auto simp: step_direction_def Let_def r direction_ok_def split: if_splits)
  show "case out of None \<Rightarrow> True | Some (bs, short) \<Rightarrow> length bs \<le> lt_maximum_bytes t"
    using s b p by (auto simp: step_direction_def Let_def r split: if_splits)
  show "evict \<or> sd_segments d \<noteq> [] \<or> lt_maximum_segments t = 0"
    using s by (auto simp: step_direction_def Let_def r split: if_splits)
qed

lemma pop_many_length:
  "dict_ok d \<Longrightarrow> distinct (map fst l) \<Longrightarrow> fst ` set l \<subseteq> fst ` set d \<Longrightarrow>
     length (foldl (\<lambda>d ks. dict_pop d (fst ks)) d l) = length d - length l"
proof (induction l arbitrary: d)
  case (Cons ks l)
  have "fst ks \<notin> fst ` set l" "fst ` set l \<subseteq> fst ` set d" using Cons.prems(2,3) by simp_all
  then have "fst ` set l \<subseteq> fst ` set (dict_pop d (fst ks))"
    by (simp only: dict_pop_keys [OF Cons.prems(1)] subset_Diff_insert Diff_empty simp_thms)
  from Cons.IH [OF _ _ this] Cons.prems length_dict_pop [of d "fst ks"] show ?case by simp
qed simp

lemma pop_many_ok:
  "dict_ok d \<Longrightarrow> list_all P d \<Longrightarrow> dict_ok (foldl (\<lambda>d ks. dict_pop d (fst ks)) d l) \<and> list_all P (foldl (\<lambda>d ks. dict_pop d (fst ks)) d l)"
  by (induction l arbitrary: d) (simp_all add: list_all_dict_pop)

lemma evict_streams_ok:
  assumes "streams_ok t"
  shows "streams_ok (evict_streams t) \<and> length (lt_states (evict_streams t)) \<le> lt_maximum_streams t \<and>
    lt_maximum_streams (evict_streams t) = lt_maximum_streams t \<and> lt_maximum_bytes (evict_streams t) = lt_maximum_bytes t \<and>
    lt_maximum_segments (evict_streams t) = lt_maximum_segments t"
proof -
  let ?n = "length (lt_states t) - lt_maximum_streams t" and ?f = "\<lambda>ks. f64_key (ls_last_seen (snd ks))"
  let ?l = "take ?n (sort_key ?f (lt_states t))"
  have d: "dict_ok (lt_states t)" using assms by (simp add: streams_ok_def)
  note o = oldest_entries [OF d, of ?n ?f]
  have "fst ` set ?l \<subseteq> fst ` set (lt_states t)" using o(2) by blast
  from pop_many_length [OF d o(1) this]
  have "length (lt_states (evict_streams t)) \<le> lt_maximum_streams t" by (simp add: evict_streams_def)
  moreover have "streams_ok (evict_streams t)"
    using assms pop_many_ok [OF d, of "\<lambda>(k, s). live_state_ok (lt_maximum_segments t) (lt_maximum_bytes t) s" ?l]
    by (simp add: streams_ok_def evict_streams_def)
  ultimately show ?thesis by (simp add: evict_streams_def)
qed

lemma expire_streams_ok:
  assumes "streams_ok t"
  shows "streams_ok (expire_streams t before) \<and> length (lt_states (expire_streams t before)) \<le> length (lt_states t) \<and>
    lt_maximum_streams (expire_streams t before) = lt_maximum_streams t"
  using assms by (auto simp: streams_ok_def expire_streams_def dict_ok_def distinct_map_filter list_all_iff)


section \<open>One update\<close>

definition direction_known :: "packet_event \<Rightarrow> bool" where
  "direction_known e \<longleftrightarrow> event_direction e \<in> {Some ''to_responder'', Some ''to_initiator''}"

definition same_limits :: "stream_tracker \<Rightarrow> stream_tracker \<Rightarrow> bool" where
  "same_limits t t' \<longleftrightarrow> lt_maximum_streams t' = lt_maximum_streams t \<and> lt_maximum_bytes t' = lt_maximum_bytes t \<and>
     lt_maximum_segments t' = lt_maximum_segments t"

lemma streams_ok_set:
  "streams_ok t \<Longrightarrow> live_state_ok (lt_maximum_segments t) (lt_maximum_bytes t) s \<Longrightarrow> streams_ok (t\<lparr>lt_states := dict_set (lt_states t) k s\<rparr>)"
  by (simp add: streams_ok_def list_all_dict_set)

lemma live_state_directions:
  assumes "live_state_ok m n s"
  shows "dict_get (ls_directions s) d = None \<longleftrightarrow> d \<notin> {''to_responder'', ''to_initiator''}"
  using assms by (auto simp: live_state_ok_def dict_simps map_of_eq_None_iff simp flip: set_map)

lemma live_state_direction:
  assumes "live_state_ok m n s" "dict_get (ls_directions s) d = Some x"
  shows "direction_ok m n x"
proof -
  have "(d, x) \<in> set (ls_directions s)" using assms(2) by (simp add: dict_simps map_of_SomeD)
  with assms(1) show ?thesis by (auto simp: live_state_ok_def list_all_iff)
qed

lemma live_state_set:
  assumes "live_state_ok m n s" "dict_get (ls_directions s) d = Some x" "direction_ok m n y"
  shows "live_state_ok m n (s\<lparr>ls_directions := dict_set (ls_directions s) d y\<rparr>)"
proof -
  have "dict_keys (dict_set ds d y) = dict_keys ds" if "dict_get ds d = Some x" for ds :: "(string, stream_direction) dict"
    using that by (induction ds) (auto split: if_splits)
  with assms show ?thesis by (simp add: live_state_ok_def list_all_dict_set)
qed

text \<open>The state an update works on, with its \<open>last_seen\<close> moved.\<close>

lemma touched_state_ok:
  assumes "streams_ok t" "s0 = (case dict_get (lt_states t) key of Some s \<Rightarrow> s | None \<Rightarrow> new_stream_state ts)"
  shows "live_state_ok (lt_maximum_segments t) (lt_maximum_bytes t) (s0\<lparr>ls_last_seen := x\<rparr>)"
    and "dict_get (lt_states t) key = None \<Longrightarrow> dict_get (ls_directions (s0\<lparr>ls_last_seen := x\<rparr>)) d = Some y \<Longrightarrow> sd_segments y = []"
proof -
  have "live_state_ok (lt_maximum_segments t) (lt_maximum_bytes t) s0"
  proof (cases "dict_get (lt_states t) key")
    case None
    then show ?thesis using assms(2) by (simp add: new_stream_state_ok)
  next
    case (Some s)
    then have "(key, s) \<in> set (lt_states t)" by (simp add: dict_simps map_of_SomeD)
    with assms Some show ?thesis by (auto simp: streams_ok_def list_all_iff)
  qed
  then show "live_state_ok (lt_maximum_segments t) (lt_maximum_bytes t) (s0\<lparr>ls_last_seen := x\<rparr>)" by (simp add: live_state_ok_def)
  show "dict_get (lt_states t) key = None \<Longrightarrow> dict_get (ls_directions (s0\<lparr>ls_last_seen := x\<rparr>)) d = Some y \<Longrightarrow> sd_segments y = []"
    using assms(2) by (auto simp: new_stream_state_def new_direction_def split: if_splits)
qed


definition snapshot_bound :: "nat \<Rightarrow> live_stream_snapshot option result \<Rightarrow> bool" where
  "snapshot_bound n r = (case r of Inr (Some snapshot) \<Rightarrow> length (lss_payload snapshot) \<le> n | _ \<Rightarrow> True)"

lemma states_after_set:
  assumes "dict_get d k \<noteq> None"
  shows "length (dict_set d k s) = length d"
  using assms by (auto simp: length_dict_set dict_simps map_of_eq_None_iff)

text \<open>
  Every update keeps the invariant and the snapshot within the byte limit; it raises only for a
  direction that is neither of the two, and otherwise the number of streams stays within its limit.
\<close>

lemma unknown_direction:
  assumes "live_state_ok m n s" "event_direction e = None \<or> dict_get (ls_directions s) (the (event_direction e)) = None"
  shows "\<not> direction_known e"
  using assms(2) unfolding direction_known_def live_state_directions [OF assms(1)] by (cases "event_direction e") auto

lemma stream_update_ok:
  assumes t: "streams_ok t" and u: "stream_update t p e = (t', r)"
  shows "streams_ok t' \<and> same_limits t t' \<and> snapshot_bound (lt_maximum_bytes t) r \<and> (direction_known e \<longrightarrow> is_ok r) \<and>
    (is_ok r \<longrightarrow> length (lt_states t) \<le> lt_maximum_streams t \<longrightarrow> length (lt_states t') \<le> lt_maximum_streams t)"
proof (cases "view_contains p ''TCP'' \<and> application_payload (Some p) (lt_maximum_bytes t) \<noteq> []")
  case False
  then have "stream_update t p e = (t, Inr None)" unfolding stream_update_def Let_def
    by (cases "view_contains p ''TCP''") (simp_all only: simp_thms if_True if_False)
  with u have "t' = t" "r = Inr None" by simp_all
  with t show ?thesis by (simp add: same_limits_def snapshot_bound_def)
next
  case True
  define payload where "payload = application_payload (Some p) (lt_maximum_bytes t)"
  define key where "key = conversation_key_of e"
  define s0 where "s0 = (case dict_get (lt_states t) key of Some s \<Rightarrow> s | None \<Rightarrow> new_stream_state (pe_timestamp e))"
  define s where "s = s0\<lparr>ls_last_seen := f64_max (ls_last_seen s0) (pe_timestamp e)\<rparr>"
  define t1 where "t1 = t\<lparr>lt_states := dict_set (lt_states t) key s\<rparr>"
  note so = touched_state_ok [OF t s0_def, of "f64_max (ls_last_seen s0) (pe_timestamp e)", folded s_def]
  have t1: "streams_ok t1" unfolding t1_def by (rule streams_ok_set [OF t so(1)])
  have pl: "payload \<noteq> []" "length payload \<le> lt_maximum_bytes t" using True application_payload_bound by (simp_all add: payload_def)
  have c: "view_contains p ''TCP''" using True by blast
  have u': "stream_update t p e = (case event_direction e of None \<Rightarrow> (t1, Inl KeyError)
      | Some direction \<Rightarrow> (case dict_get (ls_directions s) direction of None \<Rightarrow> (t1, Inl KeyError)
         | Some stream \<Rightarrow> (case step_direction t stream (view_sequence p) payload of (stream', evict, out) \<Rightarrow>
             let t2 = t\<lparr>lt_states := dict_set (lt_states t) key (s\<lparr>ls_directions := dict_set (ls_directions s) direction stream'\<rparr>)\<rparr>
             in (if evict then evict_streams t2 else t2, Inr (map_option (\<lambda>(bs, short). \<lparr>lss_flow_id = event_flow_id e,
                   lss_direction = direction, lss_payload = bs, lss_timestamp = pe_timestamp e, lss_truncated = short\<rparr>) out)))))"
    using c pl(1) unfolding stream_update_def payload_def [symmetric] key_def [symmetric] Let_def s0_def [symmetric] s_def [symmetric] t1_def [symmetric]
    by (simp only: simp_thms if_False)
  show ?thesis
  proof (cases "event_direction e = None \<or> dict_get (ls_directions s) (the (event_direction e)) = None")
    case True
    then have "stream_update t p e = (t1, Inl KeyError)" unfolding u' by (cases "event_direction e") (simp_all only: option.case option.sel option.distinct simp_thms)
    with u have "t' = t1" "r = Inl KeyError" by simp_all
    moreover have "\<not> direction_known e" by (rule unknown_direction [OF so(1) True])
    moreover have "same_limits t t1" by (simp add: same_limits_def t1_def)
    ultimately show ?thesis using t1 by (simp add: snapshot_bound_def)
  next
    case False
    then have "event_direction e \<noteq> None" "dict_get (ls_directions s) (the (event_direction e)) \<noteq> None" by (simp_all only: de_Morgan_disj simp_thms)
    then obtain direction stream where d: "event_direction e = Some direction" "dict_get (ls_directions s) direction = Some stream"
      by (metis not_None_eq option.sel)
    obtain stream' evict out where st: "step_direction t stream (view_sequence p) payload = (stream', evict, out)"
      by (cases "step_direction t stream (view_sequence p) payload") auto
    define s' where "s' = s\<lparr>ls_directions := dict_set (ls_directions s) direction stream'\<rparr>"
    define t2 where "t2 = t\<lparr>lt_states := dict_set (lt_states t) key s'\<rparr>"
    have e: "t' = (if evict then evict_streams t2 else t2)" "r = Inr (map_option (\<lambda>(bs, short). \<lparr>lss_flow_id = event_flow_id e,
        lss_direction = direction, lss_payload = bs, lss_timestamp = pe_timestamp e, lss_truncated = short\<rparr>) out)"
      using u unfolding u' d(1) option.case d(2) st prod.case Let_def s'_def [symmetric] t2_def [symmetric] by simp_all
    note so2 = step_direction_ok [OF live_state_direction [OF so(1) d(2)] pl st]
    have t2: "streams_ok t2" unfolding t2_def s'_def by (rule streams_ok_set [OF t live_state_set [OF so(1) d(2) so2(1)]])
    have m: "0 < lt_maximum_segments t" using t by (simp add: streams_ok_def)
    have f: "lt_maximum_streams t2 = lt_maximum_streams t" "lt_maximum_bytes t2 = lt_maximum_bytes t"
      "lt_maximum_segments t2 = lt_maximum_segments t" by (simp_all add: t2_def)
    have stay: "length (lt_states t2) = length (lt_states t)" if "\<not> evict"
    proof -
      have "sd_segments stream \<noteq> []" using so2(3) that m by simp
      with so(2) [OF _ d(2)] have "dict_get (lt_states t) key \<noteq> None" by blast
      then show ?thesis by (simp add: t2_def states_after_set)
    qed
    have "snapshot_bound (lt_maximum_bytes t) r"
      using so2(2) unfolding e(2) snapshot_bound_def by (cases out) (simp_all split: prod.splits)
    moreover have "streams_ok t' \<and> same_limits t t' \<and>
        (length (lt_states t) \<le> lt_maximum_streams t \<longrightarrow> length (lt_states t') \<le> lt_maximum_streams t)"
    proof (cases evict)
      case True
      with evict_streams_ok [OF t2] f show ?thesis by (simp add: e(1) same_limits_def)
    next
      case False
      with t2 stay f show ?thesis by (simp add: e(1) same_limits_def)
    qed
    moreover have "is_ok r" by (simp add: e(2))
    ultimately show ?thesis by simp
  qed
qed

section \<open>Runs, and events from the conversation tracker\<close>

datatype stream_op = StreamPacket packet_view packet_event | StreamExpire f64

definition stream_step :: "stream_tracker \<Rightarrow> stream_op \<Rightarrow> stream_tracker" where
  "stream_step t op = (case op of StreamPacket p e \<Rightarrow> fst (stream_update t p e) | StreamExpire before \<Rightarrow> expire_streams t before)"

definition op_known :: "stream_op \<Rightarrow> bool" where
  "op_known op = (case op of StreamPacket p e \<Rightarrow> direction_known e | StreamExpire _ \<Rightarrow> True)"

lemma stream_step_ok:
  assumes "streams_ok t"
  shows "streams_ok (stream_step t op)"
    and "op_known op \<Longrightarrow> length (lt_states t) \<le> lt_maximum_streams t \<Longrightarrow> length (lt_states (stream_step t op)) \<le> lt_maximum_streams (stream_step t op)"
proof -
  show "streams_ok (stream_step t op)"
  proof (cases op)
    case (StreamPacket p e)
    from stream_update_ok [OF assms prod.collapse [symmetric], of p e] show ?thesis by (simp add: StreamPacket stream_step_def)
  next
    case (StreamExpire b)
    with expire_streams_ok [OF assms, of b] show ?thesis by (simp add: stream_step_def)
  qed
  show "op_known op \<Longrightarrow> length (lt_states t) \<le> lt_maximum_streams t \<Longrightarrow> length (lt_states (stream_step t op)) \<le> lt_maximum_streams (stream_step t op)"
  proof (cases op)
    case (StreamPacket p e)
    obtain t' r where u: "stream_update t p e = (t', r)" by (cases "stream_update t p e")
    assume "op_known op" "length (lt_states t) \<le> lt_maximum_streams t"
    with stream_update_ok [OF assms u] show ?thesis by (simp add: StreamPacket stream_step_def op_known_def u same_limits_def)
  next
    case (StreamExpire b)
    assume "length (lt_states t) \<le> lt_maximum_streams t"
    with expire_streams_ok [OF assms, of b] show ?thesis by (simp add: StreamExpire stream_step_def)
  qed
qed

lemma stream_run_ok: "streams_ok t \<Longrightarrow> streams_ok (foldl stream_step t ops)"
  by (induction ops arbitrary: t) (simp_all add: stream_step_ok)

lemma stream_step_limits: "streams_ok t \<Longrightarrow> same_limits t (stream_step t op)"
proof (cases op)
  case (StreamPacket p e)
  assume "streams_ok t"
  from stream_update_ok [OF this prod.collapse [symmetric], of p e] show ?thesis by (simp add: StreamPacket stream_step_def)
qed (simp add: stream_step_def expire_streams_def same_limits_def)

lemma stream_run_limits: "streams_ok t \<Longrightarrow> same_limits t (foldl stream_step t ops)"
proof (induction ops arbitrary: t)
  case (Cons op ops)
  from Cons.IH [OF stream_step_ok(1) [OF Cons.prems]] stream_step_limits [OF Cons.prems, of op] show ?case
    by (simp add: same_limits_def)
qed (simp add: same_limits_def)

text \<open>The bytes one direction holds: each segment is bounded, and so is their number.\<close>

definition direction_bytes :: "stream_direction \<Rightarrow> nat" where
  "direction_bytes d = sum_list (map (\<lambda>(q, p). length p) (sd_segments d))"

lemma direction_bytes_bound:
  assumes "direction_ok m n d"
  shows "direction_bytes d \<le> m * n"
proof -
  have "sum_list (map (\<lambda>(q, p). length p) ps) \<le> length ps * n" if "list_all (\<lambda>(q, p). p \<noteq> [] \<and> length p \<le> n) ps" for ps :: "(int, bytes) dict"
    using that by (induction ps) auto
  with assms have "direction_bytes d \<le> length (sd_segments d) * n" by (simp add: direction_ok_def direction_bytes_def)
  also have "\<dots> \<le> m * n" using assms by (simp add: direction_ok_def)
  finally show ?thesis .
qed

definition stream_within :: "nat \<Rightarrow> nat \<Rightarrow> live_stream_state \<Rightarrow> bool" where
  "stream_within segments nbytes s \<longleftrightarrow> list_all (\<lambda>(k, d). length (sd_segments d) \<le> segments \<and> distinct (map fst (sd_segments d)) \<and>
     list_all (\<lambda>(q, p). length p \<le> nbytes) (sd_segments d) \<and> direction_bytes d \<le> segments * nbytes) (ls_directions s)"

lemma live_state_within: "live_state_ok m n s \<Longrightarrow> stream_within m n s"
  by (auto simp: live_state_ok_def stream_within_def direction_bytes_bound list_all_iff) (auto simp: direction_ok_def dict_ok_def list_all_iff)

lemma stream_run_within:
  assumes "streams_ok t"
  shows "list_all (\<lambda>(k, s). stream_within (lt_maximum_segments t) (lt_maximum_bytes t) s) (lt_states (foldl stream_step t ops))"
  using stream_run_ok [OF assms, of ops] stream_run_limits [OF assms, of ops]
  by (auto simp: streams_ok_def same_limits_def list_all_iff intro: live_state_within)

lemma stream_run_bounded:
  "streams_ok t \<Longrightarrow> list_all op_known ops \<Longrightarrow> length (lt_states t) \<le> lt_maximum_streams t \<Longrightarrow>
     length (lt_states (foldl stream_step t ops)) \<le> lt_maximum_streams (foldl stream_step t ops)"
  by (induction ops arbitrary: t) (simp_all add: stream_step_ok)

lemma update_direction_metadata:
  assumes "update_with_delta ct e = (ct', metadata, d)"
  shows "event_direction (e\<lparr>l7_info := dict_update (l7_info e) metadata\<rparr>) \<in> {Some ''to_responder'', Some ''to_initiator''}"
proof -
  obtain s direction where m: "metadata = flow_metadata s direction" "direction \<in> {''to_responder'', ''to_initiator''}"
    using assms by (auto simp: update_with_delta_def state_update_def state_direction_def Let_def split: prod.splits if_splits)
  have "dict_get (dict_update i metadata) ''conversation_direction'' = Some (PyStr direction)" for i
    by (simp add: m(1) flow_metadata_def dict_simps dict_update_def Let_def)
  with m(2) show ?thesis by (auto simp: event_direction_def)
qed

end
