(* ===== verification/Md5.thy ===== *)
theory Md5 imports Sha256 begin

text \<open>
  \<open>hashlib.md5\<close>, which the TLS parser uses for its JA3 fingerprints, on 32-bit words; the padding ends
  with the bit length in little-endian order.
\<close>

definition rotl32 :: "nat \<Rightarrow> u32 \<Rightarrow> u32" where
  "rotl32 n x = push_bit n x OR drop_bit (32 - n) x"

definition md5_K :: "u32 list" where
  "md5_K = [
     3614090360, 3905402710, 606105819, 3250441966, 4118548399, 1200080426, 2821735955, 4249261313,
     1770035416, 2336552879, 4294925233, 2304563134, 1804603682, 4254626195, 2792965006, 1236535329,
     4129170786, 3225465664, 643717713, 3921069994, 3593408605, 38016083, 3634488961, 3889429448,
     568446438, 3275163606, 4107603335, 1163531501, 2850285829, 4243563512, 1735328473, 2368359562,
     4294588738, 2272392833, 1839030562, 4259657740, 2763975236, 1272893353, 4139469664, 3200236656,
     681279174, 3936430074, 3572445317, 76029189, 3654602809, 3873151461, 530742520, 3299628645,
     4096336452, 1126891415, 2878612391, 4237533241, 1700485571, 2399980690, 4293915773, 2240044497,
     1873313359, 4264355552, 2734768916, 1309151649, 4149444226, 3174756917, 718787259, 3951481745]"

definition md5_shift :: "nat \<Rightarrow> nat" where
  "md5_shift i = [[7, 12, 17, 22], [5, 9, 14, 20], [4, 11, 16, 23], [6, 10, 15, 21]] ! (i div 16) ! (i mod 4)"

type_synonym md5_state = "u32 \<times> u32 \<times> u32 \<times> u32"

definition md5_mix :: "nat \<Rightarrow> u32 \<Rightarrow> u32 \<Rightarrow> u32 \<Rightarrow> u32" where
  "md5_mix i b c d =
     (if i < 16 then (b AND c) OR (NOT b AND d)
      else if i < 32 then (d AND b) OR (NOT d AND c)
      else if i < 48 then b XOR c XOR d
      else c XOR (b OR NOT d))"

definition md5_word_index :: "nat \<Rightarrow> nat" where
  "md5_word_index i = (if i < 16 then i else if i < 32 then (5 * i + 1) mod 16 else if i < 48 then (3 * i + 5) mod 16 else 7 * i mod 16)"

fun md5_round :: "u32 list \<Rightarrow> md5_state \<Rightarrow> nat \<Rightarrow> md5_state" where
  "md5_round ws (a, b, c, d) i =
     (d, b + rotl32 (md5_shift i) (a + md5_mix i b c d + md5_K ! i + ws ! md5_word_index i), b, c)"

fun md5_add :: "md5_state \<Rightarrow> md5_state \<Rightarrow> md5_state" where
  "md5_add (a, b, c, d) (a', b', c', d') = (a + a', b + b', c + c', d + d')"

definition le_word :: "bytes \<Rightarrow> u32" where
  "le_word bs = word_of_int (be_int (rev bs))"

fun md5_words :: "bytes \<Rightarrow> u32 list" where
  "md5_words (a # b # c # d # r) = le_word [a, b, c, d] # md5_words r"
| "md5_words _ = []"

definition md5_pad :: "bytes \<Rightarrow> bytes" where
  "md5_pad m = m @ [0x80] @ zeros ((119 - length m mod 64) mod 64) @ rev (be_bytes 8 (8 * int (length m)))"

fun md5_blocks :: "nat \<Rightarrow> md5_state \<Rightarrow> u32 list \<Rightarrow> md5_state" where
  "md5_blocks 0 s ws = s"
| "md5_blocks (Suc n) s ws = md5_blocks n (md5_add s (foldl (md5_round (take 16 ws)) s [0..<64])) (drop 16 ws)"

fun md5_output :: "md5_state \<Rightarrow> bytes" where
  "md5_output (a, b, c, d) = concat (map (\<lambda>x. rev (be_bytes 4 (uint x))) [a, b, c, d])"

definition md5 :: "bytes \<Rightarrow> bytes" where
  "md5 m = (let p = md5_pad m in
     md5_output (md5_blocks (length p div 64) (1732584193, 4023233417, 2562383102, 271733878) (md5_words p)))"

definition md5_hex :: "bytes \<Rightarrow> string" where
  "md5_hex m = bytes_hex (md5 m)"

end
