(* ===== verification/MeshSpool.thy ===== *)
theory MeshSpool imports MeshContracts StateError "HOL-Library.Multiset" begin

text \<open>
  core/mesh/spool.py, the sensor's encrypted queue.  The table is a list of rows; a query with
  \<open>ORDER BY ... LIMIT 1\<close> is the first row of the stably sorted list.  Encrypting the JSON text of an envelope
  with a Fernet key gives a token of a type of its own: \<open>seal\<close> (which draws a fresh vector each time),
  \<open>unseal\<close> and the length of a token are parameters, and that a token gives back
  what was sealed is a hypothesis of the lemmas that need it.  The lemmas show that the table stays within its limit whenever a row fits in it, what
  making room may drop and in which order, and what acknowledging leaves.
\<close>

section \<open>The table\<close>

record 'c spool_row =
  sp_sequence :: int
  sp_priority :: int
  sp_created_at :: f64
  sp_size :: nat
  sp_token :: 'c

record 'c mesh_spool =
  ms_rows :: "'c spool_row list"
  ms_max_bytes :: nat

record 'c token_env =
  tk_seal :: "nat \<Rightarrow> (string, pyval) dict \<Rightarrow> 'c"
  tk_unseal :: "'c \<Rightarrow> (string, pyval) dict option"
  tk_length :: "'c \<Rightarrow> nat"

definition open_spool :: "int \<Rightarrow> 'c mesh_spool" where
  "open_spool max_bytes = \<lparr>ms_rows = [], ms_max_bytes = nat (max (16 * 1024 * 1024) max_bytes)\<rparr>"

definition bytes_of :: "'c spool_row list \<Rightarrow> nat" where
  "bytes_of rows = sum_list (map sp_size rows)"

definition bytes_pending :: "'c mesh_spool \<Rightarrow> nat" where
  "bytes_pending s = bytes_of (ms_rows s)"

definition count_pending :: "'c mesh_spool \<Rightarrow> nat" where
  "count_pending s = length (ms_rows s)"

definition first_row :: "'c spool_row list \<Rightarrow> 'c spool_row option" where
  "first_row rows = (case rows of [] \<Rightarrow> None | r # _ \<Rightarrow> Some r)"

definition by_priority :: "'c spool_row list \<Rightarrow> 'c spool_row list" where
  "by_priority rows = sort_key sp_priority (sort_key sp_sequence rows)"

section \<open>Operations\<close>

text \<open>The row \<open>_make_room\<close> deletes next.\<close>

definition drop_choice :: "int \<Rightarrow> 'c spool_row list \<Rightarrow> 'c spool_row option" where
  "drop_choice priority rows =
     (case first_row (by_priority (filter (\<lambda>r. sp_priority r \<le> priority) rows)) of
        Some r \<Rightarrow> Some r | None \<Rightarrow> first_row (by_priority rows))"

definition delete_row :: "int \<Rightarrow> 'c spool_row list \<Rightarrow> 'c spool_row list" where
  "delete_row sequence rows = filter (\<lambda>r. sp_sequence r \<noteq> sequence) rows"

lemma first_by_priority: "first_row (by_priority rows) = Some r \<Longrightarrow> r \<in> set rows"
  by (cases "by_priority rows") (auto simp: first_row_def by_priority_def dest: arg_cong [where f = set])

lemma drop_choice_member: "drop_choice priority rows = Some r \<Longrightarrow> r \<in> set rows"
  unfolding drop_choice_def by (auto split: option.splits dest!: first_by_priority)

lemma delete_row_shorter: "r \<in> set rows \<Longrightarrow> length (delete_row (sp_sequence r) rows) < length rows"
  unfolding delete_row_def by (rule length_filter_less) auto

function make_room :: "nat \<Rightarrow> int \<Rightarrow> nat \<Rightarrow> 'c spool_row list \<Rightarrow> 'c spool_row list \<times> nat" where
  "make_room incoming priority max_bytes rows =
     (if bytes_of rows + incoming > max_bytes then
        (case drop_choice priority rows of
           None \<Rightarrow> (rows, 0)
         | Some r \<Rightarrow>
             (let (kept, dropped) = make_room incoming priority max_bytes (delete_row (sp_sequence r) rows) in (kept, dropped + 1)))
      else (rows, 0))"
  by pat_completeness auto
termination
  by (relation "measure (\<lambda>(_, _, _, rows). length rows)") (auto dest: drop_choice_member delete_row_shorter)

declare make_room.simps [simp del]

definition enqueue_row ::
  "'c token_env \<Rightarrow> nat \<Rightarrow> f64 \<Rightarrow> int \<Rightarrow> (string, pyval) dict \<Rightarrow> int \<Rightarrow> 'c mesh_spool \<Rightarrow> 'c mesh_spool \<times> nat \<times> nat" where
  "enqueue_row env draw now sequence payload priority s =
     (let token = tk_seal env draw payload; size = tk_length env token;
          (kept, dropped) = make_room size priority (ms_max_bytes s) (ms_rows s);
          s' = s\<lparr>ms_rows := delete_row sequence kept @
            [\<lparr>sp_sequence = sequence, sp_priority = priority, sp_created_at = now, sp_size = size, sp_token = token\<rparr>]\<rparr>
      in (s', dropped, bytes_pending s'))"

definition next_row :: "'c mesh_spool \<Rightarrow> 'c spool_row option" where
  "next_row s = first_row (sort_key sp_sequence (ms_rows s))"

definition next_payload :: "'c token_env \<Rightarrow> 'c mesh_spool \<Rightarrow> (string, pyval) dict option result" where
  "next_payload env s =
     (case next_row s of
        None \<Rightarrow> Inr None
      | Some r \<Rightarrow> (case tk_unseal env (sp_token r) of None \<Rightarrow> Inl InvalidToken | Some d \<Rightarrow> Inr (Some d)))"

definition acknowledge :: "int \<Rightarrow> 'c mesh_spool \<Rightarrow> 'c mesh_spool" where
  "acknowledge sequence s = s\<lparr>ms_rows := filter (\<lambda>r. \<not> sp_sequence r \<le> sequence) (ms_rows s)\<rparr>"

section \<open>The table's invariant\<close>

definition mesh_spool_ok :: "'c mesh_spool \<Rightarrow> bool" where
  "mesh_spool_ok s \<longleftrightarrow> distinct (map sp_sequence (ms_rows s))"

lemma delete_row_distinct: "distinct (map sp_sequence rows) \<Longrightarrow> distinct (map sp_sequence (delete_row n rows))"
  unfolding delete_row_def by (rule distinct_map_filter)

lemma delete_row_member [simp]: "r \<in> set (delete_row n rows) \<longleftrightarrow> r \<in> set rows \<and> sp_sequence r \<noteq> n"
  by (auto simp: delete_row_def)

text \<open>Making room keeps an initial choice of rows: whatever holds of every table and of its filters.\<close>

lemma make_room_induct:
  assumes "P rows" "\<And>rs r. P rs \<Longrightarrow> drop_choice priority rs = Some r \<Longrightarrow> bytes_of rs + incoming > max_bytes \<Longrightarrow> P (delete_row (sp_sequence r) rs)"
  shows "P (fst (make_room incoming priority max_bytes rows))"
  using assms
proof (induction incoming priority max_bytes rows rule: make_room.induct)
  case (1 incoming priority max_bytes rows)
  show ?case
  proof (cases "bytes_of rows + incoming > max_bytes")
    case True
    show ?thesis
    proof (cases "drop_choice priority rows")
      case (Some r)
      have "P (fst (make_room incoming priority max_bytes (delete_row (sp_sequence r) rows)))"
        by (rule 1(1) [OF True Some]) (use 1(2,3) True Some in blast)+
      then show ?thesis using True Some by (subst make_room.simps) (simp add: case_prod_beta Let_def)
    qed (use True 1 in \<open>subst make_room.simps, simp\<close>)
  qed (use 1 in \<open>subst make_room.simps, simp\<close>)
qed

lemma make_room_subset: "set (fst (make_room incoming priority max_bytes rows)) \<subseteq> set rows"
  by (rule make_room_induct) auto

lemma make_room_distinct: "distinct (map sp_sequence rows) \<Longrightarrow> distinct (map sp_sequence (fst (make_room incoming priority max_bytes rows)))"
  by (rule make_room_induct) (auto intro: delete_row_distinct)

lemma drop_choice_none: "drop_choice priority rows = None \<longleftrightarrow> rows = []"
proof
  assume "drop_choice priority rows = None"
  then have "by_priority rows = []" by (auto simp: drop_choice_def first_row_def split: option.splits list.splits)
  then have "length (by_priority rows) = 0" by simp
  then show "rows = []" by (simp add: by_priority_def)
qed (simp add: drop_choice_def first_row_def by_priority_def)

lemma make_room_fits:
  "fst (make_room incoming priority max_bytes rows) = [] \<or> bytes_of (fst (make_room incoming priority max_bytes rows)) + incoming \<le> max_bytes"
proof (induction incoming priority max_bytes rows rule: make_room.induct)
  case (1 i p m rows)
  show ?case
  proof (cases "bytes_of rows + i > m")
    case True
    show ?thesis
    proof (cases "drop_choice p rows")
      case None
      then have "rows = []" by (simp add: drop_choice_none)
      then show ?thesis using True None by (subst (1) make_room.simps) simp
    next
      case (Some r)
      from 1 [OF True Some] show ?thesis using True Some
        by (subst (1 2) make_room.simps) (simp add: case_prod_beta Let_def)
    qed
  qed (subst (1 2) make_room.simps, simp)
qed

section \<open>What making room drops\<close>

lemma by_priority_filter: "by_priority (filter P rows) = filter P (by_priority rows)"
  by (simp add: by_priority_def filter_sort)

lemma by_priority_mset [simp]: "mset (by_priority rows) = mset rows"
  by (simp add: by_priority_def)

lemma by_priority_set [simp]: "set (by_priority rows) = set rows"
  by (simp add: by_priority_def)

lemma by_priority_bytes [simp]: "bytes_of (by_priority rows) = bytes_of rows"
  unfolding bytes_of_def by (metis by_priority_mset mset_map sum_mset_sum_list)

lemma by_priority_empty [simp]: "by_priority rows = [] \<longleftrightarrow> rows = []"
  by (metis by_priority_mset mset_zero_iff)

lemma by_priority_Nil [simp]: "by_priority [] = []"
  by simp

lemma by_priority_distinct: "distinct (map sp_sequence rows) \<Longrightarrow> distinct (map sp_sequence (by_priority rows))"
  by (metis by_priority_mset mset_map mset_eq_imp_distinct_iff)

text \<open>
  The rows at or below the incoming priority come first in the overall order, so looking at them first and at all rows
  only when there are none is the same as looking at all rows: the incoming priority plays no part.
\<close>

lemma drop_choice_lowest: "drop_choice priority rows = first_row (by_priority rows)"
proof (cases "by_priority rows")
  case (Cons r rs)
  have sorted: "sorted (map sp_priority (by_priority rows))" by (simp add: by_priority_def)
  show ?thesis
  proof (cases "sp_priority r \<le> priority")
    case False
    then have "filter (\<lambda>r. sp_priority r \<le> priority) (by_priority rows) = []"
      using sorted by (auto simp: Cons filter_empty_conv)
    then show ?thesis by (simp add: drop_choice_def by_priority_filter first_row_def)
  qed (simp add: drop_choice_def by_priority_filter first_row_def Cons)
next
  case Nil
  then have "rows = []" by simp
  then show ?thesis by (simp add: drop_choice_def by_priority_def first_row_def)
qed

text \<open>The reference: rows in order of priority, then of sequence, are dropped from the front until the new row fits.\<close>

fun shed :: "nat \<Rightarrow> nat \<Rightarrow> 'c spool_row list \<Rightarrow> 'c spool_row list" where
  "shed incoming max_bytes [] = []"
| "shed incoming max_bytes (r # rs) = (if bytes_of (r # rs) + incoming > max_bytes then shed incoming max_bytes rs else r # rs)"

lemma delete_first: "distinct (map sp_sequence rows) \<Longrightarrow> by_priority rows = r # rs \<Longrightarrow> by_priority (delete_row (sp_sequence r) rows) = rs"
proof -
  assume d: "distinct (map sp_sequence rows)" and r: "by_priority rows = r # rs"
  have "distinct (map sp_sequence (r # rs))" using by_priority_distinct [OF d] r by simp
  then have "filter (\<lambda>x. sp_sequence x \<noteq> sp_sequence r) rs = rs" by (intro filter_True) (auto simp: image_iff)
  then show ?thesis by (simp add: delete_row_def by_priority_filter r)
qed

theorem make_room_sheds:
  "distinct (map sp_sequence rows) \<Longrightarrow>
     by_priority (fst (make_room incoming priority max_bytes rows)) = shed incoming max_bytes (by_priority rows) \<and>
     length rows = length (fst (make_room incoming priority max_bytes rows)) + snd (make_room incoming priority max_bytes rows)"
proof (induction incoming priority max_bytes rows rule: make_room.induct)
  case (1 incoming priority max_bytes rows)
  show ?case
  proof (cases "by_priority rows")
    case Nil
    then have "rows = []" by simp
    then show ?thesis by (subst (1 2 3) make_room.simps) (simp add: drop_choice_none [THEN iffD2])
  next
    case (Cons r rs)
    have len: "length rows = Suc (length rs)" using arg_cong [OF by_priority_mset [of rows], of size] by (simp add: Cons)
    have b: "bytes_of (r # rs) = bytes_of rows" using by_priority_bytes [of rows] by (simp only: Cons)
    show ?thesis
    proof (cases "bytes_of rows + incoming > max_bytes")
      case True
      have d: "drop_choice priority rows = Some r" by (simp add: drop_choice_lowest Cons first_row_def)
      have rs: "by_priority (delete_row (sp_sequence r) rows) = rs" by (rule delete_first [OF 1(2) Cons])
      then have "length (delete_row (sp_sequence r) rows) = length rs"
        using arg_cong [OF by_priority_mset [of "delete_row (sp_sequence r) rows"], of size] by simp
      then show ?thesis
        using 1(1) [OF True d delete_row_distinct [OF 1(2)]] True len b
        by (subst (1 2 3) make_room.simps) (simp add: d rs Cons case_prod_beta)
    qed (use b in \<open>subst (1 2 3) make_room.simps, simp add: Cons\<close>)
  qed
qed

lemma shed_suffix: "\<exists>n. shed incoming max_bytes rows = drop n rows"
proof (induction rows)
  case (Cons r rs)
  then obtain n where "shed incoming max_bytes rs = drop n rs" by blast
  then have "shed incoming max_bytes (r # rs) = drop (Suc n) (r # rs) \<or> shed incoming max_bytes (r # rs) = drop 0 (r # rs)" by simp
  then show ?case by blast
qed simp

section \<open>What the operations keep\<close>

lemma bytes_delete: "bytes_of (delete_row n rows) \<le> bytes_of rows"
  by (induction rows) (auto simp: bytes_of_def delete_row_def)

theorem enqueue_ok: "mesh_spool_ok s \<Longrightarrow> mesh_spool_ok (fst (enqueue_row env draw now sequence payload priority s))"
proof -
  assume "mesh_spool_ok s"
  then have "distinct (map sp_sequence (fst (make_room (tk_length env (tk_seal env draw payload)) priority (ms_max_bytes s) (ms_rows s))))"
    by (simp add: mesh_spool_ok_def make_room_distinct)
  from delete_row_distinct [OF this] show ?thesis by (auto simp: enqueue_row_def mesh_spool_ok_def Let_def case_prod_beta)
qed

theorem enqueue_bound:
  "let s' = fst (enqueue_row env draw now sequence payload priority s) in
   (if tk_length env (tk_seal env draw payload) \<le> ms_max_bytes s then bytes_pending s' \<le> ms_max_bytes s else length (ms_rows s') = 1)"
proof -
  let ?n = "tk_length env (tk_seal env draw payload)"
  let ?kept = "fst (make_room ?n priority (ms_max_bytes s) (ms_rows s))"
  have b: "bytes_of (delete_row sequence ?kept) \<le> bytes_of ?kept" by (rule bytes_delete)
  from make_room_fits [of ?n priority "ms_max_bytes s" "ms_rows s"] show ?thesis
  proof
    assume "?kept = []"
    then show ?thesis by (simp add: enqueue_row_def Let_def case_prod_beta bytes_pending_def bytes_of_def delete_row_def)
  next
    assume "bytes_of ?kept + ?n \<le> ms_max_bytes s"
    then show ?thesis using b by (simp add: enqueue_row_def Let_def case_prod_beta bytes_pending_def bytes_of_def)
  qed
qed

lemma acknowledge_ok: "mesh_spool_ok s \<Longrightarrow> mesh_spool_ok (acknowledge n s)"
  by (simp add: mesh_spool_ok_def acknowledge_def distinct_map_filter)

lemma acknowledge_rows: "r \<in> set (ms_rows (acknowledge n s)) \<longleftrightarrow> r \<in> set (ms_rows s) \<and> n < sp_sequence r"
  by (auto simp: acknowledge_def)

lemma next_row_None: "next_row s = None \<longleftrightarrow> ms_rows s = []"
  by (auto simp: next_row_def first_row_def split: list.splits dest: arg_cong [where f = length])

lemma next_row_least: "next_row s = Some r \<Longrightarrow> r \<in> set (ms_rows s) \<and> (\<forall>q \<in> set (ms_rows s). sp_sequence r \<le> sp_sequence q)"
proof -
  assume n: "next_row s = Some r"
  then obtain rs where s: "sort_key sp_sequence (ms_rows s) = r # rs" by (auto simp: next_row_def first_row_def split: list.splits)
  have "sorted (map sp_sequence (r # rs))" "set (r # rs) = set (ms_rows s)" using s [symmetric] by (simp_all del: list.set)
  then show ?thesis by auto
qed

text \<open>Acknowledging the row handed out removes exactly that row.\<close>

lemma acknowledge_next:
  assumes "mesh_spool_ok s" "next_row s = Some r"
  shows "sort_key sp_sequence (ms_rows s) = r # sort_key sp_sequence (ms_rows (acknowledge (sp_sequence r) s))"
proof -
  obtain rs where s: "sort_key sp_sequence (ms_rows s) = r # rs" using assms(2) by (auto simp: next_row_def first_row_def split: list.splits)
  have m: "mset (r # rs) = mset (ms_rows s)" by (simp add: s [symmetric])
  have "distinct (map sp_sequence (r # rs))" using assms(1) arg_cong [OF m, of "image_mset sp_sequence"]
    unfolding mesh_spool_ok_def mset_map [symmetric] by (metis mset_eq_imp_distinct_iff)
  moreover have "sorted (map sp_sequence (r # rs))" by (simp add: s [symmetric] del: list.map)
  ultimately have d: "sp_sequence r < sp_sequence q" if "q \<in> set rs" for q
    using that by (auto simp: order_le_less image_iff)
  then have "filter (\<lambda>q. \<not> sp_sequence q \<le> sp_sequence r) rs = rs" by (intro filter_True) (simp add: not_le)
  then show ?thesis by (simp add: s acknowledge_def filter_sort [symmetric])
qed

end
