(* ===== verification/MeshController.thy ===== *)
theory MeshController imports CaseBundle begin

text \<open>
  core/mesh/service.py, the controller, with the part of core/storage/database.py that keeps its state: sensor
  nodes, enrolment tokens, receipts and commands (the section "Sensor mesh controller state").  A row is a
  record and a table a list in the order of insertion; JSON columns are the values they hold.  Certificates come from
  a library and are functions of \<open>controller_env\<close>, as is what the rest of the storage layer makes of the rows
  \<open>_apply\<close> hands to it (\<open>ce_store\<close>, which also fills in the current time where a row has none).  The state
  counts its readings of the clock and its draws of identifiers.
\<close>

record sensor_node =
  sn_id :: string
  sn_name :: string
  sn_fingerprint :: "string option"
  sn_status :: string
  sn_platform :: "string option"
  sn_agent_version :: "string option"
  sn_capabilities :: "(string, pyval) dict"
  sn_health :: "(string, pyval) dict"
  sn_created_at :: f64
  sn_last_seen_at :: f64
  sn_revoked_at :: "f64 option"
  sn_revoke_reason :: "string option"

record mesh_enrollment =
  en_id :: string
  en_token_hash :: string
  en_requested_name :: "string option"
  en_expires_at :: f64
  en_max_uses :: int
  en_used_count :: int
  en_created_at :: f64
  en_created_by :: string
  en_revoked_at :: "f64 option"

record mesh_receipt =
  mr_node :: string
  mr_sequence :: int
  mr_type :: string
  mr_hash :: string
  mr_received_at :: f64

record mesh_command =
  cm_id :: string
  cm_node :: string
  cm_action :: string
  cm_arguments :: "(string, pyval) dict"
  cm_status :: string
  cm_requested_at :: f64
  cm_expires_at :: f64
  cm_requested_by :: string
  cm_key :: string
  cm_result :: "(string, pyval) dict option"
  cm_completed_at :: "f64 option"

text \<open>The arguments of \<open>insert_alert\<close>; no time stamp stands for the current time.\<close>

record mesh_alert =
  ma_entity :: string
  ma_timestamp :: "f64 option"
  ma_type :: string
  ma_severity :: string
  ma_score :: f64
  ma_explanation :: string
  ma_evidence :: "(string, pyval) dict"
  ma_source :: string
  ma_session :: pyval
  ma_interface :: pyval
  ma_backend :: pyval
  ma_capture_type :: pyval
  ma_node :: string

text \<open>What \<open>_apply\<close> asks of the storage layer; with the flows go the addresses they name.\<close>

datatype store_call =
    StoreSessions "pyval list" string
  | StoreProcesses "(string, pyval) dict list"
  | StoreFlows "(string, pyval) dict list"
  | StoreAlert mesh_alert
  | StoreFinding "(string, pyval) dict"
  | StoreHardware "(string, pyval) dict"

record 'st controller =
  mc_ready :: bool
  mc_address :: string
  mc_nodes :: "sensor_node list"
  mc_enrollments :: "mesh_enrollment list"
  mc_receipts :: "mesh_receipt list"
  mc_commands :: "mesh_command list"
  mc_store :: 'st
  mc_cases :: case_files
  mc_ticks :: nat
  mc_draws :: nat

record 'st controller_env = case_env +
  ce_clock :: "nat \<Rightarrow> f64"
  ce_uuid :: "nat \<Rightarrow> string"
  ce_store :: "store_call \<Rightarrow> 'st \<Rightarrow> 'st \<times> int result"
  ce_valid_csr :: "bytes \<Rightarrow> bool"
  ce_sign :: "nat \<Rightarrow> bytes \<Rightarrow> string \<Rightarrow> string"
  ce_fingerprint :: "string \<Rightarrow> string"
  ce_not_after :: "string \<Rightarrow> f64"

type_synonym ('st, 'a) controlled = "('st controller, 'a) action"

definition clockC :: "'st controller_env \<Rightarrow> ('st, f64) controlled" where
  "clockC env c = (c\<lparr>mc_ticks := mc_ticks c + 1\<rparr>, Inr (ce_clock env (mc_ticks c)))"

definition uuidC :: "'st controller_env \<Rightarrow> ('st, string) controlled" where
  "uuidC env c = (c\<lparr>mc_draws := mc_draws c + 1\<rparr>, Inr (ce_uuid env (mc_draws c)))"

section \<open>Nodes\<close>

text \<open>The keys a caller may leave out of the dictionary.\<close>

record node_update =
  nu_id :: string
  nu_name :: "string option"
  nu_fingerprint :: "string option"
  nu_status :: "string option"
  nu_platform :: "string option"
  nu_agent_version :: "string option"
  nu_capabilities :: "(string, pyval) dict option"
  nu_health :: "(string, pyval) dict option"
  nu_last_seen_at :: "f64 option"

definition find_node :: "string \<Rightarrow> sensor_node list \<Rightarrow> sensor_node option" where
  "find_node i nodes = find (\<lambda>n. sn_id n = i) nodes"

definition map_node :: "string \<Rightarrow> (sensor_node \<Rightarrow> sensor_node) \<Rightarrow> sensor_node list \<Rightarrow> sensor_node list" where
  "map_node i f nodes = map (\<lambda>n. if sn_id n = i then f n else n) nodes"

definition gone :: "string \<Rightarrow> bool" where
  "gone status \<longleftrightarrow> status = ''revoked'' \<or> status = ''decommissioned''"

definition retired_name :: "string \<Rightarrow> string \<Rightarrow> string" where
  "retired_name name i = take 256 (name @ '' [retired '' @ drop (length i - 8) i @ '']'')"

text \<open>The unique columns: primary key, name and, where there is one, certificate fingerprint.\<close>

definition unique_nodes :: "sensor_node list \<Rightarrow> bool" where
  "unique_nodes nodes \<longleftrightarrow> distinct (map sn_id nodes) \<and> distinct (map sn_name nodes) \<and>
     distinct (map sn_fingerprint (filter (\<lambda>n. sn_fingerprint n \<noteq> None) nodes))"

definition update_node :: "node_update \<Rightarrow> f64 \<Rightarrow> sensor_node \<Rightarrow> sensor_node" where
  "update_node u now n = n\<lparr>
     sn_name := (case nu_name u of Some v \<Rightarrow> v | None \<Rightarrow> sn_name n),
     sn_fingerprint := (case nu_fingerprint u of Some v \<Rightarrow> Some v | None \<Rightarrow> sn_fingerprint n),
     sn_status := (case nu_status u of Some v \<Rightarrow> v | None \<Rightarrow> sn_status n),
     sn_platform := (case nu_platform u of Some v \<Rightarrow> Some v | None \<Rightarrow> sn_platform n),
     sn_agent_version := (case nu_agent_version u of Some v \<Rightarrow> Some v | None \<Rightarrow> sn_agent_version n),
     sn_capabilities := (case nu_capabilities u of Some v \<Rightarrow> v | None \<Rightarrow> sn_capabilities n),
     sn_health := (case nu_health u of Some v \<Rightarrow> v | None \<Rightarrow> sn_health n),
     sn_last_seen_at := (case nu_last_seen_at u of Some v \<Rightarrow> if f64_is_zero v then now else v | None \<Rightarrow> now)\<rparr>"

definition upsert_sensor_node :: "'st controller_env \<Rightarrow> node_update \<Rightarrow> ('st, sensor_node) controlled" where
  "upsert_sensor_node env u =
     bindS (clockC env) (\<lambda>now.
     bindS (readS mc_nodes) (\<lambda>nodes.
     (let requested_name = take 256 (case nu_name u of Some n \<Rightarrow> str_or n (nu_id u) | None \<Rightarrow> nu_id u);
          existing = find_node (nu_id u) nodes;
          conflict = find (\<lambda>n. sn_name n = requested_name) nodes;
          renamed = (case (existing, conflict) of
              (None, Some n) \<Rightarrow> if gone (sn_status n) then map_node (sn_id n) (sn_name_update (\<lambda>_. retired_name requested_name (sn_id n))) nodes else nodes
            | _ \<Rightarrow> nodes);
          row = (case existing of
              Some n \<Rightarrow> n
            | None \<Rightarrow> \<lparr>sn_id = nu_id u, sn_name = requested_name, sn_fingerprint = None, sn_status = ''enrolled'', sn_platform = None,
                sn_agent_version = None, sn_capabilities = [], sn_health = [], sn_created_at = now, sn_last_seen_at = now,
                sn_revoked_at = None, sn_revoke_reason = None\<rparr>);
          row' = update_node u now row;
          nodes' = (case existing of Some _ \<Rightarrow> map_node (nu_id u) (\<lambda>_. row') renamed | None \<Rightarrow> renamed @ [row'])
      in if unique_nodes nodes' then bindS (changeS (mc_nodes_update (\<lambda>_. nodes'))) (\<lambda>_. returnS row')
         else raiseS (ValueError (''A live sensor node already uses the name '' @ [CHR 0x27] @ requested_name @ [CHR 0x27] @
           ''. Choose a different node name or decommission the existing node.'')))))"

definition get_sensor_node :: "string \<Rightarrow> ('st, sensor_node option) controlled" where
  "get_sensor_node i = readS (\<lambda>c. find_node i (mc_nodes c))"

definition decommission_sensor_node :: "'st controller_env \<Rightarrow> string \<Rightarrow> string \<Rightarrow> ('st, bool) controlled" where
  "decommission_sensor_node env i reason =
     bindS (get_sensor_node i) (\<lambda>found.
     case found of
       None \<Rightarrow> returnS False
     | Some _ \<Rightarrow>
         bindS (clockC env) (\<lambda>now.
         bindS (changeS (\<lambda>c. c\<lparr>
           mc_nodes := map_node i (\<lambda>n. n\<lparr>sn_status := ''decommissioned'', sn_revoked_at := Some now, sn_revoke_reason := Some (take 1000 reason)\<rparr>) (mc_nodes c),
           mc_commands := map (\<lambda>m. if cm_node m = i \<and> cm_status m = ''queued''
             then m\<lparr>cm_status := ''rejected'', cm_result := Some [(''reason'', PyStr ''node_decommissioned'')], cm_completed_at := Some now\<rparr> else m) (mc_commands c)\<rparr>)) (\<lambda>_.
         returnS True)))"

definition update_sensor_node_health ::
  "'st controller_env \<Rightarrow> string \<Rightarrow> (string, pyval) dict \<Rightarrow> (string, pyval) dict \<Rightarrow> ('st, unit) controlled" where
  "update_sensor_node_health env i health capabilities =
     bindS (get_sensor_node i) (\<lambda>found.
     case found of
       None \<Rightarrow> returnS ()
     | Some n \<Rightarrow>
         bindS (clockC env) (\<lambda>now.
         bindS (upsert_sensor_node env \<lparr>nu_id = i, nu_name = None, nu_fingerprint = None, nu_status = Some ''online'', nu_platform = None,
           nu_agent_version = None, nu_capabilities = Some capabilities, nu_health = Some (dict_update (sn_health n) health),
           nu_last_seen_at = Some now\<rparr>) (\<lambda>_. returnS ())))"

section \<open>Enrolment\<close>

definition mesh_token_hash :: "string \<Rightarrow> string" where
  "mesh_token_hash token = sha256_hex (utf8 token)"

definition create_mesh_enrollment ::
  "'st controller_env \<Rightarrow> string \<Rightarrow> string \<Rightarrow> f64 \<Rightarrow> string option \<Rightarrow> int \<Rightarrow> string \<Rightarrow> ('st, mesh_enrollment) controlled" where
  "create_mesh_enrollment env i hash expires_at requested_name max_uses created_by =
     bindS (clockC env) (\<lambda>now.
     (let row = \<lparr>en_id = i, en_token_hash = hash, en_requested_name = requested_name, en_expires_at = expires_at,
        en_max_uses = max 1 max_uses, en_used_count = 0, en_created_at = now, en_created_by = created_by, en_revoked_at = None\<rparr>
      in bindS (changeS (\<lambda>c. c\<lparr>mc_enrollments := mc_enrollments c @ [row]\<rparr>)) (\<lambda>_. returnS row)))"

definition mesh_enrollment_usable :: "'st controller_env \<Rightarrow> string \<Rightarrow> ('st, bool) controlled" where
  "mesh_enrollment_usable env hash =
     bindS (readS (\<lambda>c. find (\<lambda>r. en_token_hash r = hash) (mc_enrollments c))) (\<lambda>found.
     case found of
       None \<Rightarrow> returnS False
     | Some r \<Rightarrow>
         (if (case en_revoked_at r of Some t \<Rightarrow> \<not> f64_is_zero t | None \<Rightarrow> False) then returnS False
          else bindS (clockC env) (\<lambda>now. returnS (f64_lt now (en_expires_at r) \<and> en_used_count r < en_max_uses r))))"

definition consumable :: "string \<Rightarrow> f64 \<Rightarrow> mesh_enrollment \<Rightarrow> bool" where
  "consumable hash now r \<longleftrightarrow> en_token_hash r = hash \<and> en_revoked_at r = None \<and> f64_lt now (en_expires_at r) \<and> en_used_count r < en_max_uses r"

definition consume_mesh_enrollment :: "'st controller_env \<Rightarrow> string \<Rightarrow> ('st, mesh_enrollment option) controlled" where
  "consume_mesh_enrollment env hash =
     bindS (clockC env) (\<lambda>now.
     bindS (readS (\<lambda>c. filter (consumable hash now) (mc_enrollments c))) (\<lambda>rows.
     if length rows \<noteq> 1 then returnS None
     else
       bindS (changeS (\<lambda>c. c\<lparr>mc_enrollments := map (\<lambda>r. if consumable hash now r then r\<lparr>en_used_count := en_used_count r + 1\<rparr> else r) (mc_enrollments c)\<rparr>)) (\<lambda>_.
       readS (\<lambda>c. find (\<lambda>r. en_token_hash r = hash) (mc_enrollments c)))))"

definition create_enrollment ::
  "'st controller_env \<Rightarrow> string \<Rightarrow> string option \<Rightarrow> int \<Rightarrow> int \<Rightarrow> string \<Rightarrow> ('st, mesh_enrollment) controlled" where
  "create_enrollment env token name ttl_seconds max_uses created_by =
     bindS (readS mc_ready) (\<lambda>ready.
     bindS (guardS ready (RuntimeError ''Initialize the mesh controller before creating enrollment tokens'')) (\<lambda>_.
     bindS (uuidC env) (\<lambda>i.
     bindS (clockC env) (\<lambda>now.
     bindS (create_mesh_enrollment env i (mesh_token_hash token) (f64_add now (f64_of_nat (nat (max 60 (min ttl_seconds 86400))))) name
       (max 1 (min max_uses 10)) created_by) (\<lambda>row.
     bindS (readS mc_address) (\<lambda>address.
     bindS (guardS (address \<noteq> []) (RuntimeError ''Run mesh controller setup before creating a join package'')) (\<lambda>_.
     returnS row)))))))"

definition TOKEN_REFUSED :: py_error where
  "TOKEN_REFUSED = PermissionError ''Enrollment token is invalid, expired, exhausted, or revoked''"

definition enroll :: "'st controller_env \<Rightarrow> (string, pyval) dict \<Rightarrow> ('st, sensor_node \<times> string) controlled" where
  "enroll env request =
     (let m = mesh_env.truncate env; token = text_at m request ''token''; node_id = text_at m request ''node_id'';
          csr_pem = utf8 (text_at m request ''csr_pem''); hash = mesh_token_hash token in
     bindS (readS mc_ready) (\<lambda>ready.
     bindS (guardS ready (RuntimeError ''Mesh controller is not initialized'')) (\<lambda>_.
     bindS (guardS (token \<noteq> [] \<and> node_id \<noteq> [] \<and> csr_pem \<noteq> [] \<and> length node_id \<le> 128)
       (ValueError ''Enrollment requires token, node_id, and CSR'')) (\<lambda>_.
     bindS (guardS (length csr_pem \<le> 16 * 1024) (ValueError ''Enrollment CSR exceeds the 16 KiB limit'')) (\<lambda>_.
     bindS (mesh_enrollment_usable env hash) (\<lambda>usable.
     bindS (guardS usable TOKEN_REFUSED) (\<lambda>_.
     bindS (guardS (ce_valid_csr env csr_pem) (ValueError ''Invalid mesh enrollment CSR'')) (\<lambda>_.
     bindS (consume_mesh_enrollment env hash) (\<lambda>consumed.
     case consumed of
       None \<Rightarrow> raiseS TOKEN_REFUSED
     | Some enrollment \<Rightarrow>
         bindS (readS mc_draws) (\<lambda>draw.
         bindS (changeS (\<lambda>c. c\<lparr>mc_draws := draw + 1\<rparr>)) (\<lambda>_.
         (let certificate = ce_sign env draw csr_pem node_id;
              fallback = (case en_requested_name enrollment of Some n \<Rightarrow> str_or n node_id | None \<Rightarrow> node_id) in
         bindS (liftS (py_dict (get_or request ''capabilities'' (PyDict [])))) (\<lambda>capabilities.
         bindS (clockC env) (\<lambda>now.
         bindS (upsert_sensor_node env
           \<lparr>nu_id = node_id, nu_name = Some (take 256 (str_or (text_at m request ''name'') fallback)),
            nu_fingerprint = Some (ce_fingerprint env certificate), nu_status = Some ''online'',
            nu_platform = Some (take 256 (str_or (text_at m request ''platform'') ''unknown'')),
            nu_agent_version = Some (take 128 (str_or (text_at m request ''agent_version'') ''unknown'')),
            nu_capabilities = Some capabilities,
            nu_health = Some [(''enrolled_at'', PyFloat now), (''certificate_expires_at'', PyFloat (ce_not_after env certificate))],
            nu_last_seen_at = None\<rparr>) (\<lambda>node.
         returnS (node, certificate))))))))))))))))"

section \<open>Commands\<close>

definition ALLOWED_COMMANDS :: "string list" where
  "ALLOWED_COMMANDS = [''capture.start'', ''capture.stop'', ''case.export'']"

text \<open>\<open>queue_mesh_command\<close>: a command with the key is returned, unless it failed, when the key gets a suffix.\<close>

definition queue_mesh_command ::
  "'st controller_env \<Rightarrow> string \<Rightarrow> string \<Rightarrow> string \<Rightarrow> (string, pyval) dict \<Rightarrow> f64 \<Rightarrow> string \<Rightarrow> string \<Rightarrow> ('st, mesh_command) controlled" where
  "queue_mesh_command env command_id node_id action arguments expires_at key requested_by =
     bindS (readS (\<lambda>c. find (\<lambda>m. cm_key m = key) (mc_commands c))) (\<lambda>existing.
     bindS (case existing of
         None \<Rightarrow> returnS (Some key)
       | Some m \<Rightarrow> if cm_status m \<noteq> ''failed'' \<and> cm_status m \<noteq> ''rejected'' then returnS None
           else bindS (uuidC env) (\<lambda>suffix. returnS (Some (key @ '':'' @ suffix)))) (\<lambda>fresh.
     case fresh of
       None \<Rightarrow> returnS (the existing)
     | Some k \<Rightarrow>
         bindS (clockC env) (\<lambda>now.
         (let row = \<lparr>cm_id = command_id, cm_node = node_id, cm_action = action, cm_arguments = arguments, cm_status = ''queued'',
            cm_requested_at = now, cm_expires_at = expires_at, cm_requested_by = requested_by, cm_key = k, cm_result = None, cm_completed_at = None\<rparr>
          in bindS (changeS (\<lambda>c. c\<lparr>mc_commands := mc_commands c @ [row]\<rparr>)) (\<lambda>_. returnS row)))))"

text \<open>\<open>MeshControllerService.queue_command\<close>, up to the presentation of its result.\<close>

definition queue_command ::
  "'st controller_env \<Rightarrow> string \<Rightarrow> string \<Rightarrow> (string, pyval) dict \<Rightarrow> string \<Rightarrow> int \<Rightarrow> string option \<Rightarrow> ('st, mesh_command) controlled" where
  "queue_command env node_id action arguments requested_by ttl_seconds idempotency_key =
     bindS (guardS (action \<in> set ALLOWED_COMMANDS) (ValueError ''Unsupported mesh command'')) (\<lambda>_.
     bindS (get_sensor_node node_id) (\<lambda>found.
     bindS (guardS (case found of None \<Rightarrow> False | Some n \<Rightarrow> \<not> gone (sn_status n)) (ValueError ''Mesh node is unavailable'')) (\<lambda>_.
     bindS (liftS (json_text (me_float_text env) True False None (PyDict arguments))) (\<lambda>normalized.
     (let derived = sha256_hex (utf8 (node_id @ '':'' @ action @ '':'' @ normalized));
          key = (case idempotency_key of Some k \<Rightarrow> str_or k derived | None \<Rightarrow> derived) in
     bindS (uuidC env) (\<lambda>i.
     bindS (clockC env) (\<lambda>now.
     queue_mesh_command env i node_id action arguments (f64_add now (f64_of_nat (nat (max 30 (min ttl_seconds 3600))))) key requested_by)))))))"

definition pending_mesh_commands :: "'st controller_env \<Rightarrow> string \<Rightarrow> ('st, mesh_command list) controlled" where
  "pending_mesh_commands env node_id =
     bindS (clockC env) (\<lambda>now.
     readS (\<lambda>c. take 20 (sort_key (\<lambda>m. f64_key (cm_requested_at m))
       (filter (\<lambda>m. cm_node m = node_id \<and> cm_status m = ''queued'' \<and> f64_lt now (cm_expires_at m)) (mc_commands c)))))"

definition complete_mesh_command ::
  "'st controller_env \<Rightarrow> string \<Rightarrow> string \<Rightarrow> (string, pyval) dict \<Rightarrow> string \<Rightarrow> ('st, mesh_command option) controlled" where
  "complete_mesh_command env command_id status outcome node_id =
     bindS (readS (\<lambda>c. find (\<lambda>m. cm_id m = command_id \<and> cm_node m = node_id) (mc_commands c))) (\<lambda>found.
     case found of
       None \<Rightarrow> returnS None
     | Some m \<Rightarrow>
         if cm_status m \<noteq> ''queued'' then returnS (Some m)
         else
           bindS (guardS (status \<in> {''completed'', ''failed'', ''rejected''}) (ValueError ''Invalid mesh command completion status'')) (\<lambda>_.
           bindS (clockC env) (\<lambda>now.
           (let m' = m\<lparr>cm_status := status, cm_result := Some outcome, cm_completed_at := Some now\<rparr> in
           bindS (changeS (\<lambda>c. c\<lparr>mc_commands := map (\<lambda>q. if cm_id q = command_id then m' else q) (mc_commands c)\<rparr>)) (\<lambda>_.
           returnS (Some m'))))))"

section \<open>Ingestion\<close>

datatype receipt_result = Accepted | Duplicate | Conflict

definition record_mesh_receipt :: "'st controller_env \<Rightarrow> string \<Rightarrow> int \<Rightarrow> string \<Rightarrow> string \<Rightarrow> ('st, receipt_result) controlled" where
  "record_mesh_receipt env node_id sequence kind hash =
     bindS (readS (\<lambda>c. find (\<lambda>r. mr_node r = node_id \<and> mr_sequence r = sequence) (mc_receipts c))) (\<lambda>existing.
     case existing of
       Some r \<Rightarrow> returnS (if mr_hash r = hash then Duplicate else Conflict)
     | None \<Rightarrow>
         bindS (clockC env) (\<lambda>now.
         bindS (changeS (\<lambda>c. c\<lparr>mc_receipts := mc_receipts c @
           [\<lparr>mr_node = node_id, mr_sequence = sequence, mr_type = kind, mr_hash = hash, mr_received_at = now\<rparr>]\<rparr>)) (\<lambda>_.
         returnS Accepted)))"

text \<open>\<open>list(payload.get("items") or [])\<close>, and its first \<open>n\<close>.\<close>

definition list_items :: "(string, pyval) dict \<Rightarrow> pyval list result" where
  "list_items payload =
     (case get_or payload ''items'' (PyList []) of
        PyList vs \<Rightarrow> Inr vs
      | PyTuple vs \<Rightarrow> Inr vs
      | PyStr s \<Rightarrow> Inr (map (\<lambda>c. PyStr [c]) s)
      | PyBytes b \<Rightarrow> Inr (map (\<lambda>w. PyInt (uint w)) b)
      | PyDict d \<Rightarrow> Inr (map (\<lambda>(k, _). PyStr k) d)
      | v \<Rightarrow> Inl (TypeError (py_type_name v @ '' object is not iterable'')))"

definition items_of :: "nat \<Rightarrow> (string, pyval) dict \<Rightarrow> pyval list result" where
  "items_of n payload = bindE (list_items payload) (\<lambda>vs. Inr (take n vs))"

text \<open>A source of the sensor, under its name; a source that has the name already keeps it.\<close>

definition node_source :: "string \<Rightarrow> string \<Rightarrow> string" where
  "node_source node source =
     (let prefix = ''mesh:'' @ node @ '':'' in if take (length prefix) source = prefix then source else prefix @ source)"

definition source_of :: "mesh_env \<Rightarrow> (string, pyval) dict \<Rightarrow> string" where
  "source_of m row = py_str (me_str m) (get_or row ''source'' (PyStr ''live''))"

definition tagged_row :: "string \<Rightarrow> pyval \<Rightarrow> (string, pyval) dict result" where
  "tagged_row node row = bindE (py_dict row) (\<lambda>d. Inr (dict_set d ''sensor_node_id'' (PyStr node)))"

definition flow_row :: "mesh_env \<Rightarrow> string \<Rightarrow> pyval \<Rightarrow> (string, pyval) dict result" where
  "flow_row m node row =
     bindE (py_dict row) (\<lambda>d.
     (let own = dict_pop d ''id''; original = source_of m own;
          named = dict_set (dict_set own ''source'' (PyStr (node_source node original))) ''sensor_node_id'' (PyStr node) in
      Inr (case get_or named ''l7_metadata'' (PyDict []) of
          PyDict meta \<Rightarrow> dict_set named ''l7_metadata''
            (PyDict (if dict_get meta ''mesh_origin_source'' = None then dict_set meta ''mesh_origin_source'' (PyStr original) else meta))
        | _ \<Rightarrow> named)))"

definition alert_row :: "mesh_env \<Rightarrow> string \<Rightarrow> pyval \<Rightarrow> mesh_alert result" where
  "alert_row m node row =
     bindE (py_dict row) (\<lambda>d.
     (let text = (\<lambda>key fallback. py_str (me_str m) (get_or d key (PyStr fallback)));
          field = (\<lambda>key. case dict_get d key of Some v \<Rightarrow> v | None \<Rightarrow> PyNone) in
      bindE (case get_or d ''timestamp'' PyNone of PyNone \<Rightarrow> Inr None | v \<Rightarrow> bindE (py_float m v) (\<lambda>x. Inr (Some x))) (\<lambda>stamp.
      bindE (py_float m (get_or d ''score'' (PyFloat 0))) (\<lambda>score.
      bindE (py_dict (get_or d ''evidence'' (PyDict []))) (\<lambda>evidence.
      Inr \<lparr>ma_entity = text ''entity_ip'' ''unknown'', ma_timestamp = stamp, ma_type = text ''type'' ''MESH_ALERT'',
        ma_severity = text ''severity'' ''LOW'', ma_score = score, ma_explanation = text ''explanation'' ''Mesh alert'',
        ma_evidence = evidence, ma_source = node_source node (source_of m d), ma_session = field ''capture_session_id'',
        ma_interface = field ''capture_interface'', ma_backend = field ''capture_backend'',
        ma_capture_type = get_or d ''capture_type'' (PyStr ''network''), ma_node = node\<rparr>)))))"

text \<open>Without \<open>observed_at\<close> in the row, and without a time it could come from, the storage layer takes the current time.\<close>

definition finding_row :: "mesh_env \<Rightarrow> string \<Rightarrow> pyval \<Rightarrow> (string, pyval) dict result" where
  "finding_row m node row =
     bindE (py_dict row) (\<lambda>d.
     (let named = dict_set (dict_set d ''source'' (PyStr (node_source node (source_of m d)))) ''sensor_node_id'' (PyStr node);
          observed = get_or named ''last_seen'' (get_or named ''first_seen'' PyNone) in
      Inr (if dict_get named ''observed_at'' = None \<and> observed \<noteq> PyNone then dict_set named ''observed_at'' observed else named)))"

text \<open>The types of envelope whose rows go to the storage layer.\<close>

definition store_envelope :: "'st controller_env \<Rightarrow> string \<Rightarrow> string \<Rightarrow> (string, pyval) dict \<Rightarrow> ('st, int) action" where
  "store_envelope env node kind payload =
     (let m = mesh_env.truncate env;
          each = (\<lambda>prepare. bindS (liftS (items_of 500 payload)) (\<lambda>items.
            bindS (forS (\<lambda>row. bindS (liftS (prepare row)) (ce_store env)) items) (\<lambda>counts. returnS (int (length counts))))) in
      if kind = ''sessions'' then bindS (liftS (list_items payload)) (\<lambda>items. ce_store env (StoreSessions items node))
      else if kind = ''endpoint_observations'' then
        bindS (liftS (bindE (items_of 500 payload) (mapE (tagged_row node)))) (\<lambda>rows. ce_store env (StoreProcesses rows))
      else if kind = ''flows'' then
        bindS (liftS (bindE (items_of 1000 payload) (mapE (flow_row m node)))) (\<lambda>rows.
        bindS (ce_store env (StoreFlows rows)) (\<lambda>_. returnS (int (length rows))))
      else if kind = ''alerts'' then each (\<lambda>row. bindE (alert_row m node row) (\<lambda>a. Inr (StoreAlert a)))
      else if kind = ''findings'' then each (\<lambda>row. bindE (finding_row m node row) (\<lambda>d. Inr (StoreFinding d)))
      else if kind = ''hardware_observations'' then each (\<lambda>row. bindE (tagged_row node row) (\<lambda>d. Inr (StoreHardware d)))
      else raiseS (ValueError ''Unsupported mesh telemetry type''))"

text \<open>\<open>_ingest_case_bundle\<close>: the command must be the node's own and still stand.\<close>

definition case_approved :: "string \<Rightarrow> string \<Rightarrow> mesh_command list \<Rightarrow> bool" where
  "case_approved node command_id commands =
     (case find (\<lambda>m. cm_id m = command_id \<and> cm_node m = node) commands of
        Some m \<Rightarrow> cm_action m = ''case.export'' \<and> cm_status m \<in> {''queued'', ''completed''}
      | None \<Rightarrow> False)"

definition ingest_case_bundle :: "'st controller_env \<Rightarrow> string \<Rightarrow> (string, pyval) dict \<Rightarrow> ('st, bool) controlled" where
  "ingest_case_bundle env node payload c =
     (let approved = case_approved node (text_at (mesh_env.truncate env) payload ''command_id'') (mc_commands c);
          (cases', res) = receive_case_part (case_env.truncate env) approved node payload (mc_cases c)
      in (c\<lparr>mc_cases := cases'\<rparr>, res))"

definition complete_item :: "'st controller_env \<Rightarrow> string \<Rightarrow> pyval \<Rightarrow> ('st, int) controlled" where
  "complete_item env node_id row =
     (case row of
        PyDict d \<Rightarrow>
          (let m = mesh_env.truncate env; command_id = text_at m d ''command_id'' in
           if command_id = [] then returnS 0
           else
             bindS (liftS (py_dict (get_or d ''result'' (PyDict [])))) (\<lambda>outcome.
             bindS (complete_mesh_command env command_id (str_or (text_at m d ''status'') ''failed'') outcome node_id) (\<lambda>completed.
             returnS (if completed = None then 0 else 1))))
      | v \<Rightarrow> raiseS (AttributeError (py_type_name v @ '' object has no attribute get'')))"

text \<open>
  \<open>_apply\<close>.  Health, command results, case bundles and lifecycle messages change the mesh's own state; the rows
  of the other types go to the storage layer.
\<close>

definition apply_envelope :: "'st controller_env \<Rightarrow> string \<Rightarrow> telemetry_envelope \<Rightarrow> ('st, int) controlled" where
  "apply_envelope env node_id e =
     (case te_payload e of
        PyDict payload \<Rightarrow>
          (if te_type e = ''health'' then
             bindS (liftS (py_dict (get_or payload ''health'' (PyDict payload)))) (\<lambda>health.
             bindS (liftS (py_dict (get_or payload ''capabilities'' (PyDict [])))) (\<lambda>capabilities.
             bindS (update_sensor_node_health env node_id health capabilities) (\<lambda>_. returnS 1)))
           else if te_type e = ''command_results'' then
             bindS (liftS (items_of 100 payload)) (\<lambda>items.
             bindS (forS (complete_item env node_id) items) (\<lambda>counts. returnS (sum_list counts)))
           else if te_type e = ''case_bundle'' then bindS (ingest_case_bundle env node_id payload) (\<lambda>_. returnS 1)
           else if te_type e = ''lifecycle'' then
             (if text_at (mesh_env.truncate env) payload ''state'' = ''leaving''
              then bindS (decommission_sensor_node env node_id (str_or (text_at (mesh_env.truncate env) payload ''reason'') ''Agent left mesh'')) (\<lambda>_. returnS 1)
              else raiseS (ValueError ''Unsupported mesh lifecycle state''))
           else
             (\<lambda>c. let (st', res) = store_envelope env node_id (te_type e) payload (mc_store c) in (c\<lparr>mc_store := st'\<rparr>, res)))
      | _ \<Rightarrow> raiseS (ValueError ''Mesh payload must be an object''))"

record ingest_response =
  ir_ack :: int
  ir_duplicate :: bool
  ir_applied :: "int option"
  ir_commands :: "mesh_command list"

definition ingest :: "'st controller_env \<Rightarrow> string \<Rightarrow> (string, pyval) dict \<Rightarrow> ('st, ingest_response) controlled" where
  "ingest env node_id payload =
     bindS (get_sensor_node node_id) (\<lambda>found.
     bindS (guardS (case found of None \<Rightarrow> False | Some n \<Rightarrow> \<not> gone (sn_status n))
       (PermissionError ''Mesh node is not enrolled or has been revoked'')) (\<lambda>_.
     bindS (liftS (envelope_from_dict (mesh_env.truncate env) payload)) (\<lambda>e.
     bindS (guardS (te_node_id e = node_id) (PermissionError ''Mesh client certificate and envelope node do not match'')) (\<lambda>_.
     bindS (record_mesh_receipt env node_id (te_sequence e) (te_type e) (te_digest e)) (\<lambda>receipt.
     case receipt of
       Duplicate \<Rightarrow>
         bindS (pending_mesh_commands env node_id) (\<lambda>commands.
         returnS \<lparr>ir_ack = te_sequence e, ir_duplicate = True, ir_applied = None, ir_commands = commands\<rparr>)
     | Conflict \<Rightarrow> raiseS (ValueError ''sequence_payload_conflict'')
     | Accepted \<Rightarrow>
         bindS (apply_envelope env node_id e) (\<lambda>applied.
         bindS (pending_mesh_commands env node_id) (\<lambda>commands.
         returnS \<lparr>ir_ack = te_sequence e, ir_duplicate = False, ir_applied = Some applied, ir_commands = commands\<rparr>)))))))"

end
