(* ===== verification/MeshAgent.thy ===== *)
theory MeshAgent imports MeshSpool MeshController PyBase64 begin

text \<open>
  core/mesh/agent.py, the sensor's side, and core/mesh/transport.py, the call between the two.  The agent's state is
  its configuration file and its spool.  \<open>flush_loop\<close> is the body of \<open>flush_once\<close> with a bound on its turns
  (\<open>None\<close> when the bound is reached), because the controller can go on sending commands; a call may be delivered, or its request
  or its response may be lost.  The local daemon, which starts and stops captures, and the case exporter are functions
  of \<open>agent_env\<close>.
\<close>

section \<open>The call\<close>

record telemetry_message =
  tg_version :: string
  tg_node_id :: string
  tg_sequence :: int
  tg_type :: string
  tg_payload_json :: bytes
  tg_created_at :: f64
  tg_digest :: string
  tg_algorithm :: string

datatype 'a answer = Answer 'a | Refused string

text \<open>The exceptions \<open>_ingest_v2\<close> turns into an answer; the others end the call with an error of the transport.\<close>

fun caught_text :: "py_error \<Rightarrow> string option" where
  "caught_text (ValueError m) = Some m"
| "caught_text (PermissionError m) = Some m"
| "caught_text (RuntimeError m) = Some m"
| "caught_text UnicodeDecodeError = Some []"
| "caught_text _ = None"

definition ingest_v2 :: "'st controller_env \<Rightarrow> string \<Rightarrow> telemetry_message \<Rightarrow> ('st, ingest_response answer) controlled" where
  "ingest_v2 env common_name m =
     (if common_name \<noteq> tg_node_id m then returnS (Refused ''mTLS certificate does not match mesh node'')
      else
        catchS
          (bindS (guardS (length (tg_payload_json m) \<le> 2 * 1024 * 1024) (ValueError ''Mesh payload exceeds the 2 MiB transport limit'')) (\<lambda>_.
           bindS (guardS (sha256_hex (tg_payload_json m) = tg_digest m) (ValueError ''Mesh payload hash mismatch before decode'')) (\<lambda>_.
           bindS (liftS (case me_loads env (tg_payload_json m) of Some v \<Rightarrow> Inr v | None \<Rightarrow> Inl (ValueError ''Expecting value''))) (\<lambda>payload.
           bindS (liftS (canonical_json_bytes (mesh_env.truncate env) payload)) (\<lambda>again.
           bindS (guardS (again = tg_payload_json m) (ValueError ''Mesh payload is not canonical JSON'')) (\<lambda>_.
           bindS (liftS (new_envelope (mesh_env.truncate env)
             \<lparr>te_node_id = tg_node_id m, te_sequence = tg_sequence m, te_type = tg_type m, te_payload = payload,
              te_created_at = tg_created_at m, te_version = str_or (tg_version m) MESH_PROTOCOL_VERSION,
              te_digest = tg_digest m, te_algorithm = tg_algorithm m\<rparr>)) (\<lambda>e.
           bindS (ingest env (tg_node_id m) (envelope_to_dict e)) (\<lambda>r. returnS (Answer r)))))))))
          (\<lambda>e. case caught_text e of Some t \<Rightarrow> returnS (Refused t) | None \<Rightarrow> raiseS e))"

text \<open>\<open>MeshGrpcClient.ingest\<close> up to the call; a sequence number is an unsigned 64-bit field.\<close>

definition client_message :: "mesh_env \<Rightarrow> (string, pyval) dict \<Rightarrow> telemetry_message result" where
  "client_message env envelope =
     bindE (envelope_from_dict env envelope) (\<lambda>e.
     bindE (canonical_json_bytes env (te_payload e)) (\<lambda>b.
     bindE (guardE (te_sequence e < 2 ^ 64) (ValueError ''Value out of range'')) (\<lambda>_.
     Inr \<lparr>tg_version = te_version e, tg_node_id = te_node_id e, tg_sequence = te_sequence e, tg_type = te_type e,
       tg_payload_json = b, tg_created_at = te_created_at e, tg_digest = te_digest e, tg_algorithm = te_algorithm e\<rparr>)))"

datatype delivery = Delivered | RequestLost | ResponseLost

definition call_ingest ::
  "'st controller_env \<Rightarrow> delivery \<Rightarrow> string \<Rightarrow> (string, pyval) dict \<Rightarrow> ('st, ingest_response) controlled" where
  "call_ingest env d common_name envelope =
     bindS (liftS (client_message (mesh_env.truncate env) envelope)) (\<lambda>m.
     case d of
       RequestLost \<Rightarrow> raiseS (RpcError ''unavailable'')
     | Delivered \<Rightarrow>
         bindS (catchS (ingest_v2 env common_name m) (\<lambda>_. raiseS (RpcError ''unknown''))) (\<lambda>a.
         case a of Answer r \<Rightarrow> returnS r | Refused t \<Rightarrow> raiseS (RuntimeError (str_or t ''Mesh telemetry rejected'')))
     | ResponseLost \<Rightarrow> (\<lambda>c. (fst (ingest_v2 env common_name m c), Inl (RpcError ''deadline exceeded''))))"

section \<open>The agent's state\<close>

record agent_config =
  ac_node_id :: string
  ac_controller :: string
  ac_next_sequence :: int
  ac_flow_after_id :: int
  ac_observation_after :: f64
  ac_session_after :: f64
  ac_alert_after_id :: int
  ac_finding_after_id :: int
  ac_hardware_after_id :: int
  ac_completed :: "(string, (string, pyval) dict) dict"

record 'c agent =
  ag_config :: "agent_config option"
  ag_spool :: "'c mesh_spool"
  ag_ticks :: nat
  ag_draws :: nat

record 'c agent_env = mesh_env +
  ae_tokens :: "'c token_env"
  ae_clock :: "nat \<Rightarrow> f64"
  ae_daemon :: "string \<Rightarrow> (string, pyval) dict \<Rightarrow> (string, pyval) dict result"
  ae_export :: "string \<Rightarrow> (string, pyval) dict \<Rightarrow> (string \<times> string \<times> bytes) result"

type_synonym ('c, 'a) agent_action = "('c agent, 'a) action"

definition require_config :: "('c, agent_config) agent_action" where
  "require_config =
     bindS (readS ag_config) (\<lambda>found.
     case found of
       Some cfg \<Rightarrow> if ac_controller cfg \<noteq> [] \<and> ac_node_id cfg \<noteq> [] then returnS cfg else raiseS (RuntimeError ''Mesh agent is not enrolled'')
     | None \<Rightarrow> raiseS (RuntimeError ''Mesh agent is not enrolled''))"

definition write_config :: "agent_config \<Rightarrow> ('c, unit) agent_action" where
  "write_config cfg = changeS (ag_config_update (\<lambda>_. Some cfg))"

definition agent_clock :: "'c agent_env \<Rightarrow> ('c, f64) agent_action" where
  "agent_clock env a = (a\<lparr>ag_ticks := ag_ticks a + 1\<rparr>, Inr (ae_clock env (ag_ticks a)))"

text \<open>\<open>spool.enqueue\<close> on the agent's spool.\<close>

definition agent_enqueue :: "'c agent_env \<Rightarrow> int \<Rightarrow> (string, pyval) dict \<Rightarrow> int \<Rightarrow> ('c, nat \<times> nat) agent_action" where
  "agent_enqueue env sequence payload priority =
     bindS (agent_clock env) (\<lambda>now a.
     (let (s', status) = enqueue_row (ae_tokens env) (ag_draws a) now sequence payload priority (ag_spool a)
      in (a\<lparr>ag_spool := s', ag_draws := ag_draws a + 1\<rparr>, Inr status)))"

definition agent_queue :: "'c agent_env \<Rightarrow> string \<Rightarrow> pyval \<Rightarrow> int \<Rightarrow> ('c, int \<times> nat \<times> nat) agent_action" where
  "agent_queue env kind payload priority =
     bindS require_config (\<lambda>cfg.
     (let sequence = (if ac_next_sequence cfg = 0 then 1 else ac_next_sequence cfg) in
     bindS (agent_clock env) (\<lambda>now.
     bindS (liftS (new_envelope (mesh_env.truncate env)
       \<lparr>te_node_id = ac_node_id cfg, te_sequence = sequence, te_type = kind, te_payload = payload, te_created_at = now,
        te_version = MESH_PROTOCOL_VERSION, te_digest = [], te_algorithm = DIGEST_ALGORITHM\<rparr>)) (\<lambda>e.
     bindS (agent_enqueue env sequence (envelope_to_dict e) priority) (\<lambda>status.
     bindS (write_config (cfg\<lparr>ac_next_sequence := sequence + 1\<rparr>)) (\<lambda>_.
     returnS (sequence, status)))))))"

section \<open>Commands\<close>

definition CASE_CHUNK_BYTES :: nat where
  "CASE_CHUNK_BYTES = 700 * 1024"

definition MAX_CASE_BUNDLE_BYTES :: nat where
  "MAX_CASE_BUNDLE_BYTES = 20 * 1024 * 1024"

function chunks_of :: "nat \<Rightarrow> 'a list \<Rightarrow> 'a list list" where
  "chunks_of n xs = (if xs = [] \<or> n = 0 then [] else take n xs # chunks_of n (drop n xs))"
  by pat_completeness auto
termination
  by (relation "measure (\<lambda>(_, xs). length xs)") auto

declare chunks_of.simps [simp del]

definition chunk_payload :: "string \<Rightarrow> string \<Rightarrow> string \<Rightarrow> string \<Rightarrow> string \<Rightarrow> nat \<Rightarrow> nat \<times> bytes \<Rightarrow> pyval" where
  "chunk_payload command_id case_id case_name manifest digest parts numbered =
     (case numbered of (index, chunk) \<Rightarrow>
        PyDict [(''command_id'', PyStr command_id), (''case_id'', PyStr case_id), (''case_name'', PyStr case_name),
          (''manifest_sha256'', PyStr manifest), (''archive_sha256'', PyStr digest), (''total_chunks'', PyInt (int parts)),
          (''chunk_index'', PyInt (int index)), (''chunk_sha256'', PyStr (sha256_hex chunk)), (''data_base64'', PyStr (b64encode chunk))])"

definition queue_case_bundle :: "'c agent_env \<Rightarrow> string \<Rightarrow> string \<Rightarrow> string \<Rightarrow> bytes \<Rightarrow> ('c, pyval) agent_action" where
  "queue_case_bundle env command_id case_name manifest payload =
     bindS (guardS (length payload \<le> MAX_CASE_BUNDLE_BYTES) (ValueError ''Case bundle exceeds 20 MiB transfer limit'')) (\<lambda>_.
     (let digest = sha256_hex payload;
          chunks = (if payload = [] then [[]] else chunks_of CASE_CHUNK_BYTES payload);
          case_id = command_id @ ''-'' @ take 16 digest in
     bindS (forS (\<lambda>numbered. agent_queue env ''case_bundle''
       (chunk_payload command_id case_id case_name manifest digest (length chunks) numbered) 20) (enumerate 0 chunks)) (\<lambda>_.
     returnS (PyDict [(''case_id'', PyStr case_id), (''archive_sha256'', PyStr digest), (''chunks'', PyInt (int (length chunks)))]))))"

fun error_text :: "py_error \<Rightarrow> string" where
  "error_text (ValueError m) = m"
| "error_text (RuntimeError m) = m"
| "error_text (TypeError m) = m"
| "error_text (AttributeError m) = m"
| "error_text (PermissionError m) = m"
| "error_text (RpcError m) = m"
| "error_text _ = []"

text \<open>One command that has no recorded outcome: what it did and what is reported.\<close>

definition run_command :: "'c agent_env \<Rightarrow> mesh_command \<Rightarrow> ('c, (string, pyval) dict) agent_action" where
  "run_command env m =
     (let arguments = cm_arguments m; base = mesh_env.truncate env;
          outcome = (\<lambda>status result. [(''command_id'', PyStr (cm_id m)), (''status'', PyStr status), (''result'', PyDict result)]);
          need = (\<lambda>key text run. if text_at base arguments key = [] then raiseS (ValueError text) else run) in
     catchS
       (if cm_action m = ''capture.start'' then
          need ''interface'' ''capture.start requires an interface''
            (bindS (liftS (ae_daemon env ''start'' arguments)) (\<lambda>r.
             returnS (outcome (if dict_get r ''status'' = Some (PyStr ''error'') then ''failed'' else ''completed'') r)))
        else if cm_action m = ''capture.stop'' then
          need ''interface'' ''capture.stop requires an interface''
            (bindS (liftS (ae_daemon env ''stop'' arguments)) (\<lambda>r.
             returnS (outcome (if dict_get r ''status'' = Some (PyStr ''error'') then ''failed'' else ''completed'') r)))
        else if cm_action m = ''case.export'' then
          need ''ip'' ''case.export requires an IP address''
            (bindS (liftS (ae_export env (text_at base arguments ''ip'') arguments)) (\<lambda>(bundle, manifest, archive).
             bindS (queue_case_bundle env (cm_id m) bundle manifest archive) (\<lambda>transfer.
             returnS (outcome ''completed'' [(''case_bundle'', PyStr bundle), (''manifest_sha256'', PyStr manifest), (''case_transfer'', transfer)]))))
        else raiseS (ValueError ''Unsupported mesh command''))
       (\<lambda>e. returnS (outcome ''failed'' [(''error'', PyStr (take 500 (error_text e)))])))"

fun run_commands ::
  "'c agent_env \<Rightarrow> (string, (string, pyval) dict) dict \<Rightarrow> mesh_command list \<Rightarrow>
     ('c, (string, (string, pyval) dict) dict \<times> pyval list) agent_action" where
  "run_commands env completed [] = returnS (completed, [])"
| "run_commands env completed (m # ms) =
     (if cm_id m = [] then run_commands env completed ms
      else (case dict_get completed (cm_id m) of
          Some prior \<Rightarrow> bindS (run_commands env completed ms) (\<lambda>(c, rs). returnS (c, PyDict prior # rs))
        | None \<Rightarrow>
            bindS (run_command env m) (\<lambda>outcome.
            bindS (run_commands env (dict_set completed (cm_id m) outcome) ms) (\<lambda>(c, rs). returnS (c, PyDict outcome # rs)))))"

definition handle_commands :: "'c agent_env \<Rightarrow> mesh_command list \<Rightarrow> ('c, pyval list) agent_action" where
  "handle_commands env commands =
     bindS require_config (\<lambda>cfg.
     bindS (run_commands env (ac_completed cfg) (take 20 commands)) (\<lambda>(completed, results).
     bindS (write_config (cfg\<lparr>ac_completed := drop (length completed - 1000) completed\<rparr>)) (\<lambda>_.
     returnS results)))"

section \<open>Flushing\<close>

record ('c, 'st) link =
  lk_agent :: "'c agent"
  lk_controller :: "'st controller"
  lk_calls :: nat

definition on_agent :: "('c, 'a) agent_action \<Rightarrow> (('c, 'st) link, 'a) action" where
  "on_agent m l = (let (a', r) = m (lk_agent l) in (l\<lparr>lk_agent := a'\<rparr>, r))"

definition upgrade_envelope :: "mesh_env \<Rightarrow> (string, pyval) dict \<Rightarrow> (string, pyval) dict result" where
  "upgrade_envelope env stored =
     bindE (envelope_from_dict env stored) (\<lambda>e.
     if te_version e = MESH_PROTOCOL_VERSION \<and> te_algorithm e \<noteq> [] then Inr (envelope_to_dict e)
     else
       bindE (payload_hash env (te_payload e)) (\<lambda>h.
       bindE (new_envelope env (e\<lparr>te_version := MESH_PROTOCOL_VERSION, te_digest := h, te_algorithm := DIGEST_ALGORITHM\<rparr>)) (\<lambda>e'.
       Inr (envelope_to_dict e'))))"

text \<open>One turn of the loop: whether there was an envelope to send.\<close>

definition flush_step ::
  "'c agent_env \<Rightarrow> 'st controller_env \<Rightarrow> (nat \<Rightarrow> delivery) \<Rightarrow> string \<Rightarrow> (('c, 'st) link, bool) action" where
  "flush_step env cenv net common_name =
     bindS (readS (\<lambda>l. next_payload (ae_tokens env) (ag_spool (lk_agent l)))) (\<lambda>stored.
     bindS (liftS stored) (\<lambda>found.
     case found of
       None \<Rightarrow> returnS False
     | Some d \<Rightarrow>
         bindS (liftS (upgrade_envelope (mesh_env.truncate env) d)) (\<lambda>envelope.
         bindS (\<lambda>l. let (c', r) = call_ingest cenv (net (lk_calls l)) common_name envelope (lk_controller l)
                     in (l\<lparr>lk_controller := c', lk_calls := lk_calls l + 1\<rparr>, r)) (\<lambda>response.
         bindS (on_agent (changeS (\<lambda>a. a\<lparr>ag_spool := acknowledge (ir_ack response) (ag_spool a)\<rparr>))) (\<lambda>_.
         if ir_commands response = [] then returnS True
         else
           bindS (on_agent (handle_commands env (ir_commands response))) (\<lambda>completed.
           if completed = [] then returnS True
           else bindS (on_agent (agent_queue env ''command_results'' (PyDict [(''items'', PyList completed)]) 20)) (\<lambda>_. returnS True))))))) "

fun flush_loop ::
  "nat \<Rightarrow> 'c agent_env \<Rightarrow> 'st controller_env \<Rightarrow> (nat \<Rightarrow> delivery) \<Rightarrow> string \<Rightarrow> nat \<Rightarrow> ('c, 'st) link \<Rightarrow> ('c, 'st) link \<times> nat result option" where
  "flush_loop 0 env cenv net common_name sent l = (l, None)"
| "flush_loop (Suc n) env cenv net common_name sent l =
     (case flush_step env cenv net common_name l of
        (l', Inl e) \<Rightarrow> (l', Some (Inl e))
      | (l', Inr False) \<Rightarrow> (l', Some (Inr sent))
      | (l', Inr True) \<Rightarrow> flush_loop n env cenv net common_name (sent + 1) l')"

definition flush_once ::
  "nat \<Rightarrow> 'c agent_env \<Rightarrow> 'st controller_env \<Rightarrow> (nat \<Rightarrow> delivery) \<Rightarrow> ('c, 'st) link \<Rightarrow> ('c, 'st) link \<times> nat result option" where
  "flush_once n env cenv net l =
     (case require_config (lk_agent l) of
        (_, Inl e) \<Rightarrow> (l, Some (Inl e))
      | (_, Inr cfg) \<Rightarrow> flush_loop n env cenv net (ac_node_id cfg) 0 l)"

end
