(* ===== verification/MeshDelivery.thy ===== *)
theory MeshDelivery imports MeshAgent begin

text \<open>
  What the mesh promises end to end: a telemetry envelope that was queued reaches the controller's store exactly once
  and in order, whatever requests and responses are lost on the way.
\<close>

section \<open>Envelopes survive the way\<close>

text \<open>An envelope as \<open>queue\<close> makes it; a negative zero would be read back as zero.\<close>

definition good_envelope :: "mesh_env \<Rightarrow> telemetry_envelope \<Rightarrow> bool" where
  "good_envelope env e \<longleftrightarrow>
     te_version e = MESH_PROTOCOL_VERSION \<and> te_algorithm e = DIGEST_ALGORITHM \<and> te_node_id e \<noteq> [] \<and> length (te_node_id e) \<le> 128 \<and>
     1 \<le> te_sequence e \<and> te_sequence e < 2 ^ 64 \<and> te_type e \<in> set VALID_ENVELOPE_TYPES \<and> (\<exists>d. te_payload e = PyDict d) \<and>
     payload_hash env (te_payload e) = Inr (te_digest e) \<and> (f64_is_zero (te_created_at e) \<longrightarrow> te_created_at e = 0)"

lemma sha256_hex_nonempty [simp]: "sha256_hex b \<noteq> []"
proof
  assume "sha256_hex b = []"
  then have "sha256 b = []" using bytes_hex_inj [of "sha256 b" "[]"] by (simp add: sha256_hex_def bytes_hex_def)
  then show False using length_sha256 [of b] by simp
qed

lemma payload_hash_nonempty: "payload_hash env v = Inr h \<Longrightarrow> h \<noteq> []"
  by (auto simp: payload_hash_def bindE_Inr)

lemma valid_types_nonempty: "t \<in> set VALID_ENVELOPE_TYPES \<Longrightarrow> t \<noteq> []"
  by (auto simp: VALID_ENVELOPE_TYPES_def)

lemma version_names [simp]: "MESH_PROTOCOL_VERSION \<noteq> []" "DIGEST_ALGORITHM \<noteq> []" "DIGEST_ALGORITHM \<noteq> ''legacy-json-sha256''"
  by (simp_all add: MESH_PROTOCOL_VERSION_def DIGEST_ALGORITHM_def)

lemma get_or_simps [simp]:
  "get_or ((k, v) # d) key fallback = (if k = key then if py_truth v then v else fallback else get_or d key fallback)"
  by (simp add: get_or_def)

lemma conversions [simp]: "py_dict (PyDict d) = Inr d" "py_float env (PyFloat x) = Inr x"
  by (simp_all add: py_dict_def py_float_def)

lemma new_envelope_good [simp]: "good_envelope env e \<Longrightarrow> new_envelope env e = Inr e"
  using payload_hash_nonempty [of env "te_payload e" "te_digest e"] by (simp add: new_envelope_def good_envelope_def)

lemma validate_good [simp]: "good_envelope env e \<Longrightarrow> validate_envelope env e = Inr ()"
  by (auto simp: validate_envelope_def good_envelope_def)

theorem envelope_read_back:
  assumes "good_envelope env e"
  shows "envelope_from_dict env (envelope_to_dict e) = Inr e"
proof -
  obtain n q t d c v h a where e: "e = \<lparr>te_node_id = n, te_sequence = q, te_type = t, te_payload = PyDict d, te_created_at = c,
      te_version = v, te_digest = h, te_algorithm = a\<rparr>"
    using assms by (cases e) (auto simp: good_envelope_def)
  have "h \<noteq> []" "t \<noteq> []" "v \<noteq> []" "a \<noteq> []" "n \<noteq> []" "q \<noteq> 0" "f64_is_zero c \<longrightarrow> c = 0"
    using assms payload_hash_nonempty [of env "PyDict d" h] valid_types_nonempty [of t] by (auto simp: good_envelope_def e)
  then show ?thesis
    using new_envelope_good [OF assms] validate_good [OF assms]
    by (auto simp: envelope_from_dict_def envelope_to_dict_def text_at_def py_str_def py_int_def e)
qed

lemma upgrade_good: "good_envelope env e \<Longrightarrow> upgrade_envelope env (envelope_to_dict e) = Inr (envelope_to_dict e)"
  by (simp add: upgrade_envelope_def envelope_read_back) (simp add: good_envelope_def)

section \<open>One call\<close>

text \<open>The types of envelope whose rows go to the storage layer, and what they hold.\<close>

definition stored_type :: "string \<Rightarrow> bool" where
  "stored_type t \<longleftrightarrow> t \<in> set VALID_ENVELOPE_TYPES \<and> t \<noteq> ''health'' \<and> t \<noteq> ''command_results'' \<and> t \<noteq> ''lifecycle'' \<and> t \<noteq> ''case_bundle''"

definition envelope_rows :: "telemetry_envelope \<Rightarrow> (string, pyval) dict" where
  "envelope_rows e = (case te_payload e of PyDict d \<Rightarrow> d | _ \<Rightarrow> [])"

text \<open>Telemetry that fits in a message and that the storage layer accepts.\<close>

definition sendable :: "'st controller_env \<Rightarrow> telemetry_envelope \<Rightarrow> bool" where
  "sendable cenv e \<longleftrightarrow> good_envelope (mesh_env.truncate cenv) e \<and> stored_type (te_type e) \<and>
     (\<exists>b. canonical_json_bytes (mesh_env.truncate cenv) (te_payload e) = Inr b \<and> length b \<le> 2 * 1024 * 1024 \<and> me_loads cenv b = Some (te_payload e)) \<and>
     (\<forall>st. is_ok (snd (store_envelope cenv (te_node_id e) (te_type e) (envelope_rows e) st)))"

definition stored :: "'st controller_env \<Rightarrow> telemetry_envelope \<Rightarrow> 'st \<Rightarrow> 'st" where
  "stored cenv e st = fst (store_envelope cenv (te_node_id e) (te_type e) (envelope_rows e) st)"

definition receipt_of :: "'st controller \<Rightarrow> string \<Rightarrow> int \<Rightarrow> mesh_receipt option" where
  "receipt_of c node sequence = find (\<lambda>r. mr_node r = node \<and> mr_sequence r = sequence) (mc_receipts c)"

text \<open>The node may send, and nothing waits for it.\<close>

definition listening :: "string \<Rightarrow> 'st controller \<Rightarrow> bool" where
  "listening node c \<longleftrightarrow> (\<exists>n. find_node node (mc_nodes c) = Some n \<and> \<not> gone (sn_status n)) \<and>
     list_all (\<lambda>m. \<not> (cm_node m = node \<and> cm_status m = ''queued'')) (mc_commands c)"

definition receipt_for :: "telemetry_envelope \<Rightarrow> f64 \<Rightarrow> mesh_receipt" where
  "receipt_for e now = \<lparr>mr_node = te_node_id e, mr_sequence = te_sequence e, mr_type = te_type e, mr_hash = te_digest e, mr_received_at = now\<rparr>"

lemma pending_none: "listening node c \<Longrightarrow> pending_mesh_commands cenv node c = (c\<lparr>mc_ticks := mc_ticks c + 1\<rparr>, Inr [])"
proof -
  assume l: "listening node c"
  then have "filter (\<lambda>m. cm_node m = node \<and> cm_status m = ''queued'' \<and> f64_lt (ce_clock cenv (mc_ticks c)) (cm_expires_at m)) (mc_commands c) = []"
    by (auto simp: listening_def list_all_iff filter_empty_conv)
  then show ?thesis by (simp add: pending_mesh_commands_def bindS_def clockC_def)
qed

lemma listening_more [simp]:
  "listening node (c\<lparr>mc_ticks := t\<rparr>) = listening node c" "listening node (c\<lparr>mc_receipts := r\<rparr>) = listening node c"
  "listening node (c\<lparr>mc_store := st\<rparr>) = listening node c"
  by (simp_all add: listening_def)

lemma apply_stored:
  assumes "sendable cenv e"
  obtains n where "apply_envelope cenv (te_node_id e) e c = (c\<lparr>mc_store := stored cenv e (mc_store c)\<rparr>, Inr n)"
proof -
  obtain st' n where st: "store_envelope cenv (te_node_id e) (te_type e) (envelope_rows e) (mc_store c) = (st', Inr n)"
    using assms unfolding sendable_def by (cases "store_envelope cenv (te_node_id e) (te_type e) (envelope_rows e) (mc_store c)") (metis is_ok_iff snd_conv)
  obtain d where "te_payload e = PyDict d" using assms by (auto simp: sendable_def good_envelope_def)
  then have "apply_envelope cenv (te_node_id e) e c = (c\<lparr>mc_store := stored cenv e (mc_store c)\<rparr>, Inr n)"
    using assms st by (simp add: apply_envelope_def stored_def sendable_def stored_type_def envelope_rows_def)
  then show thesis by (rule that)
qed

lemma ingest_first:
  assumes e: "sendable cenv e" and l: "listening (te_node_id e) c" and r: "receipt_of c (te_node_id e) (te_sequence e) = None"
  shows "\<exists>t n. ingest cenv (te_node_id e) (envelope_to_dict e) c =
    (c\<lparr>mc_receipts := mc_receipts c @ [receipt_for e (ce_clock cenv (mc_ticks c))], mc_store := stored cenv e (mc_store c), mc_ticks := t\<rparr>,
     Inr \<lparr>ir_ack = te_sequence e, ir_duplicate = False, ir_applied = Some n, ir_commands = []\<rparr>)"
proof -
  obtain n where n: "find_node (te_node_id e) (mc_nodes c) = Some n" "\<not> gone (sn_status n)" using l by (auto simp: listening_def)
  let ?c1 = "c\<lparr>mc_ticks := mc_ticks c + 1\<rparr>"
  let ?c2 = "?c1\<lparr>mc_receipts := mc_receipts c @ [receipt_for e (ce_clock cenv (mc_ticks c))]\<rparr>"
  have rec: "record_mesh_receipt cenv (te_node_id e) (te_sequence e) (te_type e) (te_digest e) c = (?c2, Inr Accepted)"
    using r by (simp add: record_mesh_receipt_def bindS_def clockC_def receipt_of_def receipt_for_def)
  obtain k where k: "apply_envelope cenv (te_node_id e) e ?c2 = (?c2\<lparr>mc_store := stored cenv e (mc_store ?c2)\<rparr>, Inr k)"
    using apply_stored [OF e] by blast
  have reread: "envelope_from_dict (mesh_env.truncate cenv) (envelope_to_dict e) = Inr e"
    using e by (simp add: sendable_def envelope_read_back)
  show ?thesis
    using n l by (auto simp: ingest_def get_sensor_node_def reread bindS_def rec k [simplified] pending_none)
qed

lemma ingest_duplicate:
  assumes e: "sendable cenv e" and l: "listening (te_node_id e) c"
    and r: "receipt_of c (te_node_id e) (te_sequence e) = Some x" "mr_hash x = te_digest e"
  shows "ingest cenv (te_node_id e) (envelope_to_dict e) c =
    (c\<lparr>mc_ticks := mc_ticks c + 1\<rparr>, Inr \<lparr>ir_ack = te_sequence e, ir_duplicate = True, ir_applied = None, ir_commands = []\<rparr>)"
proof -
  obtain n where n: "find_node (te_node_id e) (mc_nodes c) = Some n" "\<not> gone (sn_status n)" using l by (auto simp: listening_def)
  have rec: "record_mesh_receipt cenv (te_node_id e) (te_sequence e) (te_type e) (te_digest e) c = (c, Inr Duplicate)"
    using r by (simp add: record_mesh_receipt_def receipt_of_def)
  have reread: "envelope_from_dict (mesh_env.truncate cenv) (envelope_to_dict e) = Inr e"
    using e by (simp add: sendable_def envelope_read_back)
  show ?thesis
    using n l by (simp add: ingest_def get_sensor_node_def reread bindS_def rec pending_none [OF l])
qed

text \<open>The message carries the envelope.\<close>

lemma message_of:
  assumes "sendable cenv e"
  obtains b where "client_message (mesh_env.truncate cenv) (envelope_to_dict e) = Inr
      \<lparr>tg_version = te_version e, tg_node_id = te_node_id e, tg_sequence = te_sequence e, tg_type = te_type e,
       tg_payload_json = b, tg_created_at = te_created_at e, tg_digest = te_digest e, tg_algorithm = te_algorithm e\<rparr>"
    "canonical_json_bytes (mesh_env.truncate cenv) (te_payload e) = Inr b" "length b \<le> 2 * 1024 * 1024" "me_loads cenv b = Some (te_payload e)"
    "sha256_hex b = te_digest e"
proof -
  obtain b where b: "canonical_json_bytes (mesh_env.truncate cenv) (te_payload e) = Inr b" "length b \<le> 2 * 1024 * 1024" "me_loads cenv b = Some (te_payload e)"
    using assms by (auto simp: sendable_def)
  moreover have "sha256_hex b = te_digest e" using assms b(1) by (simp add: sendable_def good_envelope_def payload_hash_def)
  moreover have "te_sequence e < 2 ^ 64" using assms by (simp add: sendable_def good_envelope_def)
  ultimately show thesis
    using that assms by (simp add: client_message_def sendable_def envelope_read_back)
qed

lemma ingest_v2_of_message:
  assumes e: "sendable cenv e" and m: "client_message (mesh_env.truncate cenv) (envelope_to_dict e) = Inr m"
  shows "ingest_v2 cenv (te_node_id e) m = catchS (bindS (ingest cenv (te_node_id e) (envelope_to_dict e)) (\<lambda>r. returnS (Answer r)))
    (\<lambda>e. case caught_text e of Some t \<Rightarrow> returnS (Refused t) | None \<Rightarrow> raiseS e)"
proof -
  from message_of [OF e] obtain b where b:
    "m = \<lparr>tg_version = te_version e, tg_node_id = te_node_id e, tg_sequence = te_sequence e, tg_type = te_type e,
       tg_payload_json = b, tg_created_at = te_created_at e, tg_digest = te_digest e, tg_algorithm = te_algorithm e\<rparr>"
    "canonical_json_bytes (mesh_env.truncate cenv) (te_payload e) = Inr b" "length b \<le> 2 * 1024 * 1024" "me_loads cenv b = Some (te_payload e)"
    "sha256_hex b = te_digest e"
    using m by (metis sum.inject(2))
  have good: "good_envelope (mesh_env.truncate cenv) e" using e by (simp add: sendable_def)
  have v: "str_or (te_version e) MESH_PROTOCOL_VERSION = te_version e" using good by (simp add: good_envelope_def str_or_def)
  have "new_envelope (mesh_env.truncate cenv) \<lparr>te_node_id = te_node_id e, te_sequence = te_sequence e, te_type = te_type e,
      te_payload = te_payload e, te_created_at = te_created_at e, te_version = te_version e, te_digest = te_digest e, te_algorithm = te_algorithm e\<rparr> = Inr e"
    using new_envelope_good [OF good] by (cases e) simp
  then show ?thesis using b v by (simp add: ingest_v2_def fun_eq_iff)
qed

definition same_tables :: "'st controller \<Rightarrow> 'st controller \<Rightarrow> bool" where
  "same_tables c c' \<longleftrightarrow> mc_nodes c' = mc_nodes c \<and> mc_commands c' = mc_commands c \<and> mc_receipts c' = mc_receipts c \<and> mc_store c' = mc_store c"

text \<open>What a call does to the controller, by how it was delivered and whether the envelope had been received before.\<close>

theorem call_effect:
  assumes e: "sendable cenv e" and l: "listening (te_node_id e) c"
    and r: "\<And>x. receipt_of c (te_node_id e) (te_sequence e) = Some x \<Longrightarrow> mr_hash x = te_digest e"
    and call: "call_ingest cenv d (te_node_id e) (envelope_to_dict e) c = (c', res)"
  shows "if d = RequestLost \<or> receipt_of c (te_node_id e) (te_sequence e) \<noteq> None then same_tables c c'
         else mc_nodes c' = mc_nodes c \<and> mc_commands c' = mc_commands c \<and> mc_store c' = stored cenv e (mc_store c) \<and>
           (\<exists>now. mc_receipts c' = mc_receipts c @ [receipt_for e now])"
    and "if d = Delivered then \<exists>resp. res = Inr resp \<and> ir_ack resp = te_sequence e \<and> ir_commands resp = [] else \<exists>m. res = Inl (RpcError m)"
proof -
  obtain m where m: "client_message (mesh_env.truncate cenv) (envelope_to_dict e) = Inr m" using message_of [OF e] by metis
  have call': "(case d of RequestLost \<Rightarrow> raiseS (RpcError ''unavailable'')
      | Delivered \<Rightarrow> bindS (catchS (ingest_v2 cenv (te_node_id e) m) (\<lambda>_. raiseS (RpcError ''unknown''))) (\<lambda>a.
          case a of Answer r \<Rightarrow> returnS r | Refused t \<Rightarrow> raiseS (RuntimeError (str_or t ''Mesh telemetry rejected'')))
      | ResponseLost \<Rightarrow> (\<lambda>c. (fst (ingest_v2 cenv (te_node_id e) m c), Inl (RpcError ''deadline exceeded'')))) c = (c', res)"
    using call m by (simp add: call_ingest_def)
  obtain c1 resp where i: "ingest cenv (te_node_id e) (envelope_to_dict e) c = (c1, Inr resp)" "ir_ack resp = te_sequence e" "ir_commands resp = []"
    and c1: "if receipt_of c (te_node_id e) (te_sequence e) \<noteq> None then same_tables c c1
       else mc_nodes c1 = mc_nodes c \<and> mc_commands c1 = mc_commands c \<and> mc_store c1 = stored cenv e (mc_store c) \<and>
         (\<exists>now. mc_receipts c1 = mc_receipts c @ [receipt_for e now])"
  proof (cases "receipt_of c (te_node_id e) (te_sequence e)")
    case None
    from ingest_first [OF e l None] None that show thesis by fastforce
  next
    case (Some x)
    from ingest_duplicate [OF e l Some r [OF Some]] Some that show thesis by (fastforce simp: same_tables_def)
  qed
  have v: "ingest_v2 cenv (te_node_id e) m c = (c1, Inr (Answer resp))"
    by (simp add: ingest_v2_of_message [OF e m] catchS_def bindS_def i(1))
  show "if d = RequestLost \<or> receipt_of c (te_node_id e) (te_sequence e) \<noteq> None then same_tables c c'
         else mc_nodes c' = mc_nodes c \<and> mc_commands c' = mc_commands c \<and> mc_store c' = stored cenv e (mc_store c) \<and>
           (\<exists>now. mc_receipts c' = mc_receipts c @ [receipt_for e now])"
    using call' c1 v by (cases d) (auto simp: same_tables_def catchS_def bindS_def)
  show "if d = Delivered then \<exists>resp. res = Inr resp \<and> ir_ack resp = te_sequence e \<and> ir_commands resp = [] else \<exists>m. res = Inl (RpcError m)"
    using call' v i by (cases d) (auto simp: catchS_def bindS_def)
qed

section \<open>The link\<close>

definition row_holds :: "'c token_env \<Rightarrow> 'c spool_row \<Rightarrow> telemetry_envelope \<Rightarrow> bool" where
  "row_holds tk r e \<longleftrightarrow> tk_unseal tk (sp_token r) = Some (envelope_to_dict e) \<and> sp_sequence r = te_sequence e"

definition waiting :: "'c token_env \<Rightarrow> 'c mesh_spool \<Rightarrow> telemetry_envelope list \<Rightarrow> bool" where
  "waiting tk s es \<longleftrightarrow> list_all2 (row_holds tk) (sort_key sp_sequence (ms_rows s)) es"

text \<open>An agent that is enrolled as \<open>node\<close>, whose spool holds \<open>es\<close>, and a controller that listens to it.\<close>

definition agent_ok :: "'c token_env \<Rightarrow> string \<Rightarrow> 'c agent \<Rightarrow> telemetry_envelope list \<Rightarrow> bool" where
  "agent_ok tk node a es \<longleftrightarrow> mesh_spool_ok (ag_spool a) \<and> waiting tk (ag_spool a) es \<and>
     (\<exists>cfg. ag_config a = Some cfg \<and> ac_node_id cfg = node \<and> ac_controller cfg \<noteq> [] \<and> 1 \<le> ac_next_sequence cfg \<and>
        list_all (\<lambda>e. te_node_id e = node \<and> te_sequence e < ac_next_sequence cfg) es)"

definition next_sequence :: "'c agent \<Rightarrow> int" where
  "next_sequence a = (case ag_config a of Some cfg \<Rightarrow> ac_next_sequence cfg | None \<Rightarrow> 1)"

text \<open>Receipts of the node are of sequence numbers it has used, and agree with what still waits.\<close>

definition receipts_ok :: "string \<Rightarrow> int \<Rightarrow> telemetry_envelope list \<Rightarrow> 'st controller \<Rightarrow> bool" where
  "receipts_ok node bound es c \<longleftrightarrow> list_all (\<lambda>r. if mr_node r = node
     then mr_sequence r < bound \<and> list_all (\<lambda>e. te_sequence e \<noteq> mr_sequence r \<or> mr_hash r = te_digest e) es else True) (mc_receipts c)"

definition link_ok :: "'c agent_env \<Rightarrow> 'st controller_env \<Rightarrow> string \<Rightarrow> ('c, 'st) link \<Rightarrow> telemetry_envelope list \<Rightarrow> bool" where
  "link_ok env cenv node l es \<longleftrightarrow> agent_ok (ae_tokens env) node (lk_agent l) es \<and> list_all (sendable cenv) es \<and>
     listening node (lk_controller l) \<and> receipts_ok node (next_sequence (lk_agent l)) es (lk_controller l)"

text \<open>What waits and has not been received, and the store once all of it is.\<close>

definition outstanding :: "string \<Rightarrow> 'st controller \<Rightarrow> telemetry_envelope list \<Rightarrow> telemetry_envelope list" where
  "outstanding node c es = filter (\<lambda>e. receipt_of c node (te_sequence e) = None) es"

definition stored_all :: "'st controller_env \<Rightarrow> telemetry_envelope list \<Rightarrow> 'st \<Rightarrow> 'st" where
  "stored_all cenv es st = foldl (\<lambda>st e. stored cenv e st) st es"

definition final_store :: "'st controller_env \<Rightarrow> string \<Rightarrow> ('c, 'st) link \<Rightarrow> telemetry_envelope list \<Rightarrow> 'st" where
  "final_store cenv node l es = stored_all cenv (outstanding node (lk_controller l) es) (mc_store (lk_controller l))"

lemma stored_all_simps [simp]:
  "stored_all cenv [] st = st" "stored_all cenv (e # es) st = stored_all cenv es (stored cenv e st)"
  "stored_all cenv (es @ fs) st = stored_all cenv fs (stored_all cenv es st)"
  by (simp_all add: stored_all_def)

lemma waiting_sorted: "mesh_spool_ok s \<Longrightarrow> waiting tk s es \<Longrightarrow> sorted (map te_sequence es) \<and> distinct (map te_sequence es)"
proof -
  assume s: "mesh_spool_ok s" and w: "waiting tk s es"
  have m: "map te_sequence es = map sp_sequence (sort_key sp_sequence (ms_rows s))"
    using w unfolding waiting_def by (induction rule: list_all2_induct) (simp_all add: row_holds_def)
  have "distinct (map sp_sequence (sort_key sp_sequence (ms_rows s)))"
    using s unfolding mesh_spool_ok_def by (metis mset_map mset_sort mset_eq_imp_distinct_iff)
  then show ?thesis unfolding m by simp
qed

lemma waiting_next:
  assumes "mesh_spool_ok s" "waiting tk s (e # es)"
  shows "next_payload tk s = Inr (Some (envelope_to_dict e))" "waiting tk (acknowledge (te_sequence e) s) es"
proof -
  obtain r rs where r: "sort_key sp_sequence (ms_rows s) = r # rs" "row_holds tk r e" "list_all2 (row_holds tk) rs es"
    using assms(2) by (auto simp: waiting_def list_all2_Cons2)
  have n: "next_row s = Some r" by (simp add: next_row_def first_row_def r(1))
  show "next_payload tk s = Inr (Some (envelope_to_dict e))" using r(2) by (simp add: next_payload_def n row_holds_def)
  have "sort_key sp_sequence (ms_rows (acknowledge (sp_sequence r) s)) = rs" using acknowledge_next [OF assms(1) n] r(1) by simp
  then show "waiting tk (acknowledge (te_sequence e) s) es" using r(2,3) by (simp add: waiting_def row_holds_def)
qed

lemma waiting_none: "waiting tk s [] \<Longrightarrow> next_payload tk s = Inr None"
  by (simp add: waiting_def next_payload_def next_row_def first_row_def)

lemma receipt_of_same: "same_tables c c' \<Longrightarrow> receipt_of c' node q = receipt_of c node q"
  by (simp add: receipt_of_def same_tables_def)

lemma find_snoc: "find P (xs @ [y]) = (case find P xs of Some x \<Rightarrow> Some x | None \<Rightarrow> if P y then Some y else None)"
  by (induction xs) simp_all

lemma receipt_of_new:
  assumes "mc_receipts c' = mc_receipts c @ [receipt_for e now]" "receipt_of c (te_node_id e) (te_sequence e) = None"
  shows "receipt_of c' (te_node_id e) q = (if q = te_sequence e then Some (receipt_for e now) else receipt_of c (te_node_id e) q)"
  using assms by (auto simp: receipt_of_def receipt_for_def find_snoc split: option.split)

lemma receipt_of_member: "receipt_of c node q = Some r \<Longrightarrow> r \<in> set (mc_receipts c) \<and> mr_node r = node \<and> mr_sequence r = q"
  by (auto simp: receipt_of_def find_Some_iff)

section \<open>A turn of the loop\<close>

text \<open>The two ways a call can leave the tables.\<close>

definition call_tables :: "'st controller_env \<Rightarrow> telemetry_envelope \<Rightarrow> 'st controller \<Rightarrow> 'st controller \<Rightarrow> bool" where
  "call_tables cenv e c c' \<longleftrightarrow> same_tables c c' \<or>
     receipt_of c (te_node_id e) (te_sequence e) = None \<and> mc_nodes c' = mc_nodes c \<and> mc_commands c' = mc_commands c \<and>
     mc_store c' = stored cenv e (mc_store c) \<and> (\<exists>now. mc_receipts c' = mc_receipts c @ [receipt_for e now])"

lemma call_tables_listening: "call_tables cenv e c c' \<Longrightarrow> listening node c \<Longrightarrow> listening node c'"
  by (auto simp: call_tables_def same_tables_def listening_def)

lemma receipts_ok_subset: "receipts_ok node bound es c \<Longrightarrow> set fs \<subseteq> set es \<Longrightarrow> receipts_ok node bound fs c"
  unfolding receipts_ok_def by (erule list.pred_mono_strong) (auto simp: list_all_iff)

lemma call_tables_receipts:
  assumes "call_tables cenv e c c'" "receipts_ok node bound es c" "e \<in> set es" "distinct (map te_sequence es)" "te_sequence e < bound"
  shows "receipts_ok node bound es c'"
proof -
  have "te_digest f = te_digest e" if "f \<in> set es" "te_sequence f = te_sequence e" for f
    using that assms(3,4) by (metis inj_onD distinct_map)
  then have new: "list_all (\<lambda>f. te_sequence f \<noteq> te_sequence e \<or> te_digest e = te_digest f) es" by (auto simp: list_all_iff)
  from assms(1) show ?thesis unfolding call_tables_def
  proof
    assume "same_tables c c'"
    then show ?thesis using assms(2) by (simp add: receipts_ok_def same_tables_def)
  next
    assume "receipt_of c (te_node_id e) (te_sequence e) = None \<and> mc_nodes c' = mc_nodes c \<and> mc_commands c' = mc_commands c \<and>
      mc_store c' = stored cenv e (mc_store c) \<and> (\<exists>now. mc_receipts c' = mc_receipts c @ [receipt_for e now])"
    then obtain now where "mc_receipts c' = mc_receipts c @ [receipt_for e now]" by blast
    then show ?thesis using assms(2,5) new by (simp add: receipts_ok_def receipt_for_def)
  qed
qed

text \<open>Once the first waiting envelope has been received, the rest of the work is the same, sent or still waiting.\<close>

lemma call_tables_store:
  assumes t: "call_tables cenv e c c'" and node: "te_node_id e = node" and d: "distinct (map te_sequence (e # es))"
    and r: "receipt_of c' node (te_sequence e) \<noteq> None"
  shows "stored_all cenv (outstanding node c' es) (mc_store c') = stored_all cenv (outstanding node c (e # es)) (mc_store c)"
    and "outstanding node c' (e # es) = outstanding node c' es"
proof -
  show "outstanding node c' (e # es) = outstanding node c' es" using r by (simp add: outstanding_def)
  from t show "stored_all cenv (outstanding node c' es) (mc_store c') = stored_all cenv (outstanding node c (e # es)) (mc_store c)"
    unfolding call_tables_def
  proof
    assume s: "same_tables c c'"
    have "mc_store c' = mc_store c" using s by (simp add: same_tables_def)
    moreover have "receipt_of c node (te_sequence e) \<noteq> None" using r by (simp add: receipt_of_same [OF s])
    ultimately show ?thesis by (auto simp: outstanding_def receipt_of_same [OF s])
  next
    assume s: "receipt_of c (te_node_id e) (te_sequence e) = None \<and> mc_nodes c' = mc_nodes c \<and> mc_commands c' = mc_commands c \<and>
      mc_store c' = stored cenv e (mc_store c) \<and> (\<exists>now. mc_receipts c' = mc_receipts c @ [receipt_for e now])"
    then obtain now where now: "mc_receipts c' = mc_receipts c @ [receipt_for e now]" by blast
    have other: "receipt_of c' node (te_sequence f) = receipt_of c node (te_sequence f)" if "f \<in> set es" for f
      using receipt_of_new [OF now] s that d node by (auto simp: image_iff)
    have "outstanding node c' es = outstanding node c es"
      unfolding outstanding_def by (rule filter_cong [OF refl]) (simp add: other)
    then show ?thesis using s node by (simp add: outstanding_def)
  qed
qed

theorem flush_step_ok:
  assumes env: "mesh_env.truncate env = mesh_env.truncate cenv" and ok: "link_ok env cenv node l es"
    and step: "flush_step env cenv net node l = (l', res)"
  shows "\<exists>es'. link_ok env cenv node l' es' \<and> final_store cenv node l' es' = final_store cenv node l es \<and>
    next_sequence (lk_agent l') = next_sequence (lk_agent l) \<and>
    (if net (lk_calls l) = Delivered then res = Inr (es \<noteq> []) \<and> es' = tl es else es' = es)"
proof (cases es)
  case Nil
  have "next_payload (ae_tokens env) (ag_spool (lk_agent l)) = Inr None"
    using ok by (simp add: link_ok_def agent_ok_def Nil waiting_none)
  then have "l' = l" "res = Inr False" using step by (auto simp: flush_step_def)
  then show ?thesis using ok Nil by auto
next
  case (Cons e fs)
  let ?a = "lk_agent l" and ?c = "lk_controller l"
  have a: "mesh_spool_ok (ag_spool ?a)" "waiting (ae_tokens env) (ag_spool ?a) (e # fs)" and e: "sendable cenv e" "te_node_id e = node"
    and l: "listening node ?c" and r: "receipts_ok node (next_sequence ?a) (e # fs) ?c"
    and q: "te_sequence e < next_sequence ?a"
    using ok by (auto simp: link_ok_def agent_ok_def Cons next_sequence_def)
  have d: "distinct (map te_sequence (e # fs))" using waiting_sorted [OF a] by blast
  obtain c' ans where call: "call_ingest cenv (net (lk_calls l)) node (envelope_to_dict e) ?c = (c', ans)" by fastforce
  have hash: "mr_hash x = te_digest e" if "receipt_of ?c (te_node_id e) (te_sequence e) = Some x" for x
    using receipt_of_member [OF that] r e(2) by (auto simp: receipts_ok_def list_all_iff)
  note effect = call_effect [OF e(1) l [folded e(2)] hash call [folded e(2)]]
  have tables: "call_tables cenv e ?c c'" using effect(1) by (auto simp: call_tables_def split: if_splits)
  have received: "receipt_of c' node (te_sequence e) \<noteq> None" if "net (lk_calls l) \<noteq> RequestLost"
  proof (cases "receipt_of ?c (te_node_id e) (te_sequence e)")
    case None
    then have "\<exists>now. mc_receipts c' = mc_receipts ?c @ [receipt_for e now]" using effect(1) that by simp
    then obtain now where "mc_receipts c' = mc_receipts ?c @ [receipt_for e now]" by blast
    from receipt_of_new [OF this None] show ?thesis by (simp add: e(2))
  next
    case (Some x)
    then have "same_tables ?c c'" using effect(1) by auto
    with Some show ?thesis by (simp add: receipt_of_same e(2))
  qed
  let ?l1 = "l\<lparr>lk_controller := c', lk_calls := lk_calls l + 1\<rparr>"
  have run: "flush_step env cenv net node l = (case ans of Inl m \<Rightarrow> (?l1, Inl m)
      | Inr resp \<Rightarrow> (if ir_commands resp = [] then (?l1\<lparr>lk_agent := ?a\<lparr>ag_spool := acknowledge (ir_ack resp) (ag_spool ?a)\<rparr>\<rparr>, Inr True)
          else flush_step env cenv net node l))"
    using waiting_next(1) [OF a] upgrade_good [of "mesh_env.truncate cenv" e] e(1) call
    by (auto simp: flush_step_def sendable_def env bindS_def on_agent_def split: sum.split)
  have kept: "listening node c'" "receipts_ok node (next_sequence ?a) (e # fs) c'"
    using call_tables_listening [OF tables l] call_tables_receipts [OF tables r _ d q] by auto
  show ?thesis
  proof (cases "net (lk_calls l) = Delivered")
    case True
    then obtain resp where resp: "ans = Inr resp" "ir_ack resp = te_sequence e" "ir_commands resp = []" using effect(2) by auto
    have l': "l' = ?l1\<lparr>lk_agent := ?a\<lparr>ag_spool := acknowledge (te_sequence e) (ag_spool ?a)\<rparr>\<rparr>" "res = Inr True"
      using step run resp by auto
    have "link_ok env cenv node l' fs"
      using ok kept waiting_next(2) [OF a] receipts_ok_subset [OF kept(2), of fs]
      by (auto simp: link_ok_def agent_ok_def Cons l' acknowledge_ok next_sequence_def)
    moreover have "final_store cenv node l' fs = final_store cenv node l es"
      using call_tables_store(1) [OF tables e(2) d received] True by (simp add: final_store_def l' Cons)
    moreover have "next_sequence (lk_agent l') = next_sequence ?a" by (simp add: l' next_sequence_def)
    ultimately show ?thesis using True l'(2) by (auto simp: Cons)
  next
    case False
    then obtain m where "ans = Inl m" using effect(2) by auto
    then have l': "l' = ?l1" using step run by auto
    have "link_ok env cenv node l' es" using ok kept by (auto simp: link_ok_def agent_ok_def l' Cons)
    moreover have "final_store cenv node l' es = final_store cenv node l es"
    proof (cases "net (lk_calls l) = RequestLost")
      case True
      then have "same_tables ?c c'" using effect(1) by simp
      then show ?thesis by (simp add: final_store_def l' outstanding_def receipt_of_same) (simp add: same_tables_def)
    next
      case False
      from call_tables_store [OF tables e(2) d received [OF False]] show ?thesis by (simp add: final_store_def l' Cons)
    qed
    ultimately show ?thesis using False by (auto simp: l' next_sequence_def)
  qed
qed

section \<open>Queueing\<close>

lemma queue_run:
  assumes cfg: "ag_config a = Some cfg" "ac_node_id cfg \<noteq> []" "ac_controller cfg \<noteq> []" "1 \<le> ac_next_sequence cfg"
    and e: "new_envelope (mesh_env.truncate env) \<lparr>te_node_id = ac_node_id cfg, te_sequence = ac_next_sequence cfg, te_type = kind, te_payload = payload,
      te_created_at = ae_clock env (ag_ticks a), te_version = MESH_PROTOCOL_VERSION, te_digest = [], te_algorithm = DIGEST_ALGORITHM\<rparr> = Inr e"
    and s: "enqueue_row (ae_tokens env) (ag_draws a) (ae_clock env (ag_ticks a + 1)) (ac_next_sequence cfg) (envelope_to_dict e) priority (ag_spool a) = (s', status)"
  shows "agent_queue env kind payload priority a =
    (a\<lparr>ag_config := Some (cfg\<lparr>ac_next_sequence := ac_next_sequence cfg + 1\<rparr>), ag_spool := s', ag_ticks := ag_ticks a + 2, ag_draws := ag_draws a + 1\<rparr>,
     Inr (ac_next_sequence cfg, status))"
proof -
  have "require_config a = (a, Inr cfg)" using cfg by (simp add: require_config_def)
  moreover have "ac_next_sequence cfg \<noteq> 0" using cfg by simp
  ultimately show ?thesis
    using e s by (simp add: agent_queue_def agent_enqueue_def agent_clock_def write_config_def bindS_def numeral_2_eq_2 Let_def)
qed

text \<open>When nothing has to be dropped the new row joins the others.\<close>

lemma make_room_nothing: "snd (make_room n p m rows) = 0 \<Longrightarrow> fst (make_room n p m rows) = rows"
  by (subst make_room.simps, subst (asm) make_room.simps) (auto simp: Let_def case_prod_beta split: if_splits option.splits)

lemma sort_key_last:
  assumes "\<And>x. x \<in> set xs \<Longrightarrow> (f x :: int) < f y"
  shows "sort_key f (xs @ [y]) = sort_key f xs @ [y]"
proof (rule properties_for_sort_key)
  show "mset (sort_key f xs @ [y]) = mset (xs @ [y])" by simp
  show "filter (\<lambda>x. f k = f x) (sort_key f xs @ [y]) = filter (\<lambda>x. f k = f x) (xs @ [y])" if "k \<in> set (sort_key f xs @ [y])" for k
  proof -
    have "(\<lambda>x. f k = f x) = (\<lambda>x. f x = f k)" by auto
    then show ?thesis using sort_key_stable [of f "f k" xs] by (simp only: filter_append)
  qed
  show "sorted (map f (sort_key f xs @ [y]))"
    using assms by (auto simp: sorted_append intro: order_less_imp_le)
qed

lemma enqueue_waiting:
  assumes a: "mesh_spool_ok s" "waiting tk s es" and q: "list_all (\<lambda>e. te_sequence e < te_sequence x) es"
    and seal: "tk_unseal tk (tk_seal tk draw (envelope_to_dict x)) = Some (envelope_to_dict x)"
    and s: "enqueue_row tk draw now (te_sequence x) (envelope_to_dict x) priority s = (s', 0, n)"
  shows "mesh_spool_ok s'" "waiting tk s' (es @ [x])"
proof -
  show "mesh_spool_ok s'" using enqueue_ok [OF a(1), of tk draw now "te_sequence x" "envelope_to_dict x" priority] s by simp
  define row where "row = \<lparr>sp_sequence = te_sequence x, sp_priority = priority, sp_created_at = now,
      sp_size = tk_length tk (tk_seal tk draw (envelope_to_dict x)), sp_token = tk_seal tk draw (envelope_to_dict x)\<rparr>"
  have m: "map sp_sequence (sort_key sp_sequence (ms_rows s)) = map te_sequence es"
    using a(2) unfolding waiting_def by (induction rule: list_all2_induct) (simp_all add: row_holds_def)
  have "sp_sequence ` set (ms_rows s) = te_sequence ` set es"
    using arg_cong [OF m, of set] by simp
  then have less: "sp_sequence r < te_sequence x" if "r \<in> set (ms_rows s)" for r
  proof -
    have "sp_sequence r \<in> te_sequence ` set es" using \<open>sp_sequence ` set (ms_rows s) = te_sequence ` set es\<close> that by blast
    then show ?thesis using q by (auto simp: list_all_iff)
  qed
  have zero: "snd (make_room (sp_size row) priority (ms_max_bytes s) (ms_rows s)) = 0"
    using s by (auto simp: enqueue_row_def Let_def case_prod_beta row_def)
  have "delete_row (te_sequence x) (ms_rows s) = ms_rows s"
    unfolding delete_row_def by (rule filter_True) (metis less less_irrefl)
  then have rows: "ms_rows s' = ms_rows s @ [row]"
    using s make_room_nothing [OF zero] by (auto simp: enqueue_row_def Let_def case_prod_beta row_def)
  have "sort_key sp_sequence (ms_rows s') = sort_key sp_sequence (ms_rows s) @ [row]"
    unfolding rows by (rule sort_key_last) (use less in \<open>simp add: row_def\<close>)
  then show "waiting tk s' (es @ [x])"
    using a(2) seal by (simp add: waiting_def list_all2_appendI row_holds_def row_def)
qed

text \<open>What \<open>queue\<close> makes of a telemetry payload when the clock reads \<open>now\<close>.\<close>

definition envelope_of :: "mesh_env \<Rightarrow> agent_config \<Rightarrow> string \<Rightarrow> pyval \<Rightarrow> f64 \<Rightarrow> telemetry_envelope result" where
  "envelope_of env cfg kind payload now =
     new_envelope env \<lparr>te_node_id = ac_node_id cfg, te_sequence = ac_next_sequence cfg, te_type = kind, te_payload = payload,
       te_created_at = now, te_version = MESH_PROTOCOL_VERSION, te_digest = [], te_algorithm = DIGEST_ALGORITHM\<rparr>"

lemma envelope_of_fields:
  "envelope_of env cfg kind payload now = Inr e \<Longrightarrow> te_node_id e = ac_node_id cfg \<and> te_sequence e = ac_next_sequence cfg"
  by (auto simp: envelope_of_def new_envelope_def bindE_Inr)

lemma receipts_ok_queue: "receipts_ok node bound es c \<Longrightarrow> te_sequence e = bound \<Longrightarrow> receipts_ok node (bound + 1) (es @ [e]) c"
  unfolding receipts_ok_def by (erule list.pred_mono_strong) auto

lemma receipts_ok_fresh: "receipts_ok node bound es c \<Longrightarrow> receipt_of c node bound = None"
  unfolding receipts_ok_def receipt_of_def by (auto simp: find_None_iff list_all_iff)

theorem queue_ok:
  assumes ok: "link_ok env cenv node l es" and cfg: "ag_config (lk_agent l) = Some cfg"
    and e: "envelope_of (mesh_env.truncate env) cfg kind payload (ae_clock env (ag_ticks (lk_agent l))) = Inr e" "sendable cenv e"
    and seal: "\<And>n. tk_unseal (ae_tokens env) (tk_seal (ae_tokens env) n (envelope_to_dict e)) = Some (envelope_to_dict e)"
    and queue: "on_agent (agent_queue env kind payload priority) l = (l', Inr (q, 0, n))"
  shows "link_ok env cenv node l' (es @ [e]) \<and> final_store cenv node l' (es @ [e]) = stored cenv e (final_store cenv node l es) \<and>
    next_sequence (lk_agent l') = next_sequence (lk_agent l) + 1"
proof -
  let ?a = "lk_agent l"
  have a: "mesh_spool_ok (ag_spool ?a)" "waiting (ae_tokens env) (ag_spool ?a) es" "ac_node_id cfg = node" "ac_controller cfg \<noteq> []" "1 \<le> ac_next_sequence cfg"
    "list_all (\<lambda>e. te_node_id e = node \<and> te_sequence e < ac_next_sequence cfg) es"
    using ok cfg by (auto simp: link_ok_def agent_ok_def)
  have f: "te_node_id e = node" "te_sequence e = ac_next_sequence cfg" using envelope_of_fields [OF e(1)] a(3) by auto
  have node: "node \<noteq> []" using e(2) f(1) by (auto simp: sendable_def good_envelope_def)
  obtain s' d k where s: "enqueue_row (ae_tokens env) (ag_draws ?a) (ae_clock env (ag_ticks ?a + 1)) (te_sequence e) (envelope_to_dict e) priority (ag_spool ?a) = (s', d, k)"
    by (metis prod_cases3)
  have run: "agent_queue env kind payload priority ?a =
      (?a\<lparr>ag_config := Some (cfg\<lparr>ac_next_sequence := ac_next_sequence cfg + 1\<rparr>), ag_spool := s', ag_ticks := ag_ticks ?a + 2, ag_draws := ag_draws ?a + 1\<rparr>,
       Inr (ac_next_sequence cfg, d, k))"
    by (rule queue_run [OF cfg _ a(4,5) e(1) [unfolded envelope_of_def] s [unfolded f(2)]]) (simp add: node a(3))
  then have l': "lk_agent l' = ?a\<lparr>ag_config := Some (cfg\<lparr>ac_next_sequence := ac_next_sequence cfg + 1\<rparr>), ag_spool := s', ag_ticks := ag_ticks ?a + 2, ag_draws := ag_draws ?a + 1\<rparr>"
    "lk_controller l' = lk_controller l" "d = 0"
    using queue by (auto simp: on_agent_def)
  have less: "list_all (\<lambda>x. te_sequence x < te_sequence e) es" using a(6) f(2) by (simp add: list_all_iff)
  have w: "mesh_spool_ok s'" "waiting (ae_tokens env) s' (es @ [e])"
    by (rule enqueue_waiting [OF a(1,2) less seal], rule s [unfolded l'(3)])+
  have next0: "next_sequence ?a = ac_next_sequence cfg" by (simp add: next_sequence_def cfg)
  have bound: "list_all (\<lambda>x. te_node_id x = node \<and> te_sequence x < ac_next_sequence cfg + 1) (es @ [e])"
    using a(6) f by (auto simp: list_all_iff)
  have r: "receipts_ok node (ac_next_sequence cfg) es (lk_controller l)" using ok next0 by (simp add: link_ok_def)
  have "link_ok env cenv node l' (es @ [e])"
    using ok w bound e(2) a(3,4,5) receipts_ok_queue [OF r f(2)]
    by (simp add: link_ok_def agent_ok_def l' next_sequence_def)
  moreover have "final_store cenv node l' (es @ [e]) = stored cenv e (final_store cenv node l es)"
    using receipts_ok_fresh [OF r] f(2) by (simp add: final_store_def l' outstanding_def)
  ultimately show ?thesis by (simp add: next0) (simp add: l' next_sequence_def)
qed

section \<open>Exactly once, in order\<close>

lemma sort_key_empty [simp]: "sort_key f xs = [] \<longleftrightarrow> xs = []"
  by (metis length_0_conv length_sort)


text \<open>
  Any interleaving of queueing with turns of the loop, whose calls may be lost either way; the list is what was queued,
  each time without anything dropped to make room.
\<close>

inductive mesh_run :: "'c agent_env \<Rightarrow> 'st controller_env \<Rightarrow> string \<Rightarrow> ('c, 'st) link \<Rightarrow> telemetry_envelope list \<Rightarrow> ('c, 'st) link \<Rightarrow> bool"
  for env cenv node l where
  start: "mesh_run env cenv node l [] l"
| send: "mesh_run env cenv node l es l1 \<Longrightarrow> flush_step env cenv net node l1 = (l2, res) \<Longrightarrow> mesh_run env cenv node l es l2"
| queue: "mesh_run env cenv node l es l1 \<Longrightarrow> ag_config (lk_agent l1) = Some cfg \<Longrightarrow>
    envelope_of (mesh_env.truncate env) cfg kind payload (ae_clock env (ag_ticks (lk_agent l1))) = Inr e \<Longrightarrow> sendable cenv e \<Longrightarrow>
    on_agent (agent_queue env kind payload priority) l1 = (l2, Inr (q, 0, n)) \<Longrightarrow> mesh_run env cenv node l (es @ [e]) l2"

theorem mesh_run_ok:
  assumes "mesh_run env cenv node l queued l'" and env: "mesh_env.truncate env = mesh_env.truncate cenv"
    and seal: "\<And>n e. tk_unseal (ae_tokens env) (tk_seal (ae_tokens env) n (envelope_to_dict e)) = Some (envelope_to_dict e)"
    and ok: "link_ok env cenv node l es"
  shows "\<exists>es'. link_ok env cenv node l' es' \<and> final_store cenv node l' es' = stored_all cenv queued (final_store cenv node l es)"
  using assms(1)
proof induction
  case start
  then show ?case using ok by auto
next
  case (send queued l1 net l2 res)
  then obtain es1 where es1: "link_ok env cenv node l1 es1" "final_store cenv node l1 es1 = stored_all cenv queued (final_store cenv node l es)" by blast
  from flush_step_ok [OF env es1(1) send.hyps(2)] es1(2) show ?case by auto
next
  case (queue queued l1 cfg kind payload e priority l2 q n)
  then obtain es1 where es1: "link_ok env cenv node l1 es1" "final_store cenv node l1 es1 = stored_all cenv queued (final_store cenv node l es)" by blast
  from queue_ok [OF es1(1) queue.hyps(2,3,4) seal queue.hyps(5)] es1(2) show ?case by (auto intro!: exI [of _ "es1 @ [e]"])
qed

text \<open>When the spool is empty the store holds what was there and all that was queued since, once each and in order.\<close>

theorem exactly_once:
  assumes "mesh_run env cenv node l queued l'" "mesh_env.truncate env = mesh_env.truncate cenv"
    "\<And>n e. tk_unseal (ae_tokens env) (tk_seal (ae_tokens env) n (envelope_to_dict e)) = Some (envelope_to_dict e)"
    "link_ok env cenv node l []" and empty: "ms_rows (ag_spool (lk_agent l')) = []"
  shows "mc_store (lk_controller l') = stored_all cenv queued (mc_store (lk_controller l))"
proof -
  from mesh_run_ok [OF assms(1-4)] obtain es' where es':
    "link_ok env cenv node l' es'" "final_store cenv node l' es' = stored_all cenv queued (final_store cenv node l [])" by blast
  have "es' = []" using es'(1) empty by (auto simp: link_ok_def agent_ok_def waiting_def)
  then show ?thesis using es'(2) by (simp add: final_store_def outstanding_def)
qed

text \<open>A flush over a working connection ends, and empties the spool.\<close>

theorem flush_empties:
  assumes env: "mesh_env.truncate env = mesh_env.truncate cenv" and ok: "link_ok env cenv node l es" and net: "\<And>i. net i = Delivered"
    and fuel: "length es < n"
  shows "\<exists>l'. flush_loop n env cenv net node sent l = (l', Some (Inr (sent + length es))) \<and> ms_rows (ag_spool (lk_agent l')) = [] \<and>
    mc_store (lk_controller l') = final_store cenv node l es"
  using ok fuel
proof (induction n arbitrary: es sent l)
  case (Suc n)
  obtain l1 res where step: "flush_step env cenv net node l = (l1, res)" by fastforce
  from flush_step_ok [OF env Suc.prems(1) step] net obtain es1 where
    1: "link_ok env cenv node l1 es1" "final_store cenv node l1 es1 = final_store cenv node l es" "res = Inr (es \<noteq> [])" "es1 = tl es" by auto
  show ?case
  proof (cases es)
    case Nil
    then have "ms_rows (ag_spool (lk_agent l1)) = []" using 1 by (auto simp: link_ok_def agent_ok_def waiting_def)
    moreover have "mc_store (lk_controller l1) = final_store cenv node l es" using 1 Nil by (simp add: final_store_def outstanding_def)
    ultimately show ?thesis using step 1(3) Nil by auto
  next
    case (Cons e fs)
    from Suc.IH [OF 1(1), of "sent + 1"] Suc.prems(2) 1 Cons step show ?thesis by auto
  qed
qed simp

text \<open>The loop is a run of turns.\<close>

lemma flush_loop_run: "mesh_run env cenv node l es l1 \<Longrightarrow> flush_loop n env cenv net node sent l1 = (l2, res) \<Longrightarrow> mesh_run env cenv node l es l2"
proof (induction n arbitrary: sent l1)
  case (Suc n)
  obtain l3 r where step: "flush_step env cenv net node l1 = (l3, r)" by fastforce
  have "mesh_run env cenv node l es l3" using Suc.prems(1) step by (rule send)
  with Suc.IH Suc.prems(2) step show ?case by (auto split: sum.splits bool.splits)
qed simp

text \<open>What is still in the spool of a run is sent by a flush over a working connection, and then everything has arrived once.\<close>

theorem flush_delivers:
  assumes run: "mesh_run env cenv node l queued l1" and env: "mesh_env.truncate env = mesh_env.truncate cenv"
    and seal: "\<And>n e. tk_unseal (ae_tokens env) (tk_seal (ae_tokens env) n (envelope_to_dict e)) = Some (envelope_to_dict e)"
    and ok: "link_ok env cenv node l []" and named: "node \<noteq> []" and net: "\<And>i. net i = Delivered" and fuel: "count_pending (ag_spool (lk_agent l1)) < n"
  shows "\<exists>l2. flush_once n env cenv net l1 = (l2, Some (Inr (count_pending (ag_spool (lk_agent l1))))) \<and> ms_rows (ag_spool (lk_agent l2)) = [] \<and>
    mc_store (lk_controller l2) = stored_all cenv queued (mc_store (lk_controller l))"
proof -
  from mesh_run_ok [OF run env seal ok] obtain es where es:
    "link_ok env cenv node l1 es" "final_store cenv node l1 es = stored_all cenv queued (final_store cenv node l [])" by blast
  have n: "count_pending (ag_spool (lk_agent l1)) = length es"
    using es(1) by (auto simp: link_ok_def agent_ok_def waiting_def count_pending_def dest: list_all2_lengthD)
  obtain cfg where cfg: "ag_config (lk_agent l1) = Some cfg" "ac_node_id cfg = node" "ac_controller cfg \<noteq> []"
    using es(1) by (auto simp: link_ok_def agent_ok_def)
  have start: "flush_once n env cenv net l1 = flush_loop n env cenv net node 0 l1"
    using cfg named by (simp add: flush_once_def require_config_def bindS_def)
  from flush_empties [OF env es(1), of net n 0] net fuel n es(2) show ?thesis
    by (auto simp: start final_store_def outstanding_def)
qed

section \<open>A link to try things on\<close>

text \<open>An enrolled sensor and its controller, the store a list of what it was asked to keep, and sealing that changes nothing.\<close>

definition example_controller_env :: "store_call list controller_env" where
  "example_controller_env = \<lparr>me_float_text = (\<lambda>_. ''0.0''), me_float_of_text = (\<lambda>_. None), me_str = (\<lambda>_. []),
     me_loads = (\<lambda>b. if b = utf8 ''{}'' then Some (PyDict []) else None), ca_zip = (\<lambda>_. None), ce_clock = (\<lambda>_. 0), ce_uuid = (\<lambda>_. ''id''),
     ce_store = (\<lambda>call kept. (kept @ [call], Inr 1)), ce_valid_csr = (\<lambda>_. True), ce_sign = (\<lambda>_ _ i. i),
     ce_fingerprint = id, ce_not_after = (\<lambda>_. 0)\<rparr>"

definition example_agent_env :: "(string, pyval) dict agent_env" where
  "example_agent_env = mesh_env.extend (mesh_env.truncate example_controller_env)
     \<lparr>ae_tokens = \<lparr>tk_seal = (\<lambda>_ d. d), tk_unseal = Some, tk_length = length\<rparr>, ae_clock = (\<lambda>_. 0),
      ae_daemon = (\<lambda>_ _. Inr []), ae_export = (\<lambda>_ _. Inr (''case'', ''manifest'', [1]))\<rparr>"

definition example_link :: "((string, pyval) dict, store_call list) link" where
  "example_link = \<lparr>
     lk_agent = \<lparr>ag_config = Some \<lparr>ac_node_id = ''n1'', ac_controller = ''host'', ac_next_sequence = 1, ac_flow_after_id = 0,
         ac_observation_after = 0, ac_session_after = 0, ac_alert_after_id = 0, ac_finding_after_id = 0, ac_hardware_after_id = 0,
         ac_completed = []\<rparr>, ag_spool = open_spool 0, ag_ticks = 0, ag_draws = 0\<rparr>,
     lk_controller = \<lparr>mc_ready = True, mc_address = ''host'', mc_nodes = [\<lparr>sn_id = ''n1'', sn_name = ''n1'', sn_fingerprint = None, sn_status = ''online'',
         sn_platform = None, sn_agent_version = None, sn_capabilities = [], sn_health = [], sn_created_at = 0, sn_last_seen_at = 0,
         sn_revoked_at = None, sn_revoke_reason = None\<rparr>], mc_enrollments = [], mc_receipts = [], mc_commands = [], mc_store = [], mc_cases = no_case_files,
         mc_ticks = 0, mc_draws = 0\<rparr>,
     lk_calls = 0\<rparr>"

lemma example_envs: "mesh_env.truncate example_agent_env = mesh_env.truncate example_controller_env"
  "tk_unseal (ae_tokens example_agent_env) (tk_seal (ae_tokens example_agent_env) n d) = Some d"
  by (simp_all add: example_agent_env_def mesh_env.defs)

lemma example_link_ok: "link_ok example_agent_env example_controller_env ''n1'' example_link []"
  by (simp add: link_ok_def agent_ok_def example_link_def open_spool_def mesh_spool_ok_def waiting_def listening_def find_node_def gone_def receipts_ok_def)

text \<open>Its first envelope, of no flows.\<close>

definition example_envelope :: telemetry_envelope where
  "example_envelope = \<lparr>te_node_id = ''n1'', te_sequence = 1, te_type = ''flows'', te_payload = PyDict [], te_created_at = 0,
     te_version = MESH_PROTOCOL_VERSION, te_digest = sha256_hex (utf8 ''{}''), te_algorithm = DIGEST_ALGORITHM\<rparr>"

lemma example_json: "canonical_json_bytes (mesh_env.truncate example_controller_env) (PyDict []) = Inr (utf8 ''{}'')"
  by (simp add: canonical_json_bytes_def)

lemma example_good: "good_envelope (mesh_env.truncate example_controller_env) example_envelope"
  by (simp add: good_envelope_def example_envelope_def payload_hash_def example_json VALID_ENVELOPE_TYPES_def)

lemma example_put: "store_envelope example_controller_env ''n1'' ''flows'' [] kept = (kept @ [StoreFlows []], Inr 0)"
  by (simp add: store_envelope_def items_of_def list_items_def get_or_def Let_def bindS_def example_controller_env_def)

lemma example_stored: "stored_all example_controller_env [example_envelope] [] = [StoreFlows []]"
  by (simp add: stored_def envelope_rows_def example_envelope_def example_put)

lemma example_sendable: "sendable example_controller_env example_envelope"
proof -
  have brief: "length (utf8 ''{}'') \<le> 2 * 1024 * 1024" by (simp add: utf8_def utf8_char_def)
  have "me_loads example_controller_env (utf8 ''{}'') = Some (PyDict [])" by (simp add: example_controller_env_def)
  with brief show ?thesis
    using example_good example_json example_put
    by (simp add: sendable_def envelope_rows_def is_ok_def stored_type_def VALID_ENVELOPE_TYPES_def example_envelope_def)
qed

text \<open>The sensor queues it, and then a flush delivers it.\<close>

lemma example_run: "\<exists>l'. mesh_run example_agent_env example_controller_env ''n1'' example_link [example_envelope] l' \<and>
   count_pending (ag_spool (lk_agent l')) = 1"
proof -
  let ?a = "lk_agent example_link" and ?e = example_envelope
  let ?cfg = "the (ag_config ?a)"
  have e: "envelope_of (mesh_env.truncate example_controller_env) ?cfg ''flows'' (PyDict []) 0 = Inr ?e"
    by (simp add: envelope_of_def new_envelope_def payload_hash_def example_json example_link_def example_envelope_def)
  have "make_room (length (envelope_to_dict ?e)) 0 16777216 ([] :: (string, pyval) dict spool_row list) = ([], 0)"
    by (simp add: make_room.simps bytes_of_def envelope_to_dict_def)
  then have "\<exists>s' n. enqueue_row (ae_tokens example_agent_env) (ag_draws ?a) (ae_clock example_agent_env (ag_ticks ?a + 1)) (ac_next_sequence ?cfg)
      (envelope_to_dict ?e) 0 (ag_spool ?a) = (s', 0, n) \<and> length (ms_rows s') = 1"
    by (simp add: enqueue_row_def example_link_def open_spool_def delete_row_def example_agent_env_def mesh_env.defs Let_def)
  then obtain s' n where s: "enqueue_row (ae_tokens example_agent_env) (ag_draws ?a) (ae_clock example_agent_env (ag_ticks ?a + 1)) (ac_next_sequence ?cfg)
      (envelope_to_dict ?e) 0 (ag_spool ?a) = (s', 0, n)" "length (ms_rows s') = 1" by blast
  have q: "agent_queue example_agent_env ''flows'' (PyDict []) 0 ?a =
    (?a\<lparr>ag_config := Some (?cfg\<lparr>ac_next_sequence := ac_next_sequence ?cfg + 1\<rparr>), ag_spool := s', ag_ticks := ag_ticks ?a + 2, ag_draws := ag_draws ?a + 1\<rparr>,
     Inr (ac_next_sequence ?cfg, 0, n))"
    by (rule queue_run) (use e s in \<open>simp_all add: envelope_of_def example_envs(1)\<close>, simp_all add: example_link_def example_agent_env_def mesh_env.defs)
  let ?l = "example_link\<lparr>lk_agent := fst (agent_queue example_agent_env ''flows'' (PyDict []) 0 ?a)\<rparr>"
  have "mesh_run example_agent_env example_controller_env ''n1'' example_link ([] @ [?e]) ?l"
  proof (rule mesh_run.queue [OF start])
    show "on_agent (agent_queue example_agent_env ''flows'' (PyDict []) 0) example_link = (?l, Inr (ac_next_sequence ?cfg, 0, n))"
      by (simp add: on_agent_def q)
    show "envelope_of (mesh_env.truncate example_agent_env) ?cfg ''flows'' (PyDict []) (ae_clock example_agent_env (ag_ticks ?a)) = Inr ?e"
      using e by (simp add: example_envs(1) example_agent_env_def mesh_env.defs)
  qed (use example_sendable in \<open>simp_all add: example_link_def\<close>)
  moreover have "count_pending (ag_spool (lk_agent ?l)) = 1" using s(2) by (simp add: q count_pending_def)
  ultimately show ?thesis by (intro exI [of _ ?l]) simp
qed

lemma example_run_delivered: "\<exists>l'. mesh_run example_agent_env example_controller_env ''n1'' example_link [example_envelope] l' \<and>
   count_pending (ag_spool (lk_agent l')) = 0"
proof -
  obtain l1 where l1: "mesh_run example_agent_env example_controller_env ''n1'' example_link [example_envelope] l1"
    using example_run by blast
  from mesh_run_ok [OF l1 example_envs(1) example_envs(2) example_link_ok] obtain es where
    es: "link_ok example_agent_env example_controller_env ''n1'' l1 es" by blast
  obtain l2 res where l2: "flush_loop (Suc (length es)) example_agent_env example_controller_env (\<lambda>_. Delivered) ''n1'' 0 l1 = (l2, res)"
    by fastforce
  with flush_empties [OF example_envs(1) es, of "\<lambda>_. Delivered" "Suc (length es)" 0] have "ms_rows (ag_spool (lk_agent l2)) = []" by auto
  then show ?thesis using flush_loop_run [OF l1 l2] by (intro exI [of _ l2]) (simp add: count_pending_def)
qed

end
