(* ===== verification/MeshSafety.thy ===== *)
theory MeshSafety imports MeshDelivery begin

text \<open>
  What holds of the controller whatever it is asked, as a contract (\<open>controller_invariant\<close>) that needs a property to be
  checked only at the eight places where the tables change, and where the mesh falls short of its promise: an
  envelope whose application failed is acknowledged when it is sent again, and exporting a case makes the agent reuse
  sequence numbers.
\<close>

section \<open>Every request to the controller\<close>

datatype controller_call =
    CallCreateEnrollment string "string option" int int string
  | CallEnroll "(string, pyval) dict"
  | CallIngest string "(string, pyval) dict"
  | CallQueueCommand string string "(string, pyval) dict" string int "string option"
  | CallRevoke string string

definition controller_step :: "'st controller_env \<Rightarrow> 'st controller \<Rightarrow> controller_call \<Rightarrow> 'st controller" where
  "controller_step env c call = (case call of
     CallCreateEnrollment token name ttl uses by_whom \<Rightarrow> fst (create_enrollment env token name ttl uses by_whom c)
   | CallEnroll request \<Rightarrow> fst (enroll env request c)
   | CallIngest node payload \<Rightarrow> fst (ingest env node payload c)
   | CallQueueCommand node what arguments by_whom ttl key \<Rightarrow> fst (queue_command env node what arguments by_whom ttl key c)
   | CallRevoke node reason \<Rightarrow> fst (decommission_sensor_node env node reason c))"

definition live_node :: "sensor_node list \<Rightarrow> string \<Rightarrow> bool" where
  "live_node nodes i \<longleftrightarrow> (case find_node i nodes of Some n \<Rightarrow> \<not> gone (sn_status n) | None \<Rightarrow> False)"

text \<open>The node table after an update that makes its node live: nobody else's status or identity changes.\<close>

definition brought_online :: "string \<Rightarrow> sensor_node list \<Rightarrow> sensor_node list \<Rightarrow> bool" where
  "brought_online i nodes nodes' \<longleftrightarrow> unique_nodes nodes' \<and> live_node nodes' i \<and>
     (\<forall>j. j = i \<or> map_option (\<lambda>n. (sn_status n, sn_fingerprint n)) (find_node j nodes') = map_option (\<lambda>n. (sn_status n, sn_fingerprint n)) (find_node j nodes))"

lemma find_node_map:
  "(\<And>n. sn_id n = i \<Longrightarrow> sn_id (f n) = i) \<Longrightarrow> find_node j (map_node i f nodes) = (if j = i then map_option f (find_node j nodes) else find_node j nodes)"
  by (induction nodes) (auto simp: find_node_def map_node_def)

lemma find_node_id: "find_node i nodes = Some n \<Longrightarrow> sn_id n = i"
  by (auto simp: find_node_def find_Some_iff)

lemma find_node_snoc: "find_node i (nodes @ [n]) = (case find_node i nodes of Some m \<Rightarrow> Some m | None \<Rightarrow> if sn_id n = i then Some n else None)"
  by (simp add: find_node_def find_snoc)

lemma online_not_gone [simp]: "\<not> gone ''online''"
  by (simp add: gone_def)

lemma update_node_fields [simp]:
  "sn_id (update_node u now n) = sn_id n" "nu_status u = Some st \<Longrightarrow> sn_status (update_node u now n) = st"
  by (simp_all add: update_node_def)

text \<open>What \<open>upsert_sensor_node\<close> writes when it does not raise.\<close>

lemma upsert_result:
  assumes "nu_status u = Some ''online''"
  shows "fst (upsert_sensor_node env u c) = c\<lparr>mc_ticks := mc_ticks c + 1\<rparr> \<or>
    (\<exists>nodes'. fst (upsert_sensor_node env u c) = c\<lparr>mc_ticks := mc_ticks c + 1, mc_nodes := nodes'\<rparr> \<and> brought_online (nu_id u) (mc_nodes c) nodes')"
proof (cases "find_node (nu_id u) (mc_nodes c)")
  case (Some n)
  let ?row = "update_node u (ce_clock env (mc_ticks c)) n"
  let ?nodes = "map_node (nu_id u) (\<lambda>_. ?row) (mc_nodes c)"
  have i: "sn_id n = nu_id u" by (rule find_node_id [OF Some])
  have "brought_online (nu_id u) (mc_nodes c) ?nodes" if "unique_nodes ?nodes"
    using that assms i Some by (simp add: brought_online_def live_node_def find_node_map)
  then show ?thesis by (auto simp: upsert_sensor_node_def bindS_def clockC_def Some Let_def split: option.splits)
next
  case None
  let ?now = "ce_clock env (mc_ticks c)"
  have renamed: "find_node (nu_id u) ns = None \<and> (\<forall>j. map_option (\<lambda>n. (sn_status n, sn_fingerprint n)) (find_node j ns) =
      map_option (\<lambda>n. (sn_status n, sn_fingerprint n)) (find_node j (mc_nodes c)))"
    if "ns = mc_nodes c \<or> (\<exists>i v. ns = map_node i (sn_name_update (\<lambda>_. v)) (mc_nodes c))" for ns
    using that None by (auto simp: find_node_map option.map_comp o_def)
  have brought: "brought_online (nu_id u) (mc_nodes c) (ns @ [update_node u ?now row])"
    if "unique_nodes (ns @ [update_node u ?now row])" "sn_id row = nu_id u"
      "ns = mc_nodes c \<or> (\<exists>i v. ns = map_node i (sn_name_update (\<lambda>_. v)) (mc_nodes c))" for ns row
  proof -
    let ?all = "ns @ [update_node u ?now row]"
    note r = renamed [OF that(3)]
    have other: "find_node j ?all = find_node j ns" if "j \<noteq> nu_id u" for j
      using that \<open>sn_id row = nu_id u\<close> by (auto simp: find_node_snoc split: option.split)
    have live: "live_node ?all (nu_id u)" using r that(2) assms by (simp add: live_node_def find_node_snoc)
    show ?thesis unfolding brought_online_def
    proof (intro conjI allI)
      fix j
      show "j = nu_id u \<or> map_option (\<lambda>n. (sn_status n, sn_fingerprint n)) (find_node j ?all) =
          map_option (\<lambda>n. (sn_status n, sn_fingerprint n)) (find_node j (mc_nodes c))"
        using other [of j] r by (cases "j = nu_id u") simp_all
    qed (rule that(1), rule live)
  qed
  have plain: "unique_nodes (mc_nodes c @ [update_node u ?now row]) \<Longrightarrow> sn_id row = nu_id u \<Longrightarrow>
      brought_online (nu_id u) (mc_nodes c) (mc_nodes c @ [update_node u ?now row])" for row
    by (rule brought) auto
  have retired: "unique_nodes (map_node i (sn_name_update (\<lambda>_. v)) (mc_nodes c) @ [update_node u ?now row]) \<Longrightarrow> sn_id row = nu_id u \<Longrightarrow>
      brought_online (nu_id u) (mc_nodes c) (map_node i (sn_name_update (\<lambda>_. v)) (mc_nodes c) @ [update_node u ?now row])" for i v row
    by (rule brought) auto
  show ?thesis using plain retired by (auto simp: upsert_sensor_node_def bindS_def clockC_def None Let_def split: option.splits)
qed

locale controller_invariant =
  fixes I :: "'st controller \<Rightarrow> bool" and A :: "string \<Rightarrow> bool"
  assumes refused: "I c \<Longrightarrow> \<not> A i \<Longrightarrow> \<not> live_node (mc_nodes c) i"
    and ticks: "I c \<Longrightarrow> I (c\<lparr>mc_ticks := t\<rparr>)"
    and draws: "I c \<Longrightarrow> I (c\<lparr>mc_draws := t\<rparr>)"
    and store: "I c \<Longrightarrow> I (c\<lparr>mc_store := st\<rparr>)"
    and cases: "I c \<Longrightarrow> approved = case_approved i h (mc_commands c) \<Longrightarrow>
      I (c\<lparr>mc_cases := fst (receive_case_part env approved i payload (mc_cases c))\<rparr>)"
    and receipt: "I c \<Longrightarrow> receipt_of c (mr_node r) (mr_sequence r) = None \<Longrightarrow> I (c\<lparr>mc_receipts := mc_receipts c @ [r]\<rparr>)"
    and enrollment: "I c \<Longrightarrow> en_used_count en = 0 \<Longrightarrow> 1 \<le> en_max_uses en \<Longrightarrow> en_max_uses en \<le> 10 \<Longrightarrow> I (c\<lparr>mc_enrollments := mc_enrollments c @ [en]\<rparr>)"
    and use: "I c \<Longrightarrow> I (c\<lparr>mc_enrollments := map (\<lambda>r. if consumable h now r then r\<lparr>en_used_count := en_used_count r + 1\<rparr> else r) (mc_enrollments c)\<rparr>)"
    and online: "I c \<Longrightarrow> A i \<Longrightarrow> brought_online i (mc_nodes c) nodes \<Longrightarrow> I (c\<lparr>mc_nodes := nodes\<rparr>)"
    and offline: "I c \<Longrightarrow> I (c\<lparr>
        mc_nodes := map_node i (\<lambda>n. n\<lparr>sn_status := ''decommissioned'', sn_revoked_at := Some now, sn_revoke_reason := Some reason\<rparr>) (mc_nodes c),
        mc_commands := map (\<lambda>m. if cm_node m = i \<and> cm_status m = ''queued''
          then m\<lparr>cm_status := ''rejected'', cm_result := Some [(''reason'', PyStr ''node_decommissioned'')], cm_completed_at := Some now\<rparr> else m) (mc_commands c)\<rparr>)"
    and command: "I c \<Longrightarrow> live_node (mc_nodes c) (cm_node m) \<Longrightarrow> I (c\<lparr>mc_commands := mc_commands c @ [m]\<rparr>)"
    and complete: "I c \<Longrightarrow> cm_status m' \<noteq> ''queued'' \<Longrightarrow> I (c\<lparr>mc_commands := map (\<lambda>q. if cm_id q = i then m' else q) (mc_commands c)\<rparr>)"
begin

lemma keeps_clock: "keeps I (clockC env)"
  by (auto simp: clockC_def ticks)

lemma keeps_uuid: "keeps I (uuidC env)"
  by (auto simp: uuidC_def draws)

lemmas keeps_rules = kept_bind keeps_clock keeps_uuid kept_basic

lemma keeps_pending: "keeps I (pending_mesh_commands env node)"
  unfolding pending_mesh_commands_def by (intro keeps_rules)

lemma keeps_get: "keeps I (get_sensor_node i)"
  unfolding get_sensor_node_def by (rule kept_basic)

lemma keeps_receipt: "keeps I (record_mesh_receipt env node q kind hash)"
proof (rule keptI)
  fix c assume c: "I c"
  show "I (fst (record_mesh_receipt env node q kind hash c))"
    using receipt [OF ticks [OF c, of "mc_ticks c + 1"]] c
    by (auto simp: record_mesh_receipt_def bindS_def clockC_def receipt_of_def split: option.split)
qed

lemma keeps_decommission: "keeps I (decommission_sensor_node env i reason)"
proof (rule keptI)
  fix c assume c: "I c"
  show "I (fst (decommission_sensor_node env i reason c))"
    using offline [OF ticks [OF c, of "mc_ticks c + 1"]] c
    by (auto simp: decommission_sensor_node_def get_sensor_node_def bindS_def clockC_def split: option.split)
qed

lemma keeps_create: "1 \<le> uses \<Longrightarrow> uses \<le> 10 \<Longrightarrow> keeps I (create_mesh_enrollment env i hash t name uses by_whom)"
proof (rule keptI)
  fix c assume "1 \<le> uses" "uses \<le> 10" and c: "I c"
  then show "I (fst (create_mesh_enrollment env i hash t name uses by_whom c))"
    using enrollment [OF ticks [OF c, of "mc_ticks c + 1"]] by (auto simp: create_mesh_enrollment_def bindS_def clockC_def Let_def)
qed

lemma keeps_usable: "keeps I (mesh_enrollment_usable env hash)"
  unfolding mesh_enrollment_usable_def by (intro keeps_rules) (auto split: option.split intro!: keeps_rules)

lemma keeps_consume: "keeps I (consume_mesh_enrollment env hash)"
proof (rule keptI)
  fix c assume c: "I c"
  show "I (fst (consume_mesh_enrollment env hash c))"
    using use [OF ticks [OF c, of "mc_ticks c + 1"]] ticks [OF c, of "mc_ticks c + 1"]
    by (auto simp: consume_mesh_enrollment_def bindS_def clockC_def)
qed

lemma keeps_complete: "keeps I (complete_mesh_command env i status outcome node)"
proof (rule keptI)
  fix c assume c: "I c"
  show "I (fst (complete_mesh_command env i status outcome node c))"
    using complete [OF ticks [OF c, of "mc_ticks c + 1"]] c
    by (auto simp: complete_mesh_command_def bindS_def clockC_def Let_def guardE_def split: option.split)
qed

lemma keeps_upsert: "nu_status u = Some ''online'' \<Longrightarrow> A (nu_id u) \<Longrightarrow> keeps I (upsert_sensor_node env u)"
proof (rule keptI)
  fix c assume u: "nu_status u = Some ''online''" "A (nu_id u)" and c: "I c"
  from upsert_result [OF u(1), of env c] show "I (fst (upsert_sensor_node env u c))"
    using ticks [OF c, of "mc_ticks c + 1"] online [OF ticks [OF c, of "mc_ticks c + 1"] u(2)] by auto
qed

lemma keeps_health: "A i \<Longrightarrow> keeps I (update_sensor_node_health env i health capabilities)"
  unfolding update_sensor_node_health_def
  by (intro keeps_rules keeps_get) (auto split: option.split intro!: keeps_rules keeps_upsert)

lemma keeps_item: "keeps I (complete_item env node row)"
  unfolding complete_item_def Let_def by (cases row) (auto intro!: keeps_rules keeps_complete)

lemma keeps_store: "keeps I (\<lambda>c. case f (mc_store c) of (st', res) \<Rightarrow> (c\<lparr>mc_store := st'\<rparr>, res))"
  by (auto simp: case_prod_beta store)

lemma keeps_case_bundle: "keeps I (ingest_case_bundle env node payload)"
  by (auto simp: ingest_case_bundle_def Let_def case_prod_beta intro!: cases)

lemma keeps_apply: "A node \<Longrightarrow> keeps I (apply_envelope env node e)"
  unfolding apply_envelope_def
  by (cases "te_payload e") (auto intro!: keeps_rules keeps_health kept_for keeps_item keeps_decommission keeps_store keeps_case_bundle)

lemma keeps_ingest: "keeps I (ingest env node payload)"
proof (cases "A node")
  case True
  then show ?thesis
    unfolding ingest_def
    by (intro keeps_rules keeps_get keeps_receipt) (auto split: receipt_result.split intro!: keeps_rules keeps_pending keeps_apply)
next
  case False
  show ?thesis
  proof (rule keptI)
    fix c assume "I c"
    with refused [OF this False] show "I (fst (ingest env node payload c))"
      by (auto simp: ingest_def get_sensor_node_def live_node_def split: option.splits)
  qed
qed

lemma keeps_enroll: "A (text_at (mesh_env.truncate env) request ''node_id'') \<Longrightarrow> keeps I (enroll env request)"
proof -
  assume "A (text_at (mesh_env.truncate env) request ''node_id'')"
  have draw: "keeps I (changeS (\<lambda>c. c\<lparr>mc_draws := d\<rparr>))" for d by (auto simp: draws)
  show ?thesis
    unfolding enroll_def Let_def
    by (intro keeps_rules keeps_usable keeps_consume) (auto split: option.split intro!: keeps_rules draw keeps_upsert \<open>A _\<close>)
qed

lemma keeps_create_enrollment: "keeps I (create_enrollment env token name ttl uses by_whom)"
  unfolding create_enrollment_def by (intro keeps_rules keeps_create) auto

lemma keeps_queue_command: "keeps I (queue_command env node what arguments by_whom ttl key)"
proof -
  have insert: "I (fst (queue_mesh_command env i node what arguments expires k by_whom c))"
    if "I c" "live_node (mc_nodes c) node" for i expires k and c :: "'st controller"
  proof -
    let ?c1 = "c\<lparr>mc_draws := mc_draws c + 1\<rparr>"
    have "I (d\<lparr>mc_ticks := mc_ticks d + 1, mc_commands := mc_commands d @ [m]\<rparr>)"
      if "I d" "mc_nodes d = mc_nodes c" "cm_node m = node" for d :: "'st controller" and m
      using command [of "d\<lparr>mc_ticks := mc_ticks d + 1\<rparr>" m] ticks [OF that(1)] \<open>live_node (mc_nodes c) node\<close> that by simp
    from this [OF \<open>I c\<close>] this [OF draws [OF \<open>I c\<close>, of "mc_draws c + 1"]] show ?thesis
      using \<open>I c\<close> by (auto simp: queue_mesh_command_def bindS_def uuidC_def clockC_def Let_def split: option.split)
  qed
  show ?thesis
  proof (rule keptI)
    fix c :: "'st controller" assume c: "I c"
    show "I (fst (queue_command env node what arguments by_whom ttl key c))"
    proof (cases "what \<in> set ALLOWED_COMMANDS \<and> live_node (mc_nodes c) node")
      case True
      then have "(case find_node node (mc_nodes c) of None \<Rightarrow> False | Some n \<Rightarrow> \<not> gone (sn_status n))" by (simp add: live_node_def split: option.splits)
      then show ?thesis
        using True c insert [OF ticks [OF draws [OF c]]]
        by (cases "json_text (me_float_text env) True False None (PyDict arguments)")
          (auto simp: queue_command_def get_sensor_node_def bindS_def uuidC_def clockC_def Let_def split: option.splits)
    qed (use c in \<open>auto simp: queue_command_def get_sensor_node_def live_node_def split: option.splits\<close>)
  qed
qed

text \<open>So the property holds after every sequence of requests, enrolments being of nodes that \<open>A\<close> allows.\<close>

definition allowed :: "'st controller_env \<Rightarrow> controller_call \<Rightarrow> bool" where
  "allowed env call = (case call of CallEnroll request \<Rightarrow> A (text_at (mesh_env.truncate env) request ''node_id'') | _ \<Rightarrow> True)"

lemma allowed_list:
  "list_all (\<lambda>call. case call of CallEnroll request \<Rightarrow> A (text_at (mesh_env.truncate env) request ''node_id'') | _ \<Rightarrow> True) calls \<Longrightarrow>
     list_all (allowed env) calls"
  by (simp add: allowed_def [abs_def])

lemma allowed_all: "(\<And>i. A i) \<Longrightarrow> list_all (allowed env) calls"
  by (simp add: list_all_iff allowed_def split: controller_call.split)

lemma step_keeps: "I c \<Longrightarrow> allowed env call \<Longrightarrow> I (controller_step env c call)"
  unfolding controller_step_def
  by (cases call) (simp_all add: allowed_def keptD keeps_create_enrollment keeps_enroll keeps_ingest keeps_queue_command keeps_decommission)

lemma run_keeps: "I c \<Longrightarrow> list_all (allowed env) calls \<Longrightarrow> I (foldl (controller_step env) c calls)"
  by (induction calls arbitrary: c) (simp_all add: step_keeps)

end

section \<open>Receipts, uses of a token, commands\<close>

definition receipts_unique :: "'st controller \<Rightarrow> bool" where
  "receipts_unique c \<longleftrightarrow> distinct (map (\<lambda>r. (mr_node r, mr_sequence r)) (mc_receipts c))"

definition uses_bounded :: "'st controller \<Rightarrow> bool" where
  "uses_bounded c \<longleftrightarrow> list_all (\<lambda>r. 0 \<le> en_used_count r \<and> en_used_count r \<le> en_max_uses r \<and> en_max_uses r \<le> 10) (mc_enrollments c)"

definition commands_live :: "'st controller \<Rightarrow> bool" where
  "commands_live c \<longleftrightarrow> list_all (\<lambda>m. cm_status m \<noteq> ''queued'' \<or> live_node (mc_nodes c) (cm_node m)) (mc_commands c)"

interpretation one_receipt: controller_invariant receipts_unique "\<lambda>_. True"
  by unfold_locales (auto simp: receipts_unique_def receipt_of_def find_None_iff)

interpretation uses: controller_invariant uses_bounded "\<lambda>_. True"
  by unfold_locales (auto simp: uses_bounded_def list_all_iff consumable_def)

lemma live_node_view:
  "live_node nodes j = (case map_option (\<lambda>n. (sn_status n, sn_fingerprint n)) (find_node j nodes) of None \<Rightarrow> False | Some v \<Rightarrow> \<not> gone (fst v))"
  by (simp add: live_node_def split: option.split)

lemma brought_online_other: "brought_online i nodes nodes' \<Longrightarrow> j \<noteq> i \<Longrightarrow> live_node nodes' j = live_node nodes j"
proof -
  assume "brought_online i nodes nodes'" "j \<noteq> i"
  then have "map_option (\<lambda>n. (sn_status n, sn_fingerprint n)) (find_node j nodes') = map_option (\<lambda>n. (sn_status n, sn_fingerprint n)) (find_node j nodes)"
    unfolding brought_online_def by blast
  then show ?thesis by (simp only: live_node_view)
qed

lemma brought_online_live: "brought_online i nodes nodes' \<Longrightarrow> live_node nodes j \<Longrightarrow> live_node nodes' j"
  using brought_online_other [of i nodes nodes' j] by (cases "j = i") (simp_all add: brought_online_def)

interpretation live_commands: controller_invariant commands_live "\<lambda>_. True"
proof unfold_locales
  fix c :: "'st controller" and i nodes assume "commands_live c" "brought_online i (mc_nodes c) nodes"
  then show "commands_live (c\<lparr>mc_nodes := nodes\<rparr>)"
    by (auto simp: commands_live_def list_all_iff dest: brought_online_live)
next
  fix c :: "'st controller" and i now reason assume "commands_live c"
  then show "commands_live (c\<lparr>
        mc_nodes := map_node i (\<lambda>n. n\<lparr>sn_status := ''decommissioned'', sn_revoked_at := Some now, sn_revoke_reason := Some reason\<rparr>) (mc_nodes c),
        mc_commands := map (\<lambda>m. if cm_node m = i \<and> cm_status m = ''queued''
          then m\<lparr>cm_status := ''rejected'', cm_result := Some [(''reason'', PyStr ''node_decommissioned'')], cm_completed_at := Some now\<rparr> else m) (mc_commands c)\<rparr>)"
    by (auto simp: commands_live_def list_all_iff live_node_def find_node_map)
qed (auto simp: commands_live_def list_all_iff)

text \<open>A node that is gone stays gone until it is enrolled again.\<close>

interpretation gone: controller_invariant "\<lambda>c. \<not> live_node (mc_nodes c) i" "\<lambda>j. j \<noteq> i" for i
proof unfold_locales
  fix c :: "'st controller" and j nodes assume "\<not> live_node (mc_nodes c) i" "j \<noteq> i" "brought_online j (mc_nodes c) nodes"
  then show "\<not> live_node (mc_nodes (c\<lparr>mc_nodes := nodes\<rparr>)) i"
    using brought_online_other [of j "mc_nodes c" nodes i] by simp
next
  fix c :: "'st controller" and j now reason assume "\<not> live_node (mc_nodes c) i"
  then show "\<not> live_node (mc_nodes (c\<lparr>
        mc_nodes := map_node j (\<lambda>n. n\<lparr>sn_status := ''decommissioned'', sn_revoked_at := Some now, sn_revoke_reason := Some reason\<rparr>) (mc_nodes c),
        mc_commands := map (\<lambda>m. if cm_node m = j \<and> cm_status m = ''queued''
          then m\<lparr>cm_status := ''rejected'', cm_result := Some [(''reason'', PyStr ''node_decommissioned'')], cm_completed_at := Some now\<rparr> else m) (mc_commands c)\<rparr>)) i"
    by (auto simp: live_node_def find_node_map gone_def split: option.splits)
qed simp_all

lemma ingest_refused: "\<not> live_node (mc_nodes c) i \<Longrightarrow> ingest env i payload c = (c, Inl (PermissionError ''Mesh node is not enrolled or has been revoked''))"
  by (auto simp: ingest_def get_sensor_node_def live_node_def split: option.splits)

lemma decommission_gone: "\<not> live_node (mc_nodes (fst (decommission_sensor_node env i reason c))) i"
  by (auto simp: decommission_sensor_node_def get_sensor_node_def bindS_def clockC_def live_node_def find_node_map gone_def split: option.splits)

theorem revoked_node_refused:
  assumes "list_all (gone.allowed i env) calls"
  shows "let c' = foldl (controller_step env) (controller_step env c (CallRevoke i reason)) calls in
    ingest env i payload c' = (c', Inl (PermissionError ''Mesh node is not enrolled or has been revoked''))"
proof -
  have "\<not> live_node (mc_nodes (controller_step env c (CallRevoke i reason))) i" by (simp add: controller_step_def decommission_gone)
  from ingest_refused [OF gone.run_keeps [OF this assms]] show ?thesis by (simp add: Let_def)
qed

section \<open>Where an envelope is lost\<close>

text \<open>
  The receipt is written before the envelope is applied.  When applying it raises, the sensor is told so and sends the
  envelope again, and is then told that it has been received: nothing applies it any more.
\<close>

theorem failed_then_acknowledged:
  assumes e: "good_envelope (mesh_env.truncate cenv) e" "stored_type (te_type e)" and l: "listening (te_node_id e) c"
    and r: "receipt_of c (te_node_id e) (te_sequence e) = None" and st: "store_envelope cenv (te_node_id e) (te_type e) (envelope_rows e) (mc_store c) = (st', Inl failure)"
  shows "\<exists>c1 c2. ingest cenv (te_node_id e) (envelope_to_dict e) c = (c1, Inl failure) \<and>
    ingest cenv (te_node_id e) (envelope_to_dict e) c1 =
      (c2, Inr \<lparr>ir_ack = te_sequence e, ir_duplicate = True, ir_applied = None, ir_commands = []\<rparr>) \<and> mc_store c2 = st'"
proof -
  obtain n where n: "find_node (te_node_id e) (mc_nodes c) = Some n" "\<not> gone (sn_status n)" using l by (auto simp: listening_def)
  obtain d where d: "te_payload e = PyDict d" using e by (auto simp: good_envelope_def)
  let ?c2 = "c\<lparr>mc_ticks := Suc (mc_ticks c), mc_receipts := mc_receipts c @ [receipt_for e (ce_clock cenv (mc_ticks c))]\<rparr>"
  let ?c3 = "?c2\<lparr>mc_store := st'\<rparr>"
  have first: "record_mesh_receipt cenv (te_node_id e) (te_sequence e) (te_type e) (te_digest e) c = (?c2, Inr Accepted)"
    using r by (simp add: record_mesh_receipt_def bindS_def clockC_def receipt_of_def receipt_for_def)
  have again: "record_mesh_receipt cenv (te_node_id e) (te_sequence e) (te_type e) (te_digest e) ?c3 = (?c3, Inr Duplicate)"
    using r by (simp add: record_mesh_receipt_def receipt_of_def receipt_for_def find_snoc)
  have applying: "apply_envelope cenv (te_node_id e) e ?c2 = (?c3, Inl failure)"
    using e(2) st d by (simp add: apply_envelope_def stored_type_def envelope_rows_def)
  have reread: "envelope_from_dict (mesh_env.truncate cenv) (envelope_to_dict e) = Inr e" by (rule envelope_read_back [OF e(1)])
  have "ingest cenv (te_node_id e) (envelope_to_dict e) c = (?c3, Inl failure)"
    using n by (simp add: ingest_def get_sensor_node_def reread bindS_def first applying)
  moreover have "ingest cenv (te_node_id e) (envelope_to_dict e) ?c3 =
      (?c3\<lparr>mc_ticks := mc_ticks ?c3 + 1\<rparr>, Inr \<lparr>ir_ack = te_sequence e, ir_duplicate = True, ir_applied = None, ir_commands = []\<rparr>)"
    using n l by (simp add: ingest_def get_sensor_node_def reread bindS_def again pending_none)
  ultimately show ?thesis by (intro exI [of _ ?c3] exI [of _ "?c3\<lparr>mc_ticks := mc_ticks ?c3 + 1\<rparr>"]) simp
qed

text \<open>
  \<open>_handle_commands\<close> reads the configuration before it runs the commands and writes its copy back afterwards.  Exporting
  a case queues envelopes in between, so the counter goes back to where it was: the results are queued under the number
  of the first part of the case, and \<open>INSERT OR REPLACE\<close> removes that part.
\<close>

lemma json_text_dict_ok:
  "list_all (\<lambda>(k, v). is_ok (json_text ft ascii strict other v)) d \<Longrightarrow> is_ok (json_text ft ascii strict other (PyDict d))"
proof -
  assume d: "list_all (\<lambda>(k, v). is_ok (json_text ft ascii strict other v)) d"
  have "is_ok (mapE (\<lambda>(k, v). bindE (json_text ft ascii strict other v) (\<lambda>t. Inr (json_quoted ascii k @ '':'' @ t))) (sort_key fst d))"
    by (rule mapE_ok) (use d in \<open>auto simp: list_all_iff is_ok_iff\<close>)
  then show ?thesis by (auto simp: is_ok_iff)
qed

lemma payload_hash_ok: "is_ok (json_text (me_float_text env) False True None v) \<Longrightarrow> \<exists>h. payload_hash env v = Inr h"
  by (auto simp: payload_hash_def canonical_json_bytes_def is_ok_iff)

lemma enqueue_row_new:
  "\<exists>r \<in> set (ms_rows (fst (enqueue_row env draw now q payload priority s))). sp_sequence r = q"
  "r \<in> set (ms_rows (fst (enqueue_row env draw now q payload priority s))) \<Longrightarrow> sp_sequence r = q \<Longrightarrow> sp_token r = tk_seal env draw payload"
  by (auto simp: enqueue_row_def Let_def case_prod_beta)

lemma queue_result:
  assumes cfg: "ag_config a = Some cfg" "ac_node_id cfg \<noteq> []" "ac_controller cfg \<noteq> []" "1 \<le> ac_next_sequence cfg"
    and ok: "is_ok (json_text (me_float_text env) False True None payload)"
  obtains e s' where "envelope_of (mesh_env.truncate env) cfg kind payload (ae_clock env (ag_ticks a)) = Inr e"
    "s' = fst (enqueue_row (ae_tokens env) (ag_draws a) (ae_clock env (ag_ticks a + 1)) (ac_next_sequence cfg) (envelope_to_dict e) priority (ag_spool a))"
    "fst (agent_queue env kind payload priority a) =
       a\<lparr>ag_config := Some (cfg\<lparr>ac_next_sequence := ac_next_sequence cfg + 1\<rparr>), ag_spool := s', ag_ticks := ag_ticks a + 2, ag_draws := ag_draws a + 1\<rparr>"
    "is_ok (snd (agent_queue env kind payload priority a))"
proof -
  obtain h where "payload_hash (mesh_env.truncate env) payload = Inr h"
    using payload_hash_ok [of "mesh_env.truncate env" payload] ok by (auto simp: mesh_env.truncate_def)
  then obtain e where e: "envelope_of (mesh_env.truncate env) cfg kind payload (ae_clock env (ag_ticks a)) = Inr e"
    by (simp add: envelope_of_def new_envelope_def)
  obtain s' status where s: "enqueue_row (ae_tokens env) (ag_draws a) (ae_clock env (ag_ticks a + 1)) (ac_next_sequence cfg) (envelope_to_dict e) priority (ag_spool a) = (s', status)"
    by (metis surj_pair)
  from queue_run [OF cfg e [unfolded envelope_of_def] s] e s show thesis by (intro that [of e s']) simp_all
qed

theorem case_part_replaced:
  assumes cfg: "ag_config a = Some cfg" "ac_node_id cfg \<noteq> []" "ac_controller cfg \<noteq> []" "1 \<le> ac_next_sequence cfg"
    and m: "cm_id m \<noteq> []" "cm_action m = ''case.export''" "dict_get (ac_completed cfg) (cm_id m) = None"
      "text_at (mesh_env.truncate env) (cm_arguments m) ''ip'' \<noteq> []"
    and export: "ae_export env (text_at (mesh_env.truncate env) (cm_arguments m) ''ip'') (cm_arguments m) = Inr (bundle, manifest, archive)"
      "archive \<noteq> []" "length archive \<le> CASE_CHUNK_BYTES"
    and run: "handle_commands env [m] a = (a', res)" "agent_queue env ''command_results'' (PyDict [(''items'', PyList items)]) 20 a' = (a'', res'')"
      "is_ok (json_text (me_float_text env) False True None (PyDict [(''items'', PyList items)]))"
  shows "next_sequence a' = next_sequence a" "\<exists>r \<in> set (ms_rows (ag_spool a')). sp_sequence r = next_sequence a'"
    "\<exists>token. \<forall>r \<in> set (ms_rows (ag_spool a'')). if sp_sequence r = next_sequence a then sp_token r = token else True"
    "next_sequence a'' = next_sequence a + 1"
proof -
  have one: "chunks_of CASE_CHUNK_BYTES archive = [archive]"
    using export(2,3) by (subst chunks_of.simps, subst chunks_of.simps) (simp add: CASE_CHUNK_BYTES_def)
  have small: "length archive \<le> MAX_CASE_BUNDLE_BYTES" using export(3) by (simp add: CASE_CHUNK_BYTES_def MAX_CASE_BUNDLE_BYTES_def)
  define payload where "payload = chunk_payload (cm_id m) (cm_id m @ ''-'' @ take 16 (sha256_hex archive)) bundle manifest (sha256_hex archive) 1 (0, archive)"
  have ok: "is_ok (json_text (me_float_text env) False True None payload)"
    unfolding payload_def chunk_payload_def prod.case by (rule json_text_dict_ok) simp
  from queue_result [OF cfg ok, of "''case_bundle''" 20] obtain e s1 where
    s1: "s1 = fst (enqueue_row (ae_tokens env) (ag_draws a) (ae_clock env (ag_ticks a + 1)) (ac_next_sequence cfg) (envelope_to_dict e) 20 (ag_spool a))"
    and q: "fst (agent_queue env ''case_bundle'' payload 20 a) =
      a\<lparr>ag_config := Some (cfg\<lparr>ac_next_sequence := ac_next_sequence cfg + 1\<rparr>), ag_spool := s1, ag_ticks := ag_ticks a + 2, ag_draws := ag_draws a + 1\<rparr>"
      "is_ok (snd (agent_queue env ''case_bundle'' payload 20 a))" by blast
  then obtain status where q1: "agent_queue env ''case_bundle'' payload 20 a =
      (a\<lparr>ag_config := Some (cfg\<lparr>ac_next_sequence := ac_next_sequence cfg + 1\<rparr>), ag_spool := s1, ag_ticks := ag_ticks a + 2, ag_draws := ag_draws a + 1\<rparr>, Inr status)"
    by (metis is_ok_iff prod.collapse)
  have "\<exists>transfer. queue_case_bundle env (cm_id m) bundle manifest archive a =
      (a\<lparr>ag_config := Some (cfg\<lparr>ac_next_sequence := ac_next_sequence cfg + 1\<rparr>), ag_spool := s1, ag_ticks := ag_ticks a + 2, ag_draws := ag_draws a + 1\<rparr>, Inr transfer)"
    using small export(2) q1 by (simp add: queue_case_bundle_def one bindS_def Let_def payload_def)
  then obtain transfer where t: "queue_case_bundle env (cm_id m) bundle manifest archive a =
      (a\<lparr>ag_config := Some (cfg\<lparr>ac_next_sequence := ac_next_sequence cfg + 1\<rparr>), ag_spool := s1, ag_ticks := ag_ticks a + 2, ag_draws := ag_draws a + 1\<rparr>, Inr transfer)" by blast
  have a': "ag_config a' = Some (cfg\<lparr>ac_completed := ac_completed (the (ag_config a'))\<rparr>) \<and> ag_spool a' = s1"
    using run(1) cfg m export(1) t
    by (simp add: handle_commands_def require_config_def run_command_def write_config_def bindS_def catchS_def Let_def) auto
  then obtain cfg' where cfg': "ag_config a' = Some cfg'" "ac_next_sequence cfg' = ac_next_sequence cfg" "ac_node_id cfg' \<noteq> []" "ac_controller cfg' \<noteq> []"
    using cfg by (metis agent_config.select_convs agent_config.surjective agent_config.update_convs(10))
  show n: "next_sequence a' = next_sequence a" by (simp add: next_sequence_def cfg' cfg)
  show "\<exists>r \<in> set (ms_rows (ag_spool a')). sp_sequence r = next_sequence a'"
    using enqueue_row_new(1) a' s1 by (simp add: next_sequence_def cfg')
  have "1 \<le> ac_next_sequence cfg'" using cfg cfg' by simp
  from queue_result [OF cfg'(1,3,4) this run(3), of "''command_results''" 20] obtain e2 s2 where
    s2: "s2 = fst (enqueue_row (ae_tokens env) (ag_draws a') (ae_clock env (ag_ticks a' + 1)) (ac_next_sequence cfg') (envelope_to_dict e2) 20 (ag_spool a'))"
    "a'' = a'\<lparr>ag_config := Some (cfg'\<lparr>ac_next_sequence := ac_next_sequence cfg' + 1\<rparr>), ag_spool := s2, ag_ticks := ag_ticks a' + 2, ag_draws := ag_draws a' + 1\<rparr>"
    using run(2) by (metis fst_conv)
  show "\<exists>token. \<forall>r \<in> set (ms_rows (ag_spool a'')). if sp_sequence r = next_sequence a then sp_token r = token else True"
    by (intro exI [of _ "tk_seal (ae_tokens env) (ag_draws a') (envelope_to_dict e2)"])
      (use enqueue_row_new(2) s2 cfg'(2) cfg(1) in \<open>auto simp: next_sequence_def\<close>)
  show "next_sequence a'' = next_sequence a + 1" using s2(2) cfg'(2) cfg(1) by (simp add: next_sequence_def)
qed

end
