(* ===== verification/MeshCases.thy ===== *)
theory MeshCases imports MeshSafety begin

text \<open>
  A case from the sensor that exports it to the controller that imports it: the parts \<open>_queue_case_bundle\<close> makes are
  put together again by \<open>_ingest_case_bundle\<close>, in whatever order and however often they arrive; what the
  controller stores stays inside the case's folder, whatever it is sent; and why an archive as
  \<open>shutil.make_archive\<close> writes it is refused all the same.
\<close>

section \<open>Cutting an archive up\<close>

lemma chunks_of_simps: "chunks_of n [] = []" "xs \<noteq> [] \<Longrightarrow> n \<noteq> 0 \<Longrightarrow> chunks_of n xs = take n xs # chunks_of n (drop n xs)"
  by (subst chunks_of.simps, simp)+

lemma chunks_of_bound: "c \<in> set (chunks_of n xs) \<Longrightarrow> length c \<le> n"
  by (induction n xs rule: chunks_of.induct) (subst (asm) chunks_of.simps, auto split: if_splits)

lemma concat_chunks_of: "n \<noteq> 0 \<Longrightarrow> concat (chunks_of n xs) = xs"
proof (induction n xs rule: chunks_of.induct)
  case (1 n xs)
  then show ?case by (cases "xs = []") (simp_all add: chunks_of_simps)
qed

lemma length_chunks_of: "n \<noteq> 0 \<Longrightarrow> length xs \<le> k * n \<Longrightarrow> length (chunks_of n xs) \<le> k"
proof (induction n xs arbitrary: k rule: chunks_of.induct)
  case (1 n xs)
  show ?case
  proof (cases "xs = []")
    case False
    with 1(3) obtain j where k: "k = Suc j" by (cases k) auto
    then show ?thesis using 1(1) [of j] 1(2,3) False by (simp add: chunks_of_simps)
  qed (simp add: chunks_of_simps)
qed

definition case_chunks :: "bytes \<Rightarrow> bytes list" where
  "case_chunks archive = (if archive = [] then [[]] else chunks_of CASE_CHUNK_BYTES archive)"

lemma case_chunks: "concat (case_chunks archive) = archive" "case_chunks archive \<noteq> []"
  "c \<in> set (case_chunks archive) \<Longrightarrow> length c \<le> CASE_CHUNK_BYTES"
  using concat_chunks_of [of CASE_CHUNK_BYTES archive] chunks_of_bound [of c CASE_CHUNK_BYTES archive]
  by (auto simp: case_chunks_def CASE_CHUNK_BYTES_def chunks_of_simps split: if_splits)

lemma length_case_chunks: "length archive \<le> MAX_CASE_BUNDLE_BYTES \<Longrightarrow> length (case_chunks archive) \<le> 32"
  using length_chunks_of [of CASE_CHUNK_BYTES archive 32] by (simp add: case_chunks_def CASE_CHUNK_BYTES_def MAX_CASE_BUNDLE_BYTES_def)

section \<open>Reading a part back\<close>

definition HEX_DIGITS :: string where
  "HEX_DIGITS = ''0123456789abcdef''"

lemma hex_char_hex: "d < 16 \<Longrightarrow> hex_char d \<in> set HEX_DIGITS"
proof -
  have "list_all (\<lambda>d. hex_char d \<in> set HEX_DIGITS) [0..<16]" by code_simp
  then show "d < 16 \<Longrightarrow> ?thesis" by (simp add: list_all_iff)
qed

lemma hex_digits: "c \<in> set HEX_DIGITS \<Longrightarrow> lower_char c = c \<and> is_alnum_char c"
proof -
  have "list_all (\<lambda>c. lower_char c = c \<and> is_alnum_char c) HEX_DIGITS" by code_simp
  then show "c \<in> set HEX_DIGITS \<Longrightarrow> ?thesis" unfolding list_all_iff by blast
qed

lemma is_hex_digest_digits: "is_hex_digest s \<longleftrightarrow> length s = 64 \<and> set s \<subseteq> set HEX_DIGITS"
  unfolding is_hex_digest_def HEX_DIGITS_def list_all_iff by blast

lemma sha256_hex_digest: "is_hex_digest (sha256_hex b)"
proof -
  have "set (show_hex w n) \<subseteq> set HEX_DIGITS" for w n
    by (induction w arbitrary: n) (simp_all add: hex_char_hex)
  then have "set (bytes_hex x) \<subseteq> set HEX_DIGITS" for x by (auto simp: bytes_hex_def)
  moreover have "length (bytes_hex x) = 2 * length x" for x by (induction x) (simp_all add: bytes_hex_def length_show_hex)
  ultimately show ?thesis by (simp add: is_hex_digest_digits sha256_hex_def)
qed

lemma hex_digest_lower: "is_hex_digest s \<Longrightarrow> py_lower s = s"
  unfolding is_hex_digest_digits py_lower_def by (rule map_idI) (use hex_digits in blast)

lemma hex_digest_nonempty: "is_hex_digest s \<Longrightarrow> s \<noteq> []"
  by (auto simp: is_hex_digest_def)

text \<open>The identifiers of commands are such that the identifier of the case is accepted.\<close>

definition command_id_ok :: "string \<Rightarrow> bool" where
  "command_id_ok s \<longleftrightarrow> length s \<le> 143 \<and> list_all (\<lambda>c. is_alnum_char c \<or> c = CHR ''-'' \<or> c = CHR ''_'') s"

definition case_name_of :: "string \<Rightarrow> bytes \<Rightarrow> string" where
  "case_name_of command_id archive = command_id @ ''-'' @ take 16 (sha256_hex archive)"

lemma valid_case_name: "command_id_ok s \<Longrightarrow> valid_case_id (case_name_of s archive)"
proof -
  have "is_alnum_char c" if "c \<in> set (take 16 (sha256_hex archive))" for c
    using sha256_hex_digest [of archive] in_set_takeD [OF that] hex_digits unfolding is_hex_digest_digits by blast
  then show "command_id_ok s \<Longrightarrow> ?thesis" by (auto simp: command_id_ok_def valid_case_id_def case_name_of_def list_all_iff)
qed

definition case_payload :: "string \<Rightarrow> string \<Rightarrow> string \<Rightarrow> bytes \<Rightarrow> nat \<Rightarrow> (string, pyval) dict" where
  "case_payload command_id title manifest archive i =
     (case chunk_payload command_id (case_name_of command_id archive) title manifest (sha256_hex archive)
         (length (case_chunks archive)) (i, case_chunks archive ! i) of PyDict d \<Rightarrow> d | _ \<Rightarrow> [])"

lemma queue_case_bundle_payloads:
  "queue_case_bundle env command_id title manifest archive =
     bindS (guardS (length archive \<le> MAX_CASE_BUNDLE_BYTES) (ValueError ''Case bundle exceeds 20 MiB transfer limit'')) (\<lambda>_.
     bindS (forS (\<lambda>i. agent_queue env ''case_bundle'' (PyDict (case_payload command_id title manifest archive i)) 20)
       [0..<length (case_chunks archive)]) (\<lambda>_.
     returnS (PyDict [(''case_id'', PyStr (case_name_of command_id archive)), (''archive_sha256'', PyStr (sha256_hex archive)),
       (''chunks'', PyInt (int (length (case_chunks archive))))])))"
proof -
  have map: "forS f (map g xs) = forS (\<lambda>x. f (g x)) xs" for f :: "'x \<Rightarrow> ('s, 'b) action" and g :: "'y \<Rightarrow> 'x" and xs
    by (induction xs) simp_all
  have "enumerate 0 (case_chunks archive) = map (\<lambda>i. (i, case_chunks archive ! i)) [0..<length (case_chunks archive)]"
    by (rule nth_equalityI) (simp_all add: nth_enumerate_eq)
  moreover have "chunk_payload command_id (case_name_of command_id archive) title manifest (sha256_hex archive)
      (length (case_chunks archive)) (i, case_chunks archive ! i) = PyDict (case_payload command_id title manifest archive i)" for i
    by (simp add: case_payload_def chunk_payload_def)
  ultimately show ?thesis
    unfolding queue_case_bundle_def Let_def case_chunks_def [symmetric] case_name_of_def [symmetric] by (simp only: map)
qed

lemma text_field [simp]: "text_at m ((k, PyStr s) # d) k = s"
  by (simp add: text_at_def py_str_def)

lemma text_other [simp]: "j \<noteq> k \<Longrightarrow> text_at m ((j, v) # d) k = text_at m d k"
  by (simp add: text_at_def)

lemma read_case_payload:
  assumes "command_id_ok command_id" "is_hex_digest manifest" "length archive \<le> MAX_CASE_BUNDLE_BYTES" "i < length (case_chunks archive)"
  shows "read_case_part m (case_payload command_id title manifest archive i) =
    Inr (part_of (case_name_of command_id archive) (sha256_hex archive) manifest (case_chunks archive) i)"
proof -
  have c: "length (case_chunks archive ! i) \<le> 1024 * 1024"
    using case_chunks(3) [of "case_chunks archive ! i" archive] assms(4) by (simp add: CASE_CHUNK_BYTES_def)
  show ?thesis
    using valid_case_name [OF assms(1), of archive] sha256_hex_digest [of archive] assms(2,4) c length_case_chunks [OF assms(3)]
    by (simp add: case_payload_def chunk_payload_def read_case_part_def field_int_def py_int_def hex_digest_lower part_of_def Let_def)
qed

section \<open>From export to import\<close>

theorem exported_case_imported:
  assumes ok: "command_id_ok command_id" "is_hex_digest manifest" "length archive \<le> MAX_CASE_BUNDLE_BYTES"
    and key: "key = (node, case_name_of command_id archive)"
    and f: "cf_imports f key = NO_TRANSFER" "cf_cases f key = None"
    and order: "set front = {..<length (case_chunks archive)} - {k}" "k < length (case_chunks archive)"
    and tree: "extract_case_archive env archive = Inr tree" "manifests_of tree = [Some content]" "sha256_hex content = manifest"
      "me_loads env content = Some v"
    and run: "receive_case_part env True node (case_payload command_id title manifest archive k)
      (foldl (\<lambda>f i. fst (receive_case_part env True node (case_payload command_id title manifest archive i) f)) f front) = (f', res)"
  shows "res = Inr True" "cf_cases f' = (cf_cases f)(key \<mapsto> tree)" "cf_imports f' = cf_imports f"
proof -
  note read = read_case_payload [where title = title, OF ok]
  let ?g = "set_transfer key (transfer_of (sha256_hex archive) (case_chunks archive) {..<length (case_chunks archive)}) f"
  have "length archive \<le> BUNDLE_BYTES" using ok(3) by (simp add: BUNDLE_BYTES_def MAX_CASE_BUNDLE_BYTES_def)
  moreover have "cf_cases ?g key = None" using f(2) by (simp add: set_transfer_def)
  moreover have "import_case env node (part_of (case_name_of command_id archive) (sha256_hex archive) manifest (case_chunks archive) k) archive ?g = (f', res)"
    using parts_reassemble [OF read f(1) [unfolded key] order] run by (simp add: key case_chunks(1))
  moreover have "cp_manifest_digest (part_of c h m cs i) = m" for c h m cs i by (simp add: part_of_def)
  ultimately have *: "res = Inr True \<and> cf_cases f' = (cf_cases f)(key \<mapsto> tree) \<and> cf_imports f' = (cf_imports f)(key := NO_TRANSFER)"
    using tree by (auto simp: import_case_def Let_def key [symmetric] manifest_matches_def set_transfer_def)
  then show "res = Inr True" "cf_cases f' = (cf_cases f)(key \<mapsto> tree)" "cf_imports f' = cf_imports f"
    using f(1) by (simp_all add: fun_upd_idem)
qed

text \<open>
  \<open>shutil.make_archive\<close> puts an entry for the folder of the case before its files.  Such an archive is complete and has the
  right digest, but the folder's entry is written as a file and the manifest inside it cannot be.
\<close>

theorem make_archive_not_imported:
  assumes zip: "ca_zip env archive = Some \<lparr>za_entries = (name @ ''/'', 0, []) # files, za_damaged = False\<rparr>"
    and files: "(name @ ''/'' @ ''manifest.json'', n, content) \<in> set files" "path_parts name \<noteq> []"
    and part: "length archive \<le> BUNDLE_BYTES" "sha256_hex archive = cp_archive_digest p" "cf_cases f (node, cp_case p) = None"
  shows "\<exists>e. import_case env node p archive f = (f, Inl e)"
proof -
  have "py_split (CHR ''/'') (s @ CHR ''/'' # t) = py_split (CHR ''/'') s @ py_split (CHR ''/'') t" for s t
    by (induction s) (auto split: list.split simp: py_split_nonempty)
  then have parts: "path_parts (name @ ''/'' @ ''manifest.json'') = path_parts name @ [''manifest.json'']" by (simp add: path_parts_def)
  have "\<exists>e. extract_entries [] ((name @ ''/'', 0, []) # files) = Inl e"
    by (rule folder_entry_fails [of _ "[]" name 0 files _ n content, OF _ files(1,2) parts]) simp_all
  then have "\<exists>e. extract_case_archive env archive = Inl e"
    by (auto simp: extract_case_archive_def zip guardE_def bindE_def)
  then show ?thesis using part by (auto simp: import_case_def)
qed

section \<open>What the controller holds\<close>

interpretation bundles: controller_invariant "\<lambda>c. case_files_ok (mc_cases c)" "\<lambda>_. True"
  by unfold_locales (auto intro: keptD [OF receive_keeps])

end
