(* ===== verification/Normalise.thy ===== *)
theory Normalise imports Capability SelectorCodec "HOL-Library.Multiset" begin

text \<open>
  Normal forms of selector clauses, programs and capabilities, core/forensics/rust\_plan.py:
  set-like values are de-duplicated and sorted by their canonical text, clauses are sorted, and
  programs are keyed by the text of their normal form.  Normalising twice changes nothing, equal text
  means equal normal form, and a valid declaration has a valid normal form.
\<close>

section \<open>Sorting and keying by canonical text\<close>

text \<open>\<open>tuple(d[key] for key in sorted(d))\<close>\<close>

definition sorted_values :: "(string, 'a) dict \<Rightarrow> 'a list" where
  "sorted_values d = map (\<lambda>k. the (dict_get d k)) (sort (dict_keys d))"

text \<open>A dictionary comprehension whose entries \<open>f\<close> computes.\<close>

definition keyed_by :: "('a \<Rightarrow> (string \<times> 'b) result) \<Rightarrow> 'a list \<Rightarrow> (string, 'b) dict result" where
  "keyed_by f xs = bindE (mapE f xs) (\<lambda>kvs. Inr (dict_update [] kvs))"

text \<open>\<open>sorted(xs, key=key)\<close> with a key that may raise.\<close>

definition sorted_by :: "('a \<Rightarrow> string result) \<Rightarrow> 'a list \<Rightarrow> 'a list result" where
  "sorted_by key xs = bindE (mapE (\<lambda>x. bindE (key x) (\<lambda>k. Inr (k, x))) xs) (\<lambda>kxs. Inr (map snd (sort_key fst kxs)))"

section \<open>Normal forms\<close>

definition canonical_clause :: "selector_clause \<Rightarrow> pyval" where
  "canonical_clause c = PyDict [(''opcode'', PyStr (sc_opcode c)), (''values'', PyList (sc_values c))]"

definition sorted_unique :: "pyval list \<Rightarrow> pyval list result" where
  "sorted_unique values =
     bindE (keyed_by (\<lambda>v. bindE (canonical_json v) (\<lambda>k. Inr (k, v))) values) (\<lambda>by_json. Inr (sorted_values by_json))"

definition SET_OPCODES :: "string list" where
  "SET_OPCODES = [''link-class-in'', ''ethertype-in'', ''ip-protocol-in'', ''either-port-in'', ''source-port-in'',
     ''destination-port-in'', ''icmp-type-in'', ''payload-prefix-in'', ''payload-contains-any'']"

definition normalized_clause :: "selector_clause \<Rightarrow> selector_clause result" where
  "normalized_clause c =
     (if sc_opcode c \<in> set SET_OPCODES then
        bindE (sorted_unique (sc_values c)) (\<lambda>vs. Inr (c\<lparr>sc_values := vs\<rparr>))
      else if sc_opcode c = ''frame-window-contains-any'' \<and> length (sc_values c) \<ge> 2 then
        bindE (sorted_unique (drop 2 (sc_values c))) (\<lambda>vs. Inr (c\<lparr>sc_values := take 2 (sc_values c) @ vs\<rparr>))
      else Inr c)"

definition normalized_program :: "selector_program \<Rightarrow> selector_program result" where
  "normalized_program p =
     bindE (mapE normalized_clause (sp_clauses p)) (\<lambda>cs.
     bindE (sorted_by (\<lambda>c. canonical_json (canonical_clause c)) cs) (\<lambda>cs'.
     Inr \<lparr>sp_candidate_mode = sp_candidate_mode p, sp_clauses = cs'\<rparr>))"

text \<open>A compiled program also carries its id.\<close>

definition canonical_program :: "int option \<Rightarrow> selector_program \<Rightarrow> pyval result" where
  "canonical_program program_id p =
     bindE (normalized_program p) (\<lambda>n.
     Inr (PyDict ([(''candidate_mode'', PyStr (sp_candidate_mode p)),
                   (''clauses'', PyList (map canonical_clause (sp_clauses n)))]
                @ (case program_id of None \<Rightarrow> [] | Some i \<Rightarrow> [(''program_id'', PyInt i)]))))"

definition program_text :: "selector_program \<Rightarrow> string result" where
  "program_text p = bindE (canonical_program None p) canonical_json"

text \<open>An entry of \<open>programs_by_json\<close>.\<close>

definition program_item :: "selector_program \<Rightarrow> (string \<times> selector_program) result" where
  "program_item p = bindE (normalized_program p) (\<lambda>n. bindE (program_text n) (\<lambda>k. Inr (k, n)))"

definition normalized_capability :: "offline_capability \<Rightarrow> offline_capability result" where
  "normalized_capability c =
     bindE (keyed_by program_item (oc_selector_programs c)) (\<lambda>programs_by_json.
     Inr (c\<lparr>oc_selector_programs := sorted_values programs_by_json\<rparr>))"

section \<open>Dictionaries with sorted keys\<close>

lemma dict_update_ok: "dict_ok d \<Longrightarrow> dict_ok (dict_update d kvs)"
  by (induction kvs arbitrary: d) (auto simp: dict_update_def)

lemma dict_update_Cons [dict_simps]: "dict_update d ((k, v) # kvs) = dict_update (dict_set d k v) kvs"
  by (simp add: dict_update_def)

lemma dict_update_Nil [dict_simps]: "dict_update d [] = d"
  by (simp add: dict_update_def)

lemma dict_update_member: "dict_get (dict_update d kvs) k = Some v \<Longrightarrow> dict_get d k = Some v \<or> (k, v) \<in> set kvs"
proof (induction kvs arbitrary: d)
  case (Cons p kvs)
  obtain a b where p: "p = (a, b)" by fastforce
  with Cons.IH [of "dict_set d a b"] Cons.prems show ?case by (auto simp: dict_simps split: if_splits)
qed (simp add: dict_simps)

lemma dict_update_keys: "set (dict_keys (dict_update d kvs)) = set (dict_keys d) \<union> fst ` set kvs"
proof (induction kvs arbitrary: d)
  case (Cons p kvs)
  obtain a b where "p = (a, b)" by fastforce
  with Cons.IH [of "dict_set d a b"] show ?case by (auto simp: dict_simps dict_set_keys simp del: set_map) (simp_all add: dict_set_keys)
qed (simp add: dict_simps)

lemma dict_get_keys: "k \<in> set (dict_keys d) \<longleftrightarrow> (\<exists>v. dict_get d k = Some v)"
  by (simp add: dict_get_map_of) (metis domIff dom_map_of_conv_image_fst not_None_eq)

text \<open>The entries in key order.\<close>

definition sorted_items :: "(string, 'a) dict \<Rightarrow> (string \<times> 'a) list" where
  "sorted_items d = map (\<lambda>k. (k, the (dict_get d k))) (sort (dict_keys d))"

lemma sorted_values_items: "sorted_values d = map snd (sorted_items d)"
  by (simp add: sorted_values_def sorted_items_def comp_def)

lemma sorted_items_keys: "map fst (sorted_items d) = sort (dict_keys d)"
  by (simp add: sorted_items_def comp_def)

lemma dict_update_append: "dict_update d (xs @ ys) = dict_update (dict_update d xs) ys"
  by (simp add: dict_update_def)

lemma dict_update_distinct: "distinct (map fst (d @ kvs)) \<Longrightarrow> dict_update d kvs = d @ kvs"
proof (induction kvs arbitrary: d)
  case (Cons p kvs)
  obtain k v where p: "p = (k, v)" by fastforce
  with Cons.prems have "dict_set d k v = d @ [(k, v)]" by (intro dict_set_new) auto
  with Cons.IH [of "d @ [(k, v)]"] Cons.prems p show ?case by (simp add: dict_update_def)
qed (simp add: dict_update_def)

lemma map_of_sorted_items: "distinct (map fst d) \<Longrightarrow> sorted (map fst d) \<Longrightarrow> sorted_items d = d"
  unfolding sorted_items_def
  by (simp add: sort_key_id_if_sorted dict_get_map_of) (rule map_idI, auto)

lemma sorted_items_fixed: "dict_ok d \<Longrightarrow> sorted_items (dict_update [] (sorted_items d)) = sorted_items d"
proof -
  assume "dict_ok d"
  then have "distinct (map fst (sorted_items d))" "sorted (map fst (sorted_items d))"
    by (simp_all add: sorted_items_keys dict_ok_def)
  with dict_update_distinct [of "[]" "sorted_items d"] map_of_sorted_items show ?thesis by simp
qed

lemma sorted_items_set: "dict_ok d \<Longrightarrow> set (sorted_items d) = set d"
  by (force simp: sorted_items_def dict_ok_def dict_get_map_of)

lemma sorted_items_member: "dict_ok d \<Longrightarrow> (k, v) \<in> set (sorted_items d) \<longleftrightarrow> dict_get d k = Some v"
  by (simp add: sorted_items_set dict_ok_def dict_get_map_of)

text \<open>Keying is stable: keying the sorted values again gives the same table, when each value keys itself.\<close>

lemma mapE_snd:
  "(\<And>k y. (k, y) \<in> set kvs \<Longrightarrow> f y = Inr (k, y)) \<Longrightarrow> mapE f (map snd kvs) = Inr kvs"
proof (induction kvs)
  case (Cons p kvs)
  obtain k y where p: "p = (k, y)" by fastforce
  have "f y = Inr (k, y)" using Cons.prems p by simp
  moreover have "mapE f (map snd kvs) = Inr kvs" using Cons by simp
  ultimately show ?case by (simp add: p)
qed simp

lemma keyed_by_stable:
  assumes k: "keyed_by f xs = Inr d" and f: "\<And>x k y. x \<in> set xs \<Longrightarrow> f x = Inr (k, y) \<Longrightarrow> g y = Inr (k, y)"
  shows "keyed_by g (sorted_values d) = Inr (sorted_items d)"
    and "sorted_values (sorted_items d) = sorted_values d"
proof -
  obtain kvs where kvs: "mapE f xs = Inr kvs" "d = dict_update [] kvs"
    using k by (auto simp: keyed_by_def bindE_Inr)
  have ok: "dict_ok d" by (simp add: kvs dict_update_ok)
  then have srt: "distinct (map fst (sorted_items d))" "sorted (map fst (sorted_items d))"
    by (simp_all add: sorted_items_keys dict_ok_def)
  have "g y = Inr (k, y)" if "(k, y) \<in> set (sorted_items d)" for k y
  proof -
    have "(k, y) \<in> set kvs"
      using that ok dict_update_member [of "[]" kvs k y] by (simp add: sorted_items_member kvs)
    from mapE_Inr_member [OF kvs(1) this] f show ?thesis by blast
  qed
  then have "mapE g (sorted_values d) = Inr (sorted_items d)"
    by (simp add: sorted_values_items mapE_snd)
  with srt show "keyed_by g (sorted_values d) = Inr (sorted_items d)"
    by (simp add: keyed_by_def dict_update_distinct)
  from srt show "sorted_values (sorted_items d) = sorted_values d"
    by (simp add: sorted_values_items map_of_sorted_items)
qed

lemma keyed_by_ok: "keyed_by f xs = Inr d \<Longrightarrow> dict_ok d"
  by (auto simp: keyed_by_def bindE_Inr dict_update_ok)

lemma keyed_by_member: "keyed_by f xs = Inr d \<Longrightarrow> dict_get d k = Some y \<Longrightarrow> \<exists>x\<in>set xs. f x = Inr (k, y)"
  by (auto simp: keyed_by_def bindE_Inr dest!: dict_update_member mapE_Inr_member)

lemma keyed_by_covers: "keyed_by f xs = Inr d \<Longrightarrow> x \<in> set xs \<Longrightarrow> \<exists>k y. f x = Inr (k, y) \<and> k \<in> set (dict_keys d)"
proof -
  assume k: "keyed_by f xs = Inr d" and x: "x \<in> set xs"
  then obtain kvs where kvs: "mapE f xs = Inr kvs" "d = dict_update [] kvs" by (auto simp: keyed_by_def bindE_Inr)
  from x obtain i where i: "i < length xs" "x = xs ! i" by (auto simp: in_set_conv_nth)
  obtain k y where ky: "kvs ! i = (k, y)" by fastforce
  then have "f x = Inr (k, y)" using mapE_Inr_nth [OF kvs(1) i(1)] i(2) by simp
  moreover have "(k, y) \<in> set kvs" using i(1) ky mapE_Inr_length [OF kvs(1)] by (metis nth_mem)
  then have "k \<in> set (dict_keys d)" unfolding kvs(2) dict_update_keys by force
  ultimately show ?thesis by blast
qed

lemma sorted_by_mset: "sorted_by key xs = Inr ys \<Longrightarrow> mset ys = mset xs"
proof -
  assume "sorted_by key xs = Inr ys"
  then obtain kxs where k: "mapE (\<lambda>x. bindE (key x) (\<lambda>k. Inr (k, x))) xs = Inr kxs" "ys = map snd (sort_key fst kxs)"
    by (auto simp: sorted_by_def bindE_Inr)
  have "mapE (\<lambda>x. bindE (key x) (\<lambda>k. Inr (k, x))) xs = Inr kxs \<Longrightarrow> map snd kxs = xs" for kxs
    by (induction xs arbitrary: kxs) (auto simp: result_simps)
  from this [OF k(1)] show ?thesis by (auto simp: k(2) mset_map simp flip: mset_map [of snd kxs])
qed


lemma sorted_by_stable:
  assumes "sorted_by key xs = Inr ys"
  shows "sorted_by key ys = Inr ys"
proof -
  let ?f = "\<lambda>x. bindE (key x) (\<lambda>k. Inr (k, x))"
  obtain kxs where k: "mapE ?f xs = Inr kxs" "ys = map snd (sort_key fst kxs)"
    using assms by (auto simp: sorted_by_def bindE_Inr)
  have "?f y = Inr (k, y)" if "(k, y) \<in> set (sort_key fst kxs)" for k y
    using that mapE_Inr_member [OF k(1)] by (auto simp: bindE_Inr)
  then have "mapE ?f ys = Inr (sort_key fst kxs)" unfolding k(2) by (rule mapE_snd)
  then show ?thesis by (simp add: sorted_by_def k(2) sort_key_id_if_sorted)
qed

section \<open>Normalising twice changes nothing\<close>

lemma sorted_unique_stable:
  assumes "sorted_unique vs = Inr ws"
  shows "sorted_unique ws = Inr ws"
proof -
  let ?f = "\<lambda>v. bindE (canonical_json v) (\<lambda>k. Inr (k, v))"
  obtain d where d: "keyed_by ?f vs = Inr d" "ws = sorted_values d"
    using assms by (auto simp: sorted_unique_def bindE_Inr)
  have "?f x = Inr (k, y) \<Longrightarrow> ?f y = Inr (k, y)" for x k y by (auto simp: bindE_Inr)
  from keyed_by_stable [OF d(1) this] d(2) show ?thesis
    by (simp add: sorted_unique_def)
qed

lemma normalized_clause_stable:
  assumes "normalized_clause c = Inr c'"
  shows "normalized_clause c' = Inr c'"
  using assms sorted_unique_stable
  by (cases c) (auto simp: normalized_clause_def bindE_Inr split: if_splits)

lemma normalized_clause_opcode: "normalized_clause c = Inr c' \<Longrightarrow> sc_opcode c' = sc_opcode c"
  by (auto simp: normalized_clause_def bindE_Inr split: if_splits)

lemma mapE_fixed: "(\<And>x. x \<in> set xs \<Longrightarrow> f x = Inr x) \<Longrightarrow> mapE f xs = Inr xs"
  by (induction xs) auto

lemma normalized_program_stable:
  assumes "normalized_program p = Inr n"
  shows "normalized_program n = Inr n"
proof -
  obtain cs cs' where cs: "mapE normalized_clause (sp_clauses p) = Inr cs"
      "sorted_by (\<lambda>c. canonical_json (canonical_clause c)) cs = Inr cs'"
      "n = \<lparr>sp_candidate_mode = sp_candidate_mode p, sp_clauses = cs'\<rparr>"
    using assms by (auto simp: normalized_program_def bindE_Inr)
  have "mapE normalized_clause cs' = Inr cs'"
  proof (rule mapE_fixed)
    fix c assume "c \<in> set cs'"
    then have "c \<in> set cs" using sorted_by_mset [OF cs(2)] by (metis set_mset_mset)
    from mapE_Inr_member [OF cs(1) this] show "normalized_clause c = Inr c"
      using normalized_clause_stable by blast
  qed
  with sorted_by_stable [OF cs(2)] show ?thesis
    by (simp add: normalized_program_def cs(3))
qed

lemma normalized_program_mode: "normalized_program p = Inr n \<Longrightarrow> sp_candidate_mode n = sp_candidate_mode p"
  by (auto simp: normalized_program_def bindE_Inr)

lemma program_item_stable: "program_item p = Inr (k, n) \<Longrightarrow> program_item n = Inr (k, n)"
  by (auto simp: program_item_def bindE_Inr dest: normalized_program_stable)

text \<open>The text of a program is the text of its normal form.\<close>

lemma program_text_normal: "normalized_program p = Inr n \<Longrightarrow> program_text p = program_text n"
  using normalized_program_stable normalized_program_mode by (simp add: program_text_def canonical_program_def)

lemma program_item_text: "program_item p = Inr (k, n) \<Longrightarrow> program_text p = Inr k"
  by (auto simp: program_item_def bindE_Inr dest: program_text_normal)

lemma normalized_capability_stable:
  assumes "normalized_capability c = Inr c'"
  shows "normalized_capability c' = Inr c'"
proof -
  obtain d where d: "keyed_by program_item (oc_selector_programs c) = Inr d"
      "c' = c\<lparr>oc_selector_programs := sorted_values d\<rparr>"
    using assms by (auto simp: normalized_capability_def bindE_Inr)
  from keyed_by_stable [OF d(1) program_item_stable] d(2) show ?thesis
    by (auto simp: normalized_capability_def bindE_Inr)
qed


section \<open>Equal text, equal program\<close>

definition scalar_clause :: "selector_clause \<Rightarrow> bool" where
  "scalar_clause c \<longleftrightarrow> list_all py_scalar (sc_values c)"

definition scalar_program :: "selector_program \<Rightarrow> bool" where
  "scalar_program p \<longleftrightarrow> list_all scalar_clause (sp_clauses p)"

lemma opcode_before_values: "sort_key fst [(''opcode'', a), (''values'', b)] = [(''opcode'', a), (''values'', b)]"
  by (simp add: sort_key_id_if_sorted)

lemma mode_before_clauses: "sort_key fst [(''candidate_mode'', a), (''clauses'', b)] = [(''candidate_mode'', a), (''clauses'', b)]"
  by (simp add: sort_key_id_if_sorted)

lemma canonical_clause_value: "canonical_value (canonical_clause c) =
   bindE (mapE canonical_value (sc_values c)) (\<lambda>js. Inr (JObj [(''opcode'', JStr (sc_opcode c)), (''values'', JList js)]))"
  by (cases "mapE canonical_value (sc_values c)")
    (simp_all add: canonical_clause_def opcode_before_values del: sort_key_simps)

lemma scalars_total: "list_all py_scalar vs \<Longrightarrow> is_ok (mapE canonical_value vs)"
  using canonical_scalar_total by (intro mapE_ok) (auto simp: list_all_iff is_ok_iff)

lemma canonical_clause_total: "scalar_clause c \<Longrightarrow> is_ok (canonical_value (canonical_clause c))"
  using scalars_total [of "sc_values c"] by (auto simp: canonical_clause_value scalar_clause_def is_ok_bindE is_ok_iff)

lemma canonical_clause_pyval_ok: "scalar_clause c \<Longrightarrow> pyval_ok (canonical_clause c)"
  by (auto simp: canonical_clause_def scalar_clause_def list_all_iff)

lemma canonical_clause_inj:
  assumes "scalar_clause c" and "scalar_clause d" and e: "canonical_value (canonical_clause c) = canonical_value (canonical_clause d)"
  shows "c = d"
proof -
  obtain js where "mapE canonical_value (sc_values c) = Inr js"
    using scalars_total assms(1) by (auto simp: scalar_clause_def is_ok_iff)
  moreover obtain ks where "mapE canonical_value (sc_values d) = Inr ks"
    using scalars_total assms(2) by (auto simp: scalar_clause_def is_ok_iff)
  ultimately have "sc_opcode c = sc_opcode d" "mapE canonical_value (sc_values c) = mapE canonical_value (sc_values d)"
    using e by (simp_all add: canonical_clause_value)
  with assms(1,2) show ?thesis by (auto simp: scalar_clause_def dest: canonical_scalars_inj)
qed

text \<open>The canonical dictionary of a program in normal form.\<close>

definition program_dict :: "selector_program \<Rightarrow> pyval" where
  "program_dict n = PyDict [(''candidate_mode'', PyStr (sp_candidate_mode n)),
     (''clauses'', PyList (map canonical_clause (sp_clauses n)))]"

lemma canonical_program_normal: "normalized_program n = Inr n \<Longrightarrow> canonical_program None n = Inr (program_dict n)"
  by (simp add: canonical_program_def program_dict_def)

lemma program_text_dict: "normalized_program n = Inr n \<Longrightarrow> program_text n = canonical_json (program_dict n)"
  by (simp add: program_text_def canonical_program_normal)

lemma program_dict_value: "canonical_value (program_dict n) =
   bindE (mapE (\<lambda>c. canonical_value (canonical_clause c)) (sp_clauses n)) (\<lambda>js.
     Inr (JObj [(''candidate_mode'', JStr (sp_candidate_mode n)), (''clauses'', JList js)]))"
  by (cases "mapE (\<lambda>c. canonical_value (canonical_clause c)) (sp_clauses n)")
    (simp_all add: program_dict_def mode_before_clauses mapE_map del: sort_key_simps)

lemma clauses_total: "scalar_program n \<Longrightarrow> is_ok (mapE (\<lambda>c. canonical_value (canonical_clause c)) (sp_clauses n))"
  using canonical_clause_total by (intro mapE_ok) (auto simp: scalar_program_def list_all_iff)

lemma program_dict_inj:
  assumes "scalar_program m" and "scalar_program n" and e: "canonical_value (program_dict m) = canonical_value (program_dict n)"
  shows "m = n"
proof -
  let ?f = "\<lambda>c. canonical_value (canonical_clause c)"
  obtain js where j: "mapE ?f (sp_clauses m) = Inr js" using clauses_total [OF assms(1)] by (auto simp: is_ok_iff)
  moreover obtain ks where "mapE ?f (sp_clauses n) = Inr ks" using clauses_total [OF assms(2)] by (auto simp: is_ok_iff)
  ultimately have h: "sp_candidate_mode m = sp_candidate_mode n" "mapE ?f (sp_clauses m) = mapE ?f (sp_clauses n)"
    using e by (simp_all add: program_dict_value)
  have "sp_clauses m = sp_clauses n"
    using h(2) assms(1,2) canonical_clause_total canonical_clause_inj
    by (intro mapE_inj_on [of ?f]) (auto simp: scalar_program_def list_all_iff)
  with h(1) show ?thesis by simp
qed

lemma program_dict_pyval_ok: "scalar_program n \<Longrightarrow> pyval_ok (program_dict n)"
  by (auto simp: program_dict_def scalar_program_def list_all_iff canonical_clause_pyval_ok)

text \<open>Two programs are merged only when their normal forms are the same program.\<close>

lemma program_text_inj:
  assumes "normalized_program m = Inr m" and "normalized_program n = Inr n"
    and "scalar_program m" and "scalar_program n" and "program_text m = Inr k" and "program_text n = Inr k"
  shows "m = n"
  using assms canonical_json_inj [of "program_dict m" k "program_dict n"]
  by (intro program_dict_inj) (auto simp: program_text_dict program_dict_pyval_ok)


section \<open>What de-duplication keeps\<close>

lemma dict_set_mset: "mset (dict_set d k v) \<subseteq># add_mset (k, v) (mset d)"
proof (induction d)
  case (Cons p d)
  obtain a w where p: "p = (a, w)" by fastforce
  show ?case
  proof (cases "a = k")
    case False
    with Cons p show ?thesis by (simp add: add_mset_commute)
  qed (simp add: p)
qed simp

lemma dict_update_mset: "mset (dict_update d kvs) \<subseteq># mset d + mset kvs"
proof (induction kvs arbitrary: d)
  case (Cons p kvs)
  obtain k v where p: "p = (k, v)" by fastforce
  have "mset (dict_update d (p # kvs)) \<subseteq># mset (dict_set d k v) + mset kvs"
    using Cons [of "dict_set d k v"] by (simp add: p dict_simps)
  also have "\<dots> \<subseteq># add_mset (k, v) (mset d) + mset kvs"
    using dict_set_mset [of d k v] by (rule subset_mset.add_right_mono)
  finally show ?case by (simp add: p)
qed (simp add: dict_simps)

lemma keyed_by_mset:
  assumes "keyed_by f xs = Inr d"
  shows "\<exists>kvs. mapE f xs = Inr kvs \<and> mset (sorted_values d) \<subseteq># mset (map snd kvs)"
proof -
  obtain kvs where kvs: "mapE f xs = Inr kvs" "d = dict_update [] kvs" using assms by (auto simp: keyed_by_def bindE_Inr)
  have ok: "dict_ok d" using keyed_by_ok [OF assms] .
  then have "distinct (map fst (sorted_items d))" "distinct (map fst d)" by (simp_all add: sorted_items_keys dict_ok_def)
  then have "distinct (sorted_items d)" "distinct d" using distinct_map by blast+
  then have "mset (sorted_items d) = mset d" using sorted_items_set [OF ok] set_eq_iff_mset_eq_distinct by blast
  also have "\<dots> \<subseteq># mset kvs" using dict_update_mset [of "[]" kvs] kvs(2) by simp
  finally have "image_mset snd (mset (sorted_items d)) \<subseteq># image_mset snd (mset kvs)" by (rule image_mset_subseteq_mono)
  with kvs(1) show ?thesis by (auto simp: sorted_values_items)
qed

lemma mset_sum_le:
  fixes g :: "'a \<Rightarrow> nat"
  assumes "mset ys \<subseteq># mset xs"
  shows "sum_list (map g ys) \<le> sum_list (map g xs)"
proof -
  obtain r where "mset xs = mset ys + r" using assms by (auto simp: subset_mset.le_iff_add)
  then have "sum_mset (image_mset g (mset xs)) = sum_mset (image_mset g (mset ys)) + sum_mset (image_mset g r)" by simp
  then show ?thesis by (simp add: sum_mset_sum_list flip: mset_map)
qed

lemma keyed_by_nonempty: "keyed_by f xs = Inr d \<Longrightarrow> xs \<noteq> [] \<Longrightarrow> sorted_values d \<noteq> []"
proof -
  assume k: "keyed_by f xs = Inr d" and "xs \<noteq> []"
  then obtain x where "x \<in> set xs" by (cases xs) auto
  from keyed_by_covers [OF k this] have "d \<noteq> []" by auto
  then have "length (sorted_values d) \<noteq> 0" by (simp add: sorted_values_def)
  then show "sorted_values d \<noteq> []" by auto
qed

lemma sorted_unique_mset:
  assumes "sorted_unique vs = Inr ws"
  shows "mset ws \<subseteq># mset vs"
proof -
  obtain d where d: "keyed_by (\<lambda>v. bindE (canonical_json v) (\<lambda>k. Inr (k, v))) vs = Inr d" "ws = sorted_values d"
    using assms by (auto simp: sorted_unique_def bindE_Inr)
  have "mapE (\<lambda>v. bindE (canonical_json v) (\<lambda>k. Inr (k, v))) vs = Inr kvs \<Longrightarrow> map snd kvs = vs" for kvs
    by (induction vs arbitrary: kvs) (auto simp: bindE_Inr)
  with keyed_by_mset [OF d(1)] d(2) show ?thesis by metis
qed

lemma sorted_unique_nonempty: "sorted_unique vs = Inr ws \<Longrightarrow> vs \<noteq> [] \<Longrightarrow> ws \<noteq> []"
  by (auto simp: sorted_unique_def bindE_Inr dest: keyed_by_nonempty)

lemma sorted_unique_subset: "sorted_unique vs = Inr ws \<Longrightarrow> set ws \<subseteq> set vs \<and> length ws \<le> length vs"
  using sorted_unique_mset [of vs ws] by (metis set_mset_mono set_mset_mset size_mset size_mset_mono)

lemma canonical_json_total: "py_scalar v \<Longrightarrow> is_ok (canonical_json v)"
  using canonical_scalar_total [of v] by (auto simp: canonical_json_def)

lemma sorted_unique_total: "list_all py_scalar vs \<Longrightarrow> is_ok (sorted_unique vs)"
proof -
  assume "list_all py_scalar vs"
  then have "is_ok (bindE (canonical_json v) (\<lambda>k. Inr (k, v)))" if "v \<in> set vs" for v
    using that canonical_json_total [of v] by (auto simp: list_all_iff is_ok_bindE is_ok_iff)
  then have "is_ok (mapE (\<lambda>v. bindE (canonical_json v) (\<lambda>k. Inr (k, v))) vs)" by (rule mapE_ok)
  then show ?thesis by (auto simp: sorted_unique_def keyed_by_def is_ok_iff)
qed

lemma sorted_unique_keeps_all:
  assumes u: "sorted_unique vs = Inr ws" and s: "list_all py_scalar vs"
  shows "set ws = set vs"
proof
  show "set ws \<subseteq> set vs" using sorted_unique_subset [OF u] by simp
  show "set vs \<subseteq> set ws"
  proof
    fix v assume v: "v \<in> set vs"
    let ?f = "\<lambda>v. bindE (canonical_json v) (\<lambda>k. Inr (k, v))"
    obtain d where d: "keyed_by ?f vs = Inr d" "ws = sorted_values d"
      using u by (auto simp: sorted_unique_def bindE_Inr)
    from keyed_by_covers [OF d(1) v] obtain k where k: "canonical_json v = Inr k" "k \<in> set (dict_keys d)"
      by (auto simp: bindE_Inr)
    then obtain w where w: "dict_get d k = Some w" by (auto simp only: dict_get_keys)
    from keyed_by_member [OF d(1) w] have "w \<in> set vs" "canonical_json w = Inr k" by (auto simp: bindE_Inr)
    then have "w = v" using k(1) v s canonical_json_inj [of v k w] canonical_scalar_inj [of v w]
      by (auto simp: list_all_iff)
    moreover have "w \<in> set ws" using w k(2) keyed_by_ok [OF d(1)]
      by (auto simp: d(2) sorted_values_items sorted_items_member intro!: image_eqI [where x = "(k, w)"])
    ultimately show "v \<in> set ws" by simp
  qed
qed

section \<open>Validity and normal forms\<close>

text \<open>The rule each value of a set-like clause has to meet, and how many values are allowed.\<close>

definition literal_ok :: "pyval \<Rightarrow> bool" where
  "literal_ok v \<longleftrightarrow> nonempty_bytes v \<and> py_bytes_len v \<le> 256"

definition value_ok :: "string \<Rightarrow> pyval \<Rightarrow> bool" where
  "value_ok opcode v =
     (if opcode = ''link-class-in'' then v \<in> {PyStr ''ethernet'', PyStr ''raw-ip''}
      else if opcode \<in> set literal_opcodes then literal_ok v
      else if opcode \<in> set byte_opcodes then int_between 0 0xFF v
      else int_between 0 0xFFFF v)"

definition value_limit_ok :: "string \<Rightarrow> nat \<Rightarrow> bool" where
  "value_limit_ok opcode n =
     (if opcode = ''link-class-in'' then True
      else if opcode \<in> set literal_opcodes then n \<le> 32
      else if opcode = ''ethertype-in'' \<or> opcode \<in> set byte_opcodes then n \<le> 255
      else n \<le> 512)"

lemma any_foreign_link_iff: "any_foreign_link vs = Inr False \<longleftrightarrow> list_all (\<lambda>v. v \<in> {PyStr ''ethernet'', PyStr ''raw-ip''}) vs"
proof (induction vs)
  case (Cons v vs)
  then show ?case by (cases v) (auto simp: in_str_keys_def AGGREGATE_LINK_TYPES_def)
qed simp

lemma validate_int_set_Nil: "validate_int_set opc vs m l = [] \<longleftrightarrow> vs \<noteq> [] \<and> length vs \<le> l \<and> list_all (int_between 0 m) vs"
  by (auto simp: validate_int_set_def)

lemma validate_literals_Nil: "validate_literals opc vs = [] \<longleftrightarrow> vs \<noteq> [] \<and> length vs \<le> 32 \<and> list_all literal_ok vs"
  by (auto simp: validate_literals_def literal_ok_def list_all_iff)

lemma link_errors_iff:
  "bindE (if vs = [] then Inr True else any_foreign_link vs) (\<lambda>bad. Inr (if bad then [e] else [])) = Inr [] \<longleftrightarrow>
     vs \<noteq> [] \<and> any_foreign_link vs = Inr False"
  by (cases "any_foreign_link vs") auto

lemmas opcode_sets = SET_OPCODES_def literal_opcodes_def byte_opcodes_def port_opcodes_def PLANNER_OPCODES_def

lemma valid_set_clause:
  assumes "sc_opcode c \<in> set SET_OPCODES"
  shows "valid_clause c \<longleftrightarrow> sc_values c \<noteq> [] \<and> value_limit_ok (sc_opcode c) (length (sc_values c)) \<and>
     list_all (value_ok (sc_opcode c)) (sc_values c)"
proof -
  have "sc_opcode c = ''link-class-in'' \<or> sc_opcode c = ''ethertype-in'' \<or> sc_opcode c = ''ip-protocol-in'' \<or>
     sc_opcode c = ''either-port-in'' \<or> sc_opcode c = ''source-port-in'' \<or> sc_opcode c = ''destination-port-in'' \<or>
     sc_opcode c = ''icmp-type-in'' \<or> sc_opcode c = ''payload-prefix-in'' \<or> sc_opcode c = ''payload-contains-any''"
    using assms by (simp add: SET_OPCODES_def)
  then show ?thesis
    by (elim disjE)
      (simp_all add: valid_clause_def validate_clause_def value_ok_def [abs_def] value_limit_ok_def opcode_sets
         validate_int_set_Nil validate_literals_Nil Let_def link_errors_iff any_foreign_link_iff)
qed


lemma valid_window_clause:
  assumes "sc_opcode c = ''frame-window-contains-any''"
  shows "valid_clause c \<longleftrightarrow> (\<exists>v0 v1 ls a b. sc_values c = v0 # v1 # ls \<and> isinstance_int v0 = Some a \<and> isinstance_int v1 = Some b \<and>
     0 \<le> a \<and> a \<le> b \<and> b \<le> 0xFFFF \<and> ls \<noteq> [] \<and> length ls \<le> 32 \<and> list_all literal_ok ls)"
proof -
  have v: "valid_clause c \<longleftrightarrow> (case sc_values c of
              v0 # v1 # v2 # literals \<Rightarrow>
                (case (isinstance_int v0, isinstance_int v1) of
                   (Some a, Some b) \<Rightarrow>
                     (if 0 \<le> a \<and> a \<le> b \<and> b \<le> 0xFFFF then validate_literals ''frame-window-contains-any'' (v2 # literals)
                      else [''frame-window-contains-any requires a valid u16 start/end window''])
                 | _ \<Rightarrow> [''frame-window-contains-any requires a valid u16 start/end window''])
            | _ \<Rightarrow> [''frame-window-contains-any requires a valid u16 start/end window'']) = []"
    by (simp add: assms valid_clause_def validate_clause_def opcode_sets Let_def)
  show ?thesis
    unfolding v by (auto simp: validate_literals_Nil split: list.splits option.splits if_splits)
qed

lemma int_between_scalar: "int_between lo hi v \<Longrightarrow> py_scalar v"
  by (cases v) (auto simp: int_between_def)

lemma literal_ok_scalar: "literal_ok v \<Longrightarrow> py_scalar v"
  by (cases v) (auto simp: literal_ok_def nonempty_bytes_def)

lemma isinstance_int_scalar: "isinstance_int v = Some i \<Longrightarrow> py_scalar v"
  by (cases v) auto

lemma value_ok_scalar: "value_ok opcode v \<Longrightarrow> py_scalar v"
  by (auto simp: value_ok_def split: if_splits intro: int_between_scalar literal_ok_scalar)

lemma valid_other_scalar:
  assumes "valid_clause c" and "sc_opcode c \<notin> set SET_OPCODES" and "sc_opcode c \<noteq> ''frame-window-contains-any''"
  shows "scalar_clause c"
proof -
  have "sc_opcode c \<in> set PLANNER_OPCODES" using assms(1) by (auto simp: valid_clause_def validate_clause_def Let_def split: if_splits)
  then have "sc_opcode c = ''always'' \<or> sc_opcode c = ''tcp-flags'' \<or> sc_opcode c = ''payload-minimum-length'' \<or>
      sc_opcode c = ''payload-byte-mask'' \<or> sc_opcode c = ''payload-diversity''"
    using assms(2,3) by (auto simp: opcode_sets)
  then show ?thesis using assms(1)
    by (elim disjE)
      (auto simp: valid_clause_def validate_clause_def opcode_sets Let_def scalar_clause_def list_all_iff
         split: if_splits list.splits intro: int_between_scalar)
qed

lemma valid_clause_scalar: "valid_clause c \<Longrightarrow> scalar_clause c"
proof -
  assume v: "valid_clause c"
  consider "sc_opcode c \<in> set SET_OPCODES" | "sc_opcode c = ''frame-window-contains-any''"
    | "sc_opcode c \<notin> set SET_OPCODES" "sc_opcode c \<noteq> ''frame-window-contains-any''" by argo
  then show ?thesis
  proof cases
    case 1
    with v show ?thesis by (auto simp: valid_set_clause scalar_clause_def list_all_iff intro: value_ok_scalar)
  next
    case 2
    with v obtain v0 v1 ls a b where w: "sc_values c = v0 # v1 # ls" "isinstance_int v0 = Some a" "isinstance_int v1 = Some b"
      "list_all literal_ok ls" by (auto simp: valid_window_clause)
    from w(4) have "list_all py_scalar ls" by (rule list.pred_mono_strong) (rule literal_ok_scalar)
    with w(1) isinstance_int_scalar [OF w(2)] isinstance_int_scalar [OF w(3)] show ?thesis by (simp add: scalar_clause_def)
  qed (rule valid_other_scalar [OF v])
qed

lemma value_limit_mono: "value_limit_ok opcode n \<Longrightarrow> m \<le> n \<Longrightarrow> value_limit_ok opcode m"
  by (auto simp: value_limit_ok_def split: if_splits)

lemma window_not_set: "''frame-window-contains-any'' \<notin> set SET_OPCODES"
  by (simp add: SET_OPCODES_def)

lemma normalized_clause_total: "valid_clause c \<Longrightarrow> is_ok (normalized_clause c)"
proof -
  assume "valid_clause c"
  then have s: "list_all py_scalar (sc_values c)" using valid_clause_scalar by (simp add: scalar_clause_def)
  then have "list_all py_scalar (drop 2 (sc_values c))" by (auto simp: list_all_iff dest: in_set_dropD)
  with s sorted_unique_total show ?thesis by (simp add: normalized_clause_def is_ok_bindE) (simp add: is_ok_iff)
qed

lemma normalized_clause_valid:
  assumes v: "valid_clause c" and n: "normalized_clause c = Inr c'"
  shows "valid_clause c' \<and> clause_literal_bytes c' \<le> clause_literal_bytes c"
proof -
  consider "sc_opcode c \<in> set SET_OPCODES" | "sc_opcode c \<notin> set SET_OPCODES" "sc_opcode c = ''frame-window-contains-any''"
    | "sc_opcode c \<notin> set SET_OPCODES" "sc_opcode c \<noteq> ''frame-window-contains-any''" by argo
  then show ?thesis
  proof cases
    case 1
    then obtain vs where vs: "sorted_unique (sc_values c) = Inr vs" "c' = c\<lparr>sc_values := vs\<rparr>"
      using n by (auto simp: normalized_clause_def bindE_Inr)
    have "vs \<noteq> []" "value_limit_ok (sc_opcode c) (length vs)" "list_all (value_ok (sc_opcode c)) vs"
      using v 1 sorted_unique_subset [OF vs(1)] sorted_unique_nonempty [OF vs(1)]
      by (auto simp: valid_set_clause list_all_iff intro: value_limit_mono)
    with 1 mset_sum_le [OF sorted_unique_mset [OF vs(1)]] show ?thesis
      by (simp add: vs(2) valid_set_clause clause_literal_bytes_def)
  next
    case 2
    then obtain v0 v1 ls a b where w: "sc_values c = v0 # v1 # ls" "isinstance_int v0 = Some a" "isinstance_int v1 = Some b"
       "0 \<le> a" "a \<le> b" "b \<le> 0xFFFF" "ls \<noteq> []" "length ls \<le> 32" "list_all literal_ok ls"
      using v by (auto simp: valid_window_clause)
    then obtain vs where vs: "sorted_unique ls = Inr vs" "c' = c\<lparr>sc_values := v0 # v1 # vs\<rparr>"
      using n 2 by (auto simp: normalized_clause_def bindE_Inr window_not_set)
    have "vs \<noteq> []" "length vs \<le> 32" "list_all literal_ok vs"
      using w sorted_unique_subset [OF vs(1)] sorted_unique_nonempty [OF vs(1)] by (auto simp: list_all_iff)
    with w 2 mset_sum_le [OF sorted_unique_mset [OF vs(1)]] show ?thesis
      by (simp add: vs(2) valid_window_clause clause_literal_bytes_def)
  next
    case 3
    with n v show ?thesis by (auto simp: normalized_clause_def)
  qed
qed


lemma normalized_clauses_valid:
  "mapE normalized_clause cs = Inr cs' \<Longrightarrow> list_all valid_clause cs \<Longrightarrow>
     list_all valid_clause cs' \<and> sum_list (map clause_literal_bytes cs') \<le> sum_list (map clause_literal_bytes cs)"
proof (induction cs arbitrary: cs')
  case (Cons c cs)
  then obtain d ds where d: "normalized_clause c = Inr d" "mapE normalized_clause cs = Inr ds" "cs' = d # ds"
    by (auto simp: bindE_Inr)
  from Cons.IH [OF d(2)] normalized_clause_valid [OF _ d(1)] Cons.prems d(3) show ?case by fastforce
qed simp

lemma mset_list_all: "mset ys = mset xs \<Longrightarrow> list_all P ys = list_all P xs"
  by (metis list.pred_set set_mset_mset)

lemma scalar_clause_json: "scalar_clause c \<Longrightarrow> is_ok (canonical_json (canonical_clause c))"
  using canonical_clause_total [of c] by (auto simp: canonical_json_def is_ok_iff)

lemma sorted_by_total: "(\<And>x. x \<in> set xs \<Longrightarrow> is_ok (key x)) \<Longrightarrow> is_ok (sorted_by key xs)"
proof -
  assume k: "\<And>x. x \<in> set xs \<Longrightarrow> is_ok (key x)"
  have "is_ok (mapE (\<lambda>x. bindE (key x) (\<lambda>k. Inr (k, x))) xs)"
    by (rule mapE_ok) (use k in \<open>force simp: is_ok_iff\<close>)
  then show ?thesis by (auto simp: sorted_by_def is_ok_iff)
qed

lemma valid_program_scalar: "valid_program v p \<Longrightarrow> scalar_program p"
  by (auto simp: valid_program_def scalar_program_def list_all_iff intro: valid_clause_scalar)

lemma normalized_program_valid:
  assumes v: "valid_program v p"
  shows "\<exists>n. normalized_program p = Inr n \<and> valid_program v n \<and> program_literal_bytes n \<le> program_literal_bytes p"
proof -
  have "is_ok (mapE normalized_clause (sp_clauses p))"
    using v normalized_clause_total by (intro mapE_ok) (auto simp: valid_program_def list_all_iff)
  then obtain cs where cs: "mapE normalized_clause (sp_clauses p) = Inr cs" by (auto simp: is_ok_iff)
  from normalized_clauses_valid [OF cs] v
  have vc: "list_all valid_clause cs" "sum_list (map clause_literal_bytes cs) \<le> program_literal_bytes p"
    by (auto simp: valid_program_def program_literal_bytes_def)
  have "is_ok (sorted_by (\<lambda>c. canonical_json (canonical_clause c)) cs)"
    using vc(1) by (intro sorted_by_total scalar_clause_json valid_clause_scalar) (auto simp: list_all_iff)
  then obtain cs' where cs': "sorted_by (\<lambda>c. canonical_json (canonical_clause c)) cs = Inr cs'" by (auto simp: is_ok_iff)
  let ?n = "\<lparr>sp_candidate_mode = sp_candidate_mode p, sp_clauses = cs'\<rparr>"
  have m: "mset cs' = mset cs" by (rule sorted_by_mset [OF cs'])
  have "length cs' = length (sp_clauses p)" using mset_eq_length [OF m] mapE_Inr_length [OF cs] by simp
  moreover have "list_all valid_clause cs'" using vc(1) mset_list_all [OF m] by simp
  ultimately have "valid_program v ?n" using v by (auto simp: valid_program_def)
  moreover have "program_literal_bytes ?n \<le> program_literal_bytes p"
    using mset_sum_le [of cs' cs clause_literal_bytes] m vc(2) by (simp add: program_literal_bytes_def)
  ultimately show ?thesis using cs cs' by (auto simp: normalized_program_def)
qed

lemma program_item_valid:
  assumes v: "valid_program v p"
  shows "\<exists>k n. program_item p = Inr (k, n) \<and> valid_program v n \<and> program_literal_bytes n \<le> program_literal_bytes p"
proof -
  obtain n where n: "normalized_program p = Inr n" "valid_program v n" "program_literal_bytes n \<le> program_literal_bytes p"
    using normalized_program_valid [OF v] by blast
  have "scalar_program n" by (rule valid_program_scalar [OF n(2)])
  from clauses_total [OF this] obtain k where "canonical_json (program_dict n) = Inr k"
    by (auto simp: canonical_json_def program_dict_value is_ok_iff)
  with program_text_dict [OF normalized_program_stable [OF n(1)]] n show ?thesis
    by (auto simp: program_item_def)
qed

lemma program_items_valid:
  "list_all (valid_program v) ps \<Longrightarrow> \<exists>kvs. mapE program_item ps = Inr kvs \<and>
     sum_list (map program_literal_bytes (map snd kvs)) \<le> sum_list (map program_literal_bytes ps)"
proof (induction ps)
  case (Cons p ps)
  then obtain kvs where "mapE program_item ps = Inr kvs"
      "sum_list (map program_literal_bytes (map snd kvs)) \<le> sum_list (map program_literal_bytes ps)"
    by auto
  moreover obtain k n where "program_item p = Inr (k, n)" "program_literal_bytes n \<le> program_literal_bytes p"
    using Cons.prems program_item_valid [of v p] by auto
  ultimately show ?case by simp
qed simp

lemma keyed_programs_valid:
  assumes "keyed_by program_item ps = Inr d" and "list_all (valid_program v) ps"
  shows "list_all (valid_program v) (sorted_values d)"
proof -
  have "valid_program v y" if "dict_get d k = Some y" for k y
  proof -
    from keyed_by_member [OF assms(1) that] obtain x where x: "x \<in> set ps" "program_item x = Inr (k, y)" by blast
    then have "valid_program v x" using assms(2) by (simp add: list_all_iff)
    from program_item_valid [OF this] x(2) show ?thesis by auto
  qed
  then show ?thesis using keyed_by_ok [OF assms(1)]
    by (auto simp: list_all_iff sorted_values_items sorted_items_member)
qed

lemma normalized_capability_valid:
  assumes v: "validate_capability c = Inr []"
  shows "\<exists>c'. normalized_capability c = Inr c' \<and> validate_capability c' = Inr []"
proof -
  let ?ps = "oc_selector_programs c"
  have c: "capability_errors c = []" "list_all (valid_program (oc_packet_view c)) ?ps"
    "sum_list (map program_literal_bytes ?ps) \<le> 65536"
    using v by (simp_all add: validate_capability_iff)
  from program_items_valid [OF c(2)] obtain kvs where kvs: "mapE program_item ?ps = Inr kvs"
    "sum_list (map program_literal_bytes (map snd kvs)) \<le> sum_list (map program_literal_bytes ?ps)" by blast
  then obtain d where d: "keyed_by program_item ?ps = Inr d" by (simp add: keyed_by_def)
  with keyed_by_mset [OF d] kvs(1) have m: "mset (sorted_values d) \<subseteq># mset (map snd kvs)" by simp
  have len: "length (sorted_values d) \<le> length ?ps"
    using size_mset_mono [OF m] mapE_Inr_length [OF kvs(1)] by simp
  have emp: "sorted_values d = [] \<longleftrightarrow> ?ps = []"
    using keyed_by_nonempty [OF d] len by auto
  have "sum_list (map program_literal_bytes (sorted_values d)) \<le> 65536"
    using mset_sum_le [OF m, of program_literal_bytes] kvs(2) c(3) by linarith
  moreover have "capability_errors (c\<lparr>oc_selector_programs := sorted_values d\<rparr>) = []"
    using c(1) len emp by (auto simp: capability_errors_def split: if_splits)
  ultimately show ?thesis
    using d keyed_programs_valid [OF d c(2)]
    by (auto simp: normalized_capability_def validate_capability_iff)
qed

text \<open>The programs of a normal form key themselves and are told apart by their text.\<close>

lemma keyed_programs_text:
  assumes "keyed_by program_item ps = Inr d" and "dict_get d k = Some n"
  shows "program_item n = Inr (k, n)"
  using keyed_by_member [OF assms] program_item_stable by blast

end
