(* ===== verification/PacketQuery.thy ===== *)
theory PacketQuery imports IpNetwork PyFloat begin

text \<open>
  core/forensics/packet\_query.py: the query AST a client sends for a packet index, and its
  compilation to one parameterised SELECT.  A payload is a decoded JSON value.  \<open>str\<close> of text,
  integers, booleans and None is computed; \<open>repr_other\<close> stands for the text of a float or a container,
  which no accepted query depends on.  A tuple inside the partition list, which JSON cannot produce,
  is treated like the other values a set or a sort refuses; the message of such a TypeError, which
  names the two operands, is left out.  The lemmas show that the SQL is built from allow-listed words
  only, binds one parameter per mark, and that only malformed partition lists raise anything but
  \<open>PacketQueryError\<close>.
\<close>

section \<open>The query\<close>

definition PUBLIC_FIELDS :: "string list" where
  "PUBLIC_FIELDS = [''packet_ordinal'', ''timestamp'', ''caplen'', ''wirelen'', ''link_type'', ''decoded'', ''decode_reason'',
     ''src_ip'', ''dst_ip'', ''src_port'', ''dst_port'', ''protocol'', ''ip_protocol'', ''tcp_flags'', ''frame_sha256'', ''partition_id'']"

definition ORDER_FIELDS :: "string list" where
  "ORDER_FIELDS = [''packet_ordinal'', ''timestamp'', ''caplen'', ''wirelen'']"

definition OPERATORS :: "string list" where
  "OPERATORS = [''eq'', ''ne'', ''lt'', ''lte'', ''gt'', ''gte'', ''in'', ''between'', ''cidr'']"

definition MAX_LIMIT :: int where "MAX_LIMIT = 500"
definition MAX_FILTERS :: nat where "MAX_FILTERS = 64"
definition MAX_IN_VALUES :: nat where "MAX_IN_VALUES = 100"
definition MAX_PARTITIONS :: nat where "MAX_PARTITIONS = 32"
definition MAX_TEXT_LENGTH :: nat where "MAX_TEXT_LENGTH = 512"

record packet_filter =
  pf_field :: string
  pf_op :: string
  pf_value :: pyval

record packet_query =
  pq_select :: "string list"
  pq_filters :: "packet_filter list"
  pq_partition_ids :: "pyval list"
  pq_order_by :: string
  pq_descending :: pyval
  pq_cursor :: pyval
  pq_limit :: pyval

definition DEFAULT_SELECT :: "string list" where
  "DEFAULT_SELECT = [''packet_ordinal'', ''timestamp'', ''caplen'', ''wirelen'', ''link_type'', ''decoded'', ''decode_reason'',
     ''src_ip'', ''dst_ip'', ''src_port'', ''dst_port'', ''protocol'', ''tcp_flags'', ''frame_sha256'']"

definition query_error :: "string \<Rightarrow> 'a result" where
  "query_error m = Inl (PacketQueryError m)"

definition requireQ :: "bool \<Rightarrow> string \<Rightarrow> unit result" where
  "requireQ b m = guardE b (PacketQueryError m)"

text \<open>A Sequence that is neither text nor bytes.\<close>

definition sequence_items :: "pyval \<Rightarrow> pyval list option" where
  "sequence_items v = (case v of PyList vs \<Rightarrow> Some vs | PyTuple vs \<Rightarrow> Some vs | _ \<Rightarrow> None)"

definition requireSeq :: "pyval \<Rightarrow> string \<Rightarrow> pyval list result" where
  "requireSeq v m = (case sequence_items v of Some vs \<Rightarrow> Inr vs | None \<Rightarrow> query_error m)"

definition py_get :: "(string \<times> pyval) list \<Rightarrow> string \<Rightarrow> pyval \<Rightarrow> pyval" where
  "py_get d k v = (case dict_get d k of Some w \<Rightarrow> w | None \<Rightarrow> v)"

definition QUERY_KEYS :: "string list" where
  "QUERY_KEYS = [''select'', ''filters'', ''partition_ids'', ''order_by'', ''descending'', ''cursor'', ''limit'']"

definition filter_of_item :: "(pyval \<Rightarrow> string) \<Rightarrow> pyval \<Rightarrow> packet_filter result" where
  "filter_of_item repr_other item =
     (case item of
        PyDict d \<Rightarrow>
          if set (dict_keys d) = {''field'', ''op'', ''value''}
          then Inr \<lparr>pf_field = py_str repr_other (py_get d ''field'' PyNone), pf_op = py_str repr_other (py_get d ''op'' PyNone),
                 pf_value = py_get d ''value'' PyNone\<rparr>
          else query_error ''each filter requires only field, op, and value''
      | _ \<Rightarrow> query_error ''each filter requires only field, op, and value'')"

definition query_from_dict :: "(pyval \<Rightarrow> string) \<Rightarrow> pyval \<Rightarrow> packet_query result" where
  "query_from_dict repr_other payload =
     (case payload of
        PyDict d \<Rightarrow>
          (let unknown = sort (remdups (filter (\<lambda>k. k \<notin> set QUERY_KEYS) (dict_keys d))) in
           bindE (requireQ (unknown = []) (''unsupported packet query keys: '' @ py_join '', '' unknown)) (\<lambda>_.
           bindE (requireSeq (py_get d ''select'' (PyTuple (map PyStr DEFAULT_SELECT))) ''select must be a list of fields'') (\<lambda>raw_select.
           bindE (requireSeq (py_get d ''filters'' (PyTuple [])) ''filters must be a list'') (\<lambda>raw_filters.
           bindE (requireQ (length raw_filters \<le> MAX_FILTERS) (''at most '' @ show_nat MAX_FILTERS @ '' filters may be applied'')) (\<lambda>_.
           bindE (mapE (filter_of_item repr_other) raw_filters) (\<lambda>filters.
           bindE (requireSeq (py_get d ''partition_ids'' (PyTuple [])) ''partition_ids must be a list'') (\<lambda>raw_partitions.
           bindE (requireQ (length raw_partitions \<le> MAX_PARTITIONS) (''at most '' @ show_nat MAX_PARTITIONS @ '' partitions may be scanned'')) (\<lambda>_.
           Inr \<lparr>pq_select = map (py_str repr_other) raw_select, pq_filters = filters, pq_partition_ids = raw_partitions,
              pq_order_by = py_str repr_other (py_get d ''order_by'' (PyStr ''packet_ordinal'')),
              pq_descending = PyBool (py_truth (py_get d ''descending'' (PyBool False))),
              pq_cursor = py_get d ''cursor'' PyNone, pq_limit = py_get d ''limit'' (PyInt 100)\<rparr>))))))))
      | _ \<Rightarrow> query_error ''packet query must be an object'')"

section \<open>Filters\<close>

definition bounded_scalar :: "string \<Rightarrow> pyval \<Rightarrow> pyval result" where
  "bounded_scalar field_name v =
     (case v of
        PyBool _ \<Rightarrow> Inr v
      | PyInt i \<Rightarrow> (if field_name \<in> {''src_port'', ''dst_port''} \<and> \<not> (0 \<le> i \<and> i \<le> 65535)
          then query_error (field_name @ '' must be between 0 and 65535'') else Inr v)
      | PyFloat x \<Rightarrow> (if f64_isfinite x then Inr v else query_error ''numeric filter values must be finite'')
      | PyNone \<Rightarrow> Inr PyNone
      | PyStr s \<Rightarrow> (if length s > MAX_TEXT_LENGTH
          then query_error (''text filter values may not exceed '' @ show_nat MAX_TEXT_LENGTH @ '' characters'') else Inr v)
      | _ \<Rightarrow> query_error (''unsupported value for '' @ field_name))"

definition marks :: "nat \<Rightarrow> string" where
  "marks n = py_join '','' (replicate n ''?'')"

definition SYMBOLS :: "(string \<times> string) list" where
  "SYMBOLS = [(''eq'', ''=''), (''ne'', ''!=''), (''lt'', ''<''), (''lte'', ''<=''), (''gt'', ''>''), (''gte'', ''>='')]"

text \<open>A CIDR value: the text of a number, a boolean or None is never an address.\<close>

definition compile_cidr :: "string \<Rightarrow> pyval \<Rightarrow> (string \<times> pyval list) result" where
  "compile_cidr field_name v =
     bindE (requireQ (field_name \<in> {''src_ip'', ''dst_ip''}) ''CIDR filters apply only to source or destination IP'') (\<lambda>_.
     bindE (bounded_scalar field_name v) (\<lambda>value.
     case (case value of PyStr s \<Rightarrow> ip_network s | _ \<Rightarrow> None) of
       None \<Rightarrow> query_error ''CIDR filter is invalid''
     | Some n \<Rightarrow> Inr (''('' @ field_name @ ''_version = ? AND '' @ field_name @ ''_packed BETWEEN ? AND ?)'',
           [PyInt (net_version n), PyBytes (packed_first n), PyBytes (packed_last n)])))"

definition compile_list :: "string \<Rightarrow> string \<Rightarrow> pyval \<Rightarrow> (string \<times> pyval list) result" where
  "compile_list field_name operator v =
     bindE (requireSeq v (operator @ '' requires a list'')) (\<lambda>items.
     bindE (mapE (bounded_scalar field_name) items) (\<lambda>values.
     if operator = ''between'' then
       bindE (requireQ (length values = 2) ''between requires exactly two values'') (\<lambda>_.
       Inr (field_name @ '' BETWEEN ? AND ?'', values))
     else
       bindE (requireQ (values \<noteq> [] \<and> length values \<le> MAX_IN_VALUES) (''in requires between 1 and '' @ show_nat MAX_IN_VALUES @ '' values'')) (\<lambda>_.
       Inr (field_name @ '' IN ('' @ marks (length values) @ '')'', values))))"

definition compile_scalar :: "string \<Rightarrow> string \<Rightarrow> pyval \<Rightarrow> (string \<times> pyval list) result" where
  "compile_scalar field_name operator v =
     bindE (bounded_scalar field_name v) (\<lambda>value.
     if value = PyNone then
       (if operator = ''eq'' then Inr (field_name @ '' IS NULL'', [])
        else if operator = ''ne'' then Inr (field_name @ '' IS NOT NULL'', [])
        else query_error ''null supports only eq and ne'')
     else (case dict_get SYMBOLS operator of
         Some symbol \<Rightarrow> Inr (field_name @ '' '' @ symbol @ '' ?'', [value])
       | None \<Rightarrow> Inl KeyError))"

definition compile_filter :: "packet_filter \<Rightarrow> (string \<times> pyval list) result" where
  "compile_filter f =
     (let field_name = pf_field f; operator = py_lower (pf_op f) in
      bindE (requireQ (field_name \<in> set PUBLIC_FIELDS) (''unsupported packet field: '' @ field_name)) (\<lambda>_.
      bindE (requireQ (operator \<in> set OPERATORS) (''unsupported packet operator: '' @ operator)) (\<lambda>_.
      if operator = ''cidr'' then compile_cidr field_name (pf_value f)
      else if operator \<in> {''in'', ''between''} then compile_list field_name operator (pf_value f)
      else compile_scalar field_name operator (pf_value f))))"

section \<open>Partitions\<close>

definition is_number :: "pyval \<Rightarrow> bool" where
  "is_number v = (case v of PyBool _ \<Rightarrow> True | PyInt _ \<Rightarrow> True | PyFloat _ \<Rightarrow> True | _ \<Rightarrow> False)"

definition set_member :: "pyval \<Rightarrow> bool" where
  "set_member v = (case v of PyList _ \<Rightarrow> False | PyDict _ \<Rightarrow> False | PyTuple _ \<Rightarrow> False | _ \<Rightarrow> True)"

text \<open>\<open>set(values)\<close> keeps the first of equal values; \<open>sorted\<close> needs values of one kind.\<close>

definition py_distinct :: "pyval list \<Rightarrow> pyval list" where
  "py_distinct vs = foldl (\<lambda>acc v. if list_ex (\<lambda>w. py_eq w v) acc then acc else acc @ [v]) [] vs"

definition sortable :: "pyval list \<Rightarrow> bool" where
  "sortable vs \<longleftrightarrow> length vs \<le> 1 \<or> list_all is_number vs \<or>
     list_all (\<lambda>v. isinstance_str v \<noteq> None) vs \<or> list_all (\<lambda>v. isinstance_bytes v \<noteq> None) vs"

fun plain_ids :: "pyval list \<Rightarrow> int list option" where
  "plain_ids [] = Some []"
| "plain_ids (PyInt i # vs) = (if 0 \<le> i then map_option (Cons i) (plain_ids vs) else None)"
| "plain_ids (v # vs) = None"

definition sorted_partitions :: "pyval list \<Rightarrow> int list result" where
  "sorted_partitions vs =
     bindE (guardE (list_all set_member vs) (TypeError ''unhashable type'')) (\<lambda>_.
     bindE (guardE (sortable (py_distinct vs)) (TypeError ''< not supported'')) (\<lambda>_.
     case plain_ids (py_distinct vs) of
       Some ids \<Rightarrow> Inr (sort ids)
     | None \<Rightarrow> query_error ''partition IDs must be non-negative integers''))"

section \<open>The statement\<close>

record compiled_query =
  cq_sql :: string
  cq_parameters :: "pyval list"
  cq_columns :: "string list"
  cq_fetch_limit :: int

definition query_limit :: "pyval \<Rightarrow> int result" where
  "query_limit v = (case v of PyInt n \<Rightarrow> if 1 \<le> n \<and> n \<le> MAX_LIMIT then Inr n
       else query_error (''limit must be between 1 and '' @ show_int MAX_LIMIT)
     | _ \<Rightarrow> query_error (''limit must be between 1 and '' @ show_int MAX_LIMIT))"

definition query_cursor :: "string \<Rightarrow> pyval \<Rightarrow> int option result" where
  "query_cursor order_by v =
     (if v = PyNone then Inr None
      else bindE (requireQ (order_by = ''packet_ordinal'') ''cursor pagination requires packet_ordinal ordering'') (\<lambda>_.
        case v of PyInt n \<Rightarrow> if 0 \<le> n then Inr (Some n) else query_error ''cursor must be a non-negative packet ordinal''
        | _ \<Rightarrow> query_error ''cursor must be a non-negative packet ordinal''))"

definition query_descending :: "pyval \<Rightarrow> bool result" where
  "query_descending v = (case v of PyBool b \<Rightarrow> Inr b | _ \<Rightarrow> query_error ''descending must be boolean'')"

definition partition_predicate :: "pyval list \<Rightarrow> (string \<times> pyval list) list result" where
  "partition_predicate vs =
     (if vs = [] then Inr []
      else bindE (sorted_partitions vs) (\<lambda>ids. Inr [(''partition_id IN ('' @ marks (length ids) @ '')'', map PyInt ids)]))"

definition cursor_predicate :: "bool \<Rightarrow> int option \<Rightarrow> (string \<times> pyval list) list" where
  "cursor_predicate descending cursor = (case cursor of None \<Rightarrow> []
     | Some n \<Rightarrow> [(''packet_ordinal '' @ (if descending then ''<'' else ''>'') @ '' ?'', [PyInt n])])"

definition select_text :: "string list \<Rightarrow> string list \<Rightarrow> string \<Rightarrow> bool \<Rightarrow> string" where
  "select_text columns predicates order_by descending =
     (let direction = (if descending then ''DESC'' else ''ASC'') in
      ''SELECT '' @ py_join '','' columns @ '' FROM packet_index''
      @ (if predicates \<noteq> [] then '' WHERE '' @ py_join '' AND '' predicates else [])
      @ '' ORDER BY '' @ order_by @ '' '' @ direction
      @ (if order_by \<noteq> ''packet_ordinal'' then '',packet_ordinal '' @ direction else [])
      @ '' LIMIT ?'')"

definition compile_packet_query :: "packet_query \<Rightarrow> compiled_query result" where
  "compile_packet_query q =
     (let columns = pq_select q in
      bindE (requireQ (columns \<noteq> [] \<and> length columns \<le> length PUBLIC_FIELDS) ''select must contain a bounded non-empty field list'') (\<lambda>_.
      bindE (requireQ (distinct columns \<and> list_all (\<lambda>c. c \<in> set PUBLIC_FIELDS) columns) ''select contains unsupported or duplicate fields'') (\<lambda>_.
      bindE (requireQ (pq_order_by q \<in> set ORDER_FIELDS) ''unsupported packet order field'') (\<lambda>_.
      bindE (query_descending (pq_descending q)) (\<lambda>descending.
      bindE (query_limit (pq_limit q)) (\<lambda>limit.
      bindE (query_cursor (pq_order_by q) (pq_cursor q)) (\<lambda>cursor.
      bindE (requireQ (length (pq_partition_ids q) \<le> MAX_PARTITIONS) (''at most '' @ show_nat MAX_PARTITIONS @ '' partitions may be scanned'')) (\<lambda>_.
      bindE (requireQ (length (pq_filters q) \<le> MAX_FILTERS) (''at most '' @ show_nat MAX_FILTERS @ '' filters may be applied'')) (\<lambda>_.
      bindE (mapE compile_filter (pq_filters q)) (\<lambda>filters.
      bindE (partition_predicate (pq_partition_ids q)) (\<lambda>partitions.
      let predicates = filters @ partitions @ cursor_predicate descending cursor; fetch_limit = limit + 1 in
      Inr \<lparr>cq_sql = select_text columns (map fst predicates) (pq_order_by q) descending,
         cq_parameters = concat (map snd predicates) @ [PyInt fetch_limit],
         cq_columns = columns, cq_fetch_limit = fetch_limit\<rparr>)))))))))))"

section \<open>What the text is made of\<close>

text \<open>Text of the SQL alphabet with \<open>n\<close> marks; the alphabet has no quote, semicolon, dash or backslash.\<close>

definition SQL_ALPHABET :: string where
  "SQL_ALPHABET = ''abcdefghijklmnopqrstuvwxyzABCDEFGHIJKLMNOPQRSTUVWXYZ0123456789_ ,?()=!<>''"

definition text_ok :: "nat \<Rightarrow> string \<Rightarrow> bool" where
  "text_ok n s \<longleftrightarrow> set s \<subseteq> set SQL_ALPHABET \<and> count_list s (CHR ''?'') = n"

lemma text_ok_append: "text_ok m s \<Longrightarrow> text_ok n t \<Longrightarrow> text_ok (m + n) (s @ t)"
  by (simp add: text_ok_def)

lemma text_ok_Nil: "text_ok 0 []"
  by (simp add: text_ok_def)

lemma text_ok_join: "text_ok 0 sep \<Longrightarrow> list_all2 text_ok ns ss \<Longrightarrow> text_ok (sum_list ns) (py_join sep ss)"
proof (induction sep ss arbitrary: ns rule: py_join.induct)
  case (1 sep)
  then show ?case by (simp add: text_ok_Nil)
next
  case (2 sep x)
  then show ?case by (auto simp: list_all2_Cons2)
next
  case (3 sep x y xs)
  from 3(3) obtain n ns' where n: "ns = n # ns'" "text_ok n x" "list_all2 text_ok ns' (y # xs)"
    by (auto simp: list_all2_Cons2)
  from text_ok_append [OF n(2) text_ok_append [OF 3(2) 3(1) [OF 3(2) n(3)]]] show ?case by (simp add: n(1))
qed

lemma field_text: "f \<in> set PUBLIC_FIELDS \<Longrightarrow> text_ok 0 f"
  by (auto simp: PUBLIC_FIELDS_def text_ok_def SQL_ALPHABET_def)

lemma marks_text: "text_ok n (marks n)"
proof -
  have "text_ok 1 ''?''" "text_ok 0 '',''" by (simp_all add: text_ok_def SQL_ALPHABET_def)
  then have "text_ok (sum_list (replicate n 1)) (marks n)"
    unfolding marks_def by (intro text_ok_join) (simp_all add: list_all2_conv_all_nth)
  then show ?thesis by (simp add: sum_list_replicate)
qed

lemma symbol_text: "dict_get SYMBOLS op = Some s \<Longrightarrow> text_ok 0 s"
  by (auto simp: SYMBOLS_def text_ok_def SQL_ALPHABET_def dict_simps split: if_splits)

lemma compile_cidr_text: "f \<in> set PUBLIC_FIELDS \<Longrightarrow> compile_cidr f v = Inr (t, vs) \<Longrightarrow> text_ok (length vs) t \<and> length vs \<le> 100"
proof -
  assume f: "f \<in> set PUBLIC_FIELDS" and c: "compile_cidr f v = Inr (t, vs)"
  from c have t: "t = ''('' @ f @ ''_version = ? AND '' @ f @ ''_packed BETWEEN ? AND ?)''" "length vs = 3"
    by (auto simp: compile_cidr_def bindE_Inr requireQ_def guardE_Inr query_error_def split: option.splits pyval.splits)
  have "text_ok 0 ''(''" "text_ok 1 ''_version = ? AND ''" "text_ok 2 ''_packed BETWEEN ? AND ?)''"
    by (simp_all add: text_ok_def SQL_ALPHABET_def)
  note p = text_ok_append [OF this(1) text_ok_append [OF field_text [OF f] text_ok_append [OF this(2) text_ok_append [OF field_text [OF f] this(3)]]]]
  then show ?thesis unfolding t by (simp add: numeral_2_eq_2 numeral_3_eq_3)
qed

lemma compile_list_text: "f \<in> set PUBLIC_FIELDS \<Longrightarrow> compile_list f op v = Inr (t, vs) \<Longrightarrow> text_ok (length vs) t \<and> length vs \<le> 100"
proof -
  assume f: "f \<in> set PUBLIC_FIELDS" and c: "compile_list f op v = Inr (t, vs)"
  have w: "text_ok 2 '' BETWEEN ? AND ?''" "text_ok 0 '' IN (''" "text_ok 0 '')''" by (simp_all add: text_ok_def SQL_ALPHABET_def)
  consider "t = f @ '' BETWEEN ? AND ?''" "length vs = 2"
    | "t = f @ '' IN ('' @ marks (length vs) @ '')''" "length vs \<le> 100"
    using c by (auto simp: compile_list_def bindE_Inr requireQ_def guardE_Inr MAX_IN_VALUES_def split: if_splits)
  then show ?thesis
  proof cases
    case 1
    then show ?thesis using text_ok_append [OF field_text [OF f] w(1)] by (simp add: numeral_2_eq_2)
  next
    case 2
    then show ?thesis
      using text_ok_append [OF field_text [OF f] text_ok_append [OF w(2) text_ok_append [OF marks_text w(3)]]] by simp
  qed
qed

lemma compile_scalar_text: "f \<in> set PUBLIC_FIELDS \<Longrightarrow> compile_scalar f op v = Inr (t, vs) \<Longrightarrow> text_ok (length vs) t \<and> length vs \<le> 100"
proof -
  assume f: "f \<in> set PUBLIC_FIELDS" and c: "compile_scalar f op v = Inr (t, vs)"
  have w: "text_ok 0 '' IS NULL''" "text_ok 0 '' IS NOT NULL''" "text_ok 0 '' ''" "text_ok 1 '' ?''"
    by (simp_all add: text_ok_def SQL_ALPHABET_def)
  consider "t = f @ '' IS NULL''" "vs = []" | "t = f @ '' IS NOT NULL''" "vs = []"
    | s x where "dict_get SYMBOLS op = Some s" "t = f @ '' '' @ s @ '' ?''" "vs = [x]"
    using c by (auto simp: compile_scalar_def bindE_Inr query_error_def split: if_splits option.splits)
  then show ?thesis
  proof cases
    case 1
    then show ?thesis using text_ok_append [OF field_text [OF f] w(1)] by simp
  next
    case 2
    then show ?thesis using text_ok_append [OF field_text [OF f] w(2)] by simp
  next
    case 3
    then show ?thesis
      using text_ok_append [OF field_text [OF f] text_ok_append [OF w(3) text_ok_append [OF symbol_text [OF 3(1)] w(4)]]] by simp
  qed
qed

lemma compile_filter_text: "compile_filter f = Inr (t, vs) \<Longrightarrow> text_ok (length vs) t \<and> length vs \<le> 100"
  by (auto simp: compile_filter_def Let_def bindE_Inr requireQ_def guardE_Inr split: if_splits
      dest: compile_cidr_text compile_list_text compile_scalar_text)

lemma plain_ids_length: "plain_ids vs = Some ids \<Longrightarrow> length ids = length vs"
  by (induction vs arbitrary: ids rule: plain_ids.induct) (auto split: if_splits)

lemma py_distinct_length: "length (py_distinct vs) \<le> length vs"
proof -
  have "length (foldl (\<lambda>acc v. if list_ex (\<lambda>w. py_eq w v) acc then acc else acc @ [v]) acc vs) \<le> length acc + length vs" for acc
  proof (induction vs arbitrary: acc)
    case (Cons v vs)
    show ?case using Cons.IH [of acc] Cons.IH [of "acc @ [v]"] by auto
  qed simp
  from this [of "[]"] show ?thesis by (simp add: py_distinct_def)
qed

lemma partition_predicate_text:
  assumes "partition_predicate vs = Inr ps"
  shows "list_all (\<lambda>(t, xs). text_ok (length xs) t \<and> length xs \<le> length vs) ps \<and> length ps \<le> 1"
proof (cases "vs = []")
  case True
  with assms show ?thesis by (simp add: partition_predicate_def)
next
  case False
  then obtain ids where i: "sorted_partitions vs = Inr ids" "ps = [(''partition_id IN ('' @ marks (length ids) @ '')'', map PyInt ids)]"
    using assms by (auto simp: partition_predicate_def bindE_Inr)
  from i(1) obtain js where "plain_ids (py_distinct vs) = Some js" "ids = sort js"
    by (auto simp: sorted_partitions_def bindE_Inr query_error_def split: option.splits)
  then have "length ids \<le> length vs" using plain_ids_length [of "py_distinct vs" js] py_distinct_length [of vs] by simp
  moreover have "text_ok 0 ''partition_id IN (''" "text_ok 0 '')''" by (simp_all add: text_ok_def SQL_ALPHABET_def)
  from text_ok_append [OF this(1) text_ok_append [OF marks_text this(2)]]
  have "text_ok (length ids) (''partition_id IN ('' @ marks (length ids) @ '')'')" by simp
  ultimately show ?thesis by (simp add: i(2))
qed

lemma cursor_predicate_text: "list_all (\<lambda>(t, xs). text_ok (length xs) t \<and> length xs \<le> 1) (cursor_predicate d c) \<and> length (cursor_predicate d c) \<le> 1"
  by (simp add: cursor_predicate_def text_ok_def SQL_ALPHABET_def split: option.split)

lemma select_text_ok:
  assumes "list_all (\<lambda>c. c \<in> set PUBLIC_FIELDS) columns" and "list_all2 text_ok ns predicates" and "order_by \<in> set ORDER_FIELDS"
  shows "text_ok (sum_list ns + 1) (select_text columns predicates order_by descending)"
proof -
  have w: "text_ok 0 ''SELECT ''" "text_ok 0 '' FROM packet_index''" "text_ok 0 '' WHERE ''" "text_ok 0 '' AND ''" "text_ok 0 '',''"
    "text_ok 0 '' ORDER BY ''" "text_ok 0 '' ''" "text_ok 0 '',packet_ordinal ''" "text_ok 1 '' LIMIT ?''"
    by (simp_all add: text_ok_def SQL_ALPHABET_def)
  have dir: "text_ok 0 (if descending then ''DESC'' else ''ASC'')" by (simp add: text_ok_def SQL_ALPHABET_def)
  have "list_all2 text_ok (map (\<lambda>_. 0) columns) columns"
    using assms(1) by (induction columns) (simp_all add: field_text)
  from text_ok_join [OF w(5) this] have cols: "text_ok 0 (py_join '','' columns)" by simp
  have ord: "text_ok 0 order_by" using assms(3) by (intro field_text) (auto simp: ORDER_FIELDS_def PUBLIC_FIELDS_def)
  have wh: "text_ok (sum_list ns) (if predicates \<noteq> [] then '' WHERE '' @ py_join '' AND '' predicates else [])"
  proof (cases "predicates = []")
    case True
    with assms(2) show ?thesis by (simp add: text_ok_Nil)
  next
    case False
    with text_ok_append [OF w(3) text_ok_join [OF w(4) assms(2)]] show ?thesis by simp
  qed
  have tie: "text_ok 0 (if order_by \<noteq> ''packet_ordinal'' then '',packet_ordinal '' @ (if descending then ''DESC'' else ''ASC'') else [])"
    using text_ok_append [OF w(8) dir] by (simp add: text_ok_Nil)
  from text_ok_append [OF w(1) text_ok_append [OF cols text_ok_append [OF w(2) text_ok_append [OF wh text_ok_append [OF w(6)
      text_ok_append [OF ord text_ok_append [OF w(7) text_ok_append [OF dir text_ok_append [OF tie w(9)]]]]]]]]]
  show ?thesis by (simp only: select_text_def Let_def add_0 add_0_right ac_simps)
qed

text \<open>The whole statement: one mark per parameter, and bounded everything.\<close>

lemma sum_lengths: "list_all (\<lambda>(t, xs). length xs \<le> k) ps \<Longrightarrow> length (concat (map snd ps)) \<le> k * length ps"
  by (induction ps) auto

lemma texts_ok: "list_all (\<lambda>(t, xs). text_ok (length xs) t) ps \<Longrightarrow> list_all2 text_ok (map (length \<circ> snd) ps) (map fst ps)"
  by (induction ps) auto

lemma compile_packet_query_ok:
  assumes "compile_packet_query q = Inr c"
  shows "text_ok (length (cq_parameters c)) (cq_sql c) \<and> cq_columns c = pq_select q \<and>
    2 \<le> cq_fetch_limit c \<and> cq_fetch_limit c \<le> 501 \<and> last (cq_parameters c) = PyInt (cq_fetch_limit c) \<and>
    length (cq_parameters c) \<le> 6434"
proof -
  obtain d l cur fs ps where s: "list_all (\<lambda>c. c \<in> set PUBLIC_FIELDS) (pq_select q)" "pq_order_by q \<in> set ORDER_FIELDS"
      "query_limit (pq_limit q) = Inr l" "length (pq_partition_ids q) \<le> MAX_PARTITIONS" "length (pq_filters q) \<le> MAX_FILTERS"
      "mapE compile_filter (pq_filters q) = Inr fs" "partition_predicate (pq_partition_ids q) = Inr ps"
      "c = \<lparr>cq_sql = select_text (pq_select q) (map fst (fs @ ps @ cursor_predicate d cur)) (pq_order_by q) d,
         cq_parameters = concat (map snd (fs @ ps @ cursor_predicate d cur)) @ [PyInt (l + 1)],
         cq_columns = pq_select q, cq_fetch_limit = l + 1\<rparr>"
    using assms unfolding compile_packet_query_def Let_def bindE_Inr requireQ_def guardE_Inr sum.inject
    by (elim exE conjE) (rule that, assumption+, rule sym, assumption)
  let ?ps = "fs @ ps @ cursor_predicate d cur"
  have f: "list_all (\<lambda>(t, xs). text_ok (length xs) t \<and> length xs \<le> 100) fs"
    using mapE_Inr_member [OF s(6)] compile_filter_text by (fastforce simp: list_all_iff)
  note p = partition_predicate_text [OF s(7)] and k = cursor_predicate_text [of d cur]
  have "list_all (\<lambda>(t, xs). text_ok (length xs) t) ?ps"
    using f p k by (auto simp: list_all_iff)
  then have "list_all2 text_ok (map (length \<circ> snd) ?ps) (map fst ?ps)" by (rule texts_ok)
  from select_text_ok [OF s(1) this s(2), of d]
  have t: "text_ok (length (cq_parameters c)) (cq_sql c)"
    unfolding s(8) by (simp add: length_concat comp_def)
  have "length (concat (map snd fs)) \<le> 100 * length fs" using f by (intro sum_lengths) (auto simp: list_all_iff)
  moreover have "length fs \<le> 64" using mapE_Inr_length [OF s(6)] s(5) by (simp add: MAX_FILTERS_def)
  moreover have "length (concat (map snd ps)) \<le> 32 * length ps"
    using p s(4) by (intro sum_lengths) (auto simp: list_all_iff MAX_PARTITIONS_def)
  moreover have "length (concat (map snd (cursor_predicate d cur))) \<le> 1 * length (cursor_predicate d cur)"
    using k by (intro sum_lengths) (auto simp: list_all_iff)
  ultimately have n: "length (cq_parameters c) \<le> 6434" using p k unfolding s(8) by simp
  have "1 \<le> l" "l \<le> 500" using s(3) by (auto simp: query_limit_def query_error_def MAX_LIMIT_def split: pyval.splits if_splits)
  with t n show ?thesis unfolding s(8) by simp
qed

section \<open>What can be raised\<close>

definition is_query_error :: "py_error \<Rightarrow> bool" where
  "is_query_error e = (case e of PacketQueryError _ \<Rightarrow> True | _ \<Rightarrow> False)"

lemma mapE_Inl: "mapE f xs = Inl e \<Longrightarrow> \<exists>x\<in>set xs. f x = Inl e"
  by (induction xs) (auto simp: bindE_Inl)

lemma bounded_scalar_error: "bounded_scalar f v = Inl e \<Longrightarrow> is_query_error e"
  by (auto simp: bounded_scalar_def query_error_def is_query_error_def split: pyval.splits if_splits)

lemma requireQ_error: "requireQ b m = Inl e \<Longrightarrow> is_query_error e"
  by (auto simp: requireQ_def guardE_Inl is_query_error_def)

lemma requireSeq_error: "requireSeq v m = Inl e \<Longrightarrow> is_query_error e"
  by (auto simp: requireSeq_def query_error_def is_query_error_def split: option.splits)

lemma query_error_is: "query_error m = Inl e \<Longrightarrow> is_query_error e"
  by (auto simp: query_error_def is_query_error_def)

lemmas query_errors = requireQ_error requireSeq_error query_error_is bounded_scalar_error

lemma symbols_complete: "op \<in> set OPERATORS \<Longrightarrow> op \<notin> {''cidr'', ''in'', ''between''} \<Longrightarrow> dict_get SYMBOLS op \<noteq> None"
  by (auto simp: OPERATORS_def SYMBOLS_def dict_simps)

lemma compile_filter_error: "compile_filter f = Inl e \<Longrightarrow> is_query_error e"
proof -
  assume c: "compile_filter f = Inl e"
  let ?op = "py_lower (pf_op f)"
  have s: "dict_get SYMBOLS ?op \<noteq> None \<Longrightarrow> compile_scalar (pf_field f) ?op (pf_value f) = Inl e \<Longrightarrow> is_query_error e"
    by (auto simp: compile_scalar_def bindE_Inl dest: query_errors split: if_splits option.splits)
  have l: "compile_list (pf_field f) ?op (pf_value f) = Inl e \<Longrightarrow> is_query_error e"
    by (auto simp: compile_list_def bindE_Inl dest: query_errors dest!: mapE_Inl split: if_splits)
  have d: "compile_cidr (pf_field f) (pf_value f) = Inl e \<Longrightarrow> is_query_error e"
    by (auto simp: compile_cidr_def bindE_Inl dest: query_errors split: option.splits)
  show ?thesis
    using c s l d symbols_complete [of ?op]
    by (auto simp: compile_filter_def Let_def bindE_Inl requireQ_def guardE_Inr guardE_Inl is_query_error_def split: if_splits)
qed

lemma filter_of_item_error: "filter_of_item r i = Inl e \<Longrightarrow> is_query_error e"
  by (auto simp: filter_of_item_def dest: query_errors split: pyval.splits if_splits)

lemma query_from_dict_error: "query_from_dict r p = Inl e \<Longrightarrow> is_query_error e"
  by (auto simp: query_from_dict_def Let_def bindE_Inl dest: query_errors filter_of_item_error dest!: mapE_Inl split: pyval.splits)

lemma py_distinct_subset: "set (py_distinct vs) \<subseteq> set vs"
proof -
  have "set (foldl (\<lambda>acc v. if list_ex (\<lambda>w. py_eq w v) acc then acc else acc @ [v]) acc vs) \<subseteq> set acc \<union> set vs" for acc
  proof (induction vs arbitrary: acc)
    case (Cons v vs)
    show ?case using Cons.IH [of acc] Cons.IH [of "acc @ [v]"] by auto
  qed simp
  from this [of "[]"] show ?thesis by (simp add: py_distinct_def)
qed

lemma sorted_partitions_error:
  assumes "sorted_partitions vs = Inl e" and "list_all is_number vs"
  shows "is_query_error e"
proof -
  have "list_all set_member vs" using assms(2) by (auto simp: list_all_iff is_number_def set_member_def split: pyval.splits)
  moreover have "sortable (py_distinct vs)" using assms(2) py_distinct_subset [of vs] by (auto simp: sortable_def list_all_iff)
  ultimately show ?thesis using assms(1)
    by (auto simp: sorted_partitions_def dest: query_errors split: option.splits)
qed

text \<open>A computation all of whose exceptions are \<open>PacketQueryError\<close>.\<close>

definition query_safe :: "'a result \<Rightarrow> bool" where
  "query_safe m \<longleftrightarrow> (case m of Inl e \<Rightarrow> is_query_error e | Inr _ \<Rightarrow> True)"

lemma query_safeI: "(\<And>e. m = Inl e \<Longrightarrow> is_query_error e) \<Longrightarrow> query_safe m"
  by (simp add: query_safe_def split: sum.split)

lemma query_safe_bind: "query_safe m \<Longrightarrow> (\<And>x. query_safe (f x)) \<Longrightarrow> query_safe (bindE m f)"
  by (cases m) (simp_all add: query_safe_def)

lemma query_safe_Inr: "query_safe (Inr x)"
  by (simp add: query_safe_def)

lemma query_safe_require: "query_safe (requireQ b m)"
  by (rule query_safeI) (rule requireQ_error)

lemma query_safe_parts:
  "query_safe (query_limit v)" "query_safe (query_cursor ob v)" "query_safe (query_descending v)"
  "query_safe (mapE compile_filter fs)"
  by (rule query_safeI, auto simp: query_limit_def query_cursor_def query_descending_def bindE_Inl
      dest: query_errors compile_filter_error dest!: mapE_Inl split: pyval.splits if_splits)+

lemma compile_packet_query_error:
  assumes "list_all is_number (pq_partition_ids q)"
  shows "query_safe (compile_packet_query q)"
proof -
  have p: "query_safe (partition_predicate (pq_partition_ids q))"
    using sorted_partitions_error [OF _ assms] by (intro query_safeI) (auto simp: partition_predicate_def bindE_Inl split: if_splits)
  show ?thesis
    unfolding compile_packet_query_def Let_def
    by (intro query_safe_bind query_safe_require query_safe_parts p query_safe_Inr)
qed

section \<open>What a CIDR filter selects\<close>

lemma compile_cidr_exact:
  assumes "compile_cidr f (PyStr s) = Inr (sql, params)"
  shows "\<exists>v w a p lo hi. ip_network s = Some (network_of v w a p) \<and> p \<le> w \<and> (v = 4 \<and> w = 32 \<or> v = 6 \<and> w = 128) \<and>
    params = [PyInt v, PyBytes lo, PyBytes hi] \<and>
    (\<forall>x < 2 ^ w. lo \<le> be_bytes (w div 8) (int x) \<and> be_bytes (w div 8) (int x) \<le> hi \<longleftrightarrow> x div 2 ^ (w - p) = a div 2 ^ (w - p))"
proof -
  obtain n where n: "ip_network s = Some n" "params = [PyInt (net_version n), PyBytes (packed_first n), PyBytes (packed_last n)]"
    using assms by (auto simp: compile_cidr_def bindE_Inr requireQ_def guardE_Inr bounded_scalar_def query_error_def split: if_splits option.splits)
  obtain v w a p where b: "n = network_of v w a p" "p \<le> w" "a < 2 ^ w" "(v = 4 \<and> w = 32) \<or> (v = 6 \<and> w = 128)"
    using ip_network_block [OF n(1)] .
  have v: "net_version n = v" "address_bytes n = w div 8" using b(4) by (auto simp: b(1) network_of_def address_bytes_def Let_def)
  have "packed_first n \<le> be_bytes (w div 8) (int x) \<and> be_bytes (w div 8) (int x) \<le> packed_last n \<longleftrightarrow> x div 2 ^ (w - p) = a div 2 ^ (w - p)"
    if "x < 2 ^ w" for x
    using packed_range_exact [OF b(2-4) that] by (simp only: b(1) [symmetric] v(2))
  with n b v(1) show ?thesis by blast
qed

end
