(* ===== verification/SelectorPlan.thy ===== *)
theory SelectorPlan imports Normalise Sha256 "HOL-Library.Product_Lexorder" begin

text \<open>
  The planner of core/forensics/rust\_plan.py: which plugins an offline run needs, whether the run can
  use the aggregate mode, the compiled selector programs and the two digests that protect a queued
  plan.  \<open>build_rust_analysis_plan\<close> and \<open>verify_rust_analysis_plan\<close> are translated with every
  exception; the lemmas show that the mode is decided by the incompatibilities alone, that program ids
  are dense and resolve to exactly the declared programs, and that a plan verifies against the
  inventory it was built from.
\<close>

record plugin_plan_entry =
  pe_plugin_type :: string
  pe_name :: string
  pe_detector_id :: string
  pe_api_version :: int
  pe_contract_version :: int
  pe_detector_semantic_version :: string
  pe_supported_link_types :: "string list"
  pe_supported_capture_sources :: "string list"
  pe_capability :: "offline_capability option"
  pe_capability_state :: string
  pe_capability_errors :: "string list"
  pe_applicable :: bool
  pe_selector_program_ids :: "nat list"

record compiled_program =
  cp_program_id :: nat
  cp_program :: selector_program

record rust_analysis_plan =
  rp_schema_version :: int
  rp_source_type :: string
  rp_link_type :: string
  rp_execution_mode :: string
  rp_semantic_plugin_digest :: string
  rp_execution_plan_digest :: string
  rp_plugins :: "plugin_plan_entry list"
  rp_selector_programs :: "compiled_program list"
  rp_incompatibilities :: "string list"

section \<open>Collecting the plugins\<close>

definition manifest_field :: "(plugin_manifest \<Rightarrow> 'a option) \<Rightarrow> plugin \<Rightarrow> 'a option" where
  "manifest_field f plugin = (case pg_manifest plugin of Some m \<Rightarrow> f m | None \<Rightarrow> None)"

text \<open>\<open>int(x or 1)\<close> and \<open>str(x or '')\<close> on an attribute that may be missing.\<close>

definition int_or_1 :: "int option \<Rightarrow> int" where
  "int_or_1 x = (case x of Some i \<Rightarrow> if i = 0 then 1 else i | None \<Rightarrow> 1)"

definition str_or_empty :: "string option \<Rightarrow> string" where
  "str_or_empty x = (case x of Some s \<Rightarrow> s | None \<Rightarrow> [])"

definition list_attr :: "string list option \<Rightarrow> string list option \<Rightarrow> string list" where
  "list_attr from_manifest from_plugin =
     (case from_manifest of Some l \<Rightarrow> l | None \<Rightarrow> (case from_plugin of Some l \<Rightarrow> l | None \<Rightarrow> []))"

definition plugin_metadata :: "plugin \<Rightarrow> string \<times> int \<times> string \<times> string list \<times> string list" where
  "plugin_metadata plugin =
     (str_or_empty (manifest_field mf_detector_id plugin),
      int_or_1 (manifest_field mf_contract_version plugin),
      str_or_empty (manifest_field mf_version plugin),
      sort (remdups (list_attr (manifest_field mf_supported_link_types plugin) (pg_supported_link_types plugin))),
      sort (remdups (list_attr (manifest_field mf_supported_capture_sources plugin) (pg_supported_capture_sources plugin))))"

definition plugin_label :: "string \<Rightarrow> string \<Rightarrow> string \<Rightarrow> string" where
  "plugin_label plugin_type name msg = plugin_type @ '' '' @ name @ '': '' @ msg"

text \<open>The capability, its state and its errors, from what a plugin declares.\<close>

definition declared_capability :: "cap_declaration option \<Rightarrow> (offline_capability option \<times> string \<times> string list) result" where
  "declared_capability decl =
     (case decl of
        None \<Rightarrow> Inr (None, ''missing'', [])
      | Some d \<Rightarrow>
          bindE (validate_offline_capability d) (\<lambda>errors.
          case d of
            Declared c \<Rightarrow>
              if errors \<noteq> [] then Inr (None, ''invalid'', errors)
              else bindE (normalized_capability c) (\<lambda>n. Inr (Some n, ''declared'', errors))
          | ForeignObject \<Rightarrow> Inr (None, ''invalid'', errors)))"

definition entry_incompatibilities :: "string \<Rightarrow> string \<Rightarrow> cap_declaration option \<Rightarrow> string list \<Rightarrow> string list" where
  "entry_incompatibilities plugin_type name decl errors =
     (if decl = None then [plugin_label plugin_type name ''missing aggregate-v1 offline capability declaration'']
      else map (plugin_label plugin_type name) errors)"

text \<open>The loop body for one enabled plugin: its entry and the incompatibilities it adds.\<close>

definition plan_plugin :: "string \<Rightarrow> string \<Rightarrow> string \<times> plugin \<Rightarrow> (plugin_plan_entry \<times> string list) result" where
  "plan_plugin source_type link_type tp = (case tp of (plugin_type, plugin) \<Rightarrow>
     let name = (case pg_name plugin of Some n \<Rightarrow> n | None \<Rightarrow> pg_type_name plugin);
         decl = offline_capability_for plugin
     in case plugin_metadata plugin of (detector_id, contract_version, semantic_version, links, sources) \<Rightarrow>
        let applicable = (source_type \<in> set sources \<and> link_type \<in> set links) in
        bindE (declared_capability decl) (\<lambda>(capability, state, errors).
        Inr (\<lparr>pe_plugin_type = plugin_type, pe_name = name, pe_detector_id = detector_id,
              pe_api_version = int_or_1 (pg_api_version plugin), pe_contract_version = contract_version,
              pe_detector_semantic_version = semantic_version, pe_supported_link_types = links,
              pe_supported_capture_sources = sources, pe_capability = capability, pe_capability_state = state,
              pe_capability_errors = errors, pe_applicable = applicable, pe_selector_program_ids = []\<rparr>,
            if applicable then entry_incompatibilities plugin_type name decl errors else [])))"

definition entry_order :: "plugin_plan_entry \<Rightarrow> string \<times> string \<times> string \<times> int" where
  "entry_order e = (pe_plugin_type e, pe_detector_id e, pe_name e, pe_api_version e)"

definition collect_plugins ::
  "plugin list \<Rightarrow> plugin list \<Rightarrow> string \<Rightarrow> string \<Rightarrow> (plugin_plan_entry list \<times> string list) result" where
  "collect_plugins parsers detectors source_type link_type =
     bindE (mapE (plan_plugin source_type link_type)
        (map (Pair ''parser'') (filter pg_enabled parsers) @ map (Pair ''detector'') (filter pg_enabled detectors))) (\<lambda>es.
     Inr (sort_key entry_order (map fst es), sort (remdups (concat (map snd es)))))"

section \<open>Digests\<close>

definition canonical_capability :: "offline_capability option \<Rightarrow> pyval result" where
  "canonical_capability capability =
     (case capability of
        None \<Rightarrow> Inr PyNone
      | Some c0 \<Rightarrow>
          bindE (normalized_capability c0) (\<lambda>c.
          bindE (mapE (canonical_program None) (oc_selector_programs c)) (\<lambda>ps.
          Inr (PyDict [(''contract'', PyStr (oc_contract c)), (''packet_view'', PyStr (oc_packet_view c)),
             (''packet_flow_view'', PyStr (oc_packet_flow_view c)), (''selector_programs'', PyList ps),
             (''flow_input'', PyStr (oc_flow_input c)), (''stream_input'', PyStr (oc_stream_input c)),
             (''conversation_input'', PyStr (oc_conversation_input c))]))))"

definition py_strs :: "string list \<Rightarrow> pyval" where
  "py_strs ss = PyList (map PyStr ss)"

definition semantic_entry :: "plugin_plan_entry \<Rightarrow> pyval result" where
  "semantic_entry e =
     bindE (canonical_capability (pe_capability e)) (\<lambda>capability.
     Inr (PyDict [(''plugin_type'', PyStr (pe_plugin_type e)), (''detector_id'', PyStr (pe_detector_id e)),
        (''name'', PyStr (pe_name e)), (''api_version'', PyInt (pe_api_version e)),
        (''contract_version'', PyInt (pe_contract_version e)),
        (''detector_semantic_version'', PyStr (pe_detector_semantic_version e)),
        (''supported_link_types'', py_strs (pe_supported_link_types e)),
        (''supported_capture_sources'', py_strs (pe_supported_capture_sources e)),
        (''capability_state'', PyStr (pe_capability_state e)),
        (''capability_errors'', py_strs (pe_capability_errors e)),
        (''capability'', capability)]))"

definition ascii_digest :: "string \<Rightarrow> string result" where
  "ascii_digest msg = (case encode_ascii msg of
     Some b \<Rightarrow> Inr (sha256_hex b) | None \<Rightarrow> Inl (ValueError ''ordinal not in range(128)''))"

definition semantic_digest :: "plugin_plan_entry list \<Rightarrow> string result" where
  "semantic_digest entries =
     bindE (mapE semantic_entry entries) (\<lambda>payload. bindE (canonical_json (PyList payload)) ascii_digest)"

definition execution_payload :: "rust_analysis_plan \<Rightarrow> pyval result" where
  "execution_payload plan =
     bindE (mapE (\<lambda>p. canonical_program (Some (int (cp_program_id p))) (cp_program p)) (rp_selector_programs plan)) (\<lambda>ps.
     Inr (PyDict [(''schema_version'', PyInt (rp_schema_version plan)), (''source_type'', PyStr (rp_source_type plan)),
        (''link_type'', PyStr (rp_link_type plan)), (''execution_mode'', PyStr (rp_execution_mode plan)),
        (''semantic_plugin_digest'', PyStr (rp_semantic_plugin_digest plan)),
        (''plugins'', PyList (map (\<lambda>e. PyDict [(''plugin_type'', PyStr (pe_plugin_type e)),
            (''detector_id'', PyStr (pe_detector_id e)), (''name'', PyStr (pe_name e)),
            (''applicable'', PyBool (pe_applicable e)), (''capability_state'', PyStr (pe_capability_state e)),
            (''selector_program_ids'', PyList (map (\<lambda>i. PyInt (int i)) (pe_selector_program_ids e)))]) (rp_plugins plan))),
        (''selector_programs'', PyList ps), (''incompatibilities'', py_strs (rp_incompatibilities plan))]))"

definition execution_digest :: "rust_analysis_plan \<Rightarrow> string result" where
  "execution_digest plan = bindE (execution_payload plan) (\<lambda>v. bindE (canonical_json v) ascii_digest)"

section \<open>Compiling the selectors\<close>

text \<open>The capability of an entry that takes part in the compilation.\<close>

definition planned_capability :: "plugin_plan_entry \<Rightarrow> offline_capability option result" where
  "planned_capability e =
     (case pe_capability e of
        Some c \<Rightarrow> if pe_applicable e then bindE (validate_capability c) (\<lambda>errors. Inr (if errors = [] then Some c else None))
                  else Inr None
      | None \<Rightarrow> Inr None)"

definition planned_programs :: "plugin_plan_entry \<Rightarrow> selector_program list result" where
  "planned_programs e = bindE (planned_capability e) (\<lambda>c.
     Inr (case c of Some c \<Rightarrow> oc_selector_programs c | None \<Rightarrow> []))"

definition assign_ids :: "(string, nat) dict \<Rightarrow> plugin_plan_entry \<Rightarrow> plugin_plan_entry result" where
  "assign_ids program_ids e =
     bindE (planned_programs e) (\<lambda>ps.
     bindE (if program_ids = [] then Inr []
            else mapE (\<lambda>p. bindE (program_text p) (\<lambda>k.
                   case dict_get program_ids k of Some i \<Rightarrow> Inr i | None \<Rightarrow> Inl KeyError)) ps) (\<lambda>ids.
     Inr (e\<lparr>pe_selector_program_ids := sort (remdups ids)\<rparr>)))"

definition too_many_programs :: "nat \<Rightarrow> string" where
  "too_many_programs n = ''aggregate selector plan requires '' @ show_nat n @ '' programs; maximum is 64''"

definition compile_selectors ::
  "plugin_plan_entry list \<Rightarrow> (plugin_plan_entry list \<times> compiled_program list \<times> string list) result" where
  "compile_selectors entries =
     bindE (mapE planned_programs entries) (\<lambda>pss.
     bindE (keyed_by program_item (concat pss)) (\<lambda>programs_by_json0.
     let errors = (if length programs_by_json0 > 64 then [too_many_programs (length programs_by_json0)] else []);
         programs_by_json = (if length programs_by_json0 > 64 then [] else programs_by_json0);
         program_ids = map (\<lambda>(i, k). (k, i)) (enumerate 0 (sort (dict_keys programs_by_json)));
         compiled = map (\<lambda>(i, n). \<lparr>cp_program_id = i, cp_program = n\<rparr>) (enumerate 0 (sorted_values programs_by_json))
     in bindE (mapE (assign_ids program_ids) entries) (\<lambda>planned_entries.
        Inr (planned_entries, compiled, errors))))"

section \<open>Building and verifying\<close>

definition unsupported_source :: "string \<Rightarrow> string list" where
  "unsupported_source source_type = (if source_type \<in> set AGGREGATE_SOURCE_TYPES then []
     else [''source_type '' @ source_type @ '' is not supported by aggregate-v1''])"

definition unsupported_link :: "string \<Rightarrow> string list" where
  "unsupported_link link_type = (if link_type \<in> set AGGREGATE_LINK_TYPES then []
     else [''link_type '' @ link_type @ '' is not supported by aggregate-v1''])"

definition build_rust_analysis_plan ::
  "plugin list \<Rightarrow> plugin list \<Rightarrow> string \<Rightarrow> string \<Rightarrow> bool \<Rightarrow> string option \<Rightarrow> rust_analysis_plan result" where
  "build_rust_analysis_plan parsers detectors source_type link_type strict_aggregate requested_mode =
     (if requested_mode \<notin> {None, Some ''auto'', Some AGGREGATE_EXECUTION_MODE, Some COMPATIBILITY_EXECUTION_MODE}
      then Inl (ValueError ''requested_mode must be auto, aggregate-v1, or compatibility-v1'')
      else if strict_aggregate \<and> requested_mode = Some COMPATIBILITY_EXECUTION_MODE
      then Inl (ValueError ''strict_aggregate cannot request compatibility-v1 execution'')
      else
        bindE (collect_plugins parsers detectors source_type link_type) (\<lambda>(entries, incompatibilities0).
        bindE (compile_selectors entries) (\<lambda>(planned_entries, selector_programs, selector_errors).
        let incompatibilities = sort (remdups (incompatibilities0 @ unsupported_source source_type
              @ unsupported_link link_type @ selector_errors))
        in bindE (semantic_digest planned_entries) (\<lambda>digest.
        if (strict_aggregate \<or> requested_mode = Some AGGREGATE_EXECUTION_MODE) \<and> incompatibilities \<noteq> []
        then Inl (AggregateCapabilityError incompatibilities)
        else
          let execution_mode = (if requested_mode = Some COMPATIBILITY_EXECUTION_MODE then COMPATIBILITY_EXECUTION_MODE
                else if incompatibilities = [] then AGGREGATE_EXECUTION_MODE else COMPATIBILITY_EXECUTION_MODE);
              plan = \<lparr>rp_schema_version = RUST_PLAN_SCHEMA_VERSION, rp_source_type = source_type,
                rp_link_type = link_type, rp_execution_mode = execution_mode, rp_semantic_plugin_digest = digest,
                rp_execution_plan_digest = [], rp_plugins = planned_entries,
                rp_selector_programs = selector_programs, rp_incompatibilities = incompatibilities\<rparr>
          in bindE (execution_digest plan) (\<lambda>x. Inr (plan\<lparr>rp_execution_plan_digest := x\<rparr>))))))"

definition drift_error :: "string \<Rightarrow> string \<Rightarrow> py_error" where
  "drift_error queued current = RustPlanDriftError
     (''queued plugin inventory changed before replay (queued semantic '' @ queued @ '', current semantic '' @ current @ '')'')"

definition verify_rust_analysis_plan ::
  "rust_analysis_plan \<Rightarrow> plugin list \<Rightarrow> plugin list \<Rightarrow> rust_analysis_plan result" where
  "verify_rust_analysis_plan queued parsers detectors =
     bindE (semantic_digest (rp_plugins queued)) (\<lambda>sd.
     bindE (guardE (sd = rp_semantic_plugin_digest queued) (RustPlanIntegrityError ''semantic plugin digest mismatch'')) (\<lambda>_.
     bindE (execution_digest queued) (\<lambda>xd.
     bindE (guardE (xd = rp_execution_plan_digest queued) (RustPlanIntegrityError ''execution-plan digest mismatch'')) (\<lambda>_.
     bindE (build_rust_analysis_plan parsers detectors (rp_source_type queued) (rp_link_type queued) False
              (Some (rp_execution_mode queued))) (\<lambda>current.
     bindE (guardE (rp_semantic_plugin_digest current = rp_semantic_plugin_digest queued \<and>
                    rp_execution_plan_digest current = rp_execution_plan_digest queued)
        (drift_error (rp_semantic_plugin_digest queued) (rp_semantic_plugin_digest current))) (\<lambda>_.
     Inr queued))))))"


section \<open>The mode\<close>

text \<open>What a successful build fixes: everything but the mode comes from the inventory.\<close>

definition requested_mode_ok :: "bool \<Rightarrow> string option \<Rightarrow> bool" where
  "requested_mode_ok strict req \<longleftrightarrow>
     req \<in> {None, Some ''auto'', Some AGGREGATE_EXECUTION_MODE, Some COMPATIBILITY_EXECUTION_MODE} \<and>
     \<not> (strict \<and> req = Some COMPATIBILITY_EXECUTION_MODE)"

definition chosen_mode :: "string option \<Rightarrow> string list \<Rightarrow> string" where
  "chosen_mode req inc = (if req = Some COMPATIBILITY_EXECUTION_MODE then COMPATIBILITY_EXECUTION_MODE
     else if inc = [] then AGGREGATE_EXECUTION_MODE else COMPATIBILITY_EXECUTION_MODE)"

definition plan_of :: "string \<Rightarrow> string \<Rightarrow> string option \<Rightarrow> plugin_plan_entry list \<Rightarrow> compiled_program list \<Rightarrow> string list
    \<Rightarrow> string \<Rightarrow> string \<Rightarrow> rust_analysis_plan" where
  "plan_of src link req planned progs inc digest x =
     \<lparr>rp_schema_version = RUST_PLAN_SCHEMA_VERSION, rp_source_type = src, rp_link_type = link,
        rp_execution_mode = chosen_mode req inc, rp_semantic_plugin_digest = digest, rp_execution_plan_digest = x,
        rp_plugins = planned, rp_selector_programs = progs, rp_incompatibilities = inc\<rparr>"

definition all_incompatibilities :: "string \<Rightarrow> string \<Rightarrow> string list \<Rightarrow> string list \<Rightarrow> string list" where
  "all_incompatibilities src link inc0 serrs = sort (remdups (inc0 @ unsupported_source src @ unsupported_link link @ serrs))"

lemma execution_digest_of: "execution_digest (plan_of src link req planned progs inc digest x) =
    execution_digest (plan_of src link req planned progs inc digest y)"
  by (simp add: execution_digest_def execution_payload_def plan_of_def)

lemma build_stages: "build_rust_analysis_plan ps ds src link strict req =
   (if \<not> requested_mode_ok strict req then build_rust_analysis_plan ps ds src link strict req
    else bindE (collect_plugins ps ds src link) (\<lambda>(entries, inc0).
      bindE (compile_selectors entries) (\<lambda>(planned, progs, serrs).
      bindE (semantic_digest planned) (\<lambda>digest.
      let inc = all_incompatibilities src link inc0 serrs in
      if (strict \<or> req = Some AGGREGATE_EXECUTION_MODE) \<and> inc \<noteq> [] then Inl (AggregateCapabilityError inc)
      else bindE (execution_digest (plan_of src link req planned progs inc digest [])) (\<lambda>x.
        Inr (plan_of src link req planned progs inc digest x))))))"
proof (cases "requested_mode_ok strict req")
  case True
  then have g: "\<not> req \<notin> {None, Some ''auto'', Some AGGREGATE_EXECUTION_MODE, Some COMPATIBILITY_EXECUTION_MODE}"
    "\<not> (strict \<and> req = Some COMPATIBILITY_EXECUTION_MODE)"
    unfolding requested_mode_ok_def by argo+
  show ?thesis
    unfolding build_rust_analysis_plan_def Let_def if_not_P [OF g(1)] if_not_P [OF g(2)]
    by (simp add: True plan_of_def all_incompatibilities_def chosen_mode_def cong: if_cong)
qed simp

lemma build_bad_mode: "\<not> requested_mode_ok strict req \<Longrightarrow> \<exists>e. build_rust_analysis_plan ps ds src link strict req = Inl e"
proof -
  assume "\<not> requested_mode_ok strict req"
  then consider "req \<notin> {None, Some ''auto'', Some AGGREGATE_EXECUTION_MODE, Some COMPATIBILITY_EXECUTION_MODE}"
    | "\<not> req \<notin> {None, Some ''auto'', Some AGGREGATE_EXECUTION_MODE, Some COMPATIBILITY_EXECUTION_MODE}"
      "strict \<and> req = Some COMPATIBILITY_EXECUTION_MODE"
    unfolding requested_mode_ok_def by argo
  then show ?thesis
    by cases (unfold build_rust_analysis_plan_def, simp_all only: if_P if_not_P sum.inject, simp_all)
qed

lemma buildE:
  assumes b: "build_rust_analysis_plan ps ds src link strict req = Inr plan"
  obtains entries inc0 planned progs serrs digest inc x where "requested_mode_ok strict req"
      "collect_plugins ps ds src link = Inr (entries, inc0)" "compile_selectors entries = Inr (planned, progs, serrs)"
      "inc = all_incompatibilities src link inc0 serrs" "semantic_digest planned = Inr digest"
      "\<not> ((strict \<or> req = Some AGGREGATE_EXECUTION_MODE) \<and> inc \<noteq> [])"
      "execution_digest plan = Inr x" "plan = plan_of src link req planned progs inc digest x"
proof -
  have ok: "requested_mode_ok strict req" using b build_bad_mode [of strict req ps ds src link] by auto
  let ?G = "\<lambda>inc0 (planned, progs, serrs).
      bindE (semantic_digest planned) (\<lambda>digest.
      let inc = all_incompatibilities src link inc0 serrs in
      if (strict \<or> req = Some AGGREGATE_EXECUTION_MODE) \<and> inc \<noteq> [] then Inl (AggregateCapabilityError inc)
      else bindE (execution_digest (plan_of src link req planned progs inc digest [])) (\<lambda>x.
        Inr (plan_of src link req planned progs inc digest x)))"
  let ?F = "\<lambda>(entries, inc0). bindE (compile_selectors entries) (?G inc0)"
  have "bindE (collect_plugins ps ds src link) ?F = Inr plan"
    using b by (subst (asm) build_stages) (simp only: ok not_True_eq_False if_False)
  then obtain ei where ei: "collect_plugins ps ds src link = Inr ei" "?F ei = Inr plan"
    unfolding bindE_Inr [of "collect_plugins ps ds src link"] by (elim exE conjE) (rule that)
  obtain entries inc0 where p: "ei = (entries, inc0)" by (cases ei)
  note e = ei(1) [unfolded p]
  have "bindE (compile_selectors entries) (?G inc0) = Inr plan" using ei(2) unfolding p prod.case .
  then obtain pps where pps: "compile_selectors entries = Inr pps" "?G inc0 pps = Inr plan"
    unfolding bindE_Inr [of "compile_selectors entries"] by (elim exE conjE) (rule that)
  obtain planned progs serrs where q: "pps = (planned, progs, serrs)" by (cases pps)
  note c = pps(1) [unfolded q] and b2 = pps(2) [unfolded q prod.case]
  define inc where "inc = all_incompatibilities src link inc0 serrs"
  obtain digest where d: "semantic_digest planned = Inr digest"
    and b3: "(if (strict \<or> req = Some AGGREGATE_EXECUTION_MODE) \<and> inc \<noteq> [] then Inl (AggregateCapabilityError inc)
      else bindE (execution_digest (plan_of src link req planned progs inc digest [])) (\<lambda>x.
        Inr (plan_of src link req planned progs inc digest x))) = Inr plan"
    using b2 unfolding bindE_Inr [of "semantic_digest planned"] Let_def inc_def [symmetric] by (elim exE conjE) (rule that)
  have n: "\<not> ((strict \<or> req = Some AGGREGATE_EXECUTION_MODE) \<and> inc \<noteq> [])"
    using b3 by (rule contrapos_pn) (simp only: if_P sum.distinct not_False_eq_True)
  obtain x where x: "execution_digest (plan_of src link req planned progs inc digest []) = Inr x"
    and p: "plan = plan_of src link req planned progs inc digest x"
    using b3 unfolding if_not_P [OF n] bindE_Inr by (elim exE conjE) (rule that, auto)
  have "execution_digest plan = Inr x"
    unfolding p x [symmetric] by (rule execution_digest_of)
  from that [OF ok e c inc_def d n this p] show thesis .
qed

lemma buildI:
  assumes "requested_mode_ok strict req" and "collect_plugins ps ds src link = Inr (entries, inc0)"
    and "compile_selectors entries = Inr (planned, progs, serrs)"
    and i: "inc = all_incompatibilities src link inc0 serrs" and "semantic_digest planned = Inr digest"
    and n: "\<not> ((strict \<or> req = Some AGGREGATE_EXECUTION_MODE) \<and> inc \<noteq> [])"
    and x: "execution_digest plan = Inr x" and p: "plan = plan_of src link req planned progs inc digest x"
  shows "build_rust_analysis_plan ps ds src link strict req = Inr plan"
proof -
  have "execution_digest (plan_of src link req planned progs inc digest []) = Inr x"
    unfolding x [symmetric] p by (rule execution_digest_of)
  then show ?thesis
    by (subst build_stages) (simp only: assms(1-3,5) not_True_eq_False if_False bindE_simps prod.case i [symmetric] Let_def if_not_P [OF n] p)
qed

lemma modes_differ: "COMPATIBILITY_EXECUTION_MODE \<noteq> AGGREGATE_EXECUTION_MODE" "AGGREGATE_EXECUTION_MODE \<noteq> COMPATIBILITY_EXECUTION_MODE"
  by (simp_all add: COMPATIBILITY_EXECUTION_MODE_def AGGREGATE_EXECUTION_MODE_def)

lemma build_mode:
  assumes "build_rust_analysis_plan ps ds src link strict req = Inr plan"
  shows "(rp_execution_mode plan = AGGREGATE_EXECUTION_MODE \<longleftrightarrow> rp_incompatibilities plan = [] \<and> req \<noteq> Some COMPATIBILITY_EXECUTION_MODE)"
    and "strict \<or> req = Some AGGREGATE_EXECUTION_MODE \<Longrightarrow> rp_execution_mode plan = AGGREGATE_EXECUTION_MODE"
    and "rp_execution_mode plan \<in> {AGGREGATE_EXECUTION_MODE, COMPATIBILITY_EXECUTION_MODE}"
proof -
  obtain entries inc0 planned progs serrs digest inc x where b: "requested_mode_ok strict req"
      "\<not> ((strict \<or> req = Some AGGREGATE_EXECUTION_MODE) \<and> inc \<noteq> [])"
      "plan = plan_of src link req planned progs inc digest x"
    using assms by (rule buildE)
  have f: "rp_execution_mode plan = chosen_mode req inc" "rp_incompatibilities plan = inc"
    unfolding b(3) by (simp_all add: plan_of_def)
  show "rp_execution_mode plan = AGGREGATE_EXECUTION_MODE \<longleftrightarrow> rp_incompatibilities plan = [] \<and> req \<noteq> Some COMPATIBILITY_EXECUTION_MODE"
    unfolding f by (simp add: chosen_mode_def modes_differ)
  show "rp_execution_mode plan = AGGREGATE_EXECUTION_MODE" if "strict \<or> req = Some AGGREGATE_EXECUTION_MODE"
    unfolding f using that b(1,2) by (auto simp add: chosen_mode_def modes_differ requested_mode_ok_def)
  show "rp_execution_mode plan \<in> {AGGREGATE_EXECUTION_MODE, COMPATIBILITY_EXECUTION_MODE}"
    unfolding f by (simp add: chosen_mode_def)
qed

text \<open>Asking again for the mode a plan has gives the same plan.\<close>

lemma build_again:
  assumes "build_rust_analysis_plan ps ds src link strict req = Inr plan"
  shows "build_rust_analysis_plan ps ds (rp_source_type plan) (rp_link_type plan) False (Some (rp_execution_mode plan)) = Inr plan"
proof -
  obtain entries inc0 planned progs serrs digest inc x where b: "requested_mode_ok strict req"
      "collect_plugins ps ds src link = Inr (entries, inc0)" "compile_selectors entries = Inr (planned, progs, serrs)"
      "inc = all_incompatibilities src link inc0 serrs" "semantic_digest planned = Inr digest"
      "\<not> ((strict \<or> req = Some AGGREGATE_EXECUTION_MODE) \<and> inc \<noteq> [])"
      "execution_digest plan = Inr x" "plan = plan_of src link req planned progs inc digest x"
    using assms by (rule buildE)
  let ?req = "Some (chosen_mode req inc)"
  have m: "chosen_mode ?req inc = chosen_mode req inc" "requested_mode_ok False ?req"
      "\<not> (?req = Some AGGREGATE_EXECUTION_MODE \<and> inc \<noteq> [])"
    using b(6) by (auto simp: chosen_mode_def requested_mode_ok_def modes_differ)
  have p: "plan_of src link ?req planned progs inc digest x = plan"
    unfolding b(8) by (simp add: plan_of_def m(1))
  have f: "rp_source_type plan = src" "rp_link_type plan = link" "rp_execution_mode plan = chosen_mode req inc"
    unfolding b(8) by (simp_all add: plan_of_def)
  show ?thesis
    unfolding f using b(2-5) m p b(7) by (intro buildI [where inc = inc]) auto
qed

lemma build_digests:
  assumes "build_rust_analysis_plan ps ds src link strict req = Inr plan"
  shows "semantic_digest (rp_plugins plan) = Inr (rp_semantic_plugin_digest plan)"
    and "execution_digest plan = Inr (rp_execution_plan_digest plan)"
proof -
  obtain planned progs digest inc x where b: "semantic_digest planned = Inr digest" "execution_digest plan = Inr x"
      "plan = plan_of src link req planned progs inc digest x"
    using assms by (rule buildE)
  show "semantic_digest (rp_plugins plan) = Inr (rp_semantic_plugin_digest plan)"
    using b(1) unfolding b(3) by (simp add: plan_of_def)
  show "execution_digest plan = Inr (rp_execution_plan_digest plan)"
    unfolding b(2) unfolding b(3) by (simp add: plan_of_def)
qed

lemma verify_built:
  assumes "build_rust_analysis_plan ps ds src link strict req = Inr plan"
  shows "verify_rust_analysis_plan plan ps ds = Inr plan"
  using build_digests [OF assms] build_again [OF assms] by (simp add: verify_rust_analysis_plan_def)

section \<open>Entries\<close>

definition entry_normal :: "plugin_plan_entry \<Rightarrow> bool" where
  "entry_normal e \<longleftrightarrow> (case pe_capability e of None \<Rightarrow> True
     | Some c \<Rightarrow> validate_capability c = Inr [] \<and> normalized_capability c = Inr c)"

lemma normalised_is_normal:
  "validate_capability c = Inr [] \<Longrightarrow> normalized_capability c = Inr n \<Longrightarrow> validate_capability n = Inr [] \<and> normalized_capability n = Inr n"
  using normalized_capability_valid [of c] normalized_capability_stable [of c n] by auto

lemma declared_capability_normal:
  "declared_capability decl = Inr (Some c, state, errors) \<Longrightarrow> validate_capability c = Inr [] \<and> normalized_capability c = Inr c"
  by (auto simp: declared_capability_def validate_offline_capability_def bindE_Inr
      split: option.splits cap_declaration.splits if_splits dest: normalised_is_normal)

lemma plan_plugin_normal:
  assumes "plan_plugin src link tp = Inr (e, incs)"
  shows "entry_normal e"
proof -
  obtain t p where tp: "tp = (t, p)" by fastforce
  obtain a b c l s where m: "plugin_metadata p = (a, b, c, l, s)" by (metis prod_cases5)
  obtain cap st er where "declared_capability (offline_capability_for p) = Inr (cap, st, er)" "pe_capability e = cap"
    using assms by (auto simp: tp m plan_plugin_def Let_def bindE_Inr)
  then show ?thesis
    using declared_capability_normal by (auto simp: entry_normal_def split: option.split)
qed

lemma collect_plugins_normal:
  assumes "collect_plugins ps ds src link = Inr (entries, incs)"
  shows "list_all entry_normal entries"
proof -
  obtain es where es: "mapE (plan_plugin src link) (map (Pair ''parser'') (filter pg_enabled ps) @ map (Pair ''detector'') (filter pg_enabled ds)) = Inr es"
    "entries = sort_key entry_order (map fst es)"
    using assms by (auto simp: collect_plugins_def bindE_Inr)
  have "entry_normal e" if "(e, i) \<in> set es" for e i
    using mapE_Inr_member [OF es(1) that] plan_plugin_normal by blast
  then show ?thesis by (auto simp: es(2) list_all_iff)
qed

section \<open>Compiled programs\<close>

text \<open>The programs an entry in normal form contributes: valid, in normal form, keyed by their own text.\<close>

definition program_normal :: "selector_program \<Rightarrow> bool" where
  "program_normal n \<longleftrightarrow> (\<exists>k v. program_item n = Inr (k, n) \<and> valid_program v n)"

lemma sorted_values_covers: "dict_ok d \<Longrightarrow> n \<in> set (sorted_values d) \<Longrightarrow> \<exists>k. dict_get d k = Some n"
  by (auto simp: sorted_values_items sorted_items_member)

lemma normalized_programs:
  assumes v: "validate_capability c = Inr []" and n: "normalized_capability c = Inr c" and m: "p \<in> set (oc_selector_programs c)"
  shows "program_normal p"
proof -
  from n obtain d where d: "keyed_by program_item (oc_selector_programs c) = Inr d"
     "c = c\<lparr>oc_selector_programs := sorted_values d\<rparr>"
    by (auto simp: normalized_capability_def bindE_Inr)
  then have "oc_selector_programs c = sorted_values d" by (cases c) simp
  then obtain k where "dict_get d k = Some p" using m sorted_values_covers [OF keyed_by_ok [OF d(1)]] by auto
  from keyed_programs_text [OF d(1) this] v m show ?thesis
    by (auto simp: program_normal_def validate_capability_iff list_all_iff)
qed

lemma planned_programs_normal:
  assumes "entry_normal e" and "planned_programs e = Inr ps" and "p \<in> set ps"
  shows "program_normal p"
proof -
  from assms(2,3) obtain c where c: "planned_capability e = Inr (Some c)" "ps = oc_selector_programs c"
    by (auto simp: planned_programs_def bindE_Inr split: option.splits)
  then have "pe_capability e = Some c"
    by (auto simp: planned_capability_def bindE_Inr split: option.splits if_splits)
  with assms c show ?thesis by (auto simp: entry_normal_def intro: normalized_programs)
qed

lemma program_normal_text_inj:
  assumes "program_normal m" and "program_normal n" and "program_text m = Inr k" and "program_text n = Inr k"
  shows "m = n"
proof -
  have s: "normalized_program p = Inr p \<and> scalar_program p" if "program_normal p" for p
    using that by (auto simp: program_normal_def program_item_def bindE_Inr intro: valid_program_scalar)
  from s [OF assms(1)] s [OF assms(2)] assms(3,4) show ?thesis by (intro program_text_inj) auto
qed

lemma program_normal_item: "program_normal n \<Longrightarrow> program_item n = Inr (k, y) \<Longrightarrow> y = n \<and> program_text n = Inr k"
  by (auto simp: program_normal_def dest: program_item_text)

text \<open>In a table of normal programs each program sits under its own text.\<close>

lemma keyed_normal:
  assumes k: "keyed_by program_item ps = Inr d" and n: "\<And>p. p \<in> set ps \<Longrightarrow> program_normal p"
  shows "p \<in> set ps \<longleftrightarrow> (\<exists>k. dict_get d k = Some p)" and "dict_get d k = Some p \<Longrightarrow> program_text p = Inr k"
proof -
  have get: "p \<in> set ps \<and> program_text p = Inr k" if "dict_get d k = Some p" for p k
  proof -
    from keyed_by_member [OF k that] obtain x where x: "x \<in> set ps" "program_item x = Inr (k, p)" by blast
    from program_normal_item [OF n [OF x(1)] x(2)] x show ?thesis by auto
  qed
  then show "dict_get d k = Some p \<Longrightarrow> program_text p = Inr k" by blast
  have "\<exists>k. dict_get d k = Some p" if p: "p \<in> set ps"
  proof -
    from keyed_by_covers [OF k p] obtain key y where ky: "program_item p = Inr (key, y)" "key \<in> set (dict_keys d)" by blast
    then obtain q where q: "dict_get d key = Some q" by (auto simp only: dict_get_keys)
    from program_normal_item [OF n [OF p] ky(1)] get [OF q] n have "q = p"
      using program_normal_text_inj p by blast
    with q show ?thesis by blast
  qed
  with get show "p \<in> set ps \<longleftrightarrow> (\<exists>k. dict_get d k = Some p)" by blast
qed


lemma index_dict_get:
  assumes "distinct ks"
  shows "dict_get (map (\<lambda>(i, k). (k, i)) (enumerate 0 ks)) k = Some i \<longleftrightarrow> i < length ks \<and> ks ! i = k"
proof -
  have "map fst (map (\<lambda>(i, k). (k, i)) (enumerate 0 ks)) = ks"
    by (simp add: comp_def split_beta)
  then have d: "distinct (map fst (map (\<lambda>(i, k). (k, i)) (enumerate 0 ks)))" using assms by simp
  show ?thesis
    unfolding dict_get_map_of map_of_eq_Some_iff [OF d]
    by (auto simp: in_set_enumerate_eq split_beta intro!: image_eqI [where x = "(i, ks ! i)"])
qed

lemma planned_programs_ids [simp]: "planned_programs (e\<lparr>pe_selector_program_ids := x\<rparr>) = planned_programs e"
  by (cases "pe_capability e") (simp_all add: planned_programs_def planned_capability_def)

lemma entry_normal_ids [simp]: "entry_normal (e\<lparr>pe_selector_program_ids := x\<rparr>) = entry_normal e"
  by (simp add: entry_normal_def)

lemma compileE:
  assumes c: "compile_selectors entries = Inr (planned, progs, errs)"
  obtains pss d0 d ids where "mapE planned_programs entries = Inr pss" "keyed_by program_item (concat pss) = Inr d0"
    "d = (if length d0 > 64 then [] else d0)" "errs = (if length d0 > 64 then [too_many_programs (length d0)] else [])"
    "ids = map (\<lambda>(i, k). (k, i)) (enumerate 0 (sort (dict_keys d)))"
    "progs = map (\<lambda>(i, n). \<lparr>cp_program_id = i, cp_program = n\<rparr>) (enumerate 0 (sorted_values d))"
    "mapE (assign_ids ids) entries = Inr planned"
  using c by (simp add: compile_selectors_def bindE_Inr Let_def) blast

lemma compiled_nth:
  assumes "progs = map (\<lambda>(i, n). \<lparr>cp_program_id = i, cp_program = n\<rparr>) (enumerate 0 ns)" and "i < length ns"
  shows "progs ! i = \<lparr>cp_program_id = i, cp_program = ns ! i\<rparr>"
  using assms by (simp add: nth_enumerate_eq)

text \<open>Program ids are dense, there are at most 64 programs, and each is valid and in normal form.\<close>

lemma compiled_programs:
  assumes n: "list_all entry_normal entries" and c: "compile_selectors entries = Inr (planned, progs, errs)"
  shows "map cp_program_id progs = [0..<length progs] \<and> length progs \<le> 64 \<and>
     distinct (map cp_program progs) \<and> list_all (\<lambda>p. program_normal (cp_program p)) progs"
proof -
  obtain pss d0 d ids where b: "mapE planned_programs entries = Inr pss" "keyed_by program_item (concat pss) = Inr d0"
    "d = (if length d0 > 64 then [] else d0)"
    "progs = map (\<lambda>(i, n). \<lparr>cp_program_id = i, cp_program = n\<rparr>) (enumerate 0 (sorted_values d))"
    using c by (rule compileE)
  have len: "length progs = length (sorted_values d)" "length (sorted_values d) \<le> 64"
    by (simp_all add: b(3,4) sorted_values_def)
  have norm: "program_normal p" if "p \<in> set (concat pss)" for p
  proof -
    from that obtain ps where ps: "ps \<in> set pss" "p \<in> set ps" by auto
    from mapE_Inr_member [OF b(1) ps(1)] obtain e where "e \<in> set entries" "planned_programs e = Inr ps" by blast
    with n ps(2) show ?thesis by (auto simp: list_all_iff intro: planned_programs_normal)
  qed
  have get: "p \<in> set (concat pss) \<and> program_text p = Inr k" if "dict_get d k = Some p" for p k
    using keyed_normal [OF b(2) norm] that by (auto simp: b(3) split: if_splits)
  have ok: "dict_ok d" using keyed_by_ok [OF b(2)] by (simp add: b(3))
  have "distinct (sorted_values d)"
  proof -
    have "inj_on (\<lambda>k. the (dict_get d k)) (set (sort (dict_keys d)))"
    proof (rule inj_onI)
      fix k l assume "k \<in> set (sort (dict_keys d))" "l \<in> set (sort (dict_keys d))"
      then obtain p q where pq: "dict_get d k = Some p" "dict_get d l = Some q"
        by (auto simp only: set_sort dict_get_keys)
      assume "the (dict_get d k) = the (dict_get d l)"
      with pq get [OF pq(1)] get [OF pq(2)] show "k = l" by simp
    qed
    with ok show ?thesis by (simp add: sorted_values_def distinct_map dict_ok_def)
  qed
  moreover have "list_all program_normal (sorted_values d)"
    using get norm ok by (auto simp: list_all_iff sorted_values_items sorted_items_member)
  moreover have "map cp_program progs = sorted_values d" "map cp_program_id progs = [0..<length progs]"
    by (simp_all add: b(4) comp_def split_beta len(1))
  ultimately show ?thesis using len by (metis (no_types, lifting) list.pred_map comp_apply list.pred_mono_strong)
qed

text \<open>The ids an entry is given point at exactly the programs it contributes.\<close>

lemma assigned_ids:
  assumes n: "list_all entry_normal entries" and c: "compile_selectors entries = Inr (planned, progs, [])"
    and e: "e \<in> set planned" and p: "planned_programs e = Inr ps"
  shows "(\<lambda>i. cp_program (progs ! i)) ` set (pe_selector_program_ids e) = set ps \<and>
    list_all (\<lambda>i. i < length progs) (pe_selector_program_ids e) \<and>
    sorted (pe_selector_program_ids e) \<and> distinct (pe_selector_program_ids e)"
proof -
  obtain pss d0 d ids where b: "mapE planned_programs entries = Inr pss" "keyed_by program_item (concat pss) = Inr d0"
    "d = (if length d0 > 64 then [] else d0)" "[] = (if length d0 > 64 then [too_many_programs (length d0)] else [])"
    "ids = map (\<lambda>(i, k). (k, i)) (enumerate 0 (sort (dict_keys d)))"
    "progs = map (\<lambda>(i, n). \<lparr>cp_program_id = i, cp_program = n\<rparr>) (enumerate 0 (sorted_values d))"
    "mapE (assign_ids ids) entries = Inr planned"
    using c by (rule compileE)
  then have d: "d = d0" by (simp split: if_splits)
  have ok: "dict_ok d" using keyed_by_ok [OF b(2)] d by simp
  let ?ks = "sort (dict_keys d)"
  have dk: "distinct ?ks" using ok by (simp add: dict_ok_def)
  have lenp: "length progs = length ?ks" by (simp add: b(6) sorted_values_def)
  have norm: "program_normal q" if "q \<in> set (concat pss)" for q
  proof -
    from that obtain qs where qs: "qs \<in> set pss" "q \<in> set qs" by auto
    from mapE_Inr_member [OF b(1) qs(1)] obtain e0 where "e0 \<in> set entries" "planned_programs e0 = Inr qs" by blast
    with n qs(2) show ?thesis by (auto simp: list_all_iff intro: planned_programs_normal)
  qed
  from mapE_Inr_member [OF b(7) e] obtain e0 where e0: "e0 \<in> set entries" "assign_ids ids e0 = Inr e" by blast
  then have pe: "planned_programs e0 = planned_programs e"
    by (auto simp: assign_ids_def bindE_Inr split: if_splits)
  have sub: "q \<in> set (concat pss)" if "q \<in> set ps" for q
  proof -
    from e0(1) obtain i where i: "i < length entries" "e0 = entries ! i" by (auto simp: in_set_conv_nth)
    from mapE_Inr_nth [OF b(1) i(1)] i pe p mapE_Inr_length [OF b(1)] have "ps \<in> set pss" by auto
    with that show ?thesis by auto
  qed
  have at: "cp_program (progs ! i) = q \<and> i < length progs"
    if "dict_get ids k = Some i" "program_text q = Inr k" "q \<in> set ps" for q i k
  proof -
    have i: "i < length ?ks" "?ks ! i = k" using that(1) unfolding b(5) index_dict_get [OF dk] by auto
    from sub [OF that(3)] keyed_normal [OF b(2) norm] obtain l where l: "dict_get d l = Some q" "program_text q = Inr l"
      unfolding d by blast
    then have "dict_get d k = Some q" using that(2) by simp
    then have "sorted_values d ! i = q" using i by (simp add: sorted_values_def)
    with compiled_nth [OF b(6)] i lenp show ?thesis by (simp add: sorted_values_def)
  qed
  let ?look = "\<lambda>q. bindE (program_text q) (\<lambda>k. case dict_get ids k of Some i \<Rightarrow> Inr i | None \<Rightarrow> Inl KeyError)"
  show ?thesis
  proof (cases "ids = []")
    case True
    then have "dict_keys d = []" by (simp add: b(5)) (metis length_0_conv length_enumerate length_sort length_map)
    then have "set ps = {}" using sub keyed_normal(1) [OF b(2) norm] d by fastforce
    moreover have "pe_selector_program_ids e = []" using e0(2) True by (auto simp: assign_ids_def bindE_Inr)
    ultimately show ?thesis by simp
  next
    case False
    then obtain js where js: "mapE ?look ps = Inr js" "pe_selector_program_ids e = sort (remdups js)"
      using e0(2) pe p by (auto simp: assign_ids_def bindE_Inr)
    have h: "cp_program (progs ! (js ! j)) = ps ! j \<and> js ! j < length progs" if "j < length ps" for j
    proof -
      from mapE_Inr_nth [OF js(1) that] obtain k where "program_text (ps ! j) = Inr k" "dict_get ids k = Some (js ! j)"
        by (auto simp: bindE_Inr split: option.splits)
      from at [OF this(2,1)] that show ?thesis by simp
    qed
    have l: "length js = length ps" by (rule mapE_Inr_length [OF js(1)])
    have "(\<lambda>i. cp_program (progs ! i)) ` set js = set ps"
    proof -
      have "map (\<lambda>i. cp_program (progs ! i)) js = ps" using h l by (intro nth_equalityI) auto
      then show ?thesis by (metis set_map)
    qed
    moreover have "\<forall>i \<in> set js. i < length progs" using h l by (auto simp: set_conv_nth)
    ultimately show ?thesis by (simp add: js(2) list_all_iff)
  qed
qed

lemma aggregate_ids_resolve:
  assumes b: "build_rust_analysis_plan ps ds src link strict req = Inr plan" and i: "rp_incompatibilities plan = []"
    and e: "e \<in> set (rp_plugins plan)"
  obtains progs where "planned_programs e = Inr progs"
    "(\<lambda>i. cp_program (rp_selector_programs plan ! i)) ` set (pe_selector_program_ids e) = set progs"
    "list_all (\<lambda>i. i < length (rp_selector_programs plan)) (pe_selector_program_ids e)"
    "sorted (pe_selector_program_ids e)" "distinct (pe_selector_program_ids e)"
proof -
  obtain entries inc0 planned progs serrs digest inc x where p: "collect_plugins ps ds src link = Inr (entries, inc0)"
      "compile_selectors entries = Inr (planned, progs, serrs)" "inc = all_incompatibilities src link inc0 serrs"
      "plan = plan_of src link req planned progs inc digest x"
    using b by (rule buildE)
  have f: "inc = []" "rp_plugins plan = planned" "rp_selector_programs plan = progs"
    using i unfolding p(4) by (simp_all add: plan_of_def)
  have "set (sort (remdups (inc0 @ unsupported_source src @ unsupported_link link @ serrs))) = {}"
    using f(1) unfolding p(3) all_incompatibilities_def by simp
  then have s: "serrs = []" by simp
  obtain pss ids where m: "mapE planned_programs entries = Inr pss" "mapE (assign_ids ids) entries = Inr planned"
    using p(2) by (rule compileE)
  from mapE_Inr_member [OF m(2)] e f(2) obtain e0 where "assign_ids ids e0 = Inr e" by blast
  then obtain qs where q: "planned_programs e = Inr qs" by (auto simp: assign_ids_def bindE_Inr split: if_splits)
  from assigned_ids [OF collect_plugins_normal [OF p(1)] p(2) [unfolded s] _ q] e f that q show ?thesis by metis
qed

text \<open>The program ids an entry carries are sorted, in range, and stand for exactly its programs.\<close>

definition ids_resolve :: "rust_analysis_plan \<Rightarrow> plugin_plan_entry \<Rightarrow> bool" where
  "ids_resolve plan e = (case planned_programs e of Inl _ \<Rightarrow> False
     | Inr progs \<Rightarrow> (\<lambda>i. cp_program (rp_selector_programs plan ! i)) ` set (pe_selector_program_ids e) = set progs \<and>
         list_all (\<lambda>i. i < length (rp_selector_programs plan)) (pe_selector_program_ids e) \<and>
         sorted (pe_selector_program_ids e) \<and> distinct (pe_selector_program_ids e))"

lemma aggregate_ids_resolve_all:
  assumes "build_rust_analysis_plan ps ds src link strict req = Inr plan" and "rp_incompatibilities plan = []"
  shows "list_all (ids_resolve plan) (rp_plugins plan)"
  unfolding list_all_iff
proof
  fix e assume "e \<in> set (rp_plugins plan)"
  with assms obtain progs where "planned_programs e = Inr progs"
    "(\<lambda>i. cp_program (rp_selector_programs plan ! i)) ` set (pe_selector_program_ids e) = set progs"
    "list_all (\<lambda>i. i < length (rp_selector_programs plan)) (pe_selector_program_ids e)"
    "sorted (pe_selector_program_ids e)" "distinct (pe_selector_program_ids e)"
    by (rule aggregate_ids_resolve)
  then show "ids_resolve plan e" by (simp add: ids_resolve_def)
qed

lemma build_programs:
  assumes "build_rust_analysis_plan ps ds src link strict req = Inr plan"
  shows "map cp_program_id (rp_selector_programs plan) = [0..<length (rp_selector_programs plan)] \<and>
    length (rp_selector_programs plan) \<le> 64 \<and> distinct (map cp_program (rp_selector_programs plan)) \<and>
    list_all (\<lambda>p. program_normal (cp_program p)) (rp_selector_programs plan)"
proof -
  obtain entries inc0 planned progs serrs digest inc x where p: "collect_plugins ps ds src link = Inr (entries, inc0)"
      "compile_selectors entries = Inr (planned, progs, serrs)" "plan = plan_of src link req planned progs inc digest x"
    using assms by (rule buildE)
  have "rp_selector_programs plan = progs" unfolding p(3) by (simp add: plan_of_def)
  with compiled_programs [OF collect_plugins_normal [OF p(1)] p(2)] show ?thesis by simp
qed

end
