(* ===== verification/PlanIntegrity.thy ===== *)
theory PlanIntegrity imports SelectorPlan begin

text \<open>
  What the digests of a queued plan protect.  The semantic digest hashes the canonical text of every
  entry; because the canonical text determines the value, a queued plan that passes
  \<open>verify_rust_analysis_plan\<close> describes exactly the plugins that are installed now, unless two
  different byte strings with the same SHA-256 digest have been found.
\<close>

section \<open>Canonical values of the records the planner hashes\<close>

definition capability_dict :: "offline_capability \<Rightarrow> pyval" where
  "capability_dict c = PyDict [(''contract'', PyStr (oc_contract c)), (''packet_view'', PyStr (oc_packet_view c)),
     (''packet_flow_view'', PyStr (oc_packet_flow_view c)),
     (''selector_programs'', PyList (map program_dict (oc_selector_programs c))),
     (''flow_input'', PyStr (oc_flow_input c)), (''stream_input'', PyStr (oc_stream_input c)),
     (''conversation_input'', PyStr (oc_conversation_input c))]"

definition capability_value :: "offline_capability option \<Rightarrow> pyval" where
  "capability_value c = (case c of None \<Rightarrow> PyNone | Some c \<Rightarrow> capability_dict c)"

definition entry_dict :: "plugin_plan_entry \<Rightarrow> pyval" where
  "entry_dict e = PyDict [(''plugin_type'', PyStr (pe_plugin_type e)), (''detector_id'', PyStr (pe_detector_id e)),
        (''name'', PyStr (pe_name e)), (''api_version'', PyInt (pe_api_version e)),
        (''contract_version'', PyInt (pe_contract_version e)),
        (''detector_semantic_version'', PyStr (pe_detector_semantic_version e)),
        (''supported_link_types'', py_strs (pe_supported_link_types e)),
        (''supported_capture_sources'', py_strs (pe_supported_capture_sources e)),
        (''capability_state'', PyStr (pe_capability_state e)),
        (''capability_errors'', py_strs (pe_capability_errors e)),
        (''capability'', capability_value (pe_capability e))]"

definition capability_programs_ok :: "plugin_plan_entry \<Rightarrow> bool" where
  "capability_programs_ok e \<longleftrightarrow> (case pe_capability e of None \<Rightarrow> True
     | Some c \<Rightarrow> list_all scalar_program (oc_selector_programs c))"

lemma program_normal_simps:
  assumes "program_normal n"
  shows "normalized_program n = Inr n" "scalar_program n"
  using assms by (auto simp: program_normal_def program_item_def bindE_Inr intro: valid_program_scalar)

lemma canonical_programs: "list_all program_normal ps \<Longrightarrow> mapE (canonical_program None) ps = Inr (map program_dict ps)"
  by (induction ps) (simp_all add: canonical_program_normal program_normal_simps)

lemma entry_normal_programs:
  assumes "entry_normal e" and "pe_capability e = Some c"
  shows "normalized_capability c = Inr c" "list_all program_normal (oc_selector_programs c)"
  using assms normalized_programs [of c] by (auto simp: entry_normal_def list_all_iff)

lemma semantic_entry_normal:
  assumes "entry_normal e"
  shows "semantic_entry e = Inr (entry_dict e)" and "capability_programs_ok e"
proof -
  have "canonical_capability (pe_capability e) = Inr (capability_value (pe_capability e))"
    using entry_normal_programs [OF assms] canonical_programs
    by (auto simp: canonical_capability_def capability_value_def capability_dict_def split: option.split)
  then show "semantic_entry e = Inr (entry_dict e)" by (simp add: semantic_entry_def entry_dict_def)
  show "capability_programs_ok e"
    using entry_normal_programs(2) [OF assms] program_normal_simps(2)
    by (auto simp: capability_programs_ok_def list_all_iff split: option.split)
qed

lemma canonical_strs: "canonical_value (py_strs ss) = Inr (JList (map JStr ss))"
proof -
  have "mapE canonical_value (map PyStr ss) = Inr (map JStr ss)" by (induction ss) simp_all
  then show ?thesis by (simp add: py_strs_def)
qed

lemma map_JStr_inj: "map JStr a = map JStr b \<longleftrightarrow> a = b"
  by (simp add: inj_map_eq_map inj_def)

lemma capability_keys_sorted: "sort_key fst [(''contract'', a), (''packet_view'', b), (''packet_flow_view'', c),
     (''selector_programs'', d), (''flow_input'', e), (''stream_input'', f), (''conversation_input'', g)] =
   [(''contract'', a), (''conversation_input'', g), (''flow_input'', e), (''packet_flow_view'', c),
     (''packet_view'', b), (''selector_programs'', d), (''stream_input'', f)]"
  by simp

lemma entry_keys_sorted: "sort_key fst [(''plugin_type'', a), (''detector_id'', b), (''name'', c), (''api_version'', d),
     (''contract_version'', e), (''detector_semantic_version'', f), (''supported_link_types'', g),
     (''supported_capture_sources'', h), (''capability_state'', i), (''capability_errors'', j), (''capability'', k)] =
   [(''api_version'', d), (''capability'', k), (''capability_errors'', j), (''capability_state'', i),
     (''contract_version'', e), (''detector_id'', b), (''detector_semantic_version'', f), (''name'', c),
     (''plugin_type'', a), (''supported_capture_sources'', h), (''supported_link_types'', g)]"
  by simp


lemma program_dicts_inj:
  assumes "mapE (\<lambda>p. canonical_value (program_dict p)) ps = mapE (\<lambda>p. canonical_value (program_dict p)) qs"
    and "list_all scalar_program ps" and "list_all scalar_program qs"
  shows "ps = qs"
proof (rule mapE_inj_on [OF assms(1)])
  fix p assume "p \<in> set ps"
  then have "scalar_program p" using assms(2) by (simp add: list_all_iff)
  from clauses_total [OF this] show "is_ok (canonical_value (program_dict p))"
    by (auto simp: program_dict_value is_ok_iff)
qed (use assms(2,3) program_dict_inj in \<open>auto simp: list_all_iff\<close>)

lemma capability_dict_value: "canonical_value (capability_dict c) =
   bindE (mapE (\<lambda>p. canonical_value (program_dict p)) (oc_selector_programs c)) (\<lambda>js.
     Inr (JObj [(''contract'', JStr (oc_contract c)), (''conversation_input'', JStr (oc_conversation_input c)),
       (''flow_input'', JStr (oc_flow_input c)), (''packet_flow_view'', JStr (oc_packet_flow_view c)),
       (''packet_view'', JStr (oc_packet_view c)), (''selector_programs'', JList js), (''stream_input'', JStr (oc_stream_input c))]))"
  by (cases "mapE (\<lambda>p. canonical_value (program_dict p)) (oc_selector_programs c)")
    (simp_all add: capability_dict_def capability_keys_sorted mapE_map del: sort_key_simps)

lemma program_dict_total: "scalar_program p \<Longrightarrow> is_ok (canonical_value (program_dict p))"
  using clauses_total [of p] by (auto simp: program_dict_value is_ok_iff)

lemma program_dicts_total: "list_all scalar_program ps \<Longrightarrow> is_ok (mapE (\<lambda>p. canonical_value (program_dict p)) ps)"
  using program_dict_total by (intro mapE_ok) (auto simp: list_all_iff)

lemma capability_value_total: "capability_programs_ok e \<Longrightarrow> is_ok (canonical_value (capability_value (pe_capability e)))"
  by (auto simp: capability_programs_ok_def capability_value_def capability_dict_value is_ok_bindE split: option.splits
      dest: program_dicts_total [unfolded is_ok_iff])

lemma capability_dict_inj:
  assumes "list_all scalar_program (oc_selector_programs c)" and "list_all scalar_program (oc_selector_programs d)"
    and e: "canonical_value (capability_dict c) = canonical_value (capability_dict d)"
  shows "c = d"
proof -
  let ?f = "\<lambda>p. canonical_value (program_dict p)"
  obtain js where j: "mapE ?f (oc_selector_programs c) = Inr js" using program_dicts_total [OF assms(1)] by (auto simp: is_ok_iff)
  obtain ks where k: "mapE ?f (oc_selector_programs d) = Inr ks" using program_dicts_total [OF assms(2)] by (auto simp: is_ok_iff)
  from e have q: "js = ks" "oc_contract c = oc_contract d" "oc_conversation_input c = oc_conversation_input d"
    "oc_flow_input c = oc_flow_input d" "oc_packet_flow_view c = oc_packet_flow_view d" "oc_packet_view c = oc_packet_view d"
    "oc_stream_input c = oc_stream_input d"
    by (simp_all add: capability_dict_value j k)
  have "oc_selector_programs c = oc_selector_programs d"
    using program_dicts_inj [OF _ assms(1,2)] j k q(1) by simp
  with q show ?thesis by simp
qed

lemma capability_value_inj:
  assumes "capability_programs_ok e" and "capability_programs_ok f"
    and "canonical_value (capability_value (pe_capability e)) = canonical_value (capability_value (pe_capability f))"
  shows "pe_capability e = pe_capability f"
proof -
  have no: "canonical_value (capability_dict c) \<noteq> Inr JNull" for c
    by (auto simp: capability_dict_value bindE_Inr)
  show ?thesis
    using assms no no [symmetric]
    by (auto simp: capability_programs_ok_def capability_value_def split: option.splits dest: capability_dict_inj)
qed

lemma entry_dict_value: "canonical_value (entry_dict e) =
   bindE (canonical_value (capability_value (pe_capability e))) (\<lambda>j.
     Inr (JObj [(''api_version'', JInt (pe_api_version e)), (''capability'', j),
       (''capability_errors'', JList (map JStr (pe_capability_errors e))), (''capability_state'', JStr (pe_capability_state e)),
       (''contract_version'', JInt (pe_contract_version e)), (''detector_id'', JStr (pe_detector_id e)),
       (''detector_semantic_version'', JStr (pe_detector_semantic_version e)), (''name'', JStr (pe_name e)),
       (''plugin_type'', JStr (pe_plugin_type e)),
       (''supported_capture_sources'', JList (map JStr (pe_supported_capture_sources e))),
       (''supported_link_types'', JList (map JStr (pe_supported_link_types e)))]))"
  by (cases "canonical_value (capability_value (pe_capability e))")
    (simp_all add: entry_dict_def entry_keys_sorted canonical_strs del: sort_key_simps)

text \<open>Everything of an entry the semantic digest covers.\<close>

definition entry_identity :: "plugin_plan_entry \<Rightarrow> plugin_plan_entry" where
  "entry_identity e = e\<lparr>pe_applicable := False, pe_selector_program_ids := []\<rparr>"

lemma entry_dict_inj:
  assumes "capability_programs_ok e" and "capability_programs_ok f"
    and q: "canonical_value (entry_dict e) = canonical_value (entry_dict f)"
  shows "entry_identity e = entry_identity f"
proof -
  obtain j where j: "canonical_value (capability_value (pe_capability e)) = Inr j"
    using capability_value_total [OF assms(1)] by (auto simp: is_ok_iff)
  obtain k where k: "canonical_value (capability_value (pe_capability f)) = Inr k"
    using capability_value_total [OF assms(2)] by (auto simp: is_ok_iff)
  have "j = k" "pe_api_version e = pe_api_version f" "pe_capability_errors e = pe_capability_errors f"
    "pe_capability_state e = pe_capability_state f" "pe_contract_version e = pe_contract_version f"
    "pe_detector_id e = pe_detector_id f" "pe_detector_semantic_version e = pe_detector_semantic_version f"
    "pe_name e = pe_name f" "pe_plugin_type e = pe_plugin_type f"
    "pe_supported_capture_sources e = pe_supported_capture_sources f" "pe_supported_link_types e = pe_supported_link_types f"
    using q by (simp_all add: entry_dict_value j k map_JStr_inj)
  moreover from this j k have "pe_capability e = pe_capability f"
    by (intro capability_value_inj [OF assms(1,2)]) simp
  ultimately show ?thesis by (cases e; cases f) (simp add: entry_identity_def)
qed

lemma entry_dict_pyval_ok: "capability_programs_ok e \<Longrightarrow> pyval_ok (entry_dict e)"
  by (auto simp: entry_dict_def py_strs_def capability_value_def capability_dict_def capability_programs_ok_def list_all_iff
      program_dict_pyval_ok split: option.split)

section \<open>Equal digests, equal inventory\<close>

text \<open>The text the semantic digest hashes.\<close>

definition semantic_text :: "plugin_plan_entry list \<Rightarrow> string result" where
  "semantic_text es = bindE (mapE semantic_entry es) (\<lambda>payload. canonical_json (PyList payload))"

definition sha256_collision :: "bytes \<Rightarrow> bytes \<Rightarrow> bool" where
  "sha256_collision a b \<longleftrightarrow> a \<noteq> b \<and> sha256 a = sha256 b"

lemma of_char_map_inj: "map (of_char :: char \<Rightarrow> 8 word) a = map of_char b \<Longrightarrow> a = b"
proof -
  have "inj (of_char :: char \<Rightarrow> 8 word)"
  proof (rule injI)
    fix c d :: char assume "(of_char c :: 8 word) = of_char d"
    then have "(word_of_nat (of_char c) :: 8 word) = word_of_nat (of_char d)" by (simp only: of_nat_of_char)
    then have "uint (word_of_nat (of_char c) :: 8 word) = uint (word_of_nat (of_char d) :: 8 word)" by simp
    moreover have "(of_char c :: nat) < 256" "(of_char d :: nat) < 256" by simp_all
    ultimately have "(of_char c :: nat) = of_char d" by (simp only: uint_byte_nat of_nat_eq_iff)
    then show "c = d" by (metis char_of_char)
  qed
  then show "map (of_char :: char \<Rightarrow> 8 word) a = map of_char b \<Longrightarrow> a = b" by (simp add: inj_map_eq_map)
qed


lemma semantic_digest_normal:
  assumes "list_all entry_normal es" and "semantic_digest es = Inr h"
  shows "\<exists>msg. semantic_text es = Inr msg \<and> canonical_json (PyList (map entry_dict es)) = Inr msg \<and> h = sha256_hex (map of_char msg)"
proof -
  have "mapE semantic_entry es = Inr (map entry_dict es)"
    using assms(1) by (induction es) (simp_all add: semantic_entry_normal)
  with assms(2) obtain msg where m: "canonical_json (PyList (map entry_dict es)) = Inr msg" "ascii_digest msg = Inr h"
    by (auto simp: semantic_digest_def bindE_Inr)
  then obtain j where "msg = json_dumps j" by (auto simp: canonical_json_def bindE_Inr)
  moreover have "semantic_text es = Inr msg"
    using m(1) \<open>mapE semantic_entry es = Inr (map entry_dict es)\<close> by (simp add: semantic_text_def)
  ultimately show ?thesis using m by (auto simp: ascii_digest_def encode_ascii_dumps)
qed

lemma equal_digests_equal_entries:
  assumes n: "list_all entry_normal es" "list_all entry_normal fs"
    and h: "semantic_digest es = Inr h" "semantic_digest fs = Inr h"
  shows "\<exists>m k. semantic_text es = Inr m \<and> semantic_text fs = Inr k \<and>
     (map entry_identity es = map entry_identity fs \<or> sha256_collision (map of_char m) (map of_char k))"
proof -
  obtain m where m: "canonical_json (PyList (map entry_dict es)) = Inr m" "h = sha256_hex (map of_char m)" and tm: "semantic_text es = Inr m"
    using semantic_digest_normal [OF n(1) h(1)] by blast
  obtain k where k: "canonical_json (PyList (map entry_dict fs)) = Inr k" "h = sha256_hex (map of_char k)"
    and tk: "semantic_text fs = Inr k"
    using semantic_digest_normal [OF n(2) h(2)] by blast
  have s: "sha256 (map of_char m) = sha256 (map of_char k)"
    using m(2) k(2) by (auto simp: sha256_hex_def dest: bytes_hex_inj)
  show ?thesis
  proof (cases "m = k")
    case False
    then have "map of_char m \<noteq> (map of_char k :: bytes)" using of_char_map_inj by blast
    with s tm tk show ?thesis by (auto simp: sha256_collision_def)
  next
    case True
    have ok: "list_all capability_programs_ok es" "list_all capability_programs_ok fs"
      using n semantic_entry_normal(2) by (auto simp: list_all_iff)
    then have "pyval_ok (PyList (map entry_dict es))" "pyval_ok (PyList (map entry_dict fs))"
      by (auto simp: list_all_iff entry_dict_pyval_ok)
    with canonical_json_inj [OF m(1)] k(1) True
    have "canonical_value (PyList (map entry_dict es)) = canonical_value (PyList (map entry_dict fs))" by simp
    moreover obtain js where "mapE (\<lambda>e. canonical_value (entry_dict e)) es = Inr js"
      using m(1) by (auto simp: canonical_json_def bindE_Inr mapE_map)
    moreover obtain ks where "mapE (\<lambda>e. canonical_value (entry_dict e)) fs = Inr ks"
      using k(1) by (auto simp: canonical_json_def bindE_Inr mapE_map)
    ultimately have e: "mapE (\<lambda>e. canonical_value (entry_dict e)) es = Inr js" "mapE (\<lambda>e. canonical_value (entry_dict e)) fs = Inr js"
      by (simp_all add: mapE_map)
    have len: "length es = length fs" using mapE_Inr_length [OF e(1)] mapE_Inr_length [OF e(2)] by simp
    have "entry_identity (es ! i) = entry_identity (fs ! i)" if "i < length es" for i
      using mapE_Inr_nth [OF e(1) that] mapE_Inr_nth [OF e(2), of i] that len ok
      by (intro entry_dict_inj) (auto simp: list_all_length)
    with len have "map entry_identity es = map entry_identity fs" by (auto intro: nth_equalityI)
    with tm tk show ?thesis by blast
  qed
qed

text \<open>Planned entries are in normal form.\<close>

lemma compile_entries_normal:
  assumes "list_all entry_normal entries" and "compile_selectors entries = Inr (planned, progs, errs)"
  shows "list_all entry_normal planned"
proof -
  obtain ids where "mapE (assign_ids ids) entries = Inr planned" using assms(2) by (rule compileE)
  from mapE_Inr_member [OF this] assms(1) show ?thesis
    by (fastforce simp: list_all_iff assign_ids_def bindE_Inr)
qed

lemma built_entries_normal:
  assumes "build_rust_analysis_plan ps ds src link strict req = Inr plan"
  shows "list_all entry_normal (rp_plugins plan)"
proof -
  obtain entries inc0 planned progs serrs digest inc x where e: "collect_plugins ps ds src link = Inr (entries, inc0)"
      "compile_selectors entries = Inr (planned, progs, serrs)" "plan = plan_of src link req planned progs inc digest x"
    using assms by (rule buildE)
  from compile_entries_normal [OF collect_plugins_normal [OF e(1)] e(2)] show ?thesis
    unfolding e(3) by (simp add: plan_of_def)
qed

lemma verified_inventory:
  assumes v: "verify_rust_analysis_plan queued ps ds = Inr q" and n: "list_all entry_normal (rp_plugins queued)"
  shows "q = queued \<and> (\<exists>current m k. build_rust_analysis_plan ps ds (rp_source_type queued) (rp_link_type queued) False
       (Some (rp_execution_mode queued)) = Inr current \<and>
     semantic_text (rp_plugins current) = Inr m \<and> semantic_text (rp_plugins queued) = Inr k \<and>
     (map entry_identity (rp_plugins current) = map entry_identity (rp_plugins queued) \<or>
      sha256_collision (map of_char m) (map of_char k)))"
proof -
  from v obtain current where c: "q = queued" "semantic_digest (rp_plugins queued) = Inr (rp_semantic_plugin_digest queued)"
      "build_rust_analysis_plan ps ds (rp_source_type queued) (rp_link_type queued) False (Some (rp_execution_mode queued)) = Inr current"
      "rp_semantic_plugin_digest current = rp_semantic_plugin_digest queued"
    by (auto simp: verify_rust_analysis_plan_def bindE_Inr guardE_Inr)
  have "semantic_digest (rp_plugins current) = Inr (rp_semantic_plugin_digest queued)"
    using build_digests(1) [OF c(3)] c(4) by simp
  from equal_digests_equal_entries [OF built_entries_normal [OF c(3)] n this c(2)] c(1,3) show ?thesis by blast
qed

lemma canonical_dict_total:
  assumes "\<And>k v. (k, v) \<in> set d \<Longrightarrow> is_ok (canonical_value v)"
  shows "is_ok (canonical_value (PyDict d))"
proof -
  have "is_ok (mapE (\<lambda>(k, v). bindE (canonical_value v) (\<lambda>j. Inr (k, j))) (sort_key fst d))"
    using assms by (intro mapE_ok) (auto simp: is_ok_bindE is_ok_iff [of "canonical_value _"])
  then show ?thesis by (auto simp: is_ok_iff)
qed

lemma canonical_digest_total: "is_ok (canonical_value v) \<Longrightarrow> is_ok (bindE (canonical_json v) ascii_digest)"
  by (auto simp: is_ok_iff canonical_json_def ascii_digest_def encode_ascii_dumps)

text \<open>An empty inventory has a plan, with no programs.\<close>

lemma empty_inventory_builds:
  "\<exists>plan. build_rust_analysis_plan [] [] ''network'' ''ethernet'' False None = Inr plan \<and> rp_selector_programs plan = []"
proof -
  have s: "is_ok (semantic_digest [])"
    unfolding semantic_digest_def by (simp add: canonical_digest_total)
  then obtain h where h: "semantic_digest [] = Inr h" by (auto simp: is_ok_iff)
  have x: "is_ok (execution_digest p)" if "rp_selector_programs p = []" "rp_plugins p = []" "rp_incompatibilities p = []" for p
    unfolding execution_digest_def execution_payload_def that mapE.simps bindE_simps(1)
    by (rule canonical_digest_total, rule canonical_dict_total) (auto simp: py_strs_def)
  let ?p = "\<lparr>rp_schema_version = RUST_PLAN_SCHEMA_VERSION, rp_source_type = ''network'', rp_link_type = ''ethernet'',
     rp_execution_mode = AGGREGATE_EXECUTION_MODE, rp_semantic_plugin_digest = h, rp_execution_plan_digest = [],
     rp_plugins = [], rp_selector_programs = [], rp_incompatibilities = []\<rparr>"
  from x [of ?p] obtain y where "execution_digest ?p = Inr y" by (auto simp: is_ok_iff)
  then show ?thesis
    by (simp add: build_rust_analysis_plan_def collect_plugins_def compile_selectors_def unsupported_source_def dict_update_def
        unsupported_link_def keyed_by_def Let_def sorted_values_def h AGGREGATE_SOURCE_TYPES_def AGGREGATE_LINK_TYPES_def)
qed

end
