(* ===== verification/PlanWire.thy ===== *)
theory PlanWire imports SelectorPlan CaptureCodec begin

text \<open>
  From the planner to the wire: the conversion of compiled programs in
  \<open>build_aggregate_analysis_plan\<close> (core/packet\_engine/rust\_capture.py), and the two places where the
  planner's rules and the wire format differ.  A compiled program encodes unless a clause carries a
  Python bool (the planner accepts it as an int, the encoder does not), and a plan with exactly 64
  programs leaves no slot for the TCP preservation program the adapter adds.
\<close>

definition wire_program :: "compiled_program \<Rightarrow> program_wire" where
  "wire_program p = \<lparr>pw_program_id = int (cp_program_id p), pw_candidate_mode = sp_candidate_mode (cp_program p),
     pw_clauses = map (\<lambda>c. \<lparr>cw_opcode = sc_opcode c, cw_values = sc_values c\<rparr>) (sp_clauses (cp_program p))\<rparr>"

definition is_py_bool :: "pyval \<Rightarrow> bool" where
  "is_py_bool v = (case v of PyBool _ \<Rightarrow> True | _ \<Rightarrow> False)"

definition no_bools :: "selector_clause \<Rightarrow> bool" where
  "no_bools c \<longleftrightarrow> list_all (\<lambda>v. \<not> is_py_bool v) (sc_values c)"

lemma is_ok_concatE: "is_ok (concatE ms) \<longleftrightarrow> list_all is_ok ms"
proof (induction ms)
  case (Cons m ms)
  then show ?case by (cases m) (simp_all add: is_ok_bindE is_ok_iff [of "concatE ms", symmetric])
qed simp

lemma int_between_not_bool: "int_between lo hi v \<Longrightarrow> \<not> is_py_bool v \<Longrightarrow> \<exists>i. v = PyInt i \<and> lo \<le> i \<and> i \<le> hi"
  by (cases v) (auto simp: int_between_def is_py_bool_def)

lemma u16_ok: "int_between 0 0xFFFF v \<Longrightarrow> \<not> is_py_bool v \<Longrightarrow> is_ok (encode_u16_value l v)"
  by (drule (1) int_between_not_bool) (auto simp: encode_u16_value_def range_val_def pack_def)

lemma u8_ok: "int_between 0 0xFF v \<Longrightarrow> \<not> is_py_bool v \<Longrightarrow> is_ok (encode_u8_value l v)"
  by (drule (1) int_between_not_bool) (auto simp: encode_u8_value_def range_val_def byte1_def)

lemma literal_encodes: "literal_ok v \<Longrightarrow> is_ok (encode_literal l v)"
  by (cases v) (auto simp: literal_ok_def nonempty_bytes_def py_bytes_len_def encode_literal_def is_ok_bindE pack_def Suc_le_eq)

lemma literals_encode:
  "vs \<noteq> [] \<Longrightarrow> length vs \<le> 32 \<Longrightarrow> list_all literal_ok vs \<Longrightarrow> is_ok (encode_selector_literals vs l)"
  by (cases vs) (auto simp: encode_selector_literals_def is_ok_bindE guardE_def is_ok_concatE byte1_def list_all_iff
      simp del: concatE.simps intro: literal_encodes)

lemma link_encodes: "v \<in> {PyStr ''ethernet'', PyStr ''raw-ip''} \<Longrightarrow> is_ok (encode_link_class v)"
  by (auto simp: is_ok_iff result_simps)

lemma sorted_unique_distinct: "sorted_unique vs = Inr ws \<Longrightarrow> distinct ws"
proof -
  assume "sorted_unique vs = Inr ws"
  then obtain d where d: "keyed_by (\<lambda>v. bindE (canonical_json v) (\<lambda>k. Inr (k, v))) vs = Inr d" "ws = sorted_values d"
    by (auto simp: sorted_unique_def bindE_Inr)
  have inj: "canonical_json v = Inr k" if "dict_get d k = Some v" for k v
    using keyed_by_member [OF d(1) that] by (auto simp: bindE_Inr)
  have "inj_on (\<lambda>k. the (dict_get d k)) (set (sort (dict_keys d)))"
  proof (rule inj_onI)
    fix k l assume "k \<in> set (sort (dict_keys d))" "l \<in> set (sort (dict_keys d))"
    then obtain p q where pq: "dict_get d k = Some p" "dict_get d l = Some q" by (auto simp only: set_sort dict_get_keys)
    assume "the (dict_get d k) = the (dict_get d l)"
    with pq inj [OF pq(1)] inj [OF pq(2)] show "k = l" by simp
  qed
  then show "distinct ws"
    using keyed_by_ok [OF d(1)] by (simp add: d(2) sorted_values_def distinct_map dict_ok_def)
qed

lemma link_values_short:
  assumes "distinct vs" and "list_all (\<lambda>v. v \<in> {PyStr ''ethernet'', PyStr ''raw-ip''}) vs"
  shows "length vs \<le> 2"
proof -
  have "set vs \<subseteq> {PyStr ''ethernet'', PyStr ''raw-ip''}" using assms(2) by (auto simp: list_all_iff)
  then have "card (set vs) \<le> card {PyStr ''ethernet'', PyStr ''raw-ip''}" by (intro card_mono) auto
  also have "\<dots> \<le> 2" by (simp add: card_insert_if)
  finally show ?thesis using assms(1) by (simp add: distinct_card)
qed

lemma link_keys_ok: "list_all (\<lambda>v. v \<in> {PyStr ''ethernet'', PyStr ''raw-ip''}) vs \<Longrightarrow>
   is_ok (mapE (\<lambda>v. bindE (in_str_keys v (map fst link_class_codes)) (\<lambda>b. guardE b e)) vs)"
  by (rule mapE_ok) (auto simp: list_all_iff in_str_keys_def link_class_codes_def is_ok_bindE)

lemma set_clause_encodes:
  assumes o: "sc_opcode c \<in> set SET_OPCODES" and v: "valid_clause c" and n: "normalized_clause c = Inr c" and b: "no_bools c"
  shows "is_ok (encode_clause_body (sc_opcode c) (sc_values c))"
proof -
  let ?vs = "sc_values c" and ?o = "sc_opcode c"
  have vs: "?vs \<noteq> []" "value_limit_ok ?o (length ?vs)" "list_all (value_ok ?o) ?vs"
    using v by (simp_all add: valid_set_clause [OF o])
  then have len: "1 \<le> length ?vs" by (cases ?vs) auto
  have nb: "\<And>x. x \<in> set ?vs \<Longrightarrow> \<not> is_py_bool x" using b by (simp add: no_bools_def list_all_iff)
  consider "?o = ''link-class-in''" | "?o \<in> set port_opcodes" | "?o \<in> set byte_opcodes" | "?o \<in> set literal_opcodes"
    using o by (auto simp: opcode_sets)
  then show ?thesis
  proof cases
    case 1
    obtain ws where ws: "sorted_unique ?vs = Inr ws" "c = c\<lparr>sc_values := ws\<rparr>"
      using n o by (auto simp: normalized_clause_def bindE_Inr)
    then have "sc_values c = ws" by (cases c) simp
    then have d: "distinct ?vs" using sorted_unique_distinct [OF ws(1)] by simp
    have l: "list_all (\<lambda>v. v \<in> {PyStr ''ethernet'', PyStr ''raw-ip''}) ?vs"
      using vs(3) by (simp add: 1 value_ok_def [abs_def])
    show ?thesis
      using link_values_short [OF d l] len l link_keys_ok [OF l]
      by (simp add: 1 encode_link_body is_ok_bindE guardE_def is_ok_concatE byte1_def list_all_iff link_encodes
          del: concatE.simps) (auto simp: is_ok_iff)
  next
    case 2
    have "list_all (int_between 0 0xFFFF) ?vs" and "length ?vs \<le> (if ?o = ''ethertype-in'' then 255 else 512)"
      using vs(2,3) opcode_groups(1) [OF 2] by (auto simp: value_ok_def [abs_def] value_limit_ok_def)
    with len nb show ?thesis
      by (auto simp: encode_port_body [OF 2] is_ok_bindE guardE_def is_ok_concatE pack_def list_all_iff u16_ok
          simp del: concatE.simps split: if_splits)
  next
    case 3
    have "list_all (int_between 0 0xFF) ?vs" and "length ?vs \<le> 255"
      using vs(2,3) opcode_groups(2) [OF 3] 3 by (auto simp: value_ok_def [abs_def] value_limit_ok_def)
    with len nb show ?thesis
      by (auto simp: encode_byte_body [OF 3] is_ok_bindE guardE_def is_ok_concatE byte1_def list_all_iff u8_ok
          simp del: concatE.simps)
  next
    case 4
    have "list_all literal_ok ?vs" "length ?vs \<le> 32"
      using vs(2,3) opcode_groups(3) [OF 4] 4 by (auto simp: value_ok_def [abs_def] value_limit_ok_def)
    with vs(1) show ?thesis by (simp add: encode_literal_body [OF 4] literals_encode)
  qed
qed


lemma window_opcode_name: "window_opcode ''frame-window-contains-any''"
  by (simp add: window_opcode_def port_opcodes_def byte_opcodes_def literal_opcodes_def)

lemma window_clause_encodes:
  assumes o: "sc_opcode c = ''frame-window-contains-any''" and v: "valid_clause c" and b: "no_bools c"
  shows "is_ok (encode_clause_body (sc_opcode c) (sc_values c))"
proof -
  obtain v0 v1 ls a d where w: "sc_values c = v0 # v1 # ls" "isinstance_int v0 = Some a" "isinstance_int v1 = Some d"
     "0 \<le> a" "a \<le> d" "d \<le> 0xFFFF" "ls \<noteq> []" "length ls \<le> 32" "list_all literal_ok ls"
    using v by (auto simp: valid_window_clause [OF o])
  have "v0 = PyInt a" "v1 = PyInt d" using w(1-3) b by (cases v0; cases v1; simp add: no_bools_def is_py_bool_def)+
  moreover obtain cs where "encode_selector_literals ls (sc_opcode c) = Inr cs"
    using literals_encode [OF w(7-9)] by (auto simp: is_ok_iff)
  ultimately show ?thesis
    using w(1,4-6) by (auto simp: is_ok_iff encode_window_body [OF window_opcode_name] o)
qed

lemma two_ints: "list_all (int_between lo hi) vs \<Longrightarrow> list_all (\<lambda>v. \<not> is_py_bool v) vs \<Longrightarrow>
   \<exists>is. vs = map PyInt is \<and> list_all (\<lambda>i. lo \<le> i \<and> i \<le> hi) is"
proof (induction vs)
  case (Cons v vs)
  then obtain js i where "vs = map PyInt js" "list_all (\<lambda>i. lo \<le> i \<and> i \<le> hi) js" "v = PyInt i" "lo \<le> i" "i \<le> hi"
    using int_between_not_bool [of lo hi v] by auto
  then show ?case by (intro exI [of _ "i # js"]) simp
qed simp

lemma scalar_clause_encodes:
  assumes o: "sc_opcode c \<notin> set SET_OPCODES" "sc_opcode c \<noteq> ''frame-window-contains-any''" and v: "valid_clause c" and b: "no_bools c"
  shows "is_ok (encode_clause_body (sc_opcode c) (sc_values c))"
proof -
  have "sc_opcode c \<in> set PLANNER_OPCODES" using v by (auto simp: valid_clause_def validate_clause_def Let_def split: if_splits)
  then consider (always) "sc_opcode c = ''always''" | (flags) "sc_opcode c = ''tcp-flags''" | (minlen) "sc_opcode c = ''payload-minimum-length''"
    | (mask) "sc_opcode c = ''payload-byte-mask''" | (diversity) "sc_opcode c = ''payload-diversity''"
    using o by (auto simp: opcode_sets)
  then show ?thesis
  proof cases
    case always
    with v show ?thesis
      by (auto simp: valid_clause_def validate_clause_def opcode_sets is_ok_iff encode_always_body split: if_splits)
  next
    case flags
    then have "length (sc_values c) = 2" "list_all (int_between 0 0xFFFF) (sc_values c)"
      using v by (auto simp: valid_clause_def validate_clause_def opcode_sets Let_def split: if_splits)
    with two_ints [of 0 "0xFFFF" "sc_values c"] b show ?thesis
      by (auto simp: flags is_ok_iff encode_flags_body no_bools_def numeral_2_eq_2 length_Suc_conv)
  next
    case minlen
    then obtain x where x: "sc_values c = [x]" "int_between 0 0xFFFFFFFF x"
      using v by (auto simp: valid_clause_def validate_clause_def opcode_sets Let_def split: list.splits if_splits)
    with int_between_not_bool [OF x(2)] b show ?thesis
      by (auto simp: minlen is_ok_iff encode_minlen_body no_bools_def)
  next
    case mask
    then obtain x y z where x: "sc_values c = [x, y, z]" "int_between 0 0xFFFF x" "int_between 0 0xFF y" "int_between 0 0xFF z"
      using v by (auto simp: valid_clause_def validate_clause_def opcode_sets Let_def split: list.splits if_splits)
    with int_between_not_bool [OF x(2)] int_between_not_bool [OF x(3)] int_between_not_bool [OF x(4)] b show ?thesis
      by (auto simp: mask is_ok_iff encode_mask_body no_bools_def)
  next
    case diversity
    then obtain x y where x: "sc_values c = [x, y]" "int_between 0 0xFFFF x" "int_between 0 0xFFFF y"
        "the (isinstance_int y) \<le> the (isinstance_int x)"
      using v by (auto simp: valid_clause_def validate_clause_def opcode_sets Let_def split: list.splits if_splits)
    with int_between_not_bool [OF x(2)] int_between_not_bool [OF x(3)] b show ?thesis
      by (auto simp: diversity is_ok_iff encode_diversity_body no_bools_def)
  qed
qed

lemma clause_encodes:
  assumes v: "valid_clause c" and n: "normalized_clause c = Inr c" and b: "no_bools c"
  shows "is_ok (encode_selector_clause \<lparr>cw_opcode = sc_opcode c, cw_values = sc_values c\<rparr>)"
proof -
  have "is_ok (encode_clause_body (sc_opcode c) (sc_values c))"
    using set_clause_encodes [OF _ v n b] window_clause_encodes [OF _ v b] scalar_clause_encodes [OF _ _ v b] by blast
  moreover have "sc_opcode c \<in> set PLANNER_OPCODES" using v by (auto simp: valid_clause_def validate_clause_def Let_def split: if_splits)
  then have "\<exists>k. dict_get selector_opcodes (sc_opcode c) = Some k"
    by (simp add: PLANNER_OPCODES_def selector_opcodes_def) (elim disjE; simp)
  ultimately show ?thesis by (auto simp: is_ok_iff encode_selector_clause_Inr)
qed

lemma normal_clauses_fixed:
  assumes "normalized_program n = Inr n" and "c \<in> set (sp_clauses n)"
  shows "normalized_clause c = Inr c"
proof -
  from assms(1) obtain cs where cs: "mapE normalized_clause (sp_clauses n) = Inr cs"
     "sorted_by (\<lambda>c. canonical_json (canonical_clause c)) cs = Inr (sp_clauses n)"
    by (auto simp: normalized_program_def bindE_Inr) (metis selector_program.select_convs(2))
  have "c \<in> set cs" using assms(2) sorted_by_mset [OF cs(2)] by (metis set_mset_mset)
  from mapE_Inr_member [OF cs(1) this] show ?thesis using normalized_clause_stable by blast
qed

lemma compiled_program_encodes:
  assumes n: "program_normal (cp_program p)" and i: "cp_program_id p < 64"
    and b: "list_all no_bools (sp_clauses (cp_program p))"
  shows "is_ok (encode_selector_program (wire_program p))"
proof -
  let ?n = "cp_program p"
  from n obtain v where v: "valid_program v ?n" "normalized_program ?n = Inr ?n"
    by (auto simp: program_normal_def program_item_def bindE_Inr)
  have "\<exists>m. dict_get candidate_mode_codes (sp_candidate_mode ?n) = Some m"
    using v(1) by (auto simp: valid_program_def candidate_mode_codes_def)
  moreover have "1 \<le> length (sp_clauses ?n)" "length (sp_clauses ?n) \<le> 16" using v(1) by (auto simp: valid_program_def)
  moreover have "is_ok (concatE [pack FmtB (int (length (sp_clauses ?n))),
      concatE (map encode_selector_clause (map (\<lambda>c. \<lparr>cw_opcode = sc_opcode c, cw_values = sc_values c\<rparr>) (sp_clauses ?n)))])"
    using v(1) b normal_clauses_fixed [OF v(2)] \<open>length (sp_clauses ?n) \<le> 16\<close>
    by (auto simp: is_ok_concatE pack_def valid_program_def list_all_iff clause_encodes simp del: concatE.simps)
  ultimately show ?thesis
    using i by (simp add: is_ok_iff encode_selector_program_Inr wire_program_def del: concatE.simps) blast
qed


section \<open>Program ids and the slot for stream preservation\<close>

lemma dense_ids_next:
  assumes "map cp_program_id progs = [0..<length progs]"
  shows "next_program_id (map wire_program progs) = int (length progs)"
proof (cases "progs = []")
  case True
  then show ?thesis by (simp add: next_program_id_def)
next
  case False
  have "map pw_program_id (map wire_program progs) = map int [0..<length progs]"
    by (simp add: wire_program_def comp_def flip: assms)
  then have s: "set (map pw_program_id (map wire_program progs)) = int ` {0..<length progs}"
    by (metis atLeastLessThan_upt list.set_map)
  have "Max (int ` {0..<length progs}) = int (length progs) - 1"
    using False by (intro Max_eqI) (auto intro!: image_eqI [where x = "length progs - 1"] simp: of_nat_diff Suc_le_eq)
  with False show ?thesis unfolding next_program_id_def s by simp
qed

text \<open>The planner allows 64 programs; the adapter then has no id left for the program it adds.\<close>

lemma full_plan_has_no_slot:
  assumes d: "map cp_program_id progs = [0..<length progs]" and l: "length progs = 64"
    and h: "bytes_fromhex digest = Some b" "length b = 32"
  shows "build_aggregate_analysis_plan digest mode og (map wire_program progs) True =
    Inl (ValueError ''aggregate selector plan has no slot for TCP stream preservation'')"
  using dense_ids_next [OF d] l h by (simp add: build_aggregate_analysis_plan_def)

lemma of_hex_char: "d < 16 \<Longrightarrow> (of_char (hex_char d) :: nat) = (if d < 10 then 48 + d else 87 + d)"
  by (simp add: hex_char_def)

lemma hex_value_char: "d < 16 \<Longrightarrow> hex_value (hex_char d) = Some d"
  unfolding hex_value_def Let_def of_hex_char by simp

lemma hex_char_no_space: "d < 16 \<Longrightarrow> \<not> is_hex_space (hex_char d)"
  unfolding is_hex_space_def by (simp only: of_hex_char) simp

lemma show_hex_2: "show_hex 2 n = [hex_char (n div 16 mod 16), hex_char (n mod 16)]"
proof -
  have two: "(2::nat) = Suc (Suc 0)" by simp
  show ?thesis by (simp only: two show_hex.simps append.simps)
qed

lemma nibbles: "(n::nat) < 256 \<Longrightarrow> 16 * (n div 16 mod 16) + n mod 16 = n"
proof -
  assume "n < 256"
  then have "n div 16 < 16" by (simp add: less_mult_imp_div_less)
  then show ?thesis by simp
qed

lemma bytes_fromhex_pair:
  assumes "n < 256"
  shows "bytes_fromhex (show_hex 2 n @ s) = map_option (\<lambda>bs. of_nat n # bs) (bytes_fromhex s)"
proof -
  have d: "n div 16 mod 16 < 16" "n mod 16 < 16" by simp_all
  show ?thesis
    unfolding show_hex_2 append.simps bytes_fromhex.simps hex_value_char [OF d(1)] hex_value_char [OF d(2)]
    by (simp only: hex_char_no_space [OF d(1)] nibbles [OF assms] if_False option.case prod.case) (cases "bytes_fromhex s"; simp)
qed

lemma bytes_fromhex_hex: "bytes_fromhex (bytes_hex b) = Some b"
proof (induction b)
  case (Cons x b)
  have n: "unat x < 256" using uint_lt2p [of x] by (simp del: nat_uint_eq add: nat_less_iff flip: nat_uint_eq)
  have "bytes_hex (x # b) = show_hex 2 (unat x) @ bytes_hex b" unfolding bytes_hex_def by (simp only: list.map concat.simps)
  then show ?case using bytes_fromhex_pair [OF n, of "bytes_hex b"] Cons.IH by simp
qed (simp add: bytes_hex_def)

section \<open>An aggregate plan can be sent\<close>

lemma aggregate_plan_sendable:
  assumes b: "build_rust_analysis_plan ps ds src link strict req = Inr plan"
    and nb: "list_all (\<lambda>p. list_all no_bools (sp_clauses (cp_program p))) (rp_selector_programs plan)"
    and len: "length (rp_selector_programs plan) < 64" and m: "mode \<in> {''memory'', ''streaming''}"
    and o: "is_ok (encode_ascii8 (or_text (og_source og) ''pcap'') 255 ''source'')"
      "is_ok (encode_ascii8 (or_text (og_session_id og) ''rust-analysis'') 255 ''session ID'')"
      "is_ok (encode_ascii8 (or_text (og_device_id og) ''pcap'') 64 ''interface'')"
      "is_ok (encode_ascii8 (or_text (og_sensor_node_id og) ''local'') 128 ''sensor node ID'')"
  shows "\<exists>wire. build_aggregate_analysis_plan (rp_semantic_plugin_digest plan) mode og (map wire_program (rp_selector_programs plan)) True = Inr wire \<and>
     validate_plan wire = Inr ()"
proof -
  let ?progs = "rp_selector_programs plan" and ?wp = "map wire_program (rp_selector_programs plan)"
  obtain entries inc0 planned progs serrs digest inc x where e: "collect_plugins ps ds src link = Inr (entries, inc0)"
      "compile_selectors entries = Inr (planned, progs, serrs)" "semantic_digest planned = Inr digest"
      "plan = plan_of src link req planned progs inc digest x"
    using b by (rule buildE)
  have p: "?progs = progs" "rp_semantic_plugin_digest plan = digest" unfolding e(4) by (simp_all add: plan_of_def)
  from compiled_programs [OF collect_plugins_normal [OF e(1)] e(2)]
  have c: "map cp_program_id ?progs = [0..<length ?progs]" "list_all (\<lambda>p. program_normal (cp_program p)) ?progs"
    unfolding p by blast+
  obtain bs where digest: "digest = sha256_hex bs"
    using e(3) by (auto simp: semantic_digest_def bindE_Inr ascii_digest_def split: option.splits)
  have lt: "cp_program_id q < 64" if "q \<in> set ?progs" for q
  proof -
    from that have "cp_program_id q \<in> set (map cp_program_id ?progs)" by simp
    then show ?thesis unfolding c(1) using len by simp
  qed
  have enc: "list_all (\<lambda>p. is_ok (encode_selector_program p)) ?wp"
    using c(2) nb lt compiled_program_encodes by (simp add: list_all_iff)
  have "map pw_program_id ?wp = map int [0..<length ?progs]"
    by (simp add: wire_program_def comp_def flip: c(1))
  then have dist: "distinct (map pw_program_id ?wp)" by (simp add: distinct_map)
  have hex: "bytes_fromhex (rp_semantic_plugin_digest plan) = Some (sha256 bs)"
    by (simp add: p(2) digest sha256_hex_def bytes_fromhex_hex)
  obtain wire where w: "build_aggregate_analysis_plan (rp_semantic_plugin_digest plan) mode og ?wp True = Inr wire"
    using hex dense_ids_next [OF c(1)] len by (simp add: build_aggregate_analysis_plan_def)
  then have f: "plan_source wire = or_text (og_source og) ''pcap''" "plan_session_id wire = or_text (og_session_id og) ''rust-analysis''"
    "plan_interface wire = or_text (og_device_id og) ''pcap''" "plan_sensor_node_id wire = or_text (og_sensor_node_id og) ''local''"
    by (auto simp: build_aggregate_analysis_plan_def hex bindE_Inr)
  have "validate_plan wire = Inr ()"
    by (rule built_plan_valid [OF w m enc dist]) (use len o in \<open>simp_all add: f\<close>)
  with w show ?thesis by blast
qed

end
