(* ===== verification/SegmentSpool.thy ===== *)
theory SegmentSpool imports CanonicalJson "HOL-Library.Product_Lexorder" begin

text \<open>
  core/forensics/stream\_spool.py: TCP segments kept in a SQLite table while a capture is analysed,
  within limits per flow and direction.  The table is its rows in order of insertion under the primary
  key (flow, direction, sequence); \<open>INSERT OR IGNORE\<close> keeps the first row of a key.  Opening, commit,
  close and cleanup are file I/O.  The lemmas show that the cached usage always agrees with the table,
  that the limits hold, that stored segments are never replaced, and that flows do not interfere.
\<close>

type_synonym spool_flow = "string \<times> string \<times> int \<times> int \<times> string"

record segment_row =
  sr_flow :: string
  sr_direction :: string
  sr_sequence :: int
  sr_timestamp :: f64
  sr_payload :: bytes

record segment_spool =
  sp_max_bytes :: int
  sp_max_segments :: int
  sp_rows :: "segment_row list"
  sp_usage :: "(string \<times> string, int \<times> int) dict"
  sp_truncated_segments :: int
  sp_truncated_bytes :: int

definition spool_init :: "int \<Rightarrow> int \<Rightarrow> segment_row list \<Rightarrow> segment_spool" where
  "spool_init max_bytes max_segments rows =
     \<lparr>sp_max_bytes = max_bytes, sp_max_segments = max_segments, sp_rows = rows, sp_usage = [],
      sp_truncated_segments = 0, sp_truncated_bytes = 0\<rparr>"

text \<open>The key of a flow is its JSON text.\<close>

definition spool_key :: "spool_flow \<Rightarrow> string" where
  "spool_key flow = (case flow of (src, dst, sport, dport, protocol) \<Rightarrow>
     json_dumps (JList [JStr src, JStr dst, JInt sport, JInt dport, JStr protocol]))"

definition rows_of :: "segment_row list \<Rightarrow> string \<times> string \<Rightarrow> segment_row list" where
  "rows_of rows usage_key = filter (\<lambda>r. (sr_flow r, sr_direction r) = usage_key) rows"

definition stored_bytes :: "segment_row list \<Rightarrow> int" where
  "stored_bytes rows = sum_list (map (\<lambda>r. int (length (sr_payload r))) rows)"

definition table_usage :: "segment_row list \<Rightarrow> string \<times> string \<Rightarrow> int \<times> int" where
  "table_usage rows usage_key = (int (length (rows_of rows usage_key)), stored_bytes (rows_of rows usage_key))"

definition row_key :: "segment_row \<Rightarrow> string \<times> string \<times> int" where
  "row_key r = (sr_flow r, sr_direction r, sr_sequence r)"

text \<open>The rows afterwards, and whether a row was inserted.\<close>

definition insert_or_ignore :: "segment_row list \<Rightarrow> segment_row \<Rightarrow> segment_row list \<times> bool" where
  "insert_or_ignore rows r = (if row_key r \<in> row_key ` set rows then (rows, False) else (rows @ [r], True))"

definition spool_append :: "segment_spool \<Rightarrow> spool_flow \<Rightarrow> string \<Rightarrow> int \<Rightarrow> bytes \<Rightarrow> f64 \<Rightarrow> segment_spool \<times> bool" where
  "spool_append s flow direction sequence payload timestamp =
     (let usage_key = (spool_key flow, direction);
          usage = (case dict_get (sp_usage s) usage_key of Some u \<Rightarrow> u | None \<Rightarrow> table_usage (sp_rows s) usage_key);
          s1 = (case dict_get (sp_usage s) usage_key of Some u \<Rightarrow> s
                | None \<Rightarrow> s\<lparr>sp_usage := dict_set (sp_usage s) usage_key usage\<rparr>);
          (count, used) = usage
      in if count \<ge> sp_max_segments s \<or> used \<ge> sp_max_bytes s
         then (s1\<lparr>sp_truncated_segments := sp_truncated_segments s + 1,
                  sp_truncated_bytes := sp_truncated_bytes s + int (length payload)\<rparr>, False)
         else
           (let bounded = take (nat (sp_max_bytes s - used)) payload;
                s2 = s1\<lparr>sp_truncated_bytes := sp_truncated_bytes s + (int (length payload) - int (length bounded))\<rparr>;
                (rows, inserted) = insert_or_ignore (sp_rows s)
                  \<lparr>sr_flow = spool_key flow, sr_direction = direction, sr_sequence = sequence, sr_timestamp = timestamp, sr_payload = bounded\<rparr>
            in if inserted
               then (s2\<lparr>sp_rows := rows, sp_usage := dict_set (sp_usage s2) usage_key (count + 1, used + int (length bounded))\<rparr>, True)
               else (s2, False)))"

definition flow_count :: "segment_spool \<Rightarrow> nat" where
  "flow_count s = length (remdups (map sr_flow (sp_rows s)))"

text \<open>The keys of the flows, in order; \<open>flow_ids\<close> reads each back with \<open>json.loads\<close>.\<close>

definition flow_keys :: "segment_spool \<Rightarrow> string list" where
  "flow_keys s = sort (remdups (map sr_flow (sp_rows s)))"

type_synonym loaded = "(string, (int \<times> f64 \<times> bytes) list) dict"

definition spool_load :: "segment_spool \<Rightarrow> spool_flow \<Rightarrow> loaded result" where
  "spool_load s flow =
     foldE (\<lambda>result r.
         case dict_get result (sr_direction r) of
           None \<Rightarrow> Inl KeyError
         | Some segments \<Rightarrow> Inr (dict_set result (sr_direction r) (segments @ [(sr_sequence r, sr_timestamp r, sr_payload r)])))
       [(''to_server'', []), (''to_client'', [])]
       (sort_key (\<lambda>r. (sr_direction r, sr_sequence r)) (filter (\<lambda>r. sr_flow r = spool_key flow) (sp_rows s)))"

section \<open>Keys\<close>

lemma spool_key_inj: "spool_key f = spool_key g \<Longrightarrow> f = g"
proof -
  assume a: "spool_key f = spool_key g"
  obtain s d p q r where f: "f = (s, d, p, q, r)" by (cases f)
  obtain s' d' p' q' r' where g: "g = (s', d', p', q', r')" by (cases g)
  have "JList [JStr s, JStr d, JInt p, JInt q, JStr r] = JList [JStr s', JStr d', JInt p', JInt q', JStr r']"
    by (rule json_dumps_inj) (use a in \<open>simp_all add: spool_key_def f g del: json_dumps.simps\<close>)
  then show ?thesis by (simp add: f g)
qed

section \<open>The invariant\<close>

definition spool_ok :: "segment_spool \<Rightarrow> bool" where
  "spool_ok s \<longleftrightarrow> distinct (map row_key (sp_rows s)) \<and>
     (\<forall>k u. dict_get (sp_usage s) k = Some u \<longrightarrow> u = table_usage (sp_rows s) k)"

definition within_limits :: "segment_spool \<Rightarrow> string \<times> string \<Rightarrow> bool" where
  "within_limits s k \<longleftrightarrow> fst (table_usage (sp_rows s) k) \<le> max 0 (sp_max_segments s) \<and>
     snd (table_usage (sp_rows s) k) \<le> max 0 (sp_max_bytes s)"

lemma table_usage_snoc:
  "table_usage (rows @ [r]) k = (if (sr_flow r, sr_direction r) = k
     then (fst (table_usage rows k) + 1, snd (table_usage rows k) + int (length (sr_payload r))) else table_usage rows k)"
  by (simp add: table_usage_def rows_of_def stored_bytes_def)

text \<open>One append, by its outcome.\<close>

lemma spool_append_cases:
  assumes "spool_ok s" "spool_append s flow direction sequence payload timestamp = (s', b)"
  obtains (Kept) "sp_rows s' = sp_rows s" "\<not> b" "sp_max_bytes s' = sp_max_bytes s" "sp_max_segments s' = sp_max_segments s"
      "\<forall>k u. dict_get (sp_usage s') k = Some u \<longrightarrow> u = table_usage (sp_rows s) k"
  | (Inserted) r where "sp_rows s' = sp_rows s @ [r]" "b" "sp_max_bytes s' = sp_max_bytes s" "sp_max_segments s' = sp_max_segments s"
      "row_key r = (spool_key flow, direction, sequence)" "row_key r \<notin> row_key ` set (sp_rows s)"
      "fst (table_usage (sp_rows s) (spool_key flow, direction)) < sp_max_segments s"
      "snd (table_usage (sp_rows s) (spool_key flow, direction)) + int (length (sr_payload r)) \<le> sp_max_bytes s"
      "\<exists>n. sr_payload r = take n payload"
      "\<forall>k u. dict_get (sp_usage s') k = Some u \<longrightarrow> u = table_usage (sp_rows s @ [r]) k"
proof -
  define k where "k = (spool_key flow, direction)"
  define usage where "usage = table_usage (sp_rows s) k"
  define s1 where "s1 = (case dict_get (sp_usage s) k of Some u \<Rightarrow> s | None \<Rightarrow> s\<lparr>sp_usage := dict_set (sp_usage s) k usage\<rparr>)"
  obtain count used where u: "usage = (count, used)" by (cases usage)
  define bounded where "bounded = take (nat (sp_max_bytes s - used)) payload"
  define r where "r = \<lparr>sr_flow = spool_key flow, sr_direction = direction, sr_sequence = sequence, sr_timestamp = timestamp, sr_payload = bounded\<rparr>"
  have ok: "u = table_usage (sp_rows s) k" if "dict_get (sp_usage s) k = Some u" for k u
    using assms(1) that unfolding spool_ok_def by blast
  have us: "(case dict_get (sp_usage s) k of Some u \<Rightarrow> u | None \<Rightarrow> table_usage (sp_rows s) k) = usage"
    using ok [of k] by (cases "dict_get (sp_usage s) k") (simp_all add: usage_def)
  have s1: "sp_rows s1 = sp_rows s" "sp_max_bytes s1 = sp_max_bytes s" "sp_max_segments s1 = sp_max_segments s"
    by (simp_all add: s1_def split: option.split)
  have s1u: "u = table_usage (sp_rows s) k'" if "dict_get (sp_usage s1) k' = Some u" for k' u
  proof (cases "dict_get (sp_usage s) k")
    case None
    with that ok [of k' u] show ?thesis by (cases "k' = k") (simp_all add: s1_def usage_def dict_simps)
  next
    case (Some v)
    with that ok [of k' u] show ?thesis by (simp add: s1_def)
  qed
  note eq = assms(2) [unfolded spool_append_def Let_def, folded k_def, unfolded us, folded s1_def, unfolded u prod.case, folded bounded_def]
  show thesis
  proof (cases "sp_max_segments s \<le> count \<or> sp_max_bytes s \<le> used")
    case True
    with eq have e: "sp_rows s' = sp_rows s1" "\<not> b" "sp_max_bytes s' = sp_max_bytes s1" "sp_max_segments s' = sp_max_segments s1"
      "sp_usage s' = sp_usage s1" by auto
    then show thesis using that(1) s1 s1u by simp
  next
    case False
    have rk: "row_key r = (spool_key flow, direction, sequence)" by (simp add: r_def row_key_def)
    show thesis
    proof (cases "row_key r \<in> row_key ` set (sp_rows s)")
      case True
      with False eq have e: "sp_rows s' = sp_rows s1" "\<not> b" "sp_max_bytes s' = sp_max_bytes s1" "sp_max_segments s' = sp_max_segments s1"
        "sp_usage s' = sp_usage s1" by (auto simp: insert_or_ignore_def r_def)
      then show thesis using that(1) s1 s1u by simp
    next
      case new: False
      have e: "s' = s1\<lparr>sp_truncated_bytes := sp_truncated_bytes s + (int (length payload) - int (length bounded)), sp_rows := sp_rows s @ [r],
          sp_usage := dict_set (sp_usage s1) k (count + 1, used + int (length bounded))\<rparr>" "b"
        using False new eq by (auto simp: insert_or_ignore_def r_def)
      have t: "table_usage (sp_rows s @ [r]) k' = (if k = k' then (count + 1, used + int (length bounded)) else table_usage (sp_rows s) k')" for k'
        using u by (auto simp: table_usage_snoc r_def k_def usage_def)
      have "length bounded \<le> nat (sp_max_bytes s - used)" by (simp add: bounded_def)
      moreover have "0 \<le> sp_max_bytes s - used" using False by simp
      ultimately have "int (length bounded) \<le> sp_max_bytes s - used" by (simp only: le_nat_iff)
      then have "used + int (length bounded) \<le> sp_max_bytes s" by simp
      then have "used + int (length (sr_payload r)) \<le> sp_max_bytes s" by (simp add: r_def)
      moreover have "u = table_usage (sp_rows s @ [r]) k'" if "dict_get (sp_usage s') k' = Some u" for k' u
        using that s1u [of k' u] unfolding t by (cases "k' = k") (simp_all add: e dict_simps)
      moreover have "fst usage = count" "snd usage = used" by (simp_all add: u)
      moreover have "\<exists>n. sr_payload r = take n payload" by (auto simp: r_def bounded_def)
      ultimately show thesis
        using that(2) [of r] False new e rk s1 by (simp add: usage_def k_def)
    qed
  qed
qed

lemma spool_append_ok:
  assumes "spool_ok s" "spool_append s flow direction sequence payload timestamp = (s', b)"
  shows "spool_ok s' \<and> (\<forall>k. within_limits s k \<longrightarrow> within_limits s' k) \<and>
    sp_max_bytes s' = sp_max_bytes s \<and> sp_max_segments s' = sp_max_segments s"
  using assms
proof (cases rule: spool_append_cases)
  case Kept
  with assms(1) show ?thesis by (simp add: spool_ok_def within_limits_def)
next
  case (Inserted r)
  have k: "(sr_flow r, sr_direction r) = (spool_key flow, direction)" using Inserted(5) by (simp add: row_key_def)
  from Inserted k assms(1) show ?thesis
    by (auto simp: spool_ok_def within_limits_def table_usage_snoc)
qed


type_synonym spool_op = "spool_flow \<times> string \<times> int \<times> bytes \<times> f64"

definition spool_step :: "segment_spool \<Rightarrow> spool_op \<Rightarrow> segment_spool" where
  "spool_step s op = (case op of (flow, direction, sequence, payload, timestamp) \<Rightarrow>
     fst (spool_append s flow direction sequence payload timestamp))"

lemma spool_init_ok:
  assumes "distinct (map row_key rows)"
  shows "spool_ok (spool_init mb ms rows)"
  using assms by (simp add: spool_ok_def spool_init_def)

lemma spool_run_ok:
  assumes "spool_ok s"
  shows "spool_ok (foldl spool_step s ops) \<and> (within_limits s k \<longrightarrow> within_limits (foldl spool_step s ops) k)"
  using assms
proof (induction ops arbitrary: s)
  case (Cons op ops)
  obtain flow direction sequence payload timestamp where op: "op = (flow, direction, sequence, payload, timestamp)" by (cases op)
  obtain s' b where a: "spool_append s flow direction sequence payload timestamp = (s', b)"
    by (cases "spool_append s flow direction sequence payload timestamp")
  have s': "spool_step s op = s'" by (simp add: op a spool_step_def)
  from spool_append_ok [OF Cons.prems a] have "spool_ok s'" "within_limits s k \<longrightarrow> within_limits s' k" by blast+
  with Cons.IH [of s'] show ?case by (simp add: s')
qed simp

lemma empty_within: "within_limits (spool_init mb ms []) k"
  by (simp add: within_limits_def spool_init_def table_usage_def rows_of_def stored_bytes_def)

text \<open>An append adds at most one row at the end, and none to another flow.\<close>

lemma spool_append_other:
  assumes "spool_ok s" "g \<noteq> flow"
  shows "spool_load (fst (spool_append s flow direction sequence payload timestamp)) g = spool_load s g"
proof -
  obtain s' b where a: "spool_append s flow direction sequence payload timestamp = (s', b)"
    by (cases "spool_append s flow direction sequence payload timestamp")
  have "filter (\<lambda>r. sr_flow r = spool_key g) (sp_rows s') = filter (\<lambda>r. sr_flow r = spool_key g) (sp_rows s)"
    using assms(1) a
  proof (cases rule: spool_append_cases)
    case (Inserted r)
    then have "sr_flow r = spool_key flow" by (simp add: row_key_def)
    with assms(2) have "sr_flow r \<noteq> spool_key g" using spool_key_inj by metis
    with Inserted show ?thesis by simp
  qed simp
  then show ?thesis by (simp add: a spool_load_def)
qed


text \<open>The table only grows at its end: a stored segment stays, and a later copy never replaces it.\<close>

lemma spool_run_appends:
  assumes "spool_ok s"
  shows "\<exists>new. sp_rows (foldl spool_step s ops) = sp_rows s @ new"
  using assms
proof (induction ops arbitrary: s)
  case (Cons op ops)
  obtain flow direction sequence payload timestamp where op: "op = (flow, direction, sequence, payload, timestamp)" by (cases op)
  obtain s' b where a: "spool_append s flow direction sequence payload timestamp = (s', b)"
    by (cases "spool_append s flow direction sequence payload timestamp")
  have s': "spool_step s op = s'" by (simp add: op a spool_step_def)
  have "\<exists>new. sp_rows s' = sp_rows s @ new" using Cons.prems a by (cases rule: spool_append_cases) auto
  moreover have "spool_ok s'" using spool_append_ok [OF Cons.prems a] by blast
  ultimately show ?case using Cons.IH [of s'] by (auto simp: s')
qed simp

section \<open>Loading\<close>

definition row_segment :: "segment_row \<Rightarrow> int \<times> f64 \<times> bytes" where
  "row_segment r = (sr_sequence r, sr_timestamp r, sr_payload r)"

definition known_direction :: "segment_row \<Rightarrow> bool" where
  "known_direction r \<longleftrightarrow> sr_direction r \<in> {''to_server'', ''to_client''}"

lemma load_rows:
  "list_all known_direction rows \<Longrightarrow>
     foldE (\<lambda>result r.
         case dict_get result (sr_direction r) of
           None \<Rightarrow> Inl KeyError
         | Some segments \<Rightarrow> Inr (dict_set result (sr_direction r) (segments @ [(sr_sequence r, sr_timestamp r, sr_payload r)])))
       [(''to_server'', a), (''to_client'', b)] rows =
     Inr [(''to_server'', a @ map row_segment (filter (\<lambda>r. sr_direction r = ''to_server'') rows)),
       (''to_client'', b @ map row_segment (filter (\<lambda>r. sr_direction r = ''to_client'') rows))]"
proof (induction rows arbitrary: a b)
  case (Cons r rows)
  have rows: "list_all known_direction rows" using Cons.prems by simp
  consider "sr_direction r = ''to_server''" | "sr_direction r = ''to_client''" using Cons.prems by (auto simp: known_direction_def)
  then show ?case
  proof cases
    case 1
    then show ?thesis using Cons.IH [OF rows, of "a @ [row_segment r]" b] by (simp add: row_segment_def)
  next
    case 2
    then show ?thesis using Cons.IH [OF rows, of a "b @ [row_segment r]"] by (simp add: row_segment_def)
  qed
qed simp

definition direction_rows :: "segment_spool \<Rightarrow> spool_flow \<Rightarrow> string \<Rightarrow> segment_row list" where
  "direction_rows s flow direction = filter (\<lambda>r. sr_direction r = direction)
     (sort_key (\<lambda>r. (sr_direction r, sr_sequence r)) (filter (\<lambda>r. sr_flow r = spool_key flow) (sp_rows s)))"

text \<open>A load gives, for each direction, exactly the stored segments of the flow, once each, by sequence number.\<close>

lemma direction_rows_sorted:
  assumes "spool_ok s"
  shows "sorted (map sr_sequence (direction_rows s flow d)) \<and> distinct (map sr_sequence (direction_rows s flow d)) \<and>
    set (direction_rows s flow d) = {r \<in> set (sp_rows s). sr_flow r = spool_key flow \<and> sr_direction r = d}"
proof -
  let ?rows = "direction_rows s flow d"
  let ?all = "sort_key (\<lambda>r. (sr_direction r, sr_sequence r)) (filter (\<lambda>r. sr_flow r = spool_key flow) (sp_rows s))"
  have set: "set ?rows = {r \<in> set (sp_rows s). sr_flow r = spool_key flow \<and> sr_direction r = d}" by (auto simp: direction_rows_def)
  have "sorted (map (\<lambda>r. (sr_direction r, sr_sequence r)) ?rows)"
    unfolding direction_rows_def by (rule sorted_filter) (rule sorted_sort_key)
  then have "sorted_wrt (\<lambda>r q. (sr_direction r, sr_sequence r) \<le> (sr_direction q, sr_sequence q)) ?rows" by (simp add: sorted_map)
  then have "sorted_wrt (\<lambda>r q. sr_sequence r \<le> sr_sequence q) ?rows"
    by (rule sorted_wrt_mono_rel [rotated]) (use set in auto)
  then have sorted: "sorted (map sr_sequence ?rows)" by (simp add: sorted_map)
  have "distinct (map row_key (sp_rows s))" using assms by (simp add: spool_ok_def)
  then have "inj_on row_key (set (sp_rows s))" "distinct (sp_rows s)" by (simp_all add: distinct_map)
  then have "distinct ?rows" "inj_on sr_sequence (set ?rows)"
    using set by (auto simp: direction_rows_def distinct_sort inj_on_def row_key_def)
  with sorted set show ?thesis by (simp add: distinct_map)
qed

lemma spool_load_exact:
  assumes "list_all known_direction (sp_rows s)"
  shows "spool_load s flow = Inr [(''to_server'', map row_segment (direction_rows s flow ''to_server'')),
    (''to_client'', map row_segment (direction_rows s flow ''to_client''))]"
proof -
  have "list_all known_direction (sort_key (\<lambda>r. (sr_direction r, sr_sequence r)) (filter (\<lambda>r. sr_flow r = spool_key flow) (sp_rows s)))"
    using assms by (simp add: list_all_iff)
  from load_rows [OF this, of "[]" "[]"] show ?thesis by (simp add: spool_load_def direction_rows_def)
qed

end
