(* ===== verification/SigmaRule.thy ===== *)
theory SigmaRule imports IpNetwork PyFloat PyText begin

text \<open>
  core/forensics/sigma\_engine.py: how a Sigma rule is checked and matched against a stored record.  Rules
  and records are decoded YAML and JSON values.  What the code takes from libraries is in \<open>sigma_env\<close>:
  the verdict of pySigma on a rule, the search of a regular expression (\<open>None\<close> is re.error) and the text
  of values that are neither text nor numbers.  \<open>fnmatch\<close>, the two regular expressions of the condition
  language and its recursive-descent parser are written out; the file system's case folding in
  \<open>fnmatch\<close> is that of POSIX.  What is proved of the condition language and of loading is in SigmaLanguage.
\<close>

record sigma_env =
  se_str :: "pyval \<Rightarrow> string"
  se_search :: "string \<Rightarrow> string \<Rightarrow> bool option"
  se_pysigma :: "pyval \<Rightarrow> string option"

type_synonym record_dict = "(string, pyval) dict"

section \<open>Fields\<close>

definition SUPPORTED_CATEGORIES :: "string list" where
  "SUPPORTED_CATEGORIES = [''dns'', ''firewall'', ''network_connection'', ''network_identity'', ''network_dns'', ''network_traffic'']"

definition SUPPORTED_LEVELS :: "string list" where
  "SUPPORTED_LEVELS = [''medium'', ''high'', ''critical'']"

definition SUPPORTED_STATUS :: "string list" where
  "SUPPORTED_STATUS = [''stable'', ''test'']"

definition FIELD_ALIASES :: "(string \<times> string) list" where
  "FIELD_ALIASES = [(''SourceIp'', ''src_ip''), (''DestinationIp'', ''dst_ip''), (''SourcePort'', ''src_port''),
     (''DestinationPort'', ''dst_port''), (''IpAddress'', ''ip''), (''User'', ''username''), (''Hostname'', ''hostname''),
     (''Protocol'', ''protocol''), (''Bytes'', ''byte_count''), (''query'', ''remote_hostname'')]"

definition FLOW_FIELDS :: "string list" where
  "FLOW_FIELDS = [''src_ip'', ''dst_ip'', ''src_port'', ''dst_port'', ''protocol'', ''packet_count'', ''byte_count'', ''start_time'',
     ''last_seen'', ''source'', ''capture_interface'', ''capture_session_id'', ''l7_metadata'', ''remote_hostname'', ''domain'',
     ''dns_query'', ''http_host'', ''http_method'', ''tls_sni'', ''ja3_hash'', ''ja4_string'', ''application_protocol'', ''ssh_banner'',
     ''ldap_operation'', ''rdp_cookie_user'', ''mail_from'', ''mail_to'', ''snmp_community'', ''mqtt_packet_type'', ''modbus_function'']
     @ map fst FIELD_ALIASES"

definition ENTITY_FIELDS :: "string list" where
  "ENTITY_FIELDS = [''ip'', ''mac'', ''vendor'', ''hostname'', ''netbios_name'', ''username'', ''full_name'', ''os_info'', ''ja3_hash'',
     ''ja4_string'', ''tls_library'', ''source''] @ map fst FIELD_ALIASES"

definition SUPPORTED_MODIFIERS :: "string list" where
  "SUPPORTED_MODIFIERS = [''contains'', ''startswith'', ''endswith'', ''re'', ''cidr'', ''exists'', ''all'']"

section \<open>Wildcards\<close>

text \<open>The characters of a bracket expression: ranges first, and a range with its ends swapped holds nothing.\<close>

fun glob_class :: "string \<Rightarrow> char \<Rightarrow> bool" where
  "glob_class (a # b # c # rest) x =
     (if b = CHR ''-'' then of_char a \<le> (of_char x :: nat) \<and> of_char x \<le> (of_char c :: nat) \<or> glob_class rest x
      else x = a \<or> glob_class (b # c # rest) x)"
| "glob_class (a # rest) x = (x = a \<or> glob_class rest x)"
| "glob_class [] x = False"

text \<open>The content of the brackets and what follows; a closing bracket in first place is a member.\<close>

definition bracket_parts :: "string \<Rightarrow> (bool \<times> string \<times> string) option" where
  "bracket_parts p =
     (let negated = (p \<noteq> [] \<and> hd p = CHR ''!''); q = (if negated then tl p else p);
          first = (if q \<noteq> [] \<and> hd q = CHR '']'' then 1 else 0);
          content = take first q @ takeWhile (\<lambda>c. c \<noteq> CHR '']'') (drop first q); rest = drop (length content) q
      in if rest = [] then None else Some (negated, content, tl rest))"

lemma bracket_parts_shorter: "bracket_parts p = Some (n, c, r) \<Longrightarrow> length r < length p"
proof -
  assume b: "bracket_parts p = Some (n, c, r)"
  let ?q = "if p \<noteq> [] \<and> hd p = CHR ''!'' then tl p else p"
  from b have "r = tl (drop (length c) ?q)" "drop (length c) ?q \<noteq> []"
    by (auto simp: bracket_parts_def Let_def split: if_splits)
  then have "length r < length ?q" by (cases "drop (length c) ?q") (auto dest: arg_cong [where f = length])
  then show ?thesis by (cases p) (auto split: if_splits)
qed

function glob :: "string \<Rightarrow> string \<Rightarrow> bool" where
  "glob [] s = (s = [])"
| "glob (p # ps) s =
     (if p = CHR ''*'' then glob ps s \<or> (case s of [] \<Rightarrow> False | _ # t \<Rightarrow> glob (p # ps) t)
      else
        (case s of
           [] \<Rightarrow> False
         | c # t \<Rightarrow>
             if p = CHR ''?'' then glob ps t
             else (case (if p = CHR ''['' then bracket_parts ps else None) of
                 Some (negated, content, rest) \<Rightarrow> glob_class content c \<noteq> negated \<and> glob rest t
               | None \<Rightarrow> c = p \<and> glob ps t)))"
  by pat_completeness auto
termination
  by (relation "measure (\<lambda>(p, s). length p + length s)")
    (auto split: if_splits dest!: bracket_parts_shorter simp: neq_Nil_conv)

declare glob.simps(2) [simp del]

definition fnmatch :: "string \<Rightarrow> string \<Rightarrow> bool" where
  "fnmatch name pattern = glob pattern name"

section \<open>One value\<close>

definition ip_address :: "string \<Rightarrow> (int \<times> nat) option" where
  "ip_address s = (case parse_ipv4_address s of Some a \<Rightarrow> Some (4, a) | None \<Rightarrow> map_option (Pair 6) (parse_ipv6_address s))"

definition address_in :: "int \<times> nat \<Rightarrow> network \<Rightarrow> bool" where
  "address_in a n \<longleftrightarrow> fst a = net_version n \<and> net_first n \<le> snd a \<and> snd a \<le> net_last n"

definition starts_with :: "string \<Rightarrow> string \<Rightarrow> bool" where
  "starts_with s prefix \<longleftrightarrow> take (length prefix) s = prefix"

definition ends_with :: "string \<Rightarrow> string \<Rightarrow> bool" where
  "ends_with s suffix \<longleftrightarrow> starts_with (rev s) (rev suffix)"

fun contains_text :: "string \<Rightarrow> string \<Rightarrow> bool" where
  "contains_text [] part = (part = [])"
| "contains_text (c # cs) part = (starts_with (c # cs) part \<or> contains_text cs part)"

definition match_text :: "sigma_env \<Rightarrow> string \<Rightarrow> string \<Rightarrow> string list \<Rightarrow> bool" where
  "match_text env actual expected modifiers =
     (if ''cidr'' \<in> set modifiers then
        (case (ip_address actual, ip_network expected) of (Some a, Some n) \<Rightarrow> address_in a n | _ \<Rightarrow> False)
      else if ''re'' \<in> set modifiers then se_search env expected actual = Some True
      else
        (let left = py_lower actual; right = py_lower expected in
         if ''contains'' \<in> set modifiers then contains_text left right
         else if ''startswith'' \<in> set modifiers then starts_with left right
         else if ''endswith'' \<in> set modifiers then ends_with left right
         else if CHR ''*'' \<in> set right \<or> CHR ''?'' \<in> set right then fnmatch left right
         else left = right))"

fun match_one :: "sigma_env \<Rightarrow> pyval \<Rightarrow> pyval \<Rightarrow> string list \<Rightarrow> bool" where
  "match_one env (PyList items) expected modifiers =
     (if ''exists'' \<in> set modifiers then py_truth expected else list_ex (\<lambda>item. match_one env item expected modifiers) items)"
| "match_one env (PyTuple items) expected modifiers =
     (if ''exists'' \<in> set modifiers then py_truth expected else list_ex (\<lambda>item. match_one env item expected modifiers) items)"
| "match_one env actual expected modifiers =
     (if ''exists'' \<in> set modifiers then (actual \<noteq> PyNone) = py_truth expected
      else if actual = PyNone then False
      else match_text env (py_str (se_str env) actual) (py_str (se_str env) expected) modifiers)"

section \<open>A selection\<close>

text \<open>\<open>_record\<close>: the metadata is laid over the record, then each alias over its native field.\<close>

definition flatten_record :: "record_dict \<Rightarrow> record_dict" where
  "flatten_record r =
     foldl (\<lambda>d (alias, native). case dict_get d native of Some v \<Rightarrow> dict_set d alias v | None \<Rightarrow> d)
       (case dict_get r ''l7_metadata'' of Some (PyDict m) \<Rightarrow> dict_update r m | _ \<Rightarrow> r) FIELD_ALIASES"

definition field_value :: "record_dict \<Rightarrow> string \<Rightarrow> pyval" where
  "field_value r name =
     (case dict_get r name of
        Some v \<Rightarrow> if v \<noteq> PyNone then v
          else (case find (\<lambda>(k, v). py_lower k = py_lower name) r of Some (_, w) \<Rightarrow> w | None \<Rightarrow> PyNone)
      | None \<Rightarrow> (case find (\<lambda>(k, v). py_lower k = py_lower name) r of Some (_, w) \<Rightarrow> w | None \<Rightarrow> PyNone))"

definition field_matches :: "sigma_env \<Rightarrow> record_dict \<Rightarrow> string \<times> pyval \<Rightarrow> bool" where
  "field_matches env r field =
     (case field of (field_spec, expected) \<Rightarrow>
        let parts = py_split (CHR ''|'') field_spec; modifiers = tl parts; actual = field_value r (hd parts);
            results = map (\<lambda>value. match_one env actual value modifiers) (case expected of PyList vs \<Rightarrow> vs | _ \<Rightarrow> [expected])
        in if ''all'' \<in> set modifiers then list_all id results else list_ex id results)"

fun match_selection :: "sigma_env \<Rightarrow> record_dict \<Rightarrow> pyval \<Rightarrow> bool" where
  "match_selection env r (PyList items) = list_ex (match_selection env r) items"
| "match_selection env r (PyDict mapping) = list_all (field_matches env r) mapping"
| "match_selection env r _ = False"

section \<open>The condition language\<close>

text \<open>\<open>\\w\<close> below U+0100.\<close>

definition is_word_char :: "char \<Rightarrow> bool" where
  "is_word_char c \<longleftrightarrow> (let n = (of_char c :: nat) in 48 \<le> n \<and> n \<le> 57 \<or> 65 \<le> n \<and> n \<le> 90 \<or> 97 \<le> n \<and> n \<le> 122 \<or> n = 95 \<or>
     n \<in> {170, 178, 179, 181, 185, 186, 188, 189, 190} \<or> 192 \<le> n \<and> n \<noteq> 215 \<and> n \<noteq> 247)"

text \<open>\<open>[A-Za-z0-9_.-]\<close>\<close>

definition is_name_char :: "char \<Rightarrow> bool" where
  "is_name_char c \<longleftrightarrow> (let n = (of_char c :: nat) in 48 \<le> n \<and> n \<le> 57 \<or> 65 \<le> n \<and> n \<le> 90 \<or> 97 \<le> n \<and> n \<le> 122 \<or>
     n = 95 \<or> n = 46 \<or> n = 45)"

definition KEYWORDS :: "string list" where
  "KEYWORDS = [''and'', ''or'', ''not'', ''true'', ''false'']"

text \<open>A word of the list at the start of the text, in any case, ending at a word boundary.\<close>

definition keyword_at :: "string list \<Rightarrow> string \<Rightarrow> string option" where
  "keyword_at words s =
     (case find (\<lambda>k. py_lower (take (length k) s) = k \<and> (case drop (length k) s of [] \<Rightarrow> True | c # _ \<Rightarrow> \<not> is_word_char c)) words of
        None \<Rightarrow> None | Some k \<Rightarrow> Some (take (length k) s))"

text \<open>\<open>re.findall\<close>; the flag says whether the character before is a word character.\<close>

function condition_tokens :: "bool \<Rightarrow> string \<Rightarrow> string list" where
  "condition_tokens after_word [] = []"
| "condition_tokens after_word (c # cs) =
     (if c = CHR ''('' \<or> c = CHR '')'' then [c] # condition_tokens False cs
      else (case (if after_word then None else keyword_at KEYWORDS (c # cs)) of
          Some k \<Rightarrow> (if k = [] then [] else k # condition_tokens True (drop (length k) (c # cs)))
        | None \<Rightarrow>
            if is_name_char c
            then (let word = takeWhile is_name_char (c # cs) in word # condition_tokens (is_word_char (last word)) (dropWhile is_name_char cs))
            else condition_tokens (is_word_char c) cs))"
  by pat_completeness auto
termination
  by (relation "measure (\<lambda>(_, s). length s)") (auto simp: le_imp_less_Suc length_dropWhile_le)

declare condition_tokens.simps(2) [simp del]

text \<open>One match of the quantifier pattern: its mode, its target, and what follows.\<close>

definition quantifier_at :: "string \<Rightarrow> (string \<times> string \<times> string) option" where
  "quantifier_at s =
     (let one = (take 1 s = ''1''); every = (py_lower (take 3 s) = ''all''); rest = (if one then drop 1 s else drop 3 s);
          at_of = dropWhile is_space_char rest; after_of = drop 2 at_of; at_target = dropWhile is_space_char after_of;
          in_target = (\<lambda>c. is_name_char c \<or> c = CHR ''*''); target = takeWhile in_target at_target; final = dropWhile in_target at_target
      in if (one \<or> every) \<and> at_of \<noteq> rest \<and> py_lower (take 2 at_of) = ''of'' \<and> at_target \<noteq> after_of \<and> target \<noteq> [] \<and>
            (case final of [] \<Rightarrow> True | c # _ \<Rightarrow> is_space_char c \<or> c = CHR '')'')
         then Some (if one then ''1'' else ''all'', target, final) else None)"

definition quantifier_text :: "string list \<Rightarrow> string \<Rightarrow> string \<Rightarrow> string result" where
  "quantifier_text names mode target =
     (let chosen = (if py_lower target = ''them'' then names else filter (\<lambda>n. fnmatch n target) names)
      in if chosen = [] then Inl (SigmaCompatibilityError (''condition pattern matched no selections: '' @ target))
         else Inr (''('' @ py_join (if mode = ''1'' then '' or '' else '' and '') chosen @ '')''))"

lemma quantifier_shorter: "quantifier_at s = Some (m, t, r) \<Longrightarrow> length r < length s"
proof -
  assume q: "quantifier_at s = Some (m, t, r)"
  let ?in = "\<lambda>c. is_name_char c \<or> c = CHR ''*''"
  from q obtain x where t: "t = takeWhile ?in x" "r = dropWhile ?in x" "t \<noteq> []" "length x \<le> length s"
    by (auto simp: quantifier_at_def Let_def split: if_splits intro!: order_trans [OF length_dropWhile_le])
      (metis (no_types, lifting) diff_le_self le_trans length_drop length_dropWhile_le)+
  have "length t + length r = length x" unfolding t by (metis length_append takeWhile_dropWhile_id)
  with t(3,4) show ?thesis by (cases t) auto
qed

text \<open>\<open>_expand_quantifiers\<close>\<close>

function expand_quantifiers :: "string list \<Rightarrow> bool \<Rightarrow> string \<Rightarrow> string result" where
  "expand_quantifiers names after_word [] = Inr []"
| "expand_quantifiers names after_word (c # cs) =
     (case (if after_word then None else quantifier_at (c # cs)) of
        Some (mode, target, rest) \<Rightarrow>
          bindE (quantifier_text names mode target) (\<lambda>text.
          bindE (expand_quantifiers names (is_word_char (last target)) rest) (\<lambda>more.
          Inr (text @ more)))
      | None \<Rightarrow> bindE (expand_quantifiers names (is_word_char c) cs) (\<lambda>more. Inr (c # more)))"
  by pat_completeness auto
termination
  by (relation "measure (\<lambda>(_, _, s). length s)") (auto split: if_splits dest: quantifier_shorter)

declare expand_quantifiers.simps(2) [simp del]

text \<open>
  The five functions of the parser and its two loops, one goal each; the loops carry the value so far.
  \<open>None\<close> is a recursion that does not end.  Both operands are always parsed before they are combined.
\<close>

datatype parse_goal = Primary | NotLevel | AndLevel | AndLoop bool | OrLevel | OrLoop bool

definition syntax_error :: "string \<Rightarrow> 'a result option" where
  "syntax_error m = Some (Inl (SigmaCompatibilityError m))"

partial_function (option) parse_condition ::
  "(string, bool) dict \<Rightarrow> parse_goal \<Rightarrow> string list \<Rightarrow> (bool \<times> string list) result option" where
  "parse_condition values goal ts =
     (case goal of
        Primary \<Rightarrow>
          (case ts of
             [] \<Rightarrow> syntax_error ''incomplete condition''
           | t # r \<Rightarrow>
               if t = ''('' then
                 Option.bind (parse_condition values OrLevel r) (\<lambda>res.
                 case res of
                   Inl e \<Rightarrow> Some (Inl e)
                 | Inr (v, r') \<Rightarrow> (if r' \<noteq> [] \<and> hd r' = '')'' then Some (Inr (v, tl r')) else syntax_error ''unclosed condition''))
               else if py_lower t = ''true'' \<or> py_lower t = ''false'' then Some (Inr (py_lower t = ''true'', r))
               else (case dict_get values t of
                   None \<Rightarrow> syntax_error (''unknown selection: '' @ t)
                 | Some v \<Rightarrow> Some (Inr (v, r))))
      | NotLevel \<Rightarrow>
          (if ts \<noteq> [] \<and> py_lower (hd ts) = ''not''
           then Option.bind (parse_condition values NotLevel (tl ts)) (\<lambda>res.
                case res of Inl e \<Rightarrow> Some (Inl e) | Inr (v, r) \<Rightarrow> Some (Inr (\<not> v, r)))
           else parse_condition values Primary ts)
      | AndLevel \<Rightarrow>
          Option.bind (parse_condition values NotLevel ts) (\<lambda>res.
          case res of Inl e \<Rightarrow> Some (Inl e) | Inr (v, r) \<Rightarrow> parse_condition values (AndLoop v) r)
      | AndLoop v \<Rightarrow>
          (if ts \<noteq> [] \<and> py_lower (hd ts) = ''and''
           then Option.bind (parse_condition values NotLevel (tl ts)) (\<lambda>res.
                case res of Inl e \<Rightarrow> Some (Inl e) | Inr (w, r) \<Rightarrow> parse_condition values (AndLoop (v \<and> w)) r)
           else Some (Inr (v, ts)))
      | OrLevel \<Rightarrow>
          Option.bind (parse_condition values AndLevel ts) (\<lambda>res.
          case res of Inl e \<Rightarrow> Some (Inl e) | Inr (v, r) \<Rightarrow> parse_condition values (OrLoop v) r)
      | OrLoop v \<Rightarrow>
          (if ts \<noteq> [] \<and> py_lower (hd ts) = ''or''
           then Option.bind (parse_condition values AndLevel (tl ts)) (\<lambda>res.
                case res of Inl e \<Rightarrow> Some (Inl e) | Inr (w, r) \<Rightarrow> parse_condition values (OrLoop (v \<or> w)) r)
           else Some (Inr (v, ts))))"

definition condition_value :: "(string, bool) dict \<Rightarrow> string \<Rightarrow> bool result option" where
  "condition_value values condition =
     (case expand_quantifiers (map fst values) False condition of
        Inl e \<Rightarrow> Some (Inl e)
      | Inr text \<Rightarrow>
          Option.bind (parse_condition values OrLevel (condition_tokens False text)) (\<lambda>res.
          case res of
            Inl e \<Rightarrow> Some (Inl e)
          | Inr (v, rest) \<Rightarrow> (if rest = [] then Some (Inr v) else syntax_error ''unsupported condition syntax'')))"

section \<open>Rules\<close>

text \<open>\<open>x.get(key, default)\<close> on a value that should be a mapping.\<close>

definition get_in :: "pyval \<Rightarrow> string \<Rightarrow> pyval \<Rightarrow> pyval result" where
  "get_in v key fallback =
     (case v of PyDict d \<Rightarrow> Inr (case dict_get d key of Some w \<Rightarrow> w | None \<Rightarrow> fallback)
      | _ \<Rightarrow> Inl (AttributeError ([CHR 0x27] @ py_type_name v @ [CHR 0x27] @ '' object has no attribute '' @ [CHR 0x27] @ ''get'' @ [CHR 0x27])))"

definition field_reasons :: "string list \<Rightarrow> string \<Rightarrow> string list" where
  "field_reasons allowed field_spec =
     (let parts = py_split (CHR ''|'') field_spec; field = hd parts;
          unknown = filter (\<lambda>m. m \<notin> set SUPPORTED_MODIFIERS) (remdups (tl parts))
      in (if field \<notin> set allowed \<and> py_lower field \<notin> set (map py_lower allowed) then [''unsupported field: '' @ field] else []) @
         (if unknown \<noteq> [] then [''unsupported modifier on '' @ field @ '': '' @ py_join '', '' (sort unknown)] else []))"

definition selection_reasons :: "string list \<Rightarrow> string \<times> pyval \<Rightarrow> string list" where
  "selection_reasons allowed item =
     (case item of (name, selection) \<Rightarrow>
        if name = ''condition'' then []
        else concat (map (\<lambda>m. case m of PyDict d \<Rightarrow> concat (map (\<lambda>(field_spec, _). field_reasons allowed field_spec) d)
            | _ \<Rightarrow> [''selection '' @ name @ '' must contain field mappings''])
          (case selection of PyList ms \<Rightarrow> ms | _ \<Rightarrow> [selection])))"

fun first_once :: "string list \<Rightarrow> string list" where
  "first_once [] = []"
| "first_once (x # xs) = x # filter (\<lambda>y. y \<noteq> x) (first_once xs)"

definition validate_rule :: "sigma_env \<Rightarrow> pyval \<Rightarrow> bool \<Rightarrow> string list result" where
  "validate_rule env rule upstream =
     (case rule of
        PyDict r \<Rightarrow>
          bindE (get_in rule ''logsource'' (PyDict [])) (\<lambda>logsource.
          bindE (get_in logsource ''category'' (PyStr [])) (\<lambda>raw_category.
          (let text = py_str (se_str env); category = text raw_category;
               get = (\<lambda>key fallback. case dict_get r key of Some v \<Rightarrow> v | None \<Rightarrow> PyStr fallback);
               early = (if category \<notin> set SUPPORTED_CATEGORIES then [''unsupported logsource category: '' @ str_or category ''<missing>''] else []) @
                 (if upstream \<and> py_lower (text (get ''status'' [])) \<notin> set SUPPORTED_STATUS
                  then [''unsupported status: '' @ text (get ''status'' ''<missing>'')] else []) @
                 (if upstream \<and> py_lower (text (get ''level'' [])) \<notin> set SUPPORTED_LEVELS
                  then [''unsupported level: '' @ text (get ''level'' ''<missing>'')] else [])
           in if early \<noteq> [] then Inr (first_once early)
              else (case se_pysigma env rule of
                  Some failure \<Rightarrow> Inr [''pySigma validation failed: '' @ failure]
                | None \<Rightarrow>
                    (let found = (case dict_get r ''detection'' of Some v \<Rightarrow> v | None \<Rightarrow> PyNone);
                         detection = (if py_truth found then found else PyDict [])
                     in bindE (get_in detection ''condition'' PyNone) (\<lambda>condition.
                        (let allowed = (if category = ''network_identity'' then ENTITY_FIELDS else FLOW_FIELDS)
                         in Inr (first_once ((if isinstance_str condition = None then [''detection.condition must be a string''] else []) @
                              concat (map (selection_reasons allowed) (case detection of PyDict d \<Rightarrow> d | _ \<Rightarrow> []))))))))))) 
      | _ \<Rightarrow> Inr [''document is not a mapping''])"

text \<open>A predicate is made of a rule without complaints: its selections and its condition.\<close>

record sigma_predicate =
  sg_selections :: "(string, pyval) dict"
  sg_condition :: string

definition sigma_predicate :: "sigma_env \<Rightarrow> pyval \<Rightarrow> sigma_predicate result" where
  "sigma_predicate env rule =
     bindE (validate_rule env rule False) (\<lambda>errors.
     if errors \<noteq> [] then Inl (SigmaCompatibilityError (py_join ''; '' errors))
     else
       (case rule of
          PyDict r \<Rightarrow>
            (case dict_get r ''detection'' of
               Some (PyDict d) \<Rightarrow>
                 (case dict_get d ''condition'' of
                    Some (PyStr condition) \<Rightarrow>
                      Inr \<lparr>sg_selections = filter (\<lambda>(name, _). name \<noteq> ''condition'') d, sg_condition = condition\<rparr>
                  | _ \<Rightarrow> Inl KeyError)
             | _ \<Rightarrow> Inl KeyError)
        | _ \<Rightarrow> Inl KeyError))"

definition sigma_matches :: "sigma_env \<Rightarrow> sigma_predicate \<Rightarrow> record_dict \<Rightarrow> bool result option" where
  "sigma_matches env p source_record =
     (let r = flatten_record source_record
      in condition_value (map (\<lambda>(name, selection). (name, match_selection env r selection)) (sg_selections p)) (sg_condition p))"

section \<open>Loading\<close>

record rule_store =
  rs_rules :: "pyval list"
  rs_rejected :: "(string \<times> string) list"
  rs_ids :: "string list"

fun exception_text :: "py_error \<Rightarrow> string" where
  "exception_text (AttributeError m) = m"
| "exception_text (ValueError m) = m"
| "exception_text (SigmaCompatibilityError m) = m"
| "exception_text _ = []"

definition rule_id :: "sigma_env \<Rightarrow> pyval \<Rightarrow> string result" where
  "rule_id env rule =
     bindE (get_in (if py_truth rule then rule else PyDict []) ''id'' (PyStr [])) (\<lambda>v. Inr (py_str (se_str env) v))"

text \<open>One file: its path, and what reading it as YAML gave, a document or the text of the exception.\<close>

definition load_rule :: "sigma_env \<Rightarrow> rule_store \<Rightarrow> string \<times> (string + pyval) \<Rightarrow> rule_store" where
  "load_rule env st file =
     (case file of (path, document) \<Rightarrow>
        let reject = (\<lambda>reason. st\<lparr>rs_rejected := rs_rejected st @ [(path, reason)]\<rparr>) in
        case document of
          Inl failure \<Rightarrow> reject failure
        | Inr rule \<Rightarrow>
            (case bindE (validate_rule env rule False) (\<lambda>errors. bindE (rule_id env rule) (\<lambda>i. Inr (errors, i))) of
               Inl e \<Rightarrow> reject (exception_text e)
             | Inr (errors, i) \<Rightarrow>
                 (let errors' = errors @ (if i \<noteq> [] \<and> i \<in> set (rs_ids st) then [''duplicate rule id: '' @ i] else [])
                  in if errors' \<noteq> [] then reject (py_join ''; '' errors')
                     else st\<lparr>rs_ids := (if i \<noteq> [] then rs_ids st @ [i] else rs_ids st), rs_rules := rs_rules st @ [rule]\<rparr>)))"

definition load_rules :: "sigma_env \<Rightarrow> (string \<times> (string + pyval)) list \<Rightarrow> rule_store" where
  "load_rules env files = foldl (load_rule env) \<lparr>rs_rules = [], rs_rejected = [], rs_ids = []\<rparr> files"

end
