(* ===== verification/SigmaLanguage.thy ===== *)
theory SigmaLanguage imports SigmaRule begin

text \<open>
  What the condition language of the rules means (src/core/forensics/sigma_engine.py): the parser reads back every
  condition written in its own syntax and always ends, a quantifier is a disjunction or a conjunction of the
  selections it names, every condition has a value or a complaint, and the rules that are loaded have no complaints
  and different identifiers.
\<close>

declare parse_condition.simps [code]

section \<open>The parser on its own syntax\<close>

lemma parse_primary [simp]:
  "parse_condition values Primary [] = syntax_error ''incomplete condition''"
  "parse_condition values Primary (t # r) =
     (if t = ''('' then
        Option.bind (parse_condition values OrLevel r) (\<lambda>res. case res of Inl e \<Rightarrow> Some (Inl e)
          | Inr (v, r') \<Rightarrow> (if r' \<noteq> [] \<and> hd r' = '')'' then Some (Inr (v, tl r')) else syntax_error ''unclosed condition''))
      else if py_lower t = ''true'' \<or> py_lower t = ''false'' then Some (Inr (py_lower t = ''true'', r))
      else (case dict_get values t of None \<Rightarrow> syntax_error (''unknown selection: '' @ t) | Some v \<Rightarrow> Some (Inr (v, r))))"
  by (subst parse_condition.simps, simp)+

lemma parse_levels:
  "parse_condition values NotLevel ts =
     (if ts \<noteq> [] \<and> py_lower (hd ts) = ''not''
      then Option.bind (parse_condition values NotLevel (tl ts)) (\<lambda>res. case res of Inl e \<Rightarrow> Some (Inl e) | Inr (v, r) \<Rightarrow> Some (Inr (\<not> v, r)))
      else parse_condition values Primary ts)"
  "parse_condition values AndLevel ts =
     Option.bind (parse_condition values NotLevel ts) (\<lambda>res. case res of Inl e \<Rightarrow> Some (Inl e) | Inr (v, r) \<Rightarrow> parse_condition values (AndLoop v) r)"
  "parse_condition values OrLevel ts =
     Option.bind (parse_condition values AndLevel ts) (\<lambda>res. case res of Inl e \<Rightarrow> Some (Inl e) | Inr (v, r) \<Rightarrow> parse_condition values (OrLoop v) r)"
  by (subst parse_condition.simps, simp)+

lemma parse_loops:
  "parse_condition values (AndLoop v) ts =
     (if ts \<noteq> [] \<and> py_lower (hd ts) = ''and''
      then Option.bind (parse_condition values NotLevel (tl ts)) (\<lambda>res. case res of Inl e \<Rightarrow> Some (Inl e)
        | Inr (w, r) \<Rightarrow> parse_condition values (AndLoop (v \<and> w)) r)
      else Some (Inr (v, ts)))"
  "parse_condition values (OrLoop v) ts =
     (if ts \<noteq> [] \<and> py_lower (hd ts) = ''or''
      then Option.bind (parse_condition values AndLevel (tl ts)) (\<lambda>res. case res of Inl e \<Rightarrow> Some (Inl e)
        | Inr (w, r) \<Rightarrow> parse_condition values (OrLoop (v \<or> w)) r)
      else Some (Inr (v, ts)))"
  by (subst parse_condition.simps, simp)+

text \<open>Conditions as trees, written with the fewest parentheses for the three levels.\<close>

datatype condition = Selection string | Literal bool | Negation condition | Conjunction condition condition | Disjunction condition condition

definition parenthesise :: "bool \<Rightarrow> string list \<Rightarrow> string list" where
  "parenthesise b ts = (if b then [''(''] @ ts @ ['')''] else ts)"

fun condition_words :: "nat \<Rightarrow> condition \<Rightarrow> string list" where
  "condition_words l (Selection n) = [n]"
| "condition_words l (Literal b) = [if b then ''true'' else ''false'']"
| "condition_words l (Negation c) = ''not'' # condition_words 2 c"
| "condition_words l (Conjunction c d) = parenthesise (l > 1) (condition_words 1 c @ ''and'' # condition_words 2 d)"
| "condition_words l (Disjunction c d) = parenthesise (l > 0) (condition_words 0 c @ ''or'' # condition_words 1 d)"

fun condition_holds :: "(string \<Rightarrow> bool) \<Rightarrow> condition \<Rightarrow> bool" where
  "condition_holds f (Selection n) = f n"
| "condition_holds f (Literal b) = b"
| "condition_holds f (Negation c) = (\<not> condition_holds f c)"
| "condition_holds f (Conjunction c d) = (condition_holds f c \<and> condition_holds f d)"
| "condition_holds f (Disjunction c d) = (condition_holds f c \<or> condition_holds f d)"

definition plain_name :: "string \<Rightarrow> bool" where
  "plain_name n \<longleftrightarrow> n \<noteq> ''('' \<and> py_lower n \<notin> set KEYWORDS"

fun selections_of :: "condition \<Rightarrow> string list" where
  "selections_of (Selection n) = [n]"
| "selections_of (Literal b) = []"
| "selections_of (Negation c) = selections_of c"
| "selections_of (Conjunction c d) = selections_of c @ selections_of d"
| "selections_of (Disjunction c d) = selections_of c @ selections_of d"

definition names_known :: "(string, bool) dict \<Rightarrow> condition \<Rightarrow> bool" where
  "names_known values c \<longleftrightarrow> list_all (\<lambda>n. plain_name n \<and> dict_get values n \<noteq> None) (selections_of c)"

abbreviation truth :: "(string, bool) dict \<Rightarrow> string \<Rightarrow> bool" where
  "truth values n \<equiv> the (dict_get values n)"

definition not_and :: "string list \<Rightarrow> bool" where
  "not_and r \<longleftrightarrow> r = [] \<or> py_lower (hd r) \<noteq> ''and''"

lemma lower_words [simp]: "py_lower ''and'' = ''and''" "py_lower ''or'' = ''or''" "py_lower ''not'' = ''not''" "py_lower ''true'' = ''true''"
  "py_lower ''false'' = ''false''" "py_lower '')'' = '')''" "py_lower ''('' = ''(''"
  by code_simp+

lemma and_from_not:
  "(\<And>r. parse_condition values NotLevel (w @ r) = Some (Inr (v, r))) \<Longrightarrow> parse_condition values AndLevel (w @ r) = parse_condition values (AndLoop v) r"
  by (simp add: parse_levels(2))

lemma or_from_and:
  "(\<And>r. parse_condition values AndLevel (w @ r) = parse_condition values (AndLoop v) r) \<Longrightarrow> not_and r \<Longrightarrow>
     parse_condition values OrLevel (w @ r) = parse_condition values (OrLoop v) r"
  by (auto simp: parse_levels(3) parse_loops(1) not_and_def)

lemma not_from_or:
  assumes "\<And>r. not_and r \<Longrightarrow> parse_condition values OrLevel (w @ r) = parse_condition values (OrLoop v) r"
  shows "parse_condition values NotLevel (parenthesise True w @ r) = Some (Inr (v, r))"
proof -
  have "parse_condition values OrLevel (w @ '')'' # r) = Some (Inr (v, '')'' # r))"
    using assms [of "'')'' # r"] by (simp add: not_and_def parse_loops(2))
  then show ?thesis by (simp add: parenthesise_def parse_levels(1))
qed

definition parses_as :: "(string, bool) dict \<Rightarrow> condition \<Rightarrow> bool \<Rightarrow> bool" where
  "parses_as values c v \<longleftrightarrow>
     (\<forall>r. not_and r \<longrightarrow> parse_condition values OrLevel (condition_words 0 c @ r) = parse_condition values (OrLoop v) r) \<and>
     (\<forall>r. parse_condition values AndLevel (condition_words 1 c @ r) = parse_condition values (AndLoop v) r) \<and>
     (\<forall>r. parse_condition values NotLevel (condition_words 2 c @ r) = Some (Inr (v, r)))"

lemma parses_not:
  assumes "\<And>r. parse_condition values NotLevel (w @ r) = Some (Inr (v, r))"
    "condition_words 0 c = w" "condition_words 1 c = w" "condition_words 2 c = w"
  shows "parses_as values c v"
  using assms and_from_not [OF assms(1)] or_from_and [OF and_from_not [OF assms(1)]] by (simp add: parses_as_def)

lemma parses_and:
  assumes "\<And>r. parse_condition values AndLevel (w @ r) = parse_condition values (AndLoop v) r"
    "condition_words 0 c = w" "condition_words 1 c = w" "condition_words 2 c = parenthesise True w"
  shows "parses_as values c v"
  using assms or_from_and [OF assms(1)] not_from_or [OF or_from_and [OF assms(1)]] by (simp add: parses_as_def)

lemma parses_or:
  assumes "\<And>r. not_and r \<Longrightarrow> parse_condition values OrLevel (w @ r) = parse_condition values (OrLoop v) r"
    "condition_words 0 c = w" "condition_words 1 c = parenthesise True w" "condition_words 2 c = parenthesise True w"
  shows "parses_as values c v"
  using assms not_from_or [OF assms(1)] and_from_not [OF not_from_or [OF assms(1)]] by (simp add: parses_as_def)

theorem parse_words: "names_known values c \<Longrightarrow> parses_as values c (condition_holds (truth values) c)"
proof (induction c)
  case (Selection n)
  then have n: "plain_name n" "\<exists>v. dict_get values n = Some v" by (auto simp: names_known_def)
  show ?case by (rule parses_not [where w = "[n]"]) (use n in \<open>auto simp: parse_levels(1) plain_name_def KEYWORDS_def\<close>)
next
  case (Literal b)
  show ?case by (rule parses_not [where w = "[if b then ''true'' else ''false'']"]) (simp_all add: parse_levels(1))
next
  case (Negation c)
  then have "parses_as values c (condition_holds (truth values) c)" by (simp add: names_known_def)
  then show ?case
    by (intro parses_not [where w = "''not'' # condition_words 2 c"]) (simp_all add: parses_as_def parse_levels(1) [of _ "''not'' # _"])
next
  case (Conjunction c d)
  then have p: "parses_as values c (condition_holds (truth values) c)" "parses_as values d (condition_holds (truth values) d)"
    by (simp_all add: names_known_def)
  show ?case
  proof (rule parses_and [where w = "condition_words 1 c @ ''and'' # condition_words 2 d"])
    fix r
    have "parse_condition values AndLevel (condition_words 1 c @ ''and'' # condition_words 2 d @ r) =
        parse_condition values (AndLoop (condition_holds (truth values) c)) (''and'' # condition_words 2 d @ r)"
      using p(1) unfolding parses_as_def by blast
    also have "\<dots> = parse_condition values (AndLoop (condition_holds (truth values) c \<and> condition_holds (truth values) d)) r"
      using p(2) by (simp add: parses_as_def parse_loops(1) [of _ _ "''and'' # _"])
    finally show "parse_condition values AndLevel ((condition_words 1 c @ ''and'' # condition_words 2 d) @ r) =
        parse_condition values (AndLoop (condition_holds (truth values) (Conjunction c d))) r" by simp
  qed (simp_all add: parenthesise_def)
next
  case (Disjunction c d)
  then have p: "parses_as values c (condition_holds (truth values) c)" "parses_as values d (condition_holds (truth values) d)"
    by (simp_all add: names_known_def)
  show ?case
  proof (rule parses_or [where w = "condition_words 0 c @ ''or'' # condition_words 1 d"])
    fix r assume r: "not_and r"
    have "parse_condition values OrLevel (condition_words 0 c @ ''or'' # condition_words 1 d @ r) =
        parse_condition values (OrLoop (condition_holds (truth values) c)) (''or'' # condition_words 1 d @ r)"
      using p(1) by (simp add: parses_as_def not_and_def)
    also have "\<dots> = parse_condition values (OrLoop (condition_holds (truth values) c \<or> condition_holds (truth values) d)) r"
    proof -
      have "parse_condition values AndLevel (condition_words 1 d @ r) = parse_condition values (AndLoop (condition_holds (truth values) d)) r"
        using p(2) unfolding parses_as_def by blast
      also have "\<dots> = Some (Inr (condition_holds (truth values) d, r))"
        using r by (auto simp: parse_loops(1) not_and_def)
      finally show ?thesis by (simp add: parse_loops(2) [of _ _ "''or'' # _"])
    qed
    finally show "parse_condition values OrLevel ((condition_words 0 c @ ''or'' # condition_words 1 d) @ r) =
        parse_condition values (OrLoop (condition_holds (truth values) (Disjunction c d))) r" by simp
  qed (simp_all add: parenthesise_def)
qed

section \<open>The parser always ends\<close>

fun goal_rank :: "parse_goal \<Rightarrow> nat" where
  "goal_rank NotLevel = 1"
| "goal_rank AndLevel = 2"
| "goal_rank OrLevel = 3"
| "goal_rank _ = 0"

fun goal_consumes :: "parse_goal \<Rightarrow> bool" where
  "goal_consumes (AndLoop v) = False"
| "goal_consumes (OrLoop v) = False"
| "goal_consumes _ = True"

definition ends_well :: "parse_goal \<Rightarrow> string list \<Rightarrow> (bool \<times> string list) result option \<Rightarrow> bool" where
  "ends_well goal ts res \<longleftrightarrow> (case res of
     None \<Rightarrow> False
   | Some (Inl e) \<Rightarrow> (\<exists>m. e = SigmaCompatibilityError m)
   | Some (Inr (v, r)) \<Rightarrow> (if goal_consumes goal then length r < length ts else length r \<le> length ts))"

lemma option_sum_again:
  "Option.bind res (\<lambda>res. case res of Inl e \<Rightarrow> Some (Inl e) | Inr (v, r) \<Rightarrow> Some (Inr (v, r))) = res"
  by (cases res) (auto split: sum.split)

lemma ends_well_next:
  assumes "ends_well g u res"
    "\<And>v r. (if goal_consumes g then length r < length u else length r \<le> length u) \<Longrightarrow> ends_well goal ts (k v r)"
  shows "ends_well goal ts (Option.bind res (\<lambda>res. case res of Inl e \<Rightarrow> Some (Inl e) | Inr (v, r) \<Rightarrow> k v r))"
proof (cases res)
  case (Some x)
  show ?thesis
  proof (cases x)
    case (Inr p)
    have "ends_well goal ts (k (fst p) (snd p))"
      by (rule assms(2)) (use assms(1) in \<open>simp add: Some Inr ends_well_def case_prod_beta\<close>)
    then show ?thesis by (simp add: Some Inr case_prod_beta)
  qed (use assms(1) in \<open>simp add: Some ends_well_def\<close>)
qed (use assms(1) in \<open>simp add: ends_well_def\<close>)

lemma ends_well_simps [simp]:
  "ends_well goal ts (syntax_error m)"
  "ends_well goal ts (Some (Inr (v, r))) \<longleftrightarrow> (if goal_consumes goal then length r < length ts else length r \<le> length ts)"
  by (auto simp: ends_well_def syntax_error_def)

lemma ends_well_mono:
  assumes "ends_well g u res"
    "\<And>r :: string list. (if goal_consumes g then length r < length u else length r \<le> length u) \<Longrightarrow>
     (if goal_consumes goal then length r < length ts else length r \<le> length ts)"
  shows "ends_well goal ts res"
proof -
  have "ends_well goal ts (Option.bind res (\<lambda>res. case res of Inl e \<Rightarrow> Some (Inl e) | Inr (v, r) \<Rightarrow> Some (Inr (v, r))))"
    by (rule ends_well_next [OF assms(1)]) (unfold ends_well_simps, rule assms(2))
  then show ?thesis by (simp only: option_sum_again)
qed

lemma ends_Primary:
  assumes ih: "\<And>g u. 4 * length u + goal_rank g < 4 * length ts + goal_rank Primary \<Longrightarrow> ends_well g u (parse_condition values g u)"
  shows "ends_well Primary ts (parse_condition values Primary ts)"
proof (cases ts)
  case (Cons t r)
  have "ends_well Primary ts (Option.bind (parse_condition values OrLevel r) (\<lambda>res. case res of Inl e \<Rightarrow> Some (Inl e)
      | Inr (v, r') \<Rightarrow> (if r' \<noteq> [] \<and> hd r' = '')'' then Some (Inr (v, tl r')) else syntax_error ''unclosed condition'')))"
    by (rule ends_well_next [OF ih]) (auto simp: Cons)
  then show ?thesis by (auto simp: Cons split: option.splits)
qed simp

lemma ends_NotLevel:
  assumes ih: "\<And>g u. 4 * length u + goal_rank g < 4 * length ts + goal_rank NotLevel \<Longrightarrow> ends_well g u (parse_condition values g u)"
  shows "ends_well NotLevel ts (parse_condition values NotLevel ts)"
proof (cases "ts \<noteq> [] \<and> py_lower (hd ts) = ''not''")
  case True
  show ?thesis unfolding parse_levels(1) [of _ ts] if_P [OF True]
  proof (rule ends_well_next [OF ih])
    fix v and r :: "string list" assume "if goal_consumes NotLevel then length r < length (tl ts) else length r \<le> length (tl ts)"
    then show "ends_well NotLevel ts (Some (Inr (\<not> v, r)))" by simp
  qed (use True in \<open>cases ts; simp\<close>)
next
  case False
  show ?thesis unfolding parse_levels(1) [of _ ts] if_not_P [OF False]
    by (rule ends_well_mono [OF ih]) (simp_all)
qed

lemma ends_AndLevel:
  assumes ih: "\<And>g u. 4 * length u + goal_rank g < 4 * length ts + goal_rank AndLevel \<Longrightarrow> ends_well g u (parse_condition values g u)"
  shows "ends_well AndLevel ts (parse_condition values AndLevel ts)"
  unfolding parse_levels(2)
proof (rule ends_well_next [OF ih])
  fix v and r :: "string list" assume "if goal_consumes NotLevel then length r < length ts else length r \<le> length ts"
  then show "ends_well AndLevel ts (parse_condition values (AndLoop v) r)"
    by (intro ends_well_mono [OF ih]) (simp_all)
qed simp

lemma ends_OrLevel:
  assumes ih: "\<And>g u. 4 * length u + goal_rank g < 4 * length ts + goal_rank OrLevel \<Longrightarrow> ends_well g u (parse_condition values g u)"
  shows "ends_well OrLevel ts (parse_condition values OrLevel ts)"
  unfolding parse_levels(3)
proof (rule ends_well_next [OF ih])
  fix v and r :: "string list" assume "if goal_consumes AndLevel then length r < length ts else length r \<le> length ts"
  then show "ends_well OrLevel ts (parse_condition values (OrLoop v) r)"
    by (intro ends_well_mono [OF ih]) (simp_all)
qed simp

lemma ends_AndLoop:
  assumes ih: "\<And>g u. 4 * length u + goal_rank g < 4 * length ts + goal_rank (AndLoop w) \<Longrightarrow> ends_well g u (parse_condition values g u)"
  shows "ends_well (AndLoop w) ts (parse_condition values (AndLoop w) ts)"
proof (cases "ts \<noteq> [] \<and> py_lower (hd ts) = ''and''")
  case True
  show ?thesis unfolding parse_loops(1) [of _ w ts] if_P [OF True]
  proof (rule ends_well_next [OF ih])
    fix v and r :: "string list" assume "if goal_consumes NotLevel then length r < length (tl ts) else length r \<le> length (tl ts)"
    then show "ends_well (AndLoop w) ts (parse_condition values (AndLoop (w \<and> v)) r)"
      by (intro ends_well_mono [OF ih]) (use True in \<open>cases ts; simp\<close>)+
  qed (use True in \<open>cases ts; simp\<close>)
next
  case False
  show ?thesis unfolding parse_loops(1) [of _ w ts] if_not_P [OF False] by simp
qed

lemma ends_OrLoop:
  assumes ih: "\<And>g u. 4 * length u + goal_rank g < 4 * length ts + goal_rank (OrLoop w) \<Longrightarrow> ends_well g u (parse_condition values g u)"
  shows "ends_well (OrLoop w) ts (parse_condition values (OrLoop w) ts)"
proof (cases "ts \<noteq> [] \<and> py_lower (hd ts) = ''or''")
  case True
  show ?thesis unfolding parse_loops(2) [of _ w ts] if_P [OF True]
  proof (rule ends_well_next [OF ih])
    fix v and r :: "string list" assume "if goal_consumes AndLevel then length r < length (tl ts) else length r \<le> length (tl ts)"
    then show "ends_well (OrLoop w) ts (parse_condition values (OrLoop (w \<or> v)) r)"
      by (intro ends_well_mono [OF ih]) (use True in \<open>cases ts; simp\<close>)+
  qed (use True in \<open>cases ts; simp\<close>)
next
  case False
  show ?thesis unfolding parse_loops(2) [of _ w ts] if_not_P [OF False] by simp
qed

lemma parse_ends_from:
  assumes "\<And>g u. 4 * length u + goal_rank g < 4 * length ts + goal_rank goal \<Longrightarrow> ends_well g u (parse_condition values g u)"
  shows "ends_well goal ts (parse_condition values goal ts)"
proof (cases goal)
  case Primary
  show ?thesis unfolding Primary by (rule ends_Primary) (rule assms [unfolded Primary])
next
  case NotLevel
  show ?thesis unfolding NotLevel by (rule ends_NotLevel) (rule assms [unfolded NotLevel])
next
  case AndLevel
  show ?thesis unfolding AndLevel by (rule ends_AndLevel) (rule assms [unfolded AndLevel])
next
  case OrLevel
  show ?thesis unfolding OrLevel by (rule ends_OrLevel) (rule assms [unfolded OrLevel])
next
  case (AndLoop w)
  show ?thesis unfolding AndLoop by (rule ends_AndLoop) (rule assms [unfolded AndLoop])
next
  case (OrLoop w)
  show ?thesis unfolding OrLoop by (rule ends_OrLoop) (rule assms [unfolded OrLoop])
qed

theorem parse_ends: "ends_well goal ts (parse_condition values goal ts)"
proof (induction "4 * length ts + goal_rank goal" arbitrary: goal ts rule: less_induct)
  case less
  show ?case by (rule parse_ends_from) (rule less, assumption)
qed

section \<open>From the text of a condition to its value\<close>

definition simple_char :: "char \<Rightarrow> bool" where
  "simple_char c \<longleftrightarrow> is_word_char c \<and> is_name_char c"

definition simple_name :: "string \<Rightarrow> bool" where
  "simple_name n \<longleftrightarrow> n \<noteq> [] \<and> list_all simple_char n \<and> py_lower n \<notin> set KEYWORDS \<and> py_lower n \<noteq> ''1'' \<and> py_lower n \<noteq> ''all''"

text \<open>What can follow a word: the end, a space or a closing parenthesis.\<close>

definition word_stop :: "string \<Rightarrow> bool" where
  "word_stop t \<longleftrightarrow> t = [] \<or> hd t = CHR '' '' \<or> hd t = CHR '')''"

lemma stop_chars [simp]:
  "\<not> simple_char (CHR '' '')" "\<not> simple_char (CHR '')'')" "\<not> simple_char (CHR ''('')" "\<not> is_word_char (CHR '' '')" "\<not> is_word_char (CHR '')'')"
  "\<not> is_word_char (CHR ''('')" "\<not> is_name_char (CHR '' '')" "\<not> is_name_char (CHR '')'')" "\<not> is_name_char (CHR ''('')"
  "lower_char (CHR '' '') = CHR '' ''" "lower_char (CHR '')'') = CHR '')''" "lower_char (CHR ''('') = CHR ''(''"
  by code_simp+

lemma simple_charD: "simple_char c \<Longrightarrow> is_word_char c \<and> is_name_char c \<and> \<not> is_space_char c \<and> c \<noteq> CHR ''('' \<and> c \<noteq> CHR '')'' \<and> c \<noteq> CHR '' ''"
proof -
  assume s: "simple_char c"
  then have "c \<noteq> CHR ''('' \<and> c \<noteq> CHR '')'' \<and> c \<noteq> CHR '' ''" by (metis stop_chars(1-3))
  moreover have "\<not> is_space_char c"
    using s unfolding simple_char_def is_name_char_def is_space_char_def Let_def by linarith
  ultimately show ?thesis using s by (simp add: simple_char_def)
qed

lemma list_all_take_drop:
  "list_all P w \<Longrightarrow> n < length w \<Longrightarrow> \<exists>c r. drop n w = c # r \<and> P c"
  by (metis Cons_nth_drop_Suc list_all_length)

text \<open>A run of simple letters that a word of simple letters must end with.\<close>

lemma lower_prefix_whole:
  assumes w: "list_all simple_char w" and t: "word_stop t" and k: "list_all simple_char k" "py_lower (take (length k) (w @ t)) = k"
    and stop: "length k < length w \<Longrightarrow> False"
  shows "py_lower w = k \<and> length k = length w"
proof (cases "t = [] \<or> length k \<le> length w")
  case True
  have "length k \<le> length (w @ t)" using arg_cong [OF k(2), of length] by (simp add: py_lower_def)
  with True stop have "length k = length w" by (cases "length k < length w") auto
  then show ?thesis using k(2) by simp
next
  case False
  then obtain c r where t': "t = c # r" by (cases t) auto
  from False have "lower_char c \<in> set k"
  proof -
    have "take (length k) (w @ t) = w @ c # take (length k - Suc (length w)) r" using False by (simp add: t' take_Cons')
    then have "set k = lower_char ` set (w @ c # take (length k - Suc (length w)) r)"
      using arg_cong [OF k(2), of set] unfolding py_lower_def set_map by simp
    then show ?thesis by (simp only: set_append list.set) blast
  qed
  then have "simple_char (lower_char c)" using k(1) by (simp add: list_all_iff)
  then show ?thesis using t by (auto simp: word_stop_def t')
qed

lemma keywords_simple: "k \<in> set KEYWORDS \<Longrightarrow> list_all simple_char k"
proof -
  have "list_all (list_all simple_char) KEYWORDS" by code_simp
  then show "k \<in> set KEYWORDS \<Longrightarrow> list_all simple_char k" by (simp add: list_all_iff)
qed

lemma keyword_word:
  assumes w: "list_all simple_char w" and t: "word_stop t" and k: "k \<in> set KEYWORDS"
  shows "(py_lower (take (length k) (w @ t)) = k \<and> (case drop (length k) (w @ t) of [] \<Rightarrow> True | c # _ \<Rightarrow> \<not> is_word_char c)) \<longleftrightarrow> py_lower w = k"
proof
  assume l: "py_lower (take (length k) (w @ t)) = k \<and> (case drop (length k) (w @ t) of [] \<Rightarrow> True | c # _ \<Rightarrow> \<not> is_word_char c)"
  have "length k < length w \<Longrightarrow> False"
    using list_all_take_drop [OF w, of "length k"] l by (auto dest: simple_charD)
  from lower_prefix_whole [OF w t keywords_simple [OF k] conjunct1 [OF l] this] show "py_lower w = k" by blast
next
  assume l: "py_lower w = k"
  then have "length k = length w" by (auto simp: py_lower_def)
  then show "py_lower (take (length k) (w @ t)) = k \<and> (case drop (length k) (w @ t) of [] \<Rightarrow> True | c # _ \<Rightarrow> \<not> is_word_char c)"
    using t by (cases t) (auto simp: word_stop_def l)
qed

lemma keyword_at_word:
  assumes "list_all simple_char w" "word_stop t"
  shows "keyword_at KEYWORDS (w @ t) = (if py_lower w \<in> set KEYWORDS then Some w else None)"
proof -
  have "find (\<lambda>k. py_lower (take (length k) (w @ t)) = k \<and> (case drop (length k) (w @ t) of [] \<Rightarrow> True | c # _ \<Rightarrow> \<not> is_word_char c)) KEYWORDS =
      find (\<lambda>k. py_lower w = k) KEYWORDS"
    by (rule find_cong [OF refl]) (rule keyword_word [OF assms])
  also have "\<dots> = (if py_lower w \<in> set KEYWORDS then Some (py_lower w) else None)" by (simp add: KEYWORDS_def)
  finally show ?thesis by (simp add: keyword_at_def py_lower_def)
qed

lemma tokens_word:
  assumes w: "list_all simple_char w" "w \<noteq> []" and t: "word_stop t"
  shows "condition_tokens False (w @ t) = w # condition_tokens True t"
proof -
  obtain c cs where c: "w = c # cs" using w(2) by (cases w) auto
  have names: "takeWhile is_name_char (w @ t) = w" "dropWhile is_name_char (w @ t) = t"
  proof -
    have all: "\<And>x. x \<in> set w \<Longrightarrow> is_name_char x" using w(1) by (auto simp: list_all_iff dest: simple_charD)
    have stop: "takeWhile is_name_char t = []" "dropWhile is_name_char t = t" using t by (cases t; auto simp: word_stop_def)+
    show "takeWhile is_name_char (w @ t) = w" using takeWhile_append2 [of w is_name_char t, OF all] stop by simp
    show "dropWhile is_name_char (w @ t) = t" using dropWhile_append2 [of w is_name_char t, OF all] stop by simp
  qed
  have last: "is_word_char (last w)"
    using simple_charD [of "last w"] w by (simp add: list_all_iff)
  have hd: "is_name_char c" "c \<noteq> CHR ''(''" "c \<noteq> CHR '')''" using simple_charD [of c] w(1) by (simp_all add: c)
  show ?thesis
  proof (cases "py_lower w \<in> set KEYWORDS")
    case True
    then have k: "keyword_at KEYWORDS (c # (cs @ t)) = Some w" using keyword_at_word [OF w(1) t] by (simp add: c)
    show ?thesis unfolding c append_Cons by (subst condition_tokens.simps(2)) (simp add: hd k, simp add: c)
  next
    case False
    then have k: "keyword_at KEYWORDS (c # (cs @ t)) = None" using keyword_at_word [OF w(1) t] by (simp add: c)
    show ?thesis unfolding c append_Cons
      by (subst condition_tokens.simps(2)) (use names last in \<open>simp add: hd k c Let_def\<close>)
  qed
qed

lemma tokens_stops [simp]:
  "condition_tokens f (CHR '' '' # r) = condition_tokens False r"
  "condition_tokens f (CHR ''('' # r) = ''('' # condition_tokens False r"
  "condition_tokens f (CHR '')'' # r) = '')'' # condition_tokens False r"
  "condition_tokens f [] = []"
proof -
  have "keyword_at KEYWORDS (CHR '' '' # r) = None" by (simp add: keyword_at_def KEYWORDS_def py_lower_def)
  then show "condition_tokens f (CHR '' '' # r) = condition_tokens False r" by (simp add: condition_tokens.simps(2))
qed (simp_all add: condition_tokens.simps(2))

definition is_word_token :: "string \<Rightarrow> bool" where
  "is_word_token w \<longleftrightarrow> w = ''('' \<or> w = '')'' \<or> w \<noteq> [] \<and> list_all simple_char w \<and> py_lower w \<noteq> ''1'' \<and> py_lower w \<noteq> ''all''"

lemma join_more: "py_join sep (x # xs) @ t = x @ (if xs = [] then t else sep @ py_join sep xs @ t)"
  by (cases xs) simp_all

theorem tokens_of_words:
  assumes "list_all is_word_token ws" "t = [] \<or> t = '')''"
  shows "condition_tokens False (py_join '' '' ws @ t) = ws @ condition_tokens False t"
  using assms(1)
proof (induction ws)
  case (Cons w ws)
  let ?t = "if ws = [] then t else '' '' @ py_join '' '' ws @ t"
  have stop: "word_stop ?t" using assms(2) by (auto simp: word_stop_def)
  have tail: "condition_tokens f ?t = ws @ condition_tokens False t" for f
    using Cons assms(2) by (cases "ws = []") auto
  show ?case
    unfolding join_more using Cons.prems tail tokens_word [of w, OF _ _ stop] by (auto simp: is_word_token_def simp del: if_split_asm)
qed simp

lemma no_quantifier_word:
  assumes w: "list_all simple_char w" "w \<noteq> []" "py_lower w \<noteq> ''1''" "py_lower w \<noteq> ''all''" and t: "word_stop t"
  shows "quantifier_at (w @ t) = None"
proof (rule ccontr)
  let ?one = "take 1 (w @ t) = ''1''"
  let ?rest = "if ?one then drop 1 (w @ t) else drop 3 (w @ t)"
  assume "quantifier_at (w @ t) \<noteq> None"
  then have q: "?one \<or> py_lower (take 3 (w @ t)) = ''all''" "dropWhile is_space_char ?rest \<noteq> ?rest"
    by (auto simp: quantifier_at_def Let_def split: if_splits)
  have short: "\<not> n < length w" if "drop n (w @ t) = ?rest" for n
  proof
    assume "n < length w"
    then obtain c r where "drop n w = c # r" "simple_char c" using list_all_take_drop [OF w(1)] by blast
    then have "?rest = c # (r @ t)" "\<not> is_space_char c" using that \<open>n < length w\<close> simple_charD [of c] by auto
    with q(2) show False by simp
  qed
  show False
  proof (cases ?one)
    case True
    then have "py_lower w = ''1''"
      using short [of 1] w(2) by (cases w) (auto simp: py_lower_def, code_simp)
    with w(3) show False by simp
  next
    case False
    then have "py_lower w = ''all''"
    proof -
      have all: "list_all simple_char ''all''" "length ''all'' = (3 :: nat)" by code_simp+
      have "py_lower (take 3 (w @ t)) = ''all''" using q(1) False by blast
      moreover have "\<not> 3 < length w" using short [of 3] False by simp
      ultimately show ?thesis using lower_prefix_whole [OF w(1) t all(1)] unfolding all(2) by blast
    qed
    with w(4) show False by simp
  qed
qed

lemma no_quantifier_stop [simp]:
  "quantifier_at (CHR '' '' # r) = None" "quantifier_at (CHR ''('' # r) = None" "quantifier_at (CHR '')'' # r) = None"
  by (simp_all add: quantifier_at_def py_lower_def Let_def)

lemma expand_stop [simp]:
  "c = CHR '' '' \<or> c = CHR ''('' \<or> c = CHR '')'' \<Longrightarrow> expand_quantifiers names f (c # r) = bindE (expand_quantifiers names False r) (\<lambda>m. Inr (c # m))"
  by (auto simp: expand_quantifiers.simps(2))

lemma expand_inside:
  "list_all simple_char w \<Longrightarrow> expand_quantifiers names True (w @ t) = bindE (expand_quantifiers names True t) (\<lambda>m. Inr (w @ m))"
proof (induction w)
  case (Cons c w)
  then have "is_word_char c" by (auto dest: simple_charD)
  with Cons show ?case by (cases "expand_quantifiers names True t") (simp_all add: expand_quantifiers.simps(2))
qed (simp add: bindE_def split: sum.split)

lemma expand_word:
  assumes w: "list_all simple_char w" "w \<noteq> []" "py_lower w \<noteq> ''1''" "py_lower w \<noteq> ''all''" and t: "word_stop t"
  shows "expand_quantifiers names False (w @ t) = bindE (expand_quantifiers names True t) (\<lambda>m. Inr (w @ m))"
proof -
  obtain c cs where c: "w = c # cs" using w(2) by (cases w) auto
  then have "is_word_char c" "list_all simple_char cs" using w(1) by (auto dest: simple_charD)
  then show ?thesis
    using no_quantifier_word [OF assms] expand_inside [of cs names t]
    by (cases "expand_quantifiers names True t") (simp_all add: c expand_quantifiers.simps(2))
qed

theorem expand_words:
  assumes "list_all is_word_token ws"
  shows "expand_quantifiers names False (py_join '' '' ws) = Inr (py_join '' '' ws)"
  using assms
proof (induction ws)
  case (Cons w ws)
  let ?t = "if ws = [] then [] else '' '' @ py_join '' '' ws"
  have stop: "word_stop ?t" by (auto simp: word_stop_def)
  have tail: "expand_quantifiers names f ?t = Inr ?t" for f
    using Cons by (cases "ws = []") auto
  have join: "py_join '' '' (w # ws) = w @ ?t" using join_more [of "'' ''" w ws "[]"] by simp
  show ?case
    unfolding join using Cons.prems tail expand_word [of w, OF _ _ _ _ stop]
    by (auto simp: is_word_token_def simp del: if_split_asm)
qed simp

lemma token_parts: "is_word_token ''and''" "is_word_token ''or''" "is_word_token ''not''" "is_word_token ''true''" "is_word_token ''false''"
  "is_word_token ''(''" "is_word_token '')''"
  by code_simp+

lemma words_are_tokens: "list_all is_word_token (selections_of c) \<Longrightarrow> list_all is_word_token (condition_words l c)"
  by (induction c arbitrary: l) (auto simp: parenthesise_def token_parts)

lemma simple_name_token: "simple_name n \<Longrightarrow> is_word_token n \<and> plain_name n"
  by (auto simp: simple_name_def is_word_token_def plain_name_def)

definition simple_condition :: "(string, bool) dict \<Rightarrow> condition \<Rightarrow> bool" where
  "simple_condition values c \<longleftrightarrow> list_all (\<lambda>n. simple_name n \<and> dict_get values n \<noteq> None) (selections_of c)"

lemma simple_condition_known: "simple_condition values c \<Longrightarrow> names_known values c \<and> list_all is_word_token (condition_words l c)"
proof -
  assume s: "simple_condition values c"
  have "list_all is_word_token (selections_of c)"
    using s unfolding simple_condition_def by (rule list.pred_mono_strong) (blast dest: simple_name_token)
  moreover have "names_known values c"
    using s unfolding simple_condition_def names_known_def by (rule list.pred_mono_strong) (blast dest: simple_name_token)
  ultimately show ?thesis using words_are_tokens by blast
qed

definition condition_text :: "condition \<Rightarrow> string" where
  "condition_text c = py_join '' '' (condition_words 0 c)"

theorem condition_text_value:
  assumes "simple_condition values c"
  shows "condition_value values (condition_text c) = Some (Inr (condition_holds (truth values) c))"
proof -
  have k: "names_known values c" "list_all is_word_token (condition_words 0 c)" using simple_condition_known [OF assms] by blast+
  have "parse_condition values OrLevel (condition_words 0 c @ []) = parse_condition values (OrLoop (condition_holds (truth values) c)) []"
    using parse_words [OF k(1)] unfolding parses_as_def not_and_def by blast
  then show ?thesis
    using expand_words [OF k(2)] tokens_of_words [OF k(2), of "[]"] by (simp add: condition_value_def condition_text_def parse_loops(2))
qed

text \<open>The condition a quantifier stands for.\<close>

definition some_of :: "string list \<Rightarrow> condition" where
  "some_of ns = foldl Disjunction (Selection (hd ns)) (map Selection (tl ns))"

definition all_of :: "string list \<Rightarrow> condition" where
  "all_of ns = foldl Conjunction (Selection (hd ns)) (map Selection (tl ns))"

lemma join_between:
  "sep = '' '' @ w @ '' '' \<Longrightarrow> w \<noteq> [] \<Longrightarrow> py_join sep (n # ns) = py_join '' '' (n # concat (map (\<lambda>m. [w, m]) ns))"
  by (induction ns arbitrary: n) simp_all

lemma words_chain:
  "condition_words 0 (foldl Disjunction c (map Selection ns)) = condition_words 0 c @ concat (map (\<lambda>m. [''or'', m]) ns)"
  "condition_words 1 (foldl Conjunction c (map Selection ns)) = condition_words 1 c @ concat (map (\<lambda>m. [''and'', m]) ns)"
  by (induction ns arbitrary: c) (simp_all add: parenthesise_def)

lemma chain_holds:
  "condition_holds f (foldl Disjunction c (map Selection ns)) = (condition_holds f c \<or> list_ex f ns)"
  "condition_holds f (foldl Conjunction c (map Selection ns)) = (condition_holds f c \<and> list_all f ns)"
  by (induction ns arbitrary: c) auto

lemma chain_selections:
  "selections_of (foldl Disjunction c (map Selection ns)) = selections_of c @ ns"
  "selections_of (foldl Conjunction c (map Selection ns)) = selections_of c @ ns"
  by (induction ns arbitrary: c) simp_all

lemma some_of_words:
  "py_join '' or '' (n # ns) = py_join '' '' (condition_words 0 (some_of (n # ns)))"
  "condition_holds f (some_of (n # ns)) = list_ex f (n # ns)" "selections_of (some_of (n # ns)) = n # ns"
  using join_between [of "'' or ''" "''or''" n ns] by (simp_all add: some_of_def words_chain chain_holds chain_selections)

lemma all_of_words:
  "py_join '' and '' (n # ns) = py_join '' '' (condition_words 1 (all_of (n # ns)))"
  "condition_holds f (all_of (n # ns)) = list_all f (n # ns)" "selections_of (all_of (n # ns)) = n # ns"
  using join_between [of "'' and ''" "''and''" n ns] words_chain(2) [of "Selection n" ns]
  by (simp_all add: all_of_def chain_holds chain_selections)

definition is_target :: "string \<Rightarrow> bool" where
  "is_target t \<longleftrightarrow> t \<noteq> [] \<and> list_all (\<lambda>c. is_name_char c \<or> c = CHR ''*'') t"

definition chosen_by :: "(string, bool) dict \<Rightarrow> string \<Rightarrow> string list" where
  "chosen_by values target = (if py_lower target = ''them'' then map fst values else filter (\<lambda>n. fnmatch n target) (map fst values))"

lemma quantifier_found:
  assumes "is_target t"
  shows "quantifier_at (''1 of '' @ t) = Some (''1'', t, [])" "quantifier_at (''all of '' @ t) = Some (''all'', t, [])"
proof -
  let ?in = "\<lambda>c. is_name_char c \<or> c = CHR ''*''"
  have t: "\<And>x. x \<in> set t \<Longrightarrow> ?in x" "t \<noteq> []" using assms by (auto simp: is_target_def list_all_iff)
  have "\<not> is_space_char (hd t)"
    using t(1) [of "hd t"] t(2) unfolding is_name_char_def is_space_char_def Let_def by (auto simp: linorder_not_le) 
  then have strip: "dropWhile is_space_char t = t" by (cases t) simp_all
  have run: "takeWhile ?in t = t" "dropWhile ?in t = []" using t(1) by (auto simp: takeWhile_eq_all_conv)
  have sp: "is_space_char (CHR '' '')" "\<not> is_space_char (CHR ''o'')" "lower_char (CHR ''o'') = CHR ''o''" "lower_char (CHR ''f'') = CHR ''f''"
    "lower_char (CHR ''a'') = CHR ''a''" "lower_char (CHR ''l'') = CHR ''l''" by code_simp+
  show "quantifier_at (''1 of '' @ t) = Some (''1'', t, [])" "quantifier_at (''all of '' @ t) = Some (''all'', t, [])"
    using t(2) by (simp_all add: quantifier_at_def Let_def sp py_lower_def strip run)
qed

lemma bracketed_value:
  assumes w: "\<And>r. not_and r \<Longrightarrow> parse_condition values OrLevel (w @ r) = parse_condition values (OrLoop v) r"
    and t: "list_all is_word_token w" and e: "expand_quantifiers (map fst values) False text = Inr (''('' @ py_join '' '' w @ '')'')"
  shows "condition_value values text = Some (Inr v)"
proof -
  have n: "\<And>r. parse_condition values NotLevel (parenthesise True w @ r) = Some (Inr (v, r))" by (rule not_from_or) (rule w)
  have "parse_condition values OrLevel (parenthesise True w @ []) = parse_condition values (OrLoop v) []"
    by (rule or_from_and [OF and_from_not [OF n]]) (simp add: not_and_def)
  then show ?thesis
    using e tokens_of_words [OF t, of "'')''"] by (simp add: condition_value_def parenthesise_def parse_loops(2))
qed

lemma chosen_known:
  assumes "list_all simple_name (map fst values)"
  shows "list_all (\<lambda>n. simple_name n \<and> dict_get values n \<noteq> None) (chosen_by values t)"
  using assms by (auto simp: chosen_by_def list_all_iff dict_get_map_of map_of_eq_None_iff)

lemma expand_whole:
  assumes "quantifier_at s = Some (m, t, [])" "quantifier_text names m t = Inr text" "s \<noteq> []"
  shows "expand_quantifiers names False s = Inr text"
proof -
  obtain c cs where "s = c # cs" using assms(3) by (cases s) auto
  with assms show ?thesis by (simp add: expand_quantifiers.simps(2))
qed

theorem quantifier_value:
  assumes t: "is_target t" and names: "list_all simple_name (map fst values)" and some: "chosen_by values t \<noteq> []"
  shows "condition_value values (''1 of '' @ t) = Some (Inr (list_ex (truth values) (chosen_by values t)))" (is ?one)
    and "condition_value values (''all of '' @ t) = Some (Inr (list_all (truth values) (chosen_by values t)))" (is ?all)
proof -
  obtain n ns where ns: "chosen_by values t = n # ns" using some by (cases "chosen_by values t") auto
  have known: "simple_condition values c" if "selections_of c = n # ns" for c
    using chosen_known [OF names, of t] that by (simp add: simple_condition_def ns)
  have q: "quantifier_text (map fst values) ''1'' t = Inr (''('' @ py_join '' or '' (n # ns) @ '')'')"
    "quantifier_text (map fst values) ''all'' t = Inr (''('' @ py_join '' and '' (n # ns) @ '')'')"
    using ns by (simp_all add: quantifier_text_def chosen_by_def Let_def del: py_join.simps split: if_split_asm)
  have e: "expand_quantifiers (map fst values) False (''1 of '' @ t) = Inr (''('' @ py_join '' or '' (n # ns) @ '')'')"
    "expand_quantifiers (map fst values) False (''all of '' @ t) = Inr (''('' @ py_join '' and '' (n # ns) @ '')'')"
    by (rule expand_whole [OF quantifier_found(1) [OF t] q(1)], simp, rule expand_whole [OF quantifier_found(2) [OF t] q(2)], simp)
  have s: "simple_condition values (some_of (n # ns))" "simple_condition values (all_of (n # ns))"
    by (rule known, rule some_of_words, rule known, rule all_of_words)
  have p: "parses_as values (some_of (n # ns)) (list_ex (truth values) (n # ns))" "parses_as values (all_of (n # ns)) (list_all (truth values) (n # ns))"
    using parse_words [OF conjunct1 [OF simple_condition_known [OF s(1)]]] parse_words [OF conjunct1 [OF simple_condition_known [OF s(2)]]]
    unfolding some_of_words(2) all_of_words(2) by blast+
  show ?one unfolding ns
  proof (rule bracketed_value)
    show "expand_quantifiers (map fst values) False (''1 of '' @ t) = Inr (''('' @ py_join '' '' (condition_words 0 (some_of (n # ns))) @ '')'')"
      using e(1) unfolding some_of_words(1) .
    show "list_all is_word_token (condition_words 0 (some_of (n # ns)))" using simple_condition_known [OF s(1)] by blast
  qed (use p(1) in \<open>unfold parses_as_def, blast\<close>)
  show ?all unfolding ns
  proof (rule bracketed_value)
    show "expand_quantifiers (map fst values) False (''all of '' @ t) = Inr (''('' @ py_join '' '' (condition_words 1 (all_of (n # ns))) @ '')'')"
      using e(2) unfolding all_of_words(1) .
    show "list_all is_word_token (condition_words 1 (all_of (n # ns)))" using simple_condition_known [OF s(2)] by blast
  qed (rule or_from_and, use p(2) in \<open>unfold parses_as_def, blast\<close>)
qed

section \<open>Every condition has a value or a complaint\<close>

lemma expand_errors: "expand_quantifiers names f s = Inl e \<Longrightarrow> \<exists>m. e = SigmaCompatibilityError m"
proof (induction names f s rule: expand_quantifiers.induct)
  case (2 names f c cs)
  have none_chosen: "\<exists>m. e = SigmaCompatibilityError m" if "quantifier_text names mode t = Inl e" for mode t
    using that by (auto simp: quantifier_text_def Let_def simp del: append.simps split: if_split_asm)
  show ?case
  proof (cases "if f then None else quantifier_at (c # cs)")
    case None
    then have "expand_quantifiers names (is_word_char c) cs = Inl e"
      using 2(3) by (simp add: expand_quantifiers.simps(2) bindE_def split: sum.splits)
    then show ?thesis using 2(1) [OF None] by blast
  next
    case (Some q)
    obtain mode t r where q: "q = (mode, t, r)" by (cases q) auto
    show ?thesis
    proof (cases "quantifier_text names mode t")
      case (Inr u)
      then have "expand_quantifiers names (is_word_char (last t)) r = Inl e"
        using 2(3) Some by (simp add: q expand_quantifiers.simps(2) bindE_def split: sum.splits)
      then show ?thesis using 2(2) [OF Some] unfolding q by blast
    qed (use 2(3) Some none_chosen in \<open>simp add: q expand_quantifiers.simps(2)\<close>)
  qed
qed simp

theorem condition_value_total:
  "case condition_value values s of None \<Rightarrow> False | Some (Inl e) \<Rightarrow> \<exists>m. e = SigmaCompatibilityError m | Some (Inr b) \<Rightarrow> True"
proof (cases "expand_quantifiers (map fst values) False s")
  case (Inr u)
  let ?r = "parse_condition values OrLevel (condition_tokens False u)"
  have "ends_well OrLevel (condition_tokens False u) ?r" by (rule parse_ends)
  then show ?thesis
    by (auto simp: condition_value_def Inr ends_well_def syntax_error_def split: option.splits sum.splits)
qed (auto simp: condition_value_def dest: expand_errors)

theorem sigma_matches_total:
  "case sigma_matches env p r of None \<Rightarrow> False | Some (Inl e) \<Rightarrow> \<exists>m. e = SigmaCompatibilityError m | Some (Inr b) \<Rightarrow> True"
  unfolding sigma_matches_def Let_def by (rule condition_value_total)

text \<open>
  A selection whose name starts with a keyword and a hyphen or a dot is cut in two by the tokeniser: the word boundary
  after the keyword comes before the rest of the name.
\<close>

theorem keyword_prefix_cut:
  "condition_value [(''not-dns'', True)] ''not-dns'' = Some (Inl (SigmaCompatibilityError ''unknown selection: -dns''))"
  "condition_value [(''true.positive'', False), (''.positive'', True)] ''true.positive'' = Some (Inl (SigmaCompatibilityError ''unsupported condition syntax''))"
  by code_simp+

section \<open>What is loaded\<close>

definition rules_sound :: "sigma_env \<Rightarrow> rule_store \<Rightarrow> bool" where
  "rules_sound env st \<longleftrightarrow>
     list_all (\<lambda>r. validate_rule env r False = Inr []) (rs_rules st) \<and> distinct (rs_ids st) \<and>
     rs_ids st = filter (\<lambda>i. i \<noteq> []) (map (\<lambda>r. case rule_id env r of Inl e \<Rightarrow> [] | Inr i \<Rightarrow> i) (rs_rules st))"

lemma rules_sound_same:
  "rs_rules st' = rs_rules st \<Longrightarrow> rs_ids st' = rs_ids st \<Longrightarrow> rules_sound env st' \<longleftrightarrow> rules_sound env st"
  by (simp only: rules_sound_def)

lemma load_rule_sound: "rules_sound env st \<Longrightarrow> rules_sound env (load_rule env st (path, document))"
proof -
  assume st: "rules_sound env st"
  have rejects: "rules_sound env (st\<lparr>rs_rejected := x\<rparr>)" for x
    by (rule rules_sound_same [of _ st, THEN iffD2, OF _ _ st]) simp_all
  show ?thesis
  proof (cases document)
    case (Inr rule)
    let ?m = "bindE (validate_rule env rule False) (\<lambda>errors. bindE (rule_id env rule) (\<lambda>i. Inr (errors, i)))"
    show ?thesis
    proof (cases ?m)
      case m: (Inr p)
      then obtain errors i where p: "p = (errors, i)" and v: "validate_rule env rule False = Inr errors" "rule_id env rule = Inr i"
        by (auto simp: bindE_Inr)
      have "load_rule env st (path, document) = (let errors' = errors @ (if i \<noteq> [] \<and> i \<in> set (rs_ids st) then [''duplicate rule id: '' @ i] else [])
          in if errors' \<noteq> [] then st\<lparr>rs_rejected := rs_rejected st @ [(path, py_join ''; '' errors')]\<rparr>
             else st\<lparr>rs_ids := (if i \<noteq> [] then rs_ids st @ [i] else rs_ids st), rs_rules := rs_rules st @ [rule]\<rparr>)"
        by (simp add: load_rule_def Inr v)
      then show ?thesis using rejects st v by (simp add: Let_def rules_sound_def)
    qed (simp add: load_rule_def Inr rejects)
  qed (simp add: load_rule_def rejects)
qed

theorem load_rules_sound: "rules_sound env (load_rules env files)"
proof -
  have "rules_sound env st \<Longrightarrow> rules_sound env (foldl (load_rule env) st files)" for st
    by (induction files arbitrary: st) (auto simp: load_rule_sound)
  moreover have "rules_sound env \<lparr>rs_rules = [], rs_rejected = [], rs_ids = []\<rparr>" by (simp add: rules_sound_def)
  ultimately show ?thesis unfolding load_rules_def by blast
qed

text \<open>Every file is either loaded or listed as rejected, and nothing is lost.\<close>

lemma load_rule_counts:
  "length (rs_rules (load_rule env st file)) + length (rs_rejected (load_rule env st file)) = Suc (length (rs_rules st) + length (rs_rejected st))"
  by (auto simp: load_rule_def Let_def split: prod.splits sum.splits)

theorem load_rules_counts:
  "length (rs_rules (load_rules env files)) + length (rs_rejected (load_rules env files)) = length files"
proof -
  have "length (rs_rules (foldl (load_rule env) st files)) + length (rs_rejected (foldl (load_rule env) st files)) =
      length (rs_rules st) + length (rs_rejected st) + length files" for st
    by (induction files arbitrary: st) (simp_all add: load_rule_counts)
  then show ?thesis by (simp add: load_rules_def)
qed

end
