(* ===== verification/TlsHello.thy ===== *)
theory TlsHello imports Md5 FastPacket begin

text \<open>
  core/forensics/plugins/parsers/tls\_parser.py: the server name and the JA3/JA4 fingerprint of a TLS
  ClientHello, read from the payload bytes.  Text decoding of a name (\<open>bytes.decode('utf-8',
  errors='ignore')\<close>) yields text the model cannot hold in general and is a parameter.  A subscript
  outside the payload is an \<open>IndexError\<close>; the lemmas show that none occurs, that a well-formed hello is
  read back field by field, and that GREASE values leave no trace in the fingerprint.
\<close>

section \<open>Numbers in a payload\<close>

definition u16_at :: "bytes \<Rightarrow> nat \<Rightarrow> int" where
  "u16_at r i = be_int (py_slice r i (i + 2))"

text \<open>\<open>range(a, b, 2)\<close>\<close>

definition range2 :: "nat \<Rightarrow> nat \<Rightarrow> nat list" where
  "range2 a b = map (\<lambda>k. a + 2 * k) [0..<(b - a + 1) div 2]"

definition is_grease :: "int \<Rightarrow> bool" where
  "is_grease v \<longleftrightarrow> v AND 0x0F0F = 0x0A0A \<and> v div 256 = v AND 0xFF"

section \<open>The server name\<close>

function sni_loop :: "(bytes \<Rightarrow> string) \<Rightarrow> bytes \<Rightarrow> nat \<Rightarrow> nat \<Rightarrow> string option" where
  "sni_loop decode r stop cursor =
     (if cursor + 4 < stop \<and> cursor + 4 < length r then
        (let ext_type = u16_at r cursor; ext_len = nat_of_be (py_slice r (cursor + 2) (cursor + 4)) in
         if ext_type = 0 \<and> cursor + 9 < length r
         then (let sni_len = nat_of_be (py_slice r (cursor + 7) (cursor + 9)) in
           Some (decode (py_slice r (cursor + 9) (cursor + 9 + sni_len))))
         else sni_loop decode r stop (cursor + 4 + ext_len))
      else None)"
  by auto
termination by (relation "measure (\<lambda>(_, r, _, cursor). length r - cursor)") auto

declare sni_loop.simps [simp del]

text \<open>The nested tests of the payload; every subscript stands under the test that bounds it.\<close>

definition client_hello_sni :: "(bytes \<Rightarrow> string) \<Rightarrow> bytes \<Rightarrow> string option result" where
  "client_hello_sni decode r =
     (if \<not> length r > 43 then Inr None
      else bindE (byte_at r 0) (\<lambda>b0. bindE (byte_at r 1) (\<lambda>b1. bindE (byte_at r 5) (\<lambda>b5. bindE (byte_at r 43) (\<lambda>session_id_len.
        if \<not> (b0 = 0x16 \<and> b1 = 3 \<and> b5 = 1) then Inr None
        else
          (let cursor = 44 + nat session_id_len in
           if \<not> cursor + 2 < length r then Inr None
           else
             (let cursor = cursor + 2 + nat_of_be (py_slice r cursor (cursor + 2)) in
              if \<not> cursor < length r then Inr None
              else bindE (byte_at r cursor) (\<lambda>comp_len.
                let cursor = cursor + 1 + nat comp_len in
                if \<not> cursor + 2 < length r then Inr None
                else Inr (sni_loop decode r (cursor + 2 + nat_of_be (py_slice r cursor (cursor + 2))) (cursor + 2)))))))))
      )"

text \<open>The \<open>try\<close> around it turns any exception into no name.\<close>

definition extract_tls_sni :: "(bytes \<Rightarrow> string) \<Rightarrow> bool \<Rightarrow> int \<Rightarrow> int \<Rightarrow> bytes \<Rightarrow> string option" where
  "extract_tls_sni decode is_tcp sport dport r =
     (if is_tcp \<and> (dport = 443 \<or> sport = 443)
      then (case client_hello_sni decode r of Inr name \<Rightarrow> name | Inl _ \<Rightarrow> None) else None)"

section \<open>The ClientHello\<close>

record hello_scan =
  hs_extensions :: "int list"
  hs_groups :: "int list"
  hs_formats :: "int list"
  hs_sni :: bool
  hs_alpn :: string

definition hello_scan_init :: hello_scan where
  "hello_scan_init = \<lparr>hs_extensions = [], hs_groups = [], hs_formats = [], hs_sni = False, hs_alpn = []\<rparr>"

definition without_grease :: "int list \<Rightarrow> int list" where
  "without_grease vs = filter (\<lambda>v. \<not> is_grease v) vs"

definition ext_step :: "(bytes \<Rightarrow> string) \<Rightarrow> hello_scan \<Rightarrow> int \<times> bytes \<Rightarrow> hello_scan" where
  "ext_step decode acc ext =
     (case ext of (ext_type, data) \<Rightarrow>
        if is_grease ext_type then acc
        else
          (let acc1 = acc\<lparr>hs_extensions := hs_extensions acc @ [ext_type]\<rparr> in
           if ext_type = 0 then acc1\<lparr>hs_sni := True\<rparr>
           else if ext_type = 10 \<and> length data \<ge> 2 then
             (let n = min (length data) (2 + nat_of_be (take 2 data)) in
              acc1\<lparr>hs_groups := hs_groups acc1 @ without_grease (map (u16_at data) (range2 2 (n - 1)))\<rparr>)
           else if ext_type = 11 \<and> data \<noteq> [] then
             acc1\<lparr>hs_formats := hs_formats acc1 @ map uint (py_slice data 1 (1 + unat (hd data)))\<rparr>
           else if ext_type = 16 \<and> length data \<ge> 3 then
             acc1\<lparr>hs_alpn := take 2 (decode (py_slice data 3 (3 + unat (data ! 2))))\<rparr>
           else acc1))"

text \<open>\<open>None\<close> is the early return when an extension runs past the end.\<close>

function ext_loop :: "(bytes \<Rightarrow> string) \<Rightarrow> bytes \<Rightarrow> nat \<Rightarrow> nat \<Rightarrow> hello_scan \<Rightarrow> hello_scan option" where
  "ext_loop decode r stop cursor acc =
     (if cursor + 4 \<le> stop then
        (let data_end = cursor + 4 + nat_of_be (py_slice r (cursor + 2) (cursor + 4)) in
         if data_end > stop then None
         else ext_loop decode r stop data_end (ext_step decode acc (u16_at r cursor, py_slice r (cursor + 4) data_end)))
      else Some acc)"
  by auto
termination by (relation "measure (\<lambda>(_, _, stop, cursor, _). stop - cursor)") auto

declare ext_loop.simps [simp del]

definition client_hello_scan :: "(bytes \<Rightarrow> string) \<Rightarrow> bytes \<Rightarrow> (int \<times> int list \<times> hello_scan) option result" where
  "client_hello_scan decode r =
     (if length r < 9 then Inr None
      else bindE (byte_at r 0) (\<lambda>b0. bindE (byte_at r 5) (\<lambda>b5.
        if b0 \<noteq> 0x16 \<or> b5 \<noteq> 1 then Inr None
        else
          (let record_end = min (length r) (5 + nat_of_be (py_slice r 3 5));
               hello_end = min record_end (9 + nat_of_be (py_slice r 6 9))
           in if hello_end < 43 then Inr None
              else if 43 \<ge> hello_end then Inr None
              else bindE (byte_at r 43) (\<lambda>session_length.
                let cursor = 44 + nat session_length in
                if cursor + 2 > hello_end then Inr None
                else
                  (let cipher_length = nat_of_be (py_slice r cursor (cursor + 2));
                       cipher_start = cursor + 2; cipher_end = cipher_start + cipher_length
                   in if odd cipher_length \<or> cipher_end > hello_end then Inr None
                      else if cipher_end \<ge> hello_end then Inr None
                      else bindE (byte_at r cipher_end) (\<lambda>compression_length.
                        let ciphers = without_grease (map (u16_at r) (range2 cipher_start cipher_end));
                            found = (\<lambda>stop cursor. Inr (map_option (\<lambda>scan. (u16_at r 9, ciphers, scan))
                              (ext_loop decode r stop cursor hello_scan_init)));
                            cursor = cipher_end + 1 + nat compression_length
                        in if cursor = hello_end then found cursor cursor
                           else if cursor + 2 \<le> hello_end then
                             (let extension_end = cursor + 2 + nat_of_be (py_slice r cursor (cursor + 2)) in
                              if extension_end > hello_end then Inr None else found extension_end (cursor + 2))
                           else Inr None))))))) "

section \<open>The fingerprint\<close>

record tls_fingerprint =
  tf_ja3 :: string
  tf_ja4 :: string
  tf_library :: "string option"

definition TLS_SIGNATURES :: "(string \<times> string) list" where
  "TLS_SIGNATURES =
     [(''66918128f1b9b03303d77c6f2eefd128'', ''Metasploit / Meterpreter''), (''969966d564ef72d76f8092ecf696d595'', ''Empire Stager''),
      (''771aa130080606060606060606060606'', ''Cobalt Strike Beacon''), (''3d47d488f280a5e89d15c7e1e626e2e5'', ''Cobalt Strike (Malleable)''),
      (''a0e9f5d64349fb13191bc781f81f42e1'', ''Psh-Empire''), (''54773199c0e495f2479e954558e8b093'', ''Google Chrome (V83+)''),
      (''4a382e88a0996849929944f247f247f2'', ''Firefox''), (''06a5bc82846944f12349fb13191bc781'', ''Python / Requests'')]"

definition identify_tls_client :: "string \<Rightarrow> string option" where
  "identify_tls_client ja3_hash = dict_get TLS_SIGNATURES ja3_hash"

text \<open>Formats \<open>02x\<close> and \<open>02d\<close> of a non-negative number.\<close>

fun hex_digits :: "nat \<Rightarrow> string" where
  "hex_digits n = (if n < 16 then [hex_char n] else hex_digits (n div 16) @ [hex_char (n mod 16)])"

declare hex_digits.simps [simp del]

definition pad2 :: "string \<Rightarrow> string" where
  "pad2 s = (if length s < 2 then CHR ''0'' # s else s)"

definition ja3_string :: "int \<Rightarrow> int list \<Rightarrow> hello_scan \<Rightarrow> string" where
  "ja3_string version ciphers scan =
     (let dashed = (\<lambda>vs. py_join ''-'' (map show_int vs)) in
      show_int version @ '','' @ dashed ciphers @ '','' @ dashed (hs_extensions scan) @ '','' @ dashed (hs_groups scan)
        @ '','' @ dashed (hs_formats scan))"

definition sorted_digest :: "int list \<Rightarrow> string" where
  "sorted_digest vs = take 12 (sha256_hex (b_lit (py_join '','' (map show_int (sort vs)))))"

definition ja4_string :: "int \<Rightarrow> int list \<Rightarrow> hello_scan \<Rightarrow> string" where
  "ja4_string version ciphers scan =
     ''t'' @ pad2 (hex_digits (nat version)) @ (if hs_sni scan then ''d'' else ''i'') @ pad2 (show_nat (length ciphers))
       @ pad2 (show_nat (length (hs_extensions scan))) @ str_or (hs_alpn scan) ''00''
       @ ''_'' @ sorted_digest ciphers @ ''_'' @ sorted_digest (hs_extensions scan)"

definition hello_fingerprint :: "int \<times> int list \<times> hello_scan \<Rightarrow> tls_fingerprint" where
  "hello_fingerprint hello =
     (case hello of (version, ciphers, scan) \<Rightarrow>
        (let ja3 = md5_hex (b_lit (ja3_string version ciphers scan)) in
         \<lparr>tf_ja3 = ja3, tf_ja4 = ja4_string version ciphers scan, tf_library = identify_tls_client ja3\<rparr>))"

definition client_hello_fingerprint :: "(bytes \<Rightarrow> string) \<Rightarrow> bytes \<Rightarrow> tls_fingerprint option result" where
  "client_hello_fingerprint decode r = bindE (client_hello_scan decode r) (\<lambda>hello. Inr (map_option hello_fingerprint hello))"

definition extract_ja3_ja4 :: "(bytes \<Rightarrow> string) \<Rightarrow> bool \<Rightarrow> int \<Rightarrow> int \<Rightarrow> bytes \<Rightarrow> tls_fingerprint option" where
  "extract_ja3_ja4 decode is_tcp sport dport r =
     (if \<not> is_tcp then None
      else if dport \<noteq> 443 \<and> sport \<noteq> 443 then None
      else (case client_hello_fingerprint decode r of Inr out \<Rightarrow> out | Inl _ \<Rightarrow> None))"

section \<open>Reading a hello that was written\<close>

record client_hello =
  ch_record_version :: bytes
  ch_version :: int
  ch_random :: bytes
  ch_session :: bytes
  ch_ciphers :: "int list"
  ch_compression :: bytes
  ch_extensions :: "(int \<times> bytes) list"

definition u16_bytes :: "int list \<Rightarrow> bytes" where
  "u16_bytes vs = concat (map (be_bytes 2) vs)"

definition extension_bytes :: "(int \<times> bytes) list \<Rightarrow> bytes" where
  "extension_bytes exts = concat (map (\<lambda>(ext_type, data). be_bytes 2 ext_type @ be_bytes 2 (int (length data)) @ data) exts)"

definition hello_body :: "client_hello \<Rightarrow> bytes" where
  "hello_body h = be_bytes 2 (ch_version h) @ ch_random h @ [word_of_nat (length (ch_session h))] @ ch_session h
     @ be_bytes 2 (int (2 * length (ch_ciphers h))) @ u16_bytes (ch_ciphers h)
     @ [word_of_nat (length (ch_compression h))] @ ch_compression h
     @ be_bytes 2 (int (length (extension_bytes (ch_extensions h)))) @ extension_bytes (ch_extensions h)"

definition hello_bytes :: "client_hello \<Rightarrow> bytes" where
  "hello_bytes h = [0x16] @ ch_record_version h @ be_bytes 2 (int (length (hello_body h) + 4)) @ [1]
     @ be_bytes 3 (int (length (hello_body h))) @ hello_body h"

definition u16_ok :: "int \<Rightarrow> bool" where
  "u16_ok v \<longleftrightarrow> 0 \<le> v \<and> v < 65536"

definition hello_ok :: "client_hello \<Rightarrow> bool" where
  "hello_ok h \<longleftrightarrow> length (ch_record_version h) = 2 \<and> u16_ok (ch_version h) \<and> length (ch_random h) = 32 \<and>
     length (ch_session h) < 256 \<and> list_all u16_ok (ch_ciphers h) \<and> length (ch_compression h) < 256 \<and>
     list_all (\<lambda>(ext_type, data). u16_ok ext_type \<and> length data < 65536) (ch_extensions h) \<and>
     length (hello_body h) + 4 < 65536"

declare add_2_eq_Suc [simp del] add_2_eq_Suc' [simp del]

lemma slice_mid: "a = length pre \<Longrightarrow> b = a + length mid \<Longrightarrow> py_slice (pre @ mid @ post) a b = mid"
  by (simp add: py_slice_def)

lemma byte_mid: "a = length pre \<Longrightarrow> byte_at (pre @ [b] @ post) a = Inr (uint b)"
  by (simp add: byte_at_def nth_append)

lemma u16_mid: "a = length pre \<Longrightarrow> u16_ok v \<Longrightarrow> u16_at (pre @ be_bytes 2 v @ post) a = v"
  unfolding u16_at_def by (subst slice_mid) (simp_all add: u16_ok_def)

lemma nat_mid: "a = length pre \<Longrightarrow> b = a + n \<Longrightarrow> k < 256 ^ n \<Longrightarrow> nat_of_be (py_slice (pre @ be_bytes n (int k) @ post) a b) = k"
proof -
  assume a: "a = length pre" "b = a + n" "k < 256 ^ n"
  then have "int k < 256 ^ n" by (metis of_nat_less_iff of_nat_numeral of_nat_power)
  then show ?thesis using a by (subst slice_mid) (simp_all add: nat_of_be_def)
qed

lemma range2_count: "range2 a (a + 2 * n) = map (\<lambda>k. a + 2 * k) [0..<n]"
  by (simp add: range2_def)

lemma u16s_mid:
  "a = length pre \<Longrightarrow> list_all u16_ok vs \<Longrightarrow>
     map (u16_at (pre @ u16_bytes vs @ post)) (range2 a (a + 2 * length vs)) = vs"
proof (induction vs arbitrary: pre a)
  case (Cons v vs)
  have r: "range2 a (a + 2 * length (v # vs)) = a # range2 (a + 2) (a + 2 + 2 * length vs)"
    unfolding range2_count by (simp add: upt_conv_Cons map_Suc_upt [symmetric] comp_def del: upt_Suc)
  have p: "pre @ u16_bytes (v # vs) @ post = (pre @ be_bytes 2 v) @ u16_bytes vs @ post" by (simp add: u16_bytes_def)
  have "u16_at (pre @ u16_bytes (v # vs) @ post) a = v"
    using u16_mid [OF Cons.prems(1), of v "u16_bytes vs @ post"] Cons.prems(2) by (simp add: u16_bytes_def)
  moreover have "map (u16_at (pre @ u16_bytes (v # vs) @ post)) (range2 (a + 2) (a + 2 + 2 * length vs)) = vs"
    unfolding p by (rule Cons.IH) (use Cons.prems in simp_all)
  ultimately show ?case unfolding r by simp
qed (simp add: range2_def)

lemma ext_loop_written:
  "a = length pre \<Longrightarrow> stop = a + length (extension_bytes exts) \<Longrightarrow>
     list_all (\<lambda>(ext_type, data). u16_ok ext_type \<and> length data < 65536) exts \<Longrightarrow>
     ext_loop decode (pre @ extension_bytes exts @ post) stop a acc = Some (foldl (ext_step decode) acc exts)"
proof (induction exts arbitrary: pre a acc)
  case Nil
  then show ?case by (subst ext_loop.simps) (simp add: extension_bytes_def)
next
  case (Cons ext exts)
  obtain ty data where ext: "ext = (ty, data)" by (cases ext)
  let ?r = "pre @ extension_bytes (ext # exts) @ post" and ?pre = "pre @ be_bytes 2 ty @ be_bytes 2 (int (length data)) @ data"
  have ok: "u16_ok ty" "length data < 65536" using Cons.prems(3) by (simp_all add: ext)
  have ebs: "extension_bytes (ext # exts) = be_bytes 2 ty @ be_bytes 2 (int (length data)) @ data @ extension_bytes exts"
    by (simp add: extension_bytes_def ext)
  have t: "u16_at ?r a = ty" using u16_mid [OF Cons.prems(1) ok(1)] by (simp add: ebs)
  have l: "nat_of_be (py_slice ?r (a + 2) (a + 4)) = length data"
    using nat_mid [of "a + 2" "pre @ be_bytes 2 ty" "a + 4" 2 "length data" "data @ extension_bytes exts @ post"] Cons.prems(1) ok(2) by (simp add: ebs)
  have d: "py_slice ?r (a + 4) (a + 4 + length data) = data"
    using slice_mid [of "a + 4" "pre @ be_bytes 2 ty @ be_bytes 2 (int (length data))" "a + 4 + length data" data "extension_bytes exts @ post"] Cons.prems(1)
    by (simp add: ebs)
  have s: "a + 4 + length data \<le> stop" using Cons.prems(2) by (simp add: ebs)
  have p: "?r = ?pre @ extension_bytes exts @ post" by (simp add: ebs)
  have "ext_loop decode ?r stop a acc = ext_loop decode ?r stop (a + 4 + length data) (ext_step decode acc (ty, data))"
    using s by (subst ext_loop.simps) (simp add: t l d Let_def)
  also have "\<dots> = Some (foldl (ext_step decode) (ext_step decode acc (ty, data)) exts)"
    unfolding p by (rule Cons.IH) (use Cons.prems in \<open>simp_all add: ebs\<close>)
  finally show ?case by (simp add: ext)
qed

lemma length_u16_bytes [simp]: "length (u16_bytes vs) = 2 * length vs"
  by (induction vs) (simp_all add: u16_bytes_def)

lemma uint_length: "n < 256 \<Longrightarrow> nat (uint (word_of_nat n :: 8 word)) = n"
  by (simp add: unat_of_nat take_bit_nat_eq_self_iff)

lemma hello_split:
  fixes h :: client_hello and trailing :: bytes
  defines "r \<equiv> hello_bytes h @ trailing" and "s \<equiv> length (ch_session h)" and "n \<equiv> length (ch_ciphers h)"
    and "c \<equiv> length (ch_compression h)" and "x \<equiv> length (extension_bytes (ch_extensions h))"
  assumes ok: "hello_ok h"
  shows "length (hello_body h) = 40 + s + 2 * n + c + x" "length r = 49 + s + 2 * n + c + x + length trailing"
    "byte_at r 0 = Inr 0x16" "byte_at r 5 = Inr 1" "nat_of_be (py_slice r 3 5) = 44 + s + 2 * n + c + x"
    "nat_of_be (py_slice r 6 9) = 40 + s + 2 * n + c + x" "u16_at r 9 = ch_version h"
    "byte_at r 43 = Inr (int s)" "nat_of_be (py_slice r (44 + s) (46 + s)) = 2 * n"
    "map (u16_at r) (range2 (46 + s) (46 + s + 2 * n)) = ch_ciphers h"
    "byte_at r (46 + s + 2 * n) = Inr (int c)"
    "nat_of_be (py_slice r (47 + s + 2 * n + c) (49 + s + 2 * n + c)) = x"
    "\<And>acc. ext_loop decode r (49 + s + 2 * n + c + x) (49 + s + 2 * n + c) acc = Some (foldl (ext_step decode) acc (ch_extensions h))"
proof -
  let ?body = "hello_body h"
  have o: "length (ch_record_version h) = 2" "u16_ok (ch_version h)" "length (ch_random h) = 32" "s < 256" "c < 256"
    "list_all u16_ok (ch_ciphers h)" "length ?body + 4 < 65536"
    "list_all (\<lambda>(ext_type, data). u16_ok ext_type \<and> length data < 65536) (ch_extensions h)"
    using ok by (simp_all add: hello_ok_def s_def c_def)
  show b: "length ?body = 40 + s + 2 * n + c + x" using o(3) by (simp add: hello_body_def s_def n_def c_def x_def)
  then have small: "2 * n < 65536" "x < 65536" using o(7) by simp_all
  let ?h1 = "[0x16] @ ch_record_version h" and ?h2 = "be_bytes 2 (int (length ?body + 4))" and ?h3 = "be_bytes 3 (int (length ?body))"
    and ?v = "be_bytes 2 (ch_version h)" and ?s = "[word_of_nat s] @ ch_session h" and ?n = "be_bytes 2 (int (2 * n))"
    and ?c = "[word_of_nat c] @ ch_compression h" and ?x = "be_bytes 2 (int x)" and ?e = "extension_bytes (ch_extensions h)"
  have r: "r = ?h1 @ ?h2 @ [1] @ ?h3 @ ?v @ ch_random h @ ?s @ ?n @ u16_bytes (ch_ciphers h) @ ?c @ ?x @ ?e @ trailing"
    unfolding r_def hello_bytes_def hello_body_def s_def n_def c_def x_def by simp
  show "length r = 49 + s + 2 * n + c + x + length trailing" using b o(1) by (simp add: r_def hello_bytes_def)
  show "byte_at r 0 = Inr 0x16" using byte_mid [of 0 "[]" "0x16"] by (simp add: r)
  show "byte_at r 5 = Inr 1" using byte_mid [of 5 "?h1 @ ?h2" 1] o(1) by (simp add: r)
  show "nat_of_be (py_slice r 3 5) = 44 + s + 2 * n + c + x"
    using nat_mid [of 3 ?h1 5 2 "length ?body + 4"] o(1,7) b by (simp add: r)
  show "nat_of_be (py_slice r 6 9) = 40 + s + 2 * n + c + x"
    using nat_mid [of 6 "?h1 @ ?h2 @ [1]" 9 3 "length ?body"] o(1,7) b by (simp add: r)
  show "u16_at r 9 = ch_version h" using u16_mid [of 9 "?h1 @ ?h2 @ [1] @ ?h3" "ch_version h"] o(1,2) by (simp add: r)
  let ?p1 = "?h1 @ ?h2 @ [1] @ ?h3 @ ?v @ ch_random h"
  have p1: "length ?p1 = 43" using o(1,3) by simp
  have r1: "r = ?p1 @ [word_of_nat s] @ ch_session h @ ?n @ u16_bytes (ch_ciphers h) @ ?c @ ?x @ ?e @ trailing" by (simp add: r)
  show "byte_at r 43 = Inr (int s)" using byte_mid [of 43 ?p1 "word_of_nat s"] p1 o(4) unfolding r1 by simp
  let ?p2 = "?p1 @ ?s"
  have p2: "length ?p2 = 44 + s" using p1 by (simp add: s_def)
  have r2: "r = ?p2 @ ?n @ u16_bytes (ch_ciphers h) @ ?c @ ?x @ ?e @ trailing" by (simp add: r)
  show "nat_of_be (py_slice r (44 + s) (46 + s)) = 2 * n"
    unfolding r2 by (rule nat_mid) (use p2 small in simp_all)
  let ?p3 = "?p2 @ ?n"
  have p3: "length ?p3 = 46 + s" using p2 by simp
  have r3: "r = ?p3 @ u16_bytes (ch_ciphers h) @ ?c @ ?x @ ?e @ trailing" by (simp add: r)
  show "map (u16_at r) (range2 (46 + s) (46 + s + 2 * n)) = ch_ciphers h"
    unfolding r3 n_def [unfolded atomize_eq] by (rule u16s_mid) (use p3 o(6) in \<open>simp_all add: n_def\<close>)
  let ?p4 = "?p3 @ u16_bytes (ch_ciphers h)"
  have p4: "length ?p4 = 46 + s + 2 * n" using p3 by (simp add: n_def)
  have r4: "r = ?p4 @ [word_of_nat c] @ ch_compression h @ ?x @ ?e @ trailing" by (simp add: r)
  show "byte_at r (46 + s + 2 * n) = Inr (int c)" using byte_mid [of "46 + s + 2 * n" ?p4 "word_of_nat c"] p4 o(5) unfolding r4 by simp
  let ?p5 = "?p4 @ ?c"
  have p5: "length ?p5 = 47 + s + 2 * n + c" using p4 by (simp add: c_def)
  have r5: "r = ?p5 @ ?x @ ?e @ trailing" by (simp add: r)
  show "nat_of_be (py_slice r (47 + s + 2 * n + c) (49 + s + 2 * n + c)) = x"
    unfolding r5 by (rule nat_mid) (use p5 small in simp_all)
  let ?p6 = "?p5 @ ?x"
  have p6: "length ?p6 = 49 + s + 2 * n + c" using p5 by simp
  have r6: "r = ?p6 @ ?e @ trailing" by (simp add: r)
  show "ext_loop decode r (49 + s + 2 * n + c + x) (49 + s + 2 * n + c) acc = Some (foldl (ext_step decode) acc (ch_extensions h))" for acc
    unfolding r6 by (rule ext_loop_written) (use p6 o(8) in \<open>simp_all add: x_def\<close>)
qed

lemma scan_steps:
  assumes "length r = 49 + s + 2 * n + c + x + t" "byte_at r 0 = Inr 0x16" "byte_at r 5 = Inr 1"
    "nat_of_be (py_slice r 3 5) = 44 + s + 2 * n + c + x" "nat_of_be (py_slice r 6 9) = 40 + s + 2 * n + c + x" "u16_at r 9 = v"
    "byte_at r 43 = Inr (int s)" "nat_of_be (py_slice r (44 + s) (46 + s)) = 2 * n"
    "map (u16_at r) (range2 (46 + s) (46 + s + 2 * n)) = ciphers" "byte_at r (46 + s + 2 * n) = Inr (int c)"
    "nat_of_be (py_slice r (47 + s + 2 * n + c) (49 + s + 2 * n + c)) = x"
    "ext_loop decode r (49 + s + 2 * n + c + x) (49 + s + 2 * n + c) hello_scan_init = scan"
  shows "client_hello_scan decode r = Inr (map_option (\<lambda>scan. (v, without_grease ciphers, scan)) scan)"
proof -
  have e: "min (min (length r) (5 + (44 + s + 2 * n + c + x))) (9 + (40 + s + 2 * n + c + x)) = 49 + s + 2 * n + c + x"
    using assms(1) by simp
  have c: "44 + s + 2 = 46 + s" "46 + s + 2 * n + 1 + c = 47 + s + 2 * n + c" "47 + s + 2 * n + c + 2 = 49 + s + 2 * n + c" by simp_all
  have g: "\<not> length r < 9" "\<not> 49 + s + 2 * n + c + x < 43" "\<not> 49 + s + 2 * n + c + x \<le> 43" "\<not> 49 + s + 2 * n + c + x < 46 + s"
    "\<not> 49 + s + 2 * n + c + x < 46 + s + 2 * n" "\<not> 49 + s + 2 * n + c + x \<le> 46 + s + 2 * n" "even (2 * n)"
    "47 + s + 2 * n + c \<noteq> 49 + s + 2 * n + c + x" "49 + s + 2 * n + c \<le> 49 + s + 2 * n + c + x" "\<not> 49 + s + 2 * n + c + x < 49 + s + 2 * n + c + x"
    using assms(1) by simp_all
  show ?thesis
    unfolding client_hello_scan_def
    by (simp only: Let_def assms(2-12) bindE_simps nat_int e c g if_False if_True simp_thms)
qed

text \<open>A hello that was written is read back, whatever follows it in the payload.\<close>

lemma hello_scan_written:
  assumes "hello_ok h"
  shows "client_hello_scan decode (hello_bytes h @ trailing) =
    Inr (Some (ch_version h, without_grease (ch_ciphers h), foldl (ext_step decode) hello_scan_init (ch_extensions h)))"
  using scan_steps [OF hello_split(2-12) [OF assms, of trailing] hello_split(13) [OF assms]] by simp


section \<open>GREASE and malformed payloads\<close>

definition without_grease_exts :: "(int \<times> bytes) list \<Rightarrow> (int \<times> bytes) list" where
  "without_grease_exts exts = filter (\<lambda>ext. \<not> is_grease (fst ext)) exts"

lemma ext_steps_skip_grease: "foldl (ext_step decode) acc (without_grease_exts exts) = foldl (ext_step decode) acc exts"
  by (induction exts arbitrary: acc) (auto simp: without_grease_exts_def ext_step_def)

lemma grease_invisible:
  assumes "hello_ok g" "hello_ok h" "ch_version g = ch_version h" "without_grease (ch_ciphers g) = without_grease (ch_ciphers h)"
    "without_grease_exts (ch_extensions g) = without_grease_exts (ch_extensions h)"
  shows "client_hello_fingerprint decode (hello_bytes g @ x) = client_hello_fingerprint decode (hello_bytes h @ y)"
proof -
  have "foldl (ext_step decode) hello_scan_init (ch_extensions g) = foldl (ext_step decode) hello_scan_init (ch_extensions h)"
    using ext_steps_skip_grease [of decode hello_scan_init] assms(5) by metis
  then show ?thesis using assms by (simp add: client_hello_fingerprint_def hello_scan_written)
qed

lemma scan_total: "is_ok (client_hello_scan decode r)"
proof -
  define hello_end where "hello_end = min (min (length r) (5 + nat_of_be (py_slice r 3 5))) (9 + nat_of_be (py_slice r 6 9))"
  have b: "\<exists>v. byte_at r i = Inr v" if "i < hello_end" for i
    using that by (simp add: hello_end_def)
  have b': "\<exists>v. byte_at r i = Inr v" if "\<not> length r < 9" "i < 9" for i
    using that by simp
  show ?thesis
  proof (cases "length r < 9")
    case True
    then show ?thesis by (simp add: client_hello_scan_def)
  next
    case False
    obtain b0 b5 where h: "byte_at r 0 = Inr b0" "byte_at r 5 = Inr b5" using b' [OF False, of 0] b' [OF False, of 5] by auto
    show ?thesis
    proof (cases "b0 \<noteq> 0x16 \<or> b5 \<noteq> 1 \<or> hello_end \<le> 43")
      case True
      with False h show ?thesis by (auto simp: client_hello_scan_def Let_def hello_end_def simp del: byte_at_in)
    next
      case F: False
      then obtain s where s: "byte_at r 43 = Inr s" using b [of 43] by auto
      define cursor where "cursor = 44 + nat s"
      define ce where "ce = cursor + 2 + nat_of_be (py_slice r cursor (cursor + 2))"
      show ?thesis
      proof (cases "ce < hello_end")
        case True
        then obtain c where "byte_at r ce = Inr c" using b by blast
        with False h F s show ?thesis
          by (auto simp: client_hello_scan_def Let_def hello_end_def [symmetric] cursor_def [symmetric] ce_def [symmetric] simp del: byte_at_in)
      next
        case G: False
        with False h F s show ?thesis
          by (auto simp: client_hello_scan_def Let_def hello_end_def [symmetric] cursor_def [symmetric] ce_def [symmetric] simp del: byte_at_in)
      qed
    qed
  qed
qed

lemma fingerprint_total: "is_ok (client_hello_fingerprint decode r)"
  using scan_total [of decode r] by (auto simp: client_hello_fingerprint_def is_ok_iff)

lemma sni_total: "is_ok (client_hello_sni decode r)"
proof (cases "43 < length r")
  case True
  then have "byte_at r 0 = Inr (uint (r ! 0))" by (intro byte_at_in) linarith
  with True show ?thesis by (auto simp: client_hello_sni_def Let_def)
qed (simp add: client_hello_sni_def)

declare add_2_eq_Suc [simp] add_2_eq_Suc' [simp]

end
