(* ===== verification/Spec2Isabelle.thy ===== *)
theory Spec2Isabelle imports AggregateReplay AnalysisIdentity AuthSafety BackendPolicy CanonicalJson Capability CaptureCodec CaseBundle CertCodec Conversations DataDecoder EvidenceEnvelope FastPacket FloatArith IpNetwork LiveStreams Md5 MeshAgent MeshCases MeshContracts MeshController MeshDelivery MeshSafety MeshSpool Normalise OperatorAuth PacketQuery Payload PlanCodec PlanIntegrity PlanWire PyBase64 PyBytes PyFloat PyText PyValue Schemas SegmentSpool SelectorCodec SelectorPlan Sha256 SigmaLanguage SigmaRule StateError StreamValidator TlsHello Transport WT_Prelude WireReader begin

text \<open>
  WatchTower: the Rust-assisted analysis pipeline, the packet, conversation and stream model behind
  it, the stores and queries its results go through, the rules that are matched against them, the
  operator's authentication and the mesh of sensors.

  The program.  WatchTower captures or replays network traffic, dissects it and runs detectors.  Its
  heavy work is done by a Rust child process; the Python side (under src/core) decides whether a
  plugin inventory may run in the aggregate mode, sends the child a plan, reads framed batches of
  work items, flows, conversations and a final certificate back over a pipe, checks every byte, and
  turns them into the packet events and flow aggregates the rest of the program consumes.  This
  library models that Python side, its planner, and the structures the results feed: the
  bidirectional conversation tracker, the layer 2 to 4 packet view, the reassembly of live streams,
  the TLS fingerprint, the segment spool, the packet index query and the encrypted evidence files.

  Parts and theories, in the order the data flows.

    WT_Prelude     exceptions as values, the result type and its combinators, decimal and hex text,
                   insertion-ordered dictionaries.
    PyBytes        byte strings, struct packing, IEEE doubles as 64-bit patterns, ASCII text.
    PyFloat        the order of doubles.     PyValue  dynamically typed values.
    PyText         case mapping, join and repr of text.
    Sha256         the hash the digests use (FIPS 180-4), executable.
    WireReader     packet_engine/rust_analysis.py, _Reader: a cursor over a payload; the codec locales.
    Transport      encode_transport_frame, read_transport_frame and the partial reads of a pipe.
    SelectorCodec  the selector clauses and programs of the plan on the wire.
    PlanCodec      encode_analysis_plan, decode_analysis_plan, the hello frame.
    CertCodec      encode_analysis_end, decode_analysis_end: the certificate that ends a session.
    DataDecoder    AnalysisDataDecoder: work, flow and conversation batches against definition tables.
    StreamValidator  AnalysisStreamValidator and RustAnalysisChild: the session's order of frames,
                   starting and closing the child.
    Schemas        packet_engine/schemas.py: PacketEvent and FlowAggregate.update.
    CaptureCodec, AggregateReplay  packet_engine/rust_capture.py: the packet-index batches, the
                   certificates of live capture, the loop that replays an aggregate session, what becomes of its
                   child, and the decoding of error text.
    CanonicalJson, Capability, Normalise, SelectorPlan  forensics/rust_plan.py: the built-in registry,
                   the validation and normal form of offline capabilities, the plan of an inventory
                   and its two digests, verification before a replay.
    PlanWire, PlanIntegrity  how the planner and the wire codec fit together, and what an equal
                   digest says about two inventories.
    Conversations  packet_engine/conversations.py.
    FastPacket     forensics/fast_packet.py.
    IpNetwork, PacketQuery  forensics/packet_query.py: the query AST of the packet index, its
                   validation and its compilation to SQL; the address parsing of the ipaddress module.
    Payload        detection/payload.py: the application payload of a packet without link padding.
    LiveStreams    detection/streams.py: bounded reassembly of live TCP streams.
    Md5, TlsHello  forensics/plugins/parsers/tls_parser.py: server name, JA3 and JA4 of a ClientHello.
    SegmentSpool   forensics/stream_spool.py: TCP segments in a table, within limits.
    PyBase64, EvidenceEnvelope  forensics/evidence_envelope.py: chunked AES-GCM envelopes of
                   retained evidence and the case keys.
    SigmaRule, SigmaLanguage  forensics/sigma_engine.py: validation, matching and loading of Sigma rules;
                   the language of conditions.
    OperatorAuth, AuthSafety  auth/service.py with its rows of storage/models.py: PIN, sessions, passkeys,
                   recovery; FloatArith has the arithmetic of doubles its times need.
    StateError     operations that change a state and may raise, for the mesh.
    MeshContracts  mesh/contracts.py: canonical JSON, telemetry envelopes and their digests.
    MeshSpool      mesh/spool.py: the bounded spool of a sensor.
    CaseBundle     mesh/service.py, _ingest_case_bundle and _extract_case_archive.
    MeshController mesh/service.py with the mesh tables of storage/database.py: enrolment, receipts,
                   commands, ingestion.
    MeshAgent      mesh/agent.py and mesh/transport.py: queueing, commands, flushing, the v2 message.
    MeshDelivery, MeshSafety, MeshCases  what the two ends promise together.
    AnalysisIdentity  forensics/analysis_identity.py: the content identity of an analysis.
    BackendPolicy  core/backend_policy.py: which capture backend runs.

  How the parts meet.  The flow worker hands each packet to FastPacket, updates the conversation
  tracker, merges the metadata it returns into the event and gives both to the stream tracker;
  enriched_events_are_tracked states that this composition never raises.  The same packet view feeds
  Payload, TlsHello and the spool.  The replay of AggregateReplay runs on a plan of SelectorPlan.

  A sensor's agent queues envelopes in its spool and sends them in order; the controller writes a receipt,
  applies the envelope and answers with commands, whose results come back as envelopes.  The network between
  them is a function that delivers a call, loses the request or loses the answer.

  How code is rendered.  A class is a record, an operation a function that takes and returns it.  A
  raise is the left side of py_error + 'a, with the exception and its message; an early return is a
  branch.  Python integers are int, lengths and offsets nat; bytes are 8 word; a double is its bit
  pattern.  A dict is an association list in insertion order.  The pipe of the child is the list of
  chunks successive reads return, so every way of splitting the bytes is covered.

  The lemma groups.  WireReader states three locales (wire_codec, checked_codec, exact_codec): an
  encoder and a decoder that invert each other, with their sequencing and repetition, interpreted for
  every codec of the wire format up to whole programs, so the exactness theorems of the plan follow
  by composition.  DataDecoder states definition_table (what a first definition of an id fixes) and
  interprets it for endpoints, flows and conversations.  StreamValidator refines the flags of the
  validator to three phases.  SelectorPlan and Normalise show that normal forms are stable, ids dense
  and digests recomputable; PlanIntegrity makes canonical JSON injective and so reduces equal digests
  to equal inventories or an explicit SHA-256 collision.  Conversations carries a tracker invariant
  through every operation and a ledger for any weight of a conversation: what came in is held or was
  removed by expiry, unless the evidence-lost flag is up.  FastPacket shows
  that parsing never leaves the frame and commutes with a change of link layer.  PacketQuery shows
  that compiled SQL is built from the allow-listed words and binds exactly one parameter per mark,
  IpNetwork that the two packed bounds select exactly a network.  Payload relates the fast view to a
  Scapy dissection; LiveStreams shows that cut segments reassemble to the stream and that the
  tracker stays bounded.  EvidenceEnvelope gives the exact form of an accepted envelope, its prefix
  freedom, the round trip through files and what a failure leaves.  TlsHello reads back a written
  hello and shows GREASE values have no effect.  SegmentSpool keeps a cached usage equal to the
  table; AnalysisIdentity shows that the identity
  depends on settings only (same_settings), BackendPolicy characterises a decision.  SigmaLanguage
  reads a printed condition back and shows that matching ends.  AuthSafety states, as locales over a relation
  between the states around a call, what every call keeps, and interprets them for the growth of the session
  table and for revocation.  MeshDelivery carries an invariant of both ends (link_ok) along runs (mesh_run) and
  concludes exactly-once delivery and that a flush ends; MeshSafety states controller_invariant, which
  reduces a property of every request to the places where the tables change, and interprets it for receipts,
  tokens, commands, revoked nodes and, in MeshCases, for the imported cases.  CaseBundle and MeshCases show that the
  parts of a case reassemble in any order.  Lemmas on faults of the code: failed_then_acknowledged and
  case_part_replaced (MeshSafety), make_archive_not_imported (MeshCases), keyword_prefix_cut (SigmaLanguage),
  reenable_refused and registration_while_disabled (AuthSafety), drop_choice_lowest (MeshSpool).

  Bounds and fuel.  All recursion is structural or carries a measure, apart from the eight extension
  headers of IPv6, which the code bounds by the same eight, the parser of Sigma conditions, a partial function
  that sigma_matching_ends shows total, and the turns of a flush, which the code does not bound: with one more
  than the envelopes that wait it ends over a working connection (mesh_flush_delivers).  Loops over a pipe
  recurse on its chunks.

  Not modelled.  Text is limited to code points below 256, and case mapping to ASCII letters.  NaN
  time stamps are ordered by their bit pattern.  The isinstance guards on SelectorClause and
  SelectorProgram are discharged by the types.  How the child process behaves (whether it heeds
  a request to terminate, its exit code, broken pipes) is a record the model is given, and terminate, kill and
  wait act on it as documented; the message of an error frame holds its decoded text as UTF-8 bytes; the result of json.loads is an argument; the text form
  of an IPv6 address is a parameter of the packet view, since the supported interpreters differ on
  mapped addresses.  AES-GCM is a pair of parameters with named laws (aead_laws, which
  tagged_laws shows satisfiable), Scapy a record of what the code reads of a dissected packet; the
  decoding of UTF-8 names and the text of floats are parameters the results hold for in general.
  pySigma, YAML and regular expressions, Argon2, the passkey library, Fernet, X.509 certificates and the zip format
  are parameters too, as is what the storage layer does with the rows the controller prepares for it (with the
  addresses it draws from flows).  Exactly-once delivery is stated for envelopes of rows, without commands and without
  rows dropped for space, over a storage layer that accepts them; the faults above are what happens otherwise.
  Live capture threads, the rest of the storage layer, the HTTP and IPC services, the AI assistant, the collection
  and enrolment on the sensor's side, the detectors and the other Scapy parsers are not modelled: they are I/O around
  these parts, or depend on libraries outside the repository.
\<close>

text \<open>C1: A frame written by encode_transport_frame is read back unchanged by read_transport_frame however the pipe splits the bytes into reads, and exactly the bytes after it remain.\<close>

theorem transport_roundtrip:
  assumes "encode_transport_frame k p = Inr bs" and "stream_bytes s = bs @ rest"
  shows "\<exists>s'. read_transport_frame s = Inr ((k, p), s') \<and> stream_bytes s' = rest"
  using assms by (rule frame_roundtrip)

lemma transport_roundtrip_witness:
  "\<exists>s'. read_transport_frame [[87, 84, 48], [49, 1, 48, 0, 0, 0], [1, 7, 9]] = Inr ((48, [7]), s') \<and> stream_bytes s' = [9]"
  by (rule transport_roundtrip [where bs = "[87, 84, 48, 49, 1, 48, 0, 0, 0, 1, 7]"]) code_simp+

text \<open>C2: An analysis plan payload decodes to p exactly when p encodes to that payload and carries the SHA-256 digest of the body; every other payload is an error.\<close>

theorem plan_decode_exact:
  "decode_analysis_plan bs = Inr p \<longleftrightarrow> encode_analysis_plan p = Inr bs \<and> plan_sha256 p = sha256 (drop 33 bs)"
  by (rule decode_analysis_plan_Inr)

text \<open>C3: The validator refines the abstract protocol automaton Awaiting -> Streaming -> Ended: any accepted run of frames from a fresh validator is a run of the automaton from Awaiting.\<close>

theorem validator_simulates_phases:
  "(case bindE (validator_init plan) (\<lambda>v. validator_run v fs) of Inl _ \<Rightarrow> True
    | Inr v' \<Rightarrow> phase_run Awaiting (map fst fs) (phase_of v'))"
proof (cases "bindE (validator_init plan) (\<lambda>v. validator_run v fs)")
  case (Inr v')
  then obtain v where v: "validator_init plan = Inr v" "validator_run v fs = Inr v'" by (auto simp: bindE_Inr)
  then have n: "sv_hello v = None" "sv_end v = None" by (auto simp: validator_init_def bindE_Inr)
  then have "phase_of v = Awaiting" by (simp add: phase_of_def)
  with run_simulates [OF v(2)] n Inr show ?thesis by simp
qed simp

text \<open>C4: When the aggregate replay reports completion, exactly the frame of the encoded plan was written to the child, once; the first frame on the child's output is a hello that matches the plan, and the frames after it up to the end of the stream, each processed once and in order, are what was delivered; the certificate closing them agrees with the work items, candidate rows and bytes, terminal flows and conversations delivered and with the chained digest of every frame kind, and their sequence numbers increase strictly; the child exited with 0 and is no longer running.\<close>

theorem replay_complete_is_certified:
  "(case aggregate_replay_events d mode og ps c proc exit of
      (left, events, Inr (CompleteSummary h e cs tf tc)) \<Rightarrow>
        (\<exists>plan payload pl sent final hp fs m st.
           build_aggregate_analysis_plan d mode og ps True = Inr plan \<and>
           encode_analysis_plan plan = Inr payload \<and> decode_analysis_plan payload = Inr pl \<and>
           encode_transport_frame FRAME_ANALYSIS_PLAN payload = Inr sent \<and>
           left = Some final \<and> proc_stdin (ch_process final) = proc_stdin proc @ sent \<and>
           \<not> proc_running (ch_process final) \<and> ch_closed final \<and> ce_returncode exit = 0 \<and>
           frames_of_stream (proc_stdout proc) = ((FRAME_ANALYSIS_HELLO, hp) # fs, EOFError m) \<and> hello_matches pl hp h \<and>
           replay_loop og (normalized_link_type h) c (replay_init \<lparr>sv_plan = pl, sv_hello = Some h, sv_end = None\<rparr>) fs = (st, Continue) \<and>
           events = rp_events st \<and> tf = rp_flows st \<and> tc = rp_conversations st \<and> certified pl fs st e)
    | _ \<Rightarrow> True)"
  using aggregate_complete [of d mode og ps c proc exit]
  by (auto split: prod.splits sum.splits replay_summary.splits)

text \<open>C5: Encrypting an existing file whose digest is the one given succeeds, for every chunk size and length up to the chunk-count limit, and decrypting with the metadata it returns writes exactly the original bytes.\<close>

theorem envelope_roundtrip:
  assumes "aead_laws seal opn" "1 \<le> ee_chunk_size env" "int (ee_chunk_size env) \<le> MAX_CHUNK_SIZE"
    "length base_nonce = 12" "length generated = 32" "is_ok (snd (case_key env generated creds case_id))"
    "files source = Some content" "files staging = None" "py_lower digest = sha256_hex content"
    "length content \<le> 2 ^ 32 * ee_chunk_size env"
  shows "\<exists>files' creds' m.
    encrypt_file seal env staging base_nonce generated (files, creds) source encrypted case_id digest purpose = ((files', creds'), Inr m) \<and>
    (\<forall>output. output \<noteq> encrypted \<longrightarrow> decrypt_file opn (files', creds') m output = (files'(output := Some content), Inr output))"
proof -
  obtain files' creds' m where e: "encrypt_file seal env staging base_nonce generated (files, creds) source encrypted case_id digest purpose =
      ((files', creds'), Inr m)"
    using encrypt_file_total [OF assms(2,3,6-10)] by blast
  have "decrypt_file opn (files', creds') m out = (files'(out := Some content), Inr out)" if "out \<noteq> encrypted" for out
    using envelope_file_roundtrip [OF assms(1-5) e that] assms(7) by simp
  with e show ?thesis by blast
qed

lemma envelope_roundtrip_witness:
  "\<exists>files' creds' m.
    encrypt_file tagged_seal \<lparr>ee_installation_id = ''node'', ee_chunk_size = 2\<rparr> ''.tmp'' (replicate 12 7) (replicate 32 9)
      (Map.empty(''a.pcap'' \<mapsto> [1, 2, 3]), Map.empty) ''a.pcap'' ''a.enc'' ''case'' (sha256_hex [1, 2, 3]) ''pcap'' = ((files', creds'), Inr m) \<and>
    (\<forall>output. output \<noteq> ''a.enc'' \<longrightarrow>
       decrypt_file tagged_open (files', creds') m output = (files'(output := Some [1, 2, 3]), Inr output))"
  by (rule envelope_roundtrip) (simp_all add: tagged_laws MAX_CHUNK_SIZE_def case_key_def Let_def is_ok_def)

text \<open>C6: Whatever decryption writes has the recorded digest and is the concatenation of chunks each of which is, in the order of its number, sealed under the case key with associated data naming the case, the digest, the purpose, the chunk number and both lengths; nothing else in the file is accepted.\<close>

theorem envelope_integrity:
  assumes "aead_laws seal opn"
  shows "case decrypt_file opn (files, creds) m out of
      (files', Inl _) \<Rightarrow> True
    | (files', Inr p) \<Rightarrow> (\<exists>secret key base_nonce n ps. creds (em_credential_reference m) = Some secret \<and> b64decode secret = Some key \<and>
        b64decode (em_nonce m) = Some base_nonce \<and> chunks_ok n 0 ps \<and>
        files (em_encrypted_path m) = Some (ENVELOPE_MAGIC @ be_bytes 4 (int n) @
          framed seal key base_nonce (\<lambda>i l. envelope_aad (em_case_id m) (em_digest m) (em_purpose m) i l n) 0 ps) \<and>
        files' = files(out := Some (concat ps)) \<and> sha256_hex (concat ps) = em_digest m)"
proof -
  obtain files' r where d: "decrypt_file opn (files, creds) m out = (files', r)" by (cases "decrypt_file opn (files, creds) m out")
  from d show ?thesis
  proof (cases rule: decrypt_file_cases)
    case (Done secret key base_nonce body plaintext)
    from read_envelope_exact [OF assms Done(4,5,8)] Done show ?thesis unfolding d by (simp only: prod.case sum.case) blast
  qed (simp_all add: d)
qed

lemma envelope_integrity_witness:
  "\<exists>(files :: files) creds m files'. decrypt_file tagged_open (files, creds) m ''b.pcap'' = (files', Inr ''b.pcap'') \<and>
    (\<exists>secret key base_nonce n ps. creds (em_credential_reference m) = Some secret \<and> b64decode secret = Some key \<and>
        b64decode (em_nonce m) = Some base_nonce \<and> chunks_ok n 0 ps \<and>
        files (em_encrypted_path m) = Some (ENVELOPE_MAGIC @ be_bytes 4 (int n) @
          framed tagged_seal key base_nonce (\<lambda>i l. envelope_aad (em_case_id m) (em_digest m) (em_purpose m) i l n) 0 ps) \<and>
        files' = files(''b.pcap'' := Some (concat ps)) \<and> sha256_hex (concat ps) = em_digest m)"
proof -
  let ?env = "\<lparr>ee_installation_id = ''node'', ee_chunk_size = 2\<rparr>" and ?files = "Map.empty(''a.pcap'' \<mapsto> [1, 2, 3]) :: files"
  obtain files' creds' m where e: "encrypt_file tagged_seal ?env ''.tmp'' (replicate 12 7) (replicate 32 9) (?files, Map.empty)
      ''a.pcap'' ''a.enc'' ''case'' (sha256_hex [1, 2, 3]) ''pcap'' = ((files', creds'), Inr m)"
    using encrypt_file_total [of ?env "replicate 32 9" Map.empty "''case''" ?files "''a.pcap''" "[1, 2, 3]" "''.tmp''" "sha256_hex [1, 2, 3]"
        tagged_seal "replicate 12 7" "''a.enc''" "''pcap''"]
    by (fastforce simp: MAX_CHUNK_SIZE_def case_key_def Let_def is_ok_def)
  have "decrypt_file tagged_open (files', creds') m ''b.pcap'' = (files'(''b.pcap'' := ?files ''a.pcap''), Inr ''b.pcap'')"
    using envelope_file_roundtrip [OF tagged_laws _ _ _ _ e, of "''b.pcap''"] by (simp add: MAX_CHUNK_SIZE_def)
  with envelope_integrity [OF tagged_laws, where files = files' and creds = creds' and m = m and out = "''b.pcap''"] show ?thesis by fastforce
qed





text \<open>C9: Over any sequence of updates, enrichments, drains and expiries, as long as the tracker has not raised its evidence-lost flag, every packet and every byte it was shown is accounted for: by a conversation it still holds, live or resumable, or by one that expire removed (which raises no flag) because it had been idle since before the cut-off.\<close>

theorem no_packet_lost_silently:
  assumes "\<not> ct_evidence_lost (foldl tracker_step (tracker_init maximum) ops)"
  shows "let t = foldl tracker_step (tracker_init maximum) ops; gone = expired_over (tracker_init maximum) ops in
    held cs_generation t + weigh cs_generation gone = int (length (shown ops)) \<and>
    held conversation_bytes t + weigh conversation_bytes gone = sum_list (map pe_size (shown ops)) \<and>
    list_all (idle_at ops) gone"
  using packets_ledger [OF tracker_init_ok assms] bytes_ledger [OF tracker_init_ok assms] expired_idle
  by (simp add: Let_def held_def tracker_init_def)

lemma no_packet_lost_silently_witness:
  "let e = \<lparr>pe_timestamp = 0x3FF0000000000000, src_ip = ''10.0.0.1'', dst_ip = ''10.0.0.2'', src_port = 4000, dst_port = 443,
       protocol = ''tcp'', pe_size = 60, pe_flags = ''S'', l7_info = [], raw = None, pe_interface = ''eth0'', session_id = None,
       source_type = ''network'', backend = ''rust'', link_type = ''ethernet'', sensor_node_id = None, event_source = None\<rparr>;
     ops = [UpdateOp e, UpdateOp (reverse_event e), ExpireOp 0x4000000000000000, DrainOp 5, UpdateOp (e\<lparr>pe_timestamp := 0x4008000000000000\<rparr>)];
     t = foldl tracker_step (tracker_init 5) ops; gone = expired_over (tracker_init 5) ops
   in held cs_generation t + weigh cs_generation gone = 3 \<and> held conversation_bytes t + weigh conversation_bytes gone = 180 \<and>
     list_all (idle_at ops) gone"
proof -
  have "held cs_generation (foldl tracker_step (tracker_init 5) ops) + weigh cs_generation (expired_over (tracker_init 5) ops) = 3 \<and>
      held conversation_bytes (foldl tracker_step (tracker_init 5) ops) + weigh conversation_bytes (expired_over (tracker_init 5) ops) = 180 \<and>
      list_all (idle_at ops) (expired_over (tracker_init 5) ops)"
    if ops: "length (shown ops) = 3" "sum_list (map pe_size (shown ops)) = 180" for ops
  proof -
    have "\<not> ct_evidence_lost (foldl tracker_step (tracker_init 5) ops)"
      using run_in_room [of "tracker_init 5" ops] by (simp add: tracker_init_def ops)
    from no_packet_lost_silently [OF this] show ?thesis by (simp only: Let_def ops of_nat_numeral simp_thms)
  qed
  then show ?thesis unfolding Let_def by this (simp_all add: reverse_event_def)
qed

text \<open>C10: A plan that was just built passes verification against the same plugin inventory, whatever was requested: both digests recompute and rebuilding gives the very same plan.\<close>

theorem fresh_plan_verifies:
  "(case build_rust_analysis_plan ps ds src link strict req of Inl _ \<Rightarrow> True
    | Inr plan \<Rightarrow> verify_rust_analysis_plan plan ps ds = Inr plan)"
  using verify_built [of ps ds src link strict req] by (simp split: sum.split)

text \<open>C11: After any sequence of updates, enrichments, drains and expiries the tracker is within its bounds, no conversation is both live and evicted, every state is filed under its own key, and its packet counts, handshake counts and endpoints are consistent.\<close>

theorem tracker_invariant: "tracker_ok (foldl tracker_step (tracker_init maximum) ops)"
  by (rule tracker_run_ok [OF tracker_init_ok])

text \<open>C12: Segments cut from one byte stream in any way, overlapping, repeated and in any order of arrival, that together cover it are reassembled to exactly that stream, below the byte limit and the sequence wrap.\<close>

theorem stream_reassembled_exactly:
  assumes "list_all (cut_from S base) segs" "list_all (\<lambda>seg. snd seg \<noteq> []) segs" "length S < limit"
    "\<forall>n. base \<le> n \<and> n < base + int (length S) \<longrightarrow> covers segs n"
  shows "reassemble limit segs = (S, False)"
  using assms by (intro reassemble_complete) auto

lemma stream_reassembled_exactly_witness:
  "reassemble 10 [(102, [3, 4, 5]), (100, [1, 2, 3]), (101, [2, 3])] = ([1, 2, 3, 4, 5], False)"
  by (rule stream_reassembled_exactly [where base = 100]) (simp_all add: cut_from_def covers_def, arith)

text \<open>C13: A packet query that compiles yields a SELECT made of allow-listed characters only (no quote, semicolon, dash or backslash, whatever text the client sent), with exactly one bound parameter per question mark, the selected columns as asked and a fetch limit between 2 and 501; one that does not compile raises PacketQueryError as long as the partition list holds numbers.\<close>

theorem packet_query_sql_safe:
  "case compile_packet_query q of
     Inl e \<Rightarrow> (if list_all is_number (pq_partition_ids q) then is_query_error e else True)
   | Inr c \<Rightarrow> text_ok (length (cq_parameters c)) (cq_sql c) \<and> cq_columns c = pq_select q \<and>
       2 \<le> cq_fetch_limit c \<and> cq_fetch_limit c \<le> 501 \<and> last (cq_parameters c) = PyInt (cq_fetch_limit c)"
  using compile_packet_query_ok [of q] compile_packet_query_error [of q]
  by (cases "compile_packet_query q") (simp_all add: query_safe_def)

text \<open>C14: No call to the operator service opens a session unless it sets the PIN for the first time, gives the right PIN of an account that is not locked, answers an open passkey challenge with a registered key, gives the recovery code, or comes from the administrator with a reason.\<close>

theorem sessions_need_proof:
  "if session_proof env s call then True else length (au_sessions (auth_step env s call)) = length (au_sessions s)"
  by (rule no_session_without_proof)

text \<open>C15: A condition written out with its parentheses and spaces, over known selections with plain names, is tokenised and parsed back to the value its structure has: not binds before and, and before or.\<close>

theorem sigma_condition_read_back:
  assumes "simple_condition values c"
  shows "condition_value values (condition_text c) = Some (Inr (condition_holds (truth values) c))"
  using assms by (rule condition_text_value)

lemma sigma_condition_read_back_witness:
  "condition_value [(''a'', True), (''b_2'', False)] (condition_text (Disjunction (Selection ''a'') (Conjunction (Selection ''b_2'') (Negation (Disjunction (Selection ''a'') (Literal True)))))) =
     Some (Inr (condition_holds (truth [(''a'', True), (''b_2'', False)])
       (Disjunction (Selection ''a'') (Conjunction (Selection ''b_2'') (Negation (Disjunction (Selection ''a'') (Literal True)))))))"
  by (rule sigma_condition_read_back) code_simp

text \<open>C16: A frame sequence is accepted and certified by the validator exactly when it is one matching hello, then data frames, then one matching certificate as the last frame, and the child exits with code 0.\<close>

theorem validator_accepts_complete_sessions:
  "(case validator_init plan of Inl _ \<Rightarrow> True | Inr v \<Rightarrow>
    (\<exists>v'. validator_run v fs = Inr v' \<and> validator_finish v' code = Inr e) \<longleftrightarrow>
      code = 0 \<and> (\<exists>hp h ds ep. fs = (FRAME_ANALYSIS_HELLO, hp) # ds @ [(FRAME_ANALYSIS_END, ep)] \<and>
        list_all (\<lambda>f. fst f \<in> set data_kinds) ds \<and> hello_matches (sv_plan v) hp h \<and> end_matches (sv_plan v) ep e))"
proof (cases "validator_init plan")
  case (Inr v)
  then have "sv_hello v = None" "sv_end v = None" by (auto simp: validator_init_def bindE_Inr)
  from run_complete [OF this] Inr show ?thesis by simp
qed simp

text \<open>C17: The fingerprint parser never raises, and from a well-formed ClientHello, whatever follows it in the payload, it reads the version, the ciphers and the extensions that were written, GREASE values left out.\<close>

theorem client_hello_read_back:
  "is_ok (client_hello_fingerprint decode r) \<and>
   (if hello_ok h
    then client_hello_scan decode (hello_bytes h @ trailing) =
      Inr (Some (ch_version h, without_grease (ch_ciphers h), foldl (ext_step decode) hello_scan_init (ch_extensions h)))
    else True)"
  using fingerprint_total hello_scan_written by simp


text \<open>C19: The parts into which a sensor cuts a case archive, each at least once, in any order and the last of them last, make the controller import exactly that archive under the command's case, provided its zip content extracts and holds the one manifest that was announced.\<close>

theorem exported_case_arrives:
  assumes "command_id_ok command_id" "is_hex_digest manifest" "length archive \<le> MAX_CASE_BUNDLE_BYTES"
    "key = (node, case_name_of command_id archive)" "cf_imports f key = NO_TRANSFER" "cf_cases f key = None"
    "set front = {..<length (case_chunks archive)} - {k}" "k < length (case_chunks archive)"
    "extract_case_archive env archive = Inr tree" "manifests_of tree = [Some content]" "sha256_hex content = manifest" "me_loads env content = Some v"
    "receive_case_part env True node (case_payload command_id title manifest archive k)
      (foldl (\<lambda>f i. fst (receive_case_part env True node (case_payload command_id title manifest archive i) f)) f front) = (f', res)"
  shows "res = Inr True \<and> cf_cases f' = (cf_cases f)(key \<mapsto> tree) \<and> cf_imports f' = cf_imports f"
  using exported_case_imported [OF assms] by blast

lemma exported_case_arrives_witness:
  "\<exists>env f'. receive_case_part env True ''n1'' (case_payload ''c-1'' ''case'' (sha256_hex [123, 125]) [80, 75] 0) no_case_files = (f', Inr True) \<and>
     cf_cases f' (''n1'', case_name_of ''c-1'' [80, 75]) = Some [([''case''], None), ([''case'', ''manifest.json''], Some [123, 125])]"
proof -
  define env where "env = \<lparr>me_float_text = (\<lambda>_. []), me_float_of_text = (\<lambda>_. None), me_str = (\<lambda>_. []), me_loads = (\<lambda>_. Some (PyDict [])),
    ca_zip = (\<lambda>_. Some \<lparr>za_entries = [(''case/manifest.json'', 2, [123, 125])], za_damaged = False\<rparr>)\<rparr>"
  have c: "command_id_ok ''c-1''" by code_simp
  have tree: "extract_case_archive env [80, 75] = Inr [([''case''], None), ([''case'', ''manifest.json''], Some [123, 125])]"
    by (simp add: env_def extract_case_archive_def extract_entry_def unsafe_name_def path_parts_def write_file_def BUNDLE_FILES_def BUNDLE_EXPANDED_BYTES_def)
  have chunks: "case_chunks [80, 75] = [[80, 75]]"
    by (simp add: case_chunks_def chunks_of_simps CASE_CHUNK_BYTES_def)
  obtain f' res where run: "receive_case_part env True ''n1'' (case_payload ''c-1'' ''case'' (sha256_hex [123, 125]) [80, 75] 0)
      (foldl (\<lambda>f i. fst (receive_case_part env True ''n1'' (case_payload ''c-1'' ''case'' (sha256_hex [123, 125]) [80, 75] i) f)) no_case_files []) = (f', res)"
    by fastforce
  have "res = Inr True \<and> cf_cases f' = (cf_cases no_case_files)((''n1'', case_name_of ''c-1'' [80, 75]) \<mapsto>
      [([''case''], None), ([''case'', ''manifest.json''], Some [123, 125])]) \<and> cf_imports f' = cf_imports no_case_files"
    by (rule exported_case_arrives [OF c sha256_hex_digest _ refl _ _ _ _ tree _ refl _ run])
      (simp_all add: MAX_CASE_BUNDLE_BYTES_def no_case_files_def chunks manifests_of_def env_def lessThan_Suc)
  with run show ?thesis by (intro exI [of _ env] exI [of _ f']) simp
qed



text \<open>C21: The bytes a CIDR filter binds select exactly the addresses that agree with the given address on the prefix, for both address families and every way the network can be written.\<close>

theorem cidr_filter_exact:
  assumes "compile_cidr f (PyStr s) = Inr (sql, params)"
  shows "\<exists>v w a p lo hi. ip_network s = Some (network_of v w a p) \<and> p \<le> w \<and> (v = 4 \<and> w = 32 \<or> v = 6 \<and> w = 128) \<and>
    params = [PyInt v, PyBytes lo, PyBytes hi] \<and>
    (\<forall>x < 2 ^ w. lo \<le> be_bytes (w div 8) (int x) \<and> be_bytes (w div 8) (int x) \<le> hi \<longleftrightarrow> x div 2 ^ (w - p) = a div 2 ^ (w - p))"
  using assms by (rule compile_cidr_exact)

lemma cidr_filter_exact_witness:
  "\<exists>v w a p lo hi. ip_network ''0.0.0.5/30'' = Some (network_of v w a p) \<and> p \<le> w \<and> (v = 4 \<and> w = 32 \<or> v = 6 \<and> w = 128) \<and>
    [PyInt 4, PyBytes [0, 0, 0, 4], PyBytes [0, 0, 0, 7]] = [PyInt v, PyBytes lo, PyBytes hi] \<and>
    (\<forall>x < 2 ^ w. lo \<le> be_bytes (w div 8) (int x) \<and> be_bytes (w div 8) (int x) \<le> hi \<longleftrightarrow> x div 2 ^ (w - p) = a div 2 ^ (w - p))"
  by (rule cidr_filter_exact [of "''src_ip''" _ "''(src_ip_version = ? AND src_ip_packed BETWEEN ? AND ?)''"]) code_simp

text \<open>C22: After any sequence of packets and expiries the limits of the live stream tracker are those it was created with; every direction of every stream holds at most the maximum number of segments, each under its own sequence number and no longer than the byte limit, hence at most the product of the two in bytes; and, while every event names a known direction, the number of streams is within its maximum.\<close>

theorem stream_tracker_bounded:
  "let t0 = stream_tracker_init streams nbytes segments interval; t = foldl stream_step t0 ops in
     streams_ok t \<and> same_limits t0 t \<and>
     list_all (\<lambda>(k, s). stream_within (lt_maximum_segments t0) (lt_maximum_bytes t0) s) (lt_states t) \<and>
     (if list_all op_known ops then length (lt_states t) \<le> lt_maximum_streams t0 else True)"
  using stream_run_ok [OF stream_tracker_init_ok(1)] stream_run_bounded [OF stream_tracker_init_ok(1)]
    stream_run_limits [OF stream_tracker_init_ok(1)] stream_run_within [OF stream_tracker_init_ok(1)]
  by (simp add: stream_tracker_init_ok(2) Let_def same_limits_def)

text \<open>C23: After any sequence of appends to an empty spool every flow and direction holds at most the allowed segments and bytes, the cached usage equals what the table holds, no segment is stored twice, and an append to one flow changes nothing a load of another flow returns.\<close>

theorem spool_within_limits:
  "let s = foldl spool_step (spool_init max_bytes max_segments []) ops in
     spool_ok s \<and> within_limits s k \<and>
     (if other = flow then True
      else spool_load (fst (spool_append s flow way sequence payload stamp)) other = spool_load s other)"
proof -
  let ?s = "foldl spool_step (spool_init max_bytes max_segments []) ops"
  have i: "spool_ok (spool_init max_bytes max_segments [])" by (rule spool_init_ok) simp
  from spool_run_ok [OF i, of ops k] empty_within have "spool_ok ?s" "within_limits ?s k" by blast+
  with spool_append_other [of ?s other flow] show ?thesis by (simp add: Let_def)
qed

text \<open>C24: A built plan with fewer than 64 programs, no boolean clause value and encodable provenance becomes a wire plan that passes the wire validation: every program the planner admits is one the encoder can write.\<close>

theorem aggregate_plan_encodable:
  assumes "build_rust_analysis_plan ps ds src link strict req = Inr plan"
    and "list_all (\<lambda>p. list_all no_bools (sp_clauses (cp_program p))) (rp_selector_programs plan)"
    and "length (rp_selector_programs plan) < 64" and "mode \<in> {''memory'', ''streaming''}"
    and "is_ok (encode_ascii8 (or_text (og_source og) ''pcap'') 255 ''source'')"
      "is_ok (encode_ascii8 (or_text (og_session_id og) ''rust-analysis'') 255 ''session ID'')"
      "is_ok (encode_ascii8 (or_text (og_device_id og) ''pcap'') 64 ''interface'')"
      "is_ok (encode_ascii8 (or_text (og_sensor_node_id og) ''local'') 128 ''sensor node ID'')"
  shows "\<exists>wire. build_aggregate_analysis_plan (rp_semantic_plugin_digest plan) mode og
      (map wire_program (rp_selector_programs plan)) True = Inr wire \<and> validate_plan wire = Inr ()"
  using assms by (rule aggregate_plan_sendable)

lemma aggregate_plan_encodable_witness:
  "\<exists>plan wire. build_rust_analysis_plan [] [] ''network'' ''ethernet'' False None = Inr plan \<and>
     build_aggregate_analysis_plan (rp_semantic_plugin_digest plan) ''memory''
       \<lparr>og_device_id = None, og_session_id = Some ''s1'', og_source_type = None, og_sensor_node_id = Some ''n1'', og_source = None\<rparr>
       (map wire_program (rp_selector_programs plan)) True = Inr wire \<and> validate_plan wire = Inr ()"
proof -
  obtain plan where p: "build_rust_analysis_plan [] [] ''network'' ''ethernet'' False None = Inr plan"
    "rp_selector_programs plan = []" using empty_inventory_builds by blast
  have "\<exists>wire. build_aggregate_analysis_plan (rp_semantic_plugin_digest plan) ''memory''
       \<lparr>og_device_id = None, og_session_id = Some ''s1'', og_source_type = None, og_sensor_node_id = Some ''n1'', og_source = None\<rparr>
       (map wire_program (rp_selector_programs plan)) True = Inr wire \<and> validate_plan wire = Inr ()"
    by (rule aggregate_plan_encodable [OF p(1)]) (simp add: p(2), simp add: p(2), simp, simp only: packet_origin.simps, code_simp,
        simp only: packet_origin.simps, code_simp, simp only: packet_origin.simps, code_simp, simp only: packet_origin.simps, code_simp)
  with p(1) show ?thesis by blast
qed

text \<open>C25: Wrapping an IP packet in Ethernet, with any stack of VLAN tags, changes none of the fields of layers 3 and 4 against the same packet captured as raw IP.\<close>

theorem link_layer_irrelevant:
  assumes "length macs = 12" and "list_all vlan_tag tags"
    and "body \<noteq> []" "uint (hd body) div 16 \<in> {4, 6}"
    and "length ethertype = 2" "be_int ethertype = ip_ethertype body"
    and "link_type e1 = ''ethernet''" "raw e1 = Some (ethernet_frame macs tags ethertype body)"
    and "link_type e2 = ''raw-ip''" "raw e2 = Some body"
    and "pe_timestamp e1 = pe_timestamp e2" "src_ip e1 = src_ip e2" "dst_ip e1 = dst_ip e2" "src_port e1 = src_port e2"
      "dst_port e1 = dst_port e2" "protocol e1 = protocol e2"
  shows "\<exists>p q. fast_packet_init f e1 = Inr p \<and> fast_packet_init f e2 = Inr q \<and> same_upper_layers p q"
  using assms by (rule link_independent)

lemma link_layer_irrelevant_witness:
  "let e = \<lparr>pe_timestamp = 0, src_ip = [], dst_ip = [], src_port = 0, dst_port = 0, protocol = ''UDP'', pe_size = 0,
       pe_flags = [], l7_info = [], raw = None, pe_interface = [], session_id = None, source_type = [], backend = [],
       link_type = ''raw-ip'', sensor_node_id = None, event_source = None\<rparr>;
     body = [0x45, 0, 0, 29, 0, 0, 0, 0, 64, 17, 0, 0, 10, 0, 0, 1, 10, 0, 0, 2, 0, 53, 0, 80, 0, 9, 0, 0, 7]
   in \<exists>p q. fast_packet_init (\<lambda>_. [])
        (e\<lparr>link_type := ''ethernet'', raw := Some (ethernet_frame (replicate 12 1) [([0x81, 0], [0, 5])] [8, 0] body)\<rparr>) = Inr p \<and>
      fast_packet_init (\<lambda>_. []) (e\<lparr>raw := Some body\<rparr>) = Inr q \<and> same_upper_layers p q"
  unfolding Let_def by (rule link_layer_irrelevant) (simp_all add: vlan_tag_def VLAN_TYPES_def be_int_def ip_ethertype_def)

text \<open>C26: No frame, however short or malformed, makes the fast packet parser raise; the ports and sequence number it reports are in range, the payload is a slice of the frame, and layer 4 is only reported under an IP layer.\<close>

theorem frame_parser_total:
  "\<exists>p. fast_packet_init ipv6_text e = Inr p \<and> layers_ok p \<and> fp_raw p = (case raw e of Some bs \<Rightarrow> bs | None \<Rightarrow> [])"
  using fast_packet_total [of ipv6_text e] by (simp add: fast_packet_fields_def Let_def)

text \<open>C27: No accepted envelope is a proper beginning of another under the same key and metadata: an envelope that was cut short, even between two chunks, or that has bytes added is refused.\<close>

theorem cut_envelope_refused:
  assumes "aead_laws seal opn" "length key = 32" "length base_nonce = 12"
  shows "\<not> (is_ok (read_envelope opn key base_nonce m content) \<and> is_ok (read_envelope opn key base_nonce m (content @ b # rest)))"
  using read_envelope_prefix_free [OF assms, of m content] by (auto simp: is_ok_iff)

lemma cut_envelope_refused_witness:
  "\<not> (is_ok (read_envelope tagged_open (replicate 32 1) (replicate 12 2) \<lparr>em_case_id = ''c'', em_digest = ''d'', em_purpose = ''p'', em_credential_reference = ''r'', em_nonce = ''n'', em_encrypted_path = ''e'', em_format_version = ENCRYPTION_FORMAT\<rparr> []) \<and>
      is_ok (read_envelope tagged_open (replicate 32 1) (replicate 12 2) \<lparr>em_case_id = ''c'', em_digest = ''d'', em_purpose = ''p'', em_credential_reference = ''r'', em_nonce = ''n'', em_encrypted_path = ''e'', em_format_version = ENCRYPTION_FORMAT\<rparr> ([] @ 0 # [])))"
  by (rule cut_envelope_refused [OF tagged_laws]) simp_all

text \<open>C28: A failing encryption under a fresh staging name changes no file and a successful one only writes the envelope; decryption touches only its output, which after a failure is as it was or gone, never partly written.\<close>

theorem evidence_files_safe:
  "(if files staging = None
    then (case encrypt_file seal env staging base_nonce generated (files, creds) source encrypted case_id digest purpose of
        ((files', _), Inl _) \<Rightarrow> files' = files
      | ((files', _), Inr m) \<Rightarrow> (\<exists>body. files' = files(encrypted := Some body)))
    else True) \<and>
   (case decrypt_file opn (files, creds) m output of
      (files', Inl _) \<Rightarrow> files' = files \<or> files' = files(output := None)
    | (files', Inr p) \<Rightarrow> p = output \<and> (\<exists>plaintext. files' = files(output := Some plaintext) \<and> sha256_hex plaintext = em_digest m))"
proof (rule conjI)
  show "if files staging = None
    then (case encrypt_file seal env staging base_nonce generated (files, creds) source encrypted case_id digest purpose of
        ((files', _), Inl _) \<Rightarrow> files' = files
      | ((files', _), Inr m) \<Rightarrow> (\<exists>body. files' = files(encrypted := Some body)))
    else True"
    using encrypt_file_effect [of seal env staging base_nonce generated files creds source encrypted case_id digest purpose]
    by (cases "encrypt_file seal env staging base_nonce generated (files, creds) source encrypted case_id digest purpose")
      (fastforce split: sum.splits)
  obtain files' r where d: "decrypt_file opn (files, creds) m output = (files', r)" by (cases "decrypt_file opn (files, creds) m output")
  from d show "case decrypt_file opn (files, creds) m output of
      (files', Inl _) \<Rightarrow> files' = files \<or> files' = files(output := None)
    | (files', Inr p) \<Rightarrow> p = output \<and> (\<exists>plaintext. files' = files(output := Some plaintext) \<and> sha256_hex plaintext = em_digest m)"
    by (cases rule: decrypt_file_cases) (auto simp: d)
qed

text \<open>C29: The selector programs of a built plan carry the ids 0, 1, 2, ... below 64, no program twice, and each is valid and in normal form.\<close>

theorem plan_programs_dense:
  "(case build_rust_analysis_plan ps ds src link strict req of Inl _ \<Rightarrow> True
    | Inr plan \<Rightarrow> map cp_program_id (rp_selector_programs plan) = [0..<length (rp_selector_programs plan)] \<and>
        length (rp_selector_programs plan) \<le> 64 \<and> distinct (map cp_program (rp_selector_programs plan)) \<and>
        list_all (\<lambda>p. program_normal (cp_program p)) (rp_selector_programs plan))"
  using build_programs [of ps ds src link strict req] by (simp split: sum.split)

text \<open>C30: Decoding a selector clause succeeds exactly on the encoding of the clause it returns, with the reader left right after it: no second encoding of a clause is accepted and none is lost.\<close>

theorem clause_codec_exact:
  "decode_selector_clause (rd_at pre s) = Inr (x, r') \<longleftrightarrow>
     (\<exists>bs rest. encode_selector_clause x = Inr bs \<and> s = bs @ rest \<and> r' = rd_at (pre @ bs) rest)"
  by (rule clause_codec.dec_iff)

text \<open>C31: The delta an update emits at any point of a run carries the key and endpoints of its packet, a positive generation equal to the packets counted in both directions, at most one handshake increment, and marks the conversation established exactly when a SYN-ACK was seen.\<close>

theorem delta_consistent:
  "let (t', metadata, d) = update_with_delta (foldl tracker_step (tracker_init maximum) ops) e in
     cd_key d = conversation_key_of e \<and> 1 \<le> cd_generation d \<and>
     cd_generation d = cd_to_responder_packets d + cd_to_initiator_packets d \<and>
     cd_syn_delta d + cd_syn_ack_delta d \<le> 1 \<and> cd_syn_delta d \<le> cd_syn_count d \<and>
     (cd_established d \<longleftrightarrow> 0 < cd_syn_ack_count d) \<and>
     {cd_initiator d, cd_responder d} = {event_source_endpoint e, event_destination_endpoint e}"
  using event_delta_consistent [OF tracker_run_ok [OF tracker_init_ok], of maximum ops e]
  by (cases "update_with_delta (foldl tracker_step (tracker_init maximum) ops) e") simp

text \<open>C32: Starting the analysis child either returns a hello that matches the plan, or raises; when the child had its pipes, a failed start leaves it closed and its process ended: one still running is asked to terminate and waited for, and is killed and waited for exactly when it did not end within the timeout; a child without pipes is left as it was.\<close>

theorem child_start_safe:
  "(case child_init proc plan of Inl _ \<Rightarrow> True
    | Inr c \<Rightarrow> (let c' = fst (child_start c) in child_ok c' \<and>
       (case snd (child_start c) of
          Inl e \<Rightarrow> if proc_has_pipes proc
            then ch_closed c' \<and> \<not> proc_running (ch_process c') \<and>
              proc_signals (ch_process c') = proc_signals proc @ (if \<not> proc_running proc then []
                else if proc_heeds_terminate proc then [Terminate, Wait] else [Terminate, Wait, Kill, Wait])
            else c' = c
        | Inr h \<Rightarrow> \<exists>p hl. h = Some hl \<and> hello_matches (ch_plan c) p hl)))"
proof (cases "child_init proc plan")
  case (Inr c)
  from child_init_ok [OF Inr] have c: "child_ok c" "\<not> ch_closed c" "\<not> ch_started c" by blast+
  have p: "ch_process c = proc" using Inr by (auto simp: child_init_def bindE_Inr)
  show ?thesis using child_start_ok [OF c(1)] c(2,3) p
    by (cases "snd (child_start c)") (auto simp: Inr Let_def ended_def close_signals_def child_start_def)
qed simp

text \<open>C33: An event enriched with the metadata the conversation tracker returns, as the flow worker does, never makes the stream tracker raise, whatever layer-7 names it carried before.\<close>

theorem enriched_events_are_tracked:
  "case update_with_delta ct e of (ct', metadata, delta) \<Rightarrow>
     is_ok (snd (stream_update (foldl stream_step (stream_tracker_init streams nbytes segments interval) ops) packet
       (e\<lparr>l7_info := dict_update (l7_info e) metadata\<rparr>)))"
proof -
  obtain ct' metadata delta where u: "update_with_delta ct e = (ct', metadata, delta)" by (cases "update_with_delta ct e")
  have "direction_known (e\<lparr>l7_info := dict_update (l7_info e) metadata\<rparr>)"
    using update_direction_metadata [OF u] by (simp add: direction_known_def)
  with stream_update_ok [OF stream_run_ok [OF stream_tracker_init_ok(1)] prod.collapse [symmetric]] show ?thesis
    unfolding u by simp
qed

text \<open>C34: Two ClientHello messages with the same version and the same ciphers and extensions up to GREASE values have the same JA3 and JA4 fingerprint and library, whatever their random bytes, session ids and compression methods.\<close>

theorem grease_leaves_no_trace:
  assumes "hello_ok g" "hello_ok h" "ch_version g = ch_version h" "without_grease (ch_ciphers g) = without_grease (ch_ciphers h)"
    "without_grease_exts (ch_extensions g) = without_grease_exts (ch_extensions h)"
  shows "client_hello_fingerprint decode (hello_bytes g @ x) = client_hello_fingerprint decode (hello_bytes h @ y)"
  using assms by (rule grease_invisible)

lemma grease_leaves_no_trace_witness:
  "client_hello_fingerprint (\<lambda>_. []) (hello_bytes \<lparr>ch_record_version = [3, 1], ch_version = 771, ch_random = replicate 32 0, ch_session = [1],
       ch_ciphers = [0x1A1A, 4865], ch_compression = [0], ch_extensions = [(0x2A2A, []), (23, [])]\<rparr> @ [9]) =
   client_hello_fingerprint (\<lambda>_. []) (hello_bytes \<lparr>ch_record_version = [3, 3], ch_version = 771, ch_random = replicate 32 5, ch_session = [],
       ch_ciphers = [4865], ch_compression = [0], ch_extensions = [(23, [])]\<rparr> @ [])"
  by (rule grease_leaves_no_trace)
    (simp_all add: hello_ok_def hello_body_def u16_ok_def extension_bytes_def without_grease_def without_grease_exts_def is_grease_def)

text \<open>C35: Updating a flow keeps its memory bounds: at most 500 sizes and times, 100 raw packets and 120 timeline buckets, even when the update raises.\<close>

theorem flow_update_keeps_bounds:
  assumes "flow_bounded fa"
  shows "flow_bounded (fst (flow_update fa nbytes timestamp flags info raw_bytes))"
  using assms by (rule flow_update_bounded_lemma)

lemma flow_update_keeps_bounds_witness:
  "flow_bounded (fst (flow_update (flow_aggregate_init 0 0) 60 0 None None None))"
  by (rule flow_update_keeps_bounds [OF flow_bounded_init])

text \<open>C36: Two configurations that hold the same settings once the runtime-only keys are dropped at every level, with the entries of every mapping at every level in whatever order, tuples or lists, and whole floats or integers, and two spellings of one capture digest give the same case and analysis identity.\<close>

theorem analysis_identity_stable:
  assumes "build_analysis_identity float_repr p (Some d) version = Inr a" "pyval_ok (PyDict d)"
    "same_settings (drop_runtime (PyDict d)) (drop_runtime (PyDict d'))" "normal_name p' = normal_name p"
  shows "build_analysis_identity float_repr p' (Some d') version = Inr a"
  using assms by (rule identity_stable)

lemma analysis_identity_stable_witness:
  "\<exists>a. build_analysis_identity (\<lambda>_. []) (replicate 64 (CHR ''a'')) (Some [(''n'', PyDict [(''x'', PyInt 1), (''y'', PyNone)])]) PIPELINE_VERSION = Inr a \<and>
     build_analysis_identity (\<lambda>_. []) (replicate 64 (CHR ''A''))
       (Some [(''mode'', PyInt 3), (''n'', PyDict [(''y'', PyNone), (''mode'', PyInt 7), (''x'', PyInt 1)])]) PIPELINE_VERSION = Inr a"
proof -
  let ?d = "[(''n'', PyDict [(''x'', PyInt 1), (''y'', PyNone)])]"
    and ?d' = "[(''mode'', PyInt 3), (''n'', PyDict [(''y'', PyNone), (''mode'', PyInt 7), (''x'', PyInt 1)])]"
  have "is_ok (build_analysis_identity (\<lambda>_. []) (replicate 64 (CHR ''a'')) (Some ?d) PIPELINE_VERSION)"
    by (simp add: build_analysis_identity_def configuration_hash_def canonical_configuration_json_def normalized_scalar_def
        normal_name_def py_lower_def py_strip_def lower_char_def is_space_char_def RUNTIME_ONLY_CONFIGURATION_KEYS_def Let_def
        replicate_append_same numeral_eq_Suc)
  then obtain a where a: "build_analysis_identity (\<lambda>_. []) (replicate 64 (CHR ''a'')) (Some ?d) PIPELINE_VERSION = Inr a"
    by (auto simp: is_ok_iff)
  have n: "normal_name (replicate 64 (CHR ''A'')) = normal_name (replicate 64 (CHR ''a''))" by code_simp
  have r: "drop_runtime (PyDict ?d) = PyDict ?d" "drop_runtime (PyDict ?d') = PyDict [(''n'', PyDict [(''y'', PyNone), (''x'', PyInt 1)])]"
    by code_simp+
  have "same_settings (PyDict [(''x'', PyInt 1), (''y'', PyNone)]) (PyDict [(''y'', PyNone), (''x'', PyInt 1)])"
    by (rule same_settings.Entries [where e = "[(''x'', PyInt 1), (''y'', PyNone)]"]) (simp_all add: same_settings.Scalar)
  then have "same_settings (drop_runtime (PyDict ?d)) (drop_runtime (PyDict ?d'))" unfolding r
    by (intro same_settings.Entries [where e = "[(''n'', PyDict [(''y'', PyNone), (''x'', PyInt 1)])]"]) simp_all
  from analysis_identity_stable [OF a _ this n] a show ?thesis by auto
qed

text \<open>C37: A capture runs only on a backend its source supports and never on a Rust sensor known to be missing; a replay likewise; and an explicit or operator request is either the backend taken or refused, never silently replaced.\<close>

theorem backend_choice_honoured:
  "(case capture_backend environment source requested source_backends runtime of
      Inl e \<Rightarrow> is_policy_error e
    | Inr b \<Rightarrow> b \<in> set (supported_backends (normal_name (str_or source ''network'')) source_backends) \<and>
        \<not> (b = ''rust'' \<and> rust_missing runtime) \<and>
        (case effective_request environment requested of Some r \<Rightarrow> b = normal_name r | None \<Rightarrow> True)) \<and>
   (case replay_backend environment requested runtime of
      Inl e \<Rightarrow> is_policy_error e
    | Inr b \<Rightarrow> b \<in> set SUPPORTED_BACKENDS \<and> \<not> (b = ''rust'' \<and> rust_missing runtime) \<and>
        (case effective_request environment requested of Some r \<Rightarrow> b = normal_name r | None \<Rightarrow> True))"
  using capture_backend_sound [of environment source requested source_backends runtime] capture_error [of environment source requested source_backends runtime]
    replay_backend_sound [of environment requested runtime] replay_error [of environment requested runtime]
  by (cases "capture_backend environment source requested source_backends runtime"; cases "replay_backend environment requested runtime")
    (simp_all only: sum.case simp_thms)

text \<open>C38: For every parsed packet and every layer name, the layer is in the packet exactly when subscripting the packet by it does not raise.\<close>

theorem layer_membership_matches_lookup:
  "(case fast_packet_init ipv6_text e of Inl _ \<Rightarrow> False
    | Inr p \<Rightarrow> fp_contains p name = is_ok (fp_getitem p name) \<and> (fp_getlayer p name = None \<longleftrightarrow> \<not> fp_contains p name))"
proof -
  obtain p where p: "fast_packet_init ipv6_text e = Inr p" "layers_ok p" using fast_packet_total by blast
  then show ?thesis using contains_getitem [OF p(2), of name] by (simp add: fp_getlayer_def split: sum.split)
qed

text \<open>C39: A plan with the full 64 programs that the planner accepts has no id left for the stream-preservation program, so preparing it for the wire raises.\<close>

theorem full_plan_cannot_preserve_streams:
  assumes "map cp_program_id progs = [0..<length progs]" and "length progs = 64"
    and "bytes_fromhex digest = Some b" "length b = 32"
  shows "build_aggregate_analysis_plan digest mode og (map wire_program progs) True =
    Inl (ValueError ''aggregate selector plan has no slot for TCP stream preservation'')"
  using assms by (rule full_plan_has_no_slot)

lemma full_plan_cannot_preserve_streams_witness:
  "build_aggregate_analysis_plan (bytes_hex (replicate 32 0)) ''memory''
     \<lparr>og_device_id = None, og_session_id = None, og_source_type = None, og_sensor_node_id = None, og_source = None\<rparr>
     (map wire_program (map (\<lambda>i. \<lparr>cp_program_id = i, cp_program = NDP_PROGRAM\<rparr>) [0..<64])) True =
    Inl (ValueError ''aggregate selector plan has no slot for TCP stream preservation'')"
  by (rule full_plan_cannot_preserve_streams [OF _ _ bytes_fromhex_hex]) (simp_all add: comp_def)

text \<open>C40: A tail of fewer than ten bytes after whole frames is taken for the normal end of the stream: the frames before it are delivered and the read reports the same EOFError as a clean close.\<close>

theorem truncated_tail_is_end_of_stream:
  assumes "stream_bytes s = concat bss @ tail" and "mapE (\<lambda>(k, p). encode_transport_frame k p) fs = Inr bss" and "length tail < 10"
  shows "frames_of_stream s = (fs, EOFError ''Rust analysis child closed a truncated frame'')"
  using assms by (rule frames_of_stream_frames)

lemma truncated_tail_witness:
  "frames_of_stream [[87, 84, 48, 49, 1, 48, 0, 0, 0, 1, 7], [87, 84]] = ([(48, [7])], EOFError ''Rust analysis child closed a truncated frame'')"
  by (rule truncated_tail_is_end_of_stream [where bss = "[[87, 84, 48, 49, 1, 48, 0, 0, 0, 1, 7]]" and tail = "[87, 84]"]) code_simp+

section \<open>Further results\<close>

text \<open>Smaller facts that span components, kept beside the properties above.\<close>

text \<open>The same exactness for whole selector programs: id, candidate mode and counted clauses.\<close>

theorem program_codec_exact:
  "decode_selector_program (rd_at pre s) = Inr (x, r') \<longleftrightarrow>
     (\<exists>bs rest. encode_selector_program x = Inr bs \<and> s = bs @ rest \<and> r' = rd_at (pre @ bs) rest)"
  by (rule program_codec.dec_iff)

text \<open>A hello payload decodes to h exactly when h encodes to it.\<close>

theorem hello_decode_exact: "decode_analysis_hello bs = Inr h \<longleftrightarrow> encode_analysis_hello h = Inr bs"
  by (rule decode_analysis_hello_Inr)

text \<open>A certificate the encoder writes is decoded to itself; and every certificate the decoder accepts can be written, with the same length, and with the same bytes when both timestamps are present.\<close>

theorem certificate_reencodes:
  "(case encode_analysis_end c of Inl _ \<Rightarrow> True | Inr b \<Rightarrow> decode_analysis_end b = Inr c) \<and>
   (case decode_analysis_end b of Inl _ \<Rightarrow> True
    | Inr e \<Rightarrow> (\<exists>b'. encode_analysis_end e = Inr b' \<and> length b' = length b \<and> decode_analysis_end b' = Inr e \<and>
        (case (first_decoded_timestamp e, last_decoded_timestamp e) of (Some _, Some _) \<Rightarrow> b' = b | _ \<Rightarrow> True)))"
proof (rule conjI)
  show "case encode_analysis_end c of Inl _ \<Rightarrow> True | Inr b \<Rightarrow> decode_analysis_end b = Inr c"
    using end_roundtrip_lemma by (auto split: sum.split)
qed (use decoded_end_encodable [of b] end_roundtrip_lemma in \<open>fastforce split: sum.splits option.splits\<close>)

text \<open>Whatever work frames follow, well-formed or not, an id that an earlier frame defined keeps the definition it has, and the tables stay well-formed.\<close>

theorem decoder_definitions_stable:
  "decoder_extends (decode_work_run data_decoder_init ps) (decode_work_run data_decoder_init (ps @ qs)) \<and>
   decoder_inv (decode_work_run data_decoder_init (ps @ qs))"
  using decode_work_run_grows [of "decode_work_run data_decoder_init ps" qs] decode_work_run_grows [of data_decoder_init "ps @ qs"] decoder_inv_init
  by (simp add: grows_def decode_work_run_append)

text \<open>Every work item a frame yields refers to a defined flow and conversation, has a positive ordinal, finite timestamps, a known direction and candidate mode, and raw bytes exactly when it is a candidate.\<close>

theorem work_items_resolved:
  "(case decode_work d payload of (d', Inl e) \<Rightarrow> True | (d', Inr batch) \<Rightarrow> list_all (work_item_ok d') (work_items batch))"
  using decode_work_items_ok [of d payload] by (auto simp: list_all_iff split: prod.splits sum.splits)

text \<open>Terminal flow and conversation records refer to definitions of the session, with finite timestamps and at most 500 samples per flow.\<close>

theorem terminal_records_resolved:
  "(case decode_flows d payload of Inl e \<Rightarrow> True | Inr batch \<Rightarrow> list_all (terminal_flow_ok d) (flow_records batch)) \<and>
   (case decode_conversations d payload of Inl e \<Rightarrow> True | Inr batch \<Rightarrow> list_all (terminal_conversation_ok d) (conversation_records batch))"
  using decode_flows_ok [of d payload] decode_conversations_ok [of d payload] by (auto simp: list_all_iff split: sum.splits)

text \<open>A packet-index batch that decodes has at most 4096 rows, each satisfying the row rules, and the cheap validator used by the aggregate replay accepts it with the same row count.\<close>

theorem index_batch_checked:
  "(case decode_packet_index_batch payload of Inl _ \<Rightarrow> True
    | Inr rows \<Rightarrow> length rows \<le> 4096 \<and> list_all index_row_ok rows \<and>
        validate_packet_index_batch payload = Inr (int (length rows)))"
  using decode_batch_rows_ok [of payload] decode_batch_validates [of payload]
  by (auto simp: list_all_iff split: sum.splits)

text \<open>Without a cancellation source the replay loop never stops as cancelled, whatever frames arrive.\<close>

theorem replay_without_cancel_runs_on:
  "snd (replay_loop og l NoCancel st fs) \<noteq> Cancelled"
  using loop_no_cancel [of og l st fs] by (cases "replay_loop og l NoCancel st fs") auto

text \<open>Once a boolean evidence flag of a flow is true, no later sequence of metadata merges makes it false.\<close>

theorem or_metadata_sticky:
  assumes "k \<in> set OR_METADATA_KEYS" and "dict_get m k = Some w" and "py_truth w"
  shows "\<exists>w'. dict_get (foldl merge_metadata m kvs) k = Some w' \<and> py_truth w'"
  using assms by (rule merge_metadata_fold_sticky)

lemma or_metadata_sticky_witness:
  "\<exists>w'. dict_get (foldl merge_metadata [(hd OR_METADATA_KEYS, PyBool True)] [(hd OR_METADATA_KEYS, PyBool False)]) (hd OR_METADATA_KEYS) = Some w' \<and> py_truth w'"
  by (rule or_metadata_sticky [where w = "PyBool True"]) (simp_all add: OR_METADATA_KEYS_def)

text \<open>Every capability of the built-in registry passes the offline-capability validation, budgets included.\<close>

theorem builtin_capabilities_accepted: "list_all (\<lambda>(k, c). validate_capability c = Inr []) BUILTIN_CAPABILITIES"
  by (rule builtin_capabilities_valid)

text \<open>Normalising a valid capability succeeds, gives a valid capability, and changes nothing when repeated.\<close>

theorem normalisation_keeps_validity:
  assumes "validate_capability c = Inr []"
  shows "\<exists>c'. normalized_capability c = Inr c' \<and> validate_capability c' = Inr [] \<and> normalized_capability c' = Inr c'"
  using normalized_capability_valid [OF assms] normalized_capability_stable by blast

lemma normalisation_keeps_validity_witness:
  "\<exists>c'. normalized_capability (snd (hd BUILTIN_CAPABILITIES)) = Inr c' \<and> validate_capability c' = Inr [] \<and>
     normalized_capability c' = Inr c'"
proof (rule normalisation_keeps_validity)
  show "validate_capability (snd (hd BUILTIN_CAPABILITIES)) = Inr []"
    using builtin_capabilities_valid by (simp add: BUILTIN_CAPABILITIES_def)
qed

text \<open>The mode of a built plan follows the request and the incompatibilities the plan records: strict or explicitly aggregate plans run in aggregate mode and record none, an explicit compatibility plan runs in compatibility mode, and otherwise the mode is aggregate exactly when none is recorded.\<close>

theorem plan_mode_decided:
  "(case build_rust_analysis_plan ps ds src link strict req of Inl _ \<Rightarrow> True
    | Inr plan \<Rightarrow>
        rp_execution_mode plan = (if strict \<or> req = Some AGGREGATE_EXECUTION_MODE then AGGREGATE_EXECUTION_MODE
          else if req = Some COMPATIBILITY_EXECUTION_MODE then COMPATIBILITY_EXECUTION_MODE
          else if rp_incompatibilities plan = [] then AGGREGATE_EXECUTION_MODE else COMPATIBILITY_EXECUTION_MODE) \<and>
        (rp_execution_mode plan = AGGREGATE_EXECUTION_MODE \<longleftrightarrow>
          rp_incompatibilities plan = [] \<and> req \<noteq> Some COMPATIBILITY_EXECUTION_MODE))"
  using build_mode [of ps ds src link strict req]
  by (fastforce simp: AGGREGATE_EXECUTION_MODE_def COMPATIBILITY_EXECUTION_MODE_def split: sum.split)

text \<open>In an aggregate plan the program ids of every plugin entry are sorted, in range, without duplicates, and stand for exactly the programs planned for that entry, which are none for an inapplicable one.\<close>

theorem aggregate_program_ids_resolve:
  "(case build_rust_analysis_plan ps ds src link strict req of Inl _ \<Rightarrow> True
    | Inr plan \<Rightarrow> (if rp_execution_mode plan = AGGREGATE_EXECUTION_MODE
        then list_all (ids_resolve plan) (rp_plugins plan) else True))"
  using aggregate_ids_resolve_all [of ps ds src link strict req] build_mode(1) [of ps ds src link strict req]
  by (simp split: sum.split)

text \<open>When a queued plan whose entries are in normal form passes verification against the current plugins, the plan built from them has the same plugin inventory, entry by entry up to program ids and applicability, unless the two explicit canonical texts are a SHA-256 collision.\<close>

theorem verified_plan_has_same_inventory:
  assumes "verify_rust_analysis_plan queued ps ds = Inr q" and "list_all entry_normal (rp_plugins queued)"
  shows "q = queued \<and> (\<exists>current m k. build_rust_analysis_plan ps ds (rp_source_type queued) (rp_link_type queued) False
       (Some (rp_execution_mode queued)) = Inr current \<and>
     semantic_text (rp_plugins current) = Inr m \<and> semantic_text (rp_plugins queued) = Inr k \<and>
     (map entry_identity (rp_plugins current) = map entry_identity (rp_plugins queued) \<or>
      sha256_collision (map of_char m) (map of_char k)))"
  using assms by (rule verified_inventory)

lemma verified_plan_has_same_inventory_witness:
  "\<exists>queued current m k. build_rust_analysis_plan [] [] ''network'' ''ethernet'' False None = Inr queued \<and>
     build_rust_analysis_plan [] [] (rp_source_type queued) (rp_link_type queued) False (Some (rp_execution_mode queued)) = Inr current \<and>
     semantic_text (rp_plugins current) = Inr m \<and> semantic_text (rp_plugins queued) = Inr k \<and>
     (map entry_identity (rp_plugins current) = map entry_identity (rp_plugins queued) \<or>
      sha256_collision (map of_char m) (map of_char k))"
proof -
  obtain queued where q: "build_rust_analysis_plan [] [] ''network'' ''ethernet'' False None = Inr queued"
    using empty_inventory_builds by blast
  from verified_plan_has_same_inventory [OF verify_built [OF q] built_entries_normal [OF q]] q show ?thesis by blast
qed

text \<open>An example for one of the findings: a clause whose value is the boolean True passes the planner validation, which takes it for the integer 1, but the encoder refuses it.\<close>

theorem boolean_values_split_planner_and_wire:
  "validate_clause \<lparr>sc_opcode = ''ip-protocol-in'', sc_values = [PyBool True]\<rparr> = Inr [] \<and>
   \<not> is_ok (encode_selector_clause \<lparr>cw_opcode = ''ip-protocol-in'', cw_values = [PyBool True]\<rparr>)"
  by code_simp

text \<open>A packet and its answer belong to the same conversation, whose two endpoints are exactly those of the packet.\<close>

theorem conversation_key_symmetric:
  "conversation_key_of (reverse_event e) = conversation_key_of e \<and>
   {ck_endpoint_a (conversation_key_of e), ck_endpoint_b (conversation_key_of e)} =
     {event_source_endpoint e, event_destination_endpoint e}"
  using reverse_same_key key_endpoints by blast

text \<open>Closing a tracker reports every live conversation exactly once, in order of last activity.\<close>

theorem finalize_reports_every_conversation:
  "let t = foldl tracker_step (tracker_init maximum) ops in
     mset (map cd_key (finalize t)) = mset (dict_keys (ct_states t)) \<and>
     sorted (map (\<lambda>d. f64_key (cd_event_time d)) (finalize t))"
  using finalize_keys [OF tracker_run_ok [OF tracker_init_ok]] finalize_complete(2) by (simp add: Let_def)

text \<open>After a node was revoked, and whatever else is asked of the controller short of enrolling that node again, an envelope of the node is refused and changes nothing.\<close>

theorem revoked_node_stays_out:
  assumes "list_all (\<lambda>call. case call of CallEnroll request \<Rightarrow> text_at (mesh_env.truncate env) request ''node_id'' \<noteq> i | _ \<Rightarrow> True) calls"
  shows "let c' = foldl (controller_step env) (fst (decommission_sensor_node env i reason c)) calls in
    ingest env i payload c' = (c', Inl (PermissionError ''Mesh node is not enrolled or has been revoked''))"
proof -
  have "list_all (gone.allowed i env) calls" using assms by (rule gone.allowed_list)
  from revoked_node_refused [OF this, of c reason payload] show ?thesis by (simp add: controller_step_def)
qed

lemma revoked_node_stays_out_witness:
  "let c' = foldl (controller_step example_controller_env)
       (fst (decommission_sensor_node example_controller_env ''n1'' ''lost'' (lk_controller example_link)))
       [CallIngest ''n1'' [], CallQueueCommand ''n1'' ''capture.stop'' [] ''me'' 60 None, CallEnroll [(''node_id'', PyStr ''n2'')]] in
    ingest example_controller_env ''n1'' [] c' = (c', Inl (PermissionError ''Mesh node is not enrolled or has been revoked''))"
  by (rule revoked_node_stays_out) (simp add: text_at_def py_str_def)

text \<open>Locking all sessions revokes every one of them, and a token whose session is revoked is never accepted again, whatever calls come in between.\<close>

theorem revoked_token_stays_out:
  "(case lockA env token True reason s of (s', Inl e) \<Rightarrow> True | (s', Inr n) \<Rightarrow> list_all (\<lambda>r. os_revoked_at r \<noteq> None) (au_sessions s')) \<and>
   (case session_with (token_hash t) s of
      None \<Rightarrow> True
    | Some row \<Rightarrow> if os_revoked_at row = None then True
        else snd (authenticate env (Some t) required (foldl (auth_step env) s calls)) \<noteq> Inr (Some r))"
  using lock_all_revokes [of env token reason s] revoked_stays_refused [of t s _ env required calls r]
  by (auto split: prod.split sum.split option.split)

text \<open>An attempt at the PIN is refused without change while the service is off; while the account is locked it is refused and does not count; a wrong PIN counts, and from the fifth on locks the account for 2 to 256 seconds; the right PIN clears the count.\<close>

theorem pin_attempt_outcome:
  "case au_account s of
     None \<Rightarrow> verify_pin_value env pin s = (s, Inl (AuthError ''authentication_unavailable'' ''PIN authentication is not enabled'' 409))
   | Some a \<Rightarrow>
       let now = ev_clock env (au_ticks s); failed = oa_failed_attempts a + 1 in
       if \<not> oa_setup_completed a \<or> \<not> oa_auth_enabled a
       then verify_pin_value env pin s = (s, Inl (AuthError ''authentication_unavailable'' ''PIN authentication is not enabled'' 409))
       else if locked_at a now \<noteq> None then \<exists>e. verify_pin_value env pin s = (s\<lparr>au_ticks := au_ticks s + 1\<rparr>, Inl e)
       else if pin_accepted env a pin
       then \<exists>s' b. verify_pin_value env pin s = (s', Inr ()) \<and> au_account s' = Some b \<and> oa_failed_attempts b = 0 \<and>
         oa_locked_until b = None \<and> au_sessions s' = au_sessions s
       else (\<exists>b. verify_pin_value env pin s = (s\<lparr>au_ticks := au_ticks s + 1, au_account := Some b\<rparr>,
           Inl (AuthError ''invalid_pin'' ''The operator PIN is incorrect'' 401)) \<and> oa_failed_attempts b = failed \<and>
         (if failed < 5 then oa_locked_until b = oa_locked_until a
          else \<exists>n. 2 \<le> n \<and> n \<le> 256 \<and> oa_locked_until b = Some (f64_add now (f64_of_nat n))))"
proof (cases "au_account s")
  case None
  then show ?thesis by (simp add: verify_pin_value_def run_simps)
next
  case (Some a)
  let ?now = "ev_clock env (au_ticks s)"
  show ?thesis
  proof (cases "oa_setup_completed a \<and> oa_auth_enabled a")
    case True
    have "oa_locked_until (pin_failed ?now a) = (if oa_failed_attempts a + 1 < 5 then oa_locked_until a
        else Some (f64_add ?now (f64_of_nat (lock_seconds (oa_failed_attempts a + 1)))))" "oa_failed_attempts (pin_failed ?now a) = oa_failed_attempts a + 1"
      by (simp_all add: pin_failed_def Let_def)
    with pin_attempt [OF Some _ _ refl, of env pin] True lock_seconds_bounds [of "oa_failed_attempts a + 1"] show ?thesis
      by (cases "locked_at a ?now") (auto simp: Some Let_def intro!: exI [of _ "pin_failed ?now a"])
  qed (auto simp: Some verify_pin_value_def run_simps Let_def)
qed

text \<open>Matching a record against a rule always ends, whatever the condition says, with an answer or with SigmaCompatibilityError.\<close>

theorem sigma_matching_ends:
  "case sigma_matches env p r of None \<Rightarrow> False | Some (Inl e) \<Rightarrow> \<exists>m. e = SigmaCompatibilityError m | Some (Inr b) \<Rightarrow> True"
  by (rule sigma_matches_total)

text \<open>Loading rules keeps exactly rules without validation errors, no identifier twice, and lists every other file as rejected.\<close>

theorem sigma_rules_sound:
  "let st = load_rules env files in
     list_all (\<lambda>r. validate_rule env r False = Inr []) (rs_rules st) \<and>
     distinct (filter (\<lambda>i. i \<noteq> []) (map (\<lambda>r. case rule_id env r of Inl e \<Rightarrow> [] | Inr i \<Rightarrow> i) (rs_rules st))) \<and>
     length (rs_rules st) + length (rs_rejected st) = length files"
proof -
  let ?st = "load_rules env files"
  from load_rules_sound [of env files] have "rs_ids ?st = filter (\<lambda>i. i \<noteq> []) (map (\<lambda>r. case rule_id env r of Inl e \<Rightarrow> [] | Inr i \<Rightarrow> i) (rs_rules ?st))"
    "distinct (rs_ids ?st)" "list_all (\<lambda>r. validate_rule env r False = Inr []) (rs_rules ?st)" unfolding rules_sound_def by blast+
  then show ?thesis using load_rules_counts [of env files] unfolding Let_def by metis
qed

text \<open>Making room in the telemetry spool is the same as walking the rows from the lowest priority, oldest first, and deleting until the new row fits, whatever priority it has; a queued row then keeps the spool within its limit unless it alone exceeds it.\<close>

theorem spool_sheds_lowest:
  assumes "distinct (map sp_sequence rows)"
  shows "by_priority (fst (make_room incoming priority max_bytes rows)) = shed incoming max_bytes (by_priority rows) \<and>
    length rows = length (fst (make_room incoming priority max_bytes rows)) + snd (make_room incoming priority max_bytes rows) \<and>
    (let s' = fst (enqueue_row env draw now sequence payload priority \<lparr>ms_rows = rows, ms_max_bytes = max_bytes\<rparr>) in
     if tk_length env (tk_seal env draw payload) \<le> max_bytes then bytes_pending s' \<le> max_bytes else length (ms_rows s') = 1)"
  using make_room_sheds [OF assms] enqueue_bound [of env draw now sequence payload priority "\<lparr>ms_rows = rows, ms_max_bytes = max_bytes\<rparr>"]
  by (cases "tk_length env (tk_seal env draw payload) \<le> max_bytes") (simp_all add: Let_def)

lemma spool_sheds_lowest_witness:
  "let rows = [\<lparr>sp_sequence = 1, sp_priority = 5, sp_created_at = 0, sp_size = 6, sp_token = []\<rparr>, \<lparr>sp_sequence = 2, sp_priority = 1, sp_created_at = 0, sp_size = 4, sp_token = []\<rparr>];
       tokens = \<lparr>tk_seal = (\<lambda>_ d. d), tk_unseal = Some, tk_length = length\<rparr> in
    by_priority (fst (make_room 3 0 10 rows)) = shed 3 10 (by_priority rows) \<and>
    length rows = length (fst (make_room 3 0 10 rows)) + snd (make_room 3 0 10 rows) \<and>
    (let s' = fst (enqueue_row tokens 0 0 3 [] 0 \<lparr>ms_rows = rows, ms_max_bytes = 10\<rparr>) in
     if tk_length tokens (tk_seal tokens 0 []) \<le> 10 then bytes_pending s' \<le> 10 else length (ms_rows s') = 1)"
  unfolding Let_def by (rule spool_sheds_lowest [unfolded Let_def]) simp

text \<open>When the storage layer fails on an envelope, the receipt has been written already: the sensor is told of the failure, but when it sends the same envelope again it is acknowledged as received and nothing applies it.\<close>

theorem failed_envelope_lost:
  assumes "good_envelope (mesh_env.truncate cenv) e" "stored_type (te_type e)" "listening (te_node_id e) c"
    "receipt_of c (te_node_id e) (te_sequence e) = None"
    "store_envelope cenv (te_node_id e) (te_type e) (envelope_rows e) (mc_store c) = (st', Inl failure)"
  shows "\<exists>c1 c2. ingest cenv (te_node_id e) (envelope_to_dict e) c = (c1, Inl failure) \<and>
    ingest cenv (te_node_id e) (envelope_to_dict e) c1 =
      (c2, Inr \<lparr>ir_ack = te_sequence e, ir_duplicate = True, ir_applied = None, ir_commands = []\<rparr>) \<and> mc_store c2 = st'"
  using assms by (rule failed_then_acknowledged)

lemma failed_envelope_lost_witness:
  "\<exists>c1 c2. let cenv = example_controller_env\<lparr>ce_store := (\<lambda>_ st. (st, Inl (ValueError ''disk'')))\<rparr>; e = example_envelope in
    ingest cenv ''n1'' (envelope_to_dict e) (lk_controller example_link) = (c1, Inl (ValueError ''disk'')) \<and>
    ingest cenv ''n1'' (envelope_to_dict e) c1 =
      (c2, Inr \<lparr>ir_ack = 1, ir_duplicate = True, ir_applied = None, ir_commands = []\<rparr>) \<and> mc_store c2 = []"
proof -
  let ?cenv = "example_controller_env\<lparr>ce_store := (\<lambda>_ st. (st, Inl (ValueError ''disk'')))\<rparr>" and ?c = "lk_controller example_link"
  have env: "mesh_env.truncate ?cenv = mesh_env.truncate example_controller_env" by (simp add: mesh_env.truncate_def)
  have fields: "te_node_id example_envelope = ''n1''" "te_sequence example_envelope = 1" "te_type example_envelope = ''flows''" "envelope_rows example_envelope = []"
    by (simp_all add: example_envelope_def envelope_rows_def)
  have put: "store_envelope ?cenv ''n1'' ''flows'' [] (mc_store ?c) = ([], Inl (ValueError ''disk''))"
    by (simp add: store_envelope_def items_of_def list_items_def get_or_def Let_def bindS_def example_link_def)
  have "listening ''n1'' ?c" "receipt_of ?c ''n1'' 1 = None" "stored_type ''flows''"
    by (simp_all add: example_link_def listening_def find_node_def gone_def receipt_of_def stored_type_def VALID_ENVELOPE_TYPES_def)
  then show ?thesis
    using failed_envelope_lost [of ?cenv example_envelope ?c "[]" "ValueError ''disk''"] example_good put
    by (simp add: env fields Let_def)
qed

text \<open>A complete and intact archive of a case in which, as shutil.make_archive writes it, an entry for the folder comes before the files in it, is never imported: the folder is extracted as a file and the manifest cannot be written.\<close>

theorem make_archive_refused:
  assumes "ca_zip env archive = Some \<lparr>za_entries = (name @ ''/'', 0, []) # files, za_damaged = False\<rparr>"
    "(name @ ''/'' @ ''manifest.json'', n, content) \<in> set files" "path_parts name \<noteq> []"
    "length archive \<le> BUNDLE_BYTES" "sha256_hex archive = cp_archive_digest p" "cf_cases f (node, cp_case p) = None"
  shows "\<exists>e. import_case env node p archive f = (f, Inl e)"
  using assms by (rule make_archive_not_imported)

lemma make_archive_refused_witness:
  "\<exists>e. import_case \<lparr>me_float_text = (\<lambda>_. []), me_float_of_text = (\<lambda>_. None), me_str = (\<lambda>_. []), me_loads = (\<lambda>_. Some (PyDict [])),
      ca_zip = (\<lambda>_. Some \<lparr>za_entries = [(''case/'', 0, []), (''case/manifest.json'', 2, [123, 125])], za_damaged = False\<rparr>)\<rparr> ''n1''
    (part_of ''c-1'' (sha256_hex [80, 75]) (sha256_hex [123, 125]) [[80, 75]] 0) [80, 75] no_case_files = (no_case_files, Inl e)"
  by (rule make_archive_refused [of _ _ "''case''" "[(''case/manifest.json'', 2, [123, 125])]" 2 "[123, 125]"])
    (simp_all add: path_parts_def BUNDLE_BYTES_def no_case_files_def)

text \<open>A selection whose name begins with a keyword and a dash or a dot, which the pattern for names allows, is cut in two by the tokeniser: the rule raises, or reads a different condition.\<close>

theorem keyword_prefix_splits_names:
  "condition_value [(''not-dns'', True)] ''not-dns'' = Some (Inl (SigmaCompatibilityError ''unknown selection: -dns'')) \<and>
   condition_value [(''true.positive'', False), (''.positive'', True)] ''true.positive'' = Some (Inl (SigmaCompatibilityError ''unsupported condition syntax''))"
  by (intro conjI keyword_prefix_cut)

end
